(* ===== verification/Prelude.thy ===== *)
theory Prelude
  imports
    Main
    "HOL-Library.Char_ord"
    "HOL-Library.List_Lexorder"
    "HOL-Library.Product_Lexorder"
    "HOL-Library.Sublist"
    "HOL-Library.AList"
    "HOL-Library.Word"
begin

text \<open>
  Shared vocabulary of the development: the Python values the components exchange and
  the generic facts about them.

  \<^item> A Python \<open>str\<close> is modelled by its UTF-8 encoding, a \<^typ>\<open>string\<close>. Equality,
    concatenation, splitting at an ASCII separator, prefix and suffix tests and the order
    the code sorts by (\<open>key=lambda s: s.encode("utf-8")\<close>, which is also the code-point
    order of \<open>str\<close>) are the same on both sides.
  \<^item> A \<open>uuid.UUID\<close> is its 128-bit integer; the order of \<open>UUID.bytes\<close> is the unsigned
    order of the word.
  \<^item> An exception is the left summand of a result; its constructor is the exception class
    and its argument the message.
  \<^item> A \<open>dict\<close> is an association list in insertion order; assignment is
    \<open>AList.update\<close>, which keeps the position of an existing key.
\<close>

subsection \<open>Collections of simplification rules\<close>

named_theorems str_simps \<open>facts about the string primitives\<close>
named_theorems res_simps \<open>facts about results and exceptions\<close>

subsection \<open>Identifiers, results\<close>

type_synonym uuid = "128 word"

datatype py_exn =
    TypeError string
  | ValueError string
  | RuntimeError string
  | KeyError string
  | IndexError string
  | ZeroDivisionError string
  | OverflowError string
  | StoreCommitError string
  | AssertionError string
  | AttributeError string

type_synonym 'a res = "py_exn + 'a"

definition is_ok :: "'e + 'a \<Rightarrow> bool" where
  "is_ok r = (case r of Inl _ \<Rightarrow> False | Inr _ \<Rightarrow> True)"

lemma is_ok_simps [simp, res_simps]: "is_ok (Inr x)" "\<not> is_ok (Inl e)"
  by (simp_all add: is_ok_def)

lemma map_sum_Inr: "map_sum id f r = Inr y \<longleftrightarrow> (\<exists>x. r = Inr x \<and> y = f x)"
  by (cases r) auto

lemma is_okE: "is_ok r \<Longrightarrow> (\<And>x. r = Inr x \<Longrightarrow> P) \<Longrightarrow> P"
  by (cases r) auto

subsection \<open>Strings\<close>

text \<open>\<open>s.split(c)\<close> for a one-character separator.\<close>

fun split_on :: "'a \<Rightarrow> 'a list \<Rightarrow> 'a list list" where
  "split_on c [] = [[]]"
| "split_on c (x # xs) =
     (if x = c then [] # split_on c xs
      else (case split_on c xs of [] \<Rightarrow> [[x]] | p # ps \<Rightarrow> (x # p) # ps))"

text \<open>\<open>c.join(parts)\<close>.\<close>

fun join_with :: "'a list \<Rightarrow> 'a list list \<Rightarrow> 'a list" where
  "join_with sep [] = []"
| "join_with sep [p] = p"
| "join_with sep (p # q # ps) = p @ sep @ join_with sep (q # ps)"

text \<open>\<open>s.rstrip(c)\<close> for one character.\<close>

definition rstrip_char :: "'a \<Rightarrow> 'a list \<Rightarrow> 'a list" where
  "rstrip_char c s = rev (dropWhile (\<lambda>x. x = c) (rev s))"

lemma split_on_not_Nil [simp]: "split_on c s \<noteq> []"
  by (cases s) (auto split: list.splits)

lemma split_on_join [str_simps]: "join_with [c] (split_on c s) = s"
proof (induction s)
  case (Cons x xs)
  obtain p ps where p: "split_on c xs = p # ps"
    by (cases "split_on c xs") auto
  with Cons show ?case by (cases ps) auto
qed simp

lemma split_on_no_sep: "p \<in> set (split_on c s) \<Longrightarrow> c \<notin> set p"
proof (induction s arbitrary: p)
  case (Cons x xs)
  then show ?case
    by (cases "split_on c xs") (auto split: if_splits)
qed simp

lemma split_on_id: "c \<notin> set s \<Longrightarrow> split_on c s = [s]"
  by (induction s) auto

lemma split_on_append_sep: "split_on c (a @ c # b) = split_on c a @ split_on c b"
proof (induction a)
  case (Cons x xs)
  obtain p ps where "split_on c xs = p # ps"
    by (cases "split_on c xs") auto
  with Cons show ?case by auto
qed simp

lemma rstrip_char_id: "s = [] \<or> last s \<noteq> c \<Longrightarrow> rstrip_char c s = s"
  by (cases s rule: rev_cases) (auto simp: rstrip_char_def)

text \<open>Decimal rendering of a non-negative integer, \<open>str(n)\<close>.\<close>

definition digit_char :: "nat \<Rightarrow> char" where
  "digit_char d = char_of (48 + d)"

fun str_nat :: "nat \<Rightarrow> string" where
  "str_nat n = (if n < 10 then [digit_char n] else str_nat (n div 10) @ [digit_char (n mod 10)])"

declare str_nat.simps [simp del]

lemma str_nat_not_Nil [simp]: "str_nat n \<noteq> []"
  by (subst str_nat.simps) simp

text \<open>\<open>str(u)\<close> of a UUID: 32 lowercase hexadecimal digits in groups of 8, 4, 4, 4, 12.\<close>

definition hex_char :: "nat \<Rightarrow> char" where
  "hex_char d = (if d < 10 then char_of (48 + d) else char_of (87 + d))"

definition hex_digits :: "nat \<Rightarrow> nat \<Rightarrow> string" where
  "hex_digits k n = map (\<lambda>i. hex_char (n div 16 ^ (k - 1 - i) mod 16)) [0..<k]"

definition str_uuid :: "uuid \<Rightarrow> string" where
  "str_uuid u =
     (let h = hex_digits 32 (unat u)
      in take 8 h @ ''-'' @ take 4 (drop 8 h) @ ''-'' @ take 4 (drop 12 h) @ ''-''
         @ take 4 (drop 16 h) @ ''-'' @ drop 20 h)"

subsection \<open>Ordered sets of strings and keys\<close>

text \<open>\<open>sorted(set(xs))\<close>: deduplicate, then sort ascending.\<close>

definition sorted_set :: "('a::linorder) list \<Rightarrow> 'a list" where
  "sorted_set xs = sort (remdups xs)"

lemma set_sorted_set [simp]: "set (sorted_set xs) = set xs"
  by (simp add: sorted_set_def)

lemma distinct_sorted_set [simp]: "distinct (sorted_set xs)"
  by (simp add: sorted_set_def)

lemma sorted_sorted_set [simp]: "sorted (sorted_set xs)"
  by (simp add: sorted_set_def)

lemma sorted_set_id: "sorted xs \<Longrightarrow> distinct xs \<Longrightarrow> sorted_set xs = xs"
  by (simp add: sorted_set_def distinct_remdups_id sorted_sort_id)

lemma sorted_set_cong: "set xs = set ys \<Longrightarrow> sorted_set xs = sorted_set ys"
  by (intro sorted_distinct_set_unique) simp_all

subsection \<open>Dictionaries\<close>

text \<open>A dict comprehension assigns its pairs from left to right; the last value of a key wins.\<close>

definition py_dict :: "('k \<times> 'v) list \<Rightarrow> ('k \<times> 'v) list" where
  "py_dict kvs = fold (\<lambda>(k, v) d. AList.update k v d) kvs []"

lemma map_of_fold_update:
  "map_of (fold (\<lambda>(k, v) d. AList.update k v d) kvs d) = map_of d ++ map_of (rev kvs)"
proof (induction kvs arbitrary: d)
  case (Cons kv kvs)
  then show ?case
    by (cases kv) (auto simp: update_conv' map_add_def fun_eq_iff split: option.splits)
qed simp

lemma map_of_py_dict [simp]: "map_of (py_dict kvs) = map_of (rev kvs)"
  by (simp add: py_dict_def map_of_fold_update)

lemma distinct_keys_fold_update:
  "distinct (map fst d) \<Longrightarrow> distinct (map fst (fold (\<lambda>(k, v) d. AList.update k v d) kvs d))"
proof (induction kvs arbitrary: d)
  case (Cons kv kvs)
  then show ?case by (cases kv) (auto intro: distinct_update)
qed simp

lemma distinct_keys_py_dict [simp]: "distinct (map fst (py_dict kvs))"
  by (simp add: py_dict_def distinct_keys_fold_update)

lemma update_fresh: "k \<notin> fst ` set d \<Longrightarrow> AList.update k v d = d @ [(k, v)]"
  by (induction d) auto

lemma py_dict_id: "distinct (map fst kvs) \<Longrightarrow> py_dict kvs = kvs"
proof -
  have "distinct (map fst (d @ kvs)) \<Longrightarrow> fold (\<lambda>(k, v) d. AList.update k v d) kvs d = d @ kvs" for d
  proof (induction kvs arbitrary: d)
    case (Cons kv kvs)
    then show ?case by (cases kv) (auto simp: update_fresh)
  qed simp
  from this [of "[]"] show "distinct (map fst kvs) \<Longrightarrow> py_dict kvs = kvs"
    by (simp add: py_dict_def)
qed

lemma keys_py_dict [simp]: "fst ` set (py_dict kvs) = fst ` set kvs"
proof -
  have "dom (map_of (py_dict kvs)) = dom (map_of (rev kvs))" by simp
  then show ?thesis by (simp only: dom_map_of_conv_image_fst set_rev)
qed

lemma map_of_rev_distinct: "distinct (map fst kvs) \<Longrightarrow> map_of (rev kvs) = map_of kvs"
  by (metis distinct_rev map_of_inject_set rev_map set_rev)

subsection \<open>Lists\<close>

text \<open>\<open>enumerate(xs)\<close>.\<close>

abbreviation enum_list :: "'a list \<Rightarrow> (nat \<times> 'a) list" where
  "enum_list xs \<equiv> List.enumerate 0 xs"

lemma in_enum_list [simp]: "(i, x) \<in> set (enum_list xs) \<longleftrightarrow> i < length xs \<and> x = xs ! i"
  by (auto simp: in_set_enumerate_eq)

lemma ball_fresh_insert:
  "(\<forall>x \<in> A. f x \<notin> insert (f e) S) \<longleftrightarrow> (\<forall>x \<in> A. f x \<notin> S) \<and> f e \<notin> f ` A"
proof
  assume *: "\<forall>x \<in> A. f x \<notin> insert (f e) S"
  then show "(\<forall>x \<in> A. f x \<notin> S) \<and> f e \<notin> f ` A" by auto
next
  assume *: "(\<forall>x \<in> A. f x \<notin> S) \<and> f e \<notin> f ` A"
  show "\<forall>x \<in> A. f x \<notin> insert (f e) S"
  proof
    fix x assume "x \<in> A"
    with * have "f x \<notin> S" "f x \<noteq> f e" by (auto dest: sym)
    then show "f x \<notin> insert (f e) S" by simp
  qed
qed

lemma enum_listE: "x \<in> set xs \<Longrightarrow> (\<And>i. (i, x) \<in> set (enum_list xs) \<Longrightarrow> P) \<Longrightarrow> P"
  by (metis in_enum_list in_set_conv_nth)

lemma ex_list_iff: "(\<exists>xs. P xs) \<longleftrightarrow> P [] \<or> (\<exists>x xs. P (x # xs))"
  by (metis list.exhaust)

lemma concat_eq_Nil_iff: "concat xss = [] \<longleftrightarrow> (\<forall>xs \<in> set xss. xs = [])"
  by auto

lemma length_filter_eq_1:
  "length (filter P xs) = 1 \<longleftrightarrow> (\<exists>i < length xs. P (xs ! i) \<and> (\<forall>j < length xs. P (xs ! j) \<longrightarrow> j = i))"
proof -
  have "length (filter P xs) = card {i. i < length xs \<and> P (xs ! i)}"
    by (rule length_filter_conv_card)
  then show ?thesis by (auto simp: card_1_singleton_iff set_eq_iff)
qed

text \<open>\<open>tuple(dict.fromkeys(xs))\<close>: the first occurrence of each element.\<close>

fun from_keys :: "'a list \<Rightarrow> 'a list" where
  "from_keys [] = []"
| "from_keys (x # xs) = x # filter (\<lambda>y. y \<noteq> x) (from_keys xs)"

lemma set_from_keys [simp]: "set (from_keys xs) = set xs"
  by (induction xs) auto

lemma distinct_from_keys [simp]: "distinct (from_keys xs)"
  by (induction xs) auto

end
