(* ===== verification/Core_Enums.thy ===== *)
theory Core_Enums
  imports Prelude
begin

text \<open>
  The closed enumerations of \<open>core/enums.py\<close>, the stable rejection codes of
  \<open>core/errors.py\<close> and the plan enumerations of \<open>core/models/plan.py\<close>. A member name
  that several enumerations share carries a short prefix. The \<open>.value\<close> strings are
  given where the code reads them.
\<close>

section \<open>core/enums.py\<close>

datatype migration_session_status = Drafting | ReadyToConfirm | AttachedToRun | SessionClosed

datatype interaction_status = InputReady | PausingForInput | WaitingForUser | ApplyingCorrection

datatype correction_intent_status =
    Received | NeedsClarification | NeedsConfirmation | Accepted | Applied
  | DeferredToFollowUp | Rejected

datatype slice_kind = Contract | Implementation | TestTranslation | TestGeneration

datatype artifact_kind = GeneratedCode | DeclarativeConfig | ResourceFile

datatype slice_attempt_status =
    SaReady | SaRunning | SaLocalVerifying | SaLocallyVerified | SaIntegrationQueued
  | SaIntegrating | SaRegenerating | SaIntegrated | SaTerminalFailed | SaCancelled

datatype plan_edge_kind = Requires | OrderedBefore

datatype run_status =
    Created | Planning | Executing | Verifying | Reporting | Completed | PartiallyCompleted
  | Failed | Cancelled

datatype failure_reason =
    AnalysisFailed | DossierInconsistent | PlanFailedReason | ExecutionFailed
  | VerificationTerminal | ReportGenerationFailed | BudgetExhausted | ResourceExhausted
  | OutputLimitExceededReason | SliceRegenerationExhausted | NondeterministicVerification

datatype phase = PhPlan | PhExecute | PhVerify | PhReport

datatype advice_kind = ExploreReassignment | RepairDecisionAdvice | RouteSuggestion | PlanRevision
  | AskUser

datatype check_action = Scaffold | Compile | Test | Lint | TypeCheck

datatype diagnostic_severity = SevError | SevWarning

datatype check_status =
    Passed | CheckFailed | TimedOut | CheckOutputLimitExceeded | InfrastructureError

datatype session_kind =
    AnalyzeAuxiliary | PlanAuxiliary | SkContract | SkImplementation | SkTestTranslation
  | SkTestGeneration | ExploreCoordinator | ExecuteSupervisor | RepairSession

datatype attribution_reliability = Reliable | Uncertain | Dynamic

fun slice_kind_value :: "slice_kind \<Rightarrow> string" where
  "slice_kind_value Contract = ''CONTRACT''"
| "slice_kind_value Implementation = ''IMPLEMENTATION''"
| "slice_kind_value TestTranslation = ''TEST_TRANSLATION''"
| "slice_kind_value TestGeneration = ''TEST_GENERATION''"

fun plan_edge_kind_value :: "plan_edge_kind \<Rightarrow> string" where
  "plan_edge_kind_value Requires = ''REQUIRES''"
| "plan_edge_kind_value OrderedBefore = ''ORDERED_BEFORE''"

section \<open>core/errors.py\<close>

datatype (plugins only: code) stable_error_code =
    TOOL_PHASE_DENIED | TOOL_NOT_FOUND | TOOL_SCHEMA_INVALID
  | PATH_DENIED | READ_OUT_OF_SCOPE | WRITE_SCOPE_VIOLATION
  | EDIT_TARGET_NOT_FOUND | EDIT_AMBIGUOUS | READ_LIMIT_EXCEEDED
  | WRITE_LIMIT_EXCEEDED | QUERY_TIMEOUT | TRUNCATED
  | PATH_OUTSIDE_SNAPSHOT | TEXT_FALLBACK_UNSUPPORTED | SHELL_TIMEOUT
  | SHELL_LIMIT_EXCEEDED | EXEC_TIMEOUT | EXEC_SCRIPT_ERROR
  | STALE_VERSION | IDEMPOTENCY_CONFLICT | STALE_DISPATCH_RESULT
  | MODEL_BINDING_INVALID | PHASE_STATUS_MISMATCH | CANDIDATE_REF_CONFLICT
  | REMOTE_REF_MOVED | CHECKPOINT_WRITE_FAILED | OUTPUT_LIMIT_EXCEEDED
  | SOURCE_FILE_TOO_LARGE | ANALYSIS_INFRA_ERROR | DEPENDENCY_UNAVAILABLE
  | SPEC_TOO_LARGE | SPEC_JSON_INVALID | SPEC_DUPLICATE_KEY
  | SPEC_DEPTH_EXCEEDED | SPEC_SCHEMA_UNSUPPORTED | SPEC_SCHEMA_INVALID
  | CHECK_ACTION_UNSUPPORTED | CHECK_SET_INCOMPLETE | DESCRIPTOR_NOT_FOUND
  | DESCRIPTOR_DIGEST_MISMATCH | TOOLCHAIN_IMAGE_UNAVAILABLE | SPEC_IN_USE
  | PLAN_CYCLE | PLAN_SCOPE_CONFLICT | PLAN_BLUEPRINT_VIOLATION
  | PLAN_COVERAGE_INVALID | PLAN_SIZE_EXCEEDED | PLAN_EDGE_INVALID
  | PLAN_RANK_INCONSISTENT | PLAN_PROPOSAL_INVALID | CHECK_MISSING
  | CHECK_DUPLICATE | CHECK_UNEXPECTED | INVOCATION_HASH_MISMATCH
  | CONTEXT_BUDGET_EXCEEDED | CONTEXT_CAPABILITY_INVALID | RECOVERY_LEDGER_INCONSISTENT

section \<open>core/models/plan.py\<close>

datatype edge_provenance = Structural | ImportStatic | ImportUnknown | Coverage | WriteScopeConflict

datatype artifact_action = Generate | Translate | Copy

section \<open>analysis/models.py\<close>

datatype module_role = Source | TestRole

datatype module_coverage = Covered | EmptyTestSuite | Undetermined

datatype analysis_capability = Full | TextFallback

fun module_role_value :: "module_role \<Rightarrow> string" where
  "module_role_value Source = ''SOURCE''"
| "module_role_value TestRole = ''TEST''"

fun module_coverage_value :: "module_coverage \<Rightarrow> string" where
  "module_coverage_value Covered = ''COVERED''"
| "module_coverage_value EmptyTestSuite = ''EMPTY_TEST_SUITE''"
| "module_coverage_value Undetermined = ''UNDETERMINED''"

lemma slice_kind_value_inj: "slice_kind_value a = slice_kind_value b \<longleftrightarrow> a = b"
  by (cases a; cases b) auto

lemma plan_edge_kind_value_inj: "plan_edge_kind_value a = plan_edge_kind_value b \<longleftrightarrow> a = b"
  by (cases a; cases b) auto

end
