(* ===== verification/Py_Regex.thy ===== *)
theory Py_Regex
  imports Prelude
begin

text \<open>
  The part of Python's \<open>re\<close> module the sources use: character classes, sequence, greedy
  alternatives and repetition, one capturing group, the word boundary \<^verbatim>\<open>\b\<close> and the end
  anchor \<open>$\<close>. A match is searched by backtracking; the matcher returns every way to match,
  in the order the backtracking engine tries them, so that its first element is the match
  Python reports. \<open>$\<close> without \<open>re.MULTILINE\<close> matches at the end and also before one
  trailing newline.
\<close>

datatype rx =
    Eps
  | Cls "char \<Rightarrow> bool"
  | Seq rx rx
  | Alt rx rx
  | Star rx
  | Grp rx
  | WordB
  | EndZ

type_synonym rx_state = "char option \<times> string \<times> string option"

abbreviation rx_rest :: "rx_state \<Rightarrow> string" where
  "rx_rest st \<equiv> fst (snd st)"

definition is_word_char :: "char \<Rightarrow> bool" where
  "is_word_char c \<longleftrightarrow> c \<in> set ''abcdefghijklmnopqrstuvwxyzABCDEFGHIJKLMNOPQRSTUVWXYZ0123456789_''"

fun word_at :: "char option \<Rightarrow> bool" where
  "word_at None = False"
| "word_at (Some c) = is_word_char c"

definition head_opt :: "'a list \<Rightarrow> 'a option" where
  "head_opt xs = (case xs of [] \<Rightarrow> None | x # _ \<Rightarrow> Some x)"

function (sequential) rx_run :: "rx \<Rightarrow> rx_state \<Rightarrow> rx_state list" where
  "rx_run Eps st = [st]"
| "rx_run (Cls p) (prev, [], cap) = []"
| "rx_run (Cls p) (prev, c # s, cap) = (if p c then [(Some c, s, cap)] else [])"
| "rx_run (Seq a b) st = concat (map (rx_run b) (rx_run a st))"
| "rx_run (Alt a b) st = rx_run a st @ rx_run b st"
| "rx_run (Star r) st =
     concat (map (\<lambda>st'. if length (rx_rest st') < length (rx_rest st)
                        then rx_run (Star r) st' else []) (rx_run r st)) @ [st]"
| "rx_run (Grp r) (prev, s, cap) =
     map (\<lambda>(prev', s', _). (prev', s', Some (take (length s - length s') s)))
       (rx_run r (prev, s, cap))"
| "rx_run WordB (prev, s, cap) =
     (if word_at prev \<noteq> word_at (head_opt s) then [(prev, s, cap)] else [])"
| "rx_run EndZ (prev, s, cap) = (if s = [] \<or> s = [CHR 0x0A] then [(prev, s, cap)] else [])"
  by pat_completeness auto
termination
  by (relation "measures [\<lambda>(r, st). size r, \<lambda>(r, st). length (rx_rest st)]") auto

text \<open>\<open>re.match\<close>: the first way to match at the start of the text.\<close>

definition re_match :: "rx \<Rightarrow> string \<Rightarrow> rx_state option" where
  "re_match r s = head_opt (rx_run r (None, s, None))"

definition re_matches :: "rx \<Rightarrow> string \<Rightarrow> bool" where
  "re_matches r s \<longleftrightarrow> re_match r s \<noteq> None"

text \<open>\<open>re.search\<close>: the leftmost start that matches.\<close>

fun re_search_from :: "rx \<Rightarrow> char option \<Rightarrow> string \<Rightarrow> rx_state option" where
  "re_search_from r prev [] = head_opt (rx_run r (prev, [], None))"
| "re_search_from r prev (c # s) =
     (case head_opt (rx_run r (prev, c # s, None)) of
        Some m \<Rightarrow> Some m
      | None \<Rightarrow> re_search_from r (Some c) s)"

definition re_search :: "rx \<Rightarrow> string \<Rightarrow> rx_state option" where
  "re_search r s = re_search_from r None s"

text \<open>\<open>re.fullmatch(...) is not None\<close>.\<close>

definition re_fullmatch :: "rx \<Rightarrow> string \<Rightarrow> bool" where
  "re_fullmatch r s = list_ex (\<lambda>st. rx_rest st = []) (rx_run r (None, s, None))"

subsection \<open>Derived constructs\<close>

abbreviation Plus :: "rx \<Rightarrow> rx" where
  "Plus r \<equiv> Seq r (Star r)"

abbreviation Opt :: "rx \<Rightarrow> rx" where
  "Opt r \<equiv> Alt r Eps"

fun rx_upto :: "nat \<Rightarrow> rx \<Rightarrow> rx" where
  "rx_upto 0 r = Eps"
| "rx_upto (Suc n) r = Opt (Seq r (rx_upto n r))"

definition rx_lit :: "string \<Rightarrow> rx" where
  "rx_lit s = foldr (\<lambda>c r. Seq (Cls (\<lambda>x. x = c)) r) s Eps"

fun rx_seq :: "rx list \<Rightarrow> rx" where
  "rx_seq [] = Eps"
| "rx_seq (r # rs) = Seq r (rx_seq rs)"

subsection \<open>What the matcher accepts\<close>

lemma head_opt_None_iff [simp]: "head_opt xs = None \<longleftrightarrow> xs = []"
  by (cases xs) (auto simp: head_opt_def)

text \<open>Whether there is a way to match at all, without listing the ways.\<close>

definition rx_acc :: "rx \<Rightarrow> rx_state \<Rightarrow> bool" where
  "rx_acc r st \<longleftrightarrow> rx_run r st \<noteq> []"

lemma re_matches_iff: "re_matches r s \<longleftrightarrow> rx_acc r (None, s, None)"
  by (simp add: re_matches_def re_match_def rx_acc_def del: not_None_eq)

lemma rx_acc_Seq: "rx_acc (Seq a b) st \<longleftrightarrow> (\<exists>st' \<in> set (rx_run a st). rx_acc b st')"
  by (auto simp: rx_acc_def)

lemma rx_acc_End: "rx_acc EndZ (prev, s, cap) \<longleftrightarrow> s = [] \<or> s = [CHR 0x0A]"
  by (simp add: rx_acc_def)

lemma rx_acc_Cls: "rx_acc (Cls p) (prev, s, cap) \<longleftrightarrow> (\<exists>c t. s = c # t \<and> p c)"
  by (cases s) (auto simp: rx_acc_def)

lemma rx_lit_Cons: "rx_lit (c # s) = Seq (Cls (\<lambda>x. x = c)) (rx_lit s)"
  by (simp add: rx_lit_def)

lemma rx_lit_Nil: "rx_lit [] = Eps"
  by (simp add: rx_lit_def)

lemma rx_run_lit:
  "rx_run (rx_lit l) (prev, s, cap) =
     (if prefix l s then [(if l = [] then prev else Some (last l), drop (length l) s, cap)] else [])"
proof (induction l arbitrary: prev s)
  case Nil
  then show ?case by (simp add: rx_lit_Nil)
next
  case (Cons c l)
  then show ?case by (cases s) (auto simp: rx_lit_Cons)
qed

lemma rx_acc_lit: "rx_acc (Seq (rx_lit l) r) (prev, s, cap) \<longleftrightarrow>
    (\<exists>t. s = l @ t \<and> rx_acc r (if l = [] then prev else Some (last l), t, cap))"
  by (auto simp: rx_acc_Seq rx_run_lit prefix_def)

text \<open>
  A greedy run of a character class; the general equation of \<^const>\<open>Star\<close> unfolds itself
  and stays out of the simplifier.
\<close>

declare rx_run.simps(6) [simp del]

lemma rx_run_star_cls [simp]:
  "rx_run (Star (Cls p)) (prev, [], cap) = [(prev, [], cap)]"
  "rx_run (Star (Cls p)) (prev, c # s, cap) =
     (if p c then rx_run (Star (Cls p)) (Some c, s, cap) else []) @ [(prev, c # s, cap)]"
  by (subst rx_run.simps(6), simp)+

lemma rx_star_cls_mem:
  "st' \<in> set (rx_run (Star (Cls p)) (prev, s, cap)) \<longleftrightarrow>
     (\<exists>w s'. s = w @ s' \<and> (\<forall>c \<in> set w. p c)
        \<and> st' = (if w = [] then prev else Some (last w), s', cap))"
proof (induction s arbitrary: prev)
  case (Cons c s)
  have split: "(\<exists>w s'. c # s = w @ s' \<and> Q w s') \<longleftrightarrow> Q [] (c # s) \<or> (\<exists>w s'. s = w @ s' \<and> Q (c # w) s')"
    for Q by (auto simp: Cons_eq_append_conv)
  show ?case
    unfolding split by (auto simp: Cons.IH split: if_splits)
qed simp

lemma rx_plus_cls_mem:
  "st' \<in> set (rx_run (Plus (Cls p)) (prev, s, cap)) \<longleftrightarrow>
     (\<exists>w s'. w \<noteq> [] \<and> s = w @ s' \<and> (\<forall>c \<in> set w. p c) \<and> st' = (Some (last w), s', cap))"
proof (cases s)
  case (Cons c t)
  have split: "(\<exists>w s'. w \<noteq> [] \<and> c # t = w @ s' \<and> Q w s') \<longleftrightarrow> (\<exists>w s'. t = w @ s' \<and> Q (c # w) s')"
    for Q by (auto simp: Cons_eq_append_conv)
  show ?thesis
    unfolding Cons split by (auto simp: rx_star_cls_mem split: if_splits)
qed simp

lemma rx_acc_plus_cls: "rx_acc (Seq (Plus (Cls p)) r) (prev, s, cap) \<longleftrightarrow>
    (\<exists>w t. w \<noteq> [] \<and> s = w @ t \<and> (\<forall>c \<in> set w. p c) \<and> rx_acc r (Some (last w), t, cap))"
  unfolding rx_acc_Seq [of "Plus (Cls p)"] Bex_def rx_plus_cls_mem by blast

lemma rx_upto_cls_mem:
  "st' \<in> set (rx_run (rx_upto n (Cls p)) (prev, s, cap)) \<longleftrightarrow>
     (\<exists>w s'. length w \<le> n \<and> s = w @ s' \<and> (\<forall>c \<in> set w. p c)
        \<and> st' = (if w = [] then prev else Some (last w), s', cap))"
proof (induction n arbitrary: prev s)
  case (Suc n)
  show ?case
  proof (cases s)
    case (Cons c t)
    have split: "(\<exists>w s'. length w \<le> Suc n \<and> c # t = w @ s' \<and> Q w s') \<longleftrightarrow>
        Q [] (c # t) \<or> (\<exists>w s'. length w \<le> n \<and> t = w @ s' \<and> Q (c # w) s')" for Q
      by (subst ex_list_iff) auto
    show ?thesis
      unfolding Cons split by (auto simp: Suc.IH split: if_splits)
  qed simp
qed simp

lemma rx_upto_cls_full:
  "(\<exists>st \<in> set (rx_run (rx_upto n (Cls p)) (prev, s, cap)). rx_rest st = []) \<longleftrightarrow>
     length s \<le> n \<and> (\<forall>c \<in> set s. p c)"
  unfolding Bex_def rx_upto_cls_mem by auto

end
