(* ===== verification/Core_Paths.thy ===== *)
theory Core_Paths
  imports Py_Regex
begin

text \<open>
  \<open>core/paths.py\<close>, \<open>core/scope.py\<close> and \<open>core/ids.py\<close>: branch prefixes,
  repository-relative paths and their normal form, the integration ordering key, candidate
  generations, and the scope pattern language of the Spec, with the normal form of path lists
  and the meaning of the patterns that validation accepts.
\<close>

abbreviation slash :: char where
  "slash \<equiv> CHR ''/''"

section \<open>core/paths.py\<close>

definition is_ascii :: "char \<Rightarrow> bool" where
  "is_ascii c \<longleftrightarrow> of_char c < (128::nat)"

definition is_lower :: "char \<Rightarrow> bool" where
  "is_lower c \<longleftrightarrow> CHR ''a'' \<le> c \<and> c \<le> CHR ''z''"

definition is_digit :: "char \<Rightarrow> bool" where
  "is_digit c \<longleftrightarrow> CHR ''0'' \<le> c \<and> c \<le> CHR ''9''"

definition validate_branch_prefix :: "string \<Rightarrow> string res" where
  "validate_branch_prefix value =
     (if value = [] \<or> \<not> list_all is_ascii value
      then Inl (ValueError ''branch prefix must contain ASCII characters'')
      else if \<not> (1 \<le> length value \<and> length value \<le> 32)
      then Inl (ValueError ''branch prefix must be between 1 and 32 bytes'')
      else if prefix ''/'' value \<or> suffix ''/'' value \<or> sublist ''//'' value
      then Inl (ValueError ''branch prefix contains an empty path segment'')
      else if list_ex (\<lambda>segment. segment \<in> set [''.'', ''..'', ''.git'']) (split_on slash value)
      then Inl (ValueError ''branch prefix contains a reserved segment'')
      else if list_ex (\<lambda>c. \<not> (is_lower c \<or> is_digit c \<or> c \<in> set [CHR ''-'', slash])) value
      then Inl (ValueError ''branch prefix contains an unsupported character'')
      else Inr value)"

text \<open>The checks \<open>normalize_repo_relative_paths\<close> makes on one path, in its order.\<close>

definition unsafe_segments :: "string list" where
  "unsafe_segments = ['''', ''.'', ''..'', ''.git'']"

definition check_repo_path :: "string \<Rightarrow> py_exn option" where
  "check_repo_path path =
     (if path = [] \<or> CHR 0x00 \<in> set path
      then Some (ValueError ''repository path must be a non-empty string without NUL'')
      else if prefix ''/'' path \<or> prefix ''~'' path \<or> CHR 0x5C \<in> set path
      then Some (ValueError ''repository path must be relative and POSIX-like'')
      else if list_ex (\<lambda>part. part \<in> set unsafe_segments) (split_on slash path)
      then Some (ValueError ''repository path contains an unsafe segment'')
      else None)"

fun normalize_loop :: "string list \<Rightarrow> string list \<Rightarrow> string list res" where
  "normalize_loop [] normalized = Inr normalized"
| "normalize_loop (path # paths) normalized =
     (case check_repo_path path of
        Some e \<Rightarrow> Inl e
      | None \<Rightarrow> normalize_loop paths (List.insert path normalized))"

definition normalize_repo_relative_paths :: "string list \<Rightarrow> string list res" where
  "normalize_repo_relative_paths paths = map_sum id sorted_set (normalize_loop paths [])"

definition validate_repo_relative_path :: "string \<Rightarrow> string res" where
  "validate_repo_relative_path value =
     (case normalize_repo_relative_paths [value] of
        Inl e \<Rightarrow> Inl e
      | Inr (p # _) \<Rightarrow> Inr p
      | Inr [] \<Rightarrow> Inl (IndexError ''list index out of range''))"

definition integration_key :: "int \<Rightarrow> uuid \<Rightarrow> int \<times> uuid" where
  "integration_key integration_rank slice_id = (integration_rank, slice_id)"

section \<open>core/ids.py\<close>

definition validate_candidate_generation :: "int \<Rightarrow> int res" where
  "validate_candidate_generation value =
     (if value \<notin> set [0, 1, 2]
      then Inl (ValueError ''candidate generation must be one of 0, 1, or 2'')
      else Inr value)"

section \<open>core/scope.py\<close>

record spec_scope =
  sc_include :: "string list"
  sc_exclude :: "string list"

definition unsupported_pattern_chars :: "char set" where
  "unsupported_pattern_chars = set ([CHR ''?'', CHR ''['', CHR '']'', CHR ''{'', CHR ''}'', CHR ''('',
     CHR '')'', CHR ''|'', CHR ''+'', CHR ''^'', CHR ''$'', CHR 0x5C])"

definition pattern_body :: "string \<Rightarrow> string" where
  "pattern_body pattern = (if suffix ''/'' pattern then butlast pattern else pattern)"

definition validate_scope_pattern :: "string \<Rightarrow> string res" where
  "validate_scope_pattern pattern =
     (if pattern = [] then Inl (ValueError ''scope pattern must be a non-empty string'')
      else if CHR 0x00 \<in> set pattern
      then Inl (ValueError ''scope pattern must not contain NUL'')
      else if prefix ''/'' pattern \<or> prefix ''~'' pattern \<or> CHR 0x5C \<in> set pattern
      then Inl (ValueError ''scope pattern must be repository-relative'')
      else if list_ex (\<lambda>c. c \<in> unsupported_pattern_chars) pattern
      then Inl (ValueError ''scope pattern uses unsupported wildcard or regex syntax'')
      else if sublist ''**'' pattern
      then Inl (ValueError ''scope pattern permits only one trailing-segment star'')
      else let directory = suffix ''/'' pattern;
               body = pattern_body pattern;
               parts = split_on slash body
           in if list_ex (\<lambda>part. part \<in> set unsafe_segments) parts
              then Inl (ValueError ''scope pattern contains an unsafe path segment'')
              else if hd parts = ''.git''
              then Inl (ValueError ''scope pattern cannot start with .git'')
              else let stars = count_list body (CHR ''*'')
                   in if 0 < stars \<and> (directory \<or> 1 < stars \<or> CHR ''*'' \<notin> set (last parts))
                      then Inl (ValueError ''scope star must occur once in the final file segment'')
                      else Inr pattern)"

text \<open>\<open>re.escape(body).replace("\*", "[^/]+")\<close>: every star is a segment run, every other
  character stands for itself.\<close>

definition escaped_body :: "string \<Rightarrow> rx list" where
  "escaped_body body =
     map (\<lambda>c. if c = CHR ''*'' then Plus (Cls (\<lambda>x. x \<noteq> slash)) else Cls (\<lambda>x. x = c)) body"

definition pattern_regex :: "string \<Rightarrow> rx" where
  "pattern_regex pattern =
     (let escaped = escaped_body (pattern_body pattern)
      in if suffix ''/'' pattern then rx_seq (escaped @ [Cls (\<lambda>x. x = slash)])
         else rx_seq (escaped @ [EndZ]))"

definition is_git_path :: "string \<Rightarrow> bool" where
  "is_git_path path \<longleftrightarrow> path = ''.git'' \<or> prefix ''.git/'' path"

definition scope_pattern_matches :: "string \<Rightarrow> string \<Rightarrow> bool" where
  "scope_pattern_matches pattern path \<longleftrightarrow>
     \<not> is_git_path path \<and> re_matches (pattern_regex pattern) path"

definition literal_directory :: "string \<Rightarrow> bool" where
  "literal_directory pattern \<longleftrightarrow> suffix ''/'' pattern"

text \<open>\<open>s.split("*", 1)\<close> of a string that contains a star.\<close>

definition star_split :: "string \<Rightarrow> string \<times> string" where
  "star_split s = (takeWhile (\<lambda>c. c \<noteq> CHR ''*'') s, tl (dropWhile (\<lambda>c. c \<noteq> CHR ''*'') s))"

definition pattern_is_contained :: "string \<Rightarrow> string \<Rightarrow> bool" where
  "pattern_is_contained incl excl =
     (if literal_directory incl then prefix incl excl
      else if CHR ''*'' \<notin> set incl then incl = excl
      else if CHR ''*'' \<in> set excl
      then let (include_prefix, include_suffix) = star_split incl;
               (exclude_prefix, exclude_suffix) = star_split excl
           in prefix include_prefix exclude_prefix \<and> suffix include_suffix exclude_suffix
              \<and> slash \<notin> set (drop (length include_prefix) exclude_prefix)
      else scope_pattern_matches incl excl)"

definition excludes_are_contained :: "string list \<Rightarrow> string list \<Rightarrow> bool" where
  "excludes_are_contained includes excludes =
     list_all (\<lambda>excl. list_ex (\<lambda>incl. pattern_is_contained incl excl) includes) excludes"

definition scope_includes_path :: "spec_scope \<Rightarrow> string \<Rightarrow> bool" where
  "scope_includes_path scope path \<longleftrightarrow>
     \<not> is_git_path path
     \<and> list_ex (\<lambda>p. scope_pattern_matches p path) (sc_include scope)
     \<and> \<not> list_ex (\<lambda>p. scope_pattern_matches p path) (sc_exclude scope)"

definition normalize_scope_paths :: "string list \<Rightarrow> string list" where
  "normalize_scope_paths paths = sorted_set paths"

section \<open>Normal form of repository paths\<close>

lemma normalize_loop_safe:
  "\<forall>p \<in> set paths. check_repo_path p = None \<Longrightarrow> normalize_loop paths acc = Inr (fold List.insert paths acc)"
  by (induction paths acc rule: normalize_loop.induct) auto

lemma normalize_loop_unsafe:
  "\<exists>p \<in> set paths. check_repo_path p \<noteq> None \<Longrightarrow> \<exists>e. normalize_loop paths acc = Inl e"
  by (induction paths acc rule: normalize_loop.induct) (auto split: option.splits)

lemma set_fold_insert: "set (fold List.insert xs acc) = set xs \<union> set acc"
  by (induction xs arbitrary: acc) auto

lemma normalize_ok_iff:
  "normalize_repo_relative_paths paths = Inr r \<longleftrightarrow>
     (\<forall>p \<in> set paths. check_repo_path p = None) \<and> r = sorted_set paths"
proof (cases "\<forall>p \<in> set paths. check_repo_path p = None")
  case True
  have "sorted_set (fold List.insert paths []) = sorted_set paths"
    by (rule sorted_set_cong) (simp add: set_fold_insert)
  with True show ?thesis
    by (auto simp: normalize_repo_relative_paths_def normalize_loop_safe)
next
  case False
  then obtain e where "normalize_loop paths [] = Inl e"
    using normalize_loop_unsafe by blast
  with False show ?thesis by (simp add: normalize_repo_relative_paths_def)
qed

lemma normalize_idem:
  "normalize_repo_relative_paths paths = Inr r \<Longrightarrow> normalize_repo_relative_paths r = Inr r"
  by (auto simp: normalize_ok_iff intro: sorted_set_id [symmetric])

lemma validate_repo_relative_path_iff:
  "validate_repo_relative_path p = Inr q \<longleftrightarrow> check_repo_path p = None \<and> q = p"
proof (cases "normalize_repo_relative_paths [p]")
  case (Inl e)
  then have "check_repo_path p \<noteq> None"
    using normalize_ok_iff [of "[p]" "sorted_set [p]"] by auto
  with Inl show ?thesis by (simp add: validate_repo_relative_path_def)
next
  case (Inr r)
  then have "check_repo_path p = None" "r = [p]"
    by (simp_all add: normalize_ok_iff sorted_set_def)
  with Inr show ?thesis by (auto simp: validate_repo_relative_path_def)
qed

lemma check_repo_path_NoneD:
  assumes "check_repo_path p = None"
  shows "p \<noteq> []" "CHR 0x00 \<notin> set p" "\<not> prefix ''/'' p" "\<not> prefix ''~'' p"
    "\<And>part. part \<in> set (split_on slash p) \<Longrightarrow> part \<notin> set unsafe_segments"
  using assms by (auto simp: check_repo_path_def list_ex_iff split: if_splits)

section \<open>What a scope pattern matches\<close>

lemma rx_acc_cong_seq: "(\<And>st. rx_acc r st = rx_acc r' st) \<Longrightarrow> rx_acc (Seq a r) st = rx_acc (Seq a r') st"
  by (simp add: rx_acc_Seq)

lemma rx_acc_Seq_assoc: "rx_acc (Seq (Seq a b) c) st = rx_acc (Seq a (Seq b c)) st"
  by (auto simp: rx_acc_Seq)

lemma rx_acc_literal_seq:
  "CHR ''*'' \<notin> set l \<Longrightarrow> rx_acc (rx_seq (escaped_body l @ rs)) st = rx_acc (Seq (rx_lit l) (rx_seq rs)) st"
proof (induction l arbitrary: st)
  case (Cons c l)
  then have "rx_acc (rx_seq (escaped_body (c # l) @ rs)) st
      = rx_acc (Seq (Cls (\<lambda>x. x = c)) (rx_seq (escaped_body l @ rs))) st"
    by (auto simp: escaped_body_def)
  also have "\<dots> = rx_acc (Seq (Cls (\<lambda>x. x = c)) (Seq (rx_lit l) (rx_seq rs))) st"
    using Cons by (intro rx_acc_cong_seq) simp
  finally show ?case by (simp add: rx_lit_Cons rx_acc_Seq_assoc)
qed (simp add: escaped_body_def rx_lit_Nil rx_acc_Seq)

abbreviation at_end :: "string \<Rightarrow> bool" where
  "at_end s \<equiv> s = [] \<or> s = [CHR 0x0A]"

lemma rx_acc_single: "rx_acc (rx_seq [r]) st = rx_acc r st"
  by (cases "rx_run r st") (auto simp: rx_acc_def)

lemma matches_literal_file:
  assumes "CHR ''*'' \<notin> set pat" "\<not> suffix ''/'' pat"
  shows "re_matches (pattern_regex pat) path \<longleftrightarrow> (\<exists>e. at_end e \<and> path = pat @ e)"
  using assms rx_acc_literal_seq [of pat "[EndZ]"]
  by (simp add: re_matches_iff pattern_regex_def pattern_body_def rx_acc_lit rx_acc_single rx_acc_End
      del: rx_seq.simps) auto

lemma matches_directory:
  assumes "CHR ''*'' \<notin> set pat" "suffix ''/'' pat"
  shows "re_matches (pattern_regex pat) path \<longleftrightarrow> prefix pat path"
proof -
  from assms(2) obtain b where b: "pat = b @ ''/''"
    by (auto simp: suffix_def)
  with assms(1) have "CHR ''*'' \<notin> set b" by auto
  with b show ?thesis
    using rx_acc_literal_seq [of b "[Cls (\<lambda>x. x = slash)]"]
    by (simp add: re_matches_iff pattern_regex_def pattern_body_def rx_acc_lit rx_acc_single
        rx_acc_Cls prefix_def del: rx_seq.simps) auto
qed

lemma matches_star_file:
  assumes "CHR ''*'' \<notin> set a" "CHR ''*'' \<notin> set b" "\<not> suffix ''/'' (a @ CHR ''*'' # b)"
  shows "re_matches (pattern_regex (a @ CHR ''*'' # b)) path \<longleftrightarrow>
    (\<exists>w e. w \<noteq> [] \<and> slash \<notin> set w \<and> at_end e \<and> path = a @ w @ b @ e)"
proof -
  let ?seg = "Plus (Cls (\<lambda>x. x \<noteq> slash))"
  have esc: "escaped_body (a @ CHR ''*'' # b) @ [EndZ] = escaped_body a @ ?seg # escaped_body b @ [EndZ]"
    by (simp add: escaped_body_def)
  have "re_matches (pattern_regex (a @ CHR ''*'' # b)) path \<longleftrightarrow>
      (\<exists>p s. path = a @ s \<and> rx_acc (Seq ?seg (rx_seq (escaped_body b @ [EndZ]))) (p, s, None))"
    using assms(1,3)
    by (simp add: re_matches_iff pattern_regex_def pattern_body_def esc rx_acc_literal_seq rx_acc_lit
          rx_acc_plus_cls)
  also have "\<dots> \<longleftrightarrow> (\<exists>w e. w \<noteq> [] \<and> slash \<notin> set w \<and> at_end e \<and> path = a @ w @ b @ e)"
    unfolding rx_acc_plus_cls rx_acc_literal_seq [OF assms(2)] rx_acc_lit rx_acc_single rx_acc_End
    by auto
  finally show ?thesis .
qed

lemma split_on_part_subset: "p \<in> set (split_on c s) \<Longrightarrow> x \<in> set p \<Longrightarrow> x \<in> set s"
proof (induction s arbitrary: p)
  case (Cons y ys)
  then show ?case by (cases "split_on c ys") (fastforce split: if_splits)+
qed simp

text \<open>The shape of a valid pattern: no star, or one star in the last segment of a file pattern.\<close>

lemma valid_pattern_shape:
  assumes "validate_scope_pattern pat = Inr pat'"
  obtains (literal) "CHR ''*'' \<notin> set pat"
  | (star) a b where "pat = a @ CHR ''*'' # b" "CHR ''*'' \<notin> set a" "CHR ''*'' \<notin> set b"
      "slash \<notin> set b" "\<not> suffix ''/'' pat"
proof (cases "CHR ''*'' \<in> set pat")
  case False
  then show ?thesis by (rule literal)
next
  case True
  let ?body = "pattern_body pat"
  have in_body: "CHR ''*'' \<in> set ?body"
  proof (cases "suffix ''/'' pat")
    case True
    then obtain d where "pat = d @ ''/''" by (auto simp: suffix_def)
    with \<open>CHR ''*'' \<in> set pat\<close> show ?thesis by (auto simp: pattern_body_def)
  qed (simp add: pattern_body_def \<open>CHR ''*'' \<in> set pat\<close>)
  then have "0 < count_list ?body (CHR ''*'')"
    by (metis count_list_0_iff gr0I)
  with assms have nd: "\<not> suffix ''/'' pat" and one: "count_list ?body (CHR ''*'') = 1"
    and lst: "CHR ''*'' \<in> set (last (split_on slash ?body))"
    by (auto simp: validate_scope_pattern_def Let_def split: if_splits)
  from nd have body: "?body = pat" by (simp add: pattern_body_def)
  from True obtain a b where ab: "pat = a @ CHR ''*'' # b" "CHR ''*'' \<notin> set a"
    using split_list_first by fastforce
  with one body have nb: "CHR ''*'' \<notin> set b"
    by (simp add: count_list_0_iff)
  have "slash \<notin> set b"
  proof
    assume "slash \<in> set b"
    then obtain b1 b2 where b: "b = b1 @ slash # b2" by (meson split_list)
    have "split_on slash pat = split_on slash (a @ CHR ''*'' # b1) @ split_on slash b2"
      unfolding ab b using split_on_append_sep [of slash "a @ CHR ''*'' # b1" b2] by simp
    then have "last (split_on slash pat) \<in> set (split_on slash b2)"
      by (simp add: last_append)
    with lst body have "CHR ''*'' \<in> set b2"
      using split_on_part_subset by metis
    with nb b show False by simp
  qed
  with ab nb nd show ?thesis by (intro star)
qed

lemma star_split_eq: "CHR ''*'' \<notin> set a \<Longrightarrow> star_split (a @ CHR ''*'' # b) = (a, b)"
  by (auto simp: star_split_def takeWhile_append dropWhile_append)

lemma prefix_before_star:
  assumes "prefix l (a @ CHR ''*'' # b)" "CHR ''*'' \<notin> set l"
  shows "prefix l a"
  using assms by (auto simp: prefix_append prefix_Cons)

text \<open>A valid pattern by what it matches: an exact file, a directory prefix, or one starred segment.\<close>

lemma valid_pattern_semantics:
  assumes "validate_scope_pattern pat = Inr pat'"
  obtains (exact) "CHR ''*'' \<notin> set pat" "\<not> suffix ''/'' pat"
      "\<And>p. re_matches (pattern_regex pat) p \<longleftrightarrow> (\<exists>e. at_end e \<and> p = pat @ e)"
  | (dir) "CHR ''*'' \<notin> set pat" "suffix ''/'' pat"
      "\<And>p. re_matches (pattern_regex pat) p \<longleftrightarrow> prefix pat p"
  | (star) a b where "pat = a @ CHR ''*'' # b" "CHR ''*'' \<notin> set a" "CHR ''*'' \<notin> set b"
      "slash \<notin> set b" "\<not> suffix ''/'' pat"
      "\<And>p. re_matches (pattern_regex pat) p \<longleftrightarrow>
         (\<exists>w e. w \<noteq> [] \<and> slash \<notin> set w \<and> at_end e \<and> p = a @ w @ b @ e)"
  using assms
proof (cases rule: valid_pattern_shape)
  case literal
  show ?thesis
  proof (cases "suffix ''/'' pat")
    case True
    show ?thesis by (rule dir [OF literal True matches_directory [OF literal True]])
  next
    case False
    show ?thesis by (rule exact [OF literal False matches_literal_file [OF literal False]])
  qed
next
  case (star a b)
  note sem = matches_star_file [OF star(2,3) star(5) [unfolded star(1)], folded star(1)]
  show ?thesis by (rule that(3) [OF star sem])
qed

lemma matches_imp_prefix:
  assumes "validate_scope_pattern excl = Inr e" "re_matches (pattern_regex excl) path"
    "prefix l excl" "CHR ''*'' \<notin> set l"
  shows "prefix l path"
  using assms(1)
proof (cases rule: valid_pattern_semantics)
  case exact
  with assms(2) obtain t where "path = excl @ t" by blast
  with assms(3) show ?thesis by simp
next
  case dir
  with assms(2) have "prefix excl path" by blast
  with assms(3) show ?thesis by (rule prefix_order.trans)
next
  case (star a b)
  have "prefix l a" using assms(3,4) prefix_before_star unfolding star(1) by blast
  moreover obtain r where "path = a @ r" using assms(2) star(6) by blast
  ultimately show ?thesis by simp
qed

lemma pattern_is_contained_sound:
  assumes iv: "validate_scope_pattern incl = Inr i" and ev: "validate_scope_pattern excl = Inr e"
    and nl: "CHR 0x0A \<notin> set excl" and cont: "pattern_is_contained incl excl"
    and m: "re_matches (pattern_regex excl) path"
  shows "re_matches (pattern_regex incl) path"
  using iv
proof (cases rule: valid_pattern_semantics)
  case exact
  with cont have "incl = excl"
    by (simp add: pattern_is_contained_def literal_directory_def)
  with m show ?thesis by simp
next
  case dir
  with cont have "prefix incl excl"
    by (simp add: pattern_is_contained_def literal_directory_def)
  then have "prefix incl path" using matches_imp_prefix [OF ev m] dir(1) by blast
  with dir(3) show ?thesis by simp
next
  case incl_star: (star a b)
  have literal: ?thesis if lit: "CHR ''*'' \<notin> set excl"
    and path: "\<not> suffix ''/'' excl \<Longrightarrow> \<exists>t. at_end t \<and> path = excl @ t"
  proof -
    from cont incl_star(1,5) lit have "re_matches (pattern_regex incl) excl"
      by (simp add: pattern_is_contained_def literal_directory_def scope_pattern_matches_def)
    then obtain w t where w: "w \<noteq> []" "slash \<notin> set w" "at_end t" "excl = a @ w @ b @ t"
      using incl_star(6) by blast
    with nl have t: "t = []" by auto
    have "last excl \<in> set (w @ b)"
      using w(1) last_in_set [of "w @ b"] by (subst w(4)) (simp add: t)
    then have "last excl \<noteq> slash" using w(2) incl_star(4) by auto
    then have "\<not> suffix ''/'' excl" by (auto simp: suffix_def)
    then obtain t' where "at_end t'" "path = excl @ t'" using path by blast
    then have "at_end t' \<and> path = a @ w @ b @ t'" using w(4) t by simp
    then show ?thesis using w(1,2) incl_star(6) by blast
  qed
  show ?thesis
    using ev
  proof (cases rule: valid_pattern_semantics)
    case exact
    show ?thesis by (rule literal [OF exact(1)]) (use m exact(3) in blast)
  next
    case dir
    show ?thesis by (rule literal [OF dir(1)]) (use dir(2) in blast)
  next
    case (star c d)
    have "prefix a c \<and> suffix b d \<and> slash \<notin> set (drop (length a) c)"
      using cont incl_star(5) unfolding incl_star(1) star(1)
      by (simp add: pattern_is_contained_def literal_directory_def star_split_eq incl_star(2) star(2))
    then obtain x y where xy: "c = a @ x" "d = y @ b" "slash \<notin> set x"
      by (auto simp: prefix_def suffix_def)
    obtain w t where w: "w \<noteq> []" "slash \<notin> set w" "at_end t" "path = c @ w @ d @ t"
      using m unfolding star(6) by (elim exE conjE)
    have "x @ w @ y \<noteq> [] \<and> slash \<notin> set (x @ w @ y) \<and> at_end t \<and> path = a @ (x @ w @ y) @ b @ t"
      using w xy star(4) by simp
    then show ?thesis unfolding incl_star(6) by (intro exI)
  qed
qed

end
