(* ===== verification/Analysis_Model.thy ===== *)
theory Analysis_Model
  imports Core_Enums Core_Paths
begin

text \<open>
  The facts of \<open>analysis/models.py\<close>: modules, imports, coverage, manifests, artifacts and the
  symbol index, with the model validators that constrain them. A validator returns \<open>None\<close>
  where Pydantic raises \<open>ValidationError\<close>.
\<close>

datatype module_boundary = Manifest | Directory | FileBoundary

datatype symbol_kind = FunctionSymbol | ClassSymbol | TypeSymbol | InterfaceSymbol | ConstantSymbol

datatype edge_confidence = Static | UnknownConfidence

datatype unknown_reason = DynamicImport | Reflection | UnresolvedPath

datatype coverage_derivation = ImportGraph | DirectoryConvention | Uncovered

record source_position =
  pos_line :: int
  pos_column :: int

record source_range =
  sr_file_path :: string
  sr_start :: source_position
  sr_end :: source_position

definition position_ok :: "source_position \<Rightarrow> bool" where
  "position_ok p \<longleftrightarrow> 1 \<le> pos_line p \<and> 0 \<le> pos_column p"

definition check_source_range :: "source_range \<Rightarrow> source_range option" where
  "check_source_range r =
     (if is_ok (validate_repo_relative_path (sr_file_path r)) \<and> position_ok (sr_start r) \<and> position_ok (sr_end r)
         \<and> \<not> (pos_line (sr_end r) < pos_line (sr_start r)
              \<or> pos_line (sr_end r) = pos_line (sr_start r) \<and> pos_column (sr_end r) < pos_column (sr_start r))
      then Some r else None)"

datatype import_target = ModuleTarget uuid | ExternalTarget string

record export_summary =
  ex_symbol :: string
  ex_kind :: symbol_kind
  ex_signature_text :: string

record module_fact =
  mf_module_id :: uuid
  mf_file_paths :: "string list"
  mf_role :: module_role
  mf_boundary :: module_boundary
  mf_exported_symbols :: "export_summary list"
  mf_capability :: analysis_capability
  mf_degraded_files :: "string list"

record import_edge =
  ie_from_module :: uuid
  ie_to :: "import_target option"
  ie_confidence :: edge_confidence
  ie_reason :: "unknown_reason option"
  ie_evidence :: source_range
  ie_imported_symbols :: "string list"
  ie_local_symbols :: "(string \<times> string) list"

definition confidence_matches_resolution :: "import_edge \<Rightarrow> import_edge option" where
  "confidence_matches_resolution e =
     (if ie_confidence e = Static \<and> ie_to e = None then None
      else if ie_confidence e = UnknownConfidence \<and> ie_reason e = None then None
      else Some e)"

record coverage_entry =
  ce_test_file :: string
  ce_tested_modules :: "uuid list"
  ce_derivation :: coverage_derivation

record module_coverage_status =
  cs_module :: uuid
  cs_status :: module_coverage

record test_conservation_baseline =
  tb_module :: uuid
  tb_source_tests :: int
  tb_source_assertions :: int
  tb_source_loc :: int

record dependency_entry =
  dep_name :: string
  dep_version :: string

record script_entry =
  scr_name :: string
  scr_command_summary :: string

record manifest_summary =
  man_manifest_path :: string
  man_manifest_kind :: string
  man_dependencies :: "dependency_entry list"
  man_scripts :: "script_entry list"
  man_entry_points :: "string list"

record artifact_fact =
  af_path :: string
  af_artifact_kind :: artifact_kind
  af_source_path :: "string option"

record symbol_binding =
  sb_symbol :: string
  sb_kind :: symbol_kind
  sb_definition :: source_range
  sb_signature_text :: string
  sb_ambiguous :: bool
  sb_module :: "uuid option"

record reference_site =
  rs_symbol :: string
  rs_site :: source_range
  rs_binding :: "source_range option"
  rs_ambiguous :: bool

record call_edge =
  cl_symbol :: string
  cl_caller :: source_range
  cl_callee :: source_range
  cl_ambiguous :: bool

record symbol_coverage_edge =
  sy_test_site :: source_range
  sy_symbol :: source_range
  sy_ambiguous :: bool

datatype relation_kind = RelImport | RelCoverage | RelContains

record relation_edge =
  re_kind :: relation_kind
  re_from_module :: "uuid option"
  re_to_module :: uuid
  re_file_path :: "string option"
  re_evidence :: "source_range option"

definition relation_shape_is_valid :: "relation_edge \<Rightarrow> relation_edge option" where
  "relation_shape_is_valid e =
     (if re_kind e = RelContains
      then if re_from_module e \<noteq> None \<or> re_file_path e = None then None else Some e
      else if re_from_module e = None \<or> re_file_path e \<noteq> None then None else Some e)"

record analysis_error =
  ae_code :: stable_error_code
  ae_message :: string
  ae_path :: "string option"

record analysis_result =
  an_snapshot_oid :: string
  an_descriptor_sha256 :: string
  an_capability :: analysis_capability
  an_modules :: "module_fact list"
  an_imports :: "import_edge list"
  an_coverage :: "coverage_entry list"
  an_coverage_status :: "module_coverage_status list"
  an_conservation :: "test_conservation_baseline list"
  an_manifests :: "manifest_summary list"
  an_artifacts :: "artifact_fact list"
  an_symbol_bindings :: "symbol_binding list"
  an_reference_sites :: "reference_site list"
  an_symbol_coverage :: "symbol_coverage_edge list"
  an_call_edges :: "call_edge list"
  an_relation_edges :: "relation_edge list"
  an_skipped_files :: "string list"
  an_errors :: "analysis_error list"

end
