(* ===== verification/Path_Tree.thy ===== *)
theory Path_Tree
  imports Core_Paths
begin

text \<open>
  The interface between path containment and the components that keep write scopes apart.
  A provider gives a relation \<open>within\<close> (a path lies in the tree below a root); what its
  clients use is that it is a preorder whose up-sets are chains. Every overlap test of the
  code is then exact: it reports a conflict iff some path can be written under both scopes.
\<close>

locale path_tree =
  fixes within :: "'p \<Rightarrow> 'p \<Rightarrow> bool"
  assumes within_refl: "within p p"
    and within_trans: "within p q \<Longrightarrow> within q r \<Longrightarrow> within p r"
    and ancestors_chain: "within q a \<Longrightarrow> within q b \<Longrightarrow> within a b \<or> within b a"
begin

definition below :: "'p set \<Rightarrow> 'p \<Rightarrow> bool" where
  "below R q \<longleftrightarrow> (\<exists>r \<in> R. within q r)"

text \<open>A scope of exact files \<open>P\<close> and creatable trees \<open>R\<close>.\<close>

definition writable :: "'p set \<Rightarrow> 'p set \<Rightarrow> 'p \<Rightarrow> bool" where
  "writable P R q \<longleftrightarrow> q \<in> P \<or> below R q"

lemma below_root: "r \<in> R \<Longrightarrow> below R r"
  using within_refl by (auto simp: below_def)

lemma trees_meet_iff:
  "(\<exists>a \<in> A. \<exists>b \<in> B. within a b \<or> within b a) \<longleftrightarrow> (\<exists>q. below A q \<and> below B q)"
  unfolding below_def using within_refl ancestors_chain by blast

lemma scopes_meet_iff:
  "(P1 \<inter> P2 \<noteq> {} \<or> (\<exists>p \<in> P1. below R2 p) \<or> (\<exists>p \<in> P2. below R1 p)
      \<or> (\<exists>a \<in> R1. \<exists>b \<in> R2. within a b \<or> within b a))
   \<longleftrightarrow> (\<exists>q. writable P1 R1 q \<and> writable P2 R2 q)"
  unfolding trees_meet_iff writable_def by blast

end

end
