(* ===== verification/Plan_Model.thy ===== *)
theory Plan_Model
  imports Analysis_Model Path_Tree
begin

text \<open>
  The data of planning: the proposal contracts of \<open>core/models/plan.py\<close> with their
  model validators, and the inputs and limits of \<open>planning/models.py\<close> that the validator reads. A validator returns \<open>None\<close> where
  Pydantic raises \<open>ValidationError\<close>, and otherwise the validated (and normalised) value.
\<close>

section \<open>Opaque JSON values\<close>

datatype json =
    JNull
  | JBool bool
  | JInt int
  | JStr string
  | JArr "json list"
  | JObj "(string \<times> json) list"

section \<open>core/models/common.py, descriptor.py\<close>

record dossier_entry =
  de_kind :: string
  de_content :: string
  de_anchors :: "json list"
  de_advisory :: bool

definition check_dossier_entry :: "dossier_entry \<Rightarrow> dossier_entry option" where
  "check_dossier_entry e = (if de_anchors e = [] \<and> \<not> de_advisory e then None else Some e)"

record required_check =
  rc_id :: uuid
  rc_action :: check_action
  rc_template_sha256 :: string

record target_project_blueprint =
  bp_module_boundaries :: "(string \<times> json) list list"
  bp_granularity_principles :: "string list"
  bp_target_layout_principles :: "string list"
  bp_parallelism_rules :: "string list"
  bp_generated_artifact_policy :: string
  bp_version :: int

section \<open>core/models/plan.py\<close>

record artifact_task =
  at_kind :: artifact_kind
  at_action :: artifact_action
  at_source_path :: string
  at_target_path :: string
  at_artifact_path :: "string option"

fun expected_action :: "artifact_kind \<Rightarrow> artifact_action" where
  "expected_action GeneratedCode = Generate"
| "expected_action DeclarativeConfig = Translate"
| "expected_action ResourceFile = Copy"

definition check_artifact_task :: "artifact_task \<Rightarrow> artifact_task option" where
  "check_artifact_task t =
     (if is_ok (validate_repo_relative_path (at_source_path t))
         \<and> is_ok (validate_repo_relative_path (at_target_path t))
         \<and> (case at_artifact_path t of None \<Rightarrow> True | Some p \<Rightarrow> is_ok (validate_repo_relative_path p))
         \<and> at_action t = expected_action (at_kind t)
      then Some t else None)"

record plan_slice_proposal =
  ps_local_ref :: string
  ps_kind :: slice_kind
  ps_source_modules :: "uuid list"
  ps_write_paths :: "string list"
  ps_create_roots :: "string list"
  ps_rationale :: "dossier_entry list"
  ps_required_checks :: "required_check list"
  ps_artifact_tasks :: "artifact_task list"
  ps_generated :: bool
  ps_generation_tag :: "string option"
  ps_minimum_nontrivial_assertions :: int
  ps_information_firewall :: bool

definition is_alpha :: "char \<Rightarrow> bool" where
  "is_alpha c \<longleftrightarrow> is_lower c \<or> (CHR ''A'' \<le> c \<and> c \<le> CHR ''Z'')"

text \<open>\<^verbatim>\<open>[A-Za-z][A-Za-z0-9_-]{0,63}\<close>\<close>

definition local_ref_rx :: rx where
  "local_ref_rx = Seq (Cls is_alpha)
     (rx_upto 63 (Cls (\<lambda>c. is_alpha c \<or> is_digit c \<or> c = CHR ''_'' \<or> c = CHR ''-'')))"

definition local_ref_is_safe :: "string \<Rightarrow> bool" where
  "local_ref_is_safe value \<longleftrightarrow> re_fullmatch local_ref_rx value"

definition generation_contract_matches_kind :: "plan_slice_proposal \<Rightarrow> plan_slice_proposal option" where
  "generation_contract_matches_kind s =
     (if ps_kind s = TestGeneration
      then Some (s\<lparr>ps_generated := True, ps_generation_tag := Some ''GENERATED'',
             ps_minimum_nontrivial_assertions := max (ps_minimum_nontrivial_assertions s) 1,
             ps_information_firewall := True\<rparr>)
      else if ps_generated s \<or> ps_generation_tag s \<noteq> None \<or> ps_information_firewall s then None
      else Some s)"

text \<open>The field constraints that do not change the value.\<close>

definition slice_fields_ok :: "plan_slice_proposal \<Rightarrow> bool" where
  "slice_fields_ok s \<longleftrightarrow>
     1 \<le> length (ps_local_ref s) \<and> length (ps_local_ref s) \<le> 64 \<and> local_ref_is_safe (ps_local_ref s)
     \<and> length (ps_source_modules s) = length (remdups (ps_source_modules s))
     \<and> list_all (\<lambda>e. check_dossier_entry e \<noteq> None) (ps_rationale s)
     \<and> list_all (\<lambda>t. check_artifact_task t \<noteq> None) (ps_artifact_tasks s)
     \<and> 0 \<le> ps_minimum_nontrivial_assertions s"

definition check_slice_proposal :: "plan_slice_proposal \<Rightarrow> plan_slice_proposal option" where
  "check_slice_proposal s =
     (if \<not> slice_fields_ok s then None
      else case (normalize_repo_relative_paths (ps_write_paths s),
                 normalize_repo_relative_paths (ps_create_roots s)) of
          (Inr w, Inr r) \<Rightarrow>
            generation_contract_matches_kind (s\<lparr>ps_write_paths := w, ps_create_roots := r\<rparr>)
        | _ \<Rightarrow> None)"

record plan_edge_evidence =
  ee_unknown_reason :: "string option"
  ee_evidence_location :: "string option"

record plan_edge_proposal =
  pe_from :: string
  pe_to :: string
  pe_kind :: plan_edge_kind
  pe_provenance :: edge_provenance
  pe_evidence :: plan_edge_evidence

definition check_edge_proposal :: "plan_edge_proposal \<Rightarrow> plan_edge_proposal option" where
  "check_edge_proposal e =
     (let has_reason = ee_unknown_reason (pe_evidence e) \<noteq> None;
          has_location = ee_evidence_location (pe_evidence e) \<noteq> None
      in if \<not> (local_ref_is_safe (pe_from e) \<and> local_ref_is_safe (pe_to e)) then None
         else if ee_unknown_reason (pe_evidence e) = Some [] \<or> ee_evidence_location (pe_evidence e) = Some []
         then None
         else if pe_provenance e = ImportUnknown \<and> \<not> (has_reason \<and> has_location) then None
         else if pe_provenance e = WriteScopeConflict \<and> \<not> has_location then None
         else if pe_provenance e \<notin> set [ImportUnknown, WriteScopeConflict] \<and> (has_reason \<or> has_location)
         then None else Some e)"

record plan_proposal =
  pp_slices :: "plan_slice_proposal list"
  pp_edges :: "plan_edge_proposal list"
  pp_integration_ranks :: "(string \<times> int) list"
  pp_planner_rationale :: "dossier_entry list"

definition proposal_refs :: "plan_proposal \<Rightarrow> string list" where
  "proposal_refs p = map ps_local_ref (pp_slices p)"

text \<open>\<open>PlanProposal.model_validate\<close>: the nested models, then unique local references.\<close>

definition check_plan_proposal :: "plan_proposal \<Rightarrow> plan_proposal option" where
  "check_plan_proposal p =
     (case those (map check_slice_proposal (pp_slices p)) of
        None \<Rightarrow> None
      | Some slices \<Rightarrow>
          if \<not> list_all (\<lambda>e. check_edge_proposal e \<noteq> None) (pp_edges p) then None
          else if \<not> list_all (\<lambda>e. check_dossier_entry e \<noteq> None) (pp_planner_rationale p) then None
          else let p' = p\<lparr>pp_slices := slices, pp_integration_ranks := py_dict (pp_integration_ranks p)\<rparr>
               in if length (proposal_refs p') \<noteq> length (remdups (proposal_refs p')) then None
                  else Some p')"

datatype detail = DStr string | DInt int | DStrs "string list"

record plan_violation =
  pv_code :: stable_error_code
  pv_pointer :: string
  pv_message :: string
  pv_details :: "(string \<times> detail) list"

record plan_validation =
  accepted :: bool
  violations :: "plan_violation list"
  source_coverage :: "(string \<times> string) list"
  checked_scope_pairs :: nat
  cycle_check :: string
  size_check :: string
  blueprint_check :: string
  rank_check :: string

section \<open>planning/models.py\<close>

record planning_limits =
  max_slices :: nat
  max_edges :: nat
  max_write_paths_per_slice :: nat
  max_total_write_paths :: nat

definition default_limits :: planning_limits where
  "default_limits = \<lparr>max_slices = 100, max_edges = 500, max_write_paths_per_slice = 200,
     max_total_write_paths = 2000\<rparr>"

record planning_inputs =
  in_frozen_artifacts :: json
  in_scope :: spec_scope
  in_blueprint :: target_project_blueprint
  in_analysis :: analysis_result
  in_snapshot_oid :: string
  in_limits :: planning_limits

section \<open>Facts about validated models\<close>

text \<open>A proposal is well formed when it is the result of model validation.\<close>

definition wf_proposal :: "plan_proposal \<Rightarrow> bool" where
  "wf_proposal p \<longleftrightarrow> check_plan_proposal p = Some p"

lemma those_Some_iff: "those xs = Some ys \<longleftrightarrow> xs = map Some ys"
  by (induction xs arbitrary: ys) (auto split: option.splits)

lemma local_ref_is_safe_iff:
  "local_ref_is_safe s \<longleftrightarrow> (\<exists>c w. s = c # w \<and> is_alpha c \<and> length w \<le> 63
     \<and> (\<forall>x \<in> set w. is_alpha x \<or> is_digit x \<or> x = CHR ''_'' \<or> x = CHR ''-''))"
  by (cases s)
     (auto simp: local_ref_is_safe_def re_fullmatch_def local_ref_rx_def list_ex_iff rx_upto_cls_full)

lemma length_remdups_distinct [simp]: "length xs = length (remdups xs) \<longleftrightarrow> distinct xs"
  by (metis length_remdups_card_conv card_distinct distinct_card)

lemma check_slice_proposal_local_ref:
  "check_slice_proposal s = Some t \<Longrightarrow> ps_local_ref t = ps_local_ref s"
  by (auto simp: check_slice_proposal_def generation_contract_matches_kind_def
      split: if_splits sum.splits)

lemma check_slice_proposal_SomeD:
  assumes "check_slice_proposal s = Some t"
  shows "slice_fields_ok s" "normalize_repo_relative_paths (ps_write_paths s) = Inr (ps_write_paths t)"
    "normalize_repo_relative_paths (ps_create_roots s) = Inr (ps_create_roots t)"
    "generation_contract_matches_kind
       (s\<lparr>ps_write_paths := ps_write_paths t, ps_create_roots := ps_create_roots t\<rparr>) = Some t"
  using assms
  by (auto simp: check_slice_proposal_def generation_contract_matches_kind_def
      split: if_splits sum.splits)

lemma generation_contract_idem:
  "generation_contract_matches_kind s = Some t \<Longrightarrow> generation_contract_matches_kind t = Some t"
  by (auto simp: generation_contract_matches_kind_def split: if_splits)

lemma generation_contract_fields:
  "generation_contract_matches_kind s = Some t \<Longrightarrow> slice_fields_ok s \<Longrightarrow> slice_fields_ok t"
  by (auto simp: generation_contract_matches_kind_def slice_fields_ok_def split: if_splits)

lemma check_slice_proposal_idem:
  assumes "check_slice_proposal s = Some t"
  shows "check_slice_proposal t = Some t"
proof -
  note D = check_slice_proposal_SomeD [OF assms]
  have "slice_fields_ok (s\<lparr>ps_write_paths := ps_write_paths t, ps_create_roots := ps_create_roots t\<rparr>)"
    using D(1) by (simp add: slice_fields_ok_def)
  with D(4) have "slice_fields_ok t" by (rule generation_contract_fields)
  moreover have "normalize_repo_relative_paths (ps_write_paths t) = Inr (ps_write_paths t)"
    "normalize_repo_relative_paths (ps_create_roots t) = Inr (ps_create_roots t)"
    using D(2,3) by (auto dest: normalize_idem)
  ultimately show ?thesis
    using generation_contract_idem [OF D(4)] by (simp add: check_slice_proposal_def)
qed

lemma check_plan_proposal_wf: "check_plan_proposal p = Some q \<Longrightarrow> wf_proposal q"
proof -
  assume a: "check_plan_proposal p = Some q"
  then obtain slices where sl: "map check_slice_proposal (pp_slices p) = map Some slices"
    and q: "q = p\<lparr>pp_slices := slices, pp_integration_ranks := py_dict (pp_integration_ranks p)\<rparr>"
    by (auto simp: check_plan_proposal_def those_Some_iff Let_def split: option.splits if_splits)
  have "map check_slice_proposal slices = map Some slices"
  proof (rule nth_equalityI)
    fix i assume "i < length (map check_slice_proposal slices)"
    moreover have "length (pp_slices p) = length slices"
      using sl by (metis length_map)
    ultimately show "map check_slice_proposal slices ! i = map Some slices ! i"
      using sl check_slice_proposal_idem by (metis length_map nth_map)
  qed simp
  then have "those (map check_slice_proposal slices) = Some slices"
    by (simp add: those_Some_iff)
  with a q show ?thesis
    by (auto simp: wf_proposal_def check_plan_proposal_def Let_def py_dict_id
        split: option.splits if_splits)
qed

lemma wf_proposal_distinct_refs: "wf_proposal p \<Longrightarrow> distinct (proposal_refs p)"
  by (auto simp: wf_proposal_def check_plan_proposal_def Let_def split: option.splits if_splits)

lemma wf_proposal_slice:
  assumes "wf_proposal p" "s \<in> set (pp_slices p)"
  shows "check_slice_proposal s = Some s"
proof -
  from assms(1) have "map check_slice_proposal (pp_slices p) = map Some (pp_slices p)"
    by (auto simp: wf_proposal_def check_plan_proposal_def those_Some_iff Let_def
        split: option.splits if_splits dest: arg_cong [of _ _ pp_slices])
  with assms(2) show ?thesis by (metis map_eq_conv)
qed

lemma wf_proposal_ranks_distinct: "wf_proposal p \<Longrightarrow> distinct (map fst (pp_integration_ranks p))"
  by (auto simp: wf_proposal_def check_plan_proposal_def Let_def
      split: option.splits if_splits dest!: arg_cong [of _ _ pp_integration_ranks])
     (metis distinct_keys_py_dict)

end
