(* ===== verification/Plan_Cycle.thy ===== *)
theory Plan_Cycle
  imports Prelude
begin

text \<open>
  \<open>_has_cycle\<close> of \<open>planning/validator.py\<close>: Kahn's algorithm over the local references.
  The dictionaries of the code are an adjacency function (every reference is a key, with the
  empty set to start from) and the in-degree table, an association list. The loop terminates
  because every reference enters the queue at most once, and the result is shown equivalent
  to the existence of a cycle in the edge relation.
\<close>

section \<open>The algorithm\<close>

type_synonym 'a degrees = "('a \<times> int) list"

definition bump_degree :: "int \<Rightarrow> 'a \<Rightarrow> 'a degrees \<Rightarrow> 'a degrees" where
  "bump_degree k c d = map (\<lambda>(r, n). if r = c then (r, n + k) else (r, n)) d"

text \<open>The loop that fills \<open>adjacency\<close> and \<open>indegree\<close>.\<close>

fun add_edges :: "'a set \<Rightarrow> ('a \<times> 'a) list \<Rightarrow> ('a \<Rightarrow> 'a list) \<times> 'a degrees \<Rightarrow> ('a \<Rightarrow> 'a list) \<times> 'a degrees"
  where
  "add_edges refs [] st = st"
| "add_edges refs ((f, t) # es) (adj, d) =
     add_edges refs es
       (if f \<in> refs \<and> t \<in> refs \<and> t \<notin> set (adj f)
        then (adj(f := adj f @ [t]), bump_degree 1 t d) else (adj, d))"

text \<open>The inner loop over the sorted children of a popped reference.\<close>

fun visit_children :: "'a list \<Rightarrow> 'a degrees \<times> 'a list \<Rightarrow> 'a degrees \<times> 'a list" where
  "visit_children [] st = st"
| "visit_children (c # cs) (d, q) =
     (let d' = bump_degree (- 1) c d
      in visit_children cs (d', if map_of d' c = Some 0 then q @ [c] else q))"

definition pending :: "'a degrees \<Rightarrow> nat" where
  "pending d = length (filter (\<lambda>(r, n). 0 < n) d)"

lemma pending_bump_le: "pending (bump_degree (- 1) c d) \<le> pending d"
  by (induction d) (auto simp: pending_def bump_degree_def split: if_splits)

lemma pending_bump_less:
  "map_of (bump_degree (- 1) c d) c = Some 0 \<Longrightarrow> pending (bump_degree (- 1) c d) < pending d"
proof (induction d)
  case (Cons p d)
  obtain r n where p: "p = (r, n)" by fastforce
  show ?case
  proof (cases "r = c")
    case True
    with Cons.prems p have "n = 1" by (simp add: bump_degree_def)
    then show ?thesis using True p pending_bump_le [of c d]
      by (simp add: pending_def bump_degree_def)
  next
    case False
    with Cons p show ?thesis by (auto simp: pending_def bump_degree_def)
  qed
qed (simp add: bump_degree_def)

lemma visit_children_measure:
  "visit_children cs (d, q) = (d', q') \<Longrightarrow> length q' + pending d' \<le> length q + pending d"
proof (induction cs arbitrary: d q)
  case (Cons c cs)
  let ?d = "bump_degree (- 1) c d"
  show ?case
  proof (cases "map_of ?d c = Some 0")
    case True
    with Cons.prems have "length q' + pending d' \<le> length (q @ [c]) + pending ?d"
      by (intro Cons.IH) (simp add: Let_def)
    with pending_bump_less [OF True] show ?thesis by simp
  next
    case False
    with Cons.prems have "length q' + pending d' \<le> length q + pending ?d"
      by (intro Cons.IH) (simp add: Let_def)
    with pending_bump_le [of c d] show ?thesis by simp
  qed
qed simp

text \<open>The outer loop: \<open>while queue\<close>.\<close>

function kahn_loop :: "(('a::linorder) \<Rightarrow> 'a list) \<Rightarrow> 'a degrees \<Rightarrow> 'a list \<Rightarrow> nat \<Rightarrow> nat" where
  "kahn_loop adj d [] visited = visited"
| "kahn_loop adj d (r # q) visited =
     (case visit_children (sort (adj r)) (d, q) of
        (d', q') \<Rightarrow> kahn_loop adj d' q' (Suc visited))"
  by pat_completeness auto
termination
proof (relation "measure (\<lambda>(adj, d, q, v). length q + pending d)", goal_cases)
  case (2 adj d r q visited d' q')
  then have "visit_children (sort (adj r)) (d, q) = (d', q')" by simp
  then have "length q' + pending d' \<le> length q + pending d" by (rule visit_children_measure)
  then show ?case by simp
qed simp

definition cycle_check_graph :: "('a::linorder) list \<Rightarrow> ('a \<times> 'a) list \<Rightarrow> bool" where
  "cycle_check_graph refs es =
     (let rs = remdups refs;
          (adj, d) = add_edges (set rs) es (\<lambda>_. [], map (\<lambda>r. (r, 0)) rs);
          queue = sort (map fst (filter (\<lambda>(r, n). n = 0) d))
      in kahn_loop adj d queue 0 \<noteq> length rs)"

section \<open>Correctness\<close>

definition edge_rel :: "'a set \<Rightarrow> ('a \<times> 'a) list \<Rightarrow> ('a \<times> 'a) set" where
  "edge_rel refs es = {(f, t) \<in> set es. f \<in> refs \<and> t \<in> refs}"

lemma bump_degree_keys [simp]: "map fst (bump_degree k c d) = map fst d"
  by (induction d) (auto simp: bump_degree_def)

lemma map_of_bump_degree:
  "map_of (bump_degree k c d) r = (if r = c then map_option (\<lambda>n. n + k) (map_of d r) else map_of d r)"
  by (induction d) (auto simp: bump_degree_def)

text \<open>What the filled tables hold.\<close>

definition tables_ok :: "'a set \<Rightarrow> ('a \<times> 'a) set \<Rightarrow> ('a \<Rightarrow> 'a list) \<Rightarrow> 'a degrees \<Rightarrow> bool" where
  "tables_ok refs E adj d \<longleftrightarrow>
     (\<forall>r. set (adj r) = {t. (r, t) \<in> E}) \<and> (\<forall>r. distinct (adj r))
     \<and> (\<forall>r. map_of d r = (if r \<in> refs then Some (int (card {u. (u, r) \<in> E})) else None))"

lemma add_edges_tables:
  assumes "finite E" "E \<subseteq> refs \<times> refs" "tables_ok refs E adj d"
    "add_edges refs es (adj, d) = (adj', d')"
  shows "tables_ok refs (E \<union> edge_rel refs es) adj' d' \<and> map fst d' = map fst d"
  using assms
proof (induction refs es "(adj, d)" arbitrary: adj d E rule: add_edges.induct)
  case (1 refs)
  then show ?case by (auto simp: edge_rel_def)
next
  case (2 refs f t es adj d)
  show ?case
  proof (cases "f \<in> refs \<and> t \<in> refs \<and> t \<notin> set (adj f)")
    case True
    let ?E = "insert (f, t) E"
    have "{u. (u, r) \<in> ?E} = (if r = t then insert f {u. (u, r) \<in> E} else {u. (u, r) \<in> E})" for r
      by auto
    moreover have "finite {u. (u, r) \<in> E}" for r
      using finite_subset [of "{u. (u, r) \<in> E}" "fst ` E"] "2.prems"(1) by force
    moreover have "(f, t) \<notin> E" using True "2.prems"(3) by (auto simp: tables_ok_def)
    ultimately have "tables_ok refs ?E (adj(f := adj f @ [t])) (bump_degree 1 t d)"
      using True "2.prems"(3) by (auto simp: tables_ok_def map_of_bump_degree)
    then have "tables_ok refs (?E \<union> edge_rel refs es) adj' d' \<and> map fst d' = map fst (bump_degree 1 t d)"
      using True "2.prems" by (intro "2.hyps") (auto simp del: fun_upd_apply)
    moreover have "?E \<union> edge_rel refs es = E \<union> edge_rel refs ((f, t) # es)"
      using True by (auto simp: edge_rel_def)
    ultimately show ?thesis by simp
  next
    case False
    then have "tables_ok refs (E \<union> edge_rel refs es) adj' d' \<and> map fst d' = map fst d"
      using "2.prems" by (intro "2.hyps") auto
    moreover have "E \<union> edge_rel refs es = E \<union> edge_rel refs ((f, t) # es)"
      using False "2.prems"(3) by (auto simp: edge_rel_def tables_ok_def)
    ultimately show ?thesis by simp
  qed
qed

lemma visit_children_spec:
  assumes "distinct cs" "visit_children cs (d, q) = (d', q')"
  shows "q' = q @ filter (\<lambda>c. map_of d c = Some 1) cs
    \<and> (\<forall>x. map_of d' x = (if x \<in> set cs then map_option (\<lambda>n. n - 1) (map_of d x) else map_of d x))"
  using assms
proof (induction cs arbitrary: d q)
  case (Cons c cs)
  let ?d = "bump_degree (- 1) c d"
  let ?q = "if map_of ?d c = Some 0 then q @ [c] else q"
  have hit: "map_of ?d c = Some 0 \<longleftrightarrow> map_of d c = Some 1"
    by (cases "map_of d c") (auto simp: map_of_bump_degree)
  have same: "filter (\<lambda>x. map_of ?d x = Some 1) cs = filter (\<lambda>x. map_of d x = Some 1) cs"
    using Cons.prems(1) by (intro filter_cong) (auto simp: map_of_bump_degree)
  from Cons.prems have "visit_children cs (?d, ?q) = (d', q')" by (simp add: Let_def)
  with Cons have "q' = ?q @ filter (\<lambda>x. map_of ?d x = Some 1) cs
      \<and> (\<forall>x. map_of d' x = (if x \<in> set cs then map_option (\<lambda>n. n - 1) (map_of ?d x) else map_of ?d x))"
    by (intro Cons.IH) auto
  with hit same Cons.prems(1) show ?case by (auto simp: map_of_bump_degree)
qed simp

text \<open>
  The state of the outer loop after the references \<open>V\<close> were popped: the table counts the
  unpopped predecessors, and the queue holds exactly the unpopped references without one.
\<close>

definition open_preds :: "('a \<times> 'a) set \<Rightarrow> 'a set \<Rightarrow> 'a \<Rightarrow> 'a set" where
  "open_preds E V r = {u. (u, r) \<in> E \<and> u \<notin> V}"

definition kahn_inv :: "'a set \<Rightarrow> ('a \<times> 'a) set \<Rightarrow> 'a degrees \<Rightarrow> 'a list \<Rightarrow> 'a set \<Rightarrow> bool" where
  "kahn_inv refs E d q V \<longleftrightarrow>
     V \<subseteq> refs \<and> distinct q \<and> set q = {r \<in> refs - V. open_preds E V r = {}}
     \<and> (\<forall>r \<in> V. open_preds E V r = {})
     \<and> (\<forall>r. map_of d r = (if r \<in> refs then Some (int (card (open_preds E V r))) else None))
     \<and> acyclic (E \<inter> V \<times> V)"

lemma finite_open_preds: "finite E \<Longrightarrow> finite (open_preds E V r)"
  by (rule finite_subset [of _ "fst ` E"]) (force simp: open_preds_def)+

lemma open_preds_insert: "open_preds E (insert v V) r = open_preds E V r - {v}"
  by (auto simp: open_preds_def)

lemma acyclic_add_sink:
  assumes "acyclic R" "S \<subseteq> UNIV \<times> {v}" "v \<notin> Domain R" "v \<notin> Domain S"
  shows "acyclic (R \<union> S)"
proof (rule acyclicI, rule allI, rule notI)
  fix x assume loop: "(x, x) \<in> (R \<union> S)\<^sup>+"
  have path: "(a, b) \<in> R\<^sup>+ \<or> b = v" if "(a, b) \<in> (R \<union> S)\<^sup>+" for a b
    using that
  proof (induction rule: trancl_induct)
    case (base y)
    then show ?case using assms(2) by auto
  next
    case (step y z)
    then show ?case using assms(2-4) by (auto intro: trancl_into_trancl)
  qed
  from loop obtain y where "(x, y) \<in> R \<union> S" by (meson tranclD)
  then have "x \<noteq> v" using assms(3,4) by auto
  with path [OF loop] assms(1) show False by (auto simp: acyclic_def)
qed

lemma kahn_inv_pop:
  assumes inv: "kahn_inv refs E d (v # q) V" and E: "finite E" "E \<subseteq> refs \<times> refs"
    and cs: "set cs = {t. (v, t) \<in> E}" "distinct cs"
    and step: "visit_children cs (d, q) = (d', q')"
  shows "kahn_inv refs E d' q' (insert v V)"
proof -
  from inv have v: "v \<in> refs" "v \<notin> V" "open_preds E V v = {}" and dq: "v \<notin> set q" "distinct q"
    and q: "insert v (set q) = {r \<in> refs - V. open_preds E V r = {}}"
    and closed: "\<And>r. r \<in> V \<Longrightarrow> open_preds E V r = {}"
    and deg: "\<And>r. map_of d r = (if r \<in> refs then Some (int (card (open_preds E V r))) else None)"
    and ac: "acyclic (E \<inter> V \<times> V)" and V: "V \<subseteq> refs"
    by (auto simp: kahn_inv_def)
  from visit_children_spec [OF cs(2) step]
  have q': "q' = q @ filter (\<lambda>c. map_of d c = Some 1) cs"
    and d': "\<And>x. map_of d' x = (if x \<in> set cs then map_option (\<lambda>n. n - 1) (map_of d x) else map_of d x)"
    by auto
  have child: "c \<in> set cs \<longleftrightarrow> v \<in> open_preds E V c" for c
    using cs(1) v(2) by (auto simp: open_preds_def)
  have child_refs: "c \<in> set cs \<Longrightarrow> c \<in> refs" for c using cs(1) E(2) by auto
  have deg': "map_of d' r = (if r \<in> refs then Some (int (card (open_preds E (insert v V) r))) else None)" for r
  proof (cases "r \<in> set cs")
    case True
    then have "v \<in> open_preds E V r" using child by blast
    then have "Suc (card (open_preds E V r - {v})) = card (open_preds E V r)"
      by (intro card.remove [symmetric] finite_open_preds [OF E(1)])
    then have "int (card (open_preds E (insert v V) r)) = int (card (open_preds E V r)) - 1"
      by (simp add: open_preds_insert)
    with True child_refs [OF True] show ?thesis by (simp add: d' deg)
  next
    case False
    with child [of r] show ?thesis by (simp add: d' deg open_preds_insert)
  qed
  have newq: "c \<in> set cs \<and> map_of d c = Some 1 \<longleftrightarrow> open_preds E V c = {v}" for c
    using child [of c] child_refs [of c] deg [of c]
    by (auto simp: card_1_singleton_iff)
  have q'_set: "set q' = {r \<in> refs - insert v V. open_preds E (insert v V) r = {}}"
  proof (rule set_eqI)
    fix r
    have "r \<in> set q' \<longleftrightarrow> r \<in> set q \<or> open_preds E V r = {v}"
      using newq [of r] by (auto simp: q')
    also have "\<dots> \<longleftrightarrow> r \<in> {r \<in> refs - insert v V. open_preds E (insert v V) r = {}}"
      using q dq(1) v(3) closed [of r] newq [of r] child_refs [of r]
      by (auto simp: open_preds_insert)
    finally show "r \<in> set q' \<longleftrightarrow> r \<in> {r \<in> refs - insert v V. open_preds E (insert v V) r = {}}" .
  qed
  have "distinct q'"
    using dq(2) cs(2) q newq by (fastforce simp: q')
  moreover have "\<forall>r \<in> insert v V. open_preds E (insert v V) r = {}"
    using closed v(3) by (auto simp: open_preds_insert)
  moreover have "acyclic (E \<inter> insert v V \<times> insert v V)"
  proof -
    have "v \<notin> open_preds E V w" if "w \<in> insert v V" for w using that closed v(3) by auto
    then have noout: "(v, w) \<notin> E" if "w \<in> insert v V" for w
      using that v(2) by (auto simp: open_preds_def)
    then have "E \<inter> insert v V \<times> insert v V = E \<inter> V \<times> V \<union> E \<inter> V \<times> {v}" by auto
    also have "acyclic \<dots>" using ac v(2) by (intro acyclic_add_sink) auto
    finally show ?thesis .
  qed
  ultimately show ?thesis
    using V v(1) deg' q'_set by (auto simp: kahn_inv_def)
qed

lemma kahn_inv_subset: "kahn_inv refs E d q V \<Longrightarrow> V \<subseteq> refs"
  by (simp add: kahn_inv_def)

lemma kahn_inv_queue: "kahn_inv refs E d q V \<Longrightarrow> set q = {r \<in> refs - V. open_preds E V r = {}}"
  by (simp add: kahn_inv_def)

lemma kahn_loop_result:
  assumes "kahn_inv refs E d q V" "finite refs" "finite E" "E \<subseteq> refs \<times> refs"
    "\<And>r. set (adj r) = {t. (r, t) \<in> E}" "\<And>r. distinct (adj r)"
  shows "\<exists>d' V'. kahn_inv refs E d' [] V' \<and> kahn_loop adj d q n = n + card (V' - V) \<and> V \<subseteq> V'"
  using assms
proof (induction adj d q n arbitrary: V rule: kahn_loop.induct)
  case (1 adj d n)
  then show ?case by (intro exI [of _ d] exI [of _ V]) simp
next
  case (2 adj d v q n)
  obtain d1 q1 where step: "visit_children (sort (adj v)) (d, q) = (d1, q1)" by fastforce
  have inv1: "kahn_inv refs E d1 q1 (insert v V)"
    using kahn_inv_pop [OF "2.prems"(1,3,4) _ _ step] "2.prems"(5,6) by simp
  obtain d' V' where r: "kahn_inv refs E d' [] V'"
    "kahn_loop adj d1 q1 (Suc n) = Suc n + card (V' - insert v V)" "insert v V \<subseteq> V'"
    using "2.IH" [OF step [symmetric] inv1 "2.prems"(2-6)] by blast
  have "v \<notin> V" using kahn_inv_queue [OF "2.prems"(1)] by auto
  have "finite V'" using kahn_inv_subset [OF r(1)] "2.prems"(2) by (rule finite_subset)
  then have "card (insert v (V' - insert v V)) = Suc (card (V' - insert v V))" by simp
  moreover have "insert v (V' - insert v V) = V' - V" using r(3) \<open>v \<notin> V\<close> by auto
  ultimately have "card (V' - V) = Suc (card (V' - insert v V))" by (simp only:)
  with r step show ?case by (intro exI [of _ d'] exI [of _ V']) auto
qed

text \<open>A finite set whose every member has a predecessor in it carries a cycle.\<close>

lemma acyclic_has_source:
  assumes "acyclic E" "finite E" "U \<noteq> {}"
  shows "\<exists>r \<in> U. \<forall>u. (u, r) \<in> E \<longrightarrow> u \<notin> U"
proof -
  have "wf E" using assms(2,1) by (rule finite_acyclic_wf)
  then show ?thesis using assms(3) unfolding wf_eq_minimal by (metis ex_in_conv)
qed

lemma kahn_done:
  assumes "kahn_inv refs E d [] V" "finite E" "E \<subseteq> refs \<times> refs"
  shows "V = refs \<longleftrightarrow> acyclic E"
proof
  assume "V = refs"
  with assms show "acyclic E" by (simp add: kahn_inv_def inf.absorb1)
next
  assume "acyclic E"
  show "V = refs"
  proof (rule ccontr)
    assume "V \<noteq> refs"
    with kahn_inv_subset [OF assms(1)] have ne: "refs - V \<noteq> {}" by blast
    obtain r where "r \<in> refs - V" "\<forall>u. (u, r) \<in> E \<longrightarrow> u \<notin> refs - V"
      using acyclic_has_source [OF \<open>acyclic E\<close> assms(2) ne] by (elim bexE)
    then have "open_preds E V r = {}" using assms(3) unfolding open_preds_def by blast
    moreover have "{r \<in> refs - V. open_preds E V r = {}} = {}"
      using kahn_inv_queue [OF assms(1)] by simp
    ultimately show False using \<open>r \<in> refs - V\<close> by blast
  qed
qed

theorem cycle_check_graph_iff:
  "cycle_check_graph refs es \<longleftrightarrow> \<not> acyclic (edge_rel (set refs) es)"
proof -
  let ?rs = "remdups refs" and ?E = "edge_rel (set refs) es"
  obtain adj d where t: "add_edges (set ?rs) es (\<lambda>_. [], map (\<lambda>r. (r, 0)) ?rs) = (adj, d)"
    by fastforce
  have E: "finite ?E" "?E \<subseteq> set refs \<times> set refs"
    by (auto simp: edge_rel_def intro: finite_subset [of _ "set es"])
  have "tables_ok (set refs) {} (\<lambda>_. []) (map (\<lambda>r. (r, 0)) ?rs)"
    by (auto simp: tables_ok_def map_of_map_restrict restrict_map_def comp_def map_of_eq_None_iff)
  with t have tabs: "tables_ok (set refs) ?E adj d" and keys: "map fst d = ?rs"
    using add_edges_tables [of "{}" "set refs" "\<lambda>_. []" "map (\<lambda>r. (r, 0)) ?rs" es adj d]
    by (auto simp: comp_def)
  let ?q = "sort (map fst (filter (\<lambda>(r, n). n = 0) d))"
  have "kahn_inv (set refs) ?E d ?q {}"
  proof -
    have dd: "distinct (map fst d)" using keys by simp
    then have mem: "(r, n) \<in> set d \<longleftrightarrow> map_of d r = Some n" for r n by simp
    have "set ?q = {r. (r, 0) \<in> set d}" by force
    also have "\<dots> = {r \<in> set refs. open_preds ?E {} r = {}}"
      using tabs finite_open_preds [OF E(1), of "{}"]
      unfolding mem by (auto simp: tables_ok_def open_preds_def split: if_splits)
    finally have "set ?q = {r \<in> set refs - {}. open_preds ?E {} r = {}}" by simp
    moreover have "distinct ?q" using dd by (simp add: distinct_map_filter)
    ultimately show ?thesis
      using tabs by (simp add: kahn_inv_def tables_ok_def open_preds_def acyclic_def)
  qed
  then obtain d' V where V: "kahn_inv (set refs) ?E d' [] V" "kahn_loop adj d ?q 0 = card V"
    using kahn_loop_result [of "set refs" ?E d ?q "{}" adj 0] E tabs by (auto simp: tables_ok_def)
  have "card V = length ?rs \<longleftrightarrow> V = set refs"
    using kahn_inv_subset [OF V(1)] card_subset_eq [of "set refs" V]
    by (auto simp: length_remdups_card_conv)
  with V t kahn_done [OF V(1) E] show ?thesis by (simp add: cycle_check_graph_def)
qed

end
