(* ===== verification/Plan_Validator.thy ===== *)
theory Plan_Validator
  imports Plan_Model Plan_Cycle
begin

text \<open>
  \<open>PlanValidator\<close> of \<open>planning/validator.py\<close>: the guards a proposal passes before it is
  frozen, each as the list of violations it reports, and \<open>validate\<close>, which runs them in
  the order of the code. The lemmas say what an accepted proposal satisfies.
\<close>

section \<open>The guards\<close>

definition violation :: "stable_error_code \<Rightarrow> string \<Rightarrow> string \<Rightarrow> (string \<times> detail) list \<Rightarrow> plan_violation"
  where
  "violation code pointer message details =
     \<lparr>pv_code = code, pv_pointer = pointer, pv_message = message, pv_details = details\<rparr>"

definition module_table :: "planning_inputs \<Rightarrow> uuid \<rightharpoonup> module_fact" where
  "module_table inputs = map_of (py_dict (map (\<lambda>m. (mf_module_id m, m)) (an_modules (in_analysis inputs))))"

definition in_scope_source_files :: "planning_inputs \<Rightarrow> (string \<times> uuid) list" where
  "in_scope_source_files inputs =
     (let artifact_paths = map af_path (an_artifacts (in_analysis inputs))
      in py_dict (concat (map (\<lambda>m.
           if mf_role m \<noteq> Source \<and> mf_role m \<noteq> TestRole then []
           else map (\<lambda>path. (path, mf_module_id m))
                  (filter (\<lambda>path. scope_includes_path (in_scope inputs) path \<and> path \<notin> set artifact_paths)
                     (mf_file_paths m)))
           (an_modules (in_analysis inputs)))))"

fun expected_role :: "slice_kind \<Rightarrow> module_role option" where
  "expected_role Implementation = Some Source"
| "expected_role TestTranslation = Some TestRole"
| "expected_role TestGeneration = Some Source"
| "expected_role Contract = None"

definition coverage_status_of :: "planning_inputs \<Rightarrow> uuid \<rightharpoonup> module_coverage" where
  "coverage_status_of inputs =
     map_of (py_dict (map (\<lambda>s. (cs_module s, cs_status s)) (an_coverage_status (in_analysis inputs))))"

text \<open>The body of the inner loop of \<open>_validate_slice_modules\<close>.\<close>

definition module_violations ::
  "planning_inputs \<Rightarrow> plan_slice_proposal \<Rightarrow> string \<Rightarrow> uuid \<Rightarrow> plan_violation list" where
  "module_violations inputs s pointer module_id =
     (case module_table inputs module_id of
        None \<Rightarrow> [violation PLAN_COVERAGE_INVALID pointer
                   ''source module is not present in analysis facts''
                   [(''module_id'', DStr (str_uuid module_id))]]
      | Some m \<Rightarrow>
          (case expected_role (ps_kind s) of
             None \<Rightarrow> []
           | Some role \<Rightarrow>
               if mf_role m \<noteq> role
               then [violation PLAN_COVERAGE_INVALID pointer
                       ''slice source module role does not match its Slice kind''
                       [(''expected_role'', DStr (module_role_value role)),
                        (''actual_role'', DStr (module_role_value (mf_role m)))]]
               else [])
          @ (let out_of_scope = filter (\<lambda>p. \<not> scope_includes_path (in_scope inputs) p) (mf_file_paths m)
             in if out_of_scope \<noteq> []
                then [violation PLAN_COVERAGE_INVALID pointer
                        ''slice source module contains files outside the migration scope''
                        [(''paths'', DStrs out_of_scope)]]
                else [])
          @ (if ps_kind s = TestGeneration \<and> coverage_status_of inputs module_id \<noteq> Some EmptyTestSuite
             then [violation PLAN_COVERAGE_INVALID pointer
                     ''TestGeneration requires an EmptyTestSuite source module''
                     [(''status'', DStr (case coverage_status_of inputs module_id of
                         None \<Rightarrow> ''MISSING'' | Some st \<Rightarrow> module_coverage_value st))]]
             else []))"

definition validate_slice_modules :: "plan_proposal \<Rightarrow> planning_inputs \<Rightarrow> plan_violation list" where
  "validate_slice_modules p inputs =
     concat (map (\<lambda>(i, s). concat (map (\<lambda>(j, module_id).
         module_violations inputs s
           (''/slices/'' @ str_nat i @ ''/source_modules/'' @ str_nat j) module_id)
       (enum_list (ps_source_modules s)))) (enum_list (pp_slices p)))"

text \<open>\<open>_validate_edges\<close>: the loop with the set of keys already seen.\<close>

definition edge_key :: "plan_edge_proposal \<Rightarrow> string \<times> string \<times> string" where
  "edge_key e = (pe_from e, pe_to e, plan_edge_kind_value (pe_kind e))"

definition edge_violations ::
  "string list \<Rightarrow> (string \<times> string \<times> string) set \<Rightarrow> nat \<Rightarrow> plan_edge_proposal \<Rightarrow> plan_violation list" where
  "edge_violations refs seen index e =
     (let pointer = ''/edges/'' @ str_nat index
      in (if pe_from e \<notin> set refs \<or> pe_to e \<notin> set refs
          then [violation PLAN_EDGE_INVALID pointer ''edge endpoint is not a slice in this proposal'' []]
          else [])
       @ (if pe_from e = pe_to e \<and> pe_from e \<notin> set refs
          then [violation PLAN_EDGE_INVALID pointer ''self edges are not allowed'' []] else [])
       @ (if edge_key e \<in> seen
          then [violation PLAN_EDGE_INVALID pointer ''duplicate edge'' []] else [])
       @ (if pe_provenance e = ImportUnknown \<and> plan_edge_kind_value (pe_kind e) = ''REQUIRES''
          then [violation PLAN_EDGE_INVALID pointer
                  ''Unknown import facts may only produce OrderedBefore edges'' []] else [])
       @ (if pe_provenance e = WriteScopeConflict
          then [violation PLAN_SCOPE_CONFLICT pointer
                  ''write conflicts cannot be hidden by a planning edge'' []] else []))"

fun validate_edges_loop ::
  "string list \<Rightarrow> (string \<times> string \<times> string) set \<Rightarrow> nat \<Rightarrow> plan_edge_proposal list \<Rightarrow> plan_violation list" where
  "validate_edges_loop refs seen index [] = []"
| "validate_edges_loop refs seen index (e # es) =
     edge_violations refs seen index e
     @ validate_edges_loop refs (insert (edge_key e) seen) (Suc index) es"

definition validate_edges :: "plan_proposal \<Rightarrow> plan_violation list" where
  "validate_edges p = validate_edges_loop (proposal_refs p) {} 0 (pp_edges p)"

text \<open>\<open>_validate_test_edges\<close>.\<close>

definition tested_by_test_module :: "planning_inputs \<Rightarrow> uuid \<Rightarrow> uuid list" where
  "tested_by_test_module inputs test_module_id =
     concat (map (\<lambda>c.
       if list_ex (\<lambda>m. mf_module_id m = test_module_id \<and> ce_test_file c \<in> set (mf_file_paths m))
            (an_modules (in_analysis inputs))
       then ce_tested_modules c else []) (an_coverage (in_analysis inputs)))"

definition kind_by_ref :: "plan_proposal \<Rightarrow> (string \<times> slice_kind) list" where
  "kind_by_ref p = py_dict (map (\<lambda>s. (ps_local_ref s, ps_kind s)) (pp_slices p))"

definition modules_by_ref :: "plan_proposal \<Rightarrow> string \<Rightarrow> uuid list" where
  "modules_by_ref p ref =
     (case map_of (py_dict (map (\<lambda>s. (ps_local_ref s, ps_source_modules s)) (pp_slices p))) ref of
        None \<Rightarrow> [] | Some ms \<Rightarrow> ms)"

definition edge_test_ref :: "plan_proposal \<Rightarrow> plan_edge_proposal \<Rightarrow> string option" where
  "edge_test_ref p e =
     map_option fst (List.find (\<lambda>(ref, kind).
       slice_kind_value kind \<in> set [''TEST_TRANSLATION'', ''TEST_GENERATION'']
       \<and> ref \<in> set [pe_from e, pe_to e]) (kind_by_ref p))"

definition tested_modules :: "plan_proposal \<Rightarrow> planning_inputs \<Rightarrow> string \<Rightarrow> uuid list" where
  "tested_modules p inputs test_ref =
     (if map_of (kind_by_ref p) test_ref = Some TestGeneration then modules_by_ref p test_ref
      else concat (map (\<lambda>module_id. if module_table inputs module_id \<noteq> None
                        then tested_by_test_module inputs module_id else [])
             (modules_by_ref p test_ref)))"

definition test_edge_violations ::
  "plan_proposal \<Rightarrow> planning_inputs \<Rightarrow> nat \<times> plan_edge_proposal \<Rightarrow> plan_violation list" where
  "test_edge_violations p inputs = (\<lambda>(index, e).
     case edge_test_ref p e of
       None \<Rightarrow> []
     | Some test_ref \<Rightarrow>
         let implementation_ref = (if test_ref = pe_from e then pe_to e else pe_from e)
         in if map_option slice_kind_value (map_of (kind_by_ref p) implementation_ref)
                \<noteq> Some ''IMPLEMENTATION'' then []
            else if set (tested_modules p inputs test_ref) \<inter> set (modules_by_ref p implementation_ref) \<noteq> {}
            then [violation PLAN_EDGE_INVALID (''/edges/'' @ str_nat index)
                    ''test slices must not edge to their tested implementation slice'' []]
            else [])"

definition validate_test_edges :: "plan_proposal \<Rightarrow> planning_inputs \<Rightarrow> plan_violation list" where
  "validate_test_edges p inputs = concat (map (test_edge_violations p inputs) (enum_list (pp_edges p)))"

text \<open>\<open>_validate_artifacts\<close>: tasks and facts in one-to-one correspondence.\<close>

definition task_matches_fact :: "artifact_task \<Rightarrow> artifact_fact \<Rightarrow> bool" where
  "task_matches_fact t f \<longleftrightarrow>
     (case at_artifact_path t of
        Some p \<Rightarrow> p = af_path f
      | None \<Rightarrow> at_source_path t
          = (case af_source_path f of Some s \<Rightarrow> (if s = [] then af_path f else s) | None \<Rightarrow> af_path f))"

definition indexed_tasks :: "plan_proposal \<Rightarrow> (nat \<times> nat \<times> artifact_task) list" where
  "indexed_tasks p = concat (map (\<lambda>(i, s). map (\<lambda>(j, t). (i, j, t)) (enum_list (ps_artifact_tasks s)))
     (enum_list (pp_slices p)))"

definition task_pointer :: "nat \<Rightarrow> nat \<Rightarrow> string" where
  "task_pointer i j = ''/slices/'' @ str_nat i @ ''/artifact_tasks/'' @ str_nat j"

definition fact_violations :: "(nat \<times> nat \<times> artifact_task) list \<Rightarrow> artifact_fact \<Rightarrow> plan_violation list" where
  "fact_violations tasks f =
     (let matches = filter (\<lambda>(i, j, t). task_matches_fact t f) tasks
      in case matches of
           [(i, j, t)] \<Rightarrow>
             if at_kind t \<noteq> af_artifact_kind f
             then [violation PLAN_COVERAGE_INVALID (task_pointer i j)
                     ''artifact task kind does not match the analyzed artifact''
                     [(''artifact_path'', DStr (af_path f))]]
             else []
         | _ \<Rightarrow> [violation PLAN_COVERAGE_INVALID ''/slices''
                   ''each analyzed artifact must be assigned to exactly one artifact task''
                   [(''artifact_path'', DStr (af_path f)), (''task_count'', DInt (int (length matches)))]])"

definition task_violations :: "artifact_fact list \<Rightarrow> nat \<times> nat \<times> artifact_task \<Rightarrow> plan_violation list" where
  "task_violations facts = (\<lambda>(i, j, t).
     if length (filter (task_matches_fact t) facts) \<noteq> 1
     then [violation PLAN_COVERAGE_INVALID (task_pointer i j)
             ''artifact task does not identify exactly one analyzed artifact''
             [(''task_source_path'', DStr (at_source_path t))]]
     else [])"

definition validate_artifacts :: "plan_proposal \<Rightarrow> planning_inputs \<Rightarrow> plan_violation list" where
  "validate_artifacts p inputs =
     (let facts = an_artifacts (in_analysis inputs); tasks = indexed_tasks p
      in concat (map (fact_violations tasks) facts) @ concat (map (task_violations facts) tasks))"

text \<open>Write scopes.\<close>

definition path_is_in_root :: "string \<Rightarrow> string \<Rightarrow> bool" where
  "path_is_in_root path root \<longleftrightarrow> path = root \<or> prefix (root @ ''/'') path"

definition scopes_overlap :: "string list \<Rightarrow> string list \<Rightarrow> string list \<Rightarrow> string list \<Rightarrow> bool" where
  "scopes_overlap left_paths left_roots right_paths right_roots \<longleftrightarrow>
     set left_paths \<inter> set right_paths \<noteq> {}
     \<or> list_ex (\<lambda>path. list_ex (path_is_in_root path) right_roots) left_paths
     \<or> list_ex (\<lambda>path. list_ex (path_is_in_root path) left_roots) right_paths
     \<or> list_ex (\<lambda>left_root. list_ex (\<lambda>right_root.
          path_is_in_root left_root right_root \<or> path_is_in_root right_root left_root) right_roots) left_roots"

definition slices_overlap :: "plan_slice_proposal \<Rightarrow> plan_slice_proposal \<Rightarrow> bool" where
  "slices_overlap l r =
     scopes_overlap (ps_write_paths l) (ps_create_roots l) (ps_write_paths r) (ps_create_roots r)"

definition validate_artifact_scopes :: "plan_proposal \<Rightarrow> plan_violation list" where
  "validate_artifact_scopes p =
     (let translation_slices = filter (\<lambda>s. ps_kind s \<in> set [Implementation, TestTranslation, TestGeneration])
                                 (pp_slices p)
      in concat (map (\<lambda>(i, s). concat (map (\<lambda>(j, t).
           if at_kind t = ResourceFile
              \<and> list_ex (\<lambda>target. scopes_overlap [at_target_path t] []
                    (ps_write_paths target) (ps_create_roots target)) translation_slices
           then [violation PLAN_SCOPE_CONFLICT (task_pointer i j)
                   ''ResourceFile targets must not enter a translation slice write scope'' []]
           else []) (enum_list (ps_artifact_tasks s)))) (enum_list (pp_slices p))))"

fun conflicts_with :: "nat \<Rightarrow> plan_slice_proposal \<Rightarrow> plan_slice_proposal list \<Rightarrow> plan_violation list" where
  "conflicts_with left_index l [] = []"
| "conflicts_with left_index l (r # rs) =
     (if slices_overlap l r
      then [violation PLAN_SCOPE_CONFLICT (''/slices/'' @ str_nat left_index @ ''/write_paths'')
              ''slice write scopes must be pairwise disjoint'' [(''other'', DStr (ps_local_ref r))]]
      else []) @ conflicts_with left_index l rs"

fun scope_conflicts_from :: "nat \<Rightarrow> plan_slice_proposal list \<Rightarrow> plan_violation list" where
  "scope_conflicts_from i [] = []"
| "scope_conflicts_from i (s # ss) = conflicts_with i s ss @ scope_conflicts_from (Suc i) ss"

definition validate_scope_conflicts :: "plan_proposal \<Rightarrow> plan_violation list" where
  "validate_scope_conflicts p = scope_conflicts_from 0 (pp_slices p)"

text \<open>
  \<open>_layout_principle_prefixes\<close>. The two patterns, compiled with \<open>re.IGNORECASE\<close>; white
  space and letters are the ASCII ones.
\<close>

definition is_space :: "char \<Rightarrow> bool" where
  "is_space c \<longleftrightarrow> c \<in> {CHR '' '', CHR 0x09, CHR 0x0A, CHR 0x0B, CHR 0x0C, CHR 0x0D,
     CHR 0x1C, CHR 0x1D, CHR 0x1E, CHR 0x1F}"

definition to_lower :: "char \<Rightarrow> char" where
  "to_lower c = (if CHR ''A'' \<le> c \<and> c \<le> CHR ''Z'' then char_of (of_char c + (32::nat)) else c)"

definition rx_ilit :: "string \<Rightarrow> rx" where
  "rx_ilit s = foldr (\<lambda>c r. Seq (Cls (\<lambda>x. to_lower x = c)) r) s Eps"

definition path_word :: rx where
  "path_word = Plus (Cls (\<lambda>c. is_alpha c \<or> is_digit c \<or> c \<in> {CHR ''_'', CHR ''.'', CHR ''-''}))"

definition path_group :: rx where
  "path_group = Grp (Seq path_word (Star (Seq (Cls (\<lambda>c. c = slash)) path_word)))"

definition open_quote :: rx where
  "open_quote = Opt (Cls (\<lambda>c. c \<in> {CHR 0x60, CHR 0x22, CHR 0x27}))"

definition layout_rx :: rx where
  "layout_rx = rx_seq [WordB, Opt (Seq (rx_ilit ''target'') (Plus (Cls is_space))),
     rx_ilit ''layout'', Plus (Cls is_space), Alt (rx_ilit ''prefix'') (rx_ilit ''root''),
     Star (Cls is_space), Cls (\<lambda>c. c \<in> {CHR '':'', CHR ''=''}), Star (Cls is_space),
     open_quote, path_group]"

definition under_rx :: rx where
  "under_rx = rx_seq [WordB, Opt (Seq (rx_ilit ''target'') (Plus (Cls is_space))),
     Alt (Seq (rx_ilit ''path'') (Opt (rx_ilit ''s''))) (Seq (rx_ilit ''file'') (Opt (rx_ilit ''s''))),
     Plus (Cls is_space), rx_ilit ''under'', Plus (Cls is_space), open_quote, path_group]"

definition layout_principle_prefixes :: "string \<Rightarrow> string list" where
  "layout_principle_prefixes principle =
     map (rstrip_char slash)
       (List.map_filter (\<lambda>pattern. case re_search pattern principle of
            Some (_, _, Some g) \<Rightarrow> Some g | _ \<Rightarrow> None) [layout_rx, under_rx])"

definition blueprint_prefixes :: "target_project_blueprint \<Rightarrow> string list" where
  "blueprint_prefixes bp =
     concat (map (\<lambda>boundary. List.map_filter (\<lambda>key.
         case map_of boundary key of
           Some (JStr value) \<Rightarrow> (if value \<noteq> [] then Some (rstrip_char slash value) else None)
         | _ \<Rightarrow> None) [''target_path_prefix'', ''target_prefix'', ''path_prefix'', ''target_root''])
       (bp_module_boundaries bp))
     @ concat (map layout_principle_prefixes (bp_target_layout_principles bp))"

definition validate_blueprint :: "plan_proposal \<Rightarrow> planning_inputs \<Rightarrow> plan_violation list" where
  "validate_blueprint p inputs =
     (let prefixes = blueprint_prefixes (in_blueprint inputs)
      in if prefixes = [] then []
         else concat (map (\<lambda>(i, s). concat (map (\<lambda>path.
             if \<not> list_ex (path_is_in_root path) prefixes
             then [violation PLAN_BLUEPRINT_VIOLATION (''/slices/'' @ str_nat i)
                     ''target path is outside all Blueprint target prefixes''
                     [(''path'', DStr path), (''allowed_prefixes'', DStrs (sorted_set prefixes))]]
             else []) (ps_write_paths s @ ps_create_roots s))) (enum_list (pp_slices p))))"

definition proposal_edges :: "plan_proposal \<Rightarrow> (string \<times> string) list" where
  "proposal_edges p = map (\<lambda>e. (pe_from e, pe_to e)) (pp_edges p)"

definition has_cycle :: "plan_proposal \<Rightarrow> bool" where
  "has_cycle p = cycle_check_graph (proposal_refs p) (proposal_edges p)"

definition edge_rank_violations :: "plan_proposal \<Rightarrow> nat \<times> plan_edge_proposal \<Rightarrow> plan_violation list" where
  "edge_rank_violations p = (\<lambda>(index, e).
     if pe_from e \<in> set (proposal_refs p) \<and> pe_to e \<in> set (proposal_refs p)
     then (case (map_of (pp_integration_ranks p) (pe_from e), map_of (pp_integration_ranks p) (pe_to e)) of
             (Some from_rank, Some to_rank) \<Rightarrow>
               if to_rank \<le> from_rank
               then [violation PLAN_RANK_INCONSISTENT (''/edges/'' @ str_nat index)
                       ''every edge must point from a lower integration rank to a higher rank''
                       [(''from_rank'', DInt from_rank), (''to_rank'', DInt to_rank)]]
               else []
           | _ \<Rightarrow> [])
     else [])"

definition validate_ranks :: "plan_proposal \<Rightarrow> plan_violation list" where
  "validate_ranks p =
     (let refs = proposal_refs p; ranks = pp_integration_ranks p
      in (if set (map fst ranks) \<noteq> set refs
          then [violation PLAN_PROPOSAL_INVALID ''/integration_ranks''
                  ''integration_ranks must contain exactly one non-negative rank per slice'' []]
          else [])
       @ concat (map (\<lambda>(ref, rank).
           if ref \<in> set refs \<and> rank < 0
           then [violation PLAN_PROPOSAL_INVALID (''/integration_ranks/'' @ ref)
                   ''integration rank must be a non-negative integer'' []]
           else []) ranks)
       @ concat (map (edge_rank_violations p) (enum_list (pp_edges p))))"

definition validate_limits :: "plan_proposal \<Rightarrow> planning_limits \<Rightarrow> plan_violation list" where
  "validate_limits p limits =
     (if max_slices limits < length (pp_slices p)
      then [violation PLAN_SIZE_EXCEEDED ''/slices'' ''slice limit exceeded'' []] else [])
     @ (if max_edges limits < length (pp_edges p)
        then [violation PLAN_SIZE_EXCEEDED ''/edges'' ''edge limit exceeded'' []] else [])
     @ concat (map (\<lambda>(i, s). if max_write_paths_per_slice limits < length (ps_write_paths s)
          then [violation PLAN_SIZE_EXCEEDED (''/slices/'' @ str_nat i @ ''/write_paths'')
                  ''single-slice write path limit exceeded'' []] else []) (enum_list (pp_slices p)))
     @ (if max_total_write_paths limits < sum_list (map (\<lambda>s. length (ps_write_paths s)) (pp_slices p))
        then [violation PLAN_SIZE_EXCEEDED ''/slices'' ''total write scope limit exceeded'' []] else [])"

section \<open>validate\<close>

text \<open>\<open>actual_coverage\<close>: the owners appended for each expected path, in loop order.\<close>

definition actual_coverage :: "plan_proposal \<Rightarrow> planning_inputs \<Rightarrow> (string \<times> string) list" where
  "actual_coverage p inputs =
     concat (map (\<lambda>s.
       if ps_kind s \<notin> set [Implementation, TestTranslation] then []
       else concat (map (\<lambda>module_id. case module_table inputs module_id of
              None \<Rightarrow> []
            | Some m \<Rightarrow> map (\<lambda>path. (path, ps_local_ref s))
                (filter (\<lambda>path. path \<in> set (map fst (in_scope_source_files inputs))) (mf_file_paths m)))
            (ps_source_modules s))) (pp_slices p))"

definition owners_of :: "plan_proposal \<Rightarrow> planning_inputs \<Rightarrow> string \<Rightarrow> string list" where
  "owners_of p inputs path = map snd (filter (\<lambda>(q, _). q = path) (actual_coverage p inputs))"

definition coverage_entry_of :: "plan_proposal \<Rightarrow> planning_inputs \<Rightarrow> string \<Rightarrow> string" where
  "coverage_entry_of p inputs path =
     (case owners_of p inputs path of
        [] \<Rightarrow> ''MISSING''
      | [owner] \<Rightarrow> owner
      | owners \<Rightarrow> join_with ''|'' (sorted_set owners))"

definition coverage_violations :: "plan_proposal \<Rightarrow> planning_inputs \<Rightarrow> string \<Rightarrow> plan_violation list" where
  "coverage_violations p inputs path =
     (case owners_of p inputs path of
        [] \<Rightarrow> [violation PLAN_COVERAGE_INVALID ''/slices''
                 ''in-scope source file is not covered by a slice'' [(''path'', DStr path)]]
      | [owner] \<Rightarrow> []
      | owners \<Rightarrow> [violation PLAN_COVERAGE_INVALID ''/slices''
                 ''in-scope source file is covered more than once''
                 [(''path'', DStr path), (''owners'', DStrs (sorted_set owners))]])"

definition expected_paths :: "planning_inputs \<Rightarrow> string list" where
  "expected_paths inputs = sort (map fst (in_scope_source_files inputs))"

definition all_violations :: "planning_limits option \<Rightarrow> plan_proposal \<Rightarrow> planning_inputs \<Rightarrow> plan_violation list"
  where
  "all_violations own_limits p inputs =
     validate_slice_modules p inputs
     @ validate_edges p
     @ validate_artifacts p inputs
     @ validate_artifact_scopes p
     @ validate_test_edges p inputs
     @ validate_scope_conflicts p
     @ validate_blueprint p inputs
     @ concat (map (coverage_violations p inputs) (expected_paths inputs))
     @ (if has_cycle p
        then [violation PLAN_CYCLE ''/edges'' ''proposal edges contain a directed cycle'' []] else [])
     @ validate_ranks p
     @ validate_limits p (case own_limits of Some l \<Rightarrow> l | None \<Rightarrow> in_limits inputs)"

definition validate :: "planning_limits option \<Rightarrow> plan_proposal \<Rightarrow> planning_inputs \<Rightarrow> plan_validation" where
  "validate own_limits p inputs =
     (let vs = all_violations own_limits p inputs
      in \<lparr>accepted = (vs = []),
          violations = vs,
          source_coverage = map (\<lambda>path. (path, coverage_entry_of p inputs path)) (expected_paths inputs),
          checked_scope_pairs = length (pp_slices p) * (length (pp_slices p) - 1) div 2,
          cycle_check = (if has_cycle p then ''FAIL'' else ''PASS''),
          size_check = (if list_ex (\<lambda>v. pv_code v = PLAN_SIZE_EXCEEDED) vs then ''FAIL'' else ''PASS''),
          blueprint_check = (if list_ex (\<lambda>v. pv_code v = PLAN_BLUEPRINT_VIOLATION) vs
                             then ''FAIL'' else ''PASS''),
          rank_check = (if validate_ranks p \<noteq> [] then ''FAIL'' else ''PASS'')\<rparr>)"

definition validate_plan :: "plan_proposal \<Rightarrow> planning_inputs \<Rightarrow> plan_validation" where
  "validate_plan p inputs = validate None p inputs"

section \<open>Path containment by segments\<close>

lemma path_is_in_root_alt: "path_is_in_root q a \<longleftrightarrow> prefix (a @ ''/'') (q @ ''/'')"
  by (auto simp: path_is_in_root_def prefix_def append_eq_append_conv2 Cons_eq_append_conv
      append_eq_Cons_conv)

interpretation seg: path_tree path_is_in_root
proof unfold_locales
  show "path_is_in_root p p" for p by (simp add: path_is_in_root_def)
  show "path_is_in_root p q \<Longrightarrow> path_is_in_root q r \<Longrightarrow> path_is_in_root p r" for p q r
    unfolding path_is_in_root_alt by (rule prefix_order.trans)
  show "path_is_in_root q a \<Longrightarrow> path_is_in_root q b \<Longrightarrow> path_is_in_root a b \<or> path_is_in_root b a" for q a b
    unfolding path_is_in_root_alt using prefix_same_cases by blast
qed

text \<open>The paths a slice may write: its exact files and everything below its create roots.\<close>

definition slice_may_write :: "plan_slice_proposal \<Rightarrow> string \<Rightarrow> bool" where
  "slice_may_write s q \<longleftrightarrow>
     q \<in> set (ps_write_paths s) \<or> list_ex (path_is_in_root q) (ps_create_roots s)"

lemma slice_may_write_alt: "slice_may_write s q \<longleftrightarrow> seg.writable (set (ps_write_paths s)) (set (ps_create_roots s)) q"
  by (auto simp: slice_may_write_def seg.writable_def seg.below_def list_ex_iff)

lemma scopes_overlap_iff:
  "scopes_overlap lp lr rp rr \<longleftrightarrow>
     (\<exists>q. seg.writable (set lp) (set lr) q \<and> seg.writable (set rp) (set rr) q)"
  unfolding seg.scopes_meet_iff [symmetric] scopes_overlap_def list_ex_iff seg.below_def by blast

lemma slices_overlap_iff: "slices_overlap l r \<longleftrightarrow> (\<exists>q. slice_may_write l q \<and> slice_may_write r q)"
  by (simp add: slices_overlap_def scopes_overlap_iff slice_may_write_alt)

section \<open>What acceptance means\<close>

lemma accepted_iff: "accepted (validate lim p inputs) \<longleftrightarrow> all_violations lim p inputs = []"
  by (simp add: validate_def Let_def)

lemma acceptedD:
  assumes "accepted (validate lim p inputs)"
  shows "validate_slice_modules p inputs = []" "validate_edges p = []" "validate_artifacts p inputs = []"
    "validate_artifact_scopes p = []" "validate_test_edges p inputs = []"
    "validate_scope_conflicts p = []" "validate_blueprint p inputs = []"
    "\<And>path. path \<in> set (expected_paths inputs) \<Longrightarrow> coverage_violations p inputs path = []"
    "\<not> has_cycle p" "validate_ranks p = []"
    "validate_limits p (case lim of Some l \<Rightarrow> l | None \<Rightarrow> in_limits inputs) = []"
  using assms by (auto simp: accepted_iff all_violations_def split: if_splits)

text \<open>Scope conflicts are reported exactly for the overlapping pairs.\<close>

lemma conflicts_with_Nil: "conflicts_with i l rs = [] \<longleftrightarrow> (\<forall>r \<in> set rs. \<not> slices_overlap l r)"
  by (induction rs) auto

lemma scope_conflicts_Nil:
  "scope_conflicts_from n ss = [] \<longleftrightarrow> (\<forall>i j. i < j \<longrightarrow> j < length ss \<longrightarrow> \<not> slices_overlap (ss ! i) (ss ! j))"
proof (induction ss arbitrary: n)
  case (Cons s ss)
  have "(\<forall>i j. i < j \<longrightarrow> j < length (s # ss) \<longrightarrow> \<not> slices_overlap ((s # ss) ! i) ((s # ss) ! j)) \<longleftrightarrow>
      (\<forall>j < length ss. \<not> slices_overlap s (ss ! j))
      \<and> (\<forall>i j. i < j \<longrightarrow> j < length ss \<longrightarrow> \<not> slices_overlap (ss ! i) (ss ! j))" (is "?L = ?R")
  proof
    assume l: ?L
    show ?R
    proof (intro conjI allI impI)
      fix j assume "j < length ss"
      with l [rule_format, of 0 "Suc j"] show "\<not> slices_overlap s (ss ! j)" by simp
    next
      fix i j :: nat assume "i < j" "j < length ss"
      with l [rule_format, of "Suc i" "Suc j"] show "\<not> slices_overlap (ss ! i) (ss ! j)" by simp
    qed
  next
    assume ?R
    then show ?L by (auto simp: nth_Cons split: nat.splits)
  qed
  then show ?case by (simp add: Cons conflicts_with_Nil all_set_conv_all_nth)
qed simp

lemma validate_scope_conflicts_Nil:
  "validate_scope_conflicts p = [] \<longleftrightarrow>
     (\<forall>i j q. i < j \<longrightarrow> j < length (pp_slices p)
        \<longrightarrow> \<not> (slice_may_write (pp_slices p ! i) q \<and> slice_may_write (pp_slices p ! j) q))"
  unfolding validate_scope_conflicts_def scope_conflicts_Nil slices_overlap_iff by blast

text \<open>Edges of an accepted proposal.\<close>

lemma validate_edges_loop_Nil:
  "validate_edges_loop refs seen n es = [] \<longleftrightarrow>
     (\<forall>e \<in> set es. pe_from e \<in> set refs \<and> pe_to e \<in> set refs \<and> edge_key e \<notin> seen
        \<and> \<not> (pe_provenance e = ImportUnknown \<and> pe_kind e = Requires)
        \<and> pe_provenance e \<noteq> WriteScopeConflict) \<and> distinct (map edge_key es)"
proof (induction es arbitrary: seen n)
  case (Cons e es)
  have "plan_edge_kind_value (pe_kind e) = ''REQUIRES'' \<longleftrightarrow> pe_kind e = Requires"
    by (cases "pe_kind e") auto
  then have "edge_violations refs seen n e = [] \<longleftrightarrow>
      pe_from e \<in> set refs \<and> pe_to e \<in> set refs \<and> edge_key e \<notin> seen
      \<and> \<not> (pe_provenance e = ImportUnknown \<and> pe_kind e = Requires)
      \<and> pe_provenance e \<noteq> WriteScopeConflict"
    by (auto simp: edge_violations_def Let_def)
  moreover have "(\<forall>x \<in> set es. edge_key x \<notin> insert (edge_key e) seen) \<longleftrightarrow>
      (\<forall>x \<in> set es. edge_key x \<notin> seen) \<and> edge_key e \<notin> edge_key ` set es"
    by (rule ball_fresh_insert)
  ultimately show ?case by (simp add: Cons ball_conj_distrib) blast
qed simp

lemma validate_ranks_Nil:
  assumes "distinct (map fst (pp_integration_ranks p))" "validate_ranks p = []"
  shows "set (map fst (pp_integration_ranks p)) = set (proposal_refs p)"
    "\<And>ref. ref \<in> set (proposal_refs p) \<Longrightarrow> \<exists>k \<ge> 0. map_of (pp_integration_ranks p) ref = Some k"
    "\<And>e a b. e \<in> set (pp_edges p) \<Longrightarrow> pe_from e \<in> set (proposal_refs p) \<Longrightarrow> pe_to e \<in> set (proposal_refs p)
       \<Longrightarrow> map_of (pp_integration_ranks p) (pe_from e) = Some a
       \<Longrightarrow> map_of (pp_integration_ranks p) (pe_to e) = Some b \<Longrightarrow> a < b"
proof -
  let ?ranks = "pp_integration_ranks p"
  from assms(2) show keys: "set (map fst ?ranks) = set (proposal_refs p)"
    by (auto simp: validate_ranks_def Let_def split: if_splits)
  have pos: "0 \<le> k" if "(ref, k) \<in> set ?ranks" "ref \<in> set (proposal_refs p)" for ref k
    using assms(2) that by (auto simp: validate_ranks_def Let_def split: if_splits)
  show "\<exists>k \<ge> 0. map_of ?ranks ref = Some k" if "ref \<in> set (proposal_refs p)" for ref
  proof -
    from that keys obtain k where "(ref, k) \<in> set ?ranks"
      by (metis (no_types) list.set_map imageE prod.collapse)
    with pos that assms(1) show ?thesis by (intro exI [of _ k]) auto
  qed
  show "a < b" if e: "e \<in> set (pp_edges p)" "pe_from e \<in> set (proposal_refs p)" "pe_to e \<in> set (proposal_refs p)"
    "map_of ?ranks (pe_from e) = Some a" "map_of ?ranks (pe_to e) = Some b" for e a b
  proof -
    from e(1) obtain i where "(i, e) \<in> set (enum_list (pp_edges p))" by (rule enum_listE)
    moreover have "concat (map (edge_rank_violations p) (enum_list (pp_edges p))) = []"
      using assms(2) by (simp add: validate_ranks_def Let_def)
    ultimately have "edge_rank_violations p (i, e) = []" by (simp only: concat_eq_Nil_iff set_map) blast
    with e show "a < b" by (auto simp: edge_rank_violations_def split: if_splits)
  qed
qed

text \<open>Coverage: an owner list of length one means one covering slice.\<close>

definition slice_owners :: "planning_inputs \<Rightarrow> string \<Rightarrow> plan_slice_proposal \<Rightarrow> string list" where
  "slice_owners inputs path s =
     (if ps_kind s \<notin> set [Implementation, TestTranslation] then []
      else concat (map (\<lambda>module_id. case module_table inputs module_id of
             None \<Rightarrow> []
           | Some m \<Rightarrow> map (\<lambda>_. ps_local_ref s)
               (filter (\<lambda>q. q \<in> set (map fst (in_scope_source_files inputs)) \<and> q = path) (mf_file_paths m)))
           (ps_source_modules s)))"

definition slice_covers :: "planning_inputs \<Rightarrow> plan_slice_proposal \<Rightarrow> string \<Rightarrow> bool" where
  "slice_covers inputs s path \<longleftrightarrow>
     ps_kind s \<in> set [Implementation, TestTranslation]
     \<and> list_ex (\<lambda>module_id. case module_table inputs module_id of
          None \<Rightarrow> False | Some m \<Rightarrow> path \<in> set (mf_file_paths m)) (ps_source_modules s)"

lemma map_snd_filter_concat:
  "map snd (filter P (concat (map f xs))) = concat (map (\<lambda>x. map snd (filter P (f x))) xs)"
  by (induction xs) auto

lemma owners_of_alt: "owners_of p inputs path = concat (map (slice_owners inputs path) (pp_slices p))"
  unfolding owners_of_def actual_coverage_def map_snd_filter_concat
  by (intro arg_cong [of _ _ concat] map_cong)
     (auto simp: slice_owners_def map_snd_filter_concat filter_map comp_def conj_commute
        intro!: arg_cong [of _ _ concat] map_cong split: option.splits)

lemma slice_owners_covers:
  assumes "path \<in> set (map fst (in_scope_source_files inputs))"
  shows "slice_owners inputs path s \<noteq> [] \<longleftrightarrow> slice_covers inputs s path"
  using assms
  by (auto simp: slice_owners_def slice_covers_def list_ex_iff filter_empty_conv split: option.splits)

lemma sum_list_one:
  fixes f :: "'a \<Rightarrow> nat"
  assumes "sum_list (map f xs) = 1"
  shows "\<exists>!i. i < length xs \<and> f (xs ! i) \<noteq> 0"
  using assms
proof (induction xs)
  case (Cons x xs)
  show ?case
  proof (cases "f x = 0")
    case True
    with Cons have ex: "\<exists>!i. i < length xs \<and> f (xs ! i) \<noteq> 0" by simp
    then obtain i where "i < length xs \<and> f (xs ! i) \<noteq> 0" by (rule ex1E)
    with ex have i: "j = i" if "j < length xs" "f (xs ! j) \<noteq> 0" for j
      using that by (auto elim!: ex1E)
    show ?thesis
    proof (rule ex1I [of _ "Suc i"])
      show "Suc i < length (x # xs) \<and> f ((x # xs) ! Suc i) \<noteq> 0"
        using \<open>i < length xs \<and> f (xs ! i) \<noteq> 0\<close> by simp
      show "j = Suc i" if "j < length (x # xs) \<and> f ((x # xs) ! j) \<noteq> 0" for j
        using that True i by (cases j) auto
    qed
  next
    case False
    moreover have "f x + sum_list (map f xs) = 1" using Cons.prems by simp
    ultimately have "sum_list (map f xs) = 0" by linarith
    then have "f (xs ! j) = 0" if "j < length xs" for j using that by simp
    with False show ?thesis
      by (intro ex1I [of _ 0]) (auto simp: nth_Cons split: nat.splits)
  qed
qed simp

lemma coverage_unique:
  assumes "coverage_violations p inputs path = []"
    and "path \<in> set (map fst (in_scope_source_files inputs))"
  shows "\<exists>!i. i < length (pp_slices p) \<and> slice_covers inputs (pp_slices p ! i) path"
proof -
  from assms(1) have "length (owners_of p inputs path) = 1"
    by (auto simp: coverage_violations_def split: list.splits)
  then have "sum_list (map (\<lambda>s. length (slice_owners inputs path s)) (pp_slices p)) = 1"
    by (simp add: owners_of_alt length_concat comp_def)
  from sum_list_one [OF this] show ?thesis
    unfolding length_0_conv slice_owners_covers [OF assms(2)] .
qed

lemma in_scope_source_files_iff:
  "path \<in> set (map fst (in_scope_source_files inputs)) \<longleftrightarrow>
     (\<exists>m \<in> set (an_modules (in_analysis inputs)). path \<in> set (mf_file_paths m))
     \<and> scope_includes_path (in_scope inputs) path
     \<and> path \<notin> af_path ` set (an_artifacts (in_analysis inputs))"
proof -
  have "mf_role m = Source \<or> mf_role m = TestRole" for m :: module_fact by (cases "mf_role m") auto
  then show ?thesis
    by (auto simp: in_scope_source_files_def Let_def image_iff split: if_splits)
qed

text \<open>Tests stay isolated from the implementation they test.\<close>

lemma kind_by_ref_lookup:
  assumes "wf_proposal p" "s \<in> set (pp_slices p)"
  shows "map_of (kind_by_ref p) (ps_local_ref s) = Some (ps_kind s)"
proof -
  have "distinct (map fst (map (\<lambda>s. (ps_local_ref s, ps_kind s)) (pp_slices p)))"
    using wf_proposal_distinct_refs [OF assms(1)] by (simp add: proposal_refs_def comp_def)
  then show ?thesis using assms(2) by (auto simp: kind_by_ref_def py_dict_id)
qed

lemma modules_by_ref_lookup:
  assumes "wf_proposal p" "s \<in> set (pp_slices p)"
  shows "modules_by_ref p (ps_local_ref s) = ps_source_modules s"
proof -
  let ?d = "map (\<lambda>s. (ps_local_ref s, ps_source_modules s)) (pp_slices p)"
  have "distinct (map fst ?d)"
    using wf_proposal_distinct_refs [OF assms(1)] by (simp add: proposal_refs_def comp_def)
  then have "map_of (py_dict ?d) (ps_local_ref s) = Some (ps_source_modules s)"
    using assms(2) by (auto simp: py_dict_id)
  then show ?thesis by (simp add: modules_by_ref_def)
qed

lemma find_unique: "List.find P xs = Some x \<Longrightarrow> x \<in> set xs \<and> P x"
  by (auto simp: find_Some_iff)

lemma edge_test_ref_found:
  assumes wf: "wf_proposal p" and t: "t \<in> set (pp_slices p)" "ps_kind t \<in> {TestTranslation, TestGeneration}"
    and s: "s \<in> set (pp_slices p)" "ps_kind s = Implementation"
    and e: "{pe_from e, pe_to e} = {ps_local_ref t, ps_local_ref s}"
  shows "edge_test_ref p e = Some (ps_local_ref t)"
proof -
  let ?P = "\<lambda>(ref, kind). slice_kind_value kind \<in> set [''TEST_TRANSLATION'', ''TEST_GENERATION'']
       \<and> ref \<in> set [pe_from e, pe_to e]"
  have dk: "distinct (map fst (kind_by_ref p))" by (simp add: kind_by_ref_def)
  have tin: "(ps_local_ref t, ps_kind t) \<in> set (kind_by_ref p)"
    using kind_by_ref_lookup [OF wf t(1)] by (rule map_of_SomeD)
  have ends: "set [pe_from e, pe_to e] = {ps_local_ref t, ps_local_ref s}" using e by simp
  have "?P (ps_local_ref t, ps_kind t)" unfolding ends using t(2) by auto
  with tin have "List.find ?P (kind_by_ref p) \<noteq> None" by (auto simp: find_None_iff)
  then obtain ref k where f: "List.find ?P (kind_by_ref p) = Some (ref, k)" by fastforce
  then have "(ref, k) \<in> set (kind_by_ref p)" and P: "?P (ref, k)" using find_unique by fast+
  then have k: "map_of (kind_by_ref p) ref = Some k" using dk by simp
  from P ends have "ref = ps_local_ref t \<or> ref = ps_local_ref s" by auto
  moreover have "ref \<noteq> ps_local_ref s"
    using k kind_by_ref_lookup [OF wf s(1)] s(2) P by auto
  ultimately have "ref = ps_local_ref t" by blast
  then show ?thesis unfolding edge_test_ref_def f by simp
qed

lemma test_edges_isolated:
  assumes wf: "wf_proposal p" and acc: "validate_test_edges p inputs = []" and ei: "e \<in> set (pp_edges p)"
    and t: "t \<in> set (pp_slices p)" "ps_kind t \<in> {TestTranslation, TestGeneration}"
    and s: "s \<in> set (pp_slices p)" "ps_kind s = Implementation"
    and e: "{pe_from e, pe_to e} = {ps_local_ref t, ps_local_ref s}"
  shows "set (tested_modules p inputs (ps_local_ref t)) \<inter> set (ps_source_modules s) = {}"
proof -
  from ei obtain i where "(i, e) \<in> set (enum_list (pp_edges p))" by (rule enum_listE)
  with acc have nil: "test_edge_violations p inputs (i, e) = []"
    unfolding validate_test_edges_def concat_eq_Nil_iff by auto
  have other: "(if ps_local_ref t = pe_from e then pe_to e else pe_from e) = ps_local_ref s"
    using e by (auto simp: doubleton_eq_iff)
  have "edge_test_ref p e = Some (ps_local_ref t)" by (rule edge_test_ref_found [OF wf t s e])
  with nil other show ?thesis
    by (auto simp: test_edge_violations_def Let_def kind_by_ref_lookup [OF wf s(1)] s(2)
        modules_by_ref_lookup [OF wf s(1)] split: if_splits)
qed

end
