(* ===== verification/Plan_Ledger.thy ===== *)
theory Plan_Ledger
  imports Plan_Validator
begin

text \<open>
  \<open>PlanLedger\<close> and \<open>compute_plan_hash\<close> of \<open>planning/validator.py\<close> with \<open>FrozenPlan\<close> of
  \<open>planning/models.py\<close>, and the feedback loop \<open>PlanRetryReducer\<close> of
  \<open>planning/retry.py\<close>.

  Two parameters stand for code outside the repository: \<open>fresh\<close>, the identifiers
  \<open>uuid_utils.uuid7\<close> returns for the successive calls of one freeze, and \<open>digest\<close>, the
  SHA-256 of the RFC 8785 form of the frozen facts.
\<close>

section \<open>Frozen plans\<close>

record migration_slice =
  ms_id :: uuid
  ms_kind :: slice_kind
  ms_source_modules :: "uuid list"
  ms_write_paths :: "string list"
  ms_create_roots :: "string list"
  ms_required_checks :: "required_check list"
  ms_integration_rank :: int

record plan_edge =
  ed_from :: uuid
  ed_to :: uuid
  ed_kind :: plan_edge_kind

record frozen_facts =
  ff_snapshot_oid :: string
  ff_slices :: "migration_slice list"
  ff_edges :: "plan_edge list"
  ff_edge_provenance :: "edge_provenance list"
  ff_edge_evidence :: "plan_edge_evidence list"
  ff_validation :: plan_validation
  ff_integration_order :: "uuid list"
  ff_local_ref_to_id :: "(string \<times> uuid) list"
  ff_artifact_tasks :: "(string \<times> artifact_task list) list"
  ff_planner_rationale :: "dossier_entry list"
  ff_frozen_artifacts :: json
  ff_proposal :: plan_proposal

record frozen_plan =
  fp_plan_hash :: string
  fp_facts :: frozen_facts

definition compute_plan_hash :: "(frozen_facts \<Rightarrow> string) \<Rightarrow> frozen_facts \<Rightarrow> string" where
  "compute_plan_hash digest facts =
     digest (facts\<lparr>ff_local_ref_to_id := sort_key fst (ff_local_ref_to_id facts)\<rparr>)"

section \<open>The ledger\<close>

record plan_ledger =
  pl_limits :: "planning_limits option"
  pl_records :: "frozen_plan list"

definition empty_ledger :: "planning_limits option \<Rightarrow> plan_ledger" where
  "empty_ledger limits = \<lparr>pl_limits = limits, pl_records = []\<rparr>"

text \<open>\<open>d[key]\<close> on a dictionary whose keys were checked before.\<close>

definition dict_at :: "('k \<times> 'v) list \<Rightarrow> 'k \<Rightarrow> 'v" where
  "dict_at d k = the (map_of d k)"

definition local_ref_ids :: "(nat \<Rightarrow> uuid) \<Rightarrow> plan_proposal \<Rightarrow> (string \<times> uuid) list" where
  "local_ref_ids fresh p = py_dict (map (\<lambda>(i, s). (ps_local_ref s, fresh i)) (enum_list (pp_slices p)))"

definition freeze_slice :: "(string \<times> uuid) list \<Rightarrow> (string \<times> int) list \<Rightarrow> plan_slice_proposal \<Rightarrow> migration_slice"
  where
  "freeze_slice ids ranks s =
     \<lparr>ms_id = dict_at ids (ps_local_ref s), ms_kind = ps_kind s, ms_source_modules = ps_source_modules s,
      ms_write_paths = ps_write_paths s, ms_create_roots = ps_create_roots s,
      ms_required_checks = ps_required_checks s, ms_integration_rank = dict_at ranks (ps_local_ref s)\<rparr>"

definition freeze_edge :: "(string \<times> uuid) list \<Rightarrow> plan_edge_proposal \<Rightarrow> plan_edge" where
  "freeze_edge ids e =
     \<lparr>ed_from = dict_at ids (pe_from e), ed_to = dict_at ids (pe_to e), ed_kind = pe_kind e\<rparr>"

definition integration_order :: "(string \<times> uuid) list \<Rightarrow> (string \<times> int) list \<Rightarrow> uuid list" where
  "integration_order ids ranks =
     map (dict_at ids)
       (sort_key (\<lambda>ref. integration_key (dict_at ranks ref) (dict_at ids ref)) (map fst ids))"

definition freeze_facts ::
  "(nat \<Rightarrow> uuid) \<Rightarrow> planning_inputs \<Rightarrow> plan_proposal \<Rightarrow> plan_validation \<Rightarrow> frozen_facts" where
  "freeze_facts fresh inputs p v =
     (let ids = local_ref_ids fresh p; ranks = pp_integration_ranks p
      in \<lparr>ff_snapshot_oid = in_snapshot_oid inputs,
          ff_slices = map (freeze_slice ids ranks) (pp_slices p),
          ff_edges = map (freeze_edge ids) (pp_edges p),
          ff_edge_provenance = map pe_provenance (pp_edges p),
          ff_edge_evidence = map pe_evidence (pp_edges p),
          ff_validation = v,
          ff_integration_order = integration_order ids ranks,
          ff_local_ref_to_id = ids,
          ff_artifact_tasks = py_dict (map (\<lambda>s. (ps_local_ref s, ps_artifact_tasks s))
             (filter (\<lambda>s. ps_artifact_tasks s \<noteq> []) (pp_slices p))),
          ff_planner_rationale = pp_planner_rationale p,
          ff_frozen_artifacts = in_frozen_artifacts inputs,
          ff_proposal = p\<rparr>)"

text \<open>\<open>PlanRejected\<close> carries the validation; its code is the first violation's.\<close>

definition rejection_code :: "plan_validation \<Rightarrow> stable_error_code" where
  "rejection_code v = (case violations v of [] \<Rightarrow> PLAN_PROPOSAL_INVALID | w # _ \<Rightarrow> pv_code w)"

definition freeze ::
  "(frozen_facts \<Rightarrow> string) \<Rightarrow> (nat \<Rightarrow> uuid) \<Rightarrow> plan_ledger \<Rightarrow> plan_proposal \<Rightarrow> planning_inputs
     \<Rightarrow> (plan_validation + frozen_plan) \<times> plan_ledger" where
  "freeze digest fresh ledger p inputs =
     (let v = validate (pl_limits ledger) p inputs
      in if \<not> accepted v then (Inl v, ledger)
         else let facts = freeze_facts fresh inputs p v;
                  frozen = \<lparr>fp_plan_hash = compute_plan_hash digest facts, fp_facts = facts\<rparr>
              in (Inr frozen, ledger\<lparr>pl_records := pl_records ledger @ [frozen]\<rparr>))"

definition freeze_plan ::
  "(frozen_facts \<Rightarrow> string) \<Rightarrow> (nat \<Rightarrow> uuid) \<Rightarrow> plan_proposal \<Rightarrow> planning_inputs
     \<Rightarrow> plan_validation + frozen_plan" where
  "freeze_plan digest fresh p inputs = fst (freeze digest fresh (empty_ledger None) p inputs)"

text \<open>\<open>FrozenPlan.integration_keys\<close>.\<close>

definition integration_keys :: "frozen_plan \<Rightarrow> (int \<times> uuid) list" where
  "integration_keys plan =
     (let ids = ff_local_ref_to_id (fp_facts plan);
          ranks = pp_integration_ranks (ff_proposal (fp_facts plan));
          key = (\<lambda>ref. integration_key (dict_at ranks ref) (dict_at ids ref))
      in map key (sort_key key (map fst ids)))"

section \<open>planning/retry.py\<close>

text \<open>
  What one call of the proposer gives: a proposal object, raw data that
  \<open>PlanProposal.model_validate\<close> has to accept, one of the exceptions the loop turns into
  feedback, or another exception (such as \<open>ProviderPhysicalFailure\<close>), which leaves the loop.
\<close>

datatype proposer_result =
    Proposed plan_proposal
  | RawProposal plan_proposal string
  | SchemaError string
  | PhysicalFailure string

datatype retry_error =
    PlanFailed plan_validation nat
  | PlanRejected plan_validation
  | Propagated string

definition schema_failure :: "string \<Rightarrow> plan_validation" where
  "schema_failure message =
     \<lparr>accepted = False,
      violations = [violation PLAN_PROPOSAL_INVALID ''/''
        (if message = [] then ''proposal schema is invalid'' else message) []],
      source_coverage = [], checked_scope_pairs = 0, cycle_check = ''NOT_RUN'',
      size_check = ''NOT_RUN'', blueprint_check = ''NOT_RUN'', rank_check = ''NOT_RUN''\<rparr>"

text \<open>
  One pass of the \<open>try\<close> block: the proposal, if there is one, and its validation. The validator
  gives a validation or the message of a \<open>TypeError\<close> or \<open>ValueError\<close>.
\<close>

definition checked ::
  "(plan_proposal \<Rightarrow> string + plan_validation) \<Rightarrow> plan_proposal \<Rightarrow> plan_proposal option \<times> plan_validation"
  where
  "checked validator p =
     (case validator p of Inl message \<Rightarrow> (None, schema_failure message) | Inr v \<Rightarrow> (Some p, v))"

definition attempt ::
  "(plan_proposal \<Rightarrow> string + plan_validation) \<Rightarrow> proposer_result
     \<Rightarrow> string + (plan_proposal option \<times> plan_validation)"
  where
  "attempt validator r =
     (case r of
        Proposed p \<Rightarrow> Inr (checked validator p)
      | RawProposal raw message \<Rightarrow>
          (case check_plan_proposal raw of
             None \<Rightarrow> Inr (None, schema_failure message)
           | Some p \<Rightarrow> Inr (checked validator p))
      | SchemaError message \<Rightarrow> Inr (None, schema_failure message)
      | PhysicalFailure message \<Rightarrow> Inl message)"

type_synonym retry_result = "(retry_error + frozen_plan) \<times> plan_ledger"


function retry_loop ::
  "(plan_ledger \<Rightarrow> plan_proposal \<Rightarrow> (plan_validation + frozen_plan) \<times> plan_ledger)
     \<Rightarrow> nat \<Rightarrow> (nat \<Rightarrow> plan_violation list \<Rightarrow> proposer_result) \<Rightarrow> (plan_proposal \<Rightarrow> string + plan_validation)
     \<Rightarrow> plan_ledger \<Rightarrow> nat \<Rightarrow> plan_violation list \<Rightarrow> retry_result" where
  "retry_loop frz max_retries proposer validator ledger retries feedback =
     (case attempt validator (proposer retries feedback) of
        Inl message \<Rightarrow> (Inl (Propagated message), ledger)
      | Inr (proposal, v) \<Rightarrow>
          (case (accepted v, proposal) of
             (True, Some p) \<Rightarrow>
               (case frz ledger p of
                  (Inl rejected, ledger') \<Rightarrow> (Inl (PlanRejected rejected), ledger')
                | (Inr frozen, ledger') \<Rightarrow> (Inr frozen, ledger'))
           | _ \<Rightarrow>
               if max_retries \<le> retries then (Inl (PlanFailed v (Suc retries)), ledger)
               else retry_loop frz max_retries proposer validator ledger (Suc retries) (violations v)))"
  by pat_completeness auto
termination
  by (relation "measure (\<lambda>(_, m, _, _, _, r, _). m - r)") auto

declare retry_loop.simps [simp del]

definition retry_run ::
  "(frozen_facts \<Rightarrow> string) \<Rightarrow> (nat \<Rightarrow> uuid) \<Rightarrow> nat \<Rightarrow> (nat \<Rightarrow> plan_violation list \<Rightarrow> proposer_result)
     \<Rightarrow> (plan_proposal \<Rightarrow> string + plan_validation) \<Rightarrow> planning_inputs \<Rightarrow> plan_ledger \<Rightarrow> retry_result" where
  "retry_run digest fresh max_retries proposer validator inputs ledger =
     retry_loop (\<lambda>l p. freeze digest fresh l p inputs) max_retries proposer validator ledger 0 []"

section \<open>Facts\<close>

lemma freeze_cases:
  assumes "freeze digest fresh ledger p inputs = (r, ledger')"
  obtains (rejected) "r = Inl (validate (pl_limits ledger) p inputs)" "ledger' = ledger"
      "\<not> accepted (validate (pl_limits ledger) p inputs)"
  | (frozen) f where "r = Inr f" "ledger' = ledger\<lparr>pl_records := pl_records ledger @ [f]\<rparr>"
      "accepted (validate (pl_limits ledger) p inputs)"
      "fp_facts f = freeze_facts fresh inputs p (validate (pl_limits ledger) p inputs)"
      "fp_plan_hash f = compute_plan_hash digest (fp_facts f)"
proof (cases "accepted (validate (pl_limits ledger) p inputs)")
  case True
  with assms show ?thesis unfolding freeze_def Let_def by (intro frozen [of "projr r"]) auto
next
  case False
  with assms show ?thesis unfolding freeze_def Let_def by (intro rejected) auto
qed

text \<open>The identifier table: one fresh identifier per slice.\<close>

lemma local_ref_ids_wf:
  assumes "wf_proposal p"
  shows "local_ref_ids fresh p = zip (proposal_refs p) (map fresh [0..<length (pp_slices p)])"
proof -
  have "map (\<lambda>(i, s). (ps_local_ref s, fresh i)) (enum_list (pp_slices p))
      = zip (proposal_refs p) (map fresh [0..<length (pp_slices p)])"
    by (rule nth_equalityI) (auto simp: proposal_refs_def nth_enumerate_eq)
  moreover have "distinct (map fst (zip (proposal_refs p) (map fresh [0..<length (pp_slices p)])))"
    using wf_proposal_distinct_refs [OF assms] by (simp add: proposal_refs_def)
  ultimately show ?thesis by (simp add: local_ref_ids_def py_dict_id)
qed

lemma local_ref_ids_keys: "wf_proposal p \<Longrightarrow> map fst (local_ref_ids fresh p) = proposal_refs p"
  by (simp add: local_ref_ids_wf proposal_refs_def)

lemma local_ref_ids_inj:
  assumes "wf_proposal p" "inj_on fresh {..<length (pp_slices p)}"
  shows "inj_on (dict_at (local_ref_ids fresh p)) (set (proposal_refs p))"
proof -
  let ?n = "length (pp_slices p)"
  let ?ids = "local_ref_ids fresh p"
  have len: "length (proposal_refs p) = ?n" by (simp add: proposal_refs_def)
  have at: "dict_at ?ids (proposal_refs p ! i) = fresh i" if "i < ?n" for i
    using that len wf_proposal_distinct_refs [OF assms(1)]
    by (simp add: dict_at_def local_ref_ids_wf [OF assms(1)] map_of_zip_nth)
  show ?thesis
  proof (rule inj_onI)
    fix a b assume "a \<in> set (proposal_refs p)" "b \<in> set (proposal_refs p)" "dict_at ?ids a = dict_at ?ids b"
    then obtain i j where "i < ?n" "a = proposal_refs p ! i" "j < ?n" "b = proposal_refs p ! j"
      unfolding in_set_conv_nth len by blast
    moreover from this have "fresh i = fresh j" using \<open>dict_at ?ids a = dict_at ?ids b\<close> at by metis
    ultimately show "a = b" using inj_onD [OF assms(2)] by auto
  qed
qed

lemma sort_key_before:
  assumes "a \<in> set xs" "b \<in> set xs" "key a < key b"
  shows "\<exists>i j. i < j \<and> j < length xs \<and> sort_key key xs ! i = a \<and> sort_key key xs ! j = b"
proof -
  let ?s = "sort_key key xs"
  from assms obtain i j where i: "i < length ?s" "?s ! i = a" and j: "j < length ?s" "?s ! j = b"
    by (metis in_set_conv_nth set_sort)
  have "i < j"
  proof (rule ccontr)
    assume "\<not> i < j"
    then have "map key ?s ! j \<le> map key ?s ! i"
      using i by (intro sorted_nth_mono) auto
    with i j assms(3) show False by simp
  qed
  with i j show ?thesis by auto
qed

lemma integration_order_before:
  assumes "wf_proposal p" "inj_on fresh {..<length (pp_slices p)}" "validate_ranks p = []" "e \<in> set (pp_edges p)"
    "pe_from e \<in> set (proposal_refs p)" "pe_to e \<in> set (proposal_refs p)"
  defines "ids \<equiv> local_ref_ids fresh p" and "ranks \<equiv> pp_integration_ranks p"
  shows "\<exists>i j. i < j \<and> j < length (pp_slices p) \<and> integration_order ids ranks ! i = dict_at ids (pe_from e)
           \<and> integration_order ids ranks ! j = dict_at ids (pe_to e)"
proof -
  let ?key = "\<lambda>ref. integration_key (dict_at ranks ref) (dict_at ids ref)"
  have keys: "map fst ids = proposal_refs p" unfolding ids_def by (rule local_ref_ids_keys [OF assms(1)])
  note R = validate_ranks_Nil [OF wf_proposal_ranks_distinct [OF assms(1)] assms(3)]
  obtain a b where "map_of ranks (pe_from e) = Some a" "map_of ranks (pe_to e) = Some b"
    unfolding ranks_def using R(2) [OF assms(5)] R(2) [OF assms(6)] by blast
  then have "?key (pe_from e) < ?key (pe_to e)"
    using R(3) [OF assms(4-6)] by (auto simp: integration_key_def ranks_def dict_at_def)
  from sort_key_before [of "pe_from e" "map fst ids" "pe_to e" ?key] this obtain i j
    where "i < j" "j < length (map fst ids)" "sort_key ?key (map fst ids) ! i = pe_from e"
      "sort_key ?key (map fst ids) ! j = pe_to e"
    using assms(5,6) unfolding keys by blast
  then show ?thesis
    unfolding integration_order_def
    by (intro exI [of _ i] exI [of _ j]) (simp add: keys proposal_refs_def)
qed

lemma integration_order_set:
  assumes "wf_proposal p"
  shows "set (integration_order (local_ref_ids fresh p) ranks)
           = dict_at (local_ref_ids fresh p) ` set (proposal_refs p)"
    "length (integration_order (local_ref_ids fresh p) ranks) = length (pp_slices p)"
  by (simp_all only: integration_order_def set_map set_sort length_map length_sort local_ref_ids_keys [OF assms])
     (simp add: proposal_refs_def)

lemma integration_order_distinct:
  assumes "wf_proposal p" "inj_on fresh {..<length (pp_slices p)}"
  shows "distinct (integration_order (local_ref_ids fresh p) ranks)"
  unfolding integration_order_def local_ref_ids_keys [OF assms(1)] distinct_map
  using wf_proposal_distinct_refs [OF assms(1)] local_ref_ids_inj [OF assms] by simp

text \<open>The retry loop runs until the first attempt that is accepted or propagates.\<close>

definition attempt_at ::
  "(nat \<Rightarrow> plan_violation list \<Rightarrow> proposer_result) \<Rightarrow> (plan_proposal \<Rightarrow> string + plan_validation)
     \<Rightarrow> nat \<Rightarrow> plan_violation list \<Rightarrow> string + (plan_proposal option \<times> plan_validation)" where
  "attempt_at proposer validator k feedback = attempt validator (proposer k feedback)"

primrec feedback_at ::
  "(nat \<Rightarrow> plan_violation list \<Rightarrow> proposer_result) \<Rightarrow> (plan_proposal \<Rightarrow> string + plan_validation)
     \<Rightarrow> nat \<Rightarrow> plan_violation list" where
  "feedback_at proposer validator 0 = []"
| "feedback_at proposer validator (Suc k) =
     (case attempt_at proposer validator k (feedback_at proposer validator k) of
        Inl _ \<Rightarrow> [] | Inr (_, v) \<Rightarrow> violations v)"

definition rejected_at ::
  "(nat \<Rightarrow> plan_violation list \<Rightarrow> proposer_result) \<Rightarrow> (plan_proposal \<Rightarrow> string + plan_validation)
     \<Rightarrow> nat \<Rightarrow> bool" where
  "rejected_at proposer validator k \<longleftrightarrow>
     (case attempt_at proposer validator k (feedback_at proposer validator k) of
        Inl _ \<Rightarrow> False | Inr (_, v) \<Rightarrow> \<not> accepted v)"

lemma attempt_accepted: "attempt validator r = Inr (q, v) \<Longrightarrow> accepted v \<Longrightarrow> q \<noteq> None"
  by (cases r) (auto simp: attempt_def checked_def schema_failure_def split: option.splits sum.splits
      dest!: sym [of "Some _" "check_plan_proposal _"])

lemma retry_loop_step:
  assumes "rejected_at proposer validator k" "k < max_retries"
  shows "retry_loop frz max_retries proposer validator ledger k (feedback_at proposer validator k)
       = retry_loop frz max_retries proposer validator ledger (Suc k) (feedback_at proposer validator (Suc k))"
  using assms
  by (subst retry_loop.simps)
     (auto simp: rejected_at_def attempt_at_def split: sum.splits option.splits bool.splits)

lemma retry_loop_reaches:
  assumes "\<And>j. j < k \<Longrightarrow> rejected_at proposer validator j" "k \<le> max_retries"
  shows "retry_loop frz max_retries proposer validator ledger 0 []
       = retry_loop frz max_retries proposer validator ledger k (feedback_at proposer validator k)"
  using assms
proof (induction k)
  case (Suc k)
  then show ?case using retry_loop_step [of proposer validator k] by simp
qed simp

lemma retry_loop_failed:
  assumes "\<And>j. j \<le> max_retries \<Longrightarrow> rejected_at proposer validator j"
  shows "\<exists>v. retry_loop frz max_retries proposer validator ledger 0 []
       = (Inl (PlanFailed v (Suc max_retries)), ledger) \<and> \<not> accepted v"
proof -
  have "retry_loop frz max_retries proposer validator ledger 0 []
      = retry_loop frz max_retries proposer validator ledger max_retries (feedback_at proposer validator max_retries)"
    by (rule retry_loop_reaches) (simp_all add: assms)
  then show ?thesis
    using assms [of max_retries]
    by (subst (asm) (2) retry_loop.simps)
       (auto simp: rejected_at_def attempt_at_def split: sum.splits option.splits bool.splits)
qed

lemma retry_loop_accepted:
  assumes "\<And>j. j < k \<Longrightarrow> rejected_at proposer validator j" "k \<le> max_retries"
    "attempt_at proposer validator k (feedback_at proposer validator k) = Inr (Some p, v)" "accepted v"
  shows "retry_loop frz max_retries proposer validator ledger 0 []
       = (case frz ledger p of (Inl w, l) \<Rightarrow> (Inl (PlanRejected w), l) | (Inr f, l) \<Rightarrow> (Inr f, l))"
proof -
  have "retry_loop frz max_retries proposer validator ledger 0 []
      = retry_loop frz max_retries proposer validator ledger k (feedback_at proposer validator k)"
    by (rule retry_loop_reaches) (simp_all add: assms)
  then show ?thesis
    using assms(3,4) by (subst (asm) (2) retry_loop.simps) (simp add: attempt_at_def)
qed

lemma retry_loop_propagated:
  assumes "\<And>j. j < k \<Longrightarrow> rejected_at proposer validator j" "k \<le> max_retries"
    "attempt_at proposer validator k (feedback_at proposer validator k) = Inl message"
  shows "retry_loop frz max_retries proposer validator ledger 0 [] = (Inl (Propagated message), ledger)"
proof -
  have "retry_loop frz max_retries proposer validator ledger 0 []
      = retry_loop frz max_retries proposer validator ledger k (feedback_at proposer validator k)"
    by (rule retry_loop_reaches) (simp_all add: assms)
  then show ?thesis
    using assms(3) by (subst (asm) (2) retry_loop.simps) (simp add: attempt_at_def)
qed

lemma retry_loop_cases:
  obtains (failed) v where "\<And>j. j \<le> max_retries \<Longrightarrow> rejected_at proposer validator j" "\<not> accepted v"
      "retry_loop frz max_retries proposer validator ledger 0 [] = (Inl (PlanFailed v (Suc max_retries)), ledger)"
  | (propagated) message where
      "retry_loop frz max_retries proposer validator ledger 0 [] = (Inl (Propagated message), ledger)"
  | (accepted) k p where "k \<le> max_retries" "\<And>j. j < k \<Longrightarrow> rejected_at proposer validator j"
      "\<not> rejected_at proposer validator k"
      "retry_loop frz max_retries proposer validator ledger 0 []
         = (case frz ledger p of (Inl w, l) \<Rightarrow> (Inl (PlanRejected w), l) | (Inr f, l) \<Rightarrow> (Inr f, l))"
proof (cases "\<forall>j \<le> max_retries. rejected_at proposer validator j")
  case True
  then show ?thesis using retry_loop_failed [of max_retries] failed by blast
next
  case False
  define k where "k = (LEAST k. \<not> rejected_at proposer validator k)"
  from False obtain j where j: "j \<le> max_retries" "\<not> rejected_at proposer validator j" by blast
  have k: "\<not> rejected_at proposer validator k" "k \<le> max_retries"
    unfolding k_def using LeastI [where P = "\<lambda>k. \<not> rejected_at proposer validator k" and k = j]
      Least_le [where P = "\<lambda>k. \<not> rejected_at proposer validator k" and k = j] j by simp_all
  have before: "rejected_at proposer validator i" if "i < k" for i
    using not_less_Least that unfolding k_def by blast
  show ?thesis
  proof (cases "attempt_at proposer validator k (feedback_at proposer validator k)")
    case (Inl message)
    then show ?thesis using retry_loop_propagated before k(2) propagated by blast
  next
    case (Inr qv)
    obtain q v where qv: "qv = (q, v)" by (rule prod.exhaust)
    with Inr k(1) have "plan_validation.accepted v" by (simp add: rejected_at_def)
    moreover from this Inr qv obtain p where "q = Some p"
      using attempt_accepted unfolding attempt_at_def by blast
    ultimately show ?thesis
      using retry_loop_accepted [OF before k(2)] Inr qv accepted [OF k(2) before k(1)] by blast
  qed
qed

end
