(* ===== verification/Plan_Properties.thy ===== *)
theory Plan_Properties
  imports Plan_Ledger
begin

text \<open>
  What acceptance by the planner's validator guarantees, what freezing publishes, and how
  the retry loop ends. The witnesses run on one small project: two source modules and a
  test module, planned as two implementation slices and a test slice.
\<close>

section \<open>A small project\<close>

definition ex_module :: "uuid \<Rightarrow> module_role \<Rightarrow> string \<Rightarrow> module_fact" where
  "ex_module i role path =
     \<lparr>mf_module_id = i, mf_file_paths = [path], mf_role = role, mf_boundary = FileBoundary,
      mf_exported_symbols = [], mf_capability = Full, mf_degraded_files = []\<rparr>"

definition ex_inputs :: planning_inputs where
  "ex_inputs =
     \<lparr>in_frozen_artifacts = JNull,
      in_scope = \<lparr>sc_include = [''app/'', ''tests/''], sc_exclude = []\<rparr>,
      in_blueprint = \<lparr>bp_module_boundaries = [[(''target_root'', JStr ''out/'')]],
                      bp_granularity_principles = [], bp_target_layout_principles = [],
                      bp_parallelism_rules = [], bp_generated_artifact_policy = [], bp_version = 1\<rparr>,
      in_analysis =
        \<lparr>an_snapshot_oid = ''0f'', an_descriptor_sha256 = replicate 64 (CHR ''0''), an_capability = Full,
         an_modules = [ex_module 1 Source ''app/a.py'', ex_module 2 Source ''app/b.py'',
                       ex_module 3 TestRole ''tests/t.py''],
         an_imports = [], an_coverage = [\<lparr>ce_test_file = ''tests/t.py'', ce_tested_modules = [2],
             ce_derivation = ImportGraph\<rparr>],
         an_coverage_status = [], an_conservation = [], an_manifests = [], an_artifacts = [],
         an_symbol_bindings = [], an_reference_sites = [], an_symbol_coverage = [], an_call_edges = [],
         an_relation_edges = [], an_skipped_files = [], an_errors = []\<rparr>,
      in_snapshot_oid = ''0f'', in_limits = default_limits\<rparr>"

definition ex_slice :: "string \<Rightarrow> slice_kind \<Rightarrow> uuid \<Rightarrow> string list \<Rightarrow> string list \<Rightarrow> plan_slice_proposal" where
  "ex_slice ref kind module writes roots =
     \<lparr>ps_local_ref = ref, ps_kind = kind, ps_source_modules = [module], ps_write_paths = writes,
      ps_create_roots = roots, ps_rationale = [], ps_required_checks = [], ps_artifact_tasks = [],
      ps_generated = False, ps_generation_tag = None, ps_minimum_nontrivial_assertions = 0,
      ps_information_firewall = False\<rparr>"

definition ex_edge :: "string \<Rightarrow> string \<Rightarrow> plan_edge_proposal" where
  "ex_edge a b = \<lparr>pe_from = a, pe_to = b, pe_kind = Requires, pe_provenance = Structural,
     pe_evidence = \<lparr>ee_unknown_reason = None, ee_evidence_location = None\<rparr>\<rparr>"

definition ex_proposal :: plan_proposal where
  "ex_proposal =
     \<lparr>pp_slices = [ex_slice ''b'' Implementation 2 [''out/b.py''] [],
                   ex_slice ''a'' Implementation 1 [] [''out/a''],
                   ex_slice ''t'' TestTranslation 3 [''out/t.py''] []],
      pp_edges = [ex_edge ''a'' ''b'', ex_edge ''a'' ''t''],
      pp_integration_ranks = [(''b'', 1), (''a'', 0), (''t'', 1)], pp_planner_rationale = []\<rparr>"

lemma ex_wf: "wf_proposal ex_proposal"
  by code_simp

lemma ex_accepted: "accepted (validate None ex_proposal ex_inputs)"
  by code_simp

definition ex_digest :: "frozen_facts \<Rightarrow> string" where
  "ex_digest facts = ff_snapshot_oid facts"

definition ex_frozen :: frozen_plan where
  "ex_frozen =
     (let facts = freeze_facts of_nat ex_inputs ex_proposal (validate None ex_proposal ex_inputs)
      in \<lparr>fp_plan_hash = compute_plan_hash ex_digest facts, fp_facts = facts\<rparr>)"

lemma ex_freeze:
  "freeze ex_digest of_nat (empty_ledger None) ex_proposal ex_inputs
     = (Inr ex_frozen, \<lparr>pl_limits = None, pl_records = [ex_frozen]\<rparr>)"
  using ex_accepted by (simp add: freeze_def empty_ledger_def ex_frozen_def Let_def)

lemma ex_fresh: "inj_on (of_nat :: nat \<Rightarrow> uuid) {..<length (pp_slices ex_proposal)}"
  by (simp add: ex_proposal_def eval_nat_numeral lessThan_Suc inj_on_def)

section \<open>Validation\<close>

text \<open>C1: the cycle check of the validator (Kahn's algorithm with counted in-degrees) reports a
  cycle exactly when the edge relation on the proposal's slices has one.\<close>

theorem has_cycle_iff:
  "has_cycle p \<longleftrightarrow> \<not> acyclic (edge_rel (set (proposal_refs p)) (proposal_edges p))"
  unfolding has_cycle_def by (rule cycle_check_graph_iff)

text \<open>C2: two different slices of an accepted plan can never write the same path, whether it is
  listed exactly or lies below a create root.\<close>

theorem accepted_scopes_disjoint:
  assumes "accepted (validate lim p inputs)"
    and "i < length (pp_slices p)" "j < length (pp_slices p)" "i \<noteq> j"
  shows "\<not> (slice_may_write (pp_slices p ! i) q \<and> slice_may_write (pp_slices p ! j) q)"
  using acceptedD(6) [OF assms(1), unfolded validate_scope_conflicts_Nil] assms(2-4)
  by (cases "i < j") (blast, metis linorder_neqE_nat)

theorem accepted_scopes_disjoint_witness:
  "\<not> (slice_may_write (pp_slices ex_proposal ! 1) ''out/a/x.py''
      \<and> slice_may_write (pp_slices ex_proposal ! 0) ''out/a/x.py'')"
  by (rule accepted_scopes_disjoint [OF ex_accepted]) (simp_all add: ex_proposal_def)

text \<open>C3: every analysed file that the Spec puts in scope and that is no classified artifact is
  translated by exactly one slice of an accepted plan.\<close>

theorem accepted_covers_once:
  assumes "accepted (validate lim p inputs)"
    and "m \<in> set (an_modules (in_analysis inputs))" "path \<in> set (mf_file_paths m)"
    and "scope_includes_path (in_scope inputs) path"
    and "path \<notin> af_path ` set (an_artifacts (in_analysis inputs))"
  shows "\<exists>!i. i < length (pp_slices p) \<and> slice_covers inputs (pp_slices p ! i) path"
proof -
  have "path \<in> set (map fst (in_scope_source_files inputs))"
    unfolding in_scope_source_files_iff using assms by blast
  moreover from this have "coverage_violations p inputs path = []"
    by (intro acceptedD(8) [OF assms(1)]) (simp add: expected_paths_def)
  ultimately show ?thesis by (intro coverage_unique)
qed

theorem accepted_covers_once_witness:
  "\<exists>!i. i < length (pp_slices ex_proposal) \<and> slice_covers ex_inputs (pp_slices ex_proposal ! i) ''app/b.py''"
  by (rule accepted_covers_once [OF ex_accepted, of "ex_module 2 Source ''app/b.py''"]) code_simp+

text \<open>In an accepted plan every edge joins two slices of the plan, no edge is given twice,
  every edge leads from a lower to a higher rank, and the edges form no cycle.\<close>

theorem accepted_edges_ranked:
  assumes "wf_proposal p" "accepted (validate lim p inputs)" "e \<in> set (pp_edges p)"
  shows "pe_from e \<in> set (proposal_refs p) \<and> pe_to e \<in> set (proposal_refs p)
     \<and> dict_at (pp_integration_ranks p) (pe_from e) < dict_at (pp_integration_ranks p) (pe_to e)
     \<and> 0 \<le> dict_at (pp_integration_ranks p) (pe_from e)
     \<and> distinct (map edge_key (pp_edges p))
     \<and> acyclic (edge_rel (set (proposal_refs p)) (proposal_edges p))"
proof -
  note R = validate_ranks_Nil [OF wf_proposal_ranks_distinct [OF assms(1)] acceptedD(10) [OF assms(2)]]
  have E: "pe_from e \<in> set (proposal_refs p)" "pe_to e \<in> set (proposal_refs p)"
    "distinct (map edge_key (pp_edges p))"
    using acceptedD(2) [OF assms(2)] assms(3)
    by (auto simp: validate_edges_def validate_edges_loop_Nil)
  from R(2) [OF E(1)] R(2) [OF E(2)] obtain a b where
    "0 \<le> a" "map_of (pp_integration_ranks p) (pe_from e) = Some a"
    "map_of (pp_integration_ranks p) (pe_to e) = Some b" by blast
  moreover from this have "a < b" using R(3) [OF assms(3) E(1,2)] by blast
  moreover have "acyclic (edge_rel (set (proposal_refs p)) (proposal_edges p))"
    using acceptedD(9) [OF assms(2)] unfolding has_cycle_def cycle_check_graph_iff by blast
  ultimately show ?thesis using E by (simp add: dict_at_def)
qed

theorem accepted_edges_ranked_witness:
  "acyclic (edge_rel (set (proposal_refs ex_proposal)) (proposal_edges ex_proposal))"
  using accepted_edges_ranked [OF ex_wf ex_accepted, of "ex_edge ''a'' ''b''"] by (simp add: ex_proposal_def)

text \<open>An accepted plan has no edge between a test slice and an implementation slice that it
  tests, in either direction: the two are generated without seeing each other.\<close>

theorem accepted_tests_isolated:
  assumes "wf_proposal p" "accepted (validate lim p inputs)" "e \<in> set (pp_edges p)"
    and "t \<in> set (pp_slices p)" "ps_kind t \<in> {TestTranslation, TestGeneration}"
    and "s \<in> set (pp_slices p)" "ps_kind s = Implementation"
    and "{pe_from e, pe_to e} = {ps_local_ref t, ps_local_ref s}"
  shows "set (tested_modules p inputs (ps_local_ref t)) \<inter> set (ps_source_modules s) = {}"
  by (rule test_edges_isolated [OF assms(1) acceptedD(5) [OF assms(2)] assms(3-8)])

theorem accepted_tests_isolated_witness:
  "set (tested_modules ex_proposal ex_inputs ''t'') \<inter> {1} = {}"
  using accepted_tests_isolated [OF ex_wf ex_accepted, of "ex_edge ''a'' ''t''"
      "ex_slice ''t'' TestTranslation 3 [''out/t.py''] []" "ex_slice ''a'' Implementation 1 [] [''out/a'']"]
  by (simp add: ex_proposal_def ex_slice_def ex_edge_def insert_commute)

section \<open>Freezing\<close>

text \<open>C4: the integration order of a frozen plan lists every slice identifier once, and every
  edge of the frozen plan leads forward in it.\<close>

theorem freeze_linear_extension:
  assumes "wf_proposal p" "inj_on fresh {..<length (pp_slices p)}" "freeze digest fresh ledger p inputs = (Inr f, ledger')"
  defines "order \<equiv> ff_integration_order (fp_facts f)"
  shows "distinct order \<and> set order = ms_id ` set (ff_slices (fp_facts f))
     \<and> (\<forall>e \<in> set (ff_edges (fp_facts f)). \<exists>i j. i < j \<and> j < length order
          \<and> order ! i = ed_from e \<and> order ! j = ed_to e)"
  using assms(3)
proof (cases rule: freeze_cases)
  case (frozen g)
  note acc = frozen(3)
  let ?ids = "local_ref_ids fresh p"
  have facts: "fp_facts f = freeze_facts fresh inputs p (validate (pl_limits ledger) p inputs)"
    using frozen by simp
  have order: "order = integration_order ?ids (pp_integration_ranks p)"
    by (simp add: order_def facts freeze_facts_def Let_def)
  have ids: "ms_id ` set (ff_slices (fp_facts f)) = dict_at ?ids ` set (proposal_refs p)"
    by (auto simp: facts freeze_facts_def Let_def freeze_slice_def proposal_refs_def image_image)
  have before: "\<exists>i j. i < j \<and> j < length order \<and> order ! i = ed_from e \<and> order ! j = ed_to e"
    if "e \<in> set (ff_edges (fp_facts f))" for e
  proof -
    from that obtain pe where pe: "pe \<in> set (pp_edges p)" "e = freeze_edge ?ids pe"
      by (auto simp: facts freeze_facts_def Let_def)
    from pe(1) acceptedD(2) [OF acc]
    have "pe_from pe \<in> set (proposal_refs p)" "pe_to pe \<in> set (proposal_refs p)"
      by (auto simp: validate_edges_def validate_edges_loop_Nil)
    from integration_order_before [OF assms(1,2) acceptedD(10) [OF acc] pe(1) this]
    show ?thesis
      unfolding order by (simp add: pe(2) freeze_edge_def integration_order_set [OF assms(1)])
  qed
  then show ?thesis
    unfolding order ids integration_order_set(1) [OF assms(1)]
    using integration_order_distinct [OF assms(1,2)] by blast
qed simp

theorem freeze_linear_extension_witness:
  "distinct (ff_integration_order (fp_facts ex_frozen))"
  using freeze_linear_extension [OF ex_wf ex_fresh ex_freeze] by blast

definition record_ok :: "(frozen_facts \<Rightarrow> string) \<Rightarrow> frozen_plan \<Rightarrow> bool" where
  "record_ok digest f \<longleftrightarrow>
     accepted (ff_validation (fp_facts f)) \<and> fp_plan_hash f = compute_plan_hash digest (fp_facts f)"

lemma freeze_record_ok:
  assumes "freeze digest fresh ledger p inputs = (r, ledger')"
  shows "case r of
      Inl v \<Rightarrow> ledger' = ledger \<and> \<not> accepted v
    | Inr f \<Rightarrow> record_ok digest f \<and> ff_proposal (fp_facts f) = p
        \<and> ledger' = ledger\<lparr>pl_records := pl_records ledger @ [f]\<rparr>"
  using assms by (cases rule: freeze_cases) (simp_all add: record_ok_def freeze_facts_def Let_def)

text \<open>A freeze either rejects the proposal and leaves the ledger as it was, or appends
  exactly one record, whose validation is accepted and whose plan hash is the one recomputed from the
  record; so a ledger whose records satisfy this keeps doing so.\<close>

theorem freeze_publishes_accepted:
  assumes "freeze digest fresh ledger p inputs = (r, ledger')"
    and "list_all (record_ok digest) (pl_records ledger)"
  shows "list_all (record_ok digest) (pl_records ledger')
    \<and> (case r of Inl v \<Rightarrow> ledger' = ledger \<and> \<not> accepted v
       | Inr f \<Rightarrow> pl_records ledger' = pl_records ledger @ [f] \<and> ff_proposal (fp_facts f) = p)"
  using freeze_record_ok [OF assms(1)] assms(2) by (cases r) auto

theorem freeze_publishes_accepted_witness:
  "list_all (record_ok ex_digest) [ex_frozen] \<and> ff_proposal (fp_facts ex_frozen) = ex_proposal"
  using freeze_publishes_accepted [OF ex_freeze] by (simp add: empty_ledger_def)

section \<open>The retry loop\<close>

text \<open>C31: the retry loop always ends, after at most one more attempt than there are retries. When
  it raises, the ledger is unchanged; a \<open>PlanFailed\<close> means that exactly \<open>max_retries + 1\<close>
  attempts were made and all were rejected; when it returns, exactly one accepted record was appended, by
  the first attempt that was not rejected.\<close>

theorem retry_run_outcome:
  "case retry_run digest fresh max_retries proposer validator inputs ledger of
     (Inl (PlanFailed v n), ledger') \<Rightarrow> ledger' = ledger \<and> n = max_retries + 1 \<and> \<not> accepted v
        \<and> (\<forall>k \<le> max_retries. rejected_at proposer validator k)
   | (Inl _, ledger') \<Rightarrow> ledger' = ledger
   | (Inr f, ledger') \<Rightarrow> record_ok digest f \<and> ledger' = ledger\<lparr>pl_records := pl_records ledger @ [f]\<rparr>
        \<and> (\<exists>k \<le> max_retries. \<not> rejected_at proposer validator k
              \<and> (\<forall>j < k. rejected_at proposer validator j))"
proof (cases rule: retry_loop_cases [of max_retries proposer validator
      "\<lambda>l p. freeze digest fresh l p inputs" ledger])
  case (accepted k p)
  obtain r l where fr: "freeze digest fresh ledger p inputs = (r, l)" by (rule prod.exhaust)
  from freeze_record_ok [OF fr] accepted fr show ?thesis
    unfolding retry_run_def by (cases r) auto
qed (auto simp: retry_run_def)

definition ex_proposer :: "nat \<Rightarrow> plan_violation list \<Rightarrow> proposer_result" where
  "ex_proposer k feedback = (if k = 0 then SchemaError ''no plan'' else Proposed ex_proposal)"

lemma ex_retry:
  "retry_run ex_digest of_nat 3 ex_proposer (\<lambda>p. Inr (validate None p ex_inputs)) ex_inputs (empty_ledger None)
     = (Inr ex_frozen, \<lparr>pl_limits = None, pl_records = [ex_frozen]\<rparr>)"
  unfolding retry_run_def
  by (subst retry_loop.simps, subst retry_loop.simps)
     (simp add: ex_proposer_def attempt_def checked_def schema_failure_def ex_accepted ex_freeze)

theorem retry_run_outcome_witness:
  "record_ok ex_digest ex_frozen
     \<and> (\<exists>k \<le> 3. \<not> rejected_at ex_proposer (\<lambda>p. Inr (validate None p ex_inputs)) k
          \<and> (\<forall>j < k. rejected_at ex_proposer (\<lambda>p. Inr (validate None p ex_inputs)) j))"
  using retry_run_outcome [where digest = ex_digest and fresh = of_nat and max_retries = 3
      and proposer = ex_proposer and validator = "\<lambda>p. Inr (validate None p ex_inputs)"
      and inputs = ex_inputs and ledger = "empty_ledger None", unfolded ex_retry]
  by simp

end
