(* ===== verification/Core_Properties.thy ===== *)
theory Core_Properties
  imports Core_Paths
begin

text \<open>
  What the path normaliser and the scope pattern language of \<open>core\<close> promise to the
  components above them.
\<close>

text \<open>A path list that is accepted is returned as its normal form: ascending, free of
  duplicates, with the same members, each of them relative, free of NUL and of the segments \<open>.\<close>,
  \<open>..\<close>, \<open>.git\<close> and the empty one; normalising again changes nothing.\<close>

theorem normalize_normal_form:
  assumes "normalize_repo_relative_paths paths = Inr r"
  shows "sorted r \<and> distinct r \<and> set r = set paths \<and> normalize_repo_relative_paths r = Inr r
    \<and> (\<forall>p \<in> set r. p \<noteq> [] \<and> CHR 0x00 \<notin> set p \<and> \<not> prefix ''/'' p
         \<and> (\<forall>part \<in> set (split_on slash p). part \<notin> {'''', ''.'', ''..'', ''.git''}))"
proof -
  from assms have safe: "check_repo_path p = None" if "p \<in> set r" for p
    using that by (auto simp: normalize_ok_iff)
  have "p \<noteq> [] \<and> CHR 0x00 \<notin> set p \<and> \<not> prefix ''/'' p
      \<and> (\<forall>part \<in> set (split_on slash p). part \<notin> {'''', ''.'', ''..'', ''.git''})" if "p \<in> set r" for p
    using check_repo_path_NoneD [OF safe [OF that]] by (auto simp: unsafe_segments_def)
  with assms normalize_idem [OF assms] show ?thesis
    by (auto simp: normalize_ok_iff)
qed

theorem normalize_normal_form_witness:
  "sorted [''a/b'', ''c''] \<and> normalize_repo_relative_paths [''a/b'', ''c''] = Inr [''a/b'', ''c'']"
proof -
  have "normalize_repo_relative_paths [''c'', ''a/b'', ''c''] = Inr [''a/b'', ''c'']" by code_simp
  from normalize_normal_form [OF this] show ?thesis by blast
qed

text \<open>C32: what a valid scope pattern matches. A directory pattern matches the paths below it, a
  pattern with a star the paths with one non-empty segment run in its place, any other pattern the
  path itself; a file pattern also matches such a path followed by one newline, since the code
  anchors with \<open>$\<close>.\<close>

theorem scope_pattern_meaning:
  assumes "validate_scope_pattern pat = Inr pat'"
  shows "scope_pattern_matches pat path \<longleftrightarrow> \<not> is_git_path path
    \<and> (if suffix ''/'' pat then prefix pat path
       else if CHR ''*'' \<notin> set pat then path \<in> {pat, pat @ [CHR 0x0A]}
       else \<exists>w. w \<noteq> [] \<and> slash \<notin> set w
              \<and> path \<in> {fst (star_split pat) @ w @ snd (star_split pat),
                        fst (star_split pat) @ w @ snd (star_split pat) @ [CHR 0x0A]})"
  using assms
proof (cases rule: valid_pattern_semantics)
  case (star a b)
  then have "star_split pat = (a, b)" by (simp add: star_split_eq)
  with star show ?thesis unfolding scope_pattern_matches_def by auto
qed (auto simp: scope_pattern_matches_def)

theorem scope_pattern_meaning_witness:
  "scope_pattern_matches ''app/a.py'' (''app/a.py'' @ [CHR 0x0A]) \<and> \<not> scope_pattern_matches ''app/a.py'' ''app/a.pyc''"
proof -
  have v: "validate_scope_pattern ''app/a.py'' = Inr ''app/a.py''" by code_simp
  show ?thesis
    unfolding scope_pattern_meaning [OF v] by (auto simp: is_git_path_def suffix_def)
qed

text \<open>When the Spec's excludes pass the containment check, a path that an exclude matches is
  matched by an include too: an exclude only ever carves out of what was included.\<close>

theorem excludes_carve_out:
  assumes "excludes_are_contained includes excludes"
    and "\<forall>p \<in> set (includes @ excludes). is_ok (validate_scope_pattern p)"
    and "excl \<in> set excludes" "CHR 0x0A \<notin> set excl" "scope_pattern_matches excl path"
  shows "\<exists>incl \<in> set includes. scope_pattern_matches incl path"
proof -
  from assms(1,3) obtain incl where incl: "incl \<in> set includes" "pattern_is_contained incl excl"
    by (auto simp: excludes_are_contained_def list_all_iff list_ex_iff)
  moreover from assms(2,3) incl(1) obtain i e where
    "validate_scope_pattern incl = Inr i" "validate_scope_pattern excl = Inr e"
    by (auto simp: ball_Un is_ok_def split: sum.splits) (metis sum.exhaust)
  ultimately have "re_matches (pattern_regex incl) path"
    using pattern_is_contained_sound assms(4,5) unfolding scope_pattern_matches_def by blast
  with incl(1) assms(5) show ?thesis unfolding scope_pattern_matches_def by blast
qed

theorem excludes_carve_out_witness:
  "\<exists>incl \<in> set [''app/''] . scope_pattern_matches incl ''app/gen/x.py''"
  by (rule excludes_carve_out [of _ "[''app/gen/'']" "''app/gen/''"]) code_simp+

end
