(* ===== verification/Scheduler.thy ===== *)
theory Scheduler
  imports Path_Tree
begin

text \<open>
  \<open>runtime/scheduler.py\<close>: the fair scheduler that hands out ready slices. Its state is the
  record \<open>fair_scheduler\<close>; the default dictionaries of integrated and failed slices are
  functions to sets, the in-flight scopes an association list. A \<open>ready_slice\<close> is the object
  after \<open>__post_init__\<close>, which normalises the set of required predecessors.
\<close>

section \<open>Ready slices\<close>

datatype resource_pool = ModelPool | SandboxPool | AdjudicationPool

record ready_slice =
  rd_run_id :: string
  rd_slice_id :: string
  rd_dependencies :: "string set"
  rd_write_scope :: "string set"
  rd_resource_pool :: resource_pool
  rd_generation :: int
  rd_ordered_before :: "string set"
  rd_requires :: "string set"

definition ready_slice_init ::
  "string \<Rightarrow> string \<Rightarrow> string set \<Rightarrow> string set \<Rightarrow> resource_pool \<Rightarrow> int \<Rightarrow> string set \<Rightarrow> string set option
     \<Rightarrow> ready_slice res" where
  "ready_slice_init run_id slice_id dependencies write_scope pool generation ordered_before requires_opt =
     (if generation < 0 then Inl (ValueError ''Slice generation must be a non-negative integer'')
      else let requires = (case requires_opt of None \<Rightarrow> dependencies - ordered_before | Some r \<Rightarrow> r)
           in if \<not> ordered_before \<subseteq> dependencies \<or> \<not> requires \<subseteq> dependencies
              then Inl (ValueError ''typed Slice predecessors must be declared dependencies'')
              else if dependencies \<noteq> ordered_before \<union> requires
              then Inl (ValueError ''typed Slice predecessor kinds must cover all dependencies'')
              else Inr \<lparr>rd_run_id = run_id, rd_slice_id = slice_id, rd_dependencies = dependencies,
                        rd_write_scope = write_scope, rd_resource_pool = pool, rd_generation = generation,
                        rd_ordered_before = ordered_before, rd_requires = requires\<rparr>)"

type_synonym identity = "string \<times> string \<times> int"

definition identity_of :: "ready_slice \<Rightarrow> identity" where
  "identity_of item = (rd_run_id item, rd_slice_id item, rd_generation item)"

section \<open>Scope overlap\<close>

definition scope_within :: "string \<Rightarrow> string \<Rightarrow> bool" where
  "scope_within f s \<longleftrightarrow> f = s \<or> prefix (rstrip_char slash s @ ''/'') f"

definition sched_scopes_overlap :: "string set \<Rightarrow> string set \<Rightarrow> bool" where
  "sched_scopes_overlap left right \<longleftrightarrow>
     (\<exists>first \<in> left. \<exists>second \<in> right.
        first = second \<or> prefix (rstrip_char slash second @ ''/'') first
        \<or> prefix (rstrip_char slash first @ ''/'') second)"

section \<open>The scheduler\<close>

record fair_scheduler =
  fs_queues :: "string \<rightharpoonup> ready_slice list"
  fs_integrated :: "string \<Rightarrow> string set"
  fs_terminal_failed :: "string \<Rightarrow> string set"
  fs_awaiting_integration :: "identity set"
  fs_in_flight :: "identity set"
  fs_in_flight_scopes :: "(identity \<times> string set) list"
  fs_run_order :: "string list"
  fs_cursor :: nat

definition sched_init :: fair_scheduler where
  "sched_init =
     \<lparr>fs_queues = Map.empty, fs_integrated = (\<lambda>_. {}), fs_terminal_failed = (\<lambda>_. {}),
      fs_awaiting_integration = {}, fs_in_flight = {}, fs_in_flight_scopes = [], fs_run_order = [],
      fs_cursor = 0\<rparr>"

definition queue_of :: "fair_scheduler \<Rightarrow> string \<Rightarrow> ready_slice list" where
  "queue_of s run_id = (case fs_queues s run_id of None \<Rightarrow> [] | Some q \<Rightarrow> q)"

text \<open>The index of the queued slice with a given identifier, and the queue with that entry replaced.\<close>

definition existing_index :: "string \<Rightarrow> ready_slice list \<Rightarrow> nat option" where
  "existing_index slice_id queue =
     map_option fst (List.find (\<lambda>(_, candidate). rd_slice_id candidate = slice_id) (enum_list queue))"

definition drop_awaiting :: "string \<Rightarrow> string \<Rightarrow> identity set \<Rightarrow> identity set" where
  "drop_awaiting run_id slice_id waiting =
     Set.filter (\<lambda>(r, t, _). \<not> (r = run_id \<and> t = slice_id)) waiting"

text \<open>The access \<open>self._queues[run_id]\<close> of \<open>submit\<close>, after a new Run was entered in the order.\<close>

definition open_queue :: "fair_scheduler \<Rightarrow> string \<Rightarrow> fair_scheduler" where
  "open_queue s run_id =
     (if fs_queues s run_id = None
      then s\<lparr>fs_run_order := fs_run_order s @ [run_id], fs_queues := (fs_queues s)(run_id \<mapsto> [])\<rparr> else s)"

definition submit :: "fair_scheduler \<Rightarrow> ready_slice \<Rightarrow> fair_scheduler res" where
  "submit s0 item =
     (let run_id = rd_run_id item;
          s = open_queue s0 run_id;
          queue = queue_of s run_id
      in case existing_index (rd_slice_id item) queue of
           None \<Rightarrow> Inr (s\<lparr>fs_queues := (fs_queues s)(run_id \<mapsto> queue @ [item])\<rparr>)
         | Some i \<Rightarrow>
             let existing = queue ! i;
                 old_identity = identity_of existing
             in if old_identity \<in> fs_in_flight s \<and> old_identity \<noteq> identity_of item
                then Inl (ValueError ''cannot replace a Slice generation while it is in flight'')
                else if existing \<noteq> item \<and> old_identity \<in> fs_in_flight s
                then Inl (ValueError ''cannot replace in-flight Slice scheduling facts'')
                else let s1 = (if rd_generation existing \<noteq> rd_generation item
                               then s\<lparr>fs_integrated := (fs_integrated s)
                                        (run_id := fs_integrated s run_id - {rd_slice_id item}),
                                      fs_terminal_failed := (fs_terminal_failed s)
                                        (run_id := fs_terminal_failed s run_id - {rd_slice_id item}),
                                      fs_awaiting_integration :=
                                        drop_awaiting run_id (rd_slice_id item) (fs_awaiting_integration s)\<rparr>
                               else s)
                     in Inr (s1\<lparr>fs_queues := (fs_queues s1)(run_id \<mapsto> queue[i := item])\<rparr>))"

definition generation_for :: "fair_scheduler \<Rightarrow> string \<Rightarrow> string \<Rightarrow> int option \<Rightarrow> int option" where
  "generation_for s run_id slice_id generation =
     (case generation of
        Some g \<Rightarrow> Some g
      | None \<Rightarrow> map_option rd_generation
          (List.find (\<lambda>item. rd_slice_id item = slice_id) (queue_of s run_id)))"

definition drop_in_flight :: "fair_scheduler \<Rightarrow> identity \<Rightarrow> fair_scheduler" where
  "drop_in_flight s i =
     s\<lparr>fs_in_flight := fs_in_flight s - {i}, fs_in_flight_scopes := AList.delete i (fs_in_flight_scopes s)\<rparr>"

definition mark_integrated :: "fair_scheduler \<Rightarrow> string \<Rightarrow> string \<Rightarrow> int option \<Rightarrow> fair_scheduler" where
  "mark_integrated s run_id slice_id generation =
     (let current = generation_for s run_id slice_id None;
          selected = (if generation = None then current else generation);
          s1 = (if generation = None \<or> generation = current
                then s\<lparr>fs_integrated := (fs_integrated s)(run_id := insert slice_id (fs_integrated s run_id)),
                       fs_terminal_failed := (fs_terminal_failed s)
                         (run_id := fs_terminal_failed s run_id - {slice_id}),
                       fs_awaiting_integration := drop_awaiting run_id slice_id (fs_awaiting_integration s)\<rparr>
                else s)
      in case selected of None \<Rightarrow> s1 | Some g \<Rightarrow> drop_in_flight s1 (run_id, slice_id, g))"

definition complete_slice :: "fair_scheduler \<Rightarrow> string \<Rightarrow> string \<Rightarrow> int option \<Rightarrow> fair_scheduler" where
  "complete_slice s run_id slice_id generation = mark_integrated s run_id slice_id generation"

definition release :: "fair_scheduler \<Rightarrow> string \<Rightarrow> string \<Rightarrow> int option \<Rightarrow> fair_scheduler" where
  "release s run_id slice_id generation =
     (case generation_for s run_id slice_id generation of
        None \<Rightarrow> s | Some g \<Rightarrow> drop_in_flight s (run_id, slice_id, g))"

definition await_integration :: "fair_scheduler \<Rightarrow> string \<Rightarrow> string \<Rightarrow> int \<Rightarrow> fair_scheduler res" where
  "await_integration s run_id slice_id generation =
     (if generation < 0 then Inl (ValueError ''candidate generation must be a non-negative integer'')
      else Inr (drop_in_flight
        (s\<lparr>fs_awaiting_integration := insert (run_id, slice_id, generation) (fs_awaiting_integration s)\<rparr>)
        (run_id, slice_id, generation)))"

definition restore_committed_facts ::
  "fair_scheduler \<Rightarrow> string \<Rightarrow> string set \<Rightarrow> string set \<Rightarrow> fair_scheduler" where
  "restore_committed_facts s run_id integrated failed =
     s\<lparr>fs_integrated := (fs_integrated s)(run_id := integrated),
       fs_terminal_failed := (fs_terminal_failed s)(run_id := failed - integrated),
       fs_awaiting_integration := Set.filter (\<lambda>(r, _). r \<noteq> run_id) (fs_awaiting_integration s)\<rparr>"

section \<open>Selecting the next slice\<close>

definition reserved_scopes :: "fair_scheduler \<Rightarrow> string \<Rightarrow> string set" where
  "reserved_scopes s run_id =
     \<Union> (set (map snd (filter (\<lambda>((r, _), _). r = run_id) (fs_in_flight_scopes s))))"

text \<open>The conditions of the inner loop of \<open>next\<close>.\<close>

definition selectable ::
  "fair_scheduler \<Rightarrow> string set \<Rightarrow> resource_pool set \<Rightarrow> string \<Rightarrow> ready_slice \<Rightarrow> bool" where
  "selectable s active pools run_id item \<longleftrightarrow>
     \<not> (rd_slice_id item \<in> fs_integrated s run_id
        \<or> rd_slice_id item \<in> fs_terminal_failed s run_id
        \<or> identity_of item \<in> fs_in_flight s
        \<or> identity_of item \<in> fs_awaiting_integration s
        \<or> \<not> rd_requires item \<subseteq> fs_integrated s run_id
        \<or> \<not> rd_ordered_before item \<subseteq> fs_integrated s run_id \<union> fs_terminal_failed s run_id)
     \<and> rd_resource_pool item \<in> pools
     \<and> \<not> sched_scopes_overlap (rd_write_scope item) (active \<union> reserved_scopes s run_id)"

definition reserve :: "fair_scheduler \<Rightarrow> nat \<Rightarrow> ready_slice \<Rightarrow> fair_scheduler" where
  "reserve s index item =
     s\<lparr>fs_in_flight := insert (identity_of item) (fs_in_flight s),
       fs_in_flight_scopes := AList.update (identity_of item) (rd_write_scope item) (fs_in_flight_scopes s),
       fs_cursor := (index + 1) mod length (fs_run_order s)\<rparr>"

fun next_loop ::
  "fair_scheduler \<Rightarrow> string set \<Rightarrow> resource_pool set \<Rightarrow> string option \<Rightarrow> nat list
     \<Rightarrow> ready_slice option \<times> fair_scheduler" where
  "next_loop s active pools only [] = (None, s)"
| "next_loop s active pools only (offset # offsets) =
     (let index = (fs_cursor s + offset) mod length (fs_run_order s);
          run_id = fs_run_order s ! index
      in if only \<noteq> None \<and> only \<noteq> Some run_id then next_loop s active pools only offsets
         else case List.find (selectable s active pools run_id) (queue_of s run_id) of
                None \<Rightarrow> next_loop s active pools only offsets
              | Some item \<Rightarrow> (Some item, reserve s index item))"

definition next_slice ::
  "fair_scheduler \<Rightarrow> string set \<Rightarrow> resource_pool set \<Rightarrow> string option \<Rightarrow> ready_slice option \<times> fair_scheduler"
  where
  "next_slice s active pools only =
     (if fs_run_order s = [] then (None, s)
      else next_loop s active pools only [0..<length (fs_run_order s)])"

section \<open>Path containment as the scheduler sees it\<close>

lemma rstrip_snoc [simp]: "rstrip_char c (s @ [x]) = (if x = c then rstrip_char c s else s @ [x])"
  by (simp add: rstrip_char_def)

lemma rstrip_Nil [simp]: "rstrip_char c [] = []"
  by (simp add: rstrip_char_def)

lemma rstrip_idem [simp]: "rstrip_char c (rstrip_char c s) = rstrip_char c s"
  by (induction s rule: rev_induct) simp_all

lemma rstrip_prefix: "prefix (rstrip_char c s) s"
  by (induction s rule: rev_induct) auto

lemma rstrip_prefix_mono:
  "prefix (rstrip_char c t @ [c]) s \<Longrightarrow> prefix (rstrip_char c t @ [c]) (rstrip_char c s @ [c])"
proof (induction s rule: rev_induct)
  case (snoc x s)
  then consider "rstrip_char c t = s" "x = c" | "prefix (rstrip_char c t @ [c]) s"
    by (auto simp: prefix_snoc)
  then show ?case
  proof cases
    case 1
    then show ?thesis by (simp flip: 1(1))
  next
    case 2
    with snoc.IH show ?thesis by (auto intro: prefix_order.trans)
  qed
qed simp

lemma rstrip_cases: "s = rstrip_char c s \<or> prefix (rstrip_char c s @ [c]) s"
proof (induction s rule: rev_induct)
  case (snoc x s)
  show ?case
  proof (cases "x = c")
    case True
    with snoc show ?thesis by (auto intro: prefix_order.trans)
  qed simp
qed simp

lemma same_rstrip:
  "rstrip_char c a = rstrip_char c b \<Longrightarrow>
     a = b \<or> prefix (rstrip_char c a @ [c]) b \<or> prefix (rstrip_char c b @ [c]) a"
  using rstrip_cases [of a c] rstrip_cases [of b c] by auto

lemma rstrip_chain:
  assumes "prefix (rstrip_char c a @ [c]) (rstrip_char c b @ [c])"
  shows "a = b \<or> prefix (rstrip_char c a @ [c]) b \<or> prefix (rstrip_char c b @ [c]) a"
proof -
  from assms consider "rstrip_char c a = rstrip_char c b" | "prefix (rstrip_char c a @ [c]) (rstrip_char c b)"
    by (auto simp: prefix_snoc)
  then show ?thesis
  proof cases
    case 1
    then show ?thesis by (rule same_rstrip)
  next
    case 2
    then have "prefix (rstrip_char c a @ [c]) b" by (rule prefix_order.trans [OF _ rstrip_prefix])
    then show ?thesis by (intro disjI2 disjI1)
  qed
qed

interpretation scope: path_tree scope_within
proof unfold_locales
  show "scope_within p p" for p by (simp add: scope_within_def)
  show "scope_within p r" if "scope_within p q" "scope_within q r" for p q r
  proof (cases "p = q \<or> q = r")
    case True
    with that show ?thesis by auto
  next
    case False
    with that have q: "prefix (rstrip_char slash q @ [slash]) p" "prefix (rstrip_char slash r @ [slash]) q"
      by (auto simp: scope_within_def)
    from prefix_order.trans [OF rstrip_prefix_mono [OF q(2)] q(1)]
    show ?thesis by (auto simp: scope_within_def)
  qed
  show "scope_within a b \<or> scope_within b a" if "scope_within q a" "scope_within q b" for q a b
  proof (cases "q = a \<or> q = b")
    case True
    with that show ?thesis by auto
  next
    case False
    with that have "prefix (rstrip_char slash a @ [slash]) q" "prefix (rstrip_char slash b @ [slash]) q"
      by (auto simp: scope_within_def)
    then have "prefix (rstrip_char slash a @ [slash]) (rstrip_char slash b @ [slash])
        \<or> prefix (rstrip_char slash b @ [slash]) (rstrip_char slash a @ [slash])"
      by (rule prefix_same_cases)
    then show ?thesis
      using rstrip_chain [of slash a b] rstrip_chain [of slash b a] by (auto simp: scope_within_def)
  qed
qed

text \<open>The trees a write scope claims; two scopes overlap exactly when they claim a common path.\<close>

definition claims_path :: "string set \<Rightarrow> string \<Rightarrow> bool" where
  "claims_path scope q \<longleftrightarrow> (\<exists>root \<in> scope. scope_within q root)"

lemma sched_scopes_overlap_iff: "sched_scopes_overlap A B \<longleftrightarrow> (\<exists>q. claims_path A q \<and> claims_path B q)"
proof -
  have "sched_scopes_overlap A B \<longleftrightarrow> (\<exists>a \<in> A. \<exists>b \<in> B. scope_within a b \<or> scope_within b a)"
    by (auto simp: sched_scopes_overlap_def scope_within_def)
  then show ?thesis unfolding scope.trees_meet_iff by (simp add: scope.below_def claims_path_def)
qed

lemma sched_scopes_overlap_Un:
  "sched_scopes_overlap A (B \<union> C) \<longleftrightarrow> sched_scopes_overlap A B \<or> sched_scopes_overlap A C"
  "sched_scopes_overlap A (\<Union> S) \<longleftrightarrow> (\<exists>B \<in> S. sched_scopes_overlap A B)"
  by (auto simp: sched_scopes_overlap_def)

lemma sched_scopes_overlap_sym: "sched_scopes_overlap A B \<Longrightarrow> sched_scopes_overlap B A"
  by (auto simp: sched_scopes_overlap_iff)

section \<open>Invariant\<close>

definition queues_ok :: "fair_scheduler \<Rightarrow> bool" where
  "queues_ok s \<longleftrightarrow>
     distinct (fs_run_order s) \<and> dom (fs_queues s) = set (fs_run_order s)
     \<and> (\<forall>r q. fs_queues s r = Some q \<longrightarrow> distinct (map rd_slice_id q) \<and> (\<forall>i \<in> set q. rd_run_id i = r))
     \<and> (if fs_run_order s = [] then fs_cursor s = 0 else fs_cursor s < length (fs_run_order s))"

text \<open>Every reservation belongs to a queued slice, and reservations of one Run claim disjoint trees.\<close>

definition backed :: "(string \<Rightarrow> ready_slice list) \<Rightarrow> (identity \<times> string set) set \<Rightarrow> bool" where
  "backed queue L \<longleftrightarrow>
     (\<forall>x \<in> L. \<exists>item \<in> set (queue (fst (fst x))). identity_of item = fst x \<and> rd_write_scope item = snd x)"

definition apart :: "(identity \<times> string set) set \<Rightarrow> bool" where
  "apart L \<longleftrightarrow>
     (\<forall>x \<in> L. \<forall>y \<in> L. fst x \<noteq> fst y \<longrightarrow> fst (fst x) = fst (fst y)
        \<longrightarrow> \<not> sched_scopes_overlap (snd x) (snd y))"

definition flight_ok :: "fair_scheduler \<Rightarrow> bool" where
  "flight_ok s \<longleftrightarrow>
     distinct (map fst (fs_in_flight_scopes s)) \<and> fs_in_flight s = fst ` set (fs_in_flight_scopes s)
     \<and> backed (queue_of s) (set (fs_in_flight_scopes s)) \<and> apart (set (fs_in_flight_scopes s))"

lemma backed_subset: "backed q L \<Longrightarrow> M \<subseteq> L \<Longrightarrow> backed q M"
  unfolding backed_def by blast

lemma apart_subset: "apart L \<Longrightarrow> M \<subseteq> L \<Longrightarrow> apart M"
  unfolding apart_def by blast

definition sched_inv :: "fair_scheduler \<Rightarrow> bool" where
  "sched_inv s \<longleftrightarrow> queues_ok s \<and> flight_ok s"

inductive sched_step :: "fair_scheduler \<Rightarrow> fair_scheduler \<Rightarrow> bool" where
  step_submit: "submit s item = Inr s' \<Longrightarrow> sched_step s s'"
| step_integrated: "sched_step s (mark_integrated s run_id slice_id generation)"
| step_release: "sched_step s (release s run_id slice_id generation)"
| step_await: "await_integration s run_id slice_id g = Inr s' \<Longrightarrow> sched_step s s'"
| step_restore: "sched_step s (restore_committed_facts s run_id integrated failed)"
| step_next: "next_slice s active pools only = (r, s') \<Longrightarrow> sched_step s s'"

inductive sched_reachable :: "fair_scheduler \<Rightarrow> bool" where
  reach_init: "sched_reachable sched_init"
| reach_step: "sched_reachable s \<Longrightarrow> sched_step s s' \<Longrightarrow> sched_reachable s'"

lemma sched_inv_init: "sched_inv sched_init"
  by (simp add: sched_inv_def queues_ok_def flight_ok_def sched_init_def backed_def apart_def)

text \<open>Only the queues and the in-flight tables matter for the invariant.\<close>

lemma sched_inv_cong:
  assumes "fs_queues s' = fs_queues s" "fs_run_order s' = fs_run_order s" "fs_cursor s' = fs_cursor s"
    "fs_in_flight s' = fs_in_flight s" "fs_in_flight_scopes s' = fs_in_flight_scopes s"
  shows "sched_inv s' = sched_inv s"
  by (simp add: sched_inv_def queues_ok_def flight_ok_def queue_of_def [abs_def] assms)

lemma sched_inv_drop: "sched_inv s \<Longrightarrow> sched_inv (drop_in_flight s i)"
proof -
  assume inv: "sched_inv s"
  have del: "set (AList.delete i (fs_in_flight_scopes s)) = {e \<in> set (fs_in_flight_scopes s). fst e \<noteq> i}"
    by (auto simp: AList.delete_eq)
  have "fs_in_flight s - {i} = fst ` set (AList.delete i (fs_in_flight_scopes s))"
    using inv unfolding del sched_inv_def flight_ok_def by auto
  moreover have "distinct (map fst (AList.delete i (fs_in_flight_scopes s)))"
    using inv by (intro AList.distinct_delete) (simp add: sched_inv_def flight_ok_def)
  ultimately show ?thesis
    using inv backed_subset [of "queue_of s" "set (fs_in_flight_scopes s)"]
      apart_subset [of "set (fs_in_flight_scopes s)"]
    unfolding sched_inv_def queues_ok_def flight_ok_def
    by (simp add: drop_in_flight_def del queue_of_def [abs_def])
qed

lemma sched_inv_integrated: "sched_inv s \<Longrightarrow> sched_inv (mark_integrated s run_id slice_id generation)"
  unfolding mark_integrated_def Let_def
  by (auto split: option.splits intro!: sched_inv_drop
      intro: sched_inv_cong [THEN iffD2, rotated 5])

lemma sched_inv_release: "sched_inv s \<Longrightarrow> sched_inv (release s run_id slice_id generation)"
  by (auto simp: release_def intro: sched_inv_drop split: option.splits)

lemma sched_inv_await:
  "sched_inv s \<Longrightarrow> await_integration s run_id slice_id g = Inr s' \<Longrightarrow> sched_inv s'"
  by (auto simp: await_integration_def split: if_splits intro!: sched_inv_drop
      intro: sched_inv_cong [THEN iffD2, rotated 5])

lemma sched_inv_restore: "sched_inv s \<Longrightarrow> sched_inv (restore_committed_facts s run_id integrated failed)"
  by (auto simp: restore_committed_facts_def intro: sched_inv_cong [THEN iffD2, rotated 5])

lemma existing_index_Some:
  "existing_index t q = Some i \<Longrightarrow> i < length q \<and> rd_slice_id (q ! i) = t"
  by (auto simp: existing_index_def find_Some_iff nth_enumerate_eq)

lemma existing_index_None: "existing_index t q = None \<Longrightarrow> \<forall>c \<in> set q. rd_slice_id c \<noteq> t"
  by (fastforce simp: existing_index_def find_None_iff elim: enum_listE)

lemma queue_of_open [simp]: "queue_of (open_queue s run_id) = queue_of s"
  by (auto simp: open_queue_def queue_of_def fun_eq_iff)

lemma sched_inv_open: "sched_inv s \<Longrightarrow> sched_inv (open_queue s run_id)"
proof -
  assume inv: "sched_inv s"
  have "flight_ok (open_queue s run_id)"
    using inv unfolding sched_inv_def flight_ok_def queue_of_open by (simp add: open_queue_def)
  moreover have "queues_ok (open_queue s run_id)"
    using inv unfolding sched_inv_def queues_ok_def open_queue_def
    by (cases "fs_queues s run_id"; cases "fs_run_order s") (auto simp: domIff)
  ultimately show ?thesis by (simp add: sched_inv_def)
qed

lemma open_queue_dom: "\<exists>q. fs_queues (open_queue s run_id) run_id = Some q"
  by (auto simp: open_queue_def)

text \<open>Changing one queue keeps the invariant if the queue stays well formed and keeps what is in flight.\<close>

lemma sched_inv_set_queue:
  assumes inv: "sched_inv s" and old: "fs_queues s run_id = Some q0"
    and wf: "distinct (map rd_slice_id q)" "\<forall>i \<in> set q. rd_run_id i = run_id"
    and keep: "\<And>i. i \<in> set q0 \<Longrightarrow> identity_of i \<in> fs_in_flight s \<Longrightarrow> i \<in> set q"
  shows "sched_inv (s\<lparr>fs_queues := (fs_queues s)(run_id \<mapsto> q)\<rparr>)" (is "sched_inv ?s")
proof -
  have "queues_ok ?s"
    using inv old wf by (auto simp: sched_inv_def queues_ok_def insert_absorb domIff)
  moreover have "backed (queue_of ?s) (set (fs_in_flight_scopes s))"
    unfolding backed_def
  proof
    fix x assume x: "x \<in> set (fs_in_flight_scopes s)"
    with inv obtain item where "item \<in> set (queue_of s (fst (fst x)))" "identity_of item = fst x"
      "rd_write_scope item = snd x"
      unfolding sched_inv_def flight_ok_def backed_def by blast
    moreover have "fst x \<in> fs_in_flight s" using inv x unfolding sched_inv_def flight_ok_def by auto
    ultimately show "\<exists>item \<in> set (queue_of ?s (fst (fst x))). identity_of item = fst x \<and> rd_write_scope item = snd x"
      using keep old by (intro bexI [of _ item]) (auto simp: queue_of_def)
  qed
  ultimately show ?thesis using inv unfolding sched_inv_def flight_ok_def by simp
qed

lemma sched_inv_facts:
  "sched_inv s \<Longrightarrow>
     sched_inv (s\<lparr>fs_integrated := a, fs_terminal_failed := b, fs_awaiting_integration := c\<rparr>)"
  by (subst sched_inv_cong [of _ s]) simp_all

lemma sched_inv_queue: 
  assumes "sched_inv s" "fs_queues s r = Some q"
  shows "distinct (map rd_slice_id q)" "\<forall>i \<in> set q. rd_run_id i = r"
  using assms by (auto simp: sched_inv_def queues_ok_def)

lemma sched_inv_submit:
  assumes inv0: "sched_inv s0" and sub: "submit s0 item = Inr s'"
  shows "sched_inv s'"
proof -
  let ?r = "rd_run_id item"
  let ?s = "open_queue s0 ?r"
  have inv: "sched_inv ?s" by (rule sched_inv_open [OF inv0])
  obtain q where q: "fs_queues ?s ?r = Some q" using open_queue_dom by blast
  then have qo: "queue_of s0 ?r = q" by (metis queue_of_open queue_of_def option.simps(5))
  note wf = sched_inv_queue [OF inv q]
  show ?thesis
  proof (cases "existing_index (rd_slice_id item) q")
    case None
    then have "s' = ?s\<lparr>fs_queues := (fs_queues ?s)(?r \<mapsto> q @ [item])\<rparr>"
      using sub by (simp add: submit_def Let_def qo)
    moreover have "distinct (map rd_slice_id (q @ [item]))"
      using wf(1) existing_index_None [OF None] by auto
    ultimately show ?thesis using wf(2) by (auto intro!: sched_inv_set_queue [OF inv q])
  next
    case (Some i)
    note i = existing_index_Some [OF Some]
    define s1 where "s1 = (if rd_generation (q ! i) \<noteq> rd_generation item
      then ?s\<lparr>fs_integrated := (fs_integrated ?s)(?r := fs_integrated ?s ?r - {rd_slice_id item}),
              fs_terminal_failed := (fs_terminal_failed ?s)(?r := fs_terminal_failed ?s ?r - {rd_slice_id item}),
              fs_awaiting_integration := drop_awaiting ?r (rd_slice_id item) (fs_awaiting_integration ?s)\<rparr>
      else ?s)"
    have s': "s' = s1\<lparr>fs_queues := (fs_queues s1)(?r \<mapsto> q[i := item])\<rparr>"
      and flying: "identity_of (q ! i) \<in> fs_in_flight ?s \<Longrightarrow> q ! i = item"
      using sub by (auto simp: submit_def Let_def qo Some s1_def split: if_splits)
    have s1: "sched_inv s1" "fs_queues s1 ?r = Some q" "fs_in_flight s1 = fs_in_flight ?s"
      using inv q by (auto simp: s1_def intro: sched_inv_facts)
    have "map rd_slice_id (q[i := item]) = map rd_slice_id q"
      using i by (simp add: map_update list_update_same_conv)
    then have "distinct (map rd_slice_id (q[i := item]))" using wf(1) by simp
    moreover have "\<forall>x \<in> set (q[i := item]). rd_run_id x = ?r"
      using wf(2) set_update_subset_insert [of q i item] by auto
    moreover have "x \<in> set (q[i := item])" if "x \<in> set q" "identity_of x \<in> fs_in_flight s1" for x
    proof -
      from that(1) obtain j where j: "j < length q" "q ! j = x" by (auto simp: in_set_conv_nth)
      show ?thesis
      proof (cases "j = i")
        case True
        with flying that(2) s1(3) j have "x = item" by simp
        with i show ?thesis by (simp add: set_update_memI)
      next
        case False
        with j show ?thesis by (metis length_list_update nth_list_update_neq nth_mem)
      qed
    qed
    ultimately show ?thesis unfolding s' by (rule sched_inv_set_queue [OF s1(1,2)])
  qed
qed

section \<open>What the next slice is\<close>

definition run_at :: "fair_scheduler \<Rightarrow> nat \<Rightarrow> string" where
  "run_at s offset = fs_run_order s ! ((fs_cursor s + offset) mod length (fs_run_order s))"

definition admits ::
  "fair_scheduler \<Rightarrow> string set \<Rightarrow> resource_pool set \<Rightarrow> string option \<Rightarrow> string \<Rightarrow> bool" where
  "admits s active pools only run_id \<longleftrightarrow>
     (only = None \<or> only = Some run_id) \<and> (\<exists>item \<in> set (queue_of s run_id). selectable s active pools run_id item)"

lemma next_loop_cases:
  obtains (idle) "next_loop s active pools only offsets = (None, s)"
      "\<forall>k \<in> set offsets. \<not> admits s active pools only (run_at s k)"
  | (found) before k after item where "offsets = before @ k # after"
      "\<forall>j \<in> set before. \<not> admits s active pools only (run_at s j)"
      "only = None \<or> only = Some (run_at s k)"
      "item \<in> set (queue_of s (run_at s k))" "selectable s active pools (run_at s k) item"
      "next_loop s active pools only offsets
         = (Some item, reserve s ((fs_cursor s + k) mod length (fs_run_order s)) item)"
proof (induction offsets arbitrary: thesis)
  case Nil
  then show ?case by simp
next
  case (Cons k ks)
  show ?case
  proof (cases "admits s active pools only (run_at s k)")
    case True
    then obtain item where f: "List.find (selectable s active pools (run_at s k)) (queue_of s (run_at s k)) = Some item"
      by (cases "List.find (selectable s active pools (run_at s k)) (queue_of s (run_at s k))")
         (auto simp: admits_def find_None_iff)
    then have item: "item \<in> set (queue_of s (run_at s k))" "selectable s active pools (run_at s k) item"
      by (auto simp: find_Some_iff)
    have "next_loop s active pools only (k # ks)
        = (Some item, reserve s ((fs_cursor s + k) mod length (fs_run_order s)) item)"
      using True f by (auto simp: admits_def run_at_def Let_def)
    with True item show ?thesis by (intro Cons.prems(2) [of "[]" k ks item]) (auto simp: admits_def)
  next
    case False
    then have "\<not> (only = None \<or> only = Some (run_at s k))
        \<or> List.find (selectable s active pools (run_at s k)) (queue_of s (run_at s k)) = None"
      by (auto simp: admits_def find_None_iff)
    then have skip: "next_loop s active pools only (k # ks) = next_loop s active pools only ks"
      by (auto simp: run_at_def Let_def)
    show ?thesis
    proof (rule Cons.IH)
      assume "next_loop s active pools only ks = (None, s)"
        "\<forall>k \<in> set ks. \<not> admits s active pools only (run_at s k)"
      with False skip show thesis by (intro Cons.prems(1)) auto
    next
      fix before j after item
      assume "ks = before @ j # after" "\<forall>j \<in> set before. \<not> admits s active pools only (run_at s j)"
        "only = None \<or> only = Some (run_at s j)"
        "item \<in> set (queue_of s (run_at s j))" "selectable s active pools (run_at s j) item"
        "next_loop s active pools only ks
           = (Some item, reserve s ((fs_cursor s + j) mod length (fs_run_order s)) item)"
      with False skip show thesis by (intro Cons.prems(2) [of "k # before" j after item]) auto
    qed
  qed
qed

lemma upt_split: "[0..<n] = before @ k # after \<Longrightarrow> k < n \<and> before = [0..<k]"
proof -
  assume a: "[0..<n] = before @ k # after"
  have "k = [0..<n] ! length before" unfolding a by simp
  moreover have len: "length before < n" using arg_cong [OF a, of length] by simp
  ultimately have k: "k = length before" by simp
  have "before = take (length before) [0..<n]" unfolding a by simp
  with k len show ?thesis by simp
qed

lemma next_slice_cases:
  assumes "next_slice s active pools only = (r, s')"
  obtains (idle) "r = None" "s' = s" "\<forall>k < length (fs_run_order s). \<not> admits s active pools only (run_at s k)"
  | (found) k item where "r = Some item" "k < length (fs_run_order s)"
      "\<forall>j < k. \<not> admits s active pools only (run_at s j)" "only = None \<or> only = Some (run_at s k)"
      "item \<in> set (queue_of s (run_at s k))" "selectable s active pools (run_at s k) item"
      "s' = reserve s ((fs_cursor s + k) mod length (fs_run_order s)) item"
proof (cases "fs_run_order s = []")
  case True
  with assms show ?thesis by (intro idle) (auto simp: next_slice_def)
next
  case False
  then have n: "next_slice s active pools only = next_loop s active pools only [0..<length (fs_run_order s)]"
    by (simp add: next_slice_def)
  show ?thesis
  proof (rule next_loop_cases [of s active pools only "[0..<length (fs_run_order s)]"])
    assume "next_loop s active pools only [0..<length (fs_run_order s)] = (None, s)"
      "\<forall>k \<in> set [0..<length (fs_run_order s)]. \<not> admits s active pools only (run_at s k)"
    with assms n show ?thesis by (intro idle) auto
  next
    fix before k after item
    assume f: "[0..<length (fs_run_order s)] = before @ k # after"
      "\<forall>j \<in> set before. \<not> admits s active pools only (run_at s j)" "only = None \<or> only = Some (run_at s k)"
      "item \<in> set (queue_of s (run_at s k))" "selectable s active pools (run_at s k) item"
      "next_loop s active pools only [0..<length (fs_run_order s)]
         = (Some item, reserve s ((fs_cursor s + k) mod length (fs_run_order s)) item)"
    from upt_split [OF f(1)] assms n f show ?thesis by (intro found [of item k]) auto
  qed
qed

lemma run_at_mem: "fs_run_order s \<noteq> [] \<Longrightarrow> run_at s k \<in> set (fs_run_order s)"
  by (simp add: run_at_def)

lemma queued_run:
  assumes "sched_inv s" "item \<in> set (queue_of s r)"
  shows "rd_run_id item = r"
  using assms sched_inv_queue(2) [OF assms(1)] by (cases "fs_queues s r") (auto simp: queue_of_def)

lemma reserved_scopes_iff:
  "sched_scopes_overlap A (reserved_scopes s r) \<longleftrightarrow>
     (\<exists>x \<in> set (fs_in_flight_scopes s). fst (fst x) = r \<and> sched_scopes_overlap A (snd x))"
  unfolding reserved_scopes_def sched_scopes_overlap_Un by (force simp: split_beta)

lemma sched_inv_reserve:
  assumes inv: "sched_inv s" and mem: "item \<in> set (queue_of s r)" and sel: "selectable s active pools r item"
    and ne: "fs_run_order s \<noteq> []"
  shows "sched_inv (reserve s i item)"
proof -
  have run: "rd_run_id item = r" by (rule queued_run [OF inv mem])
  let ?L = "fs_in_flight_scopes s"
  have fresh: "identity_of item \<notin> fst ` set ?L"
    using sel inv by (simp add: selectable_def sched_inv_def flight_ok_def)
  have free: "\<not> sched_scopes_overlap (rd_write_scope item) (snd x)" if "x \<in> set ?L" "fst (fst x) = r" for x
    using sel that unfolding selectable_def sched_scopes_overlap_Un(1) reserved_scopes_iff by blast
  have upd: "fs_in_flight_scopes (reserve s i item) = ?L @ [(identity_of item, rd_write_scope item)]"
    by (simp add: reserve_def update_fresh [OF fresh])
  have fst_id: "fst (identity_of item) = r" by (simp add: identity_of_def run)
  have "apart (set (fs_in_flight_scopes (reserve s i item)))"
    using inv free fst_id unfolding upd sched_inv_def flight_ok_def apart_def
    by (auto dest: sched_scopes_overlap_sym)
  moreover have "queue_of (reserve s i item) = queue_of s"
    by (auto simp: reserve_def queue_of_def fun_eq_iff)
  then have "backed (queue_of (reserve s i item)) (set (fs_in_flight_scopes (reserve s i item)))"
    using inv mem fst_id unfolding upd sched_inv_def flight_ok_def backed_def by auto
  ultimately have "flight_ok (reserve s i item)"
    using inv fresh unfolding flight_ok_def sched_inv_def upd by (simp add: reserve_def)
  moreover have "queues_ok (reserve s i item)"
    using inv ne by (simp add: sched_inv_def queues_ok_def reserve_def)
  ultimately show ?thesis by (simp add: sched_inv_def)
qed

lemma sched_inv_next:
  assumes "sched_inv s" "next_slice s active pools only = (r, s')"
  shows "sched_inv s'"
  using assms(2)
proof (cases rule: next_slice_cases)
  case (found k item)
  then have "fs_run_order s \<noteq> []" by auto
  with found sched_inv_reserve [OF assms(1) found(5,6)] show ?thesis by simp
qed (use assms(1) in simp)

lemma sched_reachable_inv: "sched_reachable s \<Longrightarrow> sched_inv s"
proof (induction rule: sched_reachable.induct)
  case (reach_step s s')
  from reach_step(2,3) show ?case
    by cases (auto intro: sched_inv_submit sched_inv_integrated sched_inv_release sched_inv_await
        sched_inv_restore sched_inv_next)
qed (rule sched_inv_init)

section \<open>Fairness\<close>

lemma run_at_covers:
  assumes "sched_inv s" "r \<in> set (fs_run_order s)"
  obtains k where "k < length (fs_run_order s)" "run_at s k = r"
proof -
  let ?n = "length (fs_run_order s)"
  from assms(2) obtain i where i: "i < ?n" "fs_run_order s ! i = r" by (auto simp: in_set_conv_nth)
  have c: "fs_cursor s < ?n" using assms by (auto simp: sched_inv_def queues_ok_def split: if_splits)
  let ?k = "(i + ?n - fs_cursor s) mod ?n"
  have "(fs_cursor s + ?k) mod ?n = i"
    using c i(1) by (simp add: mod_add_right_eq)
  moreover have "?k < ?n" using i(1) by (intro mod_less_divisor) linarith
  ultimately show ?thesis using that [of ?k] i(2) by (simp add: run_at_def)
qed

lemma reserve_other_run:
  assumes "sched_inv s" "item \<in> set (queue_of s q)" "q \<noteq> r"
  shows "admits (reserve s i item) active pools None r = admits s active pools None r"
proof -
  have other: "identity_of x \<noteq> identity_of item" if "x \<in> set (queue_of s r)" for x
    using queued_run [OF assms(1,2)] queued_run [OF assms(1) that] assms(3) by (auto simp: identity_of_def)
  have "reserved_scopes (reserve s i item) r = reserved_scopes s r"
  proof -
    have "filter (\<lambda>((a, _), _). a = r) (AList.update (identity_of item) A L) = filter (\<lambda>((a, _), _). a = r) L"
      for A and L :: "(identity \<times> string set) list"
      using queued_run [OF assms(1,2)] assms(3)
      by (induction L) (auto simp: identity_of_def split: prod.splits)
    then show ?thesis by (simp add: reserved_scopes_def reserve_def)
  qed
  moreover have "queue_of (reserve s i item) = queue_of s"
    by (auto simp: reserve_def queue_of_def fun_eq_iff)
  ultimately show ?thesis
    using other by (auto simp: admits_def selectable_def reserve_def)
qed

definition serve :: "string set \<Rightarrow> resource_pool set \<Rightarrow> fair_scheduler \<Rightarrow> fair_scheduler" where
  "serve active pools s = snd (next_slice s active pools None)"

lemma served_within:
  assumes "sched_inv s" "admits s active pools None r" "d < length (fs_run_order s)" "run_at s d = r"
  shows "\<exists>k \<le> d. \<exists>item. fst (next_slice ((serve active pools ^^ k) s) active pools None) = Some item
           \<and> rd_run_id item = r"
  using assms
proof (induction d arbitrary: s rule: less_induct)
  case (less d)
  obtain res s' where ns: "next_slice s active pools None = (res, s')" by (rule prod.exhaust)
  then show ?case
  proof (cases rule: next_slice_cases)
    case idle
    with less.prems show ?thesis by blast
  next
    case (found k item)
    have kd: "k \<le> d" using found(3) less.prems(2,4) by (meson leI)
    have run: "rd_run_id item = run_at s k" by (rule queued_run [OF less.prems(1) found(5)])
    show ?thesis
    proof (cases "run_at s k = r")
      case True
      with ns found(1) run show ?thesis by (intro exI [of _ 0]) simp
    next
      case False
      with kd less.prems(4) have lt: "k < d" by (metis le_neq_implies_less)
      have inv: "sched_inv s'" by (rule sched_inv_next [OF less.prems(1) ns])
      have adm: "admits s' active pools None r"
        unfolding found(7) using reserve_other_run [OF less.prems(1) found(5) False] less.prems(2) by simp
      have at: "run_at s' (d - Suc k) = r"
      proof -
        have "(Suc (fs_cursor s + k) mod n + (d - Suc k)) mod n = (fs_cursor s + d) mod n" for n
        proof -
          have "Suc (fs_cursor s + k) + (d - Suc k) = fs_cursor s + d" using lt by simp
          then show ?thesis by (metis mod_add_left_eq)
        qed
        then show ?thesis using less.prems(4) by (simp add: run_at_def found(7) reserve_def mod_Suc_eq)
      qed
      have "d - Suc k < d" "d - Suc k < length (fs_run_order s')"
        using lt less.prems(3) by (simp_all add: found(7) reserve_def)
      from less.IH [OF this(1) inv adm this(2) at] obtain j item' where
        j: "j \<le> d - Suc k" "fst (next_slice ((serve active pools ^^ j) s') active pools None) = Some item'"
          "rd_run_id item' = r" by blast
      have "s' = serve active pools s" by (simp add: serve_def ns)
      with j lt show ?thesis
        by (intro exI [of _ "Suc j"] conjI exI [of _ item']) (simp_all add: funpow_swap1)
    qed
  qed
qed

section \<open>Correctness\<close>

text \<open>Two Runs with two queued slices each; the slices \<open>x\<close> and \<open>y\<close> of the first share a tree.\<close>

definition ex_ready :: "string \<Rightarrow> string \<Rightarrow> string set \<Rightarrow> string set \<Rightarrow> ready_slice" where
  "ex_ready run slc deps scope =
     \<lparr>rd_run_id = run, rd_slice_id = slc, rd_dependencies = deps, rd_write_scope = scope,
      rd_resource_pool = ModelPool, rd_generation = 0, rd_ordered_before = {}, rd_requires = deps\<rparr>"

definition ex_sched :: fair_scheduler where
  "ex_sched = projr (submit (projr (submit (projr (submit sched_init (ex_ready ''r1'' ''x'' {} {''out/a''})))
     (ex_ready ''r1'' ''z'' {} {''out/b''}))) (ex_ready ''r2'' ''u'' {} {''out/a''}))"

definition ex_sched1 :: fair_scheduler where
  "ex_sched1 = snd (next_slice ex_sched {} {ModelPool} (Some ''r1''))"

definition ex_sched2 :: fair_scheduler where
  "ex_sched2 = snd (next_slice ex_sched1 {} {ModelPool} (Some ''r1''))"

lemma ex_sched_reachable: "sched_reachable ex_sched"
proof -
  have "sched_reachable (projr (submit s item))"
    if "sched_reachable s" "is_ok (submit s item)" for s item
    using that by (auto elim!: is_okE intro: reach_step [OF _ step_submit])
  moreover have "is_ok (submit sched_init (ex_ready ''r1'' ''x'' {} {''out/a''}))"
    "is_ok (submit (projr (submit sched_init (ex_ready ''r1'' ''x'' {} {''out/a''})))
       (ex_ready ''r1'' ''z'' {} {''out/b''}))"
    "is_ok (submit (projr (submit (projr (submit sched_init (ex_ready ''r1'' ''x'' {} {''out/a''})))
       (ex_ready ''r1'' ''z'' {} {''out/b''}))) (ex_ready ''r2'' ''u'' {} {''out/a''}))"
    by code_simp+
  ultimately show ?thesis unfolding ex_sched_def by (blast intro: reach_init)
qed

lemma ex_sched2_reachable: "sched_reachable ex_sched1" "sched_reachable ex_sched2"
proof -
  have nxt: "sched_reachable (snd (next_slice s active pools only))" if "sched_reachable s" for s active pools only
    by (rule reach_step [OF that step_next [OF surjective_pairing]])
  show "sched_reachable ex_sched1" unfolding ex_sched1_def by (rule nxt [OF ex_sched_reachable])
  then show "sched_reachable ex_sched2" unfolding ex_sched2_def by (rule nxt)
qed

text \<open>C33: in every reachable state of the scheduler, two different in-flight slices of the same Run
  claim no common path.\<close>

theorem in_flight_scopes_disjoint:
  assumes "sched_reachable s"
    and "((run, sliceA, gen1), A) \<in> set (fs_in_flight_scopes s)"
    and "((run, sliceB, gen2), B) \<in> set (fs_in_flight_scopes s)"
    and "(sliceA, gen1) \<noteq> (sliceB, gen2)"
  shows "\<not> (claims_path A q \<and> claims_path B q)"
proof -
  have "apart (set (fs_in_flight_scopes s))"
    using sched_reachable_inv [OF assms(1)] by (simp add: sched_inv_def flight_ok_def)
  with assms(2-4) have "\<not> sched_scopes_overlap A B" unfolding apart_def by fastforce
  then show ?thesis unfolding sched_scopes_overlap_iff by blast
qed

theorem in_flight_scopes_disjoint_witness:
  "\<not> (claims_path {''out/a''} ''out/a/k.py'' \<and> claims_path {''out/b''} ''out/a/k.py'')"
proof -
  have "fs_in_flight_scopes ex_sched2 = [((''r1'', ''x'', 0), {''out/a''}), ((''r1'', ''z'', 0), {''out/b''})]"
    by code_simp
  then show ?thesis
    by (intro in_flight_scopes_disjoint [OF ex_sched2_reachable(2), of "''r1''" "''x''" 0 _ "''z''" 0]) auto
qed

text \<open>C34: a slice is handed out only when its required predecessors are integrated, its ordering
  predecessors are integrated or finally failed, it is neither done nor in flight nor awaiting
  integration, its pool is available, and it claims no path that is active or claimed by another
  in-flight slice of its Run; it is in flight afterwards.\<close>

theorem next_slice_sound:
  assumes "sched_reachable s" "next_slice s active pools only = (Some item, s')"
  shows "rd_requires item \<subseteq> fs_integrated s (rd_run_id item)
    \<and> rd_ordered_before item \<subseteq> fs_integrated s (rd_run_id item) \<union> fs_terminal_failed s (rd_run_id item)
    \<and> rd_slice_id item \<notin> fs_integrated s (rd_run_id item) \<union> fs_terminal_failed s (rd_run_id item)
    \<and> identity_of item \<notin> fs_in_flight s \<union> fs_awaiting_integration s
    \<and> rd_resource_pool item \<in> pools
    \<and> \<not> (\<exists>q. claims_path (rd_write_scope item) q \<and> claims_path active q)
    \<and> (\<forall>((run, _), A) \<in> set (fs_in_flight_scopes s). run = rd_run_id item
         \<longrightarrow> \<not> (\<exists>q. claims_path (rd_write_scope item) q \<and> claims_path A q))
    \<and> fs_in_flight s' = insert (identity_of item) (fs_in_flight s)"
  using assms(2)
proof (cases rule: next_slice_cases)
  case (found k i)
  then have [simp]: "i = item" by simp
  have run: "rd_run_id item = run_at s k"
    using queued_run [OF sched_reachable_inv [OF assms(1)] found(5)] by simp
  from found(6) have sel: "selectable s active pools (rd_run_id item) item" by (simp add: run)
  then have "\<not> sched_scopes_overlap (rd_write_scope item) active"
    "\<not> sched_scopes_overlap (rd_write_scope item) (reserved_scopes s (rd_run_id item))"
    unfolding selectable_def sched_scopes_overlap_Un(1) by blast+
  from this(1) this(2) [unfolded reserved_scopes_iff] have "\<not> (\<exists>q. claims_path (rd_write_scope item) q \<and> claims_path active q)"
    "\<forall>((run, _), A) \<in> set (fs_in_flight_scopes s). run = rd_run_id item
         \<longrightarrow> \<not> (\<exists>q. claims_path (rd_write_scope item) q \<and> claims_path A q)"
    unfolding sched_scopes_overlap_iff by auto
  moreover have "fs_in_flight s' = insert (identity_of item) (fs_in_flight s)"
    using found(7) by (simp add: reserve_def)
  ultimately show ?thesis using sel unfolding selectable_def by blast
qed simp

theorem next_slice_sound_witness:
  "identity_of (ex_ready ''r1'' ''z'' {} {''out/b''}) \<notin> fs_in_flight ex_sched1 \<union> fs_awaiting_integration ex_sched1"
proof -
  have "fst (next_slice ex_sched1 {} {ModelPool} (Some ''r1'')) = Some (ex_ready ''r1'' ''z'' {} {''out/b''})"
    by code_simp
  then have "next_slice ex_sched1 {} {ModelPool} (Some ''r1'')
      = (Some (ex_ready ''r1'' ''z'' {} {''out/b''}), ex_sched2)"
    by (simp add: ex_sched2_def prod_eq_iff)
  from next_slice_sound [OF ex_sched2_reachable(1) this] show ?thesis by blast
qed

text \<open>The scheduler returns nothing exactly when no queued slice of any admissible Run can be
  handed out, and then its state is unchanged.\<close>

theorem next_slice_complete:
  assumes "sched_reachable s"
  shows "next_slice s active pools only = (None, s) \<longleftrightarrow>
     (\<forall>run \<in> set (fs_run_order s). (only = None \<or> only = Some run)
        \<longrightarrow> (\<forall>item \<in> set (queue_of s run). \<not> selectable s active pools run item))"
    (is "?L \<longleftrightarrow> ?R")
proof -
  have inv: "sched_inv s" by (rule sched_reachable_inv [OF assms])
  obtain r s' where ns: "next_slice s active pools only = (r, s')" by (rule prod.exhaust)
  then show ?thesis
  proof (cases rule: next_slice_cases)
    case idle
    have "\<not> admits s active pools only run" if "run \<in> set (fs_run_order s)" for run
      using run_at_covers [OF inv that] idle(3) by metis
    then have ?R unfolding admits_def by blast
    moreover have ?L using ns idle(1,2) by simp
    ultimately show ?thesis by (intro iffI)
  next
    case (found k item)
    have "run_at s k \<in> set (fs_run_order s)" using found(2) by (intro run_at_mem) auto
    then have "\<not> ?R" using found(4,5,6) by blast
    moreover have "\<not> ?L" using ns found(1) by simp
    ultimately show ?thesis by (intro iffI) (blast, blast)
  qed
qed

theorem next_slice_complete_witness:
  "next_slice ex_sched2 {} {ModelPool} (Some ''r1'') = (None, ex_sched2)"
  unfolding next_slice_complete [OF ex_sched2_reachable(2)] by code_simp

text \<open>C35: no Run starves. While the active scopes and pools stay the same, a Run that has a slice to
  hand out is served within as many calls as there are Runs, whatever the other Runs have queued.\<close>

theorem round_robin_fair:
  assumes "sched_reachable s" "run \<in> set (fs_run_order s)"
    and "item \<in> set (queue_of s run)" "selectable s active pools run item"
  shows "\<exists>k < length (fs_run_order s). \<exists>chosen.
    fst (next_slice ((serve active pools ^^ k) s) active pools None) = Some chosen \<and> rd_run_id chosen = run"
proof -
  have inv: "sched_inv s" by (rule sched_reachable_inv [OF assms(1)])
  obtain d where d: "d < length (fs_run_order s)" "run_at s d = run" using run_at_covers [OF inv assms(2)] .
  have "admits s active pools None run" using assms(3,4) by (auto simp: admits_def)
  from served_within [OF inv this d] obtain k where k: "k \<le> d"
    "\<exists>chosen. fst (next_slice ((serve active pools ^^ k) s) active pools None) = Some chosen
       \<and> rd_run_id chosen = run" by blast
  with d(1) show ?thesis by (intro exI [of _ k]) simp
qed

theorem round_robin_fair_witness:
  "\<exists>k < length (fs_run_order ex_sched). \<exists>chosen.
    fst (next_slice ((serve {} {ModelPool} ^^ k) ex_sched) {} {ModelPool} None) = Some chosen
    \<and> rd_run_id chosen = ''r2''"
  by (rule round_robin_fair [OF ex_sched_reachable, of _ "ex_ready ''r2'' ''u'' {} {''out/a''}"]) code_simp+

end
