(* ===== verification/Integration.thy ===== *)
theory Integration
  imports Prelude
begin

text \<open>
  \<open>runtime/integration.py\<close>: the coordinator that integrates ordinary and repair candidates
  through one FIFO channel, and the retry accounting of repairs. An operation that raises leaves
  the coordinator unchanged, so it returns the exception instead of a new state.
\<close>

section \<open>The coordinator\<close>

record integration_item =
  it_run_id :: string
  it_slice_id :: string
  it_generation :: "int option"
  it_candidate_commit_oid :: string
  it_prospective_checks_passed :: bool
  it_repair :: bool
  it_repair_decision_id :: "string option"
  it_replaces_slice_id :: "string option"
  it_original_generation :: "int option"

record integration_start =
  is_item :: integration_item
  is_base_verified_oid :: string

record integration_coordinator =
  ic_queue :: "integration_item list"
  ic_active :: "integration_item option"
  ic_verified_oids :: "string \<rightharpoonup> string"
  ic_cancelled_runs :: "string set"

definition coordinator_init :: integration_coordinator where
  "coordinator_init = \<lparr>ic_queue = [], ic_active = None, ic_verified_oids = Map.empty, ic_cancelled_runs = {}\<rparr>"

definition enqueue :: "integration_coordinator \<Rightarrow> integration_item \<Rightarrow> bool \<times> integration_coordinator" where
  "enqueue c item =
     (if it_run_id item \<in> ic_cancelled_runs c then (False, c)
      else (True, c\<lparr>ic_queue := ic_queue c @ [item]\<rparr>))"

definition cancel_run :: "integration_coordinator \<Rightarrow> string \<Rightarrow> integration_coordinator" where
  "cancel_run c run_id =
     c\<lparr>ic_cancelled_runs := insert run_id (ic_cancelled_runs c),
       ic_queue := filter (\<lambda>item. it_run_id item \<noteq> run_id) (ic_queue c),
       ic_active := (case ic_active c of
           None \<Rightarrow> None
         | Some item \<Rightarrow> if it_run_id item = run_id then None else Some item)\<rparr>"

definition revoke_slice ::
  "integration_coordinator \<Rightarrow> string \<Rightarrow> string \<Rightarrow> (bool \<times> integration_coordinator) res" where
  "revoke_slice c run_id slice_id =
     (if (case ic_active c of
            None \<Rightarrow> False
          | Some item \<Rightarrow> (it_run_id item, it_slice_id item) = (run_id, slice_id))
      then Inl (RuntimeError ''active integration item cannot be revoked'')
      else let queue = filter (\<lambda>item. (it_run_id item, it_slice_id item) \<noteq> (run_id, slice_id)) (ic_queue c)
           in Inr (length queue \<noteq> length (ic_queue c), c\<lparr>ic_queue := queue\<rparr>))"

definition enqueue_repair ::
  "integration_coordinator \<Rightarrow> integration_item \<Rightarrow> (bool \<times> integration_coordinator) res" where
  "enqueue_repair c item =
     (if \<not> it_repair item then Inl (ValueError ''repair integration item must be marked repair'')
      else if it_generation item \<noteq> None
      then Inl (ValueError ''repair integration item must not have a Slice generation'')
      else if it_repair_decision_id item = None \<or> it_repair_decision_id item = Some []
      then Inl (ValueError ''repair integration item requires a repair decision identity'')
      else Inr (enqueue c item))"

definition mark_prospective_passed ::
  "integration_coordinator \<Rightarrow> string \<Rightarrow> string \<Rightarrow> int option \<Rightarrow> integration_coordinator" where
  "mark_prospective_passed c run_id slice_id generation =
     c\<lparr>ic_queue := map (\<lambda>item.
         if (it_run_id item, it_slice_id item, it_generation item) \<noteq> (run_id, slice_id, generation) then item
         else item\<lparr>it_prospective_checks_passed := True\<rparr>) (ic_queue c)\<rparr>"

definition register_verified_head ::
  "integration_coordinator \<Rightarrow> string \<Rightarrow> string \<Rightarrow> integration_coordinator res" where
  "register_verified_head c run_id verified_oid =
     (if run_id = [] \<or> verified_oid = [] then Inl (ValueError ''run_id and verified_oid must be non-empty'')
      else if ic_verified_oids c run_id \<noteq> None \<and> ic_verified_oids c run_id \<noteq> Some verified_oid
      then Inl (ValueError ''verified head may only advance through integration completion'')
      else Inr (c\<lparr>ic_verified_oids := (ic_verified_oids c)(run_id \<mapsto> verified_oid)\<rparr>))"

definition start_next ::
  "integration_coordinator \<Rightarrow> string \<Rightarrow> string option
     \<Rightarrow> (integration_start option \<times> integration_coordinator) res" where
  "start_next c run_id latest =
     (if ic_active c \<noteq> None \<or> run_id \<in> ic_cancelled_runs c then Inr (None, c)
      else case ic_queue c of
        [] \<Rightarrow> Inr (None, c)
      | item # _ \<Rightarrow>
          if it_run_id item \<noteq> run_id \<or> \<not> it_prospective_checks_passed item then Inr (None, c)
          else case ic_verified_oids c run_id of
            Some verified \<Rightarrow>
              Inr (Some \<lparr>is_item = item, is_base_verified_oid = verified\<rparr>, c\<lparr>ic_active := Some item\<rparr>)
          | None \<Rightarrow>
              (case latest of
                 None \<Rightarrow> Inr (None, c)
               | Some oid \<Rightarrow>
                   (case register_verified_head c run_id oid of
                      Inl e \<Rightarrow> Inl e
                    | Inr c' \<Rightarrow>
                        Inr (Some \<lparr>is_item = item, is_base_verified_oid = oid\<rparr>, c'\<lparr>ic_active := Some item\<rparr>))))"

definition complete ::
  "integration_coordinator \<Rightarrow> bool \<Rightarrow> string option
     \<Rightarrow> (integration_item option \<times> integration_coordinator) res" where
  "complete c success new_verified_oid =
     (case ic_active c of
        None \<Rightarrow> Inr (None, c)
      | Some item \<Rightarrow>
          if success
          then case new_verified_oid of
                 None \<Rightarrow> Inl (ValueError ''successful integration requires a new verified OID'')
               | Some oid \<Rightarrow>
                   (case ic_queue c of
                      [] \<Rightarrow> Inl (IndexError ''pop from an empty deque'')
                    | _ # rest \<Rightarrow>
                        Inr (Some item, c\<lparr>ic_verified_oids := (ic_verified_oids c)(it_run_id item \<mapsto> oid),
                                          ic_queue := rest, ic_active := None\<rparr>))
          else Inr (Some item, c\<lparr>ic_active := None\<rparr>))"

definition latest_verified_oid :: "integration_coordinator \<Rightarrow> string \<Rightarrow> string option" where
  "latest_verified_oid c run_id = ic_verified_oids c run_id"

section \<open>Repair retries\<close>

record repair_retry_budget =
  rb_limit :: int
  rb_attempts :: "string \<rightharpoonup> int"

definition repair_budget_init :: "int \<Rightarrow> repair_retry_budget res" where
  "repair_budget_init limit =
     (if limit < 1 then Inl (ValueError ''retry limit must be a positive integer'')
      else Inr \<lparr>rb_limit = limit, rb_attempts = Map.empty\<rparr>)"

definition attempts_of :: "repair_retry_budget \<Rightarrow> string \<Rightarrow> int" where
  "attempts_of b key = (case rb_attempts b key of None \<Rightarrow> 0 | Some n \<Rightarrow> n)"

definition can_retry :: "repair_retry_budget \<Rightarrow> string \<Rightarrow> bool" where
  "can_retry b key \<longleftrightarrow> attempts_of b key < rb_limit b"

definition record_retry :: "repair_retry_budget \<Rightarrow> string \<Rightarrow> (int \<times> repair_retry_budget) res" where
  "record_retry b key =
     (if \<not> can_retry b key then Inl (RuntimeError ''repair retry limit exhausted'')
      else let b' = b\<lparr>rb_attempts := (rb_attempts b)(key \<mapsto> attempts_of b key + 1)\<rparr>
           in Inr (attempts_of b' key, b'))"

section \<open>Histories of the coordinator\<close>

text \<open>
  \<open>coord_trace ins base log c\<close>: the coordinator \<open>c\<close> was reached with \<open>ins\<close> accepted into
  the queue in that order; \<open>base\<close> is the base of the active integration, and \<open>log\<close> holds the
  successful ones as (item, base, new head), oldest first.
\<close>

inductive coord_trace ::
  "integration_item list \<Rightarrow> string option \<Rightarrow> (integration_item \<times> string \<times> string) list
     \<Rightarrow> integration_coordinator \<Rightarrow> bool" where
  tr_init: "coord_trace [] None [] coordinator_init"
| tr_enqueue: "coord_trace ins base log c \<Longrightarrow> enqueue c item = (ok, c')
    \<Longrightarrow> coord_trace (if ok then ins @ [item] else ins) base log c'"
| tr_repair: "coord_trace ins base log c \<Longrightarrow> enqueue_repair c item = Inr (ok, c')
    \<Longrightarrow> coord_trace (if ok then ins @ [item] else ins) base log c'"
| tr_cancel: "coord_trace ins base log c
    \<Longrightarrow> coord_trace ins (if ic_active (cancel_run c run_id) = None then None else base) log (cancel_run c run_id)"
| tr_revoke: "coord_trace ins base log c \<Longrightarrow> revoke_slice c run_id slice_id = Inr (b, c')
    \<Longrightarrow> coord_trace ins base log c'"
| tr_mark: "coord_trace ins base log c
    \<Longrightarrow> coord_trace ins base log (mark_prospective_passed c run_id slice_id g)"
| tr_register: "coord_trace ins base log c \<Longrightarrow> register_verified_head c run_id oid = Inr c'
    \<Longrightarrow> coord_trace ins base log c'"
| tr_start: "coord_trace ins base log c \<Longrightarrow> start_next c run_id latest = Inr (Some start, c')
    \<Longrightarrow> coord_trace ins (Some (is_base_verified_oid start)) log c'"
| tr_complete: "coord_trace ins base log c \<Longrightarrow> complete c True (Some oid) = Inr (Some item, c')
    \<Longrightarrow> coord_trace ins None (log @ [(item, the base, oid)]) c'"
| tr_fail: "coord_trace ins base log c \<Longrightarrow> complete c False oid = Inr (Some item, c')
    \<Longrightarrow> coord_trace ins None log c'"

definition coord_inv :: "string option \<Rightarrow> integration_coordinator \<Rightarrow> bool" where
  "coord_inv base c \<longleftrightarrow>
     (case ic_active c of
        None \<Rightarrow> base = None
      | Some item \<Rightarrow> (\<exists>rest. ic_queue c = item # rest) \<and> it_prospective_checks_passed item
          \<and> base \<noteq> None \<and> ic_verified_oids c (it_run_id item) = base)
     \<and> (\<forall>item \<in> set (ic_queue c). it_run_id item \<notin> ic_cancelled_runs c)"

lemma enqueue_repairD: "enqueue_repair c item = Inr r \<Longrightarrow> enqueue c item = r"
  by (auto simp: enqueue_repair_def split: if_splits)

lemma coord_trace_inv: "coord_trace ins base log c \<Longrightarrow> coord_inv base c"
proof (induction rule: coord_trace.induct)
  case tr_init
  then show ?case by (simp add: coord_inv_def coordinator_init_def)
next
  case (tr_enqueue ins base log c item ok c')
  then show ?case by (auto simp: coord_inv_def enqueue_def split: if_splits option.splits)
next
  case (tr_repair ins base log c item ok c')
  from enqueue_repairD [OF tr_repair(2)] tr_repair(3) show ?case
    by (auto simp: coord_inv_def enqueue_def split: if_splits option.splits)
next
  case (tr_cancel ins base log c run_id)
  then show ?case by (auto simp: coord_inv_def cancel_run_def split: if_splits option.splits)
next
  case (tr_revoke ins base log c run_id slice_id b c')
  then show ?case by (auto simp: coord_inv_def revoke_slice_def Let_def split: if_splits option.splits)
next
  case (tr_mark ins base log c run_id slice_id g)
  then show ?case by (auto simp: coord_inv_def mark_prospective_passed_def split: option.splits)
next
  case (tr_register ins base log c run_id oid c')
  then show ?case by (auto simp: coord_inv_def register_verified_head_def split: if_splits option.splits)
next
  case (tr_start ins base log c run_id latest start c')
  then show ?case
    by (auto simp: coord_inv_def start_next_def register_verified_head_def
        split: if_splits option.splits list.splits)
next
  case (tr_complete ins base log c oid item c')
  then show ?case by (auto simp: coord_inv_def complete_def split: if_splits option.splits list.splits)
next
  case (tr_fail ins base log c oid item c')
  then show ?case by (auto simp: coord_inv_def complete_def split: if_splits option.splits)
qed

text \<open>First in, first out: what was integrated and what is queued, in this order, is a
  subsequence of what was accepted.\<close>

definition mark_passed :: "integration_item \<Rightarrow> integration_item" where
  "mark_passed item = item\<lparr>it_prospective_checks_passed := True\<rparr>"

definition pipeline :: "(integration_item \<times> string \<times> string) list \<Rightarrow> integration_coordinator \<Rightarrow> integration_item list"
  where "pipeline log c = map (mark_passed \<circ> fst) log @ map mark_passed (ic_queue c)"

lemma pipeline_filter:
  "subseq (pipeline log c) xs \<Longrightarrow> subseq (pipeline log (c\<lparr>ic_queue := filter P (ic_queue c)\<rparr>)) xs"
  unfolding pipeline_def
  by (rule subseq_order.trans [rotated], assumption)
     (auto intro!: list_emb_append_mono subseq_map)

lemma enqueue_fifo:
  assumes "subseq (pipeline log c) (map mark_passed ins)" "enqueue c item = (ok, c')"
  shows "subseq (pipeline log c') (map mark_passed (if ok then ins @ [item] else ins))"
  using assms by (auto simp: enqueue_def pipeline_def split: if_splits simp flip: append_assoc)

lemma coord_trace_fifo: "coord_trace ins base log c \<Longrightarrow> subseq (pipeline log c) (map mark_passed ins)"
proof (induction rule: coord_trace.induct)
  case tr_init
  then show ?case by (simp add: pipeline_def coordinator_init_def)
next
  case (tr_enqueue ins base log c item ok c')
  then show ?case by (intro enqueue_fifo)
next
  case (tr_repair ins base log c item ok c')
  then show ?case by (intro enqueue_fifo enqueue_repairD)
next
  case (tr_cancel ins base log c run_id)
  then show ?case using pipeline_filter [OF tr_cancel.IH]
    by (simp add: cancel_run_def pipeline_def)
next
  case (tr_revoke ins base log c run_id slice_id b c')
  then show ?case using pipeline_filter [OF tr_revoke.IH]
    by (auto simp: revoke_slice_def Let_def pipeline_def split: if_splits)
next
  case (tr_mark ins base log c run_id slice_id g)
  have "pipeline log (mark_prospective_passed c run_id slice_id g) = pipeline log c"
    by (simp add: pipeline_def mark_prospective_passed_def mark_passed_def)
  with tr_mark show ?case by simp
next
  case (tr_register ins base log c run_id oid c')
  then show ?case by (auto simp: register_verified_head_def pipeline_def split: if_splits)
next
  case (tr_start ins base log c run_id latest start c')
  then show ?case
    by (auto simp: start_next_def register_verified_head_def pipeline_def
        split: if_splits option.splits list.splits)
next
  case (tr_complete ins base log c oid item c')
  from coord_trace_inv [OF tr_complete(1)] tr_complete(2,3) show ?case
    by (auto simp: complete_def coord_inv_def pipeline_def split: option.splits list.splits)
next
  case (tr_fail ins base log c oid item c')
  then show ?case by (auto simp: complete_def pipeline_def split: option.splits)
qed

text \<open>The integrations of a Run form one chain of verified heads.\<close>

definition heads_of :: "string \<Rightarrow> (integration_item \<times> string \<times> string) list \<Rightarrow> (string \<times> string) list" where
  "heads_of run_id log = map snd (filter (\<lambda>(item, _). it_run_id item = run_id) log)"

definition chained :: "string \<Rightarrow> (integration_item \<times> string \<times> string) list \<Rightarrow> integration_coordinator \<Rightarrow> bool" where
  "chained run_id log c \<longleftrightarrow>
     successively (\<lambda>x y. snd x = fst y) (heads_of run_id log)
     \<and> (heads_of run_id log \<noteq> [] \<longrightarrow> ic_verified_oids c run_id = Some (snd (last (heads_of run_id log))))"

lemma chained_keep:
  "chained run_id log c \<Longrightarrow> (\<And>v. ic_verified_oids c run_id = Some v \<Longrightarrow> ic_verified_oids c' run_id = Some v)
     \<Longrightarrow> chained run_id log c'"
  by (simp add: chained_def)

lemma register_keeps:
  "register_verified_head c run_id oid = Inr c' \<Longrightarrow> ic_verified_oids c r = Some v \<Longrightarrow> ic_verified_oids c' r = Some v"
  by (auto simp: register_verified_head_def split: if_splits)

lemma start_keeps:
  "start_next c run_id latest = Inr (x, c') \<Longrightarrow> ic_verified_oids c r = Some v \<Longrightarrow> ic_verified_oids c' r = Some v"
  by (auto simp: start_next_def split: if_splits option.splits list.splits sum.splits dest: register_keeps)

lemma chained_complete:
  assumes inv: "coord_inv base c" and ch: "chained run_id log c"
    and co: "complete c True (Some oid) = Inr (Some item, c')"
  shows "chained run_id (log @ [(item, the base, oid)]) c'"
proof -
  from co inv obtain rest where "ic_active c = Some item" "ic_queue c = item # rest"
    "ic_verified_oids c' = (ic_verified_oids c)(it_run_id item \<mapsto> oid)"
    and base: "ic_verified_oids c (it_run_id item) = Some (the base)"
    by (auto simp: complete_def coord_inv_def split: option.splits list.splits)
  with ch show ?thesis
    by (auto simp: chained_def heads_of_def successively_append_iff)
qed

lemma coord_trace_chained: "coord_trace ins base log c \<Longrightarrow> chained run_id log c"
proof (induction rule: coord_trace.induct)
  case tr_init
  then show ?case by (simp add: chained_def heads_of_def)
next
  case (tr_enqueue ins base log c item ok c')
  then show ?case by (auto simp: enqueue_def chained_def split: if_splits)
next
  case (tr_repair ins base log c item ok c')
  from enqueue_repairD [OF tr_repair(2)] tr_repair(3) show ?case
    by (auto simp: enqueue_def chained_def split: if_splits)
next
  case (tr_revoke ins base log c r slice_id b c')
  then show ?case by (auto simp: revoke_slice_def Let_def chained_def split: if_splits)
next
  case (tr_register ins base log c r oid c')
  then show ?case using chained_keep register_keeps by blast
next
  case (tr_start ins base log c r latest start c')
  then show ?case using chained_keep start_keeps by blast
next
  case (tr_complete ins base log c oid item c')
  then show ?case using chained_complete coord_trace_inv by blast
next
  case (tr_fail ins base log c oid item c')
  then show ?case by (auto simp: complete_def chained_def split: option.splits)
qed (auto simp: chained_def cancel_run_def mark_prospective_passed_def)

section \<open>Correctness\<close>

definition ex_item :: "string \<Rightarrow> integration_item" where
  "ex_item slc =
     \<lparr>it_run_id = ''r'', it_slice_id = slc, it_generation = Some 0, it_candidate_commit_oid = ''c'',
      it_prospective_checks_passed = True, it_repair = False, it_repair_decision_id = None,
      it_replaces_slice_id = None, it_original_generation = None\<rparr>"

text \<open>Two slices are accepted and integrated one after the other on top of the head \<open>h0\<close>.\<close>

definition ex_coord :: "integration_item list \<Rightarrow> integration_item option \<Rightarrow> string option \<Rightarrow> integration_coordinator"
  where
  "ex_coord queue active head =
     \<lparr>ic_queue = queue, ic_active = active,
      ic_verified_oids = (case head of None \<Rightarrow> Map.empty | Some h \<Rightarrow> [''r'' \<mapsto> h]), ic_cancelled_runs = {}\<rparr>"

lemma ex_coord_trace:
  "coord_trace [ex_item ''a'', ex_item ''b''] None
     [(ex_item ''a'', ''h0'', ''h1''), (ex_item ''b'', ''h1'', ''h2'')] (ex_coord [] None (Some ''h2''))"
proof -
  let ?a = "ex_item ''a''" and ?b = "ex_item ''b''"
  note simps = ex_coord_def enqueue_def start_next_def complete_def register_verified_head_def ex_item_def
  have "coord_trace [] None [] (ex_coord [] None None)"
    using tr_init by (simp add: coordinator_init_def ex_coord_def)
  then have "coord_trace [?a] None [] (ex_coord [?a] None None)"
    using tr_enqueue [of "[]" None "[]" "ex_coord [] None None" ?a True] by (simp add: simps)
  then have "coord_trace [?a, ?b] None [] (ex_coord [?a, ?b] None None)"
    using tr_enqueue [of "[?a]" None "[]" "ex_coord [?a] None None" ?b True] by (simp add: simps)
  then have "coord_trace [?a, ?b] (Some ''h0'') [] (ex_coord [?a, ?b] (Some ?a) (Some ''h0''))"
    using tr_start [of "[?a, ?b]" None "[]" _ "''r''" "Some ''h0''" "\<lparr>is_item = ?a, is_base_verified_oid = ''h0''\<rparr>"]
    by (simp add: simps)
  then have "coord_trace [?a, ?b] None [(?a, ''h0'', ''h1'')] (ex_coord [?b] None (Some ''h1''))"
    using tr_complete [of "[?a, ?b]" "Some ''h0''" "[]" _ "''h1''" ?a] by (simp add: simps)
  then have "coord_trace [?a, ?b] (Some ''h1'') [(?a, ''h0'', ''h1'')] (ex_coord [?b] (Some ?b) (Some ''h1''))"
    using tr_start [of "[?a, ?b]" None "[(?a, ''h0'', ''h1'')]" _ "''r''" None
        "\<lparr>is_item = ?b, is_base_verified_oid = ''h1''\<rparr>"] by (simp add: simps)
  then show ?thesis
    using tr_complete [of "[?a, ?b]" "Some ''h1''" "[(?a, ''h0'', ''h1'')]" _ "''h2''" ?b] by (simp add: simps)
qed

text \<open>C36: the integration channel is first in, first out. The integrated items followed by the queued
  ones are a subsequence of the accepted ones, and the item being integrated is the head of the queue, has
  passed its prospective checks and belongs to no cancelled Run.\<close>

theorem integration_in_order:
  assumes "coord_trace ins base log c"
  shows "subseq (map (mark_passed \<circ> fst) log @ map mark_passed (ic_queue c)) (map mark_passed ins)
    \<and> (case ic_active c of None \<Rightarrow> True
       | Some item \<Rightarrow> ic_queue c \<noteq> [] \<and> hd (ic_queue c) = item \<and> it_prospective_checks_passed item
           \<and> it_run_id item \<notin> ic_cancelled_runs c)"
  using coord_trace_fifo [OF assms] coord_trace_inv [OF assms]
  by (auto simp: pipeline_def coord_inv_def split: option.splits)

theorem integration_in_order_witness:
  "subseq [ex_item ''a'', ex_item ''b''] [ex_item ''a'', ex_item ''b'']"
  using integration_in_order [OF ex_coord_trace] by (simp add: mark_passed_def ex_coord_def ex_item_def)

text \<open>The successful integrations of a Run form one linear history. Each one starts from the head
  that the previous one of the same Run produced, and the recorded verified head is the last one produced;
  no other operation moves it.\<close>

theorem verified_heads_linear:
  assumes "coord_trace ins base log c"
  shows "successively (\<lambda>earlier later. snd earlier = fst later) (heads_of run_id log)
    \<and> (heads_of run_id log \<noteq> [] \<longrightarrow> latest_verified_oid c run_id = Some (snd (last (heads_of run_id log))))"
  using coord_trace_chained [OF assms, of run_id] by (simp add: chained_def latest_verified_oid_def)

theorem verified_heads_linear_witness:
  "latest_verified_oid (ex_coord [] None (Some ''h2'')) ''r'' = Some ''h2''"
  using verified_heads_linear [OF ex_coord_trace, of "''r''"] by (simp add: heads_of_def ex_item_def)

definition record_all :: "repair_retry_budget \<Rightarrow> string list \<Rightarrow> repair_retry_budget" where
  "record_all b keys = fold (\<lambda>key b. case record_retry b key of Inl _ \<Rightarrow> b | Inr (_, b') \<Rightarrow> b') keys b"

lemma record_all_attempts:
  assumes "0 \<le> rb_limit b" "\<And>k. 0 \<le> attempts_of b k \<and> attempts_of b k \<le> rb_limit b"
  shows "attempts_of (record_all b keys) key = min (rb_limit b) (attempts_of b key + int (count_list keys key))"
  using assms
proof (induction keys arbitrary: b)
  case Nil
  then show ?case by (simp add: record_all_def)
next
  case (Cons k keys)
  define b' where "b' = (case record_retry b k of Inl _ \<Rightarrow> b | Inr (_, b') \<Rightarrow> b')"
  have at: "attempts_of b' x = (if x = k \<and> attempts_of b k < rb_limit b then attempts_of b k + 1 else attempts_of b x)"
    and lim: "rb_limit b' = rb_limit b" for x
    by (auto simp: b'_def record_retry_def can_retry_def attempts_of_def)
  have "attempts_of (record_all b' keys) key
      = min (rb_limit b') (attempts_of b' key + int (count_list keys key))"
    using Cons.prems by (intro Cons.IH) (simp_all add: at lim)
  moreover have "record_all b (k # keys) = record_all b' keys" by (simp add: record_all_def b'_def)
  ultimately show ?case using Cons.prems(2) [of k] by (auto simp: at lim)
qed

text \<open>Whatever the order of the calls, a repair is retried exactly as often as it is recorded, up to
  the limit: further records raise and change nothing, and repairs do not share their counts.\<close>

theorem repair_retries_bounded:
  assumes "repair_budget_init limit = Inr b"
  shows "attempts_of (record_all b keys) key = min limit (int (count_list keys key))"
  using record_all_attempts [of b keys key] assms
  by (auto simp: repair_budget_init_def attempts_of_def split: if_splits)

theorem repair_retries_bounded_witness:
  "attempts_of (record_all \<lparr>rb_limit = 2, rb_attempts = Map.empty\<rparr> [''k'', ''j'', ''k'', ''k'']) ''k'' = 2"
  using repair_retries_bounded [of 2 _ "[''k'', ''j'', ''k'', ''k'']" "''k''"]
  by (simp add: repair_budget_init_def)

end
