(* ===== verification/Py_Float.thy ===== *)
theory Py_Float
  imports Prelude Complex_Main "HOL-Library.Log_Nat"
begin

text \<open>
  Python's true division of non-negative integers: the quotient rounded to the nearest binary64
  number, ties to even, subnormal results included; \<open>OverflowError\<close> when the result would not be
  finite. A finite float is represented by the rational number it stands for.
\<close>

section \<open>Definitions\<close>

definition round_half_even :: "rat \<Rightarrow> int" where
  "round_half_even q =
     (let f = \<lfloor>q\<rfloor>; r = q - of_int f
      in if r < 1 / 2 then f else if r > 1 / 2 then f + 1 else if even f then f else f + 1)"

text \<open>The binade of a quotient: the exponent \<open>k\<close> with \<open>2^k \<le> a / b < 2^(k+1)\<close>.\<close>

definition binade :: "int \<Rightarrow> int \<Rightarrow> int" where
  "binade a b =
     (let k = bitlen a - bitlen b
      in if 2 powi k \<le> (of_int a / of_int b :: rat) then k else k - 1)"

definition round_at :: "int \<Rightarrow> rat \<Rightarrow> rat" where
  "round_at k q = (let e = max (k - 52) (- 1074) in of_int (round_half_even (q / 2 powi e)) * 2 powi e)"

definition py_truediv :: "int \<Rightarrow> int \<Rightarrow> rat res" where
  "py_truediv a b =
     (if b = 0 then Inl (ZeroDivisionError ''division by zero'')
      else if a = 0 then Inr 0
      else let v = round_at (binade a b) (of_int a / of_int b)
           in if 2 ^ 1024 \<le> v then Inl (OverflowError ''integer division result too large for a float'')
              else Inr v)"

section \<open>Rounding\<close>

lemma round_half_even_int [simp]: "round_half_even (of_int n) = n"
  by (simp add: round_half_even_def)

lemma round_half_even_bounds:
  "q - 1 / 2 \<le> of_int (round_half_even q)" "of_int (round_half_even q) \<le> q + 1 / 2"
  by (auto simp: round_half_even_def Let_def; linarith)+

lemma round_half_even_mono: "p \<le> q \<Longrightarrow> round_half_even p \<le> round_half_even q"
proof -
  assume pq: "p \<le> q"
  then have f: "\<lfloor>p\<rfloor> \<le> \<lfloor>q\<rfloor>" by (rule floor_mono)
  have step: "\<lfloor>x\<rfloor> \<le> round_half_even x \<and> round_half_even x \<le> \<lfloor>x\<rfloor> + 1" for x
    by (simp add: round_half_even_def Let_def)
  show ?thesis
  proof (cases "\<lfloor>p\<rfloor> = \<lfloor>q\<rfloor>")
    case True
    with pq show ?thesis by (simp add: round_half_even_def Let_def)
  next
    case False
    with f have "\<lfloor>p\<rfloor> + 1 \<le> \<lfloor>q\<rfloor>" by simp
    then show ?thesis using step [of p] step [of q] by linarith
  qed
qed

lemma round_half_even_le: "q \<le> of_int n \<Longrightarrow> round_half_even q \<le> n"
  using round_half_even_mono [of q "of_int n"] by simp

lemma round_half_even_ge: "of_int n \<le> q \<Longrightarrow> n \<le> round_half_even q"
  using round_half_even_mono [of "of_int n" q] by simp

section \<open>Binades\<close>

lemma bitlen_powi:
  assumes "0 < x"
  shows "2 powi (bitlen x - 1) \<le> (of_int x :: rat)" "(of_int x :: rat) < 2 powi (bitlen x)"
proof -
  have pos: "1 \<le> bitlen x" using assms bitlen_eq_zero_iff [of x] bitlen_nonneg [of x] by linarith
  have eq: "(2 powi m :: rat) = of_int (2 ^ nat m)" if "0 \<le> m" for m
    using that by (simp add: power_int_nonneg_exp)
  from bitlen_bounds [OF assms] show "2 powi (bitlen x - 1) \<le> (of_int x :: rat)" "(of_int x :: rat) < 2 powi (bitlen x)"
    using pos by (simp_all only: eq of_int_le_iff of_int_less_iff)
qed

lemma binade_bounds:
  assumes "0 < a" "0 < b"
  shows "2 powi (binade a b) \<le> (of_int a / of_int b :: rat)" "(of_int a / of_int b :: rat) < 2 powi (binade a b + 1)"
proof -
  let ?k = "bitlen a - bitlen b"
  have b0: "(0 :: rat) < of_int b" using assms by simp
  have "(of_int a :: rat) < 2 powi (?k + 1) * of_int b"
  proof -
    have "(2 :: rat) powi bitlen a = 2 powi (?k + 1) * 2 powi (bitlen b - 1)"
      by (simp flip: power_int_add)
    also have "\<dots> \<le> 2 powi (?k + 1) * of_int b"
      using bitlen_powi(1) [OF assms(2)] by (intro mult_left_mono) auto
    finally show ?thesis using bitlen_powi(2) [OF assms(1)] by linarith
  qed
  then have up: "(of_int a / of_int b :: rat) < 2 powi (?k + 1)" using b0 by (simp add: field_simps)
  have "2 powi (?k - 1) * of_int b \<le> (of_int a :: rat)"
  proof -
    have "(2 :: rat) powi (?k - 1) * of_int b \<le> 2 powi (?k - 1) * 2 powi bitlen b"
      using bitlen_powi(2) [OF assms(2)] by (intro mult_left_mono) auto
    also have "\<dots> = 2 powi (bitlen a - 1)" by (simp flip: power_int_add)
    finally show ?thesis using bitlen_powi(1) [OF assms(1)] by linarith
  qed
  then have low: "2 powi (?k - 1) \<le> (of_int a / of_int b :: rat)" using b0 by (simp add: field_simps)
  show "2 powi (binade a b) \<le> (of_int a / of_int b :: rat)" "(of_int a / of_int b :: rat) < 2 powi (binade a b + 1)"
    using low up by (auto simp: binade_def Let_def)
qed

lemma powi_mono: "(2 :: rat) powi i \<le> 2 powi j \<longleftrightarrow> i \<le> j"
  by (metis linorder_not_less one_less_numeral_iff power_int_increasing power_int_strict_increasing
      semiring_norm(76) order_less_imp_le)

lemma binade_unique:
  assumes "0 < a" "0 < b" "2 powi k \<le> (of_int a / of_int b :: rat)" "(of_int a / of_int b :: rat) < 2 powi (k + 1)"
  shows "binade a b = k"
proof -
  note B = binade_bounds [OF assms(1,2)]
  have "(2 :: rat) powi k < 2 powi (binade a b + 1)" "(2 :: rat) powi binade a b < 2 powi (k + 1)"
    using B assms(3,4) by linarith+
  then have "\<not> binade a b + 1 \<le> k" "\<not> k + 1 \<le> binade a b" unfolding powi_mono [symmetric] by linarith+
  then show ?thesis by linarith
qed

section \<open>Monotone rounding\<close>

definition quot :: "int \<Rightarrow> int \<Rightarrow> rat" where
  "quot a b = round_at (binade a b) (of_int a / of_int b)"

lemma powi_of_int: "0 \<le> m \<Longrightarrow> (2 powi m :: rat) = of_int (2 ^ nat m)"
  by (simp add: power_int_nonneg_exp)

lemma round_at_le:
  assumes "q \<le> 2 powi j" "max (k - 52) (- 1074) \<le> j"
  shows "round_at k q \<le> 2 powi j"
proof -
  let ?e = "max (k - 52) (- 1074)"
  have p: "(0 :: rat) < 2 powi ?e" by simp
  have j: "(2 :: rat) powi j = 2 powi (j - ?e) * 2 powi ?e" by (simp flip: power_int_add)
  have i: "(2 powi (j - ?e) :: rat) = of_int (2 ^ nat (j - ?e))" using assms(2) by (intro powi_of_int) simp
  have "q / 2 powi ?e \<le> of_int (2 ^ nat (j - ?e))"
    using assms(1) p unfolding j i by (simp add: pos_divide_le_eq)
  then have "round_half_even (q / 2 powi ?e) \<le> 2 ^ nat (j - ?e)"
    by (rule round_half_even_le)
  then have "of_int (round_half_even (q / 2 powi ?e)) \<le> (2 powi (j - ?e) :: rat)"
    unfolding i by (simp only: of_int_le_iff)
  then show ?thesis using p unfolding round_at_def Let_def j by (intro mult_right_mono) auto
qed

lemma round_at_ge:
  assumes "2 powi j \<le> q" "max (k - 52) (- 1074) \<le> j"
  shows "2 powi j \<le> round_at k q"
proof -
  let ?e = "max (k - 52) (- 1074)"
  have p: "(0 :: rat) < 2 powi ?e" by simp
  have j: "(2 :: rat) powi j = 2 powi (j - ?e) * 2 powi ?e" by (simp flip: power_int_add)
  have i: "(2 powi (j - ?e) :: rat) = of_int (2 ^ nat (j - ?e))" using assms(2) by (intro powi_of_int) simp
  have "of_int (2 ^ nat (j - ?e)) \<le> q / 2 powi ?e"
    using assms(1) p unfolding j i by (simp add: pos_le_divide_eq)
  then have "2 ^ nat (j - ?e) \<le> round_half_even (q / 2 powi ?e)"
    by (rule round_half_even_ge)
  then have "(2 powi (j - ?e) :: rat) \<le> of_int (round_half_even (q / 2 powi ?e))"
    unfolding i by (simp only: of_int_le_iff)
  then show ?thesis using p unfolding round_at_def Let_def j by (intro mult_right_mono) auto
qed

lemma quot_ge_pow:
  assumes "0 < a" "0 < b" "2 powi j \<le> (of_int a / of_int b :: rat)" "- 1022 \<le> j"
  shows "2 powi j \<le> quot a b"
proof -
  note B = binade_bounds [OF assms(1,2)]
  have "(2 :: rat) powi j < 2 powi (binade a b + 1)" using B(2) assms(3) by linarith
  then have j: "j \<le> binade a b" using powi_mono [of "binade a b + 1" j] by linarith
  have "2 powi binade a b \<le> quot a b" unfolding quot_def using B(1) j assms(4) by (intro round_at_ge) auto
  moreover have "(2 :: rat) powi j \<le> 2 powi binade a b" using j by (simp add: powi_mono)
  ultimately show ?thesis by linarith
qed

lemma quot_le_pow:
  assumes "0 < a" "0 < b" "(of_int a / of_int b :: rat) \<le> 2 powi j" "- 1022 \<le> j"
  shows "quot a b \<le> 2 powi j"
proof -
  have "(2 :: rat) powi binade a b \<le> 2 powi j" using binade_bounds(1) [OF assms(1,2)] assms(3) by linarith
  then have "binade a b \<le> j" by (simp add: powi_mono)
  with assms(3,4) show ?thesis unfolding quot_def by (intro round_at_le) auto
qed

text \<open>Inside a binade the comparison with a float is a comparison of rounded significands.\<close>

lemma quot_in_binade:
  assumes "0 < a" "0 < b" "2 powi k \<le> (of_int a / of_int b :: rat)" "(of_int a / of_int b :: rat) < 2 powi (k + 1)"
    "- 1022 \<le> k"
  shows "quot a b = of_int (round_half_even (of_int a / of_int b * 2 powi (52 - k))) * 2 powi (k - 52)"
proof -
  have "binade a b = k" by (rule binade_unique [OF assms(1-4)])
  moreover have "(2 :: rat) powi (52 - k) = 1 / 2 powi (k - 52)"
    by (metis minus_diff_eq power_int_minus_divide)
  moreover have "max (k - 52) (- 1074) = k - 52" using assms(5) by linarith
  ultimately show ?thesis unfolding quot_def round_at_def Let_def by simp
qed

section \<open>Exact thresholds\<close>

text \<open>For operands of ordinary size a rounded quotient passes a threshold exactly when the exact one does.\<close>

lemma quot_ge_1:
  assumes "0 < a" "0 < b" "b \<le> 2 ^ 53"
  shows "1 \<le> quot a b \<longleftrightarrow> b \<le> a"
proof
  assume "b \<le> a"
  with assms show "1 \<le> quot a b" using quot_ge_pow [of a b 0] by simp
next
  assume one: "1 \<le> quot a b"
  show "b \<le> a"
  proof (rule ccontr)
    assume "\<not> b \<le> a"
    then have ab: "a + 1 \<le> b" by simp
    show False
    proof (cases "2 * a < b")
      case True
      then have "(of_int a / of_int b :: rat) \<le> 2 powi (- 1)"
        using assms by (simp add: field_simps power_int_minus flip: of_int_mult)
      then have "quot a b \<le> 2 powi (- 1)" using assms by (intro quot_le_pow) auto
      with one show False by (simp add: power_int_minus)
    next
      case False
      let ?q = "of_int a / of_int b :: rat"
      have "2 powi (- 1) \<le> ?q" "?q < 2 powi (- 1 + 1)"
        using False ab assms by (auto simp: field_simps power_int_minus simp flip: of_int_mult)
      then have "quot a b = of_int (round_half_even (?q * 2 ^ 53)) * 2 powi (- 53)"
        using quot_in_binade [of a b "- 1"] assms by simp
      moreover have "?q * 2 ^ 53 \<le> of_int (2 ^ 53 - 1)"
      proof -
        have "of_int a * 2 ^ 53 \<le> (of_int ((b - 1) * 2 ^ 53) :: rat)" using ab by simp
        also have "\<dots> \<le> of_int (b * (2 ^ 53 - 1))" using assms(3) by (simp only: of_int_le_iff) (simp add: algebra_simps)
        finally show ?thesis using assms(2) by (simp add: field_simps)
      qed
      then have "round_half_even (?q * 2 ^ 53) \<le> 2 ^ 53 - 1" by (rule round_half_even_le)
      ultimately show False using one by (simp add: power_int_minus field_simps)
    qed
  qed
qed

lemma quot_ge_half:
  assumes "0 < a" "0 < b" "b \<le> 2 ^ 53"
  shows "1 / 2 \<le> quot a b \<longleftrightarrow> b \<le> 2 * a"
proof
  assume "b \<le> 2 * a"
  then have "2 powi (- 1) \<le> (of_int a / of_int b :: rat)"
    using assms by (simp add: field_simps power_int_minus flip: of_int_mult)
  with assms show "1 / 2 \<le> quot a b" using quot_ge_pow [of a b "- 1"] by (simp add: power_int_minus)
next
  assume half: "1 / 2 \<le> quot a b"
  show "b \<le> 2 * a"
  proof (rule ccontr)
    assume "\<not> b \<le> 2 * a"
    then have ab: "2 * a + 1 \<le> b" by simp
    show False
    proof (cases "4 * a < b")
      case True
      then have "(of_int a / of_int b :: rat) \<le> 2 powi (- 2)"
        using assms by (simp add: field_simps power_int_minus flip: of_int_mult)
      then have "quot a b \<le> 2 powi (- 2)" using assms by (intro quot_le_pow) auto
      with half show False by (simp add: power_int_minus)
    next
      case False
      let ?q = "of_int a / of_int b :: rat"
      have "2 powi (- 2) \<le> ?q" "?q < 2 powi (- 2 + 1)"
        using False ab assms by (auto simp: field_simps power_int_minus simp flip: of_int_mult)
      then have "quot a b = of_int (round_half_even (?q * 2 ^ 54)) * 2 powi (- 54)"
        using quot_in_binade [of a b "- 2"] assms by simp
      moreover have "?q * 2 ^ 54 \<le> of_int (2 ^ 53 - 1)"
      proof -
        have "of_int (2 * a) * 2 ^ 53 \<le> (of_int ((b - 1) * 2 ^ 53) :: rat)" using ab by simp
        also have "\<dots> \<le> of_int (b * (2 ^ 53 - 1))" using assms(3) by (simp only: of_int_le_iff) (simp add: algebra_simps)
        finally show ?thesis using assms(2) by (simp add: field_simps)
      qed
      then have "round_half_even (?q * 2 ^ 54) \<le> 2 ^ 53 - 1" by (rule round_half_even_le)
      ultimately show False using half by (simp add: power_int_minus field_simps)
    qed
  qed
qed

lemma quot_le_2:
  assumes "0 < a" "0 < b" "b \<le> 2 ^ 51"
  shows "quot a b \<le> 2 \<longleftrightarrow> a \<le> 2 * b"
proof
  assume "a \<le> 2 * b"
  then have "(of_int a / of_int b :: rat) \<le> 2 powi 1"
    using assms by (simp add: field_simps flip: of_int_mult)
  with assms show "quot a b \<le> 2" using quot_le_pow [of a b 1] by simp
next
  assume two: "quot a b \<le> 2"
  show "a \<le> 2 * b"
  proof (rule ccontr)
    assume "\<not> a \<le> 2 * b"
    then have ab: "2 * b + 1 \<le> a" by simp
    show False
    proof (cases "4 * b \<le> a")
      case True
      then have "2 powi 2 \<le> (of_int a / of_int b :: rat)"
        using assms by (simp add: field_simps flip: of_int_mult)
      then have "2 powi 2 \<le> quot a b" using assms by (intro quot_ge_pow) auto
      with two show False by simp
    next
      case False
      let ?q = "of_int a / of_int b :: rat"
      have "2 powi 1 \<le> ?q" "?q < 2 powi (1 + 1)"
        using False ab assms by (auto simp: field_simps simp flip: of_int_mult)
      then have "quot a b = of_int (round_half_even (?q * 2 ^ 51)) * 2 powi (- 51)"
        using quot_in_binade [of a b 1] assms by simp
      moreover have "of_int (2 ^ 52 + 1) \<le> ?q * 2 ^ 51"
      proof -
        have "of_int (b * (2 ^ 52 + 1)) \<le> (of_int ((2 * b + 1) * 2 ^ 51) :: rat)"
          using assms(3) by (simp only: of_int_le_iff) (simp add: algebra_simps)
        also have "\<dots> \<le> of_int (a * 2 ^ 51)" using ab unfolding of_int_le_iff by (intro mult_right_mono) auto
        finally show ?thesis using assms(2) by (simp add: field_simps)
      qed
      then have "2 ^ 52 + 1 \<le> round_half_even (?q * 2 ^ 51)" by (rule round_half_even_ge)
      ultimately show False using two by (simp add: power_int_minus field_simps)
    qed
  qed
qed

text \<open>The literal \<^verbatim>\<open>0.8\<close>: the binary64 number nearest to four fifths, a little above it.\<close>

definition literal_0_8 :: rat where
  "literal_0_8 = 7205759403792794 / 2 ^ 53"

lemma round_four_fifths: "round_half_even (4 / 5 * 2 ^ 53) = 7205759403792794"
  by code_simp

lemma literal_0_8_quot: "literal_0_8 = quot 4 5"
proof -
  have "quot 4 5 = of_int (round_half_even (of_int 4 / of_int 5 * 2 powi (52 - (- 1)))) * 2 powi (- 1 - 52)"
    by (rule quot_in_binade) (simp_all add: power_int_minus)
  moreover have "of_int 4 / of_int 5 * 2 powi (52 - (- 1)) = (4 / 5 * 2 ^ 53 :: rat)" by simp
  ultimately show ?thesis using round_four_fifths by (simp add: literal_0_8_def power_int_minus)
qed

lemma quot_ge_0_8:
  assumes "0 < a" "0 < b" "b \<le> 2 ^ 51"
  shows "literal_0_8 \<le> quot a b \<longleftrightarrow> 4 * b \<le> 5 * a"
proof (cases "a < b \<and> b \<le> 2 * a")
  case True
  let ?q = "of_int a / of_int b :: rat"
  have "2 powi (- 1) \<le> ?q" "?q < 2 powi (- 1 + 1)"
    using True assms by (auto simp: field_simps power_int_minus simp flip: of_int_mult)
  then have q: "quot a b = of_int (round_half_even (?q * 2 ^ 53)) * 2 powi (- 53)"
    using quot_in_binade [of a b "- 1"] assms by simp
  have "literal_0_8 \<le> quot a b \<longleftrightarrow> (of_int 7205759403792794 :: rat) \<le> of_int (round_half_even (?q * 2 ^ 53))"
    unfolding q literal_0_8_def by (simp add: power_int_minus field_simps)
  also have "\<dots> \<longleftrightarrow> 7205759403792794 \<le> round_half_even (?q * 2 ^ 53)" by (rule of_int_le_iff)
  also have "\<dots> \<longleftrightarrow> 4 * b \<le> 5 * a"
  proof
    assume le: "4 * b \<le> 5 * a"
    then have "(of_int (4 * b) :: rat) \<le> of_int (5 * a)" by (simp only: of_int_le_iff)
    then have "4 / 5 * 2 ^ 53 \<le> ?q * 2 ^ 53" using assms(2) by (simp add: field_simps)
    from round_half_even_mono [OF this] show "7205759403792794 \<le> round_half_even (?q * 2 ^ 53)"
      unfolding round_four_fifths .
  next
    assume r: "7205759403792794 \<le> round_half_even (?q * 2 ^ 53)"
    show "4 * b \<le> 5 * a"
    proof (rule ccontr)
      assume "\<not> 4 * b \<le> 5 * a"
      then have "5 * a * 2 ^ 53 \<le> (4 * b - 1) * 2 ^ 53" by simp
      also have "\<dots> \<le> 5 * b * 7205759403792793" using assms(3) by simp
      finally have "a * 2 ^ 53 \<le> b * 7205759403792793" by simp
      then have "(of_int (a * 2 ^ 53) :: rat) \<le> of_int (b * 7205759403792793)" by (simp only: of_int_le_iff)
      then have "?q * 2 ^ 53 \<le> of_int 7205759403792793" using assms(2) by (simp add: field_simps)
      then have "round_half_even (?q * 2 ^ 53) \<le> 7205759403792793" by (rule round_half_even_le)
      with r show False by simp
    qed
  qed
  finally show ?thesis .
next
  case False
  show ?thesis
  proof (cases "b \<le> a")
    case True
    then have "1 \<le> quot a b" using quot_ge_1 assms by simp
    then show ?thesis using True assms by (simp add: literal_0_8_def field_simps)
  next
    case False
    with \<open>\<not> (a < b \<and> b \<le> 2 * a)\<close> have lt: "2 * a < b" by simp
    then have "(of_int a / of_int b :: rat) \<le> 2 powi (- 1)"
      using assms by (simp add: field_simps power_int_minus flip: of_int_mult)
    then have "quot a b \<le> 2 powi (- 1)" using assms by (intro quot_le_pow) auto
    then have "\<not> literal_0_8 \<le> quot a b" by (simp add: literal_0_8_def power_int_minus field_simps)
    moreover have "\<not> 4 * b \<le> 5 * a" using lt assms(1) by linarith
    ultimately show ?thesis by blast
  qed
qed

text \<open>The division itself.\<close>

lemma py_truediv_zero [simp]: "b \<noteq> 0 \<Longrightarrow> py_truediv 0 b = Inr 0"
  by (simp add: py_truediv_def)

lemma py_truediv_pos:
  assumes "0 < a" "0 < b" "a < 2 ^ 1023 * b"
  shows "py_truediv a b = Inr (quot a b)"
proof -
  have "(of_int a :: rat) \<le> of_int (2 ^ 1023 * b)" using assms(3) by (simp only: of_int_le_iff)
  then have "(of_int a / of_int b :: rat) \<le> 2 powi 1023" using assms(2) by (simp add: field_simps)
  then have "quot a b \<le> 2 powi 1023" using assms by (intro quot_le_pow) auto
  then have "\<not> 2 ^ 1024 \<le> quot a b" by simp
  then show ?thesis using assms unfolding py_truediv_def Let_def quot_def by simp
qed

end
