(* ===== verification/Budget.thy ===== *)
theory Budget
  imports Py_Float "HOL-Library.AList"
begin

text \<open>
  \<open>runtime/budget.py\<close>: the limits, the usage and the evaluation of a Run's budget, and the
  wallet that records usage receipts. The thresholds are compared on Python floats, so the
  quotients are those of \<open>py_truediv\<close>. The lock of the wallet only serialises its operations;
  each is one step here.
\<close>

section \<open>Limits and usage\<close>

record budget_limits =
  bl_input_tokens :: int
  bl_output_tokens :: int
  bl_cost_micros :: int

record budget_usage =
  bu_input_tokens :: int
  bu_output_tokens :: int
  bu_cost_micros :: int

record token_usage =
  tu_input_tokens :: int
  tu_output_tokens :: int
  tu_cost_micros :: int

definition non_negative :: "int \<Rightarrow> string \<Rightarrow> int res" where
  "non_negative value name =
     (if value < 0 then Inl (ValueError (name @ '' must be a non-negative integer'')) else Inr value)"

definition limits_init :: "int \<Rightarrow> int \<Rightarrow> int \<Rightarrow> budget_limits res" where
  "limits_init i out c =
     (let check = (\<lambda>value name k. case non_negative value name of
             Inl e \<Rightarrow> Inl e
           | Inr v \<Rightarrow> if v = 0 then Inl (ValueError (name @ '' must be greater than zero'')) else k)
      in check i ''input_tokens'' (check out ''output_tokens'' (check c ''cost_micros''
           (Inr \<lparr>bl_input_tokens = i, bl_output_tokens = out, bl_cost_micros = c\<rparr>))))"

definition usage_init :: "int \<Rightarrow> int \<Rightarrow> int \<Rightarrow> budget_usage res" where
  "usage_init i out c =
     (case non_negative i ''input_tokens'' of Inl e \<Rightarrow> Inl e | Inr _ \<Rightarrow>
      (case non_negative out ''output_tokens'' of Inl e \<Rightarrow> Inl e | Inr _ \<Rightarrow>
       (case non_negative c ''cost_micros'' of Inl e \<Rightarrow> Inl e | Inr _ \<Rightarrow>
          Inr \<lparr>bu_input_tokens = i, bu_output_tokens = out, bu_cost_micros = c\<rparr>)))"

definition token_usage_init :: "int \<Rightarrow> int \<Rightarrow> int \<Rightarrow> token_usage res" where
  "token_usage_init i out c =
     (if min i (min out c) < 0 then Inl (ValueError ''usage values must not be negative'')
      else Inr \<lparr>tu_input_tokens = i, tu_output_tokens = out, tu_cost_micros = c\<rparr>)"

section \<open>Evaluation\<close>

record budget_evaluation =
  be_usage :: budget_usage
  be_utilization :: rat
  be_warning :: bool
  be_exhausted :: bool

text \<open>\<open>max(input / limit, output / limit, cost / limit)\<close>.\<close>

definition utilization_of :: "budget_usage \<Rightarrow> budget_limits \<Rightarrow> rat res" where
  "utilization_of u l =
     (case py_truediv (bu_input_tokens u) (bl_input_tokens l) of Inl e \<Rightarrow> Inl e | Inr x \<Rightarrow>
      (case py_truediv (bu_output_tokens u) (bl_output_tokens l) of Inl e \<Rightarrow> Inl e | Inr y \<Rightarrow>
       (case py_truediv (bu_cost_micros u) (bl_cost_micros l) of Inl e \<Rightarrow> Inl e | Inr z \<Rightarrow>
          Inr (max x (max y z)))))"

definition evaluate_budget ::
  "budget_usage \<Rightarrow> budget_limits \<Rightarrow> int \<Rightarrow> int \<Rightarrow> int \<Rightarrow> bool \<Rightarrow> budget_evaluation res" where
  "evaluate_budget previous limits i out c warning_already_emitted =
     (case non_negative i ''input_tokens'' of Inl e \<Rightarrow> Inl e | Inr di \<Rightarrow>
      (case non_negative out ''output_tokens'' of Inl e \<Rightarrow> Inl e | Inr dout \<Rightarrow>
       (case non_negative c ''cost_micros'' of Inl e \<Rightarrow> Inl e | Inr dc \<Rightarrow>
        (case usage_init (bu_input_tokens previous + di) (bu_output_tokens previous + dout)
               (bu_cost_micros previous + dc) of Inl e \<Rightarrow> Inl e | Inr usage \<Rightarrow>
         (case utilization_of usage limits of Inl e \<Rightarrow> Inl e | Inr utilization \<Rightarrow>
            Inr \<lparr>be_usage = usage, be_utilization = utilization,
                 be_warning = (\<not> warning_already_emitted \<and> literal_0_8 \<le> utilization),
                 be_exhausted = (1 \<le> utilization)\<rparr>)))))"

section \<open>The wallet\<close>

record run_wallet =
  rw_limits :: budget_limits
  rw_usage :: budget_usage
  rw_receipt_ids :: "string set"

definition wallet_init :: "budget_limits \<Rightarrow> run_wallet" where
  "wallet_init limits =
     \<lparr>rw_limits = limits,
      rw_usage = \<lparr>bu_input_tokens = 0, bu_output_tokens = 0, bu_cost_micros = 0\<rparr>, rw_receipt_ids = {}\<rparr>"

definition is_exhausted :: "run_wallet \<Rightarrow> budget_usage \<Rightarrow> bool res" where
  "is_exhausted w usage = map_sum id (\<lambda>u. 1 \<le> u) (utilization_of usage (rw_limits w))"

definition wallet_admit :: "run_wallet \<Rightarrow> bool res" where
  "wallet_admit w = map_sum id Not (is_exhausted w (rw_usage w))"

definition wallet_record :: "run_wallet \<Rightarrow> string \<Rightarrow> token_usage \<Rightarrow> (bool \<times> run_wallet) res" where
  "wallet_record w receipt_id usage =
     (if receipt_id = [] then Inl (TypeError ''wallet requires a typed usage receipt'')
      else if receipt_id \<in> rw_receipt_ids w
      then map_sum id (\<lambda>x. (\<not> x, w)) (is_exhausted w (rw_usage w))
      else case evaluate_budget (rw_usage w) (rw_limits w) (tu_input_tokens usage) (tu_output_tokens usage)
                  (tu_cost_micros usage) False of
             Inl e \<Rightarrow> Inl e
           | Inr ev \<Rightarrow> Inr (\<not> be_exhausted ev,
               w\<lparr>rw_receipt_ids := insert receipt_id (rw_receipt_ids w), rw_usage := be_usage ev\<rparr>))"

section \<open>Thresholds\<close>

definition limits_ok :: "budget_limits \<Rightarrow> bool" where
  "limits_ok l \<longleftrightarrow> bl_input_tokens l \<in> {1..2 ^ 51} \<and> bl_output_tokens l \<in> {1..2 ^ 51} \<and> bl_cost_micros l \<in> {1..2 ^ 51}"

definition usage_ok :: "budget_usage \<Rightarrow> bool" where
  "usage_ok u \<longleftrightarrow> bu_input_tokens u \<in> {0..2 ^ 1000} \<and> bu_output_tokens u \<in> {0..2 ^ 1000} \<and> bu_cost_micros u \<in> {0..2 ^ 1000}"

definition over_limit :: "budget_usage \<Rightarrow> budget_limits \<Rightarrow> bool" where
  "over_limit u l \<longleftrightarrow> bl_input_tokens l \<le> bu_input_tokens u \<or> bl_output_tokens l \<le> bu_output_tokens u
     \<or> bl_cost_micros l \<le> bu_cost_micros u"

definition near_limit :: "budget_usage \<Rightarrow> budget_limits \<Rightarrow> bool" where
  "near_limit u l \<longleftrightarrow> 4 * bl_input_tokens l \<le> 5 * bu_input_tokens u
     \<or> 4 * bl_output_tokens l \<le> 5 * bu_output_tokens u \<or> 4 * bl_cost_micros l \<le> 5 * bu_cost_micros u"

lemma truediv_small:
  assumes "a \<in> {0..2 ^ 1000}" "b \<in> {1..2 ^ 51}"
  obtains x where "py_truediv a b = Inr x" "1 \<le> x \<longleftrightarrow> b \<le> a" "literal_0_8 \<le> x \<longleftrightarrow> 4 * b \<le> 5 * a"
proof (cases "a = 0")
  case True
  with assms show ?thesis by (intro that [of 0]) (auto simp: literal_0_8_def)
next
  case False
  with assms have ab: "0 < a" "0 < b" "b \<le> 2 ^ 51" by auto
  have "a \<le> 2 ^ 1000" using assms(1) by simp
  also have "(2 ^ 1000 :: int) < 2 ^ 1023 * 1" by (simp only: mult_1_right) (rule power_strict_increasing; simp)
  also have "\<dots> \<le> 2 ^ 1023 * b" using ab by (intro mult_left_mono) auto
  finally have "py_truediv a b = Inr (quot a b)" using ab by (intro py_truediv_pos)
  moreover have "b \<le> 2 ^ 53" using ab(3) by simp
  ultimately show ?thesis using ab by (intro that [of "quot a b"]) (simp_all add: quot_ge_1 quot_ge_0_8)
qed

lemma utilization_small:
  assumes "usage_ok u" "limits_ok l"
  obtains x where "utilization_of u l = Inr x" "1 \<le> x \<longleftrightarrow> over_limit u l" "literal_0_8 \<le> x \<longleftrightarrow> near_limit u l"
proof -
  note small = assms [unfolded usage_ok_def limits_ok_def]
  obtain x where x: "py_truediv (bu_input_tokens u) (bl_input_tokens l) = Inr x"
    "1 \<le> x \<longleftrightarrow> bl_input_tokens l \<le> bu_input_tokens u" "literal_0_8 \<le> x \<longleftrightarrow> 4 * bl_input_tokens l \<le> 5 * bu_input_tokens u"
    using small by (elim conjE) (rule truediv_small)
  obtain y where y: "py_truediv (bu_output_tokens u) (bl_output_tokens l) = Inr y"
    "1 \<le> y \<longleftrightarrow> bl_output_tokens l \<le> bu_output_tokens u" "literal_0_8 \<le> y \<longleftrightarrow> 4 * bl_output_tokens l \<le> 5 * bu_output_tokens u"
    using small by (elim conjE) (rule truediv_small)
  obtain z where z: "py_truediv (bu_cost_micros u) (bl_cost_micros l) = Inr z"
    "1 \<le> z \<longleftrightarrow> bl_cost_micros l \<le> bu_cost_micros u" "literal_0_8 \<le> z \<longleftrightarrow> 4 * bl_cost_micros l \<le> 5 * bu_cost_micros u"
    using small by (elim conjE) (rule truediv_small)
  show ?thesis
    by (rule that [of "max x (max y z)"])
       (simp_all add: utilization_of_def x(1) y(1) z(1) le_max_iff_disj over_limit_def near_limit_def
         x(2,3) y(2,3) z(2,3))
qed

section \<open>Correctness\<close>

lemma evaluate_budget_ok:
  assumes "evaluate_budget previous limits i out c emitted = Inr ev"
  shows "be_usage ev = \<lparr>bu_input_tokens = bu_input_tokens previous + i,
           bu_output_tokens = bu_output_tokens previous + out, bu_cost_micros = bu_cost_micros previous + c\<rparr>"
    "utilization_of (be_usage ev) limits = Inr (be_utilization ev)"
    "be_warning ev \<longleftrightarrow> \<not> emitted \<and> literal_0_8 \<le> be_utilization ev" "be_exhausted ev \<longleftrightarrow> 1 \<le> be_utilization ev"
    "0 \<le> i" "0 \<le> out" "0 \<le> c"
  using assms
  by (auto simp: evaluate_budget_def usage_init_def non_negative_def split: sum.splits if_splits)

text \<open>C37: for limits up to \<open>2^51\<close> the floating-point thresholds are exact: the warning is raised
  exactly when some dimension has reached four fifths of its limit (and none was raised before), the breaker
  exactly when some dimension has reached its limit.\<close>

theorem evaluate_budget_exact:
  assumes "limits_ok limits" "evaluate_budget previous limits i out c emitted = Inr ev" "usage_ok (be_usage ev)"
  shows "(be_warning ev \<longleftrightarrow> \<not> emitted \<and> near_limit (be_usage ev) limits)
    \<and> (be_exhausted ev \<longleftrightarrow> over_limit (be_usage ev) limits)"
proof -
  obtain x where "utilization_of (be_usage ev) limits = Inr x" "1 \<le> x \<longleftrightarrow> over_limit (be_usage ev) limits"
    "literal_0_8 \<le> x \<longleftrightarrow> near_limit (be_usage ev) limits"
    by (rule utilization_small [OF assms(3,1)])
  then show ?thesis using evaluate_budget_ok(2-4) [OF assms(2)] by simp
qed

definition ex_limits :: budget_limits where
  "ex_limits = \<lparr>bl_input_tokens = 100, bl_output_tokens = 50, bl_cost_micros = 1000\<rparr>"

definition ex_usage :: budget_usage where
  "ex_usage = \<lparr>bu_input_tokens = 79, bu_output_tokens = 1, bu_cost_micros = 0\<rparr>"

theorem evaluate_budget_exact_witness:
  "\<exists>ev. evaluate_budget ex_usage ex_limits 1 0 0 False = Inr ev \<and> be_warning ev \<and> \<not> be_exhausted ev"
proof -
  let ?u = "\<lparr>bu_input_tokens = 80, bu_output_tokens = 1, bu_cost_micros = 0\<rparr>"
  have ok: "limits_ok ex_limits" "usage_ok ?u" by (simp_all add: limits_ok_def usage_ok_def ex_limits_def)
  obtain x where "utilization_of ?u ex_limits = Inr x" by (rule utilization_small [OF ok(2,1)])
  then obtain ev where ev: "evaluate_budget ex_usage ex_limits 1 0 0 False = Inr ev" "be_usage ev = ?u"
    by (simp add: evaluate_budget_def usage_init_def non_negative_def ex_usage_def)
  with evaluate_budget_exact [OF ok(1) ev(1)] ok show ?thesis
    by (intro exI [of _ ev]) (simp add: near_limit_def over_limit_def ex_limits_def)
qed

text \<open>A sequence of receipts, the first exception ending it.\<close>

fun record_receipts :: "run_wallet \<Rightarrow> (string \<times> token_usage) list \<Rightarrow> run_wallet res" where
  "record_receipts w [] = Inr w"
| "record_receipts w ((receipt_id, usage) # rest) =
     (case wallet_record w receipt_id usage of Inl e \<Rightarrow> Inl e | Inr (_, w') \<Rightarrow> record_receipts w' rest)"

definition fresh_receipts :: "string set \<Rightarrow> (string \<times> token_usage) list \<Rightarrow> token_usage list" where
  "fresh_receipts seen receipts = map snd (filter (\<lambda>r. fst r \<notin> seen) (AList.clearjunk receipts))"

lemma fresh_receipts_Nil [simp]: "fresh_receipts seen [] = []"
  by (simp add: fresh_receipts_def)

lemma clearjunk_restrict:
  "filter (\<lambda>r. fst r \<notin> seen) (AList.clearjunk (filter (\<lambda>(k', _). k \<noteq> k') ps))
     = filter (\<lambda>r. fst r \<notin> insert k seen) (AList.clearjunk ps)"
proof -
  have "AList.clearjunk (AList.delete k ps) = AList.delete k (AList.clearjunk ps)"
    by (rule AList.clearjunk_delete)
  then have "AList.clearjunk (filter (\<lambda>(k', _). k \<noteq> k') ps) = filter (\<lambda>(k', _). k \<noteq> k') (AList.clearjunk ps)"
    by (simp add: AList.delete_eq)
  then show ?thesis by (auto intro!: filter_cong)
qed

lemma fresh_receipts_Cons:
  "fresh_receipts seen ((k, u) # ps) =
     (if k \<in> seen then fresh_receipts seen ps else u # fresh_receipts (insert k seen) ps)"
proof -
  have "filter (\<lambda>r. fst r \<notin> seen) (AList.clearjunk (AList.delete k ps))
      = filter (\<lambda>r. fst r \<notin> insert k seen) (AList.clearjunk ps)"
    unfolding AList.delete_eq by (rule clearjunk_restrict)
  then show ?thesis by (simp add: fresh_receipts_def insert_absorb del: insert_iff)
qed

definition add_usage :: "budget_usage \<Rightarrow> token_usage \<Rightarrow> budget_usage" where
  "add_usage u t =
     \<lparr>bu_input_tokens = bu_input_tokens u + tu_input_tokens t,
      bu_output_tokens = bu_output_tokens u + tu_output_tokens t,
      bu_cost_micros = bu_cost_micros u + tu_cost_micros t\<rparr>"

lemma wallet_record_step:
  assumes "wallet_record w k u = Inr (b, w')"
  shows "rw_limits w' = rw_limits w" "rw_receipt_ids w' = insert k (rw_receipt_ids w)"
    "rw_usage w' = (if k \<in> rw_receipt_ids w then rw_usage w else add_usage (rw_usage w) u)"
  using assms
  by (auto simp: wallet_record_def add_usage_def evaluate_budget_ok(1) insert_absorb map_sum_def
      split: sum.splits if_splits)

lemma wallet_record_total:
  assumes "limits_ok (rw_limits w)" "k \<noteq> []" "usage_ok (rw_usage w)" "usage_ok (add_usage (rw_usage w) u)"
    "0 \<le> tu_input_tokens u" "0 \<le> tu_output_tokens u" "0 \<le> tu_cost_micros u"
  shows "\<exists>b w'. wallet_record w k u = Inr (b, w')"
proof -
  obtain x where x: "utilization_of (rw_usage w) (rw_limits w) = Inr x"
    by (rule utilization_small [OF assms(3,1)])
  obtain y where "utilization_of (add_usage (rw_usage w) u) (rw_limits w) = Inr y"
    by (rule utilization_small [OF assms(4,1)])
  moreover have "0 \<le> bu_input_tokens (rw_usage w)" "0 \<le> bu_output_tokens (rw_usage w)" "0 \<le> bu_cost_micros (rw_usage w)"
    using assms(3) by (simp_all add: usage_ok_def)
  ultimately have "\<exists>ev. evaluate_budget (rw_usage w) (rw_limits w) (tu_input_tokens u) (tu_output_tokens u)
      (tu_cost_micros u) False = Inr ev"
    using assms(5-7) by (simp add: evaluate_budget_def usage_init_def non_negative_def add_usage_def)
  with x assms(2) show ?thesis by (auto simp: wallet_record_def is_exhausted_def)
qed

lemma record_receipts_usage:
  "record_receipts w receipts = Inr w' \<Longrightarrow>
     rw_usage w' = foldl add_usage (rw_usage w) (fresh_receipts (rw_receipt_ids w) receipts)
     \<and> rw_limits w' = rw_limits w"
proof (induction w receipts rule: record_receipts.induct)
  case (2 w k u rest)
  from "2.prems" obtain b w1 where w1: "wallet_record w k u = Inr (b, w1)" "record_receipts w1 rest = Inr w'"
    by (auto split: sum.splits)
  note step = wallet_record_step [OF w1(1)]
  have "rw_usage w' = foldl add_usage (rw_usage w1) (fresh_receipts (rw_receipt_ids w1) rest)
      \<and> rw_limits w' = rw_limits w1"
    using "2.IH" w1 by simp
  then show ?case by (simp add: step fresh_receipts_Cons insert_absorb)
qed simp

text \<open>The wallet is idempotent. After any sequence of receipts its usage is the sum over the
  distinct receipt identifiers, each counted once with its first receipt.\<close>

theorem wallet_idempotent:
  assumes "record_receipts (wallet_init limits) receipts = Inr w"
  shows "rw_usage w = foldl add_usage \<lparr>bu_input_tokens = 0, bu_output_tokens = 0, bu_cost_micros = 0\<rparr>
    (map snd (AList.clearjunk receipts))"
  using record_receipts_usage [OF assms] by (simp add: wallet_init_def fresh_receipts_def)

theorem wallet_idempotent_witness:
  "\<exists>w. record_receipts (wallet_init ex_limits)
      [(''a'', \<lparr>tu_input_tokens = 1, tu_output_tokens = 2, tu_cost_micros = 3\<rparr>),
       (''a'', \<lparr>tu_input_tokens = 1, tu_output_tokens = 2, tu_cost_micros = 3\<rparr>)] = Inr w
    \<and> rw_usage w = \<lparr>bu_input_tokens = 1, bu_output_tokens = 2, bu_cost_micros = 3\<rparr>"
proof -
  let ?rs = "[(''a'', \<lparr>tu_input_tokens = 1, tu_output_tokens = 2, tu_cost_micros = 3\<rparr>),
       (''a'', \<lparr>tu_input_tokens = 1, tu_output_tokens = 2, tu_cost_micros = 3\<rparr>)]"
  let ?u = "\<lparr>tu_input_tokens = 1, tu_output_tokens = 2, tu_cost_micros = 3\<rparr>"
  have lim: "limits_ok ex_limits" by (simp add: limits_ok_def ex_limits_def)
  obtain b1 w1 where w1: "wallet_record (wallet_init ex_limits) ''a'' ?u = Inr (b1, w1)"
    using wallet_record_total [of "wallet_init ex_limits" "''a''" ?u] lim
    by (auto simp: wallet_init_def usage_ok_def add_usage_def)
  note step = wallet_record_step [OF w1]
  obtain b2 w2 where w2: "wallet_record w1 ''a'' ?u = Inr (b2, w2)"
    using wallet_record_total [of w1 "''a''" ?u] lim step
    by (auto simp: wallet_init_def usage_ok_def add_usage_def)
  have w: "record_receipts (wallet_init ex_limits) ?rs = Inr w2" by (simp add: w1 w2)
  with wallet_idempotent [OF w] show ?thesis by (intro exI [of _ w2]) (simp add: add_usage_def)
qed

end
