(* ===== verification/Verification_Checks.thy ===== *)
theory Verification_Checks
  imports Plan_Model "HOL-Library.Multiset"
begin

text \<open>
  \<open>verification/checks.py\<close> and the result models of \<open>core/models/verification.py\<close>: which
  checks a layer runs and on which test files, and the exact-set validation of what came back.
  The parameter \<open>invocation_digest\<close> is the SHA-256 of the canonical JSON of an invocation, and
  \<open>empty_digest\<close> that of the empty byte string.
\<close>

section \<open>Results\<close>

datatype diagnostic_target = FileLine string int | TestIdentity string | UnknownTarget

record diagnostic_mapping =
  dm_severity :: diagnostic_severity
  dm_target :: diagnostic_target
  dm_code :: string
  dm_message_hash :: string

record artifact_ref =
  ar_sha256 :: string
  ar_size :: int
  ar_media_type :: string

record check_result =
  cr_check_id :: uuid
  cr_invocation_hash :: string
  cr_status :: check_status
  cr_receipt_id :: uuid
  cr_stdout :: artifact_ref
  cr_stderr :: artifact_ref
  cr_diagnostics :: "diagnostic_mapping list"

record derived_verification_guard =
  all_required_checks_passed :: bool
  error_unknown_count :: nat

section \<open>Check selection\<close>

datatype verification_layer = LocalLayer | IntegrationLayer | FinalLayer

record check_command_template =
  ct_action :: check_action
  ct_program :: string
  ct_argv :: "string list"
  ct_timeout_secs :: int

record check_spec =
  sp_required_check :: required_check
  sp_template :: check_command_template
  sp_invocation_hash :: string
  sp_layer :: verification_layer
  sp_test_files :: "string list"

definition sp_check_id :: "check_spec \<Rightarrow> uuid" where
  "sp_check_id s = rc_id (sp_required_check s)"

definition should_skip_empty_test :: "check_spec \<Rightarrow> bool" where
  "should_skip_empty_test s \<longleftrightarrow> rc_action (sp_required_check s) = Test \<and> sp_test_files s = []"

text \<open>A plain result, a typed empty-set receipt, or a result with its disposition, generated and
  low-quality annotations.\<close>

datatype result_evidence =
    PlainResult check_result
  | SkippedEmptyResult check_result string
  | CheckResultEvidence check_result "string option" bool bool

definition eligible_test_files ::
  "string list \<Rightarrow> (string \<times> uuid set) list \<Rightarrow> uuid set \<Rightarrow> bool \<Rightarrow> string list res" where
  "eligible_test_files test_files coverage integrated require_coverage =
     map_sum id (filter (\<lambda>path.
         if require_coverage
         then (case map_of coverage path of None \<Rightarrow> False | Some slices \<Rightarrow> slices \<subseteq> integrated)
         else True))
       (normalize_repo_relative_paths test_files)"

fun allowed_actions :: "verification_layer \<Rightarrow> check_action list" where
  "allowed_actions LocalLayer = [Compile, TypeCheck]"
| "allowed_actions IntegrationLayer = [Compile, Lint, TypeCheck, Test]"
| "allowed_actions FinalLayer = [Test]"

fun coverage_table :: "(string \<times> uuid set) list \<Rightarrow> (string \<times> uuid set) list res" where
  "coverage_table [] = Inr []"
| "coverage_table ((path, slices) # rest) =
     (case validate_repo_relative_path path of
        Inl e \<Rightarrow> Inl e
      | Inr q \<Rightarrow> map_sum id (\<lambda>table. (q, slices) # table) (coverage_table rest))"

fun build_specs ::
  "(required_check \<Rightarrow> check_command_template \<Rightarrow> string) \<Rightarrow> verification_layer
     \<Rightarrow> (string \<rightharpoonup> check_command_template) \<Rightarrow> string list \<Rightarrow> required_check list \<Rightarrow> check_spec list res" where
  "build_specs invocation_digest layer templates eligible [] = Inr []"
| "build_specs invocation_digest layer templates eligible (required # rest) =
     (if rc_action required \<notin> set (allowed_actions layer)
      then build_specs invocation_digest layer templates eligible rest
      else case templates (rc_template_sha256 required) of
             None \<Rightarrow> Inl (ValueError (''missing descriptor template: '' @ rc_template_sha256 required))
           | Some template \<Rightarrow>
               if ct_action template \<noteq> rc_action required
               then Inl (ValueError (''descriptor template action mismatch: '' @ str_uuid (rc_id required)))
               else map_sum id (\<lambda>specs.
                   \<lparr>sp_required_check = required, sp_template = template,
                    sp_invocation_hash = invocation_digest required template, sp_layer = layer,
                    sp_test_files = (if rc_action required = Test then eligible else [])\<rparr> # specs)
                 (build_specs invocation_digest layer templates eligible rest))"

definition coverage_error :: "string list \<Rightarrow> (string \<times> uuid set) list \<Rightarrow> py_exn option" where
  "coverage_error files coverage =
     (let missing = filter (\<lambda>f. map_of coverage f = None) files;
          empty = filter (\<lambda>f. map_of coverage f = Some {}) files
      in if missing \<noteq> []
         then Some (ValueError (''integration test coverage mapping is missing: '' @ join_with '', '' (sorted_set missing)))
         else if empty \<noteq> []
         then Some (ValueError (''integration test coverage mapping is empty: '' @ join_with '', '' (sort empty)))
         else None)"

definition instantiate_checks ::
  "(required_check \<Rightarrow> check_command_template \<Rightarrow> string) \<Rightarrow> verification_layer \<Rightarrow> required_check list
     \<Rightarrow> (string \<rightharpoonup> check_command_template) \<Rightarrow> string list \<Rightarrow> (string \<times> uuid set) list option \<Rightarrow> uuid set
     \<Rightarrow> check_spec list res" where
  "instantiate_checks invocation_digest layer required_checks templates test_files test_coverage integrated =
     (case normalize_repo_relative_paths test_files of Inl e \<Rightarrow> Inl e | Inr files \<Rightarrow>
      (let needs_test_coverage = list_ex (\<lambda>r. rc_action r = Test) required_checks
       in if layer = IntegrationLayer \<and> needs_test_coverage \<and> files \<noteq> [] \<and> test_coverage = None
          then Inl (ValueError ''integration test coverage mapping is required for non-empty test files'')
          else (case coverage_table (case test_coverage of None \<Rightarrow> [] | Some c \<Rightarrow> c) of Inl e \<Rightarrow> Inl e | Inr table \<Rightarrow>
            (let coverage = py_dict table
             in case eligible_test_files files coverage integrated (layer = IntegrationLayer) of Inl e \<Rightarrow> Inl e
                | Inr eligible \<Rightarrow>
                    (case (if layer = IntegrationLayer \<and> needs_test_coverage
                           then coverage_error files coverage else None) of
                       Some e \<Rightarrow> Inl e
                     | None \<Rightarrow> map_sum id (sort_key (\<lambda>s. str_uuid (sp_check_id s)))
                         (build_specs invocation_digest layer templates eligible required_checks))))))"

definition empty_artifact :: "string \<Rightarrow> artifact_ref" where
  "empty_artifact empty_digest =
     \<lparr>ar_sha256 = empty_digest, ar_size = 0, ar_media_type = ''application/octet-stream''\<rparr>"

definition make_skipped_empty_result :: "string \<Rightarrow> check_spec \<Rightarrow> uuid \<Rightarrow> result_evidence res" where
  "make_skipped_empty_result empty_digest spec receipt_id =
     (if rc_action (sp_required_check spec) \<noteq> Test
      then Inl (ValueError ''SkippedEmpty is only valid for a Test check'')
      else if sp_layer spec \<notin> set [IntegrationLayer, FinalLayer]
      then Inl (ValueError ''SkippedEmpty is only valid for Integration or Final Test checks'')
      else if sp_test_files spec \<noteq> []
      then Inl (ValueError ''SkippedEmpty requires an empty test set'')
      else Inr (SkippedEmptyResult
        \<lparr>cr_check_id = sp_check_id spec, cr_invocation_hash = sp_invocation_hash spec, cr_status = Passed,
         cr_receipt_id = receipt_id, cr_stdout = empty_artifact empty_digest,
         cr_stderr = empty_artifact empty_digest, cr_diagnostics = []\<rparr> ''SkippedEmpty''))"

section \<open>Exact-set validation\<close>

fun unwrap_result :: "result_evidence \<Rightarrow> check_result" where
  "unwrap_result (PlainResult r) = r"
| "unwrap_result (SkippedEmptyResult r _) = r"
| "unwrap_result (CheckResultEvidence r _ _ _) = r"

fun result_disposition :: "result_evidence \<Rightarrow> string option" where
  "result_disposition (PlainResult _) = None"
| "result_disposition (SkippedEmptyResult _ d) = Some d"
| "result_disposition (CheckResultEvidence _ d _ _) = d"

record check_set_validation =
  cv_errors :: "stable_error_code list"
  cv_guard :: derived_verification_guard
  cv_invalid_typed_result_count :: nat

definition typed_result_invalid :: "check_spec \<Rightarrow> result_evidence \<Rightarrow> bool" where
  "typed_result_invalid spec original =
     (let disposition = result_disposition original; result = unwrap_result original
      in if disposition \<notin> set [None, Some ''SkippedEmpty''] then True
         else if disposition = Some ''SkippedEmpty''
         then rc_action (sp_required_check spec) \<noteq> Test \<or> sp_test_files spec \<noteq> []
              \<or> cr_status result \<noteq> Passed \<or> cr_diagnostics result \<noteq> []
         else should_skip_empty_test spec)"

definition is_unknown_error :: "diagnostic_mapping \<Rightarrow> bool" where
  "is_unknown_error d \<longleftrightarrow> dm_severity d = SevError \<and> dm_target d = UnknownTarget"

definition validate_check_results :: "check_spec list \<Rightarrow> result_evidence list \<Rightarrow> check_set_validation" where
  "validate_check_results specs results =
     (let expected = map_of (py_dict (map (\<lambda>s. (sp_check_id s, s)) specs));
          unwrapped = map unwrap_result results;
          ids = map cr_check_id unwrapped;
          errors =
            (if \<not> distinct ids \<or> \<not> distinct (map sp_check_id specs) then [CHECK_DUPLICATE] else [])
            @ (if list_ex (\<lambda>s. sp_check_id s \<notin> set ids) specs then [CHECK_MISSING] else [])
            @ (if list_ex (\<lambda>i. expected i = None) ids then [CHECK_UNEXPECTED] else [])
            @ (if list_ex (\<lambda>r. case expected (cr_check_id r) of
                     None \<Rightarrow> False | Some s \<Rightarrow> cr_invocation_hash r \<noteq> sp_invocation_hash s) unwrapped
               then [INVOCATION_HASH_MISMATCH] else []);
          invalid = length (filter (\<lambda>r. case expected (cr_check_id (unwrap_result r)) of
                     None \<Rightarrow> False | Some s \<Rightarrow> typed_result_invalid s r) results);
          unknown = length (filter is_unknown_error (concat (map cr_diagnostics unwrapped)));
          all_passed = (errors = [] \<and> invalid = 0 \<and> length results = length specs \<and> unknown = 0
            \<and> list_all (\<lambda>r. cr_status r = Passed) unwrapped)
      in \<lparr>cv_errors = errors,
          cv_guard = \<lparr>all_required_checks_passed = all_passed, error_unknown_count = unknown\<rparr>,
          cv_invalid_typed_result_count = invalid\<rparr>)"

section \<open>Correctness\<close>

text \<open>What one result has to be for its check.\<close>

definition result_good :: "check_spec \<Rightarrow> result_evidence \<Rightarrow> bool" where
  "result_good spec r \<longleftrightarrow>
     cr_check_id (unwrap_result r) = sp_check_id spec \<and> cr_invocation_hash (unwrap_result r) = sp_invocation_hash spec
     \<and> cr_status (unwrap_result r) = Passed \<and> \<not> typed_result_invalid spec r
     \<and> \<not> list_ex is_unknown_error (cr_diagnostics (unwrap_result r))"

lemma expected_spec:
  assumes "distinct (map sp_check_id specs)"
  shows "map_of (py_dict (map (\<lambda>s. (sp_check_id s, s)) specs)) i = Some s \<longleftrightarrow> s \<in> set specs \<and> sp_check_id s = i"
proof -
  have d: "distinct (map fst (map (\<lambda>s. (sp_check_id s, s)) specs))" using assms by (simp add: comp_def)
  show ?thesis unfolding py_dict_id [OF d] map_of_eq_Some_iff [OF d] by auto
qed

lemma expected_None:
  "map_of (py_dict (map (\<lambda>s. (sp_check_id s, s)) specs)) i = None \<longleftrightarrow> i \<notin> sp_check_id ` set specs"
  by (simp add: map_of_eq_None_iff image_image del: map_of_py_dict)

text \<open>C38: the guard reports that all required checks passed exactly when results and checks match one
  to one by identifier and every result carries its check's invocation hash, is \<open>Passed\<close>, reports no
  error with an unknown target, and is an empty-set receipt exactly for a test check without files.\<close>

theorem guard_exact_set:
  "all_required_checks_passed (cv_guard (validate_check_results specs results)) \<longleftrightarrow>
     distinct (map sp_check_id specs)
     \<and> distinct (map (cr_check_id \<circ> unwrap_result) results)
     \<and> sp_check_id ` set specs = (cr_check_id \<circ> unwrap_result) ` set results
     \<and> (\<forall>r \<in> set results. \<exists>spec \<in> set specs. result_good spec r)"
  (is "?guard \<longleftrightarrow> ?D \<and> ?U \<and> ?S \<and> ?G")
proof -
  let ?id = "cr_check_id \<circ> unwrap_result"
  let ?exp = "map_of (py_dict (map (\<lambda>s. (sp_check_id s, s)) specs))"
  define exp where "exp = ?exp"
  let ?rs = "map unwrap_result results"
  have raw: "?guard \<longleftrightarrow> ?D \<and> distinct (map cr_check_id ?rs)
      \<and> \<not> list_ex (\<lambda>s. sp_check_id s \<notin> set (map cr_check_id ?rs)) specs
      \<and> \<not> list_ex (\<lambda>i. exp i = None) (map cr_check_id ?rs)
      \<and> \<not> list_ex (\<lambda>r. case exp (cr_check_id r) of None \<Rightarrow> False
                            | Some s \<Rightarrow> cr_invocation_hash r \<noteq> sp_invocation_hash s) ?rs
      \<and> filter (\<lambda>r. case exp (cr_check_id (unwrap_result r)) of None \<Rightarrow> False
                         | Some s \<Rightarrow> typed_result_invalid s r) results = []
      \<and> length results = length specs \<and> filter is_unknown_error (concat (map cr_diagnostics ?rs)) = []
      \<and> list_all (\<lambda>r. cr_status r = Passed) ?rs"
    unfolding validate_check_results_def Let_def exp_def by auto
  have guard: "?guard \<longleftrightarrow> ?D \<and> ?U \<and> (\<forall>s \<in> set specs. sp_check_id s \<in> ?id ` set results)
      \<and> (\<forall>r \<in> set results. exp (?id r) \<noteq> None)
      \<and> (\<forall>r \<in> set results. \<forall>s. exp (?id r) = Some s
           \<longrightarrow> cr_invocation_hash (unwrap_result r) = sp_invocation_hash s)
      \<and> (\<forall>r \<in> set results. \<forall>s. exp (?id r) = Some s \<longrightarrow> \<not> typed_result_invalid s r)
      \<and> length results = length specs
      \<and> (\<forall>r \<in> set results. \<not> list_ex is_unknown_error (cr_diagnostics (unwrap_result r)))
      \<and> (\<forall>r \<in> set results. cr_status (unwrap_result r) = Passed)"
    unfolding raw list_ex_iff list_all_iff filter_empty_conv
    by (intro conj_cong) (auto simp: comp_def image_iff split: option.splits)
  show ?thesis
  proof
    assume ?guard
    note g = this [unfolded guard]
    have S: ?S using g unfolding exp_def expected_None by auto
    have G: "\<exists>spec \<in> set specs. result_good spec r" if r: "r \<in> set results" for r
    proof -
      from g r obtain s where s: "exp (?id r) = Some s" by blast
      then have "s \<in> set specs" "sp_check_id s = ?id r" using expected_spec g unfolding exp_def by auto
      with g r s show ?thesis unfolding result_good_def by (intro bexI [of _ s]) auto
    qed
    with g S show "?D \<and> ?U \<and> ?S \<and> ?G" by blast
  next
    assume a: "?D \<and> ?U \<and> ?S \<and> ?G"
    have "length results = length specs"
    proof -
      have "length results = card (set (map ?id results))" using a distinct_card [of "map ?id results"] by simp
      also have "\<dots> = card (set (map sp_check_id specs))" using a by simp
      also have "\<dots> = length specs" using a distinct_card [of "map sp_check_id specs"] by simp
      finally show ?thesis .
    qed
    moreover have "result_good s r" if r: "r \<in> set results" and s: "exp (?id r) = Some s" for r s
    proof -
      from s have s': "s \<in> set specs" "sp_check_id s = ?id r" using expected_spec a unfolding exp_def by auto
      from a r obtain t where t: "t \<in> set specs" "result_good t r" by blast
      then have "sp_check_id t = ?id r" by (simp add: result_good_def)
      with s' t(1) a have "t = s" by (metis distinct_map inj_onD)
      with t(2) show ?thesis by simp
    qed
    moreover have "exp (?id r) \<noteq> None" if "r \<in> set results" for r
      using a that unfolding exp_def expected_None by auto
    ultimately show ?guard unfolding guard using a unfolding result_good_def by auto
  qed
qed

definition ex_required :: "uuid \<Rightarrow> check_action \<Rightarrow> required_check" where
  "ex_required i action = \<lparr>rc_id = i, rc_action = action, rc_template_sha256 = ''t''\<rparr>"

definition ex_template :: "check_action \<Rightarrow> check_command_template" where
  "ex_template action = \<lparr>ct_action = action, ct_program = ''make'', ct_argv = [], ct_timeout_secs = 300\<rparr>"

definition ex_spec :: check_spec where
  "ex_spec = \<lparr>sp_required_check = ex_required 7 Test, sp_template = ex_template Test, sp_invocation_hash = ''h'',
     sp_layer = FinalLayer, sp_test_files = []\<rparr>"

theorem guard_exact_set_witness:
  "all_required_checks_passed (cv_guard (validate_check_results [ex_spec]
     [projr (make_skipped_empty_result ''e'' ex_spec 1)]))"
  unfolding guard_exact_set
  by (simp add: make_skipped_empty_result_def ex_spec_def ex_required_def sp_check_id_def result_good_def
      typed_result_invalid_def)

lemma build_specs_ok:
  "build_specs dig layer templates eligible required = Inr specs \<Longrightarrow>
     map sp_required_check specs = filter (\<lambda>r. rc_action r \<in> set (allowed_actions layer)) required
     \<and> (\<forall>s \<in> set specs. sp_layer s = layer \<and> templates (rc_template_sha256 (sp_required_check s)) = Some (sp_template s)
          \<and> ct_action (sp_template s) = rc_action (sp_required_check s)
          \<and> sp_invocation_hash s = dig (sp_required_check s) (sp_template s)
          \<and> sp_test_files s = (if rc_action (sp_required_check s) = Test then eligible else []))"
proof (induction required arbitrary: specs)
  case (Cons r rest)
  show ?case
  proof (cases "rc_action r \<in> set (allowed_actions layer)")
    case True
    with Cons.prems obtain t ss where t: "templates (rc_template_sha256 r) = Some t" "ct_action t = rc_action r"
      and ss: "build_specs dig layer templates eligible rest = Inr ss"
      and specs: "specs = \<lparr>sp_required_check = r, sp_template = t, sp_invocation_hash = dig r t, sp_layer = layer,
                    sp_test_files = (if rc_action r = Test then eligible else [])\<rparr> # ss"
      by (cases "build_specs dig layer templates eligible rest") (auto split: option.splits if_splits)
    from Cons.IH [OF ss] t specs True show ?thesis by auto
  next
    case False
    with Cons.prems Cons.IH [of specs] show ?thesis by simp
  qed
qed simp

lemma sort_key_perm: "mset (map f (sort_key k xs)) = mset (map f xs)"
  by (simp add: mset_map)

lemma coverage_table_id: "coverage_table c = Inr table \<Longrightarrow> table = c"
  by (induction c arbitrary: table rule: coverage_table.induct)
     (auto simp: map_sum_Inr validate_repo_relative_path_iff split: sum.splits)

lemma eligible_covered:
  assumes files: "normalize_repo_relative_paths test_files = Inr files"
    and eligible: "eligible_test_files files (py_dict table) integrated (layer = IntegrationLayer) = Inr eligible"
    and err: "layer = IntegrationLayer \<Longrightarrow> coverage_error files (py_dict table) = None"
    and table: "coverage_table (case coverage of None \<Rightarrow> [] | Some c \<Rightarrow> c) = Inr table"
    and f: "f \<in> set eligible"
  shows "f \<in> set test_files" "layer = IntegrationLayer
     \<Longrightarrow> \<exists>slices. (f, slices) \<in> set (the coverage) \<and> slices \<noteq> {} \<and> slices \<subseteq> integrated"
proof -
  have fs: "set files = set test_files" using files by (simp add: normalize_ok_iff)
  have ff: "f \<in> set files" and cov: "layer = IntegrationLayer \<Longrightarrow>
      \<exists>slices. map_of (rev table) f = Some slices \<and> slices \<subseteq> integrated"
    using eligible f normalize_idem [OF files]
    by (auto simp: eligible_test_files_def map_sum_Inr split: if_splits option.splits)
  show "f \<in> set test_files" using ff fs by simp
  assume layer: "layer = IntegrationLayer"
  from cov [OF layer] obtain slices where sl: "map_of (rev table) f = Some slices" "slices \<subseteq> integrated" by blast
  have "slices \<noteq> {}"
    using err [OF layer] sl(1) ff
    by (auto simp: coverage_error_def Let_def filter_empty_conv split: if_splits)
  moreover have "(f, slices) \<in> set (the coverage)"
    using map_of_SomeD [OF sl(1)] coverage_table_id [OF table] by (cases coverage) auto
  ultimately show "\<exists>slices. (f, slices) \<in> set (the coverage) \<and> slices \<noteq> {} \<and> slices \<subseteq> integrated"
    using sl(2) by blast
qed

text \<open>What a layer runs. The instantiated checks are exactly the frozen required checks whose action
  the layer allows, each with the descriptor template of its hash and the matching invocation hash; at the
  integration layer a test check runs only on files that have a non-empty coverage entry, and all slices
  of that entry are integrated.\<close>

theorem instantiate_checks_exact:
  assumes "instantiate_checks dig layer required templates test_files coverage integrated = Inr specs"
  shows "mset (map sp_required_check specs) = mset (filter (\<lambda>r. rc_action r \<in> set (allowed_actions layer)) required)
    \<and> sorted (map (\<lambda>s. str_uuid (sp_check_id s)) specs)
    \<and> (\<forall>s \<in> set specs. sp_layer s = layer
         \<and> templates (rc_template_sha256 (sp_required_check s)) = Some (sp_template s)
         \<and> ct_action (sp_template s) = rc_action (sp_required_check s)
         \<and> sp_invocation_hash s = dig (sp_required_check s) (sp_template s)
         \<and> set (sp_test_files s) \<subseteq> set test_files
         \<and> (layer = IntegrationLayer \<longrightarrow> (\<forall>f \<in> set (sp_test_files s).
              \<exists>slices. (f, slices) \<in> set (the coverage) \<and> slices \<noteq> {} \<and> slices \<subseteq> integrated)))"
proof -
  from assms obtain files table eligible ss where
    files: "normalize_repo_relative_paths test_files = Inr files" and
    table: "coverage_table (case coverage of None \<Rightarrow> [] | Some c \<Rightarrow> c) = Inr table" and
    eligible: "eligible_test_files files (py_dict table) integrated (layer = IntegrationLayer) = Inr eligible" and
    err: "layer = IntegrationLayer \<Longrightarrow> list_ex (\<lambda>r. rc_action r = Test) required
            \<Longrightarrow> coverage_error files (py_dict table) = None" and
    ss: "build_specs dig layer templates eligible required = Inr ss" and
    specs: "specs = sort_key (\<lambda>s. str_uuid (sp_check_id s)) ss"
    by (auto simp: instantiate_checks_def Let_def map_sum_Inr split: sum.splits option.splits if_splits)
  note B = build_specs_ok [OF ss]
  have "mset (map sp_required_check specs) = mset (filter (\<lambda>r. rc_action r \<in> set (allowed_actions layer)) required)"
    unfolding specs sort_key_perm B [THEN conjunct1] ..
  moreover have "sorted (map (\<lambda>s. str_uuid (sp_check_id s)) specs)" unfolding specs by simp
  moreover have "set (sp_test_files s) \<subseteq> set test_files
      \<and> (layer = IntegrationLayer \<longrightarrow> (\<forall>f \<in> set (sp_test_files s).
           \<exists>slices. (f, slices) \<in> set (the coverage) \<and> slices \<noteq> {} \<and> slices \<subseteq> integrated))"
    if s: "s \<in> set ss" for s
  proof (cases "rc_action (sp_required_check s) = Test")
    case True
    have "sp_required_check s \<in> set required"
      using B s by (metis (no_types, lifting) filter_is_subset image_eqI list.set_map subsetD)
    with True have "list_ex (\<lambda>r. rc_action r = Test) required" by (auto simp: list_ex_iff)
    then have E: "layer = IntegrationLayer \<Longrightarrow> coverage_error files (py_dict table) = None" by (rule err [rotated])
    have "sp_test_files s = eligible" using B s True by simp
    then show ?thesis
      using eligible_covered [OF files eligible E table] by auto
  next
    case False
    with B s show ?thesis by simp
  qed
  ultimately show ?thesis using B unfolding specs by (simp add: ball_conj_distrib)
qed

theorem instantiate_checks_exact_witness:
  "\<exists>specs. instantiate_checks (\<lambda>_ _. ''h'') IntegrationLayer [ex_required 7 Test, ex_required 3 Scaffold]
      [''t'' \<mapsto> ex_template Test] [''tests/t.py''] (Some [(''tests/t.py'', {5})]) {5} = Inr specs
    \<and> mset (map sp_required_check specs) = {#ex_required 7 Test#}"
proof -
  have "normalize_repo_relative_paths [''tests/t.py''] = Inr [''tests/t.py'']"
    "validate_repo_relative_path ''tests/t.py'' = Inr ''tests/t.py''" by code_simp+
  then have "is_ok (instantiate_checks (\<lambda>_ _. ''h'') IntegrationLayer [ex_required 7 Test, ex_required 3 Scaffold]
      [''t'' \<mapsto> ex_template Test] [''tests/t.py''] (Some [(''tests/t.py'', {5})]) {5})"
    by (simp add: instantiate_checks_def eligible_test_files_def coverage_error_def py_dict_def ex_required_def
        ex_template_def)
  then obtain specs where specs: "instantiate_checks (\<lambda>_ _. ''h'') IntegrationLayer
      [ex_required 7 Test, ex_required 3 Scaffold] [''t'' \<mapsto> ex_template Test] [''tests/t.py'']
      (Some [(''tests/t.py'', {5})]) {5} = Inr specs"
    by (rule is_okE)
  with instantiate_checks_exact [OF specs] show ?thesis
    by (intro exI [of _ specs]) (simp add: ex_required_def)
qed

end
