(* ===== verification/Verification_Execution.thy ===== *)
theory Verification_Execution
  imports Verification_Checks
begin

text \<open>
  \<open>verification/execution.py\<close>: how raw execution facts become a check status, and how the reruns
  of a failed test are reduced to one status by majority.
\<close>

record execution_facts =
  xf_exit_code :: "int option"
  xf_cancelled :: bool
  xf_output_limit_exceeded :: bool
  xf_timed_out :: bool
  xf_infrastructure_error :: bool
  xf_seccomp_denied :: bool
  xf_stdout_bytes :: int
  xf_stderr_bytes :: int

definition execution_facts_init :: "execution_facts \<Rightarrow> execution_facts res" where
  "execution_facts_init f =
     (if xf_stdout_bytes f < 0 \<or> xf_stderr_bytes f < 0
      then Inl (ValueError ''captured output sizes cannot be negative'') else Inr f)"

record launch_receipt =
  lr_check_id :: string
  lr_stdout :: artifact_ref
  lr_stderr :: artifact_ref

record normalized_execution =
  ne_status :: check_status
  ne_launch :: "launch_receipt option"

definition output_limit_bytes :: int where
  "output_limit_bytes = 256 * 1024 * 1024"

definition register_launch :: "string \<Rightarrow> string \<Rightarrow> launch_receipt" where
  "register_launch empty_digest check_id =
     \<lparr>lr_check_id = check_id, lr_stdout = empty_artifact empty_digest, lr_stderr = empty_artifact empty_digest\<rparr>"

definition normalize_execution :: "execution_facts \<Rightarrow> launch_receipt option \<Rightarrow> normalized_execution option" where
  "normalize_execution f launch =
     (let result = (\<lambda>status. Some \<lparr>ne_status = status, ne_launch = launch\<rparr>)
      in if xf_cancelled f then None
         else if xf_output_limit_exceeded f \<or> max (xf_stdout_bytes f) (xf_stderr_bytes f) > output_limit_bytes
         then result CheckOutputLimitExceeded
         else if xf_timed_out f then result TimedOut
         else if xf_infrastructure_error f then result InfrastructureError
         else if xf_seccomp_denied f then result CheckFailed
         else if xf_exit_code f = Some 0 then result Passed
         else result CheckFailed)"

record flaky_reduction =
  fr_status :: check_status
  fr_flaky :: bool
  fr_event_count :: nat
  fr_flaky_tests :: "string list"
  fr_failed_tests :: "string list"

definition plain_reduction :: "check_status \<Rightarrow> flaky_reduction" where
  "plain_reduction status =
     \<lparr>fr_status = status, fr_flaky = False, fr_event_count = 0, fr_flaky_tests = [], fr_failed_tests = []\<rparr>"

definition flaky_eligible :: "check_action \<Rightarrow> string \<Rightarrow> bool" where
  "flaky_eligible action layer \<longleftrightarrow> action = Test
     \<and> layer \<in> set [''INTEGRATION'', ''FINAL'', ''VerificationLayer.INTEGRATION'', ''VerificationLayer.FINAL'']"

text \<open>One test of the mapping form: it is skipped, timed out, flaky or failed.\<close>

datatype flaky_verdict = NotObserved | VerdictTimedOut | VerdictFlaky | VerdictFailed

definition passes :: "check_status list \<Rightarrow> nat" where
  "passes statuses = length (filter (\<lambda>s. s = Passed) statuses)"

definition flaky_verdict_of :: "check_status list \<Rightarrow> flaky_verdict" where
  "flaky_verdict_of observations =
     (case observations of
        [] \<Rightarrow> NotObserved
      | first # _ \<Rightarrow>
          if first \<noteq> CheckFailed then NotObserved
          else if TimedOut \<in> set observations then VerdictTimedOut
          else if length observations \<noteq> 3 then VerdictFailed
          else if 2 \<le> passes observations then VerdictFlaky else VerdictFailed)"

definition flaky_reduce_tests ::
  "check_action \<Rightarrow> string \<Rightarrow> (string \<times> check_status list) list \<Rightarrow> flaky_reduction res" where
  "flaky_reduce_tests action layer statuses =
     (if \<not> flaky_eligible action layer
      then (case statuses of
              [] \<Rightarrow> Inr (plain_reduction CheckFailed)
            | (_, []) # _ \<Rightarrow> Inl (IndexError ''tuple index out of range'')
            | (_, first # _) # _ \<Rightarrow> Inr (plain_reduction first))
      else let names = sort (map fst statuses);
               verdict = (\<lambda>name. flaky_verdict_of (the (map_of statuses name)));
               flaky_tests = filter (\<lambda>n. verdict n = VerdictFlaky) names;
               failed_tests = filter (\<lambda>n. verdict n \<in> set [VerdictTimedOut, VerdictFailed]) names;
               timed_out = list_ex (\<lambda>n. verdict n = VerdictTimedOut) names
           in Inr \<lparr>fr_status = (if timed_out then TimedOut else if failed_tests \<noteq> [] then CheckFailed else Passed),
                   fr_flaky = (flaky_tests \<noteq> []), fr_event_count = (if flaky_tests \<noteq> [] then 1 else 0),
                   fr_flaky_tests = flaky_tests, fr_failed_tests = failed_tests\<rparr>)"

definition flaky_reduce :: "check_action \<Rightarrow> string \<Rightarrow> check_status list \<Rightarrow> flaky_reduction" where
  "flaky_reduce action layer statuses =
     (case statuses of
        [] \<Rightarrow> plain_reduction CheckFailed
      | first # _ \<Rightarrow>
          if \<not> flaky_eligible action layer \<or> first \<noteq> CheckFailed then plain_reduction first
          else if TimedOut \<in> set statuses then plain_reduction TimedOut
          else if length statuses \<noteq> 3 then plain_reduction first
          else if 2 \<le> passes statuses
          then (plain_reduction Passed)\<lparr>fr_flaky := True, fr_event_count := 1\<rparr>
          else plain_reduction CheckFailed)"

section \<open>Correctness\<close>

text \<open>An execution is reported as passed only if it was not cancelled, exceeded no output, time or
  infrastructure limit, was denied no system call and ended with exit code 0; a cancelled execution has no
  result, and every other one has exactly one.\<close>

theorem normalize_execution_passed:
  "(normalize_execution f launch = Some \<lparr>ne_status = Passed, ne_launch = launch\<rparr> \<longleftrightarrow>
      \<not> xf_cancelled f \<and> \<not> xf_output_limit_exceeded f \<and> xf_stdout_bytes f \<le> 268435456 \<and> xf_stderr_bytes f \<le> 268435456
      \<and> \<not> xf_timed_out f \<and> \<not> xf_infrastructure_error f \<and> \<not> xf_seccomp_denied f \<and> xf_exit_code f = Some 0)
   \<and> (normalize_execution f launch = None \<longleftrightarrow> xf_cancelled f)"
  by (auto simp: normalize_execution_def Let_def output_limit_bytes_def)

lemma three_lists: "length xs = 3 \<longleftrightarrow> (\<exists>a b c. xs = [a, b, c])"
  by (auto simp: eval_nat_numeral length_Suc_conv)

text \<open>A test that failed first is reported as passed only on a two-thirds majority of exactly three
  runs without a timeout, that is when both reruns passed; such a result is always marked flaky.\<close>

theorem flaky_majority:
  assumes "fr_status (flaky_reduce action layer (CheckFailed # reruns)) = Passed"
  shows "flaky_eligible action layer \<and> reruns = [Passed, Passed]
    \<and> fr_flaky (flaky_reduce action layer (CheckFailed # reruns))"
  using assms
  by (auto simp: flaky_reduce_def plain_reduction_def three_lists passes_def eval_nat_numeral length_Suc_conv
      split: if_splits)

theorem flaky_majority_witness:
  "fr_flaky (flaky_reduce Test ''FINAL'' [CheckFailed, Passed, Passed])"
  using flaky_majority [of Test "''FINAL''" "[Passed, Passed]"]
  by (simp add: flaky_reduce_def flaky_eligible_def passes_def plain_reduction_def)

text \<open>The mapping form skips a test whose first observation is not \<open>Failed\<close>, so a test that only ever
  timed out leaves the whole check passed; the sequence form reports the timeout.\<close>

lemma first_timeout_is_dropped:
  "map_sum id fr_status (flaky_reduce_tests Test ''FINAL'' [(''t'', [TimedOut])]) = Inr Passed"
  "fr_status (flaky_reduce Test ''FINAL'' [TimedOut]) = TimedOut"
  by code_simp+

text \<open>C39: the mapping form of the flaky reduction, case by case. For a test action in the integration or final layer the
  check is \<open>TimedOut\<close> exactly when a test that failed first timed out in a rerun, otherwise \<open>Failed\<close> exactly when a
  test that failed first did not pass exactly two reruns, and otherwise \<open>Passed\<close>; the flaky tests are those that
  failed once and passed both reruns. A test that did not fail first counts for nothing, also when it timed out
  first. Outside these layers the check is the first observation of the first test, whatever the others did.\<close>

theorem flaky_tests_passed:
  assumes "distinct (map fst statuses)" "flaky_reduce_tests action layer statuses = Inr reduction"
  shows "if flaky_eligible action layer
    then fr_status reduction =
        (if \<exists>(name, runs) \<in> set statuses. runs \<noteq> [] \<and> hd runs = CheckFailed \<and> TimedOut \<in> set runs then TimedOut
         else if \<exists>(name, runs) \<in> set statuses. runs \<noteq> [] \<and> hd runs = CheckFailed \<and> tl runs \<noteq> [Passed, Passed] then CheckFailed
         else Passed)
      \<and> set (fr_flaky_tests reduction) = {name. (name, [CheckFailed, Passed, Passed]) \<in> set statuses}
      \<and> (fr_flaky reduction \<longleftrightarrow> fr_flaky_tests reduction \<noteq> [])
    else reduction = plain_reduction (case statuses of [] \<Rightarrow> CheckFailed | (_, runs) # _ \<Rightarrow> hd runs)"
proof (cases "flaky_eligible action layer")
  case False
  with assms(2) show ?thesis by (auto simp: flaky_reduce_tests_def split: list.splits)
next
  case True
  have look: "(\<exists>n \<in> fst ` set statuses. P (the (map_of statuses n))) \<longleftrightarrow> (\<exists>(name, runs) \<in> set statuses. P runs)" for P
    using assms(1) by (force simp: map_of_is_SomeI)
  have timed: "flaky_verdict_of runs = VerdictTimedOut \<longleftrightarrow> runs \<noteq> [] \<and> hd runs = CheckFailed \<and> TimedOut \<in> set runs"
    and failed: "flaky_verdict_of runs \<in> set [VerdictTimedOut, VerdictFailed] \<longleftrightarrow>
      runs \<noteq> [] \<and> hd runs = CheckFailed \<and> tl runs \<noteq> [Passed, Passed]"
    and flaky: "flaky_verdict_of runs = VerdictFlaky \<longleftrightarrow> runs = [CheckFailed, Passed, Passed]" for runs
    by (auto simp: flaky_verdict_of_def passes_def eval_nat_numeral length_Suc_conv split: list.splits if_splits)
  let ?verdict = "\<lambda>n. flaky_verdict_of (the (map_of statuses n))" and ?names = "sort (map fst statuses)"
  have st: "fr_status reduction = (if list_ex (\<lambda>n. ?verdict n = VerdictTimedOut) ?names then TimedOut
      else if filter (\<lambda>n. ?verdict n \<in> set [VerdictTimedOut, VerdictFailed]) ?names \<noteq> [] then CheckFailed else Passed)"
    and fl: "fr_flaky_tests reduction = filter (\<lambda>n. ?verdict n = VerdictFlaky) ?names" "fr_flaky reduction \<longleftrightarrow> fr_flaky_tests reduction \<noteq> []"
    using True assms(2) unfolding flaky_reduce_tests_def Let_def by auto
  have filt: "filter P xs \<noteq> [] \<longleftrightarrow> list_ex P xs" for P :: "string \<Rightarrow> bool" and xs
    by (auto simp: filter_empty_conv list_ex_iff)
  have "set (fr_flaky_tests reduction) = {name. (name, [CheckFailed, Passed, Passed]) \<in> set statuses}"
    using assms(1) unfolding fl flaky by (force simp: map_of_is_SomeI)
  moreover have "list_ex (\<lambda>n. ?verdict n = VerdictTimedOut) ?names \<longleftrightarrow>
      (\<exists>(name, runs) \<in> set statuses. runs \<noteq> [] \<and> hd runs = CheckFailed \<and> TimedOut \<in> set runs)"
    using look [of "\<lambda>runs. flaky_verdict_of runs = VerdictTimedOut"] by (simp only: list_ex_iff set_sort set_map timed)
  moreover have "filter (\<lambda>n. ?verdict n \<in> set [VerdictTimedOut, VerdictFailed]) ?names \<noteq> [] \<longleftrightarrow>
      (\<exists>(name, runs) \<in> set statuses. runs \<noteq> [] \<and> hd runs = CheckFailed \<and> tl runs \<noteq> [Passed, Passed])"
    using look [of "\<lambda>runs. flaky_verdict_of runs \<in> set [VerdictTimedOut, VerdictFailed]"]
    by (simp only: filt list_ex_iff set_sort set_map failed)
  ultimately show ?thesis
    using True st fl(2) by (simp only: if_True simp_thms)
qed

theorem flaky_tests_passed_witness:
  "flaky_reduce_tests Test ''FINAL'' [(''t'', [CheckFailed, Passed, Passed]), (''u'', [TimedOut])] = Inr (projr (flaky_reduce_tests Test ''FINAL'' [(''t'', [CheckFailed, Passed, Passed]), (''u'', [TimedOut])]))
   \<and> fr_status (projr (flaky_reduce_tests Test ''FINAL'' [(''t'', [CheckFailed, Passed, Passed]), (''u'', [TimedOut])])) = Passed"
proof -
  let ?s = "[(''t'', [CheckFailed, Passed, Passed]), (''u'', [TimedOut])]"
  have e: "flaky_eligible Test ''FINAL''" by (simp add: flaky_eligible_def)
  then obtain r where r: "flaky_reduce_tests Test ''FINAL'' ?s = Inr r"
    by (simp add: flaky_reduce_tests_def Let_def)
  have "distinct (map fst ?s)" by simp
  from flaky_tests_passed [OF this r] e r show ?thesis by simp
qed

end
