(* ===== verification/Verification_Routing.thy ===== *)
theory Verification_Routing
  imports Verification_Checks Py_Float
begin

text \<open>
  \<open>verification/routing.py\<close>: the verification policy, the reduction of a failed check and the
  choice of its repair route, the repair budgets, and the conservation, confidence and parity
  projections. Modules and scenarios are named by strings.
\<close>

section \<open>The verification policy\<close>

text \<open>The payload of the policy resource: \<open>None\<close> stands for a value of the wrong JSON type.\<close>

record policy_payload =
  py_flaky_reruns :: int
  py_majority :: "(int \<times> int) option"
  py_feedback_repair_limit :: int
  py_conservation_bandwidth :: "rat list option"
  py_global_repair_attempts :: int

record verification_policy_snapshot =
  vp_flaky_reruns :: int
  vp_majority_required :: int
  vp_majority_total :: int
  vp_feedback_repair_limit :: int
  vp_conservation_bandwidth :: "rat \<times> rat"
  vp_global_repair_attempts :: int
  vp_sha256 :: string
  vp_default_timeout_secs :: "(check_action \<times> int) list"

definition expected_policy_sha256 :: string where
  "expected_policy_sha256 = ''fd4d792a8ae408828d8e70930f203b7ada19b7333a12a9299eb56e962081c54f''"

definition default_timeout_secs :: "(check_action \<times> int) list" where
  "default_timeout_secs = [(Scaffold, 300), (Compile, 300), (Lint, 300), (TypeCheck, 300), (Test, 120)]"

definition check_policy_snapshot :: "verification_policy_snapshot \<Rightarrow> verification_policy_snapshot res" where
  "check_policy_snapshot s =
     (if vp_flaky_reruns s + 1 \<noteq> vp_majority_total s
      then Inl (ValueError ''flaky policy total must equal initial execution plus reruns'')
      else if vp_majority_required s * 2 \<le> vp_majority_total s
      then Inl (ValueError ''majority policy is not a strict majority'')
      else if vp_global_repair_attempts s < 1
      then Inl (ValueError ''global repair policy must allow an initial attempt'')
      else if vp_feedback_repair_limit s < 0
      then Inl (ValueError ''feedback repair limit cannot be negative'')
      else if snd (vp_conservation_bandwidth s) < fst (vp_conservation_bandwidth s)
      then Inl (ValueError ''conservation bandwidth bounds are reversed'')
      else Inr s)"

definition load_policy_snapshot :: "string \<Rightarrow> policy_payload \<Rightarrow> verification_policy_snapshot res" where
  "load_policy_snapshot sha256 p =
     (if sha256 \<noteq> expected_policy_sha256
      then Inl (ValueError ''verification policy resource digest does not match the frozen digest'')
      else case py_majority p of
        None \<Rightarrow> Inl (ValueError ''verification policy majority must be an object'')
      | Some (required, all_runs) \<Rightarrow>
          (case py_conservation_bandwidth p of
             Some [low, high] \<Rightarrow>
               check_policy_snapshot
                 \<lparr>vp_flaky_reruns = py_flaky_reruns p, vp_majority_required = required,
                  vp_majority_total = all_runs, vp_feedback_repair_limit = py_feedback_repair_limit p,
                  vp_conservation_bandwidth = (low, high),
                  vp_global_repair_attempts = py_global_repair_attempts p, vp_sha256 = sha256,
                  vp_default_timeout_secs = default_timeout_secs\<rparr>
           | _ \<Rightarrow> Inl (ValueError ''verification policy bandwidth must contain two bounds'')))"

section \<open>Failure reduction and routing\<close>

datatype reduction_route = DirectEligible | SupervisorEligible | NoFailure

record failure_reduction =
  fd_status :: check_status
  fd_action :: check_action
  fd_layer :: string
  fd_route :: reduction_route
  fd_reason :: string

definition layer_values :: "string list" where
  "layer_values = [''LOCAL'', ''INTEGRATION'', ''FINAL'']"

definition reduce_failure :: "check_status \<Rightarrow> check_action \<Rightarrow> string \<Rightarrow> int \<Rightarrow> failure_reduction res" where
  "reduce_failure status action layer_name unknown_count =
     (let reduction = (\<lambda>route reason. Inr \<lparr>fd_status = status, fd_action = action, fd_layer = layer_name,
                         fd_route = route, fd_reason = reason\<rparr>)
      in if unknown_count < 0 then Inl (ValueError ''error_unknown_count cannot be negative'')
         else if unknown_count \<noteq> 0 then reduction SupervisorEligible ''error_unknown''
         else if status = Passed then reduction NoFailure ''passed''
         else if status \<in> set [TimedOut, CheckOutputLimitExceeded, InfrastructureError]
         then reduction SupervisorEligible ''resource_failure''
         else if action = Test then reduction SupervisorEligible ''dynamic_test_failure''
         else if layer_name \<notin> set layer_values then reduction SupervisorEligible ''unknown_layer''
         else reduction DirectEligible ''static_failure'')"

record repair_evidence =
  rv_candidate_slice_set :: "uuid list"
  rv_reliability :: attribution_reliability
  rv_strong_coupling :: bool
  rv_cross_generation_recurrence :: bool
  rv_conservation_signal_summary :: "(string \<times> json) list"

definition build_repair_evidence ::
  "uuid list \<Rightarrow> attribution_reliability \<Rightarrow> bool \<Rightarrow> bool \<Rightarrow> (string \<times> json) list \<Rightarrow> int \<Rightarrow> bool \<Rightarrow> repair_evidence" where
  "build_repair_evidence candidates reliability coupling recurrence summary unknown_count evidence_complete =
     \<lparr>rv_candidate_slice_set = sort_key str_uuid (remdups candidates), rv_reliability = reliability,
      rv_strong_coupling = coupling, rv_cross_generation_recurrence = recurrence,
      rv_conservation_signal_summary =
        AList.update ''coupling_evidence_complete'' (JBool evidence_complete)
          (AList.update ''error_unknown_count'' (JInt unknown_count) summary)\<rparr>"

datatype route_decision =
    DirectRegeneration uuid int
  | RouteSupervisor
  | SliceRegenerationExhaustedRoute uuid int

definition choose_failure_route ::
  "repair_evidence \<Rightarrow> int \<Rightarrow> failure_reduction option \<Rightarrow> route_decision res" where
  "choose_failure_route ev generation failure =
     (if \<not> (0 \<le> generation \<and> generation \<le> 2)
      then Inl (ValueError ''candidate generation must be between 0 and 2'')
      else if (case failure of None \<Rightarrow> True | Some f \<Rightarrow> fd_route f \<noteq> DirectEligible) then Inr RouteSupervisor
      else if (case map_of (rv_conservation_signal_summary ev) ''error_unknown_count'' of
                 None \<Rightarrow> False | Some v \<Rightarrow> v \<noteq> JInt 0) then Inr RouteSupervisor
      else if map_of (rv_conservation_signal_summary ev) ''coupling_evidence_complete'' \<noteq> Some (JBool True)
      then Inr RouteSupervisor
      else case rv_candidate_slice_set ev of
             [slice_id] \<Rightarrow>
               if rv_reliability ev = Reliable \<and> \<not> rv_strong_coupling ev \<and> \<not> rv_cross_generation_recurrence ev
               then Inr (if generation = 2 then SliceRegenerationExhaustedRoute slice_id generation
                         else DirectRegeneration slice_id generation)
               else Inr RouteSupervisor
           | _ \<Rightarrow> Inr RouteSupervisor)"

section \<open>Repair budgets\<close>

record global_repair_budget =
  gb_max_attempts :: int
  gb_attempts :: int
  gb_evidence :: "string set"

definition global_budget_init :: "verification_policy_snapshot \<Rightarrow> int option \<Rightarrow> global_repair_budget res" where
  "global_budget_init policy max_attempts =
     (let limit = (case max_attempts of Some m \<Rightarrow> m | None \<Rightarrow> vp_global_repair_attempts policy)
      in if limit < 1 then Inl (ValueError ''max_attempts must be a positive integer'')
         else Inr \<lparr>gb_max_attempts = limit, gb_attempts = 0, gb_evidence = {}\<rparr>)"

definition feedback_budget_init :: "verification_policy_snapshot \<Rightarrow> global_repair_budget res" where
  "feedback_budget_init policy = global_budget_init policy (Some (vp_feedback_repair_limit policy))"

definition budget_exhausted :: "global_repair_budget \<Rightarrow> bool" where
  "budget_exhausted b \<longleftrightarrow> gb_max_attempts b \<le> gb_attempts b"

definition budget_record :: "global_repair_budget \<Rightarrow> string \<Rightarrow> (int option \<times> global_repair_budget) res" where
  "budget_record b key =
     (if key = [] then Inl (ValueError ''evidence_key must be non-empty'')
      else if budget_exhausted b \<or> key \<in> gb_evidence b then Inr (None, b)
      else let b' = b\<lparr>gb_evidence := insert key (gb_evidence b), gb_attempts := gb_attempts b + 1\<rparr>
           in Inr (Some (gb_attempts b'), b'))"

datatype terminal_classification = PartiallyCompletedIndependentSlice | FailedVerificationTerminal | NonTerminalRepairInProgress

definition classify_terminal_failure :: "bool \<Rightarrow> global_repair_budget option \<Rightarrow> terminal_classification" where
  "classify_terminal_failure independent_slice budget =
     (if (case budget of None \<Rightarrow> True | Some b \<Rightarrow> \<not> budget_exhausted b) then NonTerminalRepairInProgress
      else if independent_slice then PartiallyCompletedIndependentSlice
      else FailedVerificationTerminal)"

section \<open>Collection completeness and confidence\<close>

record collection_completeness =
  cc_module :: string
  cc_source_tests :: int
  cc_target_tests :: int
  cc_suspicious :: bool

definition count_at :: "(string \<times> int) list \<Rightarrow> string \<Rightarrow> int" where
  "count_at d m = (case map_of d m of None \<Rightarrow> 0 | Some n \<Rightarrow> n)"

definition check_collection_completeness ::
  "(string \<times> int) list \<Rightarrow> (string \<times> int) list \<Rightarrow> collection_completeness list" where
  "check_collection_completeness source target =
     map (\<lambda>m. \<lparr>cc_module = m, cc_source_tests = count_at source m, cc_target_tests = count_at target m,
               cc_suspicious = (count_at target m < count_at source m)\<rparr>)
       (sorted_set (map fst source @ map fst target))"

datatype primary_evidence = TranslatedTests | GeneratedTests

record confidence_assessment =
  ca_primary_evidence :: primary_evidence
  ca_downgraded :: bool
  ca_disclosure :: "string option"
  ca_usable_as_primary :: bool
  ca_source_smoke_passed :: "bool option"

definition assess_confidence ::
  "bool \<Rightarrow> bool option \<Rightarrow> bool \<Rightarrow> bool \<Rightarrow> (bool \<times> bool) option \<Rightarrow> confidence_assessment" where
  "assess_confidence source_has_tests smoke generated0 low_quality0 generated_assessment =
     (let (generated, low_quality) =
            (case generated_assessment of None \<Rightarrow> (generated0, low_quality0) | Some a \<Rightarrow> a)
      in if source_has_tests
         then let downgraded = (smoke = Some False)
              in \<lparr>ca_primary_evidence = TranslatedTests, ca_downgraded = downgraded,
                  ca_disclosure = (if downgraded then Some ''source baseline smoke verification failed'' else None),
                  ca_usable_as_primary = True, ca_source_smoke_passed = smoke\<rparr>
         else \<lparr>ca_primary_evidence = GeneratedTests, ca_downgraded = True,
               ca_disclosure = Some (if low_quality
                  then ''generated tests are below the LOW_QUALITY gate and cannot be primary evidence''
                  else ''generated tests establish self-consistency with the Agent's source understanding''),
               ca_usable_as_primary = (if generated then generated \<and> \<not> low_quality else \<not> low_quality),
               ca_source_smoke_passed = smoke\<rparr>)"

section \<open>Structural conservation\<close>

record module_conservation =
  mc_module :: string
  mc_test_ratio :: "rat option"
  mc_assertion_ratio :: "rat option"
  mc_loc_ratio :: "rat option"
  mc_outlier :: bool
  mc_source_test_count :: "int option"
  mc_source_assertion_count :: "int option"
  mc_source_loc_count :: "int option"
  mc_target_test_count :: int
  mc_target_assertion_count :: int
  mc_target_loc_count :: int
  mc_test_outlier :: "bool option"
  mc_assertion_outlier :: "bool option"
  mc_loc_outlier :: "bool option"

definition ratio :: "int \<Rightarrow> int option \<Rightarrow> rat option res" where
  "ratio target source =
     (case source of
        None \<Rightarrow> Inr None
      | Some s \<Rightarrow> if s = 0 then Inr None else map_sum id Some (py_truediv target s))"

definition outside :: "rat \<Rightarrow> rat \<Rightarrow> rat option \<Rightarrow> bool" where
  "outside low high r = (case r of None \<Rightarrow> False | Some x \<Rightarrow> \<not> (low \<le> x \<and> x \<le> high))"

type_synonym source_counts = "int option \<times> int option \<times> int option"
type_synonym target_counts = "int \<times> int \<times> int"

definition module_facts ::
  "rat \<Rightarrow> rat \<Rightarrow> string \<Rightarrow> source_counts \<Rightarrow> target_counts \<Rightarrow> module_conservation res" where
  "module_facts low high m source target =
     (let (s1, s2, s3) = source; (t1, t2, t3) = target
      in case ratio t1 s1 of Inl e \<Rightarrow> Inl e | Inr r1 \<Rightarrow>
        (case ratio t2 s2 of Inl e \<Rightarrow> Inl e | Inr r2 \<Rightarrow>
         (case ratio t3 s3 of Inl e \<Rightarrow> Inl e | Inr r3 \<Rightarrow>
           Inr \<lparr>mc_module = m, mc_test_ratio = r1, mc_assertion_ratio = r2, mc_loc_ratio = r3,
                mc_outlier = list_ex (outside low high) [r1, r2, r3],
                mc_source_test_count = s1, mc_source_assertion_count = s2, mc_source_loc_count = s3,
                mc_target_test_count = t1, mc_target_assertion_count = t2, mc_target_loc_count = t3,
                mc_test_outlier = Some (outside low high r1),
                mc_assertion_outlier = Some (outside low high r2), mc_loc_outlier = Some (outside low high r3)\<rparr>)))"

fun facts_loop ::
  "rat \<Rightarrow> rat \<Rightarrow> (string \<rightharpoonup> source_counts) \<Rightarrow> (string \<rightharpoonup> target_counts) \<Rightarrow> string list
     \<Rightarrow> module_conservation list res" where
  "facts_loop low high source target [] = Inr []"
| "facts_loop low high source target (m # ms) =
     (case module_facts low high m
             (case source m of None \<Rightarrow> (Some 0, Some 0, Some 0) | Some c \<Rightarrow> c)
             (case target m of None \<Rightarrow> (0, 0, 0) | Some c \<Rightarrow> c) of
        Inl e \<Rightarrow> Inl e
      | Inr entry \<Rightarrow> map_sum id (\<lambda>facts. entry # facts) (facts_loop low high source target ms))"

definition structural_conservation ::
  "(string \<times> source_counts) list \<Rightarrow> (string \<times> target_counts) list \<Rightarrow> rat \<times> rat
     \<Rightarrow> module_conservation list res" where
  "structural_conservation source target bandwidth =
     facts_loop (fst bandwidth) (snd bandwidth) (map_of source) (map_of target)
       (sorted_set (map fst source @ map fst target))"

definition has_outlier :: "module_conservation list \<Rightarrow> bool" where
  "has_outlier facts = list_ex mc_outlier facts"

definition has_comparable_baseline :: "module_conservation list \<Rightarrow> bool" where
  "has_comparable_baseline facts =
     list_ex (\<lambda>i. mc_test_ratio i \<noteq> None \<or> mc_assertion_ratio i \<noteq> None \<or> mc_loc_ratio i \<noteq> None) facts"

definition has_test_or_assertion_outlier :: "module_conservation list \<Rightarrow> bool" where
  "has_test_or_assertion_outlier facts = list_ex (\<lambda>i.
       if mc_test_outlier i \<noteq> None \<or> mc_assertion_outlier i \<noteq> None
       then mc_test_outlier i = Some True \<or> mc_assertion_outlier i = Some True
       else mc_outlier i \<and> (mc_test_ratio i \<noteq> None \<or> mc_assertion_ratio i \<noteq> None)) facts"

definition zero_baseline_modules :: "module_conservation list \<Rightarrow> string list" where
  "zero_baseline_modules facts =
     map mc_module (filter (\<lambda>i. mc_source_test_count i \<in> set [None, Some 0]
       \<or> mc_source_assertion_count i \<in> set [None, Some 0] \<or> mc_source_loc_count i \<in> set [None, Some 0]) facts)"

datatype 'a conservation_decision = DecideTestTranslation 'a | DecideImplementation 'a | DecideSupervisor

definition assist_ambiguous_failure ::
  "module_conservation list option \<Rightarrow> 'a \<Rightarrow> 'a \<Rightarrow> 'a conservation_decision" where
  "assist_ambiguous_failure facts test_slice implementation_slice =
     (case facts of
        None \<Rightarrow> DecideSupervisor
      | Some per_module \<Rightarrow>
          if per_module = [] \<or> \<not> has_comparable_baseline per_module then DecideSupervisor
          else if has_test_or_assertion_outlier per_module then DecideTestTranslation test_slice
          else DecideImplementation implementation_slice)"

section \<open>Parity\<close>

record parity_result =
  pr_scenario_id :: string
  pr_passed :: bool
  pr_diff_summary :: string

record parity_evidence =
  pv_available :: bool
  pv_results :: "parity_result list"
  pv_disclosure :: "string option"

definition parity_compare ::
  "string list \<Rightarrow> (string \<rightharpoonup> string) option \<Rightarrow> (string \<rightharpoonup> string) option \<Rightarrow> string option \<Rightarrow> parity_evidence" where
  "parity_compare scenario_ids source target image_digest =
     (case (source, target, image_digest) of
        (Some src, Some tgt, Some _) \<Rightarrow>
          if scenario_ids = []
          then \<lparr>pv_available = False, pv_results = [], pv_disclosure = Some ''parity_unavailable''\<rparr>
          else let equal = (\<lambda>i. src i \<noteq> None \<and> src i = tgt i)
               in \<lparr>pv_available = True,
                   pv_results = map (\<lambda>i. \<lparr>pr_scenario_id = i, pr_passed = equal i,
                       pr_diff_summary = (if equal i then ''equal'' else ''source and target summaries differ'')\<rparr>)
                     (sorted_set scenario_ids),
                   pv_disclosure = None\<rparr>
      | _ \<Rightarrow> \<lparr>pv_available = False, pv_results = [], pv_disclosure = Some ''parity_unavailable''\<rparr>)"

section \<open>Correctness\<close>

lemma choose_direct:
  assumes "choose_failure_route ev generation (Some failure) = Inr (DirectRegeneration slice_id g)"
  shows "fd_route failure = DirectEligible \<and> rv_candidate_slice_set ev = [slice_id] \<and> rv_reliability ev = Reliable
    \<and> \<not> rv_strong_coupling ev \<and> \<not> rv_cross_generation_recurrence ev \<and> g = generation \<and> 0 \<le> generation
    \<and> generation < 2
    \<and> map_of (rv_conservation_signal_summary ev) ''error_unknown_count'' \<in> {None, Some (JInt 0)}
    \<and> map_of (rv_conservation_signal_summary ev) ''coupling_evidence_complete'' = Some (JBool True)"
  using assms unfolding choose_failure_route_def
  by (auto split: if_split_asm option.split_asm list.split_asm)



text \<open>A sequence of evidence keys, those that raise leaving the budget as it is.\<close>

definition record_evidence :: "global_repair_budget \<Rightarrow> string list \<Rightarrow> global_repair_budget" where
  "record_evidence b keys = fold (\<lambda>key b. case budget_record b key of Inl _ \<Rightarrow> b | Inr (_, b') \<Rightarrow> b') keys b"

lemma record_evidence_count:
  assumes "finite (gb_evidence b)" "gb_attempts b = int (card (gb_evidence b))" "gb_attempts b \<le> gb_max_attempts b"
  shows "gb_attempts (record_evidence b keys) = min (gb_max_attempts b) (int (card (gb_evidence b \<union> (set keys - {[]}))))
    \<and> gb_max_attempts (record_evidence b keys) = gb_max_attempts b"
  using assms
proof (induction keys arbitrary: b)
  case Nil
  then show ?case by (simp add: record_evidence_def)
next
  case (Cons key keys)
  define b' where "b' = (case budget_record b key of Inl _ \<Rightarrow> b | Inr (_, b') \<Rightarrow> b')"
  have step: "record_evidence b (key # keys) = record_evidence b' keys" by (simp add: record_evidence_def b'_def)
  consider (skip) "b' = b" "key = [] \<or> key \<in> gb_evidence b"
    | (full) "b' = b" "gb_max_attempts b = gb_attempts b"
    | (new) "b' = b\<lparr>gb_evidence := insert key (gb_evidence b), gb_attempts := gb_attempts b + 1\<rparr>"
        "key \<noteq> []" "key \<notin> gb_evidence b" "gb_attempts b < gb_max_attempts b"
  proof -
    have b': "b' = (if key = [] \<or> gb_max_attempts b \<le> gb_attempts b \<or> key \<in> gb_evidence b then b
        else b\<lparr>gb_evidence := insert key (gb_evidence b), gb_attempts := gb_attempts b + 1\<rparr>)"
      unfolding b'_def budget_record_def budget_exhausted_def Let_def by simp
    show ?thesis
      using that b' Cons.prems(3) by (cases "key = [] \<or> key \<in> gb_evidence b"; cases "gb_max_attempts b \<le> gb_attempts b") auto
  qed
  then show ?case
  proof cases
    case skip
    then have "gb_evidence b \<union> (set (key # keys) - {[]}) = gb_evidence b \<union> (set keys - {[]})" by auto
    with Cons.IH [OF Cons.prems] skip show ?thesis by (simp add: step)
  next
    case full
    have "card (gb_evidence b) \<le> card (gb_evidence b \<union> (set (key # keys) - {[]}))"
      "card (gb_evidence b) \<le> card (gb_evidence b \<union> (set keys - {[]}))"
      using Cons.prems(1) by (auto intro!: card_mono)
    with Cons.IH [OF Cons.prems] full Cons.prems(2) show ?thesis by (simp add: step)
  next
    case new
    have "gb_evidence b' \<union> (set keys - {[]}) = gb_evidence b \<union> (set (key # keys) - {[]})" using new by auto
    moreover have "finite (gb_evidence b')" "gb_attempts b' = int (card (gb_evidence b'))"
      "gb_attempts b' \<le> gb_max_attempts b'" "gb_max_attempts b' = gb_max_attempts b"
      using new Cons.prems by simp_all
    ultimately show ?thesis using Cons.IH [of b'] by (simp add: step)
  qed
qed

text \<open>Global repair is driven by new evidence and bounded. After any sequence of evidence keys the
  attempts are the number of different non-empty keys, capped at the maximum, and a failure is final
  exactly from the moment that many different keys were seen.\<close>

theorem repair_attempts_bounded:
  assumes "global_budget_init policy max_attempts = Inr b"
  shows "gb_attempts (record_evidence b keys) = min (gb_max_attempts b) (int (card (set keys - {[]})))
    \<and> (classify_terminal_failure indep (Some (record_evidence b keys)) = NonTerminalRepairInProgress
         \<longleftrightarrow> int (card (set keys - {[]})) < gb_max_attempts b)"
proof -
  have b: "gb_evidence b = {}" "gb_attempts b = 0" "1 \<le> gb_max_attempts b"
    using assms by (auto simp: global_budget_init_def Let_def split: if_splits)
  then have "gb_attempts (record_evidence b keys) = min (gb_max_attempts b) (int (card (set keys - {[]})))"
    "gb_max_attempts (record_evidence b keys) = gb_max_attempts b"
    using record_evidence_count [of b keys] by simp_all
  then show ?thesis by (auto simp: classify_terminal_failure_def budget_exhausted_def)
qed

theorem repair_attempts_bounded_witness:
  "gb_attempts (record_evidence \<lparr>gb_max_attempts = 2, gb_attempts = 0, gb_evidence = {}\<rparr>
     [''a'', ''b'', ''a'', ''c'']) = 2"
  using repair_attempts_bounded [of undefined "Some 2" _ "[''a'', ''b'', ''a'', ''c'']" True]
  by (simp add: global_budget_init_def card_insert_if)

lemma ratio_outside:
  assumes "0 \<le> s" "s \<le> 2 ^ 51" "0 \<le> t" "t \<le> 2 ^ 1000"
  obtains r where "ratio t (Some s) = Inr r" "outside (1 / 2) 2 r \<longleftrightarrow> s \<noteq> 0 \<and> (2 * t < s \<or> 2 * s < t)"
proof (cases "s = 0 \<or> t = 0")
  case True
  with assms(1) show ?thesis
    by (intro that [of "if s = 0 then None else Some 0"]) (auto simp: ratio_def outside_def)
next
  case False
  with assms have st: "0 < s" "0 < t" "s \<le> 2 ^ 51" "s \<le> 2 ^ 53" by auto
  have "t < 2 ^ 1023 * s"
  proof -
    have "t < 2 ^ 1023 * 1"
      using assms(4) power_strict_increasing [of 1000 1023 "2 :: int"] by simp
    also have "\<dots> \<le> 2 ^ 1023 * s" using st(1) by (intro mult_left_mono) auto
    finally show ?thesis .
  qed
  then have "ratio t (Some s) = Inr (Some (quot t s))"
    using st by (simp add: ratio_def py_truediv_pos)
  moreover have "outside (1 / 2) 2 (Some (quot t s)) \<longleftrightarrow> s \<noteq> 0 \<and> (2 * t < s \<or> 2 * s < t)"
    using st quot_ge_half [of t s] quot_le_2 [of t s] by (auto simp: outside_def)
  ultimately show ?thesis by (rule that)
qed

definition shifted :: "int \<times> int \<Rightarrow> bool" where
  "shifted st \<longleftrightarrow> fst st \<noteq> 0 \<and> (2 * snd st < fst st \<or> 2 * fst st < snd st)"

text \<open>With the shipped bandwidth the floating-point conservation check is exact for counts of
  ordinary size: a module is an outlier exactly when one of its non-zero baselines is more than halved or
  more than doubled.\<close>

theorem conservation_exact:
  assumes "\<forall>(s, t) \<in> {(s1, t1), (s2, t2), (s3, t3)}. 0 \<le> s \<and> s \<le> 2 ^ 51 \<and> 0 \<le> t \<and> t \<le> 2 ^ 1000"
  shows "\<exists>f. module_facts (1 / 2) 2 m (Some s1, Some s2, Some s3) (t1, t2, t3) = Inr f
    \<and> (mc_outlier f \<longleftrightarrow> (\<exists>st \<in> {(s1, t1), (s2, t2), (s3, t3)}. shifted st))
    \<and> mc_test_outlier f = Some (shifted (s1, t1)) \<and> mc_assertion_outlier f = Some (shifted (s2, t2))"
proof -
  have bounds: "0 \<le> s1" "s1 \<le> 2 ^ 51" "0 \<le> t1" "t1 \<le> 2 ^ 1000" "0 \<le> s2" "s2 \<le> 2 ^ 51" "0 \<le> t2" "t2 \<le> 2 ^ 1000"
    "0 \<le> s3" "s3 \<le> 2 ^ 51" "0 \<le> t3" "t3 \<le> 2 ^ 1000"
    using assms by simp_all
  obtain r1 where r1: "ratio t1 (Some s1) = Inr r1" "outside (1 / 2) 2 r1 \<longleftrightarrow> s1 \<noteq> 0 \<and> (2 * t1 < s1 \<or> 2 * s1 < t1)"
    by (rule ratio_outside [OF bounds(1-4)])
  obtain r2 where r2: "ratio t2 (Some s2) = Inr r2" "outside (1 / 2) 2 r2 \<longleftrightarrow> s2 \<noteq> 0 \<and> (2 * t2 < s2 \<or> 2 * s2 < t2)"
    by (rule ratio_outside [OF bounds(5-8)])
  obtain r3 where r3: "ratio t3 (Some s3) = Inr r3" "outside (1 / 2) 2 r3 \<longleftrightarrow> s3 \<noteq> 0 \<and> (2 * t3 < s3 \<or> 2 * s3 < t3)"
    by (rule ratio_outside [OF bounds(9-12)])
  show ?thesis
    unfolding module_facts_def Let_def using r1(2) r2(2) r3(2)
    by (simp add: r1(1) r2(1) r3(1) shifted_def)
qed

theorem conservation_exact_witness:
  "\<exists>f. module_facts (1 / 2) 2 ''m'' (Some 10, Some 0, Some 100) (4, 3, 150) = Inr f \<and> mc_outlier f"
  using conservation_exact [of 10 4 0 3 100 150 "''m''"] by (auto simp: shifted_def)

end
