(* ===== verification/Core_Secrets.thy ===== *)
theory Core_Secrets
  imports Complex_Main Prelude
begin

text \<open>
  \<open>core/secrets.py\<close>: the write-only secret registry and the scan every persisted event payload
  goes through. The parameter \<open>sha256\<close> is the digest function of \<open>hashlib\<close>; nothing is assumed of
  it. A Python string is its UTF-8 encoding, so the code points \<open>len\<close> and slicing count are
  recovered by \<open>code_points\<close>.
\<close>

section \<open>JSON-like Python values\<close>

text \<open>
  A dictionary is the list of its items in insertion order. Its keys may be any hashable object, but
  the code only asks whether a key is a string. \<open>PUuid\<close> is a \<open>uuid.UUID\<close> object and
  \<open>PObject\<close> any other object (bytes, ...); sets do not occur, the payloads come from JSON.
\<close>

datatype dict_key = StrKey string | OtherKey

datatype pyval =
    PNone
  | PBool bool
  | PInt int
  | PFloat rat
  | PStr string
  | PList "pyval list"
  | PTuple "pyval list"
  | PDict "(dict_key \<times> pyval) list"
  | PUuid uuid
  | PObject

section \<open>Code points\<close>

definition utf8_cont :: "char \<Rightarrow> bool" where
  "utf8_cont c = (128 \<le> (of_char c :: nat) \<and> (of_char c :: nat) < 192)"

function code_points :: "string \<Rightarrow> string list" where
  "code_points [] = []"
| "code_points (c # cs) = (c # takeWhile utf8_cont cs) # code_points (dropWhile utf8_cont cs)"
  by pat_completeness auto
termination
  by (relation "measure length") (simp_all add: le_imp_less_Suc length_dropWhile_le)

lemma concat_code_points [simp]: "concat (code_points s) = s"
  by (induction s rule: code_points.induct) auto

definition cp_value :: "string \<Rightarrow> nat" where
  "cp_value bytes = (case map of_char bytes of
       [b] \<Rightarrow> b
     | [b, c] \<Rightarrow> (b mod 32) * 64 + c mod 64
     | [b, c, d] \<Rightarrow> (b mod 16) * 4096 + (c mod 64) * 64 + d mod 64
     | [b, c, d, e] \<Rightarrow> (b mod 8) * 262144 + (c mod 64) * 4096 + (d mod 64) * 64 + e mod 64
     | _ \<Rightarrow> 0)"

section \<open>The encoded variants of a secret\<close>

text \<open>\<open>json.dumps(secret, ensure_ascii=True)[1:-1]\<close>.\<close>

definition json_escape_point :: "nat \<Rightarrow> string" where
  "json_escape_point n =
     (if n = 34 then [CHR 0x5C, CHR 0x22]
      else if n = 92 then [CHR 0x5C, CHR 0x5C]
      else if n = 10 then [CHR 0x5C, CHR ''n'']
      else if n = 13 then [CHR 0x5C, CHR ''r'']
      else if n = 9 then [CHR 0x5C, CHR ''t'']
      else if n = 12 then [CHR 0x5C, CHR ''f'']
      else if n = 8 then [CHR 0x5C, CHR ''b'']
      else if 32 \<le> n \<and> n < 127 then [char_of n]
      else if n < 65536 then CHR 0x5C # CHR ''u'' # hex_digits 4 n
      else CHR 0x5C # CHR ''u'' # hex_digits 4 (55296 + (n - 65536) div 1024)
             @ CHR 0x5C # CHR ''u'' # hex_digits 4 (56320 + (n - 65536) mod 1024))"

definition json_escape :: "string \<Rightarrow> string" where
  "json_escape s = concat (map (json_escape_point \<circ> cp_value) (code_points s))"

text \<open>\<open>base64.b64encode\<close>.\<close>

definition base64_char :: "nat \<Rightarrow> char" where
  "base64_char n =
     (if n < 26 then char_of (65 + n) else if n < 52 then char_of (71 + n)
      else if n < 62 then char_of (n - 4) else if n = 62 then CHR ''+'' else CHR ''/'')"

fun base64 :: "nat list \<Rightarrow> string" where
  "base64 [] = []"
| "base64 [a] = [base64_char (a div 4), base64_char (a mod 4 * 16), CHR ''='', CHR ''='']"
| "base64 [a, b] =
     [base64_char (a div 4), base64_char (a mod 4 * 16 + b div 16), base64_char (b mod 16 * 4), CHR ''='']"
| "base64 (a # b # c # rest) =
     base64_char (a div 4) # base64_char (a mod 4 * 16 + b div 16)
       # base64_char (b mod 16 * 4 + c div 64) # base64_char (c mod 64) # base64 rest"

text \<open>\<open>urllib.parse.quote(secret, safe="")\<close>.\<close>

definition unreserved :: "nat \<Rightarrow> bool" where
  "unreserved n \<longleftrightarrow> 48 \<le> n \<and> n < 58 \<or> 65 \<le> n \<and> n < 91 \<or> 97 \<le> n \<and> n < 123
     \<or> n = 45 \<or> n = 46 \<or> n = 95 \<or> n = 126"

definition hex_upper :: "nat \<Rightarrow> char" where
  "hex_upper d = (if d < 10 then char_of (48 + d) else char_of (55 + d))"

definition quote_byte :: "nat \<Rightarrow> string" where
  "quote_byte n = (if unreserved n then [char_of n] else [CHR ''%'', hex_upper (n div 16), hex_upper (n mod 16)])"

definition quote_all :: "string \<Rightarrow> string" where
  "quote_all s = concat (map (quote_byte \<circ> of_char) s)"

definition encoded_variants :: "string \<Rightarrow> string list" where
  "encoded_variants secret =
     from_keys [secret, json_escape secret, base64 (map of_char secret), quote_all secret]"

section \<open>Registration\<close>

type_synonym fingerprint = "nat \<times> string"

definition fingerprints :: "(string \<Rightarrow> string) \<Rightarrow> string list \<Rightarrow> fingerprint list" where
  "fingerprints sha256 variants =
     from_keys (map (\<lambda>variant. (length (code_points variant), sha256 variant))
       (filter (\<lambda>variant. variant \<noteq> []) variants))"

definition register :: "(string \<Rightarrow> string) \<Rightarrow> fingerprint list \<Rightarrow> string \<Rightarrow> fingerprint list res" where
  "register sha256 registry secret =
     (if secret = [] then Inl (ValueError ''secret must be a non-empty string'')
      else Inr (from_keys (registry @ fingerprints sha256 (encoded_variants secret))))"

section \<open>Scanning\<close>

definition contains_secret :: "(string \<Rightarrow> string) \<Rightarrow> fingerprint list \<Rightarrow> string \<Rightarrow> bool" where
  "contains_secret sha256 registry value =
     (let chars = code_points value
      in list_ex (\<lambda>(len, expected).
           len \<le> length chars
           \<and> list_ex (\<lambda>start. sha256 (concat (take len (drop start chars))) = expected)
               [0..<length chars - len + 1]) registry)"

definition FORBIDDEN_FIELDS :: "string list" where
  "FORBIDDEN_FIELDS =
     [''access_token'', ''api_key'', ''authorization'', ''body'', ''command'', ''content'', ''cookie'',
      ''credential'', ''database_url'', ''dsn'', ''full_path'', ''host_path'', ''message'', ''messages'',
      ''new_text'', ''old_text'', ''password'', ''path'', ''private_key'', ''prompt'', ''raw_output'',
      ''script'', ''secret'', ''source'', ''source_code'', ''stderr'', ''stdout'', ''token'', ''tool_output'']"

text \<open>
  \<open>str.casefold\<close>, as far as membership in a set of ASCII strings can tell: the ASCII letters and the
  code points whose full case folding is ASCII (sharp s, long s, the Kelvin sign and the Latin
  ligatures). Every other code point folds to a string with a non-ASCII code point and is kept.
\<close>

definition casefold_point :: "string \<Rightarrow> string" where
  "casefold_point cp =
     (let n = cp_value cp in
      if 65 \<le> n \<and> n < 91 then [char_of (n + 32)]
      else if n = 0xDF \<or> n = 0x1E9E then ''ss''
      else if n = 0x17F then ''s''
      else if n = 0x212A then ''k''
      else if n = 0xFB00 then ''ff'' else if n = 0xFB01 then ''fi'' else if n = 0xFB02 then ''fl''
      else if n = 0xFB03 then ''ffi'' else if n = 0xFB04 then ''ffl''
      else if n = 0xFB05 \<or> n = 0xFB06 then ''st''
      else cp)"

definition casefold :: "string \<Rightarrow> string" where
  "casefold s = concat (map casefold_point (code_points s))"

datatype blocked = BlockedSecret | BlockedField | BlockedType

fun scan_value :: "(string \<Rightarrow> string) \<Rightarrow> fingerprint list \<Rightarrow> pyval \<Rightarrow> blocked + pyval"
and scan_items :: "(string \<Rightarrow> string) \<Rightarrow> fingerprint list \<Rightarrow> pyval list \<Rightarrow> blocked + pyval list"
and scan_entries ::
  "(string \<Rightarrow> string) \<Rightarrow> fingerprint list \<Rightarrow> (dict_key \<times> pyval) list \<Rightarrow> blocked + (dict_key \<times> pyval) list" where
  "scan_value sha256 fps (PStr s) = (if contains_secret sha256 fps s then Inl BlockedSecret else Inr (PStr s))"
| "scan_value sha256 fps PNone = Inr PNone"
| "scan_value sha256 fps (PBool b) = Inr (PBool b)"
| "scan_value sha256 fps (PInt i) = Inr (PInt i)"
| "scan_value sha256 fps (PFloat x) = Inr (PFloat x)"
| "scan_value sha256 fps (PDict entries) = map_sum id PDict (scan_entries sha256 fps entries)"
| "scan_value sha256 fps (PList items) = map_sum id PList (scan_items sha256 fps items)"
| "scan_value sha256 fps (PTuple items) = map_sum id PTuple (scan_items sha256 fps items)"
| "scan_value sha256 fps (PUuid u) = Inl BlockedType"
| "scan_value sha256 fps PObject = Inl BlockedType"
| "scan_items sha256 fps [] = Inr []"
| "scan_items sha256 fps (v # vs) =
     (case scan_value sha256 fps v of Inl b \<Rightarrow> Inl b | Inr w \<Rightarrow> map_sum id ((#) w) (scan_items sha256 fps vs))"
| "scan_entries sha256 fps [] = Inr []"
| "scan_entries sha256 fps ((OtherKey, v) # rest) = Inl BlockedType"
| "scan_entries sha256 fps ((StrKey k, v) # rest) =
     (if casefold k \<in> set FORBIDDEN_FIELDS then Inl BlockedField
      else case scan_value sha256 fps v of
             Inl b \<Rightarrow> Inl b
           | Inr w \<Rightarrow> map_sum id ((#) (StrKey k, w)) (scan_entries sha256 fps rest))"

datatype redaction_result = Accepted_value pyval | Rejected_value string

definition redact :: "(string \<Rightarrow> string) \<Rightarrow> fingerprint list \<Rightarrow> pyval \<Rightarrow> redaction_result" where
  "redact sha256 registry value =
     (case scan_value sha256 registry value of
        Inl BlockedSecret \<Rightarrow> Rejected_value ''secret_match''
      | Inl BlockedField \<Rightarrow> Rejected_value ''sensitive_field''
      | Inl BlockedType \<Rightarrow> Rejected_value ''unsupported_value''
      | Inr v \<Rightarrow> Accepted_value v)"

section \<open>What a scan guarantees\<close>

text \<open>The strings and the keys of a value, at every depth.\<close>

fun strings_of :: "pyval \<Rightarrow> string list" where
  "strings_of (PStr s) = [s]"
| "strings_of (PList vs) = concat (map strings_of vs)"
| "strings_of (PTuple vs) = concat (map strings_of vs)"
| "strings_of (PDict kvs) = concat (map (\<lambda>(k, v). strings_of v) kvs)"
| "strings_of _ = []"

fun keys_of :: "pyval \<Rightarrow> dict_key list" where
  "keys_of (PList vs) = concat (map keys_of vs)"
| "keys_of (PTuple vs) = concat (map keys_of vs)"
| "keys_of (PDict kvs) = concat (map (\<lambda>(k, v). k # keys_of v) kvs)"
| "keys_of _ = []"

fun plain :: "pyval \<Rightarrow> bool" where
  "plain (PList vs) = list_all plain vs"
| "plain (PTuple vs) = list_all plain vs"
| "plain (PDict kvs) = list_all (\<lambda>(k, v). plain v) kvs"
| "plain (PUuid u) = False"
| "plain PObject = False"
| "plain _ = True"

definition safe_key :: "dict_key \<Rightarrow> bool" where
  "safe_key k = (case k of StrKey s \<Rightarrow> casefold s \<notin> set FORBIDDEN_FIELDS | OtherKey \<Rightarrow> False)"

definition safe_value :: "(string \<Rightarrow> string) \<Rightarrow> fingerprint list \<Rightarrow> pyval \<Rightarrow> bool" where
  "safe_value sha256 registry v \<longleftrightarrow>
     plain v \<and> (\<forall>k \<in> set (keys_of v). safe_key k)
     \<and> (\<forall>s \<in> set (strings_of v). \<not> contains_secret sha256 registry s)"

lemma safe_value_simps [simp]:
  "safe_value sha fps PNone" "safe_value sha fps (PBool b)" "safe_value sha fps (PInt i)"
  "safe_value sha fps (PFloat x)" "\<not> safe_value sha fps PObject" "\<not> safe_value sha fps (PUuid u)"
  "safe_value sha fps (PStr s) \<longleftrightarrow> \<not> contains_secret sha fps s"
  "safe_value sha fps (PList vs) \<longleftrightarrow> (\<forall>v \<in> set vs. safe_value sha fps v)"
  "safe_value sha fps (PTuple vs) \<longleftrightarrow> (\<forall>v \<in> set vs. safe_value sha fps v)"
  "safe_value sha fps (PDict kvs) \<longleftrightarrow> (\<forall>(k, v) \<in> set kvs. safe_key k \<and> safe_value sha fps v)"
  by (auto simp: safe_value_def list_all_iff split: prod.splits)

lemma scan_exact:
  "case scan_value sha fps v of Inl _ \<Rightarrow> \<not> safe_value sha fps v | Inr w \<Rightarrow> w = v \<and> safe_value sha fps v"
  "case scan_items sha fps vs of
     Inl _ \<Rightarrow> \<not> (\<forall>v \<in> set vs. safe_value sha fps v)
   | Inr ws \<Rightarrow> ws = vs \<and> (\<forall>v \<in> set vs. safe_value sha fps v)"
  "case scan_entries sha fps es of
     Inl _ \<Rightarrow> \<not> (\<forall>(k, v) \<in> set es. safe_key k \<and> safe_value sha fps v)
   | Inr es' \<Rightarrow> es' = es \<and> (\<forall>(k, v) \<in> set es. safe_key k \<and> safe_value sha fps v)"
proof (induction sha fps v and sha fps vs and sha fps es rule: scan_value_scan_items_scan_entries.induct)
  case (15 sha fps k v rest)
  show ?case
  proof (cases "casefold k \<in> set FORBIDDEN_FIELDS")
    case False
    with 15 show ?thesis
      by (simp add: safe_key_def split: sum.splits)
  qed (simp add: safe_key_def)
qed (simp_all add: safe_key_def split: sum.splits)

text \<open>Registering a sequence of secrets, one \<open>register\<close> call after the other.\<close>

fun register_all :: "(string \<Rightarrow> string) \<Rightarrow> fingerprint list \<Rightarrow> string list \<Rightarrow> fingerprint list res" where
  "register_all sha256 registry [] = Inr registry"
| "register_all sha256 registry (secret # secrets) =
     (case register sha256 registry secret of
        Inl e \<Rightarrow> Inl e
      | Inr registry' \<Rightarrow> register_all sha256 registry' secrets)"

lemma register_all_keeps:
  "register_all sha256 registry secrets = Inr registry' \<Longrightarrow> set registry \<subseteq> set registry'"
  by (induction secrets arbitrary: registry) (fastforce simp: register_def split: if_splits)+

lemma register_all_contains:
  assumes "register_all sha256 registry secrets = Inr registry'" "secret \<in> set secrets"
  shows "set (fingerprints sha256 (encoded_variants secret)) \<subseteq> set registry'"
  using assms
proof (induction secrets arbitrary: registry)
  case (Cons x xs)
  then obtain r where r: "register sha256 registry x = Inr r" "register_all sha256 r xs = Inr registry'"
    by (auto split: sum.splits)
  show ?case
  proof (cases "secret = x")
    case True
    with r(1) have "set (fingerprints sha256 (encoded_variants secret)) \<subseteq> set r"
      by (auto simp: register_def split: if_splits)
    with register_all_keeps [OF r(2)] show ?thesis by blast
  next
    case False
    with Cons.IH [OF r(2)] Cons.prems(2) show ?thesis by simp
  qed
qed simp

lemma contains_secret_window:
  assumes "(length (code_points variant), sha256 variant) \<in> set registry"
    and "sublist (code_points variant) (code_points s)"
  shows "contains_secret sha256 registry s"
proof -
  from assms(2) obtain pre post where s: "code_points s = pre @ code_points variant @ post"
    by (auto simp: sublist_def)
  let ?n = "length (code_points variant)"
  have "?n \<le> length (code_points s)" by (simp add: s)
  moreover have "length pre \<in> set [0..<length (code_points s) - ?n + 1]" by (simp add: s)
  moreover have "sha256 (concat (take ?n (drop (length pre) (code_points s)))) = sha256 variant"
    by (simp add: s)
  ultimately have "?n \<le> length (code_points s) \<and> (\<exists>start \<in> set [0..<length (code_points s) - ?n + 1].
      sha256 (concat (take ?n (drop start (code_points s)))) = sha256 variant)"
    by (intro conjI bexI [where x = "length pre"])
  with assms(1) show ?thesis
    unfolding contains_secret_def Let_def list_ex_iff
    by (intro bexI [where x = "(?n, sha256 variant)"]) (simp_all add: list_ex_iff)
qed

text \<open>C12: The secret scan fails closed on values. When the registry of the secrets registered so far accepts
  a payload, the accepted payload is the payload itself, no string value inside it (at any depth) has a
  registered secret among its code points, in plain, JSON-escaped, base64 or percent-encoded form, it
  holds only JSON-like values, and no key at any depth case-folds to a forbidden field. Keys of mappings are only
  compared with the forbidden fields: the scan does not look for secrets in them.\<close>

theorem redact_sound:
  assumes "register_all sha256 [] secrets = Inr registry"
    and "redact sha256 registry v = Accepted_value w"
  shows "w = v \<and> plain v
    \<and> (\<forall>k \<in> set (keys_of v). \<exists>name. k = StrKey name \<and> casefold name \<notin> set FORBIDDEN_FIELDS)
    \<and> (\<forall>s \<in> set (strings_of v). \<forall>secret \<in> set secrets. \<forall>variant \<in> set (encoded_variants secret).
         variant \<noteq> [] \<longrightarrow> \<not> sublist (code_points variant) (code_points s))"
proof -
  have "scan_value sha256 registry v = Inr w"
    using assms(2) by (auto simp: redact_def split: sum.splits blocked.splits)
  with scan_exact(1) [of sha256 registry v] have w: "w = v" and safe: "safe_value sha256 registry v"
    by simp_all
  have "\<not> sublist (code_points variant) (code_points s)"
    if "s \<in> set (strings_of v)" "secret \<in> set secrets" "variant \<in> set (encoded_variants secret)"
      "variant \<noteq> []" for s secret variant
  proof -
    from that have "(length (code_points variant), sha256 variant) \<in> set (fingerprints sha256 (encoded_variants secret))"
      by (auto simp: fingerprints_def)
    with register_all_contains [OF assms(1) that(2)] have "(length (code_points variant), sha256 variant) \<in> set registry"
      by blast
    moreover from safe that(1) have "\<not> contains_secret sha256 registry s" by (simp add: safe_value_def)
    ultimately show ?thesis using contains_secret_window by blast
  qed
  moreover have "\<exists>name. k = StrKey name \<and> casefold name \<notin> set FORBIDDEN_FIELDS" if "k \<in> set (keys_of v)" for k
    using safe that by (cases k) (auto simp: safe_value_def safe_key_def)
  ultimately show ?thesis
    using w safe by (simp add: safe_value_def)
qed

definition ex_sha :: "string \<Rightarrow> string" where
  "ex_sha s = rev s"

definition ex_registry :: "fingerprint list" where
  "ex_registry = [(2, ''!k''), (4, ''=Eya''), (4, ''12%k'')]"

definition ex_payload :: pyval where
  "ex_payload = PDict [(StrKey ''kind'', PStr ''ok k?''), (StrKey ''n'', PList [PInt 3, PNone])]"

lemmas scan_eval = register_def encoded_variants_def fingerprints_def json_escape_def json_escape_point_def
  cp_value_def utf8_cont_def base64_char_def quote_all_def quote_byte_def unreserved_def hex_upper_def
  contains_secret_def casefold_def casefold_point_def FORBIDDEN_FIELDS_def char_of_eq_iff

lemma ex_register: "register_all ex_sha [] [''k!''] = Inr ex_registry"
  by (simp add: scan_eval ex_sha_def ex_registry_def)

lemma ex_redact: "redact ex_sha ex_registry ex_payload = Accepted_value ex_payload"
  by (simp add: redact_def scan_eval ex_sha_def ex_registry_def ex_payload_def upt_rec Let_def)

lemma ex_variant: "''k!'' \<in> set (encoded_variants ''k!'')"
  by (simp add: encoded_variants_def)

theorem redact_sound_witness:
  "redact ex_sha ex_registry ex_payload = Accepted_value ex_payload \<and> plain ex_payload
   \<and> \<not> sublist (code_points ''k!'') (code_points ''ok k?'')"
proof -
  have "''ok k?'' \<in> set (strings_of ex_payload)" by (simp add: ex_payload_def)
  with redact_sound [OF ex_register ex_redact] ex_redact ex_variant show ?thesis
    by (metis list.set_intros(1) list.distinct(1))
qed

text \<open>A secret that is the key of a mapping passes the scan.\<close>

lemma secret_key_accepted:
  "redact ex_sha ex_registry (PDict [(StrKey ''k!'', PInt 1)]) = Accepted_value (PDict [(StrKey ''k!'', PInt 1)])"
  by (simp add: redact_def scan_eval ex_sha_def ex_registry_def)

end
