(* ===== verification/Py_Uuid.thy ===== *)
theory Py_Uuid
  imports Prelude
begin

text \<open>
  \<open>uuid.UUID(text)\<close> of the standard library: the prefixes \<open>urn:\<close> and \<open>uuid:\<close>, surrounding braces
  and all hyphens are removed, the rest must be 32 characters that \<open>int(text, 16)\<close> accepts and
  denote a 128-bit number. The text is ASCII; the non-ASCII decimal digits \<open>int\<close> also knows are
  not decoded.
\<close>

section \<open>\<open>int(text, 16)\<close>\<close>

definition hex_val :: "char \<Rightarrow> nat option" where
  "hex_val c =
     (let n = of_char c :: nat in
      if 48 \<le> n \<and> n < 58 then Some (n - 48)
      else if 65 \<le> n \<and> n < 71 then Some (n - 55)
      else if 97 \<le> n \<and> n < 103 then Some (n - 87)
      else None)"

text \<open>Digits, with single underscores between them.\<close>

fun hex_run :: "nat \<Rightarrow> string \<Rightarrow> nat option" where
  "hex_run acc [] = Some acc"
| "hex_run acc [c] = map_option (\<lambda>v. acc * 16 + v) (hex_val c)"
| "hex_run acc (c # d # cs) =
     (if c = CHR ''_''
      then (case hex_val d of None \<Rightarrow> None | Some v \<Rightarrow> hex_run (acc * 16 + v) cs)
      else (case hex_val c of None \<Rightarrow> None | Some v \<Rightarrow> hex_run (acc * 16 + v) (d # cs)))"

definition hex_number :: "string \<Rightarrow> nat option" where
  "hex_number s = (case s of
       [] \<Rightarrow> None
     | c # cs \<Rightarrow> (case hex_val c of None \<Rightarrow> None | Some v \<Rightarrow> hex_run v cs))"

definition py_space :: "char \<Rightarrow> bool" where
  "py_space c = (let n = of_char c :: nat in 9 \<le> n \<and> n \<le> 13 \<or> 28 \<le> n \<and> n \<le> 32)"

definition strip_if :: "('a \<Rightarrow> bool) \<Rightarrow> 'a list \<Rightarrow> 'a list" where
  "strip_if p s = rev (dropWhile p (rev (dropWhile p s)))"

definition unprefix_hex :: "string \<Rightarrow> string" where
  "unprefix_hex s =
     (if take 2 s = ''0x'' \<or> take 2 s = ''0X''
      then (if take 1 (drop 2 s) = ''_'' then drop 3 s else drop 2 s)
      else s)"

definition int16 :: "string \<Rightarrow> int option" where
  "int16 s =
     (let t = strip_if py_space s in
      if take 1 t = ''-'' then map_option (\<lambda>n. - int n) (hex_number (unprefix_hex (drop 1 t)))
      else if take 1 t = ''+'' then map_option int (hex_number (unprefix_hex (drop 1 t)))
      else map_option int (hex_number (unprefix_hex t)))"

section \<open>\<open>UUID(text)\<close>\<close>

text \<open>\<open>s.replace(pat, "")\<close> for a non-empty pattern.\<close>

function remove_all :: "string \<Rightarrow> string \<Rightarrow> string" where
  "remove_all pat s =
     (case s of
        [] \<Rightarrow> []
      | c # cs \<Rightarrow> if pat \<noteq> [] \<and> take (length pat) s = pat then remove_all pat (drop (length pat) s)
                  else c # remove_all pat cs)"
  by pat_completeness auto
termination
  by (relation "measure (\<lambda>(pat, s). length s)") auto

declare remove_all.simps [simp del]

definition parse_uuid :: "string \<Rightarrow> uuid option" where
  "parse_uuid text =
     (let digits = filter (\<lambda>c. c \<noteq> CHR ''-'')
            (strip_if (\<lambda>c. c = CHR ''{'' \<or> c = CHR ''}'') (remove_all ''uuid:'' (remove_all ''urn:'' text)))
      in if length digits \<noteq> 32 then None
         else case int16 digits of
                None \<Rightarrow> None
              | Some n \<Rightarrow> if 0 \<le> n \<and> n < 2 ^ 128 then Some (word_of_int n) else None)"

section \<open>The printed form parses back\<close>

lemma hex_val_hex_char: "d < 16 \<Longrightarrow> hex_val (hex_char d) = Some d"
proof -
  assume "d < 16"
  then have "d \<in> set [0..<16]" by simp
  moreover have "\<forall>d \<in> set [0..<16]. hex_val (hex_char d) = Some d"
    by (simp add: upt_rec hex_val_def hex_char_def)
  ultimately show ?thesis by blast
qed

lemma hex_char_plain:
  assumes "d < 16"
  shows "hex_char d \<notin> set ''-_+xXu{}'' \<and> \<not> py_space (hex_char d)"
proof -
  have "\<forall>d \<in> set [0..<16]. hex_char d \<notin> set ''-_+xXu{}'' \<and> \<not> py_space (hex_char d)"
    by (simp add: upt_rec hex_char_def py_space_def char_of_eq_iff)
  then show ?thesis using assms by simp
qed

definition hex_text :: "string \<Rightarrow> bool" where
  "hex_text s \<longleftrightarrow> (\<forall>c \<in> set s. \<exists>d < 16. c = hex_char d)"

lemma hex_text_hex_digits: "hex_text (hex_digits k n)"
  unfolding hex_text_def hex_digits_def by auto (metis mod_less_divisor zero_less_numeral)

lemma length_hex_digits [simp]: "length (hex_digits k n) = k"
  by (simp add: hex_digits_def)

lemma hex_digits_Suc: "hex_digits (Suc k) n = hex_char (n div 16 ^ k mod 16) # hex_digits k n"
proof -
  have "map (\<lambda>i. hex_char (n div 16 ^ (Suc k - 1 - i) mod 16)) [1..<Suc k] = hex_digits k n"
    by (rule nth_equalityI) (simp_all add: hex_digits_def del: upt_Suc)
  then show ?thesis
    by (simp add: hex_digits_def upt_conv_Cons del: upt_Suc)
qed

lemma hex_run_step:
  assumes "d < 16"
  shows "hex_run acc (hex_char d # cs) = hex_run (acc * 16 + d) cs"
proof -
  have "hex_char d \<noteq> CHR ''_''" using hex_char_plain [OF assms] by auto
  then show ?thesis
    using assms by (cases cs) (simp_all add: hex_val_hex_char)
qed

lemma hex_run_digits: "hex_run acc (hex_digits k n) = Some (acc * 16 ^ k + n mod 16 ^ k)"
proof (induction k arbitrary: acc)
  case 0
  then show ?case by (simp add: hex_digits_def)
next
  case (Suc k)
  have "n mod 16 ^ Suc k = n div 16 ^ k mod 16 * 16 ^ k + n mod 16 ^ k"
    using mod_mult2_eq [of n "16 ^ k" 16] by (simp add: mult.commute)
  then show ?case
    by (simp add: hex_digits_Suc hex_run_step Suc.IH algebra_simps)
qed

lemma hex_number_digits:
  assumes "0 < k"
  shows "hex_number (hex_digits k n) = Some (n mod 16 ^ k)"
proof -
  obtain j where k: "k = Suc j" using assms by (cases k) auto
  have "hex_number (hex_digits k n) = hex_run 0 (hex_digits k n)"
    by (simp add: k hex_digits_Suc hex_number_def hex_val_hex_char hex_run_step)
  then show ?thesis by (simp add: hex_run_digits)
qed

lemma strip_if_id: "\<forall>c \<in> set s. \<not> p c \<Longrightarrow> strip_if p s = s"
  by (simp add: strip_if_def dropWhile_eq_self_iff) (metis dropWhile_eq_self_iff hd_in_set rev_rev_ident set_rev)

lemma remove_all_id:
  assumes "p \<notin> set s"
  shows "remove_all (p # pat) s = s"
  using assms
proof (induction s)
  case (Cons c cs)
  then show ?case by (subst remove_all.simps) auto
qed (simp add: remove_all.simps)

lemma int16_digits:
  assumes "0 < k"
  shows "int16 (hex_digits k n) = Some (int (n mod 16 ^ k))"
proof -
  obtain j where k: "k = Suc j" using assms by (cases k) auto
  have hx: "\<exists>d < 16. c = hex_char d" if "c \<in> set (hex_digits k n)" for c
    using hex_text_hex_digits that by (auto simp: hex_text_def)
  have s: "strip_if py_space (hex_digits k n) = hex_digits k n"
    by (rule strip_if_id) (use hx hex_char_plain in blast)
  have x: "CHR ''x'' \<notin> set (hex_digits k n)" "CHR ''X'' \<notin> set (hex_digits k n)"
    using hx hex_char_plain by fastforce+
  have t: "take 2 (hex_digits k n) \<noteq> ''0x''" "take 2 (hex_digits k n) \<noteq> ''0X''"
    using x in_set_takeD [of _ 2 "hex_digits k n"] by (metis list.set_intros(1) list.set_intros(2))+
  have u: "unprefix_hex (hex_digits k n) = hex_digits k n"
    by (simp add: unprefix_hex_def t)
  have "hex_char (n div 16 ^ j mod 16) \<noteq> CHR ''-''" "hex_char (n div 16 ^ j mod 16) \<noteq> CHR ''+''"
    using hex_char_plain [of "n div 16 ^ j mod 16"] by auto
  then have "int16 (hex_digits k n) = map_option int (hex_number (unprefix_hex (hex_digits k n)))"
    unfolding int16_def s Let_def by (simp add: k hex_digits_Suc)
  then show ?thesis by (simp add: u hex_number_digits assms)
qed

theorem parse_str_uuid: "parse_uuid (str_uuid u) = Some u"
proof -
  let ?h = "hex_digits 32 (unat u)"
  have hx: "\<exists>d < 16. c = hex_char d" if "c \<in> set ?h" for c
    using hex_text_hex_digits that by (auto simp: hex_text_def)
  have in_h: "c \<in> set ?h" if "c \<in> set (str_uuid u)" "c \<noteq> CHR ''-''" for c
    using that by (auto simp: str_uuid_def Let_def dest: in_set_takeD in_set_dropD)
  have plain: "c \<notin> set ''u{}''" if "c \<in> set (str_uuid u)" for c
    using in_h [OF that] hx [of c] hex_char_plain by (cases "c = CHR ''-''") fastforce+
  then have "CHR ''u'' \<notin> set (str_uuid u)" by auto
  then have r: "remove_all ''uuid:'' (remove_all ''urn:'' (str_uuid u)) = str_uuid u"
    by (simp add: remove_all_id)
  have s: "strip_if (\<lambda>c. c = CHR ''{'' \<or> c = CHR ''}'') (str_uuid u) = str_uuid u"
    by (rule strip_if_id) (use plain in auto)
  have no_dash: "CHR ''-'' \<notin> set ?h" using hx hex_char_plain by fastforce
  have f: "filter (\<lambda>c. c \<noteq> CHR ''-'') (take i (drop j ?h)) = take i (drop j ?h)" for i j
  proof (rule filter_True, rule ballI)
    fix c assume "c \<in> set (take i (drop j ?h))"
    then have "c \<in> set ?h" by (blast dest: in_set_takeD in_set_dropD)
    with no_dash show "c \<noteq> CHR ''-''" by blast
  qed
  have d: "filter (\<lambda>c. c \<noteq> CHR ''-'') (str_uuid u) = ?h"
  proof -
    have "filter (\<lambda>c. c \<noteq> CHR ''-'') (str_uuid u)
        = take 8 ?h @ take 4 (drop 8 ?h) @ take 4 (drop 12 ?h) @ take 4 (drop 16 ?h) @ drop 20 ?h"
      using f [of 8 0] f [of 4 8] f [of 4 12] f [of 4 16] f [of 32 20]
      by (simp add: str_uuid_def Let_def)
    also have "\<dots> = ?h"
      by (rule nth_equalityI) (auto simp: nth_append)
    finally show ?thesis .
  qed
  have "unat u < 16 ^ 32" using unsigned_less [of u, where 'a = nat] by simp
  moreover have "uint u < 2 ^ 128" using unsigned_less [of u, where 'a = int] by simp
  moreover have "int16 ?h = Some (int (unat u mod 16 ^ 32))" by (rule int16_digits) simp
  ultimately show ?thesis
    by (simp add: parse_uuid_def r s d)
qed

lemma str_uuid_inj: "str_uuid u = str_uuid v \<longleftrightarrow> u = v"
  by (metis option.inject parse_str_uuid)

end
