(* ===== verification/Runtime_Contracts.thy ===== *)
theory Runtime_Contracts
  imports Core_Enums Core_Paths Core_Secrets Py_Uuid Budget Verification_Checks
begin

text \<open>
  The immutable facts of the runtime: \<open>runtime/agent_runs.py\<close>, the run state, events and receipts of
  \<open>runtime/contracts.py\<close>, and the core models they are built from (\<open>core/models/run.py\<close>,
  \<open>core/models/slice.py\<close>, \<open>core/models/verification.py\<close>, \<open>core/models/context.py\<close>). A constructor
  whose \<open>__post_init__\<close> raises is a function into results; the fields' static types are the types of
  the record.
\<close>

section \<open>Enumeration values\<close>

fun run_status_value :: "run_status \<Rightarrow> string" where
  "run_status_value Created = ''CREATED''"
| "run_status_value Planning = ''PLANNING''"
| "run_status_value Executing = ''EXECUTING''"
| "run_status_value Verifying = ''VERIFYING''"
| "run_status_value Reporting = ''REPORTING''"
| "run_status_value Completed = ''COMPLETED''"
| "run_status_value PartiallyCompleted = ''PARTIALLY_COMPLETED''"
| "run_status_value Failed = ''FAILED''"
| "run_status_value Cancelled = ''CANCELLED''"

definition run_statuses :: "run_status list" where
  "run_statuses = [Created, Planning, Executing, Verifying, Reporting, Completed, PartiallyCompleted,
     Failed, Cancelled]"

fun failure_reason_value :: "failure_reason \<Rightarrow> string" where
  "failure_reason_value AnalysisFailed = ''ANALYSIS_FAILED''"
| "failure_reason_value DossierInconsistent = ''DOSSIER_INCONSISTENT''"
| "failure_reason_value PlanFailedReason = ''PLAN_FAILED''"
| "failure_reason_value ExecutionFailed = ''EXECUTION_FAILED''"
| "failure_reason_value VerificationTerminal = ''VERIFICATION_TERMINAL''"
| "failure_reason_value ReportGenerationFailed = ''REPORT_GENERATION_FAILED''"
| "failure_reason_value BudgetExhausted = ''BUDGET_EXHAUSTED''"
| "failure_reason_value ResourceExhausted = ''RESOURCE_EXHAUSTED''"
| "failure_reason_value OutputLimitExceededReason = ''OUTPUT_LIMIT_EXCEEDED''"
| "failure_reason_value SliceRegenerationExhausted = ''SLICE_REGENERATION_EXHAUSTED''"
| "failure_reason_value NondeterministicVerification = ''NONDETERMINISTIC_VERIFICATION''"

definition failure_reasons :: "failure_reason list" where
  "failure_reasons = [AnalysisFailed, DossierInconsistent, PlanFailedReason, ExecutionFailed,
     VerificationTerminal, ReportGenerationFailed, BudgetExhausted, ResourceExhausted,
     OutputLimitExceededReason, SliceRegenerationExhausted, NondeterministicVerification]"

fun phase_value :: "phase \<Rightarrow> string" where
  "phase_value PhPlan = ''PLAN''"
| "phase_value PhExecute = ''EXECUTE''"
| "phase_value PhVerify = ''VERIFY''"
| "phase_value PhReport = ''REPORT''"

definition phases :: "phase list" where
  "phases = [PhPlan, PhExecute, PhVerify, PhReport]"

fun session_kind_value :: "session_kind \<Rightarrow> string" where
  "session_kind_value AnalyzeAuxiliary = ''ANALYZE_AUXILIARY''"
| "session_kind_value PlanAuxiliary = ''PLAN_AUXILIARY''"
| "session_kind_value SkContract = ''CONTRACT''"
| "session_kind_value SkImplementation = ''IMPLEMENTATION''"
| "session_kind_value SkTestTranslation = ''TEST_TRANSLATION''"
| "session_kind_value SkTestGeneration = ''TEST_GENERATION''"
| "session_kind_value ExploreCoordinator = ''EXPLORE_COORDINATOR''"
| "session_kind_value ExecuteSupervisor = ''EXECUTE_SUPERVISOR''"
| "session_kind_value RepairSession = ''REPAIR_SESSION''"

definition session_kinds :: "session_kind list" where
  "session_kinds = [AnalyzeAuxiliary, PlanAuxiliary, SkContract, SkImplementation, SkTestTranslation,
     SkTestGeneration, ExploreCoordinator, ExecuteSupervisor, RepairSession]"

datatype session_state = SsCreated | SsRunning | SsCheckpointPending | SsClosed | SsInvalidated | SsFailed

fun session_state_value :: "session_state \<Rightarrow> string" where
  "session_state_value SsCreated = ''CREATED''"
| "session_state_value SsRunning = ''RUNNING''"
| "session_state_value SsCheckpointPending = ''CHECKPOINT_PENDING''"
| "session_state_value SsClosed = ''CLOSED''"
| "session_state_value SsInvalidated = ''INVALIDATED''"
| "session_state_value SsFailed = ''FAILED''"

definition session_states :: "session_state list" where
  "session_states = [SsCreated, SsRunning, SsCheckpointPending, SsClosed, SsInvalidated, SsFailed]"

datatype session_exit = SxCompleted | SxFailed | SxBudgetExhausted | SxSegmentStopped | SxInvalidated

fun session_exit_value :: "session_exit \<Rightarrow> string" where
  "session_exit_value SxCompleted = ''COMPLETED''"
| "session_exit_value SxFailed = ''FAILED''"
| "session_exit_value SxBudgetExhausted = ''BUDGET_EXHAUSTED''"
| "session_exit_value SxSegmentStopped = ''SEGMENT_STOPPED''"
| "session_exit_value SxInvalidated = ''INVALIDATED''"

definition session_exits :: "session_exit list" where
  "session_exits = [SxCompleted, SxFailed, SxBudgetExhausted, SxSegmentStopped, SxInvalidated]"

text \<open>\<open>SomeEnum(value)\<close>: the member with that value, or \<open>ValueError\<close>.\<close>

definition enum_of :: "('a \<Rightarrow> string) \<Rightarrow> 'a list \<Rightarrow> string \<Rightarrow> 'a res" where
  "enum_of value members s = (case find (\<lambda>x. value x = s) members of
       None \<Rightarrow> Inl (ValueError (s @ '' is not a valid member''))
     | Some x \<Rightarrow> Inr x)"

lemma enum_of_value [res_simps]:
  "enum_of run_status_value run_statuses (run_status_value a) = Inr a"
  "enum_of failure_reason_value failure_reasons (failure_reason_value b) = Inr b"
  "enum_of phase_value phases (phase_value c) = Inr c"
  "enum_of session_kind_value session_kinds (session_kind_value d) = Inr d"
  "enum_of session_state_value session_states (session_state_value e) = Inr e"
  "enum_of session_exit_value session_exits (session_exit_value f) = Inr f"
  subgoal by (cases a; simp add: enum_of_def run_statuses_def)
  subgoal by (cases b; simp add: enum_of_def failure_reasons_def)
  subgoal by (cases c; simp add: enum_of_def phases_def)
  subgoal by (cases d; simp add: enum_of_def session_kinds_def)
  subgoal by (cases e; simp add: enum_of_def session_states_def)
  subgoal by (cases f; simp add: enum_of_def session_exits_def)
  done

section \<open>Core models\<close>

definition is_sha256 :: "string \<Rightarrow> bool" where
  "is_sha256 s \<longleftrightarrow> length s = 64 \<and> list_all (\<lambda>c. c \<in> set ''0123456789abcdef'') s"

definition is_git_oid :: "string \<Rightarrow> bool" where
  "is_git_oid s \<longleftrightarrow> length s = 40 \<and> list_all (\<lambda>c. c \<in> set ''0123456789abcdef'') s"

definition valid_generation :: "int \<Rightarrow> bool" where
  "valid_generation g \<longleftrightarrow> g \<in> {0, 1, 2}"

record slice_generation_ref =
  sg_slice_id :: uuid
  sg_generation :: int
  sg_baseline_candidate_oid :: "string option"

datatype execution_subject =
    LocalCandidate (lc_slice: uuid) (lc_generation: int) (lc_commit: string)
  | ProspectiveIntegration (pi_slice: uuid) (pi_generation: int) (pi_expected: string) (pi_commit: string)
  | FinalVerified (fv_commit: string)

fun subject_commit_oid :: "execution_subject \<Rightarrow> string" where
  "subject_commit_oid (LocalCandidate _ _ c) = c"
| "subject_commit_oid (ProspectiveIntegration _ _ _ c) = c"
| "subject_commit_oid (FinalVerified c) = c"

record active_dispatch =
  ad_attempt_id :: uuid
  ad_subject :: execution_subject
  ad_check_id :: uuid
  ad_tested_commit_oid :: string

definition dispatch_ok :: "active_dispatch \<Rightarrow> bool" where
  "dispatch_ok d \<longleftrightarrow> ad_tested_commit_oid d = subject_commit_oid (ad_subject d)"

datatype create_run_source =
    RemoteRepository (rr_url: string) (rr_base_ref: string)
  | RegisteredProject (rp_project: uuid) (rp_snapshot: uuid)

record frozen_artifact_bundle =
  fb_spec :: artifact_ref
  fb_understanding_dossier :: artifact_ref
  fb_target_project_blueprint :: artifact_ref
  fb_migration_rulebook :: artifact_ref

record create_run =
  cr_source :: create_run_source
  cr_branch_prefix :: string
  cr_frozen_artifacts :: frozen_artifact_bundle

record integration_intent =
  ii_run_id :: uuid
  ii_slice_id :: uuid
  ii_generation :: int
  ii_expected_verified_oid :: string
  ii_prospective_commit_oid :: string
  ii_guard_sha256 :: string
  ii_verification_fingerprint :: string
  ii_idempotency_key :: string

record slice_candidate =
  sc_run_id :: uuid
  sc_slice_id :: uuid
  sc_generation :: int
  sc_base_verified_oid :: string
  sc_candidate_commit_oid :: string

record checkpoint_manifest =
  cm_slice_candidate :: slice_candidate
  cm_file_count :: int
  cm_total_bytes :: int
  cm_file_set_digest :: string
  cm_scope_check_passed :: bool

record checkpoint_receipt =
  ck_run_id :: uuid
  ck_slice_id :: uuid
  ck_generation :: int
  ck_expected_candidate_oid :: string
  ck_new_candidate_oid :: string
  ck_manifest :: checkpoint_manifest
  ck_idempotency_key :: string

record cas_object =
  co_digest :: string
  co_size :: int

section \<open>AgentRun\<close>

record agent_run =
  ag_agent_run_id :: uuid
  ag_owner_kind :: string
  ag_owner_id :: uuid
  ag_logical_task_key :: string
  ag_phase :: phase
  ag_session_kind :: session_kind
  ag_thread_id :: string
  ag_model_binding_sha256 :: string
  ag_context_sha256 :: string
  ag_toolset_sha256 :: string
  ag_template_sha256 :: string
  ag_slice_ref :: "slice_generation_ref option"
  ag_write_scope_sha256 :: "string option"
  ag_checkpoint_sha256 :: "string option"
  ag_candidate_checkpoint_sha256 :: "string option"
  ag_result_sha256 :: "string option"
  ag_usage_sha256 :: "string option"
  ag_retry_of :: "uuid option"
  ag_continuation_of :: "uuid option"
  ag_restarted_from :: "uuid option"
  ag_state :: session_state
  ag_exit :: "session_exit option"

fun terminal_exits :: "session_state \<Rightarrow> session_exit list option" where
  "terminal_exits SsClosed = Some [SxCompleted, SxSegmentStopped]"
| "terminal_exits SsFailed = Some [SxFailed, SxBudgetExhausted]"
| "terminal_exits SsInvalidated = Some [SxInvalidated]"
| "terminal_exits _ = None"

definition is_terminal :: "agent_run \<Rightarrow> bool" where
  "is_terminal r \<longleftrightarrow> terminal_exits (ag_state r) \<noteq> None"

definition task_key_char :: "char \<Rightarrow> bool" where
  "task_key_char c \<longleftrightarrow>
     c \<in> set ''ABCDEFGHIJKLMNOPQRSTUVWXYZabcdefghijklmnopqrstuvwxyz0123456789._:/-''"

definition task_key_first :: "char \<Rightarrow> bool" where
  "task_key_first c \<longleftrightarrow>
     c \<in> set ''ABCDEFGHIJKLMNOPQRSTUVWXYZabcdefghijklmnopqrstuvwxyz0123456789''"

definition valid_task_key :: "string \<Rightarrow> bool" where
  "valid_task_key s = (case s of
       [] \<Rightarrow> False
     | c # cs \<Rightarrow> task_key_first c \<and> length cs \<le> 255 \<and> list_all task_key_char cs)"

definition agent_run_digests :: "agent_run \<Rightarrow> (string \<times> string option) list" where
  "agent_run_digests r =
     [(''model_binding_sha256'', Some (ag_model_binding_sha256 r)),
      (''context_sha256'', Some (ag_context_sha256 r)),
      (''toolset_sha256'', Some (ag_toolset_sha256 r)),
      (''template_sha256'', Some (ag_template_sha256 r)),
      (''write_scope_sha256'', ag_write_scope_sha256 r),
      (''checkpoint_sha256'', ag_checkpoint_sha256 r),
      (''candidate_checkpoint_sha256'', ag_candidate_checkpoint_sha256 r),
      (''result_sha256'', ag_result_sha256 r),
      (''usage_sha256'', ag_usage_sha256 r)]"

definition agent_run_lineage :: "agent_run \<Rightarrow> uuid option list" where
  "agent_run_lineage r = [ag_retry_of r, ag_continuation_of r, ag_restarted_from r]"

text \<open>\<open>AgentRun.__post_init__\<close>: the constructor applied to the given fields.\<close>

definition agent_run_init :: "agent_run \<Rightarrow> agent_run res" where
  "agent_run_init r =
     (if ag_owner_kind r \<noteq> ''run'' \<and> ag_owner_kind r \<noteq> ''draft''
      then Inl (ValueError ''AgentRun owner kind must be run or draft'')
      else if \<not> valid_task_key (ag_logical_task_key r)
      then Inl (ValueError ''AgentRun task key must be an opaque token'')
      else if parse_uuid (ag_thread_id r) = None
      then Inl (ValueError ''AgentRun thread must be a UUID'')
      else case find (\<lambda>(_, d). case d of None \<Rightarrow> False | Some s \<Rightarrow> \<not> is_sha256 s) (agent_run_digests r) of
             Some (name, _) \<Rightarrow> Inl (ValueError (''AgentRun '' @ name @ '' digest must be SHA-256''))
           | None \<Rightarrow>
               if (case terminal_exits (ag_state r) of
                     None \<Rightarrow> ag_exit r \<noteq> None
                   | Some exits \<Rightarrow> ag_exit r \<notin> Some ` set exits)
               then Inl (ValueError ''AgentRun state and exit are inconsistent'')
               else if 1 < length (filter (\<lambda>v. v \<noteq> None) (agent_run_lineage r))
               then Inl (ValueError ''AgentRun lineage is ambiguous'')
               else if Some (ag_agent_run_id r) \<in> set (agent_run_lineage r)
               then Inl (ValueError ''AgentRun cannot descend from itself'')
               else Inr r)"

definition owner_key :: "agent_run \<Rightarrow> string \<times> uuid \<times> string" where
  "owner_key r = (ag_owner_kind r, ag_owner_id r, ag_logical_task_key r)"

definition same_creation_identity :: "agent_run \<Rightarrow> agent_run \<Rightarrow> bool" where
  "same_creation_identity a b \<longleftrightarrow>
     ag_owner_kind a = ag_owner_kind b \<and> ag_owner_id a = ag_owner_id b
     \<and> ag_logical_task_key a = ag_logical_task_key b \<and> ag_phase a = ag_phase b
     \<and> ag_session_kind a = ag_session_kind b \<and> ag_slice_ref a = ag_slice_ref b
     \<and> ag_model_binding_sha256 a = ag_model_binding_sha256 b \<and> ag_context_sha256 a = ag_context_sha256 b
     \<and> ag_toolset_sha256 a = ag_toolset_sha256 b \<and> ag_template_sha256 a = ag_template_sha256 b
     \<and> ag_write_scope_sha256 a = ag_write_scope_sha256 b \<and> ag_retry_of a = ag_retry_of b
     \<and> ag_continuation_of a = ag_continuation_of b \<and> ag_restarted_from a = ag_restarted_from b
     \<and> (ag_agent_run_id a \<noteq> ag_agent_run_id b \<or> ag_thread_id a = ag_thread_id b)"

definition same_frozen_identity :: "agent_run \<Rightarrow> agent_run \<Rightarrow> bool" where
  "same_frozen_identity a b \<longleftrightarrow>
     ag_agent_run_id a = ag_agent_run_id b \<and> ag_thread_id a = ag_thread_id b \<and> same_creation_identity a b"

record agent_run_receipt =
  rc_receipt_id :: uuid
  rc_agent_run_id :: uuid
  rc_category :: string

section \<open>Run state, events\<close>

record candidate_checkpoint_fact =
  cf_agent_run_id :: uuid
  cf_slice_id :: uuid
  cf_generation :: int
  cf_expected_candidate_oid :: string
  cf_candidate_oid :: string
  cf_receipt_sha256 :: string

definition candidate_fact_init :: "candidate_checkpoint_fact \<Rightarrow> candidate_checkpoint_fact res" where
  "candidate_fact_init f =
     (if \<not> valid_generation (cf_generation f)
      then Inl (ValueError ''candidate generation must be one of 0, 1, or 2'')
      else if cf_expected_candidate_oid f = [] \<or> cf_candidate_oid f = []
      then Inl (ValueError ''candidate checkpoint OIDs must be non-empty'')
      else if \<not> is_sha256 (cf_receipt_sha256 f)
      then Inl (ValueError ''candidate checkpoint receipt digest is invalid'')
      else Inr f)"

record run_state =
  rs_run_id :: uuid
  rs_status :: run_status
  rs_version :: int
  rs_cancel_requested :: bool
  rs_failure_reason :: "failure_reason option"
  rs_new_calls_enabled :: bool
  rs_budget_usage :: budget_usage
  rs_budget_warning_emitted :: bool
  rs_active_dispatches :: "active_dispatch list"
  rs_continuation_counts :: "(int \<times> int) list"
  rs_terminal_slice_failures :: "string list"
  rs_adopted_advice_ids :: "string list"
  rs_pending_advice_ids :: "string list"
  rs_reporting_halted :: bool
  rs_create_request :: "create_run option"
  rs_frozen_plan_sha256 :: "string option"
  rs_candidate_checkpoints :: "candidate_checkpoint_fact list"

definition zero_usage :: budget_usage where
  "zero_usage = \<lparr>bu_input_tokens = 0, bu_output_tokens = 0, bu_cost_micros = 0\<rparr>"

text \<open>\<open>RunState(run_id, status, version, create_request)\<close>, the other fields at their defaults.\<close>

definition run_state_init :: "uuid \<Rightarrow> run_status \<Rightarrow> int \<Rightarrow> create_run option \<Rightarrow> run_state" where
  "run_state_init run_id status version request =
     \<lparr>rs_run_id = run_id, rs_status = status, rs_version = version, rs_cancel_requested = False,
      rs_failure_reason = None, rs_new_calls_enabled = True, rs_budget_usage = zero_usage,
      rs_budget_warning_emitted = False, rs_active_dispatches = [], rs_continuation_counts = [],
      rs_terminal_slice_failures = [], rs_adopted_advice_ids = [], rs_pending_advice_ids = [],
      rs_reporting_halted = False, rs_create_request = request, rs_frozen_plan_sha256 = None,
      rs_candidate_checkpoints = []\<rparr>"

type_synonym event_data = "(string \<times> pyval) list"

record event_spec =
  es_event_type :: string
  es_data :: event_data

text \<open>A committed event. Its timestamp is never read and is left out.\<close>

record runtime_event =
  re_sequence :: nat
  re_event_type :: string
  re_data :: event_data

record runtime_snapshot =
  sn_state :: run_state
  sn_events :: "runtime_event list"

record integration_receipt =
  ir_intent :: integration_intent
  ir_verified_commit_oid :: string
  ir_receipt_sha256 :: string
  ir_event_sequence :: nat

definition integration_receipt_init :: "integration_receipt \<Rightarrow> integration_receipt res" where
  "integration_receipt_init r =
     (if ir_verified_commit_oid r \<noteq> ii_prospective_commit_oid (ir_intent r)
      then Inl (ValueError ''integration receipt head must match its intent'')
      else if \<not> is_sha256 (ir_receipt_sha256 r)
      then Inl (ValueError ''integration receipt digest must be SHA-256'')
      else if ir_event_sequence r < 1
      then Inl (ValueError ''integration receipt event sequence must be positive'')
      else Inr r)"

record actor_phase_receipt =
  ap_run_id :: uuid
  ap_receipt_key :: string
  ap_event_sequence :: nat

definition spec :: "string \<Rightarrow> event_data \<Rightarrow> event_spec" where
  "spec event_type data = \<lparr>es_event_type = event_type, es_data = data\<rparr>"

definition slice_fields :: "agent_run \<Rightarrow> event_data" where
  "slice_fields r = (case ag_slice_ref r of
       None \<Rightarrow> []
     | Some ref \<Rightarrow> [(''slice_id'', PStr (str_uuid (sg_slice_id ref))), (''generation'', PInt (sg_generation ref))])"

definition agent_run_lifecycle_spec :: "agent_run \<Rightarrow> agent_run_receipt option \<Rightarrow> event_spec res" where
  "agent_run_lifecycle_spec r receipt = (case receipt of
       None \<Rightarrow>
         if is_terminal r then Inl (ValueError ''terminal AgentRun event requires owner receipt'')
         else Inr (spec ''agent_run.started''
           ([(''receipt_key'', PStr (''agent_run.started:'' @ str_uuid (ag_agent_run_id r))),
             (''agent_run_id'', PStr (str_uuid (ag_agent_run_id r))),
             (''phase'', PStr (phase_value (ag_phase r))),
             (''session_kind'', PStr (session_kind_value (ag_session_kind r)))] @ slice_fields r))
     | Some rc \<Rightarrow>
         if \<not> is_terminal r \<or> rc_agent_run_id rc \<noteq> ag_agent_run_id r
         then Inl (ValueError ''terminal event requires matching AgentRun receipt'')
         else Inr (spec ''agent_run.terminal''
           ([(''receipt_key'', PStr (''agent_run.terminal:'' @ str_uuid (ag_agent_run_id r))),
             (''agent_run_id'', PStr (str_uuid (ag_agent_run_id r))),
             (''phase'', PStr (phase_value (ag_phase r))),
             (''session_kind'', PStr (session_kind_value (ag_session_kind r))),
             (''exit'', (case ag_exit r of None \<Rightarrow> PNone | Some x \<Rightarrow> PStr (session_exit_value x))),
             (''receipt_category'', PStr (rc_category rc))] @ slice_fields r)))"

text \<open>\<open>data.get(key)\<close>.\<close>

definition data_get :: "event_data \<Rightarrow> string \<Rightarrow> pyval option" where
  "data_get data key = map_of data key"

text \<open>\<open>bool(value)\<close>.\<close>

fun truthy :: "pyval \<Rightarrow> bool" where
  "truthy PNone = False"
| "truthy (PBool b) = b"
| "truthy (PInt i) = (i \<noteq> 0)"
| "truthy (PFloat x) = (x \<noteq> 0)"
| "truthy (PStr s) = (s \<noteq> [])"
| "truthy (PList vs) = (vs \<noteq> [])"
| "truthy (PTuple vs) = (vs \<noteq> [])"
| "truthy (PDict kvs) = (kvs \<noteq> [])"
| "truthy _ = True"

end
