(* ===== verification/Runtime_Store.thy ===== *)
theory Runtime_Store
  imports Runtime_Contracts
begin

text \<open>
  \<open>runtime/store.py\<close>: the transactional store \<open>InMemoryRuntimeStore\<close>, which the run actor and the
  recovery paths write through. An operation returns its result and the store after it: an operation
  that raises may still have consumed the injected failure flag. The locks serialise the operations,
  so each of them is one step; the condition variables only wake readers and are left out.

  The hash functions are the parameter \<open>D\<close>: \<open>dg_bytes\<close> is the digest of \<open>hashlib.sha256\<close> on the
  UTF-8 bytes of a string, \<open>dg_json\<close> the hexadecimal SHA-256 of the canonical JSON of a value.
\<close>

section \<open>State\<close>

record digests =
  dg_bytes :: "string \<Rightarrow> string"
  dg_json :: "pyval \<Rightarrow> string"

record evolution_segment =
  ev_run_id :: uuid
  ev_entry_index :: nat
  ev_slice_id :: uuid
  ev_summary_text :: string
  ev_template_sha256 :: string

record evolution_draft =
  ed_run_id :: uuid
  ed_slice_id :: uuid
  ed_summary_text :: string
  ed_template_sha256 :: string

record checkpoint_index =
  ci_graph_family :: string
  ci_owner_kind :: string
  ci_owner_id :: uuid
  ci_thread_id :: string
  ci_namespace :: string
  ci_checkpoint_id :: string
  ci_parent_checkpoint_id :: "string option"
  ci_object :: cas_object

definition checkpoint_reference_key :: "checkpoint_index \<Rightarrow> string" where
  "checkpoint_reference_key i =
     ''checkpoint:'' @ ci_thread_id i @ '':'' @ ci_namespace i @ '':'' @ ci_checkpoint_id i"

record pending_write_index =
  pw_graph_family :: string
  pw_owner_kind :: string
  pw_owner_id :: uuid
  pw_thread_id :: string
  pw_namespace :: string
  pw_checkpoint_id :: string
  pw_task_id :: string
  pw_write_index :: int
  pw_object :: cas_object

definition str_int :: "int \<Rightarrow> string" where
  "str_int i = (if i < 0 then CHR ''-'' # str_nat (nat (- i)) else str_nat (nat i))"

definition write_reference_key :: "pending_write_index \<Rightarrow> string" where
  "write_reference_key i =
     ''write:'' @ pw_thread_id i @ '':'' @ pw_namespace i @ '':'' @ pw_checkpoint_id i @ '':''
       @ pw_task_id i @ '':'' @ str_int (pw_write_index i)"

type_synonym ref_key = "string \<times> uuid \<times> string"

record runtime_store =
  st_snapshots :: "(uuid \<times> runtime_snapshot) list"
  st_evolution :: "(uuid \<times> evolution_segment list) list"
  st_commit_count :: nat
  st_fail_next :: bool
  st_registry :: "fingerprint list"
  st_agent_runs :: "(uuid \<times> agent_run) list"
  st_agent_run_keys :: "(ref_key \<times> uuid) list"
  st_agent_threads :: "(uuid \<times> uuid) list"
  st_agent_receipts :: "(uuid \<times> agent_run_receipt) list"
  st_integration_intents :: "((uuid \<times> string) \<times> integration_intent) list"
  st_integration_receipts :: "((uuid \<times> string) \<times> integration_receipt) list"
  st_cas_refs :: "(ref_key \<times> cas_object) list"
  st_checkpoints :: "((string \<times> string \<times> string) \<times> checkpoint_index) list"
  st_pending_writes :: "((string \<times> string \<times> string \<times> string \<times> int) \<times> pending_write_index) list"

definition store_init :: "fingerprint list \<Rightarrow> runtime_store" where
  "store_init registry =
     \<lparr>st_snapshots = [], st_evolution = [], st_commit_count = 0, st_fail_next = False,
      st_registry = registry, st_agent_runs = [], st_agent_run_keys = [], st_agent_threads = [],
      st_agent_receipts = [], st_integration_intents = [], st_integration_receipts = [],
      st_cas_refs = [], st_checkpoints = [], st_pending_writes = []\<rparr>"

type_synonym 'a outcome = "'a res \<times> runtime_store"

definition fail_next_commit :: "runtime_store \<Rightarrow> runtime_store" where
  "fail_next_commit st = st\<lparr>st_fail_next := True\<rparr>"

definition injected_failure :: "runtime_store \<Rightarrow> 'a outcome" where
  "injected_failure st = (Inl (StoreCommitError ''injected commit failure''), st\<lparr>st_fail_next := False\<rparr>)"

section \<open>Snapshots and events\<close>

definition load :: "runtime_store \<Rightarrow> uuid \<Rightarrow> runtime_snapshot option" where
  "load st run_id = map_of (st_snapshots st) run_id"

fun key_string :: "dict_key \<Rightarrow> string" where
  "key_string (StrKey s) = s"
| "key_string OtherKey = []"

definition redact_event_data :: "digests \<Rightarrow> fingerprint list \<Rightarrow> event_data \<Rightarrow> event_data res" where
  "redact_event_data D registry value =
     (case redact (dg_bytes D) registry (PDict (map (apfst StrKey) value)) of
        Accepted_value (PDict entries) \<Rightarrow> Inr (map (apfst key_string) entries)
      | _ \<Rightarrow> Inl (ValueError ''observation rejected''))"

text \<open>The generator of \<open>RuntimeEvent\<close>s shared by every commit, with its \<open>except ValueError\<close>.\<close>

fun materialize :: "digests \<Rightarrow> fingerprint list \<Rightarrow> nat \<Rightarrow> event_spec list \<Rightarrow> runtime_event list res" where
  "materialize D registry sequence [] = Inr []"
| "materialize D registry sequence (event # events) =
     (case redact_event_data D registry (es_data event) of
        Inl _ \<Rightarrow> Inl (StoreCommitError ''observation rejected'')
      | Inr data \<Rightarrow>
          map_sum id ((#) \<lparr>re_sequence = sequence, re_event_type = es_event_type event, re_data = data\<rparr>)
            (materialize D registry (Suc sequence) events))"

definition unicode_space :: "string \<Rightarrow> bool" where
  "unicode_space cp =
     (let n = cp_value cp in 9 \<le> n \<and> n \<le> 13 \<or> 28 \<le> n \<and> n \<le> 32 \<or> n = 0x85 \<or> n = 0xA0 \<or> n = 0x1680
        \<or> 0x2000 \<le> n \<and> n \<le> 0x200A \<or> n = 0x2028 \<or> n = 0x2029 \<or> n = 0x202F \<or> n = 0x205F \<or> n = 0x3000)"

definition blank :: "string \<Rightarrow> bool" where
  "blank s = list_all unicode_space (code_points s)"

definition validate_evolution_draft :: "evolution_draft \<Rightarrow> uuid \<Rightarrow> unit res" where
  "validate_evolution_draft draft expected_run_id =
     (if ed_run_id draft \<noteq> expected_run_id
      then Inl (StoreCommitError ''context evolution run identity does not match state'')
      else if blank (ed_summary_text draft)
      then Inl (StoreCommitError ''context evolution summary must be non-empty'')
      else if \<not> is_sha256 (ed_template_sha256 draft)
      then Inl (StoreCommitError ''context evolution template digest is invalid'')
      else Inr ())"

definition entries_of :: "('k \<times> 'v list) list \<Rightarrow> 'k \<Rightarrow> 'v list" where
  "entries_of entries k = (case map_of entries k of None \<Rightarrow> [] | Some vs \<Rightarrow> vs)"

definition next_in_memory_evolution ::
  "evolution_draft option \<Rightarrow> uuid \<Rightarrow> (uuid \<times> evolution_segment list) list \<Rightarrow> evolution_segment option res" where
  "next_in_memory_evolution draft run_id entries = (case draft of
       None \<Rightarrow> Inr None
     | Some d \<Rightarrow> (case validate_evolution_draft d run_id of
           Inl e \<Rightarrow> Inl e
         | Inr _ \<Rightarrow>
             let previous = entries_of entries run_id in
             if previous \<noteq> [] \<and> ev_template_sha256 (hd previous) \<noteq> ed_template_sha256 d
             then Inl (StoreCommitError ''context evolution template is frozen per Run'')
             else if \<exists>entry \<in> set previous. ev_slice_id entry = ed_slice_id d
             then Inl (StoreCommitError ''context evolution slice has already been appended'')
             else Inr (Some \<lparr>ev_run_id = run_id, ev_entry_index = length previous,
                 ev_slice_id = ed_slice_id d, ev_summary_text = ed_summary_text d,
                 ev_template_sha256 = ed_template_sha256 d\<rparr>)))"

definition events_of :: "runtime_store \<Rightarrow> uuid \<Rightarrow> runtime_event list" where
  "events_of st run_id = (case load st run_id of None \<Rightarrow> [] | Some s \<Rightarrow> sn_events s)"

definition store_write ::
  "digests \<Rightarrow> runtime_store \<Rightarrow> run_state \<Rightarrow> event_spec list \<Rightarrow> evolution_draft option
     \<Rightarrow> runtime_snapshot outcome" where
  "store_write D st state events evolution =
     (if st_fail_next st then injected_failure st
      else
        let run_id = rs_run_id state; previous = events_of st run_id
        in case materialize D (st_registry st) (length previous + 1) events of
             Inl e \<Rightarrow> (Inl e, st)
           | Inr materialized \<Rightarrow>
              (case next_in_memory_evolution evolution run_id (st_evolution st) of
                 Inl e \<Rightarrow> (Inl e, st)
               | Inr entry \<Rightarrow>
                   let snapshot = \<lparr>sn_state = state, sn_events = previous @ materialized\<rparr>
                   in (Inr snapshot,
                       st\<lparr>st_snapshots := AList.update run_id snapshot (st_snapshots st),
                         st_evolution := (case entry of
                             None \<Rightarrow> st_evolution st
                           | Some x \<Rightarrow> AList.update run_id (entries_of (st_evolution st) run_id @ [x]) (st_evolution st)),
                         st_commit_count := st_commit_count st + 1\<rparr>)))"

text \<open>
  \<open>create\<close>. The argument \<open>transaction\<close> is \<open>None\<close> without a shared transaction; otherwise it says
  whether the transaction belongs to this store and is active. Its rollback callback is
  \<open>rollback_create\<close>.
\<close>

definition store_create ::
  "digests \<Rightarrow> runtime_store \<Rightarrow> run_state \<Rightarrow> event_spec list \<Rightarrow> evolution_draft option \<Rightarrow> bool option
     \<Rightarrow> runtime_snapshot outcome" where
  "store_create D st state events evolution transaction = (case transaction of
       Some usable \<Rightarrow>
         if \<not> usable then (Inl (StoreCommitError ''runtime transaction does not belong to this store''), st)
         else store_write D st state events evolution
     | None \<Rightarrow>
         if load st (rs_run_id state) \<noteq> None then (Inl (StoreCommitError ''run already exists''), st)
         else store_write D st state events evolution)"

definition rollback_create :: "runtime_store \<Rightarrow> uuid \<Rightarrow> runtime_store" where
  "rollback_create st run_id = st\<lparr>st_snapshots := AList.delete run_id (st_snapshots st)\<rparr>"

definition store_commit ::
  "digests \<Rightarrow> runtime_store \<Rightarrow> run_state \<Rightarrow> event_spec list \<Rightarrow> evolution_draft option
     \<Rightarrow> runtime_snapshot outcome" where
  "store_commit D st state events evolution =
     (if load st (rs_run_id state) = None then (Inl (StoreCommitError ''run does not exist''), st)
      else store_write D st state events evolution)"

definition snapshot_of :: "runtime_store \<Rightarrow> uuid \<Rightarrow> runtime_snapshot res" where
  "snapshot_of st run_id = (case load st run_id of
       None \<Rightarrow> Inl (KeyError (str_uuid run_id)) | Some s \<Rightarrow> Inr s)"

definition evolution_segments :: "runtime_store \<Rightarrow> uuid \<Rightarrow> evolution_segment list" where
  "evolution_segments st run_id = entries_of (st_evolution st) run_id"

definition read_run_events :: "runtime_store \<Rightarrow> uuid \<Rightarrow> int \<Rightarrow> runtime_event list" where
  "read_run_events st run_id after_sequence =
     filter (\<lambda>event. int (re_sequence event) > after_sequence) (events_of st run_id)"

definition has_run_events_after :: "runtime_store \<Rightarrow> uuid \<Rightarrow> int \<Rightarrow> bool" where
  "has_run_events_after st run_id after_sequence =
     list_ex (\<lambda>event. int (re_sequence event) > after_sequence) (events_of st run_id)"

definition event_status :: "event_data \<Rightarrow> pyval option" where
  "event_status data = (case data_get data ''run_status'' of
       Some v \<Rightarrow> Some v | None \<Rightarrow> data_get data ''status'')"

definition RUN_TERMINAL_STATUSES :: "string list" where
  "RUN_TERMINAL_STATUSES = map run_status_value [Completed, PartiallyCompleted, Failed, Cancelled]"

definition run_terminal_reached :: "runtime_store \<Rightarrow> uuid \<Rightarrow> int \<Rightarrow> bool" where
  "run_terminal_reached st run_id after_sequence =
     list_ex (\<lambda>event. int (re_sequence event) \<le> after_sequence \<and> re_event_type event = ''run.status_changed''
         \<and> event_status (re_data event) \<in> (Some \<circ> PStr) ` set RUN_TERMINAL_STATUSES) (events_of st run_id)"

record run_state_page =
  pg_states :: "run_state list"
  pg_next_cursor :: "uuid option"

definition list_run_states :: "runtime_store \<Rightarrow> int \<Rightarrow> uuid option \<Rightarrow> run_state_page res" where
  "list_run_states st limit after_run_id =
     (if limit < 1 \<or> 100 < limit then Inl (ValueError ''Run page limit must be between 1 and 100'')
      else
        let states = sort_key rs_run_id (map (sn_state \<circ> snd) (st_snapshots st));
            remaining = (case after_run_id of None \<Rightarrow> states | Some c \<Rightarrow> filter (\<lambda>s. c < rs_run_id s) states);
            selected = take (nat limit) remaining
        in Inr \<lparr>pg_states = selected,
             pg_next_cursor = (if nat limit < length remaining \<and> selected \<noteq> []
               then Some (rs_run_id (last selected)) else None)\<rparr>)"

end
