(* ===== verification/Runtime_Ledger.thy ===== *)
theory Runtime_Ledger
  imports Runtime_Store
begin

text \<open>
  The rest of \<open>InMemoryRuntimeStore\<close> in \<open>runtime/store.py\<close>: content references, checkpoint indexes,
  the agent run ledger with its receipts, and the integration intents and receipts.
\<close>

section \<open>Content references\<close>

definition size_mismatch :: "(ref_key \<times> cas_object) list \<Rightarrow> cas_object \<Rightarrow> bool" where
  "size_mismatch refs obj =
     list_ex (\<lambda>(_, value). co_digest value = co_digest obj \<and> co_size value \<noteq> co_size obj) refs"

definition add_cas_reference ::
  "runtime_store \<Rightarrow> cas_object \<Rightarrow> string \<Rightarrow> uuid \<Rightarrow> string \<Rightarrow> unit outcome" where
  "add_cas_reference st obj owner_kind owner_id reference_key =
     (if st_fail_next st then injected_failure st
      else
        let key = (owner_kind, owner_id, reference_key); previous = map_of (st_cas_refs st) key in
        if previous \<noteq> None \<and> previous \<noteq> Some obj
        then (Inl (StoreCommitError ''CAS reference key already points to another object''), st)
        else if size_mismatch (st_cas_refs st) obj then (Inl (StoreCommitError ''CAS object size mismatch''), st)
        else (Inr (), st\<lparr>st_cas_refs := AList.update key obj (st_cas_refs st)\<rparr>))"

definition get_cas_reference :: "runtime_store \<Rightarrow> string \<Rightarrow> uuid \<Rightarrow> string \<Rightarrow> cas_object option" where
  "get_cas_reference st owner_kind owner_id reference_key =
     map_of (st_cas_refs st) (owner_kind, owner_id, reference_key)"

definition referenced_digests :: "runtime_store \<Rightarrow> string set" where
  "referenced_digests st = (co_digest \<circ> snd) ` set (st_cas_refs st)"

definition release_cas_reference ::
  "runtime_store \<Rightarrow> string \<Rightarrow> uuid \<Rightarrow> string \<Rightarrow> cas_object option \<times> runtime_store" where
  "release_cas_reference st owner_kind owner_id reference_key =
     (let key = (owner_kind, owner_id, reference_key);
          refs = AList.delete key (st_cas_refs st);
          st' = st\<lparr>st_cas_refs := refs\<rparr>
      in case map_of (st_cas_refs st) key of
           None \<Rightarrow> (None, st')
         | Some obj \<Rightarrow>
             if list_ex (\<lambda>(_, value). co_digest value = co_digest obj) refs then (None, st')
             else (Some obj, st'))"

section \<open>Checkpoint and pending-write indexes\<close>

definition publish_checkpoint_index :: "runtime_store \<Rightarrow> checkpoint_index \<Rightarrow> unit outcome" where
  "publish_checkpoint_index st index =
     (if st_fail_next st then injected_failure st
      else
        let key = (ci_thread_id index, ci_namespace index, ci_checkpoint_id index) in
        case map_of (st_checkpoints st) key of
          Some existing \<Rightarrow>
            if existing \<noteq> index then (Inl (StoreCommitError ''checkpoint identity collision''), st)
            else (Inr (), st)
        | None \<Rightarrow>
            if list_ex (\<lambda>(_, item). ci_thread_id item = ci_thread_id index
                  \<and> (ci_owner_kind item, ci_owner_id item, ci_graph_family item)
                      \<noteq> (ci_owner_kind index, ci_owner_id index, ci_graph_family index)) (st_checkpoints st)
              \<or> list_ex (\<lambda>(_, item). pw_thread_id item = ci_thread_id index
                  \<and> (pw_owner_kind item, pw_owner_id item, pw_graph_family item)
                      \<noteq> (ci_owner_kind index, ci_owner_id index, ci_graph_family index)) (st_pending_writes st)
            then (Inl (StoreCommitError ''checkpoint thread belongs to another owner''), st)
            else (Inr (),
              st\<lparr>st_checkpoints := AList.update key index (st_checkpoints st),
                st_cas_refs := AList.update (ci_owner_kind index, ci_owner_id index, checkpoint_reference_key index)
                  (ci_object index) (st_cas_refs st)\<rparr>))"

text \<open>A stable sort by a key in descending order, \<open>sorted(..., reverse=True)\<close>.\<close>

definition sort_desc :: "('a \<Rightarrow> 'b::linorder) \<Rightarrow> 'a list \<Rightarrow> 'a list" where
  "sort_desc f xs = rev (sort_key f (rev xs))"

definition list_checkpoint_indexes ::
  "runtime_store \<Rightarrow> string option \<Rightarrow> string option \<Rightarrow> checkpoint_index list" where
  "list_checkpoint_indexes st thread_id namespace =
     sort_desc ci_checkpoint_id
       (filter (\<lambda>item. (thread_id = None \<or> Some (ci_thread_id item) = thread_id)
           \<and> (namespace = None \<or> Some (ci_namespace item) = namespace)) (map snd (st_checkpoints st)))"

definition publish_pending_write_index :: "runtime_store \<Rightarrow> pending_write_index \<Rightarrow> unit outcome" where
  "publish_pending_write_index st index =
     (let write_key = (pw_thread_id index, pw_namespace index, pw_checkpoint_id index, pw_task_id index,
            pw_write_index index);
          existing = map_of (st_pending_writes st) write_key
      in if list_ex (\<lambda>(_, item). ci_thread_id item = pw_thread_id index
               \<and> (ci_owner_kind item, ci_owner_id item) \<noteq> (pw_owner_kind index, pw_owner_id index)) (st_checkpoints st)
           \<or> list_ex (\<lambda>(_, item). pw_thread_id item = pw_thread_id index
               \<and> (pw_owner_kind item, pw_owner_id item) \<noteq> (pw_owner_kind index, pw_owner_id index)) (st_pending_writes st)
         then (Inl (StoreCommitError ''pending write thread belongs to another owner''), st)
         else if existing \<noteq> None \<and> 0 \<le> pw_write_index index then (Inr (), st)
         else if st_fail_next st then injected_failure st
         else
           case existing of
             Some old \<Rightarrow>
               let old_key = (pw_owner_kind old, pw_owner_id old, write_reference_key old) in
               (case map_of (st_cas_refs st) old_key of
                  None \<Rightarrow> (Inl (KeyError (write_reference_key old)), st)
                | Some _ \<Rightarrow>
                    (Inr (), st\<lparr>st_pending_writes := AList.update write_key index (st_pending_writes st),
                       st_cas_refs := AList.update (pw_owner_kind index, pw_owner_id index, write_reference_key index)
                         (pw_object index) (AList.delete old_key (st_cas_refs st))\<rparr>))
           | None \<Rightarrow>
               (Inr (), st\<lparr>st_pending_writes := AList.update write_key index (st_pending_writes st),
                  st_cas_refs := AList.update (pw_owner_kind index, pw_owner_id index, write_reference_key index)
                    (pw_object index) (st_cas_refs st)\<rparr>))"

definition list_pending_write_indexes ::
  "runtime_store \<Rightarrow> string \<Rightarrow> string \<Rightarrow> string \<Rightarrow> pending_write_index list" where
  "list_pending_write_indexes st thread_id namespace checkpoint_id =
     map snd (filter (\<lambda>((t, n, c, _, _), _). (t, n, c) = (thread_id, namespace, checkpoint_id)) (st_pending_writes st))"

type_synonym thread_entry = "string \<times> string \<times> uuid \<times> string \<times> cas_object"

text \<open>The indexes of one thread: graph family, owner, reference key and object of each.\<close>

definition thread_indexes :: "runtime_store \<Rightarrow> string \<Rightarrow> thread_entry list" where
  "thread_indexes st thread_id =
     map (\<lambda>(_, i). (ci_graph_family i, ci_owner_kind i, ci_owner_id i, checkpoint_reference_key i, ci_object i))
       (filter (\<lambda>(_, i). ci_thread_id i = thread_id) (st_checkpoints st))
     @ map (\<lambda>(_, i). (pw_graph_family i, pw_owner_kind i, pw_owner_id i, write_reference_key i, pw_object i))
       (filter (\<lambda>(_, i). pw_thread_id i = thread_id) (st_pending_writes st))"

definition delete_checkpoint_thread ::
  "runtime_store \<Rightarrow> string \<Rightarrow> string \<Rightarrow> string \<Rightarrow> uuid \<Rightarrow> cas_object list outcome" where
  "delete_checkpoint_thread st thread_id graph_family owner_kind owner_id =
     (let indexes = thread_indexes st thread_id in
      if list_ex (\<lambda>(g, k, i, _, _). (g, k, i) \<noteq> (graph_family, owner_kind, owner_id)) indexes
      then (Inl (ValueError ''checkpoint owner identity mismatch''), st)
      else
        let refs = fold (\<lambda>(_, k, i, r, _). AList.delete (k, i, r)) indexes (st_cas_refs st);
            live = (co_digest \<circ> snd) ` set refs;
            dead = filter (\<lambda>obj. co_digest obj \<notin> live) (map (\<lambda>(_, _, _, _, obj). obj) indexes)
        in (Inr (map snd (fold (\<lambda>obj. AList.update (co_digest obj) obj) dead [])),
            st\<lparr>st_cas_refs := refs,
              st_checkpoints := filter (\<lambda>(_, i). ci_thread_id i \<noteq> thread_id) (st_checkpoints st),
              st_pending_writes := filter (\<lambda>(_, i). pw_thread_id i \<noteq> thread_id) (st_pending_writes st)\<rparr>))"

section \<open>Agent runs\<close>

definition validate_new_agent_run :: "agent_run \<Rightarrow> unit res" where
  "validate_new_agent_run r =
     (if ag_state r \<noteq> SsCreated \<or> ag_exit r \<noteq> None
      then Inl (StoreCommitError ''new AgentRun must be created without an exit'')
      else if ag_checkpoint_sha256 r \<noteq> None \<or> ag_candidate_checkpoint_sha256 r \<noteq> None
        \<or> ag_result_sha256 r \<noteq> None \<or> ag_usage_sha256 r \<noteq> None
      then Inl (StoreCommitError ''new AgentRun cannot have terminal references'')
      else Inr ())"

definition create_or_get_agent_run :: "runtime_store \<Rightarrow> agent_run \<Rightarrow> agent_run outcome" where
  "create_or_get_agent_run st r =
     (case validate_new_agent_run r of
        Inl e \<Rightarrow> (Inl e, st)
      | Inr _ \<Rightarrow>
          if ag_owner_kind r = ''run'' \<and> load st (ag_owner_id r) = None
          then (Inl (StoreCommitError ''AgentRun owner Run does not exist''), st)
          else case map_of (st_agent_run_keys st) (owner_key r) of
            Some existing_id \<Rightarrow>
              (case map_of (st_agent_runs st) existing_id of
                 None \<Rightarrow> (Inl (KeyError (str_uuid existing_id)), st)
               | Some existing \<Rightarrow>
                   if \<not> same_creation_identity existing r
                   then (Inl (StoreCommitError ''AgentRun logical task identity mismatch''), st)
                   else (Inr existing, st))
          | None \<Rightarrow>
              if map_of (st_agent_runs st) (ag_agent_run_id r) \<noteq> None
              then (Inl (StoreCommitError ''AgentRun ID already exists''), st)
              else (case parse_uuid (ag_thread_id r) of
                  None \<Rightarrow> (Inl (ValueError ''badly formed hexadecimal UUID string''), st)
                | Some thread \<Rightarrow>
                    if map_of (st_agent_threads st) thread \<noteq> None
                    then (Inl (StoreCommitError ''AgentRun thread already exists''), st)
                    else (Inr r,
                      st\<lparr>st_agent_runs := AList.update (ag_agent_run_id r) r (st_agent_runs st),
                        st_agent_run_keys := AList.update (owner_key r) (ag_agent_run_id r) (st_agent_run_keys st),
                        st_agent_threads := AList.update thread (ag_agent_run_id r) (st_agent_threads st)\<rparr>)))"

definition load_agent_run :: "runtime_store \<Rightarrow> uuid \<Rightarrow> agent_run option" where
  "load_agent_run st agent_run_id = map_of (st_agent_runs st) agent_run_id"

definition list_agent_runs_by_owner :: "runtime_store \<Rightarrow> string \<Rightarrow> uuid \<Rightarrow> agent_run list" where
  "list_agent_runs_by_owner st owner_kind owner_id =
     sort_key ag_logical_task_key
       (filter (\<lambda>r. ag_owner_kind r = owner_kind \<and> ag_owner_id r = owner_id) (map snd (st_agent_runs st)))"

definition load_agent_run_receipt :: "runtime_store \<Rightarrow> uuid \<Rightarrow> agent_run_receipt option" where
  "load_agent_run_receipt st agent_run_id = map_of (st_agent_receipts st) agent_run_id"

definition ref_key_char :: "char \<Rightarrow> bool" where
  "ref_key_char c \<longleftrightarrow>
     c \<in> set ''ABCDEFGHIJKLMNOPQRSTUVWXYZabcdefghijklmnopqrstuvwxyz0123456789._:-''"

definition validate_agent_receipt ::
  "agent_run option \<Rightarrow> agent_run \<Rightarrow> agent_run_receipt \<Rightarrow> run_state option \<Rightarrow> event_spec list
     \<Rightarrow> (string \<times> cas_object) list \<Rightarrow> unit res" where
  "validate_agent_receipt current r receipt state events cas_references = (case current of
       None \<Rightarrow> Inl (StoreCommitError ''AgentRun does not exist'')
     | Some cur \<Rightarrow>
         if \<not> same_frozen_identity cur r then Inl (StoreCommitError ''AgentRun frozen identity mismatch'')
         else if is_terminal cur \<or> \<not> is_terminal r
         then Inl (StoreCommitError ''AgentRun receipt requires a new terminal state'')
         else if rc_agent_run_id receipt \<noteq> ag_agent_run_id r
         then Inl (StoreCommitError ''AgentRun receipt identity mismatch'')
         else if ag_owner_kind r = ''run''
              \<and> (case state of None \<Rightarrow> True | Some s \<Rightarrow> rs_run_id s \<noteq> ag_owner_id r)
         then Inl (StoreCommitError ''Run owner receipt requires matching Run state'')
         else if ag_owner_kind r \<noteq> ''run'' \<and> (state \<noteq> None \<or> events \<noteq> [])
         then Inl (StoreCommitError ''Draft owner cannot write Run facts or events'')
         else if ag_owner_kind r \<noteq> ''run'' \<and> cas_references \<noteq> []
         then Inl (StoreCommitError ''Run receipt CAS refs require a Run owner'')
         else if list_ex (\<lambda>(key, _). key = [] \<or> 256 < length key \<or> \<not> list_all ref_key_char key) cas_references
         then Inl (StoreCommitError ''CAS reference key is invalid'')
         else Inr ())"

fun check_references ::
  "(ref_key \<times> cas_object) list \<Rightarrow> agent_run \<Rightarrow> (string \<times> cas_object) list \<Rightarrow> unit res" where
  "check_references refs r [] = Inr ()"
| "check_references refs r ((key, obj) # rest) =
     (let existing = map_of refs (ag_owner_kind r, ag_owner_id r, key) in
      if existing \<noteq> None \<and> existing \<noteq> Some obj
      then Inl (StoreCommitError ''CAS reference key already points to another object'')
      else if size_mismatch refs obj then Inl (StoreCommitError ''CAS object size mismatch'')
      else check_references refs r rest)"

definition receipt_snapshot ::
  "digests \<Rightarrow> runtime_store \<Rightarrow> run_state option \<Rightarrow> event_spec list \<Rightarrow> runtime_snapshot option res" where
  "receipt_snapshot D st state events = (case state of
       None \<Rightarrow> Inr None
     | Some s \<Rightarrow> (case load st (rs_run_id s) of
           None \<Rightarrow> Inl (StoreCommitError ''runtime run does not exist'')
         | Some previous \<Rightarrow>
             if rs_version s \<noteq> rs_version (sn_state previous) + 1
             then Inl (StoreCommitError ''Run owner state version is stale'')
             else map_sum id (\<lambda>ms. Some \<lparr>sn_state = s, sn_events = sn_events previous @ ms\<rparr>)
               (materialize D (st_registry st) (length (sn_events previous) + 1) events)))"

definition commit_agent_run_receipt ::
  "digests \<Rightarrow> runtime_store \<Rightarrow> agent_run \<Rightarrow> agent_run_receipt \<Rightarrow> run_state option \<Rightarrow> event_spec list
     \<Rightarrow> (string \<times> cas_object) list \<Rightarrow> agent_run_receipt outcome" where
  "commit_agent_run_receipt D st r receipt state events cas_references =
     (case map_of (st_agent_receipts st) (ag_agent_run_id r) of
        Some existing \<Rightarrow>
          if rc_category existing \<noteq> rc_category receipt \<or> rc_agent_run_id existing \<noteq> rc_agent_run_id receipt
            \<or> map_of (st_agent_runs st) (ag_agent_run_id r) \<noteq> Some r
            \<or> list_ex (\<lambda>(key, obj). map_of (st_cas_refs st) (ag_owner_kind r, ag_owner_id r, key) \<noteq> Some obj)
                cas_references
          then (Inl (StoreCommitError ''AgentRun receipt replay mismatch''), st)
          else (Inr existing, st)
      | None \<Rightarrow>
          (case validate_agent_receipt (map_of (st_agent_runs st) (ag_agent_run_id r)) r receipt state events
                  cas_references of
             Inl e \<Rightarrow> (Inl e, st)
           | Inr _ \<Rightarrow>
          (case check_references (st_cas_refs st) r cas_references of
             Inl e \<Rightarrow> (Inl e, st)
           | Inr _ \<Rightarrow>
              if st_fail_next st then injected_failure st
              else case receipt_snapshot D st state events of
                Inl e \<Rightarrow> (Inl e, st)
              | Inr snapshot \<Rightarrow>
                  (Inr receipt,
                   st\<lparr>st_snapshots := (case snapshot of
                          None \<Rightarrow> st_snapshots st
                        | Some s \<Rightarrow> AList.update (ag_owner_id r) s (st_snapshots st)),
                      st_agent_runs := AList.update (ag_agent_run_id r) r (st_agent_runs st),
                      st_agent_receipts := AList.update (ag_agent_run_id r) receipt (st_agent_receipts st),
                      st_cas_refs := fold (\<lambda>(key, obj). AList.update (ag_owner_kind r, ag_owner_id r, key) obj)
                        cas_references (st_cas_refs st),
                      st_commit_count := st_commit_count st + 1\<rparr>))))"

section \<open>Integration intents and receipts\<close>

definition validate_integration_intent :: "integration_intent \<Rightarrow> unit res" where
  "validate_integration_intent i =
     (if \<not> (is_sha256 (ii_guard_sha256 i) \<and> is_sha256 (ii_verification_fingerprint i) \<and> is_sha256 (ii_idempotency_key i))
      then Inl (StoreCommitError ''IntegrationIntent digests are invalid'')
      else if \<not> (is_git_oid (ii_expected_verified_oid i) \<and> is_git_oid (ii_prospective_commit_oid i))
      then Inl (StoreCommitError ''IntegrationIntent Git OIDs are invalid'')
      else if ii_expected_verified_oid i = ii_prospective_commit_oid i
        \<or> ii_prospective_commit_oid i = replicate 40 (CHR ''0'')
      then Inl (StoreCommitError ''IntegrationIntent must advance to a non-zero commit'')
      else Inr ())"

definition run_receipts :: "runtime_store \<Rightarrow> uuid \<Rightarrow> integration_receipt list" where
  "run_receipts st run_id =
     map snd (filter (\<lambda>((receipt_run, _), _). receipt_run = run_id) (st_integration_receipts st))"

text \<open>\<open>max(receipts, key=event_sequence, default=None)\<close>: the first of the largest.\<close>

definition load_latest_integration_receipt :: "runtime_store \<Rightarrow> uuid \<Rightarrow> integration_receipt option" where
  "load_latest_integration_receipt st run_id =
     foldl (\<lambda>best receipt. case best of
         None \<Rightarrow> Some receipt
       | Some b \<Rightarrow> if ir_event_sequence b < ir_event_sequence receipt then Some receipt else Some b)
       None (run_receipts st run_id)"

definition load_integration_intent :: "runtime_store \<Rightarrow> uuid \<Rightarrow> string \<Rightarrow> integration_intent option" where
  "load_integration_intent st run_id key = map_of (st_integration_intents st) (run_id, key)"

definition load_integration_receipt :: "runtime_store \<Rightarrow> uuid \<Rightarrow> string \<Rightarrow> integration_receipt option" where
  "load_integration_receipt st run_id key = map_of (st_integration_receipts st) (run_id, key)"

definition list_pending_integration_intents :: "runtime_store \<Rightarrow> uuid \<Rightarrow> integration_intent list" where
  "list_pending_integration_intents st run_id =
     map snd (filter (\<lambda>((intent_run, key), _). intent_run = run_id
         \<and> map_of (st_integration_receipts st) (intent_run, key) = None) (st_integration_intents st))"

definition list_integration_receipts :: "runtime_store \<Rightarrow> uuid \<Rightarrow> integration_receipt list" where
  "list_integration_receipts st run_id = sort_key ir_event_sequence (run_receipts st run_id)"

definition head_differs :: "runtime_store \<Rightarrow> uuid \<Rightarrow> integration_intent \<Rightarrow> bool" where
  "head_differs st run_id i = (case load_latest_integration_receipt st run_id of
       None \<Rightarrow> False | Some latest \<Rightarrow> ir_verified_commit_oid latest \<noteq> ii_expected_verified_oid i)"

definition persist_integration_intent :: "runtime_store \<Rightarrow> integration_intent \<Rightarrow> integration_intent outcome" where
  "persist_integration_intent st i =
     (case validate_integration_intent i of
        Inl e \<Rightarrow> (Inl e, st)
      | Inr _ \<Rightarrow>
          let run_id = ii_run_id i; key = (run_id, ii_idempotency_key i) in
          if load st run_id = None
          then (Inl (StoreCommitError ''integration intent owner Run does not exist''), st)
          else case map_of (st_integration_intents st) key of
            Some existing \<Rightarrow>
              if existing \<noteq> i then (Inl (StoreCommitError ''integration intent replay mismatch''), st)
              else (Inr existing, st)
          | None \<Rightarrow>
              if list_ex (\<lambda>((pending_run, pending_key), _). pending_run = run_id \<and> pending_key \<noteq> snd key
                   \<and> (run_id, pending_key) \<notin> fst ` set (st_integration_receipts st)) (st_integration_intents st)
              then (Inl (StoreCommitError ''another integration intent is awaiting verified receipt''), st)
              else if head_differs st run_id i
              then (Inl (StoreCommitError ''integration intent expected head differs from latest receipt''), st)
              else (Inr i, st\<lparr>st_integration_intents := AList.update key i (st_integration_intents st)\<rparr>))"

definition make_integration_receipt ::
  "digests \<Rightarrow> integration_intent \<Rightarrow> string \<Rightarrow> nat \<Rightarrow> integration_receipt res" where
  "make_integration_receipt D i verified_commit_oid event_sequence =
     integration_receipt_init
       \<lparr>ir_intent = i, ir_verified_commit_oid = verified_commit_oid,
        ir_receipt_sha256 = dg_json D (PDict [(StrKey ''idempotency_key'', PStr (ii_idempotency_key i)),
            (StrKey ''verified_commit_oid'', PStr verified_commit_oid)]),
        ir_event_sequence = event_sequence\<rparr>"

definition completed_key :: "integration_intent \<Rightarrow> string" where
  "completed_key i = ''integration.completed:'' @ ii_idempotency_key i"

definition validate_integration_events ::
  "integration_intent \<Rightarrow> string \<Rightarrow> event_spec list \<Rightarrow> unit res" where
  "validate_integration_events i verified_commit_oid events = (case events of
       [c, a] \<Rightarrow>
         if es_event_type c \<noteq> ''integration.completed''
           \<or> data_get (es_data c) ''receipt_key'' \<noteq> Some (PStr (completed_key i))
           \<or> data_get (es_data c) ''slice_id'' \<noteq> Some (PStr (str_uuid (ii_slice_id i)))
           \<or> data_get (es_data c) ''generation'' \<noteq> Some (PInt (ii_generation i))
           \<or> data_get (es_data c) ''verified_commit_oid'' \<noteq> Some (PStr verified_commit_oid)
           \<or> es_event_type a \<noteq> ''verified.advanced''
           \<or> data_get (es_data a) ''slice_id'' \<noteq> Some (PStr (str_uuid (ii_slice_id i)))
           \<or> data_get (es_data a) ''generation'' \<noteq> Some (PInt (ii_generation i))
           \<or> data_get (es_data a) ''commit_oid'' \<noteq> Some (PStr verified_commit_oid)
         then Inl (StoreCommitError ''integration receipt Run events do not match its intent'')
         else Inr ()
     | _ \<Rightarrow> Inl (StoreCommitError ''integration receipt requires its ordered Run events''))"

definition replay_integration_receipt ::
  "runtime_store \<Rightarrow> integration_intent \<Rightarrow> string \<Rightarrow> integration_receipt \<Rightarrow> integration_receipt res" where
  "replay_integration_receipt st i verified_commit_oid existing =
     (if map_of (st_integration_intents st) (ii_run_id i, ii_idempotency_key i) \<noteq> Some i
        \<or> ir_verified_commit_oid existing \<noteq> verified_commit_oid
      then Inl (StoreCommitError ''integration receipt replay mismatch'')
      else case load st (ii_run_id i) of
        None \<Rightarrow> Inl (KeyError (str_uuid (ii_run_id i)))
      | Some snapshot \<Rightarrow>
          (case find (\<lambda>event. re_sequence event = ir_event_sequence existing
                 \<and> re_event_type event = ''integration.completed'') (sn_events snapshot) of
             None \<Rightarrow> Inl (StoreCommitError ''integration receipt event replay mismatch'')
           | Some event \<Rightarrow>
               if data_get (re_data event) ''receipt_key'' \<noteq> Some (PStr (completed_key i))
               then Inl (StoreCommitError ''integration receipt event replay mismatch'')
               else Inr existing))"

definition commit_integration_receipt ::
  "digests \<Rightarrow> runtime_store \<Rightarrow> run_state \<Rightarrow> integration_intent \<Rightarrow> string \<Rightarrow> event_spec list
     \<Rightarrow> integration_receipt outcome" where
  "commit_integration_receipt D st state i verified_commit_oid events =
     (let run_id = ii_run_id i; key = (run_id, ii_idempotency_key i) in
      case map_of (st_integration_receipts st) key of
        Some existing \<Rightarrow> (replay_integration_receipt st i verified_commit_oid existing, st)
      | None \<Rightarrow>
          (case validate_integration_intent i of
             Inl e \<Rightarrow> (Inl e, st)
           | Inr _ \<Rightarrow>
          if map_of (st_integration_intents st) key \<noteq> Some i
          then (Inl (StoreCommitError ''integration intent is not durably committed''), st)
          else if verified_commit_oid \<noteq> ii_prospective_commit_oid i
          then (Inl (StoreCommitError ''verified head does not match the intent''), st)
          else if head_differs st run_id i
          then (Inl (StoreCommitError ''integration intent expected head differs from latest receipt''), st)
          else case load st run_id of
            None \<Rightarrow> (Inl (StoreCommitError ''integration receipt owner Run does not exist''), st)
          | Some previous \<Rightarrow>
              if rs_run_id state \<noteq> run_id \<or> rs_version state \<noteq> rs_version (sn_state previous) + 1
              then (Inl (StoreCommitError ''Run owner state version is stale''), st)
              else (case validate_integration_events i verified_commit_oid events of
                 Inl e \<Rightarrow> (Inl e, st)
               | Inr _ \<Rightarrow>
              if st_fail_next st then injected_failure st
              else (case materialize D (st_registry st) (length (sn_events previous) + 1) events of
                 Inl e \<Rightarrow> (Inl e, st)
               | Inr materialized \<Rightarrow>
              (case make_integration_receipt D i verified_commit_oid (length (sn_events previous) + 1) of
                 Inl e \<Rightarrow> (Inl e, st)
               | Inr receipt \<Rightarrow>
                   (Inr receipt,
                    st\<lparr>st_snapshots := AList.update run_id
                         \<lparr>sn_state = state, sn_events = sn_events previous @ materialized\<rparr> (st_snapshots st),
                      st_integration_receipts := AList.update key receipt (st_integration_receipts st),
                      st_commit_count := st_commit_count st + 1\<rparr>))))))"

end
