(* ===== verification/Runtime_Log.thy ===== *)
theory Runtime_Log
  imports Runtime_Ledger
begin

text \<open>
  What the store promises about the event logs of its runs. The writing operations share one
  contract, the locale \<open>log_writer\<close>: a failing operation changes nothing but the injected failure
  flag, and a succeeding one leaves every log alone or appends consecutively numbered events to one
  of them. The facts about logs are proved once in the locale and inherited by every operation.
\<close>

section \<open>Logs\<close>

text \<open>Consecutive sequence numbers, starting at \<open>n\<close>.\<close>

fun numbered :: "nat \<Rightarrow> runtime_event list \<Rightarrow> bool" where
  "numbered n [] \<longleftrightarrow> True"
| "numbered n (e # es) \<longleftrightarrow> re_sequence e = n \<and> numbered (Suc n) es"

lemma numbered_append [simp]: "numbered n (xs @ ys) \<longleftrightarrow> numbered n xs \<and> numbered (n + length xs) ys"
  by (induction xs arbitrary: n) auto

lemma numbered_bounds: "numbered n es \<Longrightarrow> e \<in> set es \<Longrightarrow> n \<le> re_sequence e \<and> re_sequence e < n + length es"
  by (induction es arbitrary: n) fastforce+

definition log_ok :: "runtime_store \<Rightarrow> bool" where
  "log_ok st \<longleftrightarrow> (\<forall>run_id s. load st run_id = Some s \<longrightarrow>
     rs_run_id (sn_state s) = run_id \<and> numbered 1 (sn_events s))"

definition extends_logs :: "runtime_store \<Rightarrow> runtime_store \<Rightarrow> bool" where
  "extends_logs st st' \<longleftrightarrow> (\<forall>run_id. prefix (events_of st run_id) (events_of st' run_id))"

definition appends :: "runtime_store \<Rightarrow> runtime_store \<Rightarrow> bool" where
  "appends st st' \<longleftrightarrow>
     st_snapshots st' = st_snapshots st
     \<or> (\<exists>s ms. st_snapshots st' = AList.update (rs_run_id s)
              \<lparr>sn_state = s, sn_events = events_of st (rs_run_id s) @ ms\<rparr> (st_snapshots st)
          \<and> numbered (Suc (length (events_of st (rs_run_id s)))) ms)"

lemma load_cong: "st_snapshots st' = st_snapshots st \<Longrightarrow> load st' = load st"
  by (simp add: load_def fun_eq_iff)

lemma events_of_cong: "st_snapshots st' = st_snapshots st \<Longrightarrow> events_of st' = events_of st"
  by (simp add: events_of_def load_def fun_eq_iff)

lemma load_update:
  "st_snapshots st' = AList.update k s (st_snapshots st) \<Longrightarrow>
     load st' run_id = (if run_id = k then Some s else load st run_id)"
  by (simp add: load_def update_conv')

lemma events_numbered: "log_ok st \<Longrightarrow> numbered 1 (events_of st run_id)"
  by (auto simp: events_of_def log_ok_def split: option.splits)

lemma appends_log_ok:
  assumes "appends st st'" "log_ok st"
  shows "log_ok st'"
  using assms(1) unfolding appends_def
proof (elim disjE exE conjE)
  assume "st_snapshots st' = st_snapshots st"
  from load_cong [OF this] show ?thesis using assms(2) by (simp add: log_ok_def)
next
  fix s :: run_state and ms
  let ?es = "events_of st (rs_run_id s)"
  assume u: "st_snapshots st' = AList.update (rs_run_id s) \<lparr>sn_state = s, sn_events = ?es @ ms\<rparr> (st_snapshots st)"
    and n: "numbered (Suc (length ?es)) ms"
  have "numbered 1 (?es @ ms)"
    using n events_numbered [OF assms(2)] by simp
  then show ?thesis
    using assms(2) unfolding log_ok_def load_update [OF u] by (simp del: numbered_append)
qed

lemma appends_extends:
  assumes "appends st st'"
  shows "extends_logs st st'"
  using assms unfolding appends_def
proof (elim disjE exE conjE)
  assume "st_snapshots st' = st_snapshots st"
  from events_of_cong [OF this] show ?thesis by (simp add: extends_logs_def)
next
  fix s :: run_state and ms
  assume u: "st_snapshots st' = AList.update (rs_run_id s)
      \<lparr>sn_state = s, sn_events = events_of st (rs_run_id s) @ ms\<rparr> (st_snapshots st)"
  show ?thesis
    unfolding extends_logs_def events_of_def load_update [OF u] by (auto simp: events_of_def)
qed

lemma extends_refl [simp]: "extends_logs st st"
  by (simp add: extends_logs_def)

lemma extends_trans: "extends_logs a b \<Longrightarrow> extends_logs b c \<Longrightarrow> extends_logs a c"
  unfolding extends_logs_def by (meson prefix_order.trans)

lemma appends_same: "st_snapshots st' = st_snapshots st \<Longrightarrow> appends st st'"
  by (simp add: appends_def)

lemma appendsI:
  assumes "st_snapshots st' = AList.update run_id \<lparr>sn_state = s, sn_events = events_of st run_id @ ms\<rparr> (st_snapshots st)"
    and "rs_run_id s = run_id" "numbered (Suc (length (events_of st run_id))) ms"
  shows "appends st st'"
  unfolding appends_def using assms by blast

section \<open>The contract of a writing operation\<close>

locale log_writer =
  fixes exec :: "'a \<Rightarrow> runtime_store \<Rightarrow> 'r outcome"
  assumes atomic: "exec a st = (Inl e, st') \<Longrightarrow> st' = st \<or> st' = st\<lparr>st_fail_next := False\<rparr>"
    and appending: "exec a st = (Inr r, st') \<Longrightarrow> appends st st'"
begin

lemma step_appends: "appends st (snd (exec a st))"
proof (cases "exec a st")
  case (Pair r st')
  show ?thesis
  proof (cases r)
    case (Inl e)
    then show ?thesis using atomic [of a st e st'] Pair by (auto intro: appends_same)
  next
    case (Inr x)
    then show ?thesis using appending [of a st x st'] Pair by simp
  qed
qed

lemma keeps_log_ok: "log_ok st \<Longrightarrow> log_ok (snd (exec a st))"
  by (rule appends_log_ok [OF step_appends])

lemma keeps_logs: "extends_logs st (snd (exec a st))"
  by (rule appends_extends [OF step_appends])

lemma failure_keeps_load: "exec a st = (Inl e, st') \<Longrightarrow> load st' = load st"
  using atomic [of a st e st'] by (auto simp: load_def fun_eq_iff)

end

section \<open>The operations\<close>

lemma materialize_ok:
  assumes "materialize D registry n events = Inr ms"
  shows "numbered n ms" "map re_event_type ms = map es_event_type events" "map re_data ms = map es_data events"
proof -
  have keys: "map (apfst key_string) (map (apfst StrKey) d) = d" for d :: event_data
    by (induction d) auto
  have data: "d' = d" if "redact_event_data D registry d = Inr d'" for d d'
    using that scan_exact(1) [of "dg_bytes D" registry "PDict (map (apfst StrKey) d)"] keys [of d]
    by (auto simp: redact_event_data_def redact_def split: redaction_result.splits pyval.splits sum.splits blocked.splits)
  have "numbered n ms \<and> map re_event_type ms = map es_event_type events
      \<and> map re_data ms = map es_data events"
    using assms
  proof (induction events arbitrary: n ms)
    case (Cons e es)
    then obtain d ms' where m: "redact_event_data D registry (es_data e) = Inr d"
      "materialize D registry (Suc n) es = Inr ms'"
      "ms = \<lparr>re_sequence = n, re_event_type = es_event_type e, re_data = d\<rparr> # ms'"
      by (auto split: sum.splits simp: map_sum_def)
    show ?case
      using Cons.IH [OF m(2)] m(3) data [OF m(1)] by simp
  qed simp
  then show "numbered n ms" "map re_event_type ms = map es_event_type events" "map re_data ms = map es_data events" by auto
qed

lemma materialize_error: "materialize D registry n events = Inl e \<Longrightarrow> \<exists>m. e = StoreCommitError m"
  by (induction events arbitrary: n) (auto split: sum.splits simp: map_sum_def)

lemma store_write_error:
  assumes "store_write D st s events evolution = (Inl e, st')"
  shows "(st' = st \<or> st' = st\<lparr>st_fail_next := False\<rparr>) \<and> (\<exists>m. e = StoreCommitError m)"
proof -
  have ev: "\<exists>m. x = StoreCommitError m" if "next_in_memory_evolution evolution r en = Inl x" for x r en
    using that by (auto simp: next_in_memory_evolution_def validate_evolution_draft_def Let_def
        split: option.splits if_splits)
  show ?thesis
    using assms ev
    by (auto simp: store_write_def injected_failure_def Let_def dest: materialize_error split: if_splits sum.splits)
qed

lemma store_write_ok:
  assumes "store_write D st s events evolution = (Inr snap, st')"
  obtains ms where
    "materialize D (st_registry st) (length (events_of st (rs_run_id s)) + 1) events = Inr ms"
    "snap = \<lparr>sn_state = s, sn_events = events_of st (rs_run_id s) @ ms\<rparr>"
    "st_snapshots st' = AList.update (rs_run_id s) snap (st_snapshots st)"
    "st_agent_runs st' = st_agent_runs st" "st_agent_receipts st' = st_agent_receipts st"
    "st_integration_intents st' = st_integration_intents st"
    "st_integration_receipts st' = st_integration_receipts st" "st_registry st' = st_registry st"
    "st_fail_next st' = st_fail_next st" "\<not> st_fail_next st"
  using assms
  by (auto simp: store_write_def injected_failure_def Let_def split: if_splits sum.splits)

lemma store_write_appends:
  assumes "store_write D st s events evolution = (Inr snap, st')"
  shows "appends st st'"
proof -
  obtain ms where m: "materialize D (st_registry st) (length (events_of st (rs_run_id s)) + 1) events = Inr ms"
    and snap: "snap = \<lparr>sn_state = s, sn_events = events_of st (rs_run_id s) @ ms\<rparr>"
    and u: "st_snapshots st' = AList.update (rs_run_id s) snap (st_snapshots st)"
    by (rule store_write_ok [OF assms])
  show ?thesis
    using u snap materialize_ok(1) [OF m] by (auto intro: appendsI)
qed

interpretation commit: log_writer "\<lambda>(s, events, evolution) st. store_commit D st s events evolution" for D
  by unfold_locales
    (auto simp: store_commit_def dest: store_write_error store_write_appends split: if_splits)

interpretation create: log_writer
  "\<lambda>(s, events, evolution, transaction) st. store_create D st s events evolution transaction" for D
  by unfold_locales
    (auto simp: store_create_def dest: store_write_error store_write_appends split: if_splits option.splits)

lemma store_commit_error: "store_commit D st s events evolution = (Inl e, st') \<Longrightarrow> \<exists>m. e = StoreCommitError m"
  by (auto simp: store_commit_def dest: store_write_error split: if_splits)

lemma receipt_snapshot_ok:
  assumes "receipt_snapshot D st state events = Inr (Some snap)"
  obtains s ms where "state = Some s" "load st (rs_run_id s) \<noteq> None"
    "snap = \<lparr>sn_state = s, sn_events = events_of st (rs_run_id s) @ ms\<rparr>"
    "materialize D (st_registry st) (length (events_of st (rs_run_id s)) + 1) events = Inr ms"
    "\<exists>prev. load st (rs_run_id s) = Some prev \<and> rs_version s = rs_version (sn_state prev) + 1"
  using assms
  by (auto simp: receipt_snapshot_def events_of_def map_sum_def split: option.splits if_splits sum.splits)

text \<open>What a new receipt of an agent run changes.\<close>

lemma commit_receipt_fresh:
  assumes "commit_agent_run_receipt D st r receipt state events refs = (Inr rc, st')"
    and "map_of (st_agent_receipts st) (ag_agent_run_id r) = None"
  obtains snap where "receipt_snapshot D st state events = Inr snap"
    "validate_agent_receipt (map_of (st_agent_runs st) (ag_agent_run_id r)) r receipt state events refs = Inr ()"
    "st_snapshots st' = (case snap of None \<Rightarrow> st_snapshots st
       | Some s \<Rightarrow> AList.update (ag_owner_id r) s (st_snapshots st))"
    "st_agent_runs st' = AList.update (ag_agent_run_id r) r (st_agent_runs st)"
    "st_agent_receipts st' = AList.update (ag_agent_run_id r) receipt (st_agent_receipts st)"
    "st_integration_intents st' = st_integration_intents st"
    "st_integration_receipts st' = st_integration_receipts st" "rc = receipt"
    "st_registry st' = st_registry st" "\<not> st_fail_next st"
proof -
  let ?v = "validate_agent_receipt (map_of (st_agent_runs st) (ag_agent_run_id r)) r receipt state events refs"
  obtain u v snap where c: "?v = Inr u" "check_references (st_cas_refs st) r refs = Inr v"
    "receipt_snapshot D st state events = Inr snap" "\<not> st_fail_next st"
    using assms by (cases ?v; cases "check_references (st_cas_refs st) r refs";
        cases "receipt_snapshot D st state events"; cases "st_fail_next st")
      (simp_all add: commit_agent_run_receipt_def injected_failure_def)
  show ?thesis
    using assms c by (intro that [of snap]) (auto simp: commit_agent_run_receipt_def)
qed

lemma validate_agent_receipt_ok:
  assumes "validate_agent_receipt current r receipt state events refs = Inr ()"
  obtains cur where "current = Some cur" "same_frozen_identity cur r" "\<not> is_terminal cur" "is_terminal r"
    "rc_agent_run_id receipt = ag_agent_run_id r"
    "\<And>s. state = Some s \<Longrightarrow> ag_owner_kind r = ''run'' \<and> rs_run_id s = ag_owner_id r"
    "state = None \<Longrightarrow> ag_owner_kind r \<noteq> ''run''"
  using assms by (auto simp: validate_agent_receipt_def split: option.splits if_splits)

lemma commit_receipt_replay:
  assumes "commit_agent_run_receipt D st r receipt state events refs = (x, st')"
    and "map_of (st_agent_receipts st) (ag_agent_run_id r) \<noteq> None"
  shows "st' = st"
  using assms by (auto simp: commit_agent_run_receipt_def split: if_splits)

lemma commit_receipt_appends:
  assumes "commit_agent_run_receipt D st r receipt state events refs = (Inr rc, st')"
  shows "appends st st'"
proof (cases "map_of (st_agent_receipts st) (ag_agent_run_id r)")
  case None
  from commit_receipt_fresh [OF assms None] obtain snap where
      snap: "receipt_snapshot D st state events = Inr snap"
    and v: "validate_agent_receipt (map_of (st_agent_runs st) (ag_agent_run_id r)) r receipt state events refs = Inr ()"
    and u: "st_snapshots st' = (case snap of None \<Rightarrow> st_snapshots st
       | Some s \<Rightarrow> AList.update (ag_owner_id r) s (st_snapshots st))"
    by metis
  show ?thesis
  proof (cases snap)
    case None
    with u show ?thesis by (simp add: appends_same)
  next
    case (Some sn)
    with snap obtain s ms where s: "state = Some s"
        "sn = \<lparr>sn_state = s, sn_events = events_of st (rs_run_id s) @ ms\<rparr>"
        "materialize D (st_registry st) (length (events_of st (rs_run_id s)) + 1) events = Inr ms"
      by (metis receipt_snapshot_ok)
    have "rs_run_id s = ag_owner_id r"
      using validate_agent_receipt_ok [OF v] s(1) by metis
    then show ?thesis
      using u Some s(2) materialize_ok(1) [OF s(3)] by (auto intro: appendsI)
  qed
next
  case (Some x)
  then show ?thesis using commit_receipt_replay [OF assms] by (simp add: appends_same)
qed

interpretation receipt: log_writer
  "\<lambda>(r, rc, state, events, refs) st. commit_agent_run_receipt D st r rc state events refs" for D
proof
  fix a and st st' :: runtime_store and e
  assume "(\<lambda>(r, rc, state, events, refs) st. commit_agent_run_receipt D st r rc state events refs) a st = (Inl e, st')"
  then show "st' = st \<or> st' = st\<lparr>st_fail_next := False\<rparr>"
    by (cases a) (auto simp: commit_agent_run_receipt_def injected_failure_def
        split: if_splits sum.splits option.splits)
qed (auto dest: commit_receipt_appends)

text \<open>What a new integration receipt changes.\<close>

lemma commit_integration_fresh:
  assumes "commit_integration_receipt D st s i oid events = (Inr rc, st')"
    and "map_of (st_integration_receipts st) (ii_run_id i, ii_idempotency_key i) = None"
  obtains ms where
    "validate_integration_intent i = Inr ()" "validate_integration_events i oid events = Inr ()"
    "map_of (st_integration_intents st) (ii_run_id i, ii_idempotency_key i) = Some i"
    "oid = ii_prospective_commit_oid i" "\<not> head_differs st (ii_run_id i) i"
    "rs_run_id s = ii_run_id i"
    "\<exists>prev. load st (ii_run_id i) = Some prev \<and> rs_version s = rs_version (sn_state prev) + 1"
    "materialize D (st_registry st) (length (events_of st (ii_run_id i)) + 1) events = Inr ms"
    "ir_intent rc = i" "ir_verified_commit_oid rc = oid"
    "ir_event_sequence rc = length (events_of st (ii_run_id i)) + 1"
    "st_snapshots st' = AList.update (ii_run_id i)
       \<lparr>sn_state = s, sn_events = events_of st (ii_run_id i) @ ms\<rparr> (st_snapshots st)"
    "st_integration_receipts st' = AList.update (ii_run_id i, ii_idempotency_key i) rc (st_integration_receipts st)"
    "st_integration_intents st' = st_integration_intents st"
    "st_agent_runs st' = st_agent_runs st" "st_agent_receipts st' = st_agent_receipts st"
    "st_registry st' = st_registry st"
proof -
  obtain prev where prev: "load st (ii_run_id i) = Some prev"
    using assms by (auto simp: commit_integration_receipt_def Let_def split: if_splits sum.splits option.splits)
  have "events_of st (ii_run_id i) = sn_events prev" using prev by (simp add: events_of_def)
  then show ?thesis
    using assms that prev
    by (auto simp: commit_integration_receipt_def Let_def injected_failure_def make_integration_receipt_def
        integration_receipt_init_def split: if_splits sum.splits)
qed

lemma commit_integration_replay:
  assumes "commit_integration_receipt D st s i oid events = (x, st')"
    and "map_of (st_integration_receipts st) (ii_run_id i, ii_idempotency_key i) \<noteq> None"
  shows "st' = st"
  using assms by (auto simp: commit_integration_receipt_def Let_def)

lemma commit_integration_appends:
  assumes "commit_integration_receipt D st s i oid events = (Inr rc, st')"
  shows "appends st st'"
proof (cases "map_of (st_integration_receipts st) (ii_run_id i, ii_idempotency_key i)")
  case None
  then obtain ms where
      m: "materialize D (st_registry st) (length (events_of st (ii_run_id i)) + 1) events = Inr ms"
    and s: "rs_run_id s = ii_run_id i"
    and u: "st_snapshots st' = AList.update (ii_run_id i)
       \<lparr>sn_state = s, sn_events = events_of st (ii_run_id i) @ ms\<rparr> (st_snapshots st)"
    by (metis commit_integration_fresh [OF assms])
  show ?thesis
    using appendsI [OF u s] materialize_ok(1) [OF m] by simp
next
  case (Some x)
  then show ?thesis using commit_integration_replay [OF assms] by (simp add: appends_same)
qed

interpretation integrated: log_writer
  "\<lambda>(s, i, oid, events) st. commit_integration_receipt D st s i oid events" for D
proof
  fix a and st st' :: runtime_store and e
  assume "(\<lambda>(s, i, oid, events) st. commit_integration_receipt D st s i oid events) a st = (Inl e, st')"
  then show "st' = st \<or> st' = st\<lparr>st_fail_next := False\<rparr>"
    by (cases a) (auto simp: commit_integration_receipt_def injected_failure_def Let_def
        split: if_splits sum.splits option.splits)
qed (auto dest: commit_integration_appends)

end
