(* ===== verification/Store_Properties.thy ===== *)
theory Store_Properties
  imports Runtime_Log
begin

text \<open>
  The store of \<open>runtime/store.py\<close> under arbitrary sequences of its operations, in any interleaving of
  its callers: the event logs seen by readers, the chain of integration receipts, and the agent run
  ledger. The rollback of a transactional creation is not among the operations; it undoes a creation
  that was never visible to another caller.
\<close>

section \<open>Sequences of operations\<close>

datatype store_op =
    OpCreate run_state "event_spec list" "evolution_draft option" "bool option"
  | OpCommit run_state "event_spec list" "evolution_draft option"
  | OpAgentRun agent_run
  | OpAgentReceipt agent_run agent_run_receipt "run_state option" "event_spec list" "(string \<times> cas_object) list"
  | OpIntent integration_intent
  | OpReceipt run_state integration_intent string "event_spec list"
  | OpAddRef cas_object string uuid string
  | OpReleaseRef string uuid string
  | OpCheckpoint checkpoint_index
  | OpPendingWrite pending_write_index
  | OpDeleteThread string string string uuid
  | OpFailNext

fun apply_op :: "digests \<Rightarrow> store_op \<Rightarrow> runtime_store \<Rightarrow> runtime_store" where
  "apply_op D (OpCreate s es ev tr) st = snd (store_create D st s es ev tr)"
| "apply_op D (OpCommit s es ev) st = snd (store_commit D st s es ev)"
| "apply_op D (OpAgentRun r) st = snd (create_or_get_agent_run st r)"
| "apply_op D (OpAgentReceipt r rc s es refs) st = snd (commit_agent_run_receipt D st r rc s es refs)"
| "apply_op D (OpIntent i) st = snd (persist_integration_intent st i)"
| "apply_op D (OpReceipt s i oid es) st = snd (commit_integration_receipt D st s i oid es)"
| "apply_op D (OpAddRef obj k i r) st = snd (add_cas_reference st obj k i r)"
| "apply_op D (OpReleaseRef k i r) st = snd (release_cas_reference st k i r)"
| "apply_op D (OpCheckpoint index) st = snd (publish_checkpoint_index st index)"
| "apply_op D (OpPendingWrite index) st = snd (publish_pending_write_index st index)"
| "apply_op D (OpDeleteThread t g k i) st = snd (delete_checkpoint_thread st t g k i)"
| "apply_op D OpFailNext st = fail_next_commit st"

definition run_ops :: "digests \<Rightarrow> store_op list \<Rightarrow> runtime_store \<Rightarrow> runtime_store" where
  "run_ops D ops st = fold (apply_op D) ops st"

lemma run_ops_simps [simp]:
  "run_ops D [] st = st" "run_ops D (op # ops) st = run_ops D ops (apply_op D op st)"
  by (simp_all add: run_ops_def)

lemma run_ops_append: "run_ops D (xs @ ys) st = run_ops D ys (run_ops D xs st)"
  by (simp add: run_ops_def)

lemma run_ops_induct:
  assumes "P st" "\<And>op st. P st \<Longrightarrow> P (apply_op D op st)"
  shows "P (run_ops D ops st)"
  using assms by (induction ops arbitrary: st) auto

text \<open>The operations that touch neither the logs nor the run ledgers.\<close>

definition same_ledgers :: "runtime_store \<Rightarrow> runtime_store \<Rightarrow> bool" where
  "same_ledgers st st' \<longleftrightarrow>
     st_snapshots st' = st_snapshots st \<and> st_agent_runs st' = st_agent_runs st
     \<and> st_agent_receipts st' = st_agent_receipts st \<and> st_integration_intents st' = st_integration_intents st
     \<and> st_integration_receipts st' = st_integration_receipts st \<and> st_agent_run_keys st' = st_agent_run_keys st"

lemma reference_ops_same:
  "same_ledgers st (snd (add_cas_reference st obj k i r))"
  "same_ledgers st (snd (release_cas_reference st k i r))"
  "same_ledgers st (snd (publish_checkpoint_index st ci))"
  "same_ledgers st (snd (publish_pending_write_index st pw))"
  "same_ledgers st (snd (delete_checkpoint_thread st t g k i))"
  "same_ledgers st (fail_next_commit st)"
  by (simp_all add: same_ledgers_def add_cas_reference_def release_cas_reference_def publish_checkpoint_index_def
      publish_pending_write_index_def delete_checkpoint_thread_def fail_next_commit_def injected_failure_def Let_def
      split: option.splits)

lemma create_or_get_cases:
  assumes "create_or_get_agent_run st r = (x, st')"
  obtains "st' = st" | "x = Inr r" "validate_new_agent_run r = Inr ()" "load_agent_run st (ag_agent_run_id r) = None"
    "map_of (st_agent_run_keys st) (owner_key r) = None"
    "st_agent_runs st' = AList.update (ag_agent_run_id r) r (st_agent_runs st)"
    "st_agent_run_keys st' = AList.update (owner_key r) (ag_agent_run_id r) (st_agent_run_keys st)"
    "st_snapshots st' = st_snapshots st" "st_agent_receipts st' = st_agent_receipts st"
    "st_integration_intents st' = st_integration_intents st" "st_integration_receipts st' = st_integration_receipts st"
proof (cases "st' = st")
  case True
  then show ?thesis by (rule that(1))
next
  case False
  then obtain thread where c: "validate_new_agent_run r = Inr ()" "map_of (st_agent_run_keys st) (owner_key r) = None"
    "map_of (st_agent_runs st) (ag_agent_run_id r) = None" "x = Inr r"
    "st' = st\<lparr>st_agent_runs := AList.update (ag_agent_run_id r) r (st_agent_runs st),
       st_agent_run_keys := AList.update (owner_key r) (ag_agent_run_id r) (st_agent_run_keys st),
       st_agent_threads := AList.update thread (ag_agent_run_id r) (st_agent_threads st)\<rparr>"
    using assms unfolding create_or_get_agent_run_def
    by (simp split: sum.split_asm option.split_asm if_split_asm) metis
  show ?thesis
    by (rule that(2)) (simp_all add: c load_agent_run_def)
qed

lemma persist_intent_cases:
  assumes "persist_integration_intent st i = (x, st')"
  obtains "st' = st" | "st' = st\<lparr>st_integration_intents :=
       AList.update (ii_run_id i, ii_idempotency_key i) i (st_integration_intents st)\<rparr>"
    "map_of (st_integration_intents st) (ii_run_id i, ii_idempotency_key i) = None"
    "list_pending_integration_intents st (ii_run_id i) = []" "x = Inr i" "\<not> head_differs st (ii_run_id i) i"
proof -
  have "list_pending_integration_intents st (ii_run_id i) = []"
    if "map_of (st_integration_intents st) (ii_run_id i, ii_idempotency_key i) = None"
      "\<not> list_ex (\<lambda>((pending_run, pending_key), _). pending_run = ii_run_id i \<and> pending_key \<noteq> ii_idempotency_key i
          \<and> (ii_run_id i, pending_key) \<notin> fst ` set (st_integration_receipts st)) (st_integration_intents st)"
  proof -
    have False if m: "((ii_run_id i, k), j) \<in> set (st_integration_intents st)"
      and n: "map_of (st_integration_receipts st) (ii_run_id i, k) = None" for k j
    proof -
      have "k \<noteq> ii_idempotency_key i"
        using \<open>map_of (st_integration_intents st) _ = None\<close> m by (force simp: map_of_eq_None_iff)
      with \<open>\<not> list_ex _ _\<close> m n show False
        by (force simp: list_ex_iff map_of_eq_None_iff)
    qed
    then show ?thesis
      by (auto simp: list_pending_integration_intents_def filter_empty_conv)
  qed
  note pending = this
  show ?thesis
  proof (cases "st' = st")
    case True
    then show ?thesis by (rule that(1))
  next
    case False
    then have c: "map_of (st_integration_intents st) (ii_run_id i, ii_idempotency_key i) = None" "x = Inr i"
      "st' = st\<lparr>st_integration_intents := AList.update (ii_run_id i, ii_idempotency_key i) i (st_integration_intents st)\<rparr>"
      "\<not> list_ex (\<lambda>((pending_run, pending_key), _). pending_run = ii_run_id i \<and> pending_key \<noteq> ii_idempotency_key i
          \<and> (ii_run_id i, pending_key) \<notin> fst ` set (st_integration_receipts st)) (st_integration_intents st)"
      "\<not> head_differs st (ii_run_id i) i"
      using assms unfolding persist_integration_intent_def Let_def
      by (simp_all split: sum.split_asm option.split_asm if_split_asm)
    show ?thesis by (rule that(2) [OF c(3,1) pending [OF c(1,4)] c(2,5)])
  qed
qed

lemma apply_op_appends: "appends st (apply_op D op st)"
proof (cases op)
  case (OpCreate s es ev tr)
  then show ?thesis using create.step_appends [of st D "(s, es, ev, tr)"] by simp
next
  case (OpCommit s es ev)
  then show ?thesis using commit.step_appends [of st D "(s, es, ev)"] by simp
next
  case (OpAgentReceipt r rc s es refs)
  then show ?thesis using receipt.step_appends [of st D "(r, rc, s, es, refs)"] by simp
next
  case (OpReceipt s i oid es)
  then show ?thesis using integrated.step_appends [of st D "(s, i, oid, es)"] by simp
next
  case (OpAgentRun r)
  then show ?thesis
    by (cases "create_or_get_agent_run st r") (auto elim!: create_or_get_cases intro: appends_same)
next
  case (OpIntent i)
  then show ?thesis
    by (cases "persist_integration_intent st i") (auto elim!: persist_intent_cases intro: appends_same)
qed (use reference_ops_same in \<open>auto simp: same_ledgers_def intro: appends_same\<close>)

lemma log_ok_init [simp]: "log_ok (store_init registry)"
  by (simp add: log_ok_def store_init_def load_def)

lemma run_ops_log_ok: "log_ok (run_ops D ops (store_init registry))"
  by (rule run_ops_induct) (auto intro: appends_log_ok [OF apply_op_appends])

lemma run_ops_extends: "extends_logs st (run_ops D ops st)"
  by (rule run_ops_induct) (auto intro: extends_trans appends_extends [OF apply_op_appends])

section \<open>Readers\<close>

lemma read_after:
  assumes "numbered 1 es"
  shows "filter (\<lambda>e. int (re_sequence e) > int k) es = drop k es"
proof (cases "k \<le> length es")
  case True
  have n: "numbered 1 (take k es)" "numbered (Suc (length (take k es))) (drop k es)"
    using assms append_take_drop_id [of k es] by (metis numbered_append plus_1_eq_Suc)+
  have "filter (\<lambda>e. int (re_sequence e) > int k) (take k es) = []"
    using numbered_bounds [OF n(1)] True by (fastforce simp: filter_empty_conv)
  moreover have "filter (\<lambda>e. int (re_sequence e) > int k) (drop k es) = drop k es"
    using numbered_bounds [OF n(2)] True by (fastforce simp: filter_id_conv)
  ultimately show ?thesis
    by (metis append_Nil append_take_drop_id filter_append)
next
  case False
  then have "filter (\<lambda>e. int (re_sequence e) > int k) es = []"
    using numbered_bounds [OF assms] by (fastforce simp: filter_empty_conv)
  with False show ?thesis by simp
qed

text \<open>C9: A reader of a run's events never loses, repeats or reorders one. Take any history of the
  store, a reader who has seen the first \<open>k\<close> events of a run (its cursor is the sequence number of
  the last of them), and any further operations: what the reader has seen, followed by what
  \<open>read_run_events\<close> returns after the cursor, is the whole log of the run.\<close>

theorem read_run_events_resume:
  "let st = run_ops D ops (store_init registry);
       st' = run_ops D later st;
       cursor = min k (length (events_of st run_id))
   in take cursor (events_of st run_id) @ read_run_events st' run_id (int cursor) = events_of st' run_id"
proof -
  define st where "st = run_ops D ops (store_init registry)"
  define st' where "st' = run_ops D later st"
  have ok: "numbered 1 (events_of st' run_id)"
    unfolding st'_def st_def using events_numbered [OF run_ops_log_ok [of D "ops @ later" registry], of run_id]
    by (simp add: run_ops_append)
  have "prefix (events_of st run_id) (events_of st' run_id)"
    unfolding st'_def using run_ops_extends [of st D later] by (simp add: extends_logs_def)
  then obtain ext where ext: "events_of st' run_id = events_of st run_id @ ext"
    by (auto simp: prefix_def)
  let ?c = "min k (length (events_of st run_id))"
  have "take ?c (events_of st run_id) = take ?c (events_of st' run_id)" by (simp add: ext)
  moreover have "read_run_events st' run_id (int ?c) = drop ?c (events_of st' run_id)"
    unfolding read_run_events_def by (rule read_after [OF ok])
  ultimately show ?thesis
    by (simp add: Let_def flip: st_def st'_def)
qed

section \<open>The chain of integration receipts\<close>

definition next_link :: "integration_receipt \<Rightarrow> integration_receipt \<Rightarrow> bool" where
  "next_link a b \<longleftrightarrow> ii_expected_verified_oid (ir_intent b) = ir_verified_commit_oid a"

definition receipts_ok :: "runtime_store \<Rightarrow> bool" where
  "receipts_ok st \<longleftrightarrow>
     (\<forall>run_id. sorted_wrt (<) (map ir_event_sequence (run_receipts st run_id))
        \<and> successively next_link (run_receipts st run_id)
        \<and> length (list_pending_integration_intents st run_id) \<le> 1
        \<and> (\<forall>p \<in> set (list_pending_integration_intents st run_id). run_receipts st run_id = []
             \<or> ii_expected_verified_oid p = ir_verified_commit_oid (last (run_receipts st run_id)))
        \<and> (\<forall>r \<in> set (run_receipts st run_id). ir_event_sequence r \<le> length (events_of st run_id)
             \<and> ir_verified_commit_oid r = ii_prospective_commit_oid (ir_intent r)
             \<and> ii_expected_verified_oid (ir_intent r) \<noteq> ir_verified_commit_oid r))
     \<and> distinct (map fst (st_integration_intents st))"

lemma foldl_latest:
  assumes "sorted_wrt (<) (map ir_event_sequence rs)"
  shows "foldl (\<lambda>best receipt. case best of
         None \<Rightarrow> Some receipt
       | Some b \<Rightarrow> if ir_event_sequence b < ir_event_sequence receipt then Some receipt else Some b)
       None rs = (if rs = [] then None else Some (last rs))"
  using assms
proof (induction rs rule: rev_induct)
  case (snoc r rs)
  then show ?case by (cases rs rule: rev_cases) (auto simp: sorted_wrt_append)
qed simp

lemma latest_is_last:
  assumes "receipts_ok st"
  shows "load_latest_integration_receipt st run_id =
    (if run_receipts st run_id = [] then None else Some (last (run_receipts st run_id)))"
  unfolding load_latest_integration_receipt_def
  by (rule foldl_latest) (use assms in \<open>simp add: receipts_ok_def\<close>)

lemma receipts_ok_cong:
  assumes "receipts_ok st" "extends_logs st st'"
    and "st_integration_intents st' = st_integration_intents st"
    and "st_integration_receipts st' = st_integration_receipts st"
  shows "receipts_ok st'"
proof -
  have r: "run_receipts st' = run_receipts st"
    "list_pending_integration_intents st' = list_pending_integration_intents st"
    using assms(3,4) by (simp_all add: run_receipts_def list_pending_integration_intents_def fun_eq_iff)
  have "length (events_of st run_id) \<le> length (events_of st' run_id)" for run_id
    using assms(2) by (simp add: extends_logs_def prefix_length_le)
  then show ?thesis
    using assms(1) unfolding receipts_ok_def r assms(3) by (meson order_trans)
qed

lemma length_filter_mono: "(\<And>x. P x \<Longrightarrow> Q x) \<Longrightarrow> length (filter P xs) \<le> length (filter Q xs)"
  by (induction xs) (auto simp: le_SucI)

lemma successively_snoc: "successively P (xs @ [x]) \<longleftrightarrow> successively P xs \<and> (xs = [] \<or> P (last xs) x)"
  by (auto simp: successively_append_iff)

lemma receipts_ok_intent:
  assumes ok: "receipts_ok st" and p: "persist_integration_intent st i = (x, st')"
  shows "receipts_ok st'"
  using p
proof (cases rule: persist_intent_cases)
  case 1
  with ok show ?thesis by simp
next
  case 2
  let ?k = "(ii_run_id i, ii_idempotency_key i)"
  have fresh: "?k \<notin> fst ` set (st_integration_intents st)" using 2(2) by (simp add: map_of_eq_None_iff)
  have up: "AList.update ?k i (st_integration_intents st) = st_integration_intents st @ [(?k, i)]"
    by (rule update_fresh [OF fresh])
  have r: "run_receipts st' = run_receipts st" "events_of st' = events_of st"
    by (simp_all add: 2(1) run_receipts_def events_of_def load_def fun_eq_iff)
  have head: "run_receipts st (ii_run_id i) = []
      \<or> ii_expected_verified_oid i = ir_verified_commit_oid (last (run_receipts st (ii_run_id i)))"
    using 2(5) latest_is_last [OF ok, of "ii_run_id i"] by (auto simp: head_differs_def split: if_splits)
  have "length (list_pending_integration_intents st' run_id) \<le> 1
      \<and> (\<forall>p \<in> set (list_pending_integration_intents st' run_id). run_receipts st run_id = []
           \<or> ii_expected_verified_oid p = ir_verified_commit_oid (last (run_receipts st run_id)))" for run_id
  proof (cases "run_id = ii_run_id i")
    case True
    then have "set (list_pending_integration_intents st' run_id) \<subseteq> {i}" "length (list_pending_integration_intents st' run_id) \<le> 1"
      using 2(3) by (auto simp: 2(1) up list_pending_integration_intents_def filter_empty_conv)
    with head True show ?thesis by blast
  next
    case False
    then have "list_pending_integration_intents st' run_id = list_pending_integration_intents st run_id"
      by (auto simp: 2(1) up list_pending_integration_intents_def)
    then show ?thesis using ok by (simp add: receipts_ok_def)
  qed
  moreover have "distinct (map fst (st_integration_intents st'))"
    using ok fresh by (simp add: 2(1) up receipts_ok_def)
  ultimately show ?thesis
    using ok unfolding receipts_ok_def r by blast
qed

lemma short_list_unique: "length xs \<le> 1 \<Longrightarrow> x \<in> set xs \<Longrightarrow> y \<in> set xs \<Longrightarrow> x = y"
  by (cases xs) auto

text \<open>The receipt of an intent leaves no other intent of its run pending.\<close>

lemma receipt_clears_pending:
  assumes "receipts_ok st" "map_of (st_integration_intents st) (run, key) = Some i" "map_of (st_integration_receipts st) (run, key) = None"
    "st_integration_intents st' = st_integration_intents st" "st_integration_receipts st' = AList.update (run, key) rc (st_integration_receipts st)"
  shows "list_pending_integration_intents st' run = []"
proof -
  let ?P = "\<lambda>((intent_run, k), _). intent_run = run \<and> map_of (st_integration_receipts st) (intent_run, k) = None"
  have "length (filter ?P (st_integration_intents st)) \<le> 1"
    using assms(1) by (simp add: receipts_ok_def list_pending_integration_intents_def)
  from short_list_unique [OF this, of "((run, key), i)"] map_of_SomeD [OF assms(2)] assms(3)
  have "k = key" if "((run, k), j) \<in> set (st_integration_intents st)" "map_of (st_integration_receipts st) (run, k) = None" for k j
    using that by auto
  then show ?thesis
    by (auto simp: list_pending_integration_intents_def filter_empty_conv assms(4,5) update_conv' split: if_splits)
qed

lemma receipts_ok_receipt:
  assumes ok: "receipts_ok st" and c: "commit_integration_receipt D st s i oid events = (Inr rc, st')"
  shows "receipts_ok st'"
proof (cases "map_of (st_integration_receipts st) (ii_run_id i, ii_idempotency_key i)")
  case (Some x)
  with commit_integration_replay [OF c] ok show ?thesis by simp
next
  case None
  let ?k = "(ii_run_id i, ii_idempotency_key i)"
  from commit_integration_fresh [OF c None] obtain ms where
      v: "validate_integration_intent i = Inr ()" and head: "\<not> head_differs st (ii_run_id i) i"
    and rc: "ir_intent rc = i" "ir_verified_commit_oid rc = ii_prospective_commit_oid i"
      "ir_event_sequence rc = length (events_of st (ii_run_id i)) + 1"
    and ev: "materialize D (st_registry st) (length (events_of st (ii_run_id i)) + 1) events = Inr ms"
    and val: "validate_integration_events i oid events = Inr ()"
    and sn: "st_snapshots st' = AList.update (ii_run_id i)
       \<lparr>sn_state = s, sn_events = events_of st (ii_run_id i) @ ms\<rparr> (st_snapshots st)"
    and re: "st_integration_receipts st' = AList.update ?k rc (st_integration_receipts st)"
    and it: "st_integration_intents st' = st_integration_intents st"
    and intent: "map_of (st_integration_intents st) ?k = Some i"
    by metis
  have none: "list_pending_integration_intents st' (ii_run_id i) = []"
    by (rule receipt_clears_pending [OF ok intent None it re])
  have fresh: "?k \<notin> fst ` set (st_integration_receipts st)" using None by (simp add: map_of_eq_None_iff)
  have rr: "run_receipts st' r = (if r = ii_run_id i then run_receipts st r @ [rc] else run_receipts st r)" for r
    by (simp add: run_receipts_def re update_fresh [OF fresh])
  have "length ms = length events" using materialize_ok(2) [OF ev] by (metis length_map)
  then have len: "length (events_of st' (ii_run_id i)) = length (events_of st (ii_run_id i)) + 2"
    using val by (auto simp: events_of_def load_update [OF sn] validate_integration_events_def split: list.splits)
  have other: "r \<noteq> ii_run_id i \<Longrightarrow> events_of st' r = events_of st r" for r
    by (simp add: events_of_def load_update [OF sn])
  have adv: "ii_expected_verified_oid i \<noteq> ii_prospective_commit_oid i"
    using v by (auto simp: validate_integration_intent_def split: if_splits)
  have link: "run_receipts st (ii_run_id i) = [] \<or> next_link (last (run_receipts st (ii_run_id i))) rc"
    using head latest_is_last [OF ok] by (auto simp: head_differs_def next_link_def rc split: if_splits)
  have "map_of (st_integration_receipts st') q = None \<Longrightarrow> map_of (st_integration_receipts st) q = None" for q
    by (auto simp: re update_conv' split: if_splits)
  then have pend: "length (list_pending_integration_intents st' r) \<le> length (list_pending_integration_intents st r)" for r
    unfolding list_pending_integration_intents_def it length_map by (intro length_filter_mono) auto
  have seq: "\<forall>x \<in> set (run_receipts st (ii_run_id i)). ir_event_sequence x < ir_event_sequence rc"
    using ok rc(3) by (fastforce simp: receipts_ok_def)
  show ?thesis
    unfolding receipts_ok_def
  proof (intro conjI allI)
    fix r
    show "sorted_wrt (<) (map ir_event_sequence (run_receipts st' r))"
      using ok seq by (auto simp: rr receipts_ok_def sorted_wrt_append)
    show "successively next_link (run_receipts st' r)"
      using ok link by (auto simp: rr receipts_ok_def successively_snoc)
    show "length (list_pending_integration_intents st' r) \<le> 1"
      using ok pend [of r] by (auto simp: receipts_ok_def intro: order_trans)
    have "set (list_pending_integration_intents st' r) \<subseteq> set (list_pending_integration_intents st r)"
      by (auto simp: list_pending_integration_intents_def it re update_conv' split: if_splits)
    then show "\<forall>p \<in> set (list_pending_integration_intents st' r). run_receipts st' r = []
        \<or> ii_expected_verified_oid p = ir_verified_commit_oid (last (run_receipts st' r))"
      using ok none by (cases "r = ii_run_id i") (auto simp: rr receipts_ok_def)
    show "\<forall>x \<in> set (run_receipts st' r). ir_event_sequence x \<le> length (events_of st' r)
        \<and> ir_verified_commit_oid x = ii_prospective_commit_oid (ir_intent x)
        \<and> ii_expected_verified_oid (ir_intent x) \<noteq> ir_verified_commit_oid x"
      using ok rc adv len other [of r] by (cases "r = ii_run_id i") (fastforce simp: rr receipts_ok_def)+
    show "distinct (map fst (st_integration_intents st'))"
      using ok by (simp add: it receipts_ok_def)
  qed
qed

lemma store_write_ledgers:
  "st_integration_intents (snd (store_write D st s es ev)) = st_integration_intents st"
  "st_integration_receipts (snd (store_write D st s es ev)) = st_integration_receipts st"
  "st_agent_runs (snd (store_write D st s es ev)) = st_agent_runs st"
  "st_agent_receipts (snd (store_write D st s es ev)) = st_agent_receipts st"
  "st_agent_run_keys (snd (store_write D st s es ev)) = st_agent_run_keys st"
  by (simp_all add: store_write_def injected_failure_def Let_def split: sum.split)

lemma write_op_ledgers:
  "st_integration_intents (snd (store_create D st s es ev tr)) = st_integration_intents st"
  "st_integration_receipts (snd (store_create D st s es ev tr)) = st_integration_receipts st"
  "st_agent_runs (snd (store_create D st s es ev tr)) = st_agent_runs st"
  "st_agent_receipts (snd (store_create D st s es ev tr)) = st_agent_receipts st"
  "st_integration_intents (snd (store_commit D st s es ev)) = st_integration_intents st"
  "st_integration_receipts (snd (store_commit D st s es ev)) = st_integration_receipts st"
  "st_agent_runs (snd (store_commit D st s es ev)) = st_agent_runs st"
  "st_agent_receipts (snd (store_commit D st s es ev)) = st_agent_receipts st"
  by (simp_all add: store_create_def store_commit_def store_write_ledgers split: option.split)

lemma receipt_op_integration:
  "st_integration_intents (snd (commit_agent_run_receipt D st r rc state es refs)) = st_integration_intents st"
  "st_integration_receipts (snd (commit_agent_run_receipt D st r rc state es refs)) = st_integration_receipts st"
  by (simp_all add: commit_agent_run_receipt_def injected_failure_def split: sum.split option.split)

lemma integration_op_agents:
  "st_agent_runs (snd (commit_integration_receipt D st s i oid es)) = st_agent_runs st"
  "st_agent_receipts (snd (commit_integration_receipt D st s i oid es)) = st_agent_receipts st"
  by (simp_all add: commit_integration_receipt_def injected_failure_def Let_def split: sum.split option.split)

lemma create_or_get_integration:
  "st_integration_intents (snd (create_or_get_agent_run st r)) = st_integration_intents st
   \<and> st_integration_receipts (snd (create_or_get_agent_run st r)) = st_integration_receipts st"
  by (cases "create_or_get_agent_run st r") (auto elim!: create_or_get_cases)

lemma persist_intent_agents:
  "st_agent_runs (snd (persist_integration_intent st i)) = st_agent_runs st
   \<and> st_agent_receipts (snd (persist_integration_intent st i)) = st_agent_receipts st"
  by (cases "persist_integration_intent st i") (auto elim!: persist_intent_cases)

lemmas op_frames = reference_ops_same [unfolded same_ledgers_def] write_op_ledgers receipt_op_integration
  integration_op_agents create_or_get_integration persist_intent_agents

lemma integration_unchanged:
  assumes "\<And>i. op \<noteq> OpIntent i" "\<And>s i oid es. op \<noteq> OpReceipt s i oid es"
  shows "st_integration_intents (apply_op D op st) = st_integration_intents st"
    "st_integration_receipts (apply_op D op st) = st_integration_receipts st"
  using assms by (cases op; simp add: op_frames)+

lemma agents_unchanged:
  assumes "\<And>r. op \<noteq> OpAgentRun r" "\<And>r rc s es refs. op \<noteq> OpAgentReceipt r rc s es refs"
  shows "st_agent_runs (apply_op D op st) = st_agent_runs st"
    "st_agent_receipts (apply_op D op st) = st_agent_receipts st"
  using assms by (cases op; simp add: op_frames)+

lemma receipts_ok_step:
  assumes "receipts_ok st"
  shows "receipts_ok (apply_op D op st)"
proof -
  note keep = receipts_ok_cong [OF assms appends_extends [OF apply_op_appends [of st D op]]]
  consider (intent) i where "op = OpIntent i" | (receipt) s i oid es where "op = OpReceipt s i oid es"
    | (other) "\<And>i. op \<noteq> OpIntent i" "\<And>s i oid es. op \<noteq> OpReceipt s i oid es"
    by blast
  then show ?thesis
  proof cases
    case (intent i)
    then show ?thesis
      using receipts_ok_intent [OF assms] by (cases "persist_integration_intent st i") simp
  next
    case (receipt s i oid es)
    obtain x st' where c: "commit_integration_receipt D st s i oid es = (x, st')" by (rule prod.exhaust)
    show ?thesis
    proof (cases x)
      case (Inr rc)
      then show ?thesis using receipts_ok_receipt [OF assms] c receipt by simp
    next
      case (Inl e)
      with c integrated.atomic [of D "(s, i, oid, es)" st e st'] have "st' = st \<or> st' = st\<lparr>st_fail_next := False\<rparr>" by simp
      with c receipt show ?thesis by (intro keep) auto
    qed
  next
    case other
    show ?thesis by (intro keep integration_unchanged other)
  qed
qed

lemma receipts_ok_init: "receipts_ok (store_init registry)"
  by (simp add: receipts_ok_def store_init_def run_receipts_def list_pending_integration_intents_def)

lemma run_ops_receipts_ok: "receipts_ok (run_ops D ops (store_init registry))"
  by (rule run_ops_induct) (auto intro: receipts_ok_init receipts_ok_step)

text \<open>C8: The verified head of a run moves along one line. After any sequence of store operations
  the integration receipts of a run, in the order of their events, form a chain: each receipt's
  intent expected exactly the head the previous receipt verified, every receipt verified the commit
  its intent proposed and moved the head, the latest receipt is the last of the chain, and at most one
  intent is waiting for its receipt; it expects exactly the head that the latest receipt verified.\<close>

theorem integration_receipts_linear:
  "let st = run_ops D ops (store_init registry); rs = list_integration_receipts st run_id
   in successively (\<lambda>a b. ii_expected_verified_oid (ir_intent b) = ir_verified_commit_oid a) rs
      \<and> list_all (\<lambda>r. ir_verified_commit_oid r = ii_prospective_commit_oid (ir_intent r)
           \<and> ii_expected_verified_oid (ir_intent r) \<noteq> ir_verified_commit_oid r) rs
      \<and> load_latest_integration_receipt st run_id = (if rs = [] then None else Some (last rs))
      \<and> length (list_pending_integration_intents st run_id) \<le> 1
      \<and> list_all (\<lambda>i. rs = [] \<or> ii_expected_verified_oid i = ir_verified_commit_oid (last rs)) (list_pending_integration_intents st run_id)"
proof -
  define st where "st = run_ops D ops (store_init registry)"
  have ok: "receipts_ok st" unfolding st_def by (rule run_ops_receipts_ok)
  have "sorted (map ir_event_sequence (run_receipts st run_id))"
    using ok by (auto simp: receipts_ok_def intro: strict_sorted_imp_sorted)
  then have rs: "list_integration_receipts st run_id = run_receipts st run_id"
    by (simp add: list_integration_receipts_def sort_key_id_if_sorted)
  have link: "next_link = (\<lambda>a b. ii_expected_verified_oid (ir_intent b) = ir_verified_commit_oid a)"
    by (simp add: next_link_def fun_eq_iff)
  have "successively next_link (run_receipts st run_id)"
    "length (list_pending_integration_intents st run_id) \<le> 1"
    "list_all (\<lambda>i. run_receipts st run_id = [] \<or> ii_expected_verified_oid i = ir_verified_commit_oid (last (run_receipts st run_id)))
       (list_pending_integration_intents st run_id)"
    "list_all (\<lambda>r. ir_verified_commit_oid r = ii_prospective_commit_oid (ir_intent r)
       \<and> ii_expected_verified_oid (ir_intent r) \<noteq> ir_verified_commit_oid r) (run_receipts st run_id)"
    using ok unfolding receipts_ok_def list_all_iff by blast+
  with latest_is_last [OF ok, of run_id] show ?thesis
    unfolding Let_def st_def [symmetric] rs link by blast
qed

section \<open>The agent run ledger\<close>

definition op_typed :: "store_op \<Rightarrow> bool" where
  "op_typed op = (case op of
       OpAgentRun r \<Rightarrow> agent_run_init r = Inr r
     | OpAgentReceipt r _ _ _ _ \<Rightarrow> agent_run_init r = Inr r
     | _ \<Rightarrow> True)"

definition agent_ledger_ok :: "runtime_store \<Rightarrow> bool" where
  "agent_ledger_ok st \<longleftrightarrow> (\<forall>a r. load_agent_run st a = Some r \<longrightarrow>
     ag_agent_run_id r = a \<and> agent_run_init r = Inr r
     \<and> (is_terminal r \<longleftrightarrow> load_agent_run_receipt st a \<noteq> None))
   \<and> (\<forall>a rc. load_agent_run_receipt st a = Some rc \<longrightarrow> rc_agent_run_id rc = a \<and> load_agent_run st a \<noteq> None)"

definition run_evolves :: "agent_run \<Rightarrow> agent_run \<Rightarrow> bool" where
  "run_evolves r r' \<longleftrightarrow> r' = r \<or> \<not> is_terminal r \<and> is_terminal r' \<and> same_frozen_identity r r'"

lemma frozen_trans: "same_frozen_identity a b \<Longrightarrow> same_frozen_identity b c \<Longrightarrow> same_frozen_identity a c"
  by (simp add: same_frozen_identity_def same_creation_identity_def)

lemma run_evolves_trans: "run_evolves a b \<Longrightarrow> run_evolves b c \<Longrightarrow> run_evolves a c"
  by (auto simp: run_evolves_def)

lemma agent_step:
  assumes ok: "agent_ledger_ok st" and typed: "op_typed op"
  shows "agent_ledger_ok (apply_op D op st)
    \<and> (\<forall>a r. load_agent_run st a = Some r \<longrightarrow> (\<exists>r'. load_agent_run (apply_op D op st) a = Some r' \<and> run_evolves r r'))"
proof -
  let ?st' = "apply_op D op st"
  have same: ?thesis if "st_agent_runs ?st' = st_agent_runs st" "st_agent_receipts ?st' = st_agent_receipts st"
    using ok that by (simp add: agent_ledger_ok_def load_agent_run_def load_agent_run_receipt_def run_evolves_def)
  consider (OpAgentRun) r where "op = OpAgentRun r"
    | (OpAgentReceipt) r rc state es refs where "op = OpAgentReceipt r rc state es refs"
    | (other) "\<And>r. op \<noteq> OpAgentRun r" "\<And>r rc s es refs. op \<noteq> OpAgentReceipt r rc s es refs"
    by blast
  then show ?thesis
  proof cases
    case (OpAgentRun r)
    obtain x st' where c: "create_or_get_agent_run st r = (x, st')" by (rule prod.exhaust)
    with OpAgentRun have st': "?st' = st'" by simp
    show ?thesis
      using c
    proof (cases rule: create_or_get_cases)
      case 1
      then show ?thesis by (intro same) (simp_all add: st')
    next
      case 2
      have nt: "\<not> is_terminal r" "agent_run_init r = Inr r"
        using 2(2) typed OpAgentRun
        by (auto simp: is_terminal_def validate_new_agent_run_def op_typed_def split: if_splits)
      have l: "load_agent_run st' a = (if a = ag_agent_run_id r then Some r else load_agent_run st a)"
        "load_agent_run_receipt st' a = load_agent_run_receipt st a" for a
        by (simp_all add: load_agent_run_def load_agent_run_receipt_def 2 update_conv')
      have "load_agent_run_receipt st (ag_agent_run_id r) = None"
        using ok 2(3) unfolding agent_ledger_ok_def by (metis option.exhaust)
      then show ?thesis
        using ok nt 2(3) by (auto simp: st' agent_ledger_ok_def l run_evolves_def)
    qed
  next
    case (OpAgentReceipt r rc state es refs)
    obtain x st' where c: "commit_agent_run_receipt D st r rc state es refs = (x, st')" by (rule prod.exhaust)
    with OpAgentReceipt have st': "?st' = st'" by simp
    show ?thesis
    proof (cases "\<exists>y. x = Inr y \<and> map_of (st_agent_receipts st) (ag_agent_run_id r) = None")
      case False
      then have "st' = st \<or> st' = st\<lparr>st_fail_next := False\<rparr>"
        using commit_receipt_replay [OF c] receipt.atomic [of D "(r, rc, state, es, refs)" st _ st'] c
        by (cases x) auto
      then show ?thesis by (intro same) (auto simp: st')
    next
      case True
      then obtain y where y: "x = Inr y" and none: "map_of (st_agent_receipts st) (ag_agent_run_id r) = None" by blast
      obtain snap where
          v: "validate_agent_receipt (map_of (st_agent_runs st) (ag_agent_run_id r)) r rc state es refs = Inr ()"
        and u: "st_agent_runs st' = AList.update (ag_agent_run_id r) r (st_agent_runs st)"
          "st_agent_receipts st' = AList.update (ag_agent_run_id r) rc (st_agent_receipts st)"
        by (metis commit_receipt_fresh [OF c [unfolded y] none])
      obtain cur where cur: "load_agent_run st (ag_agent_run_id r) = Some cur" "same_frozen_identity cur r"
          "\<not> is_terminal cur" "is_terminal r" "rc_agent_run_id rc = ag_agent_run_id r"
        using validate_agent_receipt_ok [OF v] unfolding load_agent_run_def by metis
      have l: "load_agent_run st' a = (if a = ag_agent_run_id r then Some r else load_agent_run st a)"
        "load_agent_run_receipt st' a = (if a = ag_agent_run_id r then Some rc else load_agent_run_receipt st a)" for a
        by (simp_all add: load_agent_run_def load_agent_run_receipt_def u update_conv')
      have "agent_run_init r = Inr r" using typed OpAgentReceipt by (simp add: op_typed_def)
      then show ?thesis
        using ok cur by (auto simp: st' agent_ledger_ok_def l run_evolves_def)
    qed
  next
    case other
    show ?thesis by (intro same agents_unchanged other)
  qed
qed

lemma agent_ledger_run:
  assumes "agent_ledger_ok st" "list_all op_typed ops"
  shows "agent_ledger_ok (run_ops D ops st)
    \<and> (\<forall>a r. load_agent_run st a = Some r \<longrightarrow> (\<exists>r'. load_agent_run (run_ops D ops st) a = Some r' \<and> run_evolves r r'))"
  using assms
proof (induction ops arbitrary: st)
  case Nil
  then show ?case by (simp add: run_evolves_def)
next
  case (Cons op ops)
  from Cons.prems have t: "op_typed op" "list_all op_typed ops" by simp_all
  note s = agent_step [OF Cons.prems(1) t(1), of D]
  from Cons.IH [OF conjunct1 [OF s] t(2)] s show ?case
    by simp (meson run_evolves_trans)
qed

lemma agent_ledger_init: "agent_ledger_ok (store_init registry)"
  by (simp add: agent_ledger_ok_def store_init_def load_agent_run_def load_agent_run_receipt_def)

text \<open>C11: The agent run ledger is typed and write-once. Start from an empty store and apply any
  sequence of operations whose agent runs satisfy the constructor's checks. Every stored run then still
  satisfies those checks and is filed under its own identifier, a run has an owner receipt exactly when
  it is terminal, and the receipt names that run. From then on a stored run never disappears, a terminal
  run never changes again, and a run that is still active can only be replaced by a terminal one with
  the same frozen identity.\<close>

theorem agent_ledger_write_once:
  assumes "list_all op_typed ops" "list_all op_typed later"
    and "st = run_ops D ops (store_init registry)"
    and "load_agent_run st a = Some r"
  shows "ag_agent_run_id r = a \<and> agent_run_init r = Inr r
    \<and> (is_terminal r \<longleftrightarrow> load_agent_run_receipt st a \<noteq> None)
    \<and> (\<exists>r'. load_agent_run (run_ops D later st) a = Some r'
         \<and> (r' = r \<or> \<not> is_terminal r \<and> is_terminal r' \<and> same_frozen_identity r r'))"
proof -
  have ok: "agent_ledger_ok st"
    unfolding assms(3) using agent_ledger_run [OF agent_ledger_init assms(1)] by blast
  have "\<exists>r'. load_agent_run (run_ops D later st) a = Some r' \<and> run_evolves r r'"
    using agent_ledger_run [OF ok assms(2)] assms(4) by blast
  then show ?thesis
    using ok assms(4) by (simp add: agent_ledger_ok_def run_evolves_def)
qed

text \<open>A concrete history: an agent run of a draft is created and closed with its receipt.\<close>

definition ex_digest64 :: string where
  "ex_digest64 = replicate 64 (CHR ''a'')"

definition ex_agent :: agent_run where
  "ex_agent =
     \<lparr>ag_agent_run_id = 1, ag_owner_kind = ''draft'', ag_owner_id = 7, ag_logical_task_key = ''explore:1'',
      ag_phase = PhPlan, ag_session_kind = ExploreCoordinator,
      ag_thread_id = ''00000000000000000000000000000002'', ag_model_binding_sha256 = ex_digest64,
      ag_context_sha256 = ex_digest64, ag_toolset_sha256 = ex_digest64, ag_template_sha256 = ex_digest64,
      ag_slice_ref = None, ag_write_scope_sha256 = None, ag_checkpoint_sha256 = None,
      ag_candidate_checkpoint_sha256 = None, ag_result_sha256 = None, ag_usage_sha256 = None,
      ag_retry_of = None, ag_continuation_of = None, ag_restarted_from = None,
      ag_state = SsCreated, ag_exit = None\<rparr>"

definition ex_closed :: agent_run where
  "ex_closed = ex_agent\<lparr>ag_state := SsClosed, ag_exit := Some SxCompleted\<rparr>"

definition ex_receipt :: agent_run_receipt where
  "ex_receipt = \<lparr>rc_receipt_id = 9, rc_agent_run_id = 1, rc_category = ''session.terminal''\<rparr>"

definition ex_digests :: digests where
  "ex_digests = \<lparr>dg_bytes = id, dg_json = (\<lambda>_. ex_digest64)\<rparr>"

lemma ex_thread: "parse_uuid ''00000000000000000000000000000002'' = Some 2"
  by code_simp

lemma ex_digest_ok: "is_sha256 ex_digest64"
  by (simp add: is_sha256_def ex_digest64_def list_all_iff)

lemma ex_agent_typed: "agent_run_init ex_agent = Inr ex_agent" "agent_run_init ex_closed = Inr ex_closed"
  by (simp_all add: agent_run_init_def ex_agent_def ex_closed_def ex_thread valid_task_key_def task_key_first_def
      task_key_char_def agent_run_digests_def ex_digest_ok agent_run_lineage_def)

definition ex_agent_store :: runtime_store where
  "ex_agent_store = (store_init [])\<lparr>st_agent_runs := [(1, ex_agent)],
     st_agent_run_keys := [((''draft'', 7, ''explore:1''), 1)], st_agent_threads := [(2, 1)]\<rparr>"

lemma ex_agent_created: "run_ops ex_digests [OpAgentRun ex_agent] (store_init []) = ex_agent_store"
  by (simp add: create_or_get_agent_run_def validate_new_agent_run_def ex_agent_def store_init_def owner_key_def
      ex_thread ex_agent_store_def)

lemma ex_agent_facts:
  "load_agent_run ex_agent_store 1 = Some ex_agent" "load_agent_run_receipt ex_agent_store 1 = None"
  "\<not> is_terminal ex_agent"
  by (simp_all add: load_agent_run_def load_agent_run_receipt_def ex_agent_store_def store_init_def is_terminal_def ex_agent_def)

lemma ex_ops_typed:
  "list_all op_typed [OpAgentRun ex_agent]" "list_all op_typed [OpAgentReceipt ex_closed ex_receipt None [] []]"
  by (simp_all add: op_typed_def ex_agent_typed)

theorem agent_ledger_write_once_witness:
  "agent_run_init ex_agent = Inr ex_agent \<and> load_agent_run_receipt ex_agent_store 1 = None
   \<and> (\<exists>r'. load_agent_run (run_ops ex_digests [OpAgentReceipt ex_closed ex_receipt None [] []] ex_agent_store) 1 = Some r'
        \<and> (r' = ex_agent \<or> is_terminal r' \<and> same_frozen_identity ex_agent r'))"
  using agent_ledger_write_once [OF ex_ops_typed ex_agent_created [symmetric] ex_agent_facts(1)]
  by (simp add: ex_agent_typed ex_agent_facts)

end
