(* ===== verification/Runtime_Advice.thy ===== *)
theory Runtime_Advice
  imports Runtime_Store
begin

text \<open>
  \<open>runtime/advice.py\<close>: the mechanical validation of advice from the judgement layer. The parameter
  \<open>advice_hash\<close> is \<open>advice_proposal_hash\<close>, the SHA-256 of the canonical JSON (RFC 8785, an external
  package) of the advice.
\<close>

datatype resident_role = RrExploreCoordinator | RrExecuteSupervisor

record advice =
  av_advice_id :: uuid
  av_kind :: advice_kind
  av_run_id :: uuid
  av_role :: resident_role
  av_payload :: event_data
  av_proposal_hash :: string

datatype advice_disposition = AutoAdopted | ConfirmationRequired | Discarded

record advice_context =
  ax_expected_subjects :: "string set"
  ax_attribution_candidates :: "uuid set"
  ax_joint_domain_members :: "uuid set"
  ax_max_fanout :: int

definition advice_context_init :: "advice_context \<Rightarrow> advice_context res" where
  "advice_context_init c =
     (if ax_max_fanout c < 1 then Inl (ValueError ''max_fanout must be a positive integer'') else Inr c)"

record advice_result =
  ae_disposition :: advice_disposition
  ae_reason :: string
  ae_proposal_hash :: string

text \<open>
  One item of a repair set: a \<open>UUID\<close>, or \<open>UUID(str(item))\<close>. Only strings and integers print as
  something \<open>UUID\<close> accepts.
\<close>

definition item_uuid :: "pyval \<Rightarrow> uuid option" where
  "item_uuid v = (case v of
       PUuid u \<Rightarrow> Some u
     | PStr s \<Rightarrow> parse_uuid s
     | PInt i \<Rightarrow> parse_uuid (str_int i)
     | _ \<Rightarrow> None)"

fun uuid_items :: "pyval list \<Rightarrow> uuid list option" where
  "uuid_items [] = Some []"
| "uuid_items (v # vs) = (case item_uuid v of
       None \<Rightarrow> None
     | Some u \<Rightarrow> map_option ((#) u) (uuid_items vs))"

text \<open>\<open>_uuid_set\<close> of a payload value. A \<open>set\<close> or \<open>frozenset\<close>, which JSON cannot carry, is no payload value here.\<close>

definition uuid_set :: "pyval option \<Rightarrow> uuid set option" where
  "uuid_set value = (case value of
       Some (PList items) \<Rightarrow> map_option set (uuid_items items)
     | Some (PTuple items) \<Rightarrow> map_option set (uuid_items items)
     | _ \<Rightarrow> None)"

fun assignment_target :: "pyval \<Rightarrow> string option" where
  "assignment_target (PStr s) = (if s = [] then None else Some s)"
| "assignment_target (PUuid u) = Some (str_uuid u)"
| "assignment_target _ = None"

definition count_fanout :: "string list \<Rightarrow> (string \<times> int) list" where
  "count_fanout targets =
     fold (\<lambda>t f. AList.update t ((case map_of f t of None \<Rightarrow> 0 | Some n \<Rightarrow> n) + 1) f) targets []"

definition validate_explore :: "advice \<Rightarrow> advice_context \<Rightarrow> string option" where
  "validate_explore advice context = (case data_get (av_payload advice) ''assignments'' of
       Some (PDict assignments) \<Rightarrow>
         if ax_expected_subjects context = {} then Some ''EXPECTED_SUBJECTS_REQUIRED''
         else if fst ` set assignments \<noteq> StrKey ` ax_expected_subjects context
         then Some ''ASSIGNMENT_COVERAGE_MISMATCH''
         else if list_ex (\<lambda>(_, v). assignment_target v = None) assignments
         then Some ''ASSIGNMENT_TARGET_REQUIRED''
         else if list_ex (\<lambda>(_, n). ax_max_fanout context < n)
                   (count_fanout (map (the \<circ> assignment_target \<circ> snd) assignments))
         then Some ''ASSIGNMENT_FANOUT_EXCEEDED''
         else None
     | _ \<Rightarrow> Some ''ASSIGNMENTS_REQUIRED'')"

definition validate_repair :: "advice \<Rightarrow> advice_context \<Rightarrow> string option" where
  "validate_repair advice context = (case uuid_set (data_get (av_payload advice) ''repair_set'') of
       None \<Rightarrow> Some ''REPAIR_SET_REQUIRED''
     | Some repair_set \<Rightarrow>
         if repair_set = {} then Some ''REPAIR_SET_REQUIRED''
         else if ax_attribution_candidates context = {} then Some ''ATTRIBUTION_CANDIDATES_REQUIRED''
         else if \<not> repair_set \<subseteq> ax_attribution_candidates context then Some ''REPAIR_SET_NOT_IN_CANDIDATES''
         else if ax_joint_domain_members context \<noteq> {} \<and> repair_set \<noteq> ax_joint_domain_members context
         then Some ''JOINT_DOMAIN_MISMATCH''
         else None)"

definition evaluate_advice :: "(advice \<Rightarrow> string) \<Rightarrow> advice \<Rightarrow> advice_context \<Rightarrow> advice_result" where
  "evaluate_advice advice_hash advice context =
     (let expected = advice_hash advice;
          result = (\<lambda>d reason. \<lparr>ae_disposition = d, ae_reason = reason, ae_proposal_hash = expected\<rparr>)
      in if av_proposal_hash advice \<noteq> expected then result Discarded ''PROPOSAL_HASH_MISMATCH''
         else if av_kind advice \<in> {RouteSuggestion, PlanRevision, AskUser}
         then result ConfirmationRequired ''BOUNDARY_ADVICE''
         else case (if av_kind advice = ExploreReassignment then validate_explore advice context
                    else validate_repair advice context) of
                Some reason \<Rightarrow> result Discarded reason
              | None \<Rightarrow> result AutoAdopted ''MECHANICALLY_VALID'')"

section \<open>What automatic adoption means\<close>

lemma evaluate_adopted_repair:
  assumes "ae_disposition (evaluate_advice h a c) = AutoAdopted" "av_kind a = RepairDecisionAdvice"
  obtains rs where "uuid_set (data_get (av_payload a) ''repair_set'') = Some rs" "rs \<noteq> {}"
    "rs \<subseteq> ax_attribution_candidates c" "ax_joint_domain_members c = {} \<or> rs = ax_joint_domain_members c"
    "av_proposal_hash a = h a"
proof -
  have v: "validate_repair a c = None" "av_proposal_hash a = h a"
    using assms by (auto simp: evaluate_advice_def Let_def split: if_splits option.splits)
  then obtain rs where "uuid_set (data_get (av_payload a) ''repair_set'') = Some rs"
    by (auto simp: validate_repair_def split: option.splits)
  with v that show ?thesis
    by (auto simp: validate_repair_def split: if_splits)
qed

end
