(* ===== verification/Run_Actor.thy ===== *)
theory Run_Actor
  imports Runtime_Ledger Runtime_Advice Integration Plan_Ledger
begin

text \<open>
  \<open>runtime/actor.py\<close>: the single-writer actor of one run, and the recovery plan of
  \<open>runtime/recovery.py\<close> it commits. The mailbox serialises the messages, so the actor is a function
  from a message and the world to the world after it. The world holds the actor's own fields, the
  store, the integration coordinator it cancels runs in, the futures answered so far and the calls
  made on its ports. A handler that raises returns the exception together with the world it leaves;
  \<open>run_message\<close> is the body of the mailbox loop, which records it and answers the caller.

  Parameters (\<open>actor_env\<close>) are the digests, the hashes of canonical JSON documents, the text
  \<open>str\<close> gives of a float or a container, and the ports the code calls; a port call yields the exception it raises, if any. A future is a number; it is not
  cancelled by its caller, so it is done exactly when it has been answered.
\<close>

section \<open>Recovery plans\<close>

datatype recovery_trigger = Startup | Interruption | IntentGap

definition recovery_trigger_of :: "string \<Rightarrow> recovery_trigger res" where
  "recovery_trigger_of s =
     (if s = ''startup'' then Inr Startup else if s = ''interruption'' then Inr Interruption
      else if s = ''intent_gap'' then Inr IntentGap
      else Inl (ValueError (s @ '' is not a valid RecoveryTrigger'')))"

record recovery_plan =
  rp_trigger :: recovery_trigger
  rp_events :: "string list"
  rp_report_halted :: bool

definition recovery_plan_for ::
  "recovery_trigger \<Rightarrow> string list \<Rightarrow> string list \<Rightarrow> bool \<Rightarrow> bool \<Rightarrow> recovery_plan" where
  "recovery_plan_for trigger active_dispatch_ids missing_intent_ids checkpoint_corrupt ref_drift =
     \<lparr>rp_trigger = trigger,
      rp_events = [''recovery.actor_rebuilt''] @ map (\<lambda>i. ''dispatch.interrupted:'' @ i) active_dispatch_ids
        @ [''git.refs.reconciled'', ''receipts.repaired'']
        @ map (\<lambda>i. ''integration.intent.retry:'' @ i) missing_intent_ids
        @ (if checkpoint_corrupt then [''checkpoint.discarded''] else [])
        @ (if ref_drift then [''recovery.ref_drift''] else [])
        @ [''recovery.completed''],
      rp_report_halted = ref_drift\<rparr>"

definition has_committed_owner_receipt :: "runtime_event list \<Rightarrow> string \<Rightarrow> bool" where
  "has_committed_owner_receipt events receipt_key \<longleftrightarrow>
     receipt_key \<noteq> [] \<and> list_ex (\<lambda>e. data_get (re_data e) ''receipt_key'' = Some (PStr receipt_key)) events"

section \<open>Messages\<close>

record run_created_receipt =
  cc_run_id :: uuid
  cc_receipt_key :: string
  cc_event_sequence :: nat
  cc_state_version :: int

record candidate_checkpoint_claim =
  cl_agent_run_id :: uuid
  cl_receipt :: "checkpoint_receipt option"

record execution_round_decision =
  xd_complete :: bool
  xd_dispatch_count :: int
  xd_completed_write_ids :: "uuid list"
  xd_candidate_claims :: "candidate_checkpoint_claim list"
  xd_terminal_ids :: "uuid list"

record plan_agent_completion =
  pc_record :: agent_run
  pc_receipt :: agent_run_receipt
  pc_result_object :: cas_object
  pc_plan_object :: cas_object

record verification_summary =
  vs_passed :: bool
  vs_result_sha256 :: string

record report_summary =
  rp_result_sha256 :: string
  rp_status :: run_status

text \<open>The kinds of a command with their payloads. A payload of another type than its kind asks for, which the handlers
  refuse like any other failed check, and an unsupported kind, which raises \<open>ValueError\<close>, cannot be written down.\<close>

datatype workflow_payload =
    WfAcceptPlan plan_agent_completion frozen_plan
  | WfExecuteRound
  | WfAgentStarted uuid
  | WfAgentTerminal agent_run agent_run_receipt cas_object
  | WfIntegrationIntent integration_intent
  | WfIntegrationCompleted integration_intent string
  | WfVerification verification_summary
  | WfReport report_summary

record workflow_command =
  wc_run_id :: uuid
  wc_logical_key :: string
  wc_payload :: workflow_payload
  wc_response :: nat

datatype runtime_message =
    MCreate uuid create_run "bool option"
  | MCancel int "nat option"
  | MSessionInput string event_data
  | MExecution uuid active_dispatch "string option" bool
  | MBudget int int int
  | MRecovery string "string list" "string list" bool bool
  | MAdvice advice
  | MWorkflow workflow_command
  | MRoundFinished string "execution_round_decision option" "py_exn option"

datatype reply =
    RState run_state
  | RReceipt actor_phase_receipt
  | RRound actor_phase_receipt bool
  | RIntent integration_intent
  | RRejected string
  | RRaised py_exn

datatype port_call =
    CallCheckpoint run_state
  | CallArchive uuid
  | CallCancel uuid
  | CallContinuation uuid int
  | CallRepair advice
  | CallScheduler string

record run_actor =
  ac_run_id :: uuid
  ac_state :: "run_state option"
  ac_last_error :: "py_exn option"
  ac_last_dispatch_acceptance :: "bool option"
  ac_create_receipt :: "run_created_receipt option"
  ac_round_responses :: "(string \<times> nat list) list"
  ac_round_tasks :: "string list"

record actor_world =
  aw_actor :: run_actor
  aw_store :: runtime_store
  aw_coordinator :: "integration_coordinator option"
  aw_replies :: "(nat \<times> reply) list"
  aw_calls :: "port_call list"

record actor_env =
  en_digests :: digests
  en_checkpoint_digest :: "checkpoint_receipt \<Rightarrow> string"
  en_plan_payload_digest :: "frozen_plan \<Rightarrow> string"
  en_advice_hash :: "advice \<Rightarrow> string"
  en_str :: "pyval \<Rightarrow> string"
  en_budget_limits :: budget_limits
  en_advice_context :: advice_context
  en_checkpoint_writer :: "(run_state \<Rightarrow> py_exn option) option"
  en_cancellation_port :: "(uuid \<Rightarrow> py_exn option) option"
  en_continuation_port :: "(uuid \<Rightarrow> int \<Rightarrow> py_exn option) option"
  en_archive_port :: "(uuid \<Rightarrow> py_exn option) option"
  en_repair_port :: "(advice \<Rightarrow> py_exn option) option"
  en_has_scheduler :: bool
  en_checkpoint_verifier :: "(checkpoint_receipt \<Rightarrow> bool) option"

type_synonym handled = "unit res \<times> actor_world"

section \<open>Helpers\<close>

abbreviation actor_state :: "actor_world \<Rightarrow> run_state option" where
  "actor_state w \<equiv> ac_state (aw_actor w)"

abbreviation actor_id :: "actor_world \<Rightarrow> uuid" where
  "actor_id w \<equiv> ac_run_id (aw_actor w)"

definition upd_actor :: "(run_actor \<Rightarrow> run_actor) \<Rightarrow> actor_world \<Rightarrow> actor_world" where
  "upd_actor f w = w\<lparr>aw_actor := f (aw_actor w)\<rparr>"

definition set_error :: "py_exn option \<Rightarrow> actor_world \<Rightarrow> actor_world" where
  "set_error e w = (case e of None \<Rightarrow> w | Some x \<Rightarrow> upd_actor (\<lambda>a. a\<lparr>ac_last_error := Some x\<rparr>) w)"

definition set_acceptance :: "bool \<Rightarrow> actor_world \<Rightarrow> actor_world" where
  "set_acceptance b w = upd_actor (\<lambda>a. a\<lparr>ac_last_dispatch_acceptance := Some b\<rparr>) w"

definition log_call :: "port_call \<Rightarrow> actor_world \<Rightarrow> actor_world" where
  "log_call c w = w\<lparr>aw_calls := aw_calls w @ [c]\<rparr>"

text \<open>An answered future keeps its answer. Where the code does not ask \<open>done()\<close> first, \<open>set_result\<close> then raises \<open>InvalidStateError\<close>, which the
  mailbox loop records as its last error; the record is left out.\<close>

definition respond :: "nat \<Rightarrow> reply \<Rightarrow> actor_world \<Rightarrow> actor_world" where
  "respond r x w = (if r \<in> fst ` set (aw_replies w) then w else w\<lparr>aw_replies := aw_replies w @ [(r, x)]\<rparr>)"

definition respond_opt :: "nat option \<Rightarrow> reply \<Rightarrow> actor_world \<Rightarrow> actor_world" where
  "respond_opt r x w = (case r of None \<Rightarrow> w | Some n \<Rightarrow> respond n x w)"

definition terminal_statuses :: "run_status set" where
  "terminal_statuses = {Completed, PartiallyCompleted, Failed, Cancelled}"

definition run_status_changed_event :: "run_state \<Rightarrow> event_spec" where
  "run_status_changed_event s =
     spec ''run.status_changed'' ((''run_status'', PStr (run_status_value (rs_status s)))
       # (case rs_failure_reason s of None \<Rightarrow> []
          | Some r \<Rightarrow> [(''failure_reason'', PStr (failure_reason_value r))]))"

text \<open>\<open>_dispatch_key\<close>. The canonical JSON of the subject identifies it, so the subject stands for it.\<close>

definition dispatch_key :: "active_dispatch \<Rightarrow> uuid \<Rightarrow> uuid \<times> execution_subject \<times> uuid" where
  "dispatch_key d run_id = (run_id, ad_subject d, ad_check_id d)"

definition run_created_receipt_of :: "runtime_snapshot option \<Rightarrow> uuid \<Rightarrow> run_created_receipt option res" where
  "run_created_receipt_of snapshot run_id = (case snapshot of
       None \<Rightarrow> Inr None
     | Some s \<Rightarrow>
         let key = ''run.created:'' @ str_uuid run_id in
         (case find (\<lambda>e. re_event_type e = ''run.created'' \<and> data_get (re_data e) ''receipt_key'' = Some (PStr key))
                 (sn_events s) of
            None \<Rightarrow> Inr None
          | Some e \<Rightarrow>
              let version = (case data_get (re_data e) ''state_version'' of Some (PInt v) \<Rightarrow> v | _ \<Rightarrow> 1) in
              if re_sequence e \<noteq> 1 \<or> version \<noteq> 1
              then Inl (ValueError ''RunCreated receipt must identify the initial Run commit'')
              else Inr (Some \<lparr>cc_run_id = run_id, cc_receipt_key = key, cc_event_sequence = re_sequence e,
                     cc_state_version = version\<rparr>)))"

definition event_for_receipt :: "runtime_snapshot option \<Rightarrow> string \<Rightarrow> runtime_event option" where
  "event_for_receipt snapshot receipt_key = (case snapshot of
       None \<Rightarrow> None
     | Some s \<Rightarrow> find (\<lambda>e. data_get (re_data e) ''receipt_key'' = Some (PStr receipt_key)) (rev (sn_events s)))"

definition has_agent_run_event :: "runtime_snapshot option \<Rightarrow> string \<Rightarrow> uuid \<Rightarrow> bool" where
  "has_agent_run_event snapshot event_type agent_run_id = (case snapshot of
       None \<Rightarrow> False
     | Some s \<Rightarrow> list_ex (\<lambda>e. re_event_type e = event_type
           \<and> data_get (re_data e) ''agent_run_id'' = Some (PStr (str_uuid agent_run_id))) (sn_events s))"

text \<open>
  \<open>_commit\<close>. The store raises only \<open>StoreCommitError\<close> here (lemma \<open>store_commit_error\<close>), which is
  caught.
\<close>

definition actor_commit :: "actor_env \<Rightarrow> actor_world \<Rightarrow> run_state \<Rightarrow> event_spec list \<Rightarrow> bool \<times> actor_world" where
  "actor_commit E w s events =
     (let committed_events = (case actor_state w of
            None \<Rightarrow> events
          | Some previous \<Rightarrow>
              if rs_status previous \<noteq> rs_status s then events @ [run_status_changed_event s] else events)
      in case store_commit (en_digests E) (aw_store w) s committed_events None of
           (Inl e, st) \<Rightarrow> (False, set_error (Some e) (w\<lparr>aw_store := st\<rparr>))
         | (Inr snapshot, st) \<Rightarrow>
             (True, upd_actor (\<lambda>a. a\<lparr>ac_state := Some (sn_state snapshot)\<rparr>) (w\<lparr>aw_store := st\<rparr>)))"

definition bump :: "run_state \<Rightarrow> run_state" where
  "bump s = s\<lparr>rs_version := rs_version s + 1\<rparr>"

definition receipt_reply :: "actor_world \<Rightarrow> string \<Rightarrow> py_exn \<Rightarrow> nat \<Rightarrow> handled" where
  "receipt_reply w key missing response =
     (case event_for_receipt (load (aw_store w) (actor_id w)) key of
        None \<Rightarrow> (Inl missing, w)
      | Some e \<Rightarrow> (Inr (), respond response
          (RReceipt \<lparr>ap_run_id = actor_id w, ap_receipt_key = key, ap_event_sequence = re_sequence e\<rparr>) w))"

end
