(* ===== verification/Run_Handlers.thy ===== *)
theory Run_Handlers
  imports Run_Actor
begin

text \<open>
  The message handlers of \<open>RunActor\<close> in \<open>runtime/actor.py\<close>, one definition per method, and the
  dispatch of the mailbox loop.
\<close>

section \<open>API commands\<close>

definition handle_create :: "actor_env \<Rightarrow> uuid \<Rightarrow> create_run \<Rightarrow> bool option \<Rightarrow> actor_world \<Rightarrow> handled" where
  "handle_create E run_id request transaction w =
     (if run_id \<noteq> actor_id w then (Inr (), w)
      else case actor_state w of
        Some s \<Rightarrow>
          if rs_create_request s \<noteq> Some request
          then (Inr (), upd_actor (\<lambda>a. a\<lparr>ac_create_receipt := None\<rparr>) w)
          else (case run_created_receipt_of (load (aw_store w) run_id) run_id of
              Inl e \<Rightarrow> (Inl e, w)
            | Inr receipt \<Rightarrow> (Inr (), upd_actor (\<lambda>a. a\<lparr>ac_create_receipt := receipt\<rparr>) w))
      | None \<Rightarrow>
          let s = run_state_init run_id Planning 1 (Some request);
              created = spec ''run.created''
                [(''status'', PStr (run_status_value (rs_status s))),
                 (''receipt_key'', PStr (''run.created:'' @ str_uuid run_id)),
                 (''state_version'', PInt (rs_version s))]
          in case store_create (en_digests E) (aw_store w) s [created, run_status_changed_event s] None transaction of
               (Inl e, st) \<Rightarrow> (Inl e, w\<lparr>aw_store := st\<rparr>)
             | (Inr snapshot, st) \<Rightarrow>
                 let w' = upd_actor (\<lambda>a. a\<lparr>ac_state := Some (sn_state snapshot)\<rparr>) (w\<lparr>aw_store := st\<rparr>)
                 in (case run_created_receipt_of (Some snapshot) run_id of
                       Inl e \<Rightarrow> (Inl e, w')
                     | Inr receipt \<Rightarrow> (Inr (), upd_actor (\<lambda>a. a\<lparr>ac_create_receipt := receipt\<rparr>) w')))"

text \<open>\<open>_rollback_uncommitted_create\<close> together with the store's own rollback callback.\<close>

definition rollback_uncommitted_create :: "actor_world \<Rightarrow> actor_world" where
  "rollback_uncommitted_create w =
     (let w' = w\<lparr>aw_store := rollback_create (aw_store w) (actor_id w)\<rparr>
      in case actor_state w of
           None \<Rightarrow> w'
         | Some s \<Rightarrow>
             if rs_run_id s = actor_id w
             then upd_actor (\<lambda>a. a\<lparr>ac_state := None, ac_create_receipt := None\<rparr>) w'
             else w')"

definition handle_cancel :: "actor_env \<Rightarrow> int \<Rightarrow> nat option \<Rightarrow> actor_world \<Rightarrow> handled" where
  "handle_cancel E expected_version response w = (case actor_state w of
       None \<Rightarrow> (Inr (), respond_opt response (RRejected ''NOT_FOUND'') w)
     | Some s \<Rightarrow>
         if expected_version \<noteq> rs_version s
         then (Inr (), respond_opt response (RRejected ''STALE_VERSION'') w)
         else if rs_status s \<in> terminal_statuses
         then (Inr (), respond_opt response (RRejected ''PHASE_STATUS_MISMATCH'') w)
         else
           let next = s\<lparr>rs_status := Cancelled, rs_cancel_requested := True, rs_new_calls_enabled := False,
                  rs_active_dispatches := [], rs_version := rs_version s + 1\<rparr>
           in case actor_commit E w next [spec ''run.cancelled'' []] of
                (True, w1) \<Rightarrow>
                  let w2 = w1\<lparr>aw_coordinator :=
                             map_option (\<lambda>c. cancel_run c (str_uuid (actor_id w1))) (aw_coordinator w1)\<rparr>;
                      w3 = (case en_cancellation_port E of
                             None \<Rightarrow> w2
                           | Some port \<Rightarrow> set_error (port (actor_id w2)) (log_call (CallCancel (actor_id w2)) w2))
                  in (Inr (), respond_opt response (RState next) w3)
              | (False, w1) \<Rightarrow>
                  (Inr (), respond_opt response
                     (RRaised (StoreCommitError ''Run cancellation was not committed'')) w1))"

text \<open>\<open>str(payload.get(key, default))\<close>.\<close>

definition payload_str :: "actor_env \<Rightarrow> event_data \<Rightarrow> string \<Rightarrow> string \<Rightarrow> string" where
  "payload_str E payload key fallback = (case data_get payload key of
       None \<Rightarrow> fallback
     | Some (PStr s) \<Rightarrow> s
     | Some (PUuid u) \<Rightarrow> str_uuid u
     | Some (PInt i) \<Rightarrow> str_int i
     | Some PNone \<Rightarrow> ''None''
     | Some (PBool b) \<Rightarrow> (if b then ''True'' else ''False'')
     | Some v \<Rightarrow> en_str E v)"

definition handle_advice_confirmation :: "actor_env \<Rightarrow> event_data \<Rightarrow> run_state \<Rightarrow> actor_world \<Rightarrow> handled" where
  "handle_advice_confirmation E payload s w =
     (let advice_id = payload_str E payload ''advice_id'' [] in
      if advice_id \<notin> set (rs_pending_advice_ids s)
      then (Inr (), snd (actor_commit E w s [spec ''advice.confirmation_rejected'' [(''advice_id'', PStr advice_id)]]))
      else (Inr (), snd (actor_commit E w
             (s\<lparr>rs_pending_advice_ids := filter (\<lambda>item. item \<noteq> advice_id) (rs_pending_advice_ids s),
                rs_adopted_advice_ids := rs_adopted_advice_ids s @ [advice_id],
                rs_version := rs_version s + 1\<rparr>)
             [spec ''advice.confirmed'' [(''advice_id'', PStr advice_id)]])))"

definition max_continuations_per_generation :: int where
  "max_continuations_per_generation = 3"

definition payload_generation :: "event_data \<Rightarrow> int option" where
  "payload_generation payload = (case data_get payload ''generation'' of
       None \<Rightarrow> Some 0
     | Some (PInt g) \<Rightarrow> if g \<in> {0, 1, 2} then Some g else None
     | Some _ \<Rightarrow> None)"

text \<open>\<open>counts.get(generation, 0)\<close> of \<open>dict(continuation_counts)\<close>.\<close>

definition continuation_count :: "(int \<times> int) list \<Rightarrow> int \<Rightarrow> int" where
  "continuation_count counts g = (case map_of (py_dict counts) g of None \<Rightarrow> 0 | Some n \<Rightarrow> n)"

definition handle_segment_stopped :: "actor_env \<Rightarrow> event_data \<Rightarrow> run_state \<Rightarrow> actor_world \<Rightarrow> handled" where
  "handle_segment_stopped E payload s w = (case payload_generation payload of
       None \<Rightarrow> (Inr (), snd (actor_commit E w (bump s)
                 [spec ''slice.terminal_failed'' [(''reason'', PStr ''INVALID_GENERATION'')]]))
     | Some g \<Rightarrow>
         let progress = data_get payload ''material_progress'' = Some (PBool True)
               \<or> (case data_get payload ''checkpoint_diff'' of None \<Rightarrow> False | Some v \<Rightarrow> truthy v);
             current = continuation_count (rs_continuation_counts s) g;
             eligible = rs_new_calls_enabled s \<and> progress \<and> current < max_continuations_per_generation;
             counts = AList.update g (if eligible then current + 1 else current) (py_dict (rs_continuation_counts s));
             slice_id = payload_str E payload ''slice_id'' ''unknown'';
             next = s\<lparr>rs_continuation_counts := sort counts,
                rs_terminal_slice_failures :=
                  (if \<not> eligible \<and> slice_id \<notin> set (rs_terminal_slice_failures s)
                   then rs_terminal_slice_failures s @ [slice_id] else rs_terminal_slice_failures s),
                rs_version := rs_version s + 1\<rparr>;
             event = (if eligible
               then spec ''session.continuation_scheduled''
                 [(''generation'', PInt g), (''continuation'', PInt (current + 1))]
               else spec ''slice.terminal_failed''
                 [(''generation'', PInt g), (''reason'', PStr ''INDEPENDENT_SLICE_TERMINAL_FAILURE'')])
         in case actor_commit E w next [event] of
              (committed, w1) \<Rightarrow>
                (Inr (), case en_continuation_port E of
                   None \<Rightarrow> w1
                 | Some port \<Rightarrow>
                     if committed \<and> eligible
                     then set_error (port (actor_id w1) g) (log_call (CallContinuation (actor_id w1) g) w1)
                     else w1))"

definition handle_session_input :: "actor_env \<Rightarrow> string \<Rightarrow> event_data \<Rightarrow> actor_world \<Rightarrow> handled" where
  "handle_session_input E kind payload w = (case actor_state w of
       None \<Rightarrow> (Inr (), w)
     | Some s \<Rightarrow>
         if rs_status s \<in> terminal_statuses then (Inr (), w)
         else if kind = ''confirm_advice'' then handle_advice_confirmation E payload s w
         else if kind = ''segment_stopped'' then handle_segment_stopped E payload s w
         else (Inr (), snd (actor_commit E w (bump s) [spec ''session.input.accepted'' [(''kind'', PStr kind)]])))"

section \<open>Dispatches\<close>

definition start_dispatch :: "actor_env \<Rightarrow> active_dispatch \<Rightarrow> run_state \<Rightarrow> actor_world \<Rightarrow> handled" where
  "start_dispatch E d s w =
     (if rs_cancel_requested s \<or> \<not> rs_new_calls_enabled s then (Inr (), set_acceptance False w)
      else if list_ex (\<lambda>a. dispatch_key a (actor_id w) = dispatch_key d (actor_id w)) (rs_active_dispatches s)
      then (Inr (), set_acceptance False w)
      else case actor_commit E w
                  (s\<lparr>rs_status := Executing, rs_active_dispatches := rs_active_dispatches s @ [d],
                     rs_version := rs_version s + 1\<rparr>)
                  [spec ''dispatch.started''
                     [(''attempt_id'', PStr (str_uuid (ad_attempt_id d))), (''check_id'', PStr (str_uuid (ad_check_id d)))]] of
             (committed, w1) \<Rightarrow> (Inr (), set_acceptance committed w1))"

definition finish_dispatch ::
  "actor_env \<Rightarrow> active_dispatch \<Rightarrow> string option \<Rightarrow> run_state \<Rightarrow> actor_world \<Rightarrow> handled" where
  "finish_dispatch E d result_status s w =
     (case find (\<lambda>c. dispatch_key c (actor_id w) = dispatch_key d (actor_id w)) (rs_active_dispatches s) of
        None \<Rightarrow>
          (Inr (), set_acceptance False (snd (actor_commit E w s
             [spec ''LATE_DISPATCH_RESULT'' [(''attempt_id'', PStr (str_uuid (ad_attempt_id d)))]])))
      | Some active \<Rightarrow>
          if active \<noteq> d
          then (Inr (), set_acceptance False (snd (actor_commit E w s
             [spec ''LATE_DISPATCH_RESULT'' [(''attempt_id'', PStr (str_uuid (ad_attempt_id d)))]])))
          else (Inr (), set_acceptance True (snd (actor_commit E w
             (s\<lparr>rs_active_dispatches := filter (\<lambda>item. item \<noteq> d) (rs_active_dispatches s),
                rs_version := rs_version s + 1\<rparr>)
             [spec ''dispatch.completed'' [(''status'', PStr (case result_status of
                  None \<Rightarrow> ''UNKNOWN'' | Some r \<Rightarrow> if r = [] then ''UNKNOWN'' else r))]]))))"

definition handle_execution ::
  "actor_env \<Rightarrow> uuid \<Rightarrow> active_dispatch \<Rightarrow> string option \<Rightarrow> bool \<Rightarrow> actor_world \<Rightarrow> handled" where
  "handle_execution E run_id d result_status started w = (case actor_state w of
       None \<Rightarrow> (Inr (), set_acceptance False w)
     | Some s \<Rightarrow>
         if run_id \<noteq> actor_id w
         then (Inr (), set_acceptance False
                 (if started then w
                  else snd (actor_commit E w s [spec ''LATE_DISPATCH_RESULT'' [(''reason'', PStr ''RUN_ID_MISMATCH'')]])))
         else if started
         then (if rs_status s \<in> terminal_statuses \<or> \<not> rs_new_calls_enabled s
               then (Inr (), set_acceptance False w)
               else start_dispatch E d s w)
         else finish_dispatch E d result_status s w)"

section \<open>Budget, recovery, advice\<close>

definition exhaust_ports :: "actor_env \<Rightarrow> run_state \<Rightarrow> actor_world \<Rightarrow> event_spec list \<times> actor_world" where
  "exhaust_ports E pre_checkpoint_state w =
     (let (e1, w1) = (case en_checkpoint_writer E of
            None \<Rightarrow> ([], w)
          | Some port \<Rightarrow>
              let w' = log_call (CallCheckpoint pre_checkpoint_state) w in
              (case port pre_checkpoint_state of
                 None \<Rightarrow> ([], w')
               | Some x \<Rightarrow> ([spec ''checkpoint.write_failed'' []], set_error (Some x) w')));
          (e2, w2) = (case en_archive_port E of
            None \<Rightarrow> ([], w1)
          | Some port \<Rightarrow>
              let w' = log_call (CallArchive (actor_id w1)) w1 in
              (case port (actor_id w1) of
                 None \<Rightarrow> ([], w')
               | Some x \<Rightarrow> ([spec ''archive.failed'' []], set_error (Some x) w')))
      in (spec ''checkpoint.pre'' [] # e1 @ e2
            @ [spec ''run.archived'' [], spec ''run.failed'' [(''reason'', PStr ''BUDGET_EXHAUSTED'')],
               spec ''budget.exhausted'' []], w2))"

definition handle_budget :: "actor_env \<Rightarrow> int \<Rightarrow> int \<Rightarrow> int \<Rightarrow> actor_world \<Rightarrow> handled" where
  "handle_budget E i out c w = (case actor_state w of
       None \<Rightarrow> (Inr (), w)
     | Some s \<Rightarrow>
         if rs_status s \<in> terminal_statuses then (Inr (), w)
         else case evaluate_budget (rs_budget_usage s) (en_budget_limits E) i out c (rs_budget_warning_emitted s) of
           Inl e \<Rightarrow> (Inl e, w)
         | Inr evaluation \<Rightarrow>
             let warning = (if be_warning evaluation
                   then [spec ''budget.warning'' [(''utilization'', PFloat (be_utilization evaluation))]] else []);
                 next = s\<lparr>rs_budget_usage := be_usage evaluation,
                   rs_budget_warning_emitted := rs_budget_warning_emitted s \<or> be_warning evaluation,
                   rs_version := rs_version s + 1\<rparr>
             in if \<not> be_exhausted evaluation then (Inr (), snd (actor_commit E w next warning))
                else
                  let (events, w1) = exhaust_ports E (next\<lparr>rs_new_calls_enabled := False\<rparr>) w
                  in (Inr (), snd (actor_commit E w1
                       (next\<lparr>rs_status := Failed, rs_failure_reason := Some BudgetExhausted,
                          rs_new_calls_enabled := False, rs_active_dispatches := []\<rparr>)
                       (warning @ events))))"

text \<open>\<open>item.split(":", 1)[1]\<close> of an item that starts with \<open>dispatch.interrupted:\<close>.\<close>

definition recovery_event :: "string \<Rightarrow> event_spec" where
  "recovery_event item =
     (let p = ''dispatch.interrupted:'' in
      if take (length p) item = p
      then spec ''dispatch.interrupted'' [(''dispatch_id'', PStr (drop (length p) item))]
      else spec item [])"

definition handle_recovery ::
  "actor_env \<Rightarrow> string \<Rightarrow> string list \<Rightarrow> string list \<Rightarrow> bool \<Rightarrow> bool \<Rightarrow> actor_world \<Rightarrow> handled" where
  "handle_recovery E trigger active_dispatch_ids missing_intent_ids checkpoint_corrupt ref_drift w =
     (case actor_state w of
        None \<Rightarrow> (Inr (), w)
      | Some s \<Rightarrow> (case recovery_trigger_of trigger of
          Inl e \<Rightarrow> (Inl e, w)
        | Inr t \<Rightarrow>
            let plan = recovery_plan_for t active_dispatch_ids missing_intent_ids checkpoint_corrupt ref_drift
            in (Inr (), snd (actor_commit E w
                 (s\<lparr>rs_active_dispatches := [], rs_reporting_halted := rp_report_halted plan,
                    rs_version := rs_version s + 1\<rparr>)
                 (map recovery_event (rp_events plan))))))"

definition disposition_event :: "advice_disposition \<Rightarrow> string" where
  "disposition_event d = (case d of
       AutoAdopted \<Rightarrow> ''advice.adopted''
     | ConfirmationRequired \<Rightarrow> ''advice.confirmation_required''
     | Discarded \<Rightarrow> ''advice.discarded'')"

text \<open>The state, event type, reason and hash \<open>_handle_advice\<close> commits.\<close>

definition advice_decision :: "actor_env \<Rightarrow> uuid \<Rightarrow> run_state \<Rightarrow> advice \<Rightarrow> run_state \<times> string \<times> string \<times> string" where
  "advice_decision E run_id s a =
     (if av_run_id a \<noteq> run_id then (s, ''advice.discarded'', ''RUN_ID_MISMATCH'', [])
      else
        let result = evaluate_advice (en_advice_hash E) a (en_advice_context E);
            advice_id = str_uuid (av_advice_id a);
            facts = (\<lambda>s' event. (s', event, ae_reason result, ae_proposal_hash result))
        in case ae_disposition result of
             AutoAdopted \<Rightarrow>
               if advice_id \<in> set (rs_adopted_advice_ids s) then facts s ''advice.duplicate''
               else facts (s\<lparr>rs_adopted_advice_ids := rs_adopted_advice_ids s @ [advice_id],
                      rs_version := rs_version s + 1\<rparr>) (disposition_event AutoAdopted)
           | ConfirmationRequired \<Rightarrow>
               if advice_id \<in> set (rs_pending_advice_ids s) then facts s ''advice.duplicate''
               else facts (s\<lparr>rs_pending_advice_ids := rs_pending_advice_ids s @ [advice_id],
                      rs_version := rs_version s + 1\<rparr>) (disposition_event ConfirmationRequired)
           | Discarded \<Rightarrow> facts s (disposition_event Discarded))"

definition handle_advice :: "actor_env \<Rightarrow> advice \<Rightarrow> actor_world \<Rightarrow> handled" where
  "handle_advice E a w = (case actor_state w of
       None \<Rightarrow> (Inr (), w)
     | Some s \<Rightarrow>
         (case advice_decision E (actor_id w) s a of
            (next, event_type, reason, proposal_hash) \<Rightarrow>
              (case actor_commit E w next
                      [spec event_type [(''reason'', PStr reason), (''proposal_hash'', PStr proposal_hash)]] of
                 (committed, w1) \<Rightarrow>
                   (Inr (), case en_repair_port E of
                      None \<Rightarrow> w1
                    | Some port \<Rightarrow>
                        if committed \<and> event_type = ''advice.adopted'' \<and> av_kind a = RepairDecisionAdvice
                        then set_error (port a) (log_call (CallRepair a) w1)
                        else w1))))"

section \<open>Workflow commands\<close>

definition write_session_kinds :: "session_kind set" where
  "write_session_kinds = {SkContract, SkImplementation, SkTestTranslation, SkTestGeneration, RepairSession}"

definition accepted_candidate :: "run_state \<Rightarrow> integration_intent \<Rightarrow> bool" where
  "accepted_candidate s i =
     list_ex (\<lambda>f. cf_slice_id f = ii_slice_id i \<and> cf_generation f = ii_generation i) (rs_candidate_checkpoints s)"

definition wf_persist_intent :: "integration_intent \<Rightarrow> workflow_command \<Rightarrow> run_state \<Rightarrow> actor_world \<Rightarrow> handled" where
  "wf_persist_intent i c s w =
     (if ii_run_id i \<noteq> actor_id w \<or> rs_status s \<noteq> Executing \<or> rs_frozen_plan_sha256 s = None
      then (Inl (StoreCommitError ''integration intent failed Run owner validation''), w)
      else if \<not> accepted_candidate s i
      then (Inl (StoreCommitError ''integration intent requires an accepted M-08 candidate''), w)
      else if wc_logical_key c \<noteq> ''integration.intent:'' @ ii_idempotency_key i
      then (Inl (StoreCommitError ''integration intent command identity mismatch''), w)
      else if load_integration_intent (aw_store w) (actor_id w) (ii_idempotency_key i) = None
           \<and> head_differs (aw_store w) (actor_id w) i
      then (Inl (StoreCommitError ''integration intent expected head differs from latest receipt''), w)
      else case persist_integration_intent (aw_store w) i of
        (Inl e, st) \<Rightarrow> (Inl e, w\<lparr>aw_store := st\<rparr>)
      | (Inr committed, st) \<Rightarrow>
          if committed \<noteq> i
          then (Inl (StoreCommitError ''integration intent owner receipt does not match request''), w\<lparr>aw_store := st\<rparr>)
          else (Inr (), respond (wc_response c) (RIntent committed) (w\<lparr>aw_store := st\<rparr>)))"

definition integration_events :: "string \<Rightarrow> integration_intent \<Rightarrow> string \<Rightarrow> event_spec list" where
  "integration_events logical_key i oid =
     [spec ''integration.completed''
        [(''receipt_key'', PStr logical_key), (''slice_id'', PStr (str_uuid (ii_slice_id i))),
         (''generation'', PInt (ii_generation i)), (''verified_commit_oid'', PStr oid)],
      spec ''verified.advanced''
        [(''slice_id'', PStr (str_uuid (ii_slice_id i))), (''generation'', PInt (ii_generation i)),
         (''commit_oid'', PStr oid)]]"

definition wf_integration_completed ::
  "actor_env \<Rightarrow> integration_intent \<Rightarrow> string \<Rightarrow> workflow_command \<Rightarrow> run_state \<Rightarrow> actor_world \<Rightarrow> handled" where
  "wf_integration_completed E i oid c s w =
     (if ii_run_id i \<noteq> actor_id w \<or> rs_status s \<noteq> Executing \<or> rs_frozen_plan_sha256 s = None
        \<or> wc_logical_key c \<noteq> completed_key i
      then (Inl (StoreCommitError ''integration completion failed Run owner validation''), w)
      else if oid \<noteq> ii_prospective_commit_oid i
      then (Inl (StoreCommitError ''verified head does not match the intent''), w)
      else if \<not> accepted_candidate s i
      then (Inl (StoreCommitError ''integration completion requires an accepted M-08 candidate''), w)
      else if load_integration_intent (aw_store w) (actor_id w) (ii_idempotency_key i) \<noteq> Some i
      then (Inl (StoreCommitError ''integration intent is not durably committed''), w)
      else if head_differs (aw_store w) (actor_id w) i
      then (Inl (StoreCommitError ''integration intent expected head differs from latest receipt''), w)
      else case commit_integration_receipt (en_digests E) (aw_store w) (bump s) i oid
                  (integration_events (wc_logical_key c) i oid) of
        (Inl e, st) \<Rightarrow> (Inl e, w\<lparr>aw_store := st\<rparr>)
      | (Inr receipt, st) \<Rightarrow>
          let w1 = w\<lparr>aw_store := st\<rparr>; committed = load st (actor_id w);
              event = event_for_receipt committed (wc_logical_key c)
          in if ii_run_id (ir_intent receipt) \<noteq> actor_id w
               \<or> ii_idempotency_key (ir_intent receipt) \<noteq> ii_idempotency_key i
               \<or> ir_verified_commit_oid receipt \<noteq> oid \<or> committed = None \<or> event = None
               \<or> map_option re_sequence event \<noteq> Some (ir_event_sequence receipt)
             then (Inl (StoreCommitError ''integration receipt could not be reloaded''), w1)
             else receipt_reply (upd_actor (\<lambda>a. a\<lparr>ac_state := map_option sn_state committed\<rparr>) w1) (wc_logical_key c)
                    (StoreCommitError ''integration receipt could not be reloaded'') (wc_response c))"

definition validate_integration_replay ::
  "integration_intent \<Rightarrow> string \<Rightarrow> nat \<Rightarrow> actor_world \<Rightarrow> unit res" where
  "validate_integration_replay i oid event_sequence w =
     (case load_integration_receipt (aw_store w) (actor_id w) (ii_idempotency_key i) of
        None \<Rightarrow> Inl (StoreCommitError ''integration receipt replay mismatch'')
      | Some receipt \<Rightarrow>
          if load_integration_intent (aw_store w) (actor_id w) (ii_idempotency_key i) \<noteq> Some i
            \<or> ir_verified_commit_oid receipt \<noteq> oid \<or> ir_event_sequence receipt \<noteq> event_sequence
          then Inl (StoreCommitError ''integration receipt replay mismatch'')
          else Inr ())"

definition wf_agent_started ::
  "actor_env \<Rightarrow> uuid \<Rightarrow> workflow_command \<Rightarrow> run_state \<Rightarrow> actor_world \<Rightarrow> handled" where
  "wf_agent_started E agent_run_id c s w =
     (let mismatch = (Inl (StoreCommitError ''AgentRun start facts do not match the active Run owner''), w) in
      case load_agent_run (aw_store w) agent_run_id of
        None \<Rightarrow> mismatch
      | Some r \<Rightarrow>
          if ag_owner_kind r \<noteq> ''run'' \<or> ag_owner_id r \<noteq> actor_id w \<or> ag_phase r \<notin> {PhPlan, PhExecute}
            \<or> is_terminal r \<or> rs_status s \<notin> {Planning, Executing}
          then mismatch
          else case agent_run_lifecycle_spec r None of
            Inl e \<Rightarrow> (Inl e, w)
          | Inr event \<Rightarrow>
              (case actor_commit E w (bump s) [event] of
                 (False, w1) \<Rightarrow> (Inl (StoreCommitError ''AgentRun start receipt could not be committed''), w1)
               | (True, w1) \<Rightarrow> receipt_reply w1 (wc_logical_key c)
                   (StoreCommitError ''committed AgentRun start receipt cannot be reloaded'') (wc_response c)))"

definition wf_agent_terminal ::
  "actor_env \<Rightarrow> agent_run \<Rightarrow> agent_run_receipt \<Rightarrow> cas_object \<Rightarrow> workflow_command \<Rightarrow> run_state \<Rightarrow> actor_world
     \<Rightarrow> handled" where
  "wf_agent_terminal E r receipt obj c s w =
     (if rs_status s \<noteq> Executing \<or> ag_owner_kind r \<noteq> ''run'' \<or> ag_owner_id r \<noteq> actor_id w
        \<or> ag_phase r \<noteq> PhExecute \<or> ag_session_kind r \<notin> write_session_kinds \<or> ag_slice_ref r = None
        \<or> ag_write_scope_sha256 r = None \<or> \<not> is_terminal r \<or> ag_result_sha256 r \<noteq> Some (co_digest obj)
        \<or> rc_agent_run_id receipt \<noteq> ag_agent_run_id r \<or> rc_category receipt \<noteq> ''session.terminal''
        \<or> (case load_agent_run (aw_store w) (ag_agent_run_id r) of
              None \<Rightarrow> True | Some cur \<Rightarrow> \<not> same_frozen_identity cur r)
        \<or> \<not> has_agent_run_event (load (aw_store w) (actor_id w)) ''agent_run.started'' (ag_agent_run_id r)
        \<or> (ag_exit r = Some SxCompleted \<and> ag_candidate_checkpoint_sha256 r = None)
        \<or> (ag_exit r \<noteq> Some SxCompleted \<and> ag_candidate_checkpoint_sha256 r \<noteq> None)
        \<or> wc_logical_key c \<noteq> ''agent_run.terminal:'' @ str_uuid (ag_agent_run_id r)
      then (Inl (StoreCommitError ''EXECUTE terminal AgentRun facts failed owner validation''), w)
      else case agent_run_lifecycle_spec r (Some receipt) of
        Inl e \<Rightarrow> (Inl e, w)
      | Inr event \<Rightarrow>
          (case commit_agent_run_receipt (en_digests E) (aw_store w) r receipt (Some (bump s)) [event]
                  [(''agent-result:'' @ str_uuid (ag_agent_run_id r), obj)] of
             (Inl e, st) \<Rightarrow> (Inl e, w\<lparr>aw_store := st\<rparr>)
           | (Inr _, st) \<Rightarrow>
               receipt_reply (upd_actor (\<lambda>a. a\<lparr>ac_state := Some (bump s)\<rparr>) (w\<lparr>aw_store := st\<rparr>)) (wc_logical_key c)
                 (StoreCommitError ''committed AgentRun terminal receipt cannot be reloaded'') (wc_response c)))"

definition validate_agent_terminal_replay ::
  "agent_run \<Rightarrow> agent_run_receipt \<Rightarrow> cas_object \<Rightarrow> workflow_command \<Rightarrow> actor_world \<Rightarrow> unit res" where
  "validate_agent_terminal_replay r receipt obj c w =
     (if load_agent_run (aw_store w) (ag_agent_run_id r) \<noteq> Some r
        \<or> load_agent_run_receipt (aw_store w) (ag_agent_run_id r) \<noteq> Some receipt
        \<or> get_cas_reference (aw_store w) ''run'' (actor_id w) (''agent-result:'' @ str_uuid (ag_agent_run_id r)) \<noteq> Some obj
        \<or> rc_category receipt \<noteq> ''session.terminal''
        \<or> wc_logical_key c \<noteq> ''agent_run.terminal:'' @ str_uuid (ag_agent_run_id r)
      then Inl (StoreCommitError ''AgentRun terminal replay differs from committed facts'')
      else Inr ())"

definition wf_accept_plan ::
  "actor_env \<Rightarrow> plan_agent_completion \<Rightarrow> frozen_plan \<Rightarrow> workflow_command \<Rightarrow> run_state \<Rightarrow> actor_world \<Rightarrow> handled" where
  "wf_accept_plan E completion plan c s w =
     (let r = pc_record completion; receipt = pc_receipt completion in
      if rs_status s \<noteq> Planning \<or> ag_owner_kind r \<noteq> ''run'' \<or> ag_owner_id r \<noteq> actor_id w
        \<or> ag_phase r \<noteq> PhPlan \<or> ag_session_kind r \<noteq> PlanAuxiliary \<or> ag_state r \<noteq> SsClosed
        \<or> ag_exit r \<noteq> Some SxCompleted \<or> rc_agent_run_id receipt \<noteq> ag_agent_run_id r
        \<or> rc_category receipt \<noteq> ''plan.accepted''
        \<or> ag_result_sha256 r \<noteq> Some (co_digest (pc_result_object completion))
        \<or> \<not> has_agent_run_event (load (aw_store w) (actor_id w)) ''agent_run.started'' (ag_agent_run_id r)
        \<or> en_plan_payload_digest E plan \<noteq> co_digest (pc_plan_object completion)
        \<or> \<not> accepted (ff_validation (fp_facts plan))
      then (Inl (ValueError ''PLAN acceptance facts failed deterministic owner checks''), w)
      else case agent_run_lifecycle_spec r (Some receipt) of
        Inl e \<Rightarrow> (Inl e, w)
      | Inr event \<Rightarrow>
          let next = s\<lparr>rs_status := Executing, rs_frozen_plan_sha256 := Some (fp_plan_hash plan),
                 rs_version := rs_version s + 1\<rparr>
          in case commit_agent_run_receipt (en_digests E) (aw_store w) r receipt (Some next)
                    [event,
                     spec ''run.plan.accepted'' [(''receipt_key'', PStr (wc_logical_key c)),
                       (''agent_run_id'', PStr (str_uuid (ag_agent_run_id r))), (''plan_sha256'', PStr (fp_plan_hash plan))],
                     run_status_changed_event next]
                    [(''agent-result:'' @ str_uuid (ag_agent_run_id r), pc_result_object completion),
                     (''frozen-plan'', pc_plan_object completion)] of
               (Inl e, st) \<Rightarrow> (Inl e, w\<lparr>aw_store := st\<rparr>)
             | (Inr _, st) \<Rightarrow>
                 receipt_reply (upd_actor (\<lambda>a. a\<lparr>ac_state := Some next\<rparr>) (w\<lparr>aw_store := st\<rparr>)) (wc_logical_key c)
                   (StoreCommitError ''committed PLAN owner receipt cannot be reloaded'') (wc_response c))"

definition wf_schedule_round :: "actor_env \<Rightarrow> workflow_command \<Rightarrow> run_state \<Rightarrow> actor_world \<Rightarrow> handled" where
  "wf_schedule_round E c s w =
     (if rs_status s \<noteq> Executing \<or> rs_frozen_plan_sha256 s = None \<or> \<not> en_has_scheduler E
      then (Inl (StoreCommitError ''EXECUTE requires an active Run and Actor scheduler''), w)
      else
        let key = wc_logical_key c; a = aw_actor w;
            w1 = upd_actor (\<lambda>a. a\<lparr>ac_round_responses :=
                   AList.update key (entries_of (ac_round_responses a) key @ [wc_response c]) (ac_round_responses a)\<rparr>) w
        in if key \<in> set (ac_round_tasks a) then (Inr (), w1)
           else (Inr (), log_call (CallScheduler key)
                  (upd_actor (\<lambda>a. a\<lparr>ac_round_tasks := ac_round_tasks a @ [key]\<rparr>) w1)))"

definition wf_verification ::
  "actor_env \<Rightarrow> verification_summary \<Rightarrow> workflow_command \<Rightarrow> run_state \<Rightarrow> actor_world \<Rightarrow> handled" where
  "wf_verification E v c s w =
     (if rs_status s \<noteq> Verifying then (Inl (StoreCommitError ''VERIFY requires deterministic verification facts''), w)
      else case actor_commit E w (s\<lparr>rs_status := Reporting, rs_version := rs_version s + 1\<rparr>)
             [spec ''run.verify.completed'' [(''receipt_key'', PStr (wc_logical_key c)),
                (''passed'', PBool (vs_passed v)), (''result_sha256'', PStr (vs_result_sha256 v))]] of
        (False, w1) \<Rightarrow> (Inl (StoreCommitError ''VERIFY actor receipt could not be committed''), w1)
      | (True, w1) \<Rightarrow> receipt_reply w1 (wc_logical_key c) (AssertionError []) (wc_response c))"

definition wf_report :: "actor_env \<Rightarrow> report_summary \<Rightarrow> workflow_command \<Rightarrow> run_state \<Rightarrow> actor_world \<Rightarrow> handled" where
  "wf_report E v c s w =
     (if rs_status s \<noteq> Reporting then (Inl (StoreCommitError ''REPORT requires deterministic report facts''), w)
      else case actor_commit E w (s\<lparr>rs_status := rp_status v, rs_version := rs_version s + 1\<rparr>)
             [spec ''run.report.completed'' [(''receipt_key'', PStr (wc_logical_key c)),
                (''status'', PStr (run_status_value (rp_status v))), (''result_sha256'', PStr (rp_result_sha256 v))]] of
        (False, w1) \<Rightarrow> (Inl (StoreCommitError ''REPORT actor receipt could not be committed''), w1)
      | (True, w1) \<Rightarrow> receipt_reply w1 (wc_logical_key c) (AssertionError []) (wc_response c))"

section \<open>Execution rounds\<close>

definition validate_candidate_claim ::
  "actor_env \<Rightarrow> actor_world \<Rightarrow> candidate_checkpoint_claim \<Rightarrow> candidate_checkpoint_fact list
     \<Rightarrow> candidate_checkpoint_fact res" where
  "validate_candidate_claim E w claim facts = (case (cl_receipt claim, en_checkpoint_verifier E) of
       (Some receipt, Some is_committed) \<Rightarrow>
         let failed = Inl (StoreCommitError ''candidate checkpoint receipt failed owner validation'');
             candidate_digest = en_checkpoint_digest E receipt; run_id = actor_id w;
             manifest = cm_slice_candidate (ck_manifest receipt)
         in (case load_agent_run (aw_store w) (cl_agent_run_id claim) of
               None \<Rightarrow> failed
             | Some r \<Rightarrow> (case ag_slice_ref r of
               None \<Rightarrow> failed
             | Some ref \<Rightarrow> (case sg_baseline_candidate_oid ref of
               None \<Rightarrow> failed
             | Some baseline \<Rightarrow> (case load_agent_run_receipt (aw_store w) (cl_agent_run_id claim) of
               None \<Rightarrow> failed
             | Some terminal_receipt \<Rightarrow>
                 if ag_owner_kind r \<noteq> ''run'' \<or> ag_owner_id r \<noteq> run_id \<or> ag_phase r \<noteq> PhExecute
                   \<or> ag_session_kind r \<notin> write_session_kinds \<or> ag_state r \<noteq> SsClosed
                   \<or> ag_exit r \<noteq> Some SxCompleted \<or> ag_result_sha256 r = None \<or> ag_write_scope_sha256 r = None
                   \<or> rc_agent_run_id terminal_receipt \<noteq> ag_agent_run_id r
                   \<or> rc_category terminal_receipt \<noteq> ''session.terminal''
                   \<or> ag_candidate_checkpoint_sha256 r \<noteq> Some candidate_digest
                   \<or> ck_run_id receipt \<noteq> run_id \<or> ck_slice_id receipt \<noteq> sg_slice_id ref
                   \<or> ck_generation receipt \<noteq> sg_generation ref \<or> ck_expected_candidate_oid receipt \<noteq> baseline
                   \<or> sc_run_id manifest \<noteq> run_id \<or> sc_slice_id manifest \<noteq> sg_slice_id ref
                   \<or> sc_generation manifest \<noteq> sg_generation ref
                   \<or> sc_candidate_commit_oid manifest \<noteq> ck_expected_candidate_oid receipt
                   \<or> \<not> cm_scope_check_passed (ck_manifest receipt)
                   \<or> ck_new_candidate_oid receipt = ck_expected_candidate_oid receipt
                 then failed
                 else if \<not> is_committed receipt
                 then Inl (StoreCommitError ''candidate checkpoint receipt is not committed by M-08'')
                 else (case find (\<lambda>item. cf_receipt_sha256 item = candidate_digest) facts of
                   Some previous \<Rightarrow>
                     if cf_agent_run_id previous \<noteq> ag_agent_run_id r
                       \<or> cf_candidate_oid previous \<noteq> ck_new_candidate_oid receipt
                       \<or> cf_slice_id previous \<noteq> ck_slice_id receipt \<or> cf_generation previous \<noteq> ck_generation receipt
                     then Inl (StoreCommitError ''candidate checkpoint receipt was previously claimed'')
                     else Inr previous
                 | None \<Rightarrow>
                     let expected_current = (case find (\<lambda>item. cf_slice_id item = sg_slice_id ref
                                 \<and> cf_generation item = sg_generation ref) facts of
                             None \<Rightarrow> baseline | Some current \<Rightarrow> cf_candidate_oid current)
                     in if ck_expected_candidate_oid receipt \<noteq> expected_current
                        then Inl (StoreCommitError ''candidate checkpoint does not extend the accepted OID'')
                        else candidate_fact_init
                               \<lparr>cf_agent_run_id = ag_agent_run_id r, cf_slice_id = sg_slice_id ref,
                                cf_generation = sg_generation ref,
                                cf_expected_candidate_oid = ck_expected_candidate_oid receipt,
                                cf_candidate_oid = ck_new_candidate_oid receipt,
                                cf_receipt_sha256 = candidate_digest\<rparr>)))))
     | _ \<Rightarrow> Inl (StoreCommitError ''completed write AgentRun has no candidate checkpoint receipt''))"

text \<open>\<open>xs[xs.index(old)] = new\<close>.\<close>

fun replace_first :: "'a \<Rightarrow> 'a \<Rightarrow> 'a list \<Rightarrow> 'a list" where
  "replace_first old new [] = []"
| "replace_first old new (x # xs) = (if x = old then new # xs else x # replace_first old new xs)"

definition merge_fact ::
  "candidate_checkpoint_fact list \<Rightarrow> candidate_checkpoint_fact
     \<Rightarrow> candidate_checkpoint_fact list \<times> event_spec list" where
  "merge_fact facts ckf =
     (let event = spec ''slice.candidate.accepted''
            [(''agent_run_id'', PStr (str_uuid (cf_agent_run_id ckf))),
             (''slice_id'', PStr (str_uuid (cf_slice_id ckf))), (''generation'', PInt (cf_generation ckf))]
      in case find (\<lambda>item. cf_slice_id item = cf_slice_id ckf \<and> cf_generation item = cf_generation ckf) facts of
           None \<Rightarrow> (facts @ [ckf], [event])
         | Some current \<Rightarrow>
             if cf_receipt_sha256 current = cf_receipt_sha256 ckf then (facts, [])
             else (replace_first current ckf facts, [event]))"

fun merge_claims ::
  "actor_env \<Rightarrow> actor_world \<Rightarrow> candidate_checkpoint_claim list \<Rightarrow> candidate_checkpoint_fact list
     \<Rightarrow> (candidate_checkpoint_fact list \<times> event_spec list) res" where
  "merge_claims E w [] facts = Inr (facts, [])"
| "merge_claims E w (claim # claims) facts = (case validate_candidate_claim E w claim facts of
       Inl e \<Rightarrow> Inl e
     | Inr ckf \<Rightarrow>
         (case merge_fact facts ckf of
            (facts', events) \<Rightarrow> map_sum id (apsnd ((@) events)) (merge_claims E w claims facts')))"

fun terminal_round_events :: "actor_world \<Rightarrow> runtime_snapshot option \<Rightarrow> uuid list \<Rightarrow> event_spec list res" where
  "terminal_round_events w snapshot [] = Inr []"
| "terminal_round_events w snapshot (agent_run_id # ids) =
     (let missing = Inl (StoreCommitError ''EXECUTE terminal AgentRun has no matching terminal receipt'') in
      case (load_agent_run (aw_store w) agent_run_id, load_agent_run_receipt (aw_store w) agent_run_id) of
        (Some r, Some receipt) \<Rightarrow>
          if ag_owner_kind r \<noteq> ''run'' \<or> ag_owner_id r \<noteq> actor_id w \<or> ag_phase r \<noteq> PhExecute \<or> \<not> is_terminal r
            \<or> rc_agent_run_id receipt \<noteq> ag_agent_run_id r \<or> rc_category receipt \<noteq> ''session.terminal''
          then missing
          else if \<not> has_agent_run_event snapshot ''agent_run.started'' agent_run_id
          then Inl (StoreCommitError ''terminal EXECUTE AgentRun has no committed start receipt'')
          else if has_agent_run_event snapshot ''agent_run.terminal'' agent_run_id
          then terminal_round_events w snapshot ids
          else (case agent_run_lifecycle_spec r (Some receipt) of
              Inl e \<Rightarrow> Inl e
            | Inr event \<Rightarrow> map_sum id ((#) event) (terminal_round_events w snapshot ids))
      | _ \<Rightarrow> missing)"

definition commit_execution_round ::
  "actor_env \<Rightarrow> string \<Rightarrow> run_state \<Rightarrow> execution_round_decision \<Rightarrow> actor_world \<Rightarrow> reply \<times> actor_world" where
  "commit_execution_round E key s decision w =
     (let completed_ids = xd_completed_write_ids decision; terminal_ids = xd_terminal_ids decision;
          claimed_ids = map cl_agent_run_id (xd_candidate_claims decision);
          raise = (\<lambda>m. (RRaised (StoreCommitError m), w))
      in if rs_status s \<noteq> Executing \<or> rs_frozen_plan_sha256 s = None
         then raise ''EXECUTE result arrived after its Run stopped executing''
         else if \<not> distinct claimed_ids \<or> \<not> distinct completed_ids \<or> \<not> distinct terminal_ids
           \<or> set completed_ids \<noteq> set claimed_ids \<or> \<not> set completed_ids \<subseteq> set terminal_ids
         then raise ''EXECUTE terminal or candidate checkpoint claim set is incomplete''
         else case terminal_round_events w (load (aw_store w) (actor_id w)) terminal_ids of
           Inl e \<Rightarrow> (RRaised e, w)
         | Inr terminal_events \<Rightarrow>
             (case merge_claims E w (xd_candidate_claims decision) (rs_candidate_checkpoints s) of
                Inl e \<Rightarrow> (RRaised e, w)
              | Inr (facts, candidate_events) \<Rightarrow>
                  let next = s\<lparr>rs_status := (if xd_complete decision then Verifying else Executing),
                         rs_candidate_checkpoints := facts, rs_version := rs_version s + 1\<rparr>
                  in case actor_commit E w next
                            (terminal_events @ candidate_events
                               @ [spec ''run.execute.round'' [(''receipt_key'', PStr key),
                                    (''complete'', PBool (xd_complete decision)),
                                    (''dispatch_count'', PInt (xd_dispatch_count decision))]]) of
                       (False, w1) \<Rightarrow> (RRaised (StoreCommitError ''EXECUTE actor receipt could not be committed''), w1)
                     | (True, w1) \<Rightarrow>
                         (case event_for_receipt (load (aw_store w1) (actor_id w1)) key of
                            None \<Rightarrow> (RRaised (AssertionError []), w1)
                          | Some e \<Rightarrow>
                              (RRound \<lparr>ap_run_id = actor_id w1, ap_receipt_key = key, ap_event_sequence = re_sequence e\<rparr>
                                 (xd_complete decision), w1))))"

definition finish_execution_round :: "string \<Rightarrow> reply \<Rightarrow> actor_world \<Rightarrow> actor_world" where
  "finish_execution_round key x w =
     (let responses = entries_of (ac_round_responses (aw_actor w)) key;
          w1 = upd_actor (\<lambda>a. a\<lparr>ac_round_responses := AList.delete key (ac_round_responses a),
                 ac_round_tasks := filter (\<lambda>k. k \<noteq> key) (ac_round_tasks a)\<rparr>) w
      in fold (\<lambda>r. respond r x) responses w1)"

definition handle_round_finished ::
  "actor_env \<Rightarrow> string \<Rightarrow> execution_round_decision option \<Rightarrow> py_exn option \<Rightarrow> actor_world \<Rightarrow> handled" where
  "handle_round_finished E key decision error w = (case error of
       Some e \<Rightarrow> (Inr (), finish_execution_round key (RRaised e) w)
     | None \<Rightarrow>
         (case (actor_state w, decision) of
            (Some s, Some d) \<Rightarrow>
              (case commit_execution_round E key s d w of
                 (x, w1) \<Rightarrow> (Inr (), finish_execution_round key x w1))
          | _ \<Rightarrow> (Inr (), finish_execution_round key
              (RRaised (StoreCommitError ''EXECUTE round completion is missing its Run facts'')) w)))"

section \<open>The mailbox\<close>

text \<open>A command whose receipt is already in the log is answered from the log.\<close>

definition replay_workflow :: "workflow_command \<Rightarrow> runtime_event \<Rightarrow> actor_world \<Rightarrow> handled" where
  "replay_workflow c event w =
     (let receipt = \<lparr>ap_run_id = actor_id w, ap_receipt_key = wc_logical_key c, ap_event_sequence = re_sequence event\<rparr>;
          checked = (case wc_payload c of
              WfAgentTerminal r rc obj \<Rightarrow> validate_agent_terminal_replay r rc obj c w
            | WfIntegrationCompleted i oid \<Rightarrow> validate_integration_replay i oid (re_sequence event) w
            | _ \<Rightarrow> Inr ())
      in case checked of
           Inl e \<Rightarrow> (Inl e, w)
         | Inr _ \<Rightarrow>
             (Inr (), respond (wc_response c)
                (if wc_payload c = WfExecuteRound
                 then RRound receipt (data_get (re_data event) ''complete'' = Some (PBool True))
                 else RReceipt receipt) w))"

definition dispatch_workflow :: "actor_env \<Rightarrow> workflow_command \<Rightarrow> run_state \<Rightarrow> actor_world \<Rightarrow> handled" where
  "dispatch_workflow E c s w = (case wc_payload c of
       WfAcceptPlan completion plan \<Rightarrow> wf_accept_plan E completion plan c s w
     | WfExecuteRound \<Rightarrow> wf_schedule_round E c s w
     | WfAgentStarted agent_run_id \<Rightarrow> wf_agent_started E agent_run_id c s w
     | WfAgentTerminal r rc obj \<Rightarrow> wf_agent_terminal E r rc obj c s w
     | WfIntegrationIntent i \<Rightarrow> wf_persist_intent i c s w
     | WfIntegrationCompleted i oid \<Rightarrow> wf_integration_completed E i oid c s w
     | WfVerification v \<Rightarrow> wf_verification E v c s w
     | WfReport v \<Rightarrow> wf_report E v c s w)"

definition handle_workflow :: "actor_env \<Rightarrow> workflow_command \<Rightarrow> actor_world \<Rightarrow> handled" where
  "handle_workflow E c w =
     (if wc_run_id c \<noteq> actor_id w then (Inl (ValueError ''workflow command Run identity mismatch''), w)
      else
        let snapshot = load (aw_store w) (actor_id w) in
        case event_for_receipt snapshot (wc_logical_key c) of
          Some event \<Rightarrow> replay_workflow c event w
        | None \<Rightarrow> (case (actor_state w, snapshot) of
              (Some s, Some _) \<Rightarrow> dispatch_workflow E c s w
            | _ \<Rightarrow> (Inl (StoreCommitError ''workflow owner Run does not exist''), w)))"

definition handle_message :: "actor_env \<Rightarrow> runtime_message \<Rightarrow> actor_world \<Rightarrow> handled" where
  "handle_message E m w = (case m of
       MCreate run_id request transaction \<Rightarrow> handle_create E run_id request transaction w
     | MCancel version response \<Rightarrow> handle_cancel E version response w
     | MSessionInput kind payload \<Rightarrow> handle_session_input E kind payload w
     | MExecution run_id d result_status started \<Rightarrow> handle_execution E run_id d result_status started w
     | MBudget i out c \<Rightarrow> handle_budget E i out c w
     | MRecovery trigger ds is corrupt drift \<Rightarrow> handle_recovery E trigger ds is corrupt drift w
     | MAdvice a \<Rightarrow> handle_advice E a w
     | MWorkflow c \<Rightarrow> handle_workflow E c w
     | MRoundFinished key decision error \<Rightarrow> handle_round_finished E key decision error w)"

text \<open>One iteration of \<open>_run\<close>: an exception is recorded and given to the waiting caller.\<close>

definition run_message :: "actor_env \<Rightarrow> runtime_message \<Rightarrow> actor_world \<Rightarrow> actor_world" where
  "run_message E m w = (case handle_message E m w of
       (Inr _, w1) \<Rightarrow> w1
     | (Inl e, w1) \<Rightarrow>
         let w2 = set_error (Some e) w1 in
         (case m of
            MWorkflow c \<Rightarrow> respond (wc_response c) (RRaised e) w2
          | MCancel _ response \<Rightarrow> respond_opt response (RRaised e) w2
          | MRoundFinished key _ _ \<Rightarrow> finish_execution_round key (RRaised e) w2
          | _ \<Rightarrow> w2))"

definition run_messages :: "actor_env \<Rightarrow> runtime_message list \<Rightarrow> actor_world \<Rightarrow> actor_world" where
  "run_messages E ms w = fold (run_message E) ms w"

end
