(* ===== verification/Actor_Lifecycle.thy ===== *)
theory Actor_Lifecycle
  imports Run_Handlers Runtime_Log
begin

text \<open>
  The abstract life cycle of a run and the proof that the actor of \<open>runtime/actor.py\<close> refines it: every
  message moves the abstract state along one step of the life cycle, or leaves it where it is.
\<close>

section \<open>The abstract life cycle\<close>

record lifecycle =
  lf_status :: run_status
  lf_version :: int
  lf_calls :: bool
  lf_idle :: bool

definition next_phase :: "run_status \<Rightarrow> run_status set" where
  "next_phase s = (case s of
       Planning \<Rightarrow> {Executing}
     | Executing \<Rightarrow> {Verifying}
     | Verifying \<Rightarrow> {Reporting}
     | Reporting \<Rightarrow> {Completed, PartiallyCompleted}
     | _ \<Rightarrow> {})"

inductive lifecycle_step :: "lifecycle option \<Rightarrow> lifecycle option \<Rightarrow> bool" where
  stay: "lifecycle_step x x"
| create: "lifecycle_step None (Some \<lparr>lf_status = Planning, lf_version = 1, lf_calls = True, lf_idle = True\<rparr>)"
| note_fact: "lifecycle_step (Some l) (Some (l\<lparr>lf_version := lf_version l + 1, lf_idle := b\<rparr>))"
| advance: "s \<in> next_phase (lf_status l) \<Longrightarrow>
    lifecycle_step (Some l) (Some (l\<lparr>lf_status := s, lf_version := lf_version l + 1\<rparr>))"
| dispatch: "lf_status l \<notin> terminal_statuses \<Longrightarrow> lf_calls l \<Longrightarrow>
    lifecycle_step (Some l)
      (Some (l\<lparr>lf_status := Executing, lf_version := lf_version l + 1, lf_idle := False\<rparr>))"
| halt: "lf_status l \<notin> terminal_statuses \<Longrightarrow> s \<in> {Cancelled, Failed} \<Longrightarrow>
    lifecycle_step (Some l)
      (Some \<lparr>lf_status = s, lf_version = lf_version l + 1, lf_calls = False, lf_idle = True\<rparr>)"

inductive_cases lifecycle_SomeE: "lifecycle_step (Some l) x"

definition abs_state :: "run_state \<Rightarrow> lifecycle" where
  "abs_state s = \<lparr>lf_status = rs_status s, lf_version = rs_version s, lf_calls = rs_new_calls_enabled s,
     lf_idle = (rs_active_dispatches s = [])\<rparr>"

definition abs_run :: "actor_world \<Rightarrow> lifecycle option" where
  "abs_run w = map_option abs_state (actor_state w)"

definition message_ok :: "runtime_message \<Rightarrow> bool" where
  "message_ok m = (case m of
       MWorkflow c \<Rightarrow> (case wc_payload c of
           WfReport v \<Rightarrow> rp_status v \<in> {Completed, PartiallyCompleted}
         | _ \<Rightarrow> True)
     | _ \<Rightarrow> True)"

section \<open>Commits\<close>

named_theorems actor_simps \<open>fields that the helpers of the actor leave alone\<close>

lemma helper_fields [actor_simps]:
  "actor_state (set_error e w) = actor_state w" "actor_id (set_error e w) = actor_id w"
  "aw_store (set_error e w) = aw_store w" "aw_calls (set_error e w) = aw_calls w"
  "actor_state (set_acceptance b w) = actor_state w" "actor_id (set_acceptance b w) = actor_id w"
  "aw_store (set_acceptance b w) = aw_store w" "aw_calls (set_acceptance b w) = aw_calls w"
  "actor_state (log_call c w) = actor_state w" "actor_id (log_call c w) = actor_id w"
  "aw_store (log_call c w) = aw_store w" "aw_calls (log_call c w) = aw_calls w @ [c]"
  "actor_state (respond n x w) = actor_state w" "actor_id (respond n x w) = actor_id w"
  "aw_store (respond n x w) = aw_store w" "aw_calls (respond n x w) = aw_calls w"
  "actor_state (respond_opt r x w) = actor_state w" "actor_id (respond_opt r x w) = actor_id w"
  "aw_store (respond_opt r x w) = aw_store w" "aw_calls (respond_opt r x w) = aw_calls w"
  by (simp_all add: set_error_def set_acceptance_def log_call_def respond_def respond_opt_def upd_actor_def
      split: option.splits)

lemma upd_actor_fields [actor_simps]:
  "actor_state (upd_actor f w) = ac_state (f (aw_actor w))" "actor_id (upd_actor f w) = ac_run_id (f (aw_actor w))"
  "aw_store (upd_actor f w) = aw_store w" "aw_calls (upd_actor f w) = aw_calls w"
  by (simp_all add: upd_actor_def)

lemma fold_respond_fields [actor_simps]:
  "actor_state (fold (\<lambda>r. respond r x) rs w) = actor_state w" "actor_id (fold (\<lambda>r. respond r x) rs w) = actor_id w"
  "aw_store (fold (\<lambda>r. respond r x) rs w) = aw_store w" "aw_calls (fold (\<lambda>r. respond r x) rs w) = aw_calls w"
  by (induction rs arbitrary: w) (simp_all add: actor_simps)

lemma finish_round_fields [actor_simps]:
  "actor_state (finish_execution_round key x w) = actor_state w"
  "actor_id (finish_execution_round key x w) = actor_id w"
  "aw_store (finish_execution_round key x w) = aw_store w" "aw_calls (finish_execution_round key x w) = aw_calls w"
  by (simp_all add: finish_execution_round_def Let_def actor_simps)

lemma actor_commit_cases:
  assumes "actor_commit E w s events = (b, w')"
  obtains (ok) "b" "actor_state w' = Some s" "actor_id w' = actor_id w" "aw_calls w' = aw_calls w"
      "\<exists>es snap. store_commit (en_digests E) (aw_store w) s es None = (Inr snap, aw_store w')"
    | (failed) "\<not> b" "actor_state w' = actor_state w" "actor_id w' = actor_id w" "aw_calls w' = aw_calls w"
      "\<exists>es e. store_commit (en_digests E) (aw_store w) s es None = (Inl e, aw_store w')"
proof -
  define es where "es = (case actor_state w of
            None \<Rightarrow> events
          | Some previous \<Rightarrow>
              if rs_status previous \<noteq> rs_status s then events @ [run_status_changed_event s] else events)"
  obtain r st where c: "store_commit (en_digests E) (aw_store w) s es None = (r, st)" by (rule prod.exhaust)
  show ?thesis
  proof (cases r)
    case (Inl e)
    with assms c have "b = False" "w' = set_error (Some e) (w\<lparr>aw_store := st\<rparr>)"
      by (simp_all add: actor_commit_def Let_def es_def [symmetric])
    with c Inl show ?thesis by (intro failed) (auto simp: actor_simps)
  next
    case (Inr snap)
    with c have "sn_state snap = s"
      by (auto simp: store_commit_def elim: store_write_ok split: if_splits)
    moreover from assms c Inr have "b = True"
        "w' = upd_actor (\<lambda>a. a\<lparr>ac_state := Some (sn_state snap)\<rparr>) (w\<lparr>aw_store := st\<rparr>)"
      by (simp_all add: actor_commit_def Let_def es_def [symmetric])
    ultimately show ?thesis using c Inr by (intro ok) (auto simp: actor_simps)
  qed
qed

lemma actor_commit_state:
  "actor_state (snd (actor_commit E w s events)) \<in> {Some s, actor_state w}"
  by (cases "actor_commit E w s events") (auto elim: actor_commit_cases)

lemma abs_commit:
  assumes "actor_state w = Some p" "lifecycle_step (Some (abs_state p)) (Some (abs_state s))"
  shows "lifecycle_step (abs_run w) (map_option abs_state (actor_state (snd (actor_commit E w s events))))"
  using assms actor_commit_state [of E w s events] by (auto simp: abs_run_def intro: stay)

lemma abs_note:
  assumes "rs_status s = rs_status p" "rs_version s = rs_version p + 1" "rs_new_calls_enabled s = rs_new_calls_enabled p"
  shows "lifecycle_step (Some (abs_state p)) (Some (abs_state s))"
  using note_fact [of "abs_state p" "rs_active_dispatches s = []"] assms by (simp add: abs_state_def)

lemma abs_advance:
  assumes "rs_status s \<in> next_phase (rs_status p)" "rs_version s = rs_version p + 1"
    "rs_new_calls_enabled s = rs_new_calls_enabled p" "rs_active_dispatches s = rs_active_dispatches p"
  shows "lifecycle_step (Some (abs_state p)) (Some (abs_state s))"
  using advance [of "rs_status s" "abs_state p"] assms by (simp add: abs_state_def)

section \<open>The handlers\<close>

lemma abs_run_cong: "actor_state w' = actor_state w \<Longrightarrow> abs_run w' = abs_run w"
  by (simp add: abs_run_def)

lemma abs_run_helpers [actor_simps]:
  "abs_run (set_error e w) = abs_run w" "abs_run (set_acceptance b w) = abs_run w"
  "abs_run (log_call c w) = abs_run w" "abs_run (respond n x w) = abs_run w"
  "abs_run (respond_opt r x w) = abs_run w" "abs_run (finish_execution_round key y w) = abs_run w"
  by (simp_all add: abs_run_def actor_simps)

lemma abs_commit':
  assumes "actor_commit E w s events = (b, w')" "actor_state w = Some p"
    "lifecycle_step (Some (abs_state p)) (Some (abs_state s))"
  shows "lifecycle_step (abs_run w) (abs_run w')"
  using abs_commit [OF assms(2,3), of E events] assms(1) by (simp add: abs_run_def)

lemma abs_commit_snd:
  assumes "actor_state w = Some p" "lifecycle_step (Some (abs_state p)) (Some (abs_state s))"
  shows "lifecycle_step (abs_run w) (abs_run (snd (actor_commit E w s events)))"
  using abs_commit [OF assms] by (simp add: abs_run_def)

lemma receipt_reply_abs: "abs_run (snd (receipt_reply w key missing n)) = abs_run w"
  by (simp add: receipt_reply_def actor_simps split: option.split)

lemma store_create_state: "store_create D st s es ev tr = (Inr snap, st') \<Longrightarrow> sn_state snap = s"
  by (auto simp: store_create_def elim: store_write_ok split: option.splits if_splits)

lemma handle_create_state:
  "actor_state (snd (handle_create E run_id request transaction w)) = actor_state w
   \<or> actor_state w = None
     \<and> actor_state (snd (handle_create E run_id request transaction w)) = Some (run_state_init run_id Planning 1 (Some request))"
proof (cases "run_id = actor_id w \<and> actor_state w = None")
  case True
  let ?s = "run_state_init run_id Planning 1 (Some request)"
  let ?c = "spec ''run.created'' [(''status'', PStr (run_status_value (rs_status ?s))),
      (''receipt_key'', PStr (''run.created:'' @ str_uuid run_id)), (''state_version'', PInt (rs_version ?s))]"
  obtain r st where c: "store_create (en_digests E) (aw_store w) ?s [?c, run_status_changed_event ?s] None transaction = (r, st)"
    by (rule prod.exhaust)
  show ?thesis
  proof (cases r)
    case (Inl e)
    with True c show ?thesis by (simp add: handle_create_def Let_def)
  next
    case (Inr snap)
    with True c store_create_state [OF c [unfolded Inr]] show ?thesis
      by (simp add: handle_create_def Let_def actor_simps split: sum.split)
  qed
next
  case False
  show ?thesis
  proof (cases "actor_state w")
    case None
    with False show ?thesis by (simp add: handle_create_def)
  next
    case (Some s)
    then show ?thesis
      by (cases "run_created_receipt_of (load (aw_store w) (actor_id w)) (actor_id w)")
        (simp_all add: handle_create_def actor_simps)
  qed
qed

lemma create_refines: "lifecycle_step (abs_run w) (abs_run (snd (handle_create E run_id request transaction w)))"
  using handle_create_state [of E run_id request transaction w]
proof (elim disjE conjE)
  assume "actor_state w = None"
    "actor_state (snd (handle_create E run_id request transaction w)) = Some (run_state_init run_id Planning 1 (Some request))"
  then show ?thesis using create by (simp add: abs_run_def abs_state_def run_state_init_def)
qed (simp add: abs_run_def stay)

lemma cancel_refines: "lifecycle_step (abs_run w) (abs_run (snd (handle_cancel E version response w)))"
proof (cases "actor_state w")
  case (Some s)
  let ?next = "s\<lparr>rs_status := Cancelled, rs_cancel_requested := True, rs_new_calls_enabled := False,
      rs_active_dispatches := [], rs_version := rs_version s + 1\<rparr>"
  show ?thesis
  proof (cases "version \<noteq> rs_version s \<or> rs_status s \<in> terminal_statuses")
    case True
    with Some show ?thesis by (auto simp: handle_cancel_def actor_simps intro: stay)
  next
    case False
    then have "lifecycle_step (Some (abs_state s)) (Some (abs_state ?next))"
      using halt [of "abs_state s" Cancelled] by (simp add: abs_state_def)
    moreover obtain b w1 where c: "actor_commit E w ?next [spec ''run.cancelled'' []] = (b, w1)" by (rule prod.exhaust)
    ultimately have "lifecycle_step (abs_run w) (abs_run w1)" using abs_commit' [OF c Some] by blast
    moreover have "abs_run (snd (handle_cancel E version response w)) = abs_run w1"
      using False Some c
      by (cases b; cases "en_cancellation_port E") (simp_all add: handle_cancel_def Let_def abs_run_def actor_simps)
    ultimately show ?thesis by simp
  qed
qed (auto simp: handle_cancel_def actor_simps intro: stay)

lemma segment_stopped_cases:
  obtains (invalid) events where
      "snd (handle_segment_stopped E payload s w) = snd (actor_commit E w (bump s) events)"
    | (valid) g el tf event b w1 where "g \<in> {0, 1, 2}"
      "el \<longrightarrow> rs_new_calls_enabled s \<and> continuation_count (rs_continuation_counts s) g < 3"
      "actor_commit E w
         (s\<lparr>rs_continuation_counts := sort (AList.update g
              (if el then continuation_count (rs_continuation_counts s) g + 1
               else continuation_count (rs_continuation_counts s) g) (py_dict (rs_continuation_counts s))),
            rs_terminal_slice_failures := tf, rs_version := rs_version s + 1\<rparr>) [event] = (b, w1)"
      "snd (handle_segment_stopped E payload s w) = (case en_continuation_port E of
           None \<Rightarrow> w1
         | Some port \<Rightarrow>
             if b \<and> el then set_error (port (actor_id w1) g) (log_call (CallContinuation (actor_id w1) g) w1) else w1)"
proof (cases "payload_generation payload")
  case None
  then show ?thesis by (intro invalid) (simp add: handle_segment_stopped_def)
next
  case (Some g)
  define el where "el = (rs_new_calls_enabled s
      \<and> (data_get payload ''material_progress'' = Some (PBool True)
         \<or> (case data_get payload ''checkpoint_diff'' of None \<Rightarrow> False | Some v \<Rightarrow> truthy v))
      \<and> continuation_count (rs_continuation_counts s) g < 3)"
  define tf where "tf = (if \<not> el \<and> payload_str E payload ''slice_id'' ''unknown'' \<notin> set (rs_terminal_slice_failures s)
      then rs_terminal_slice_failures s @ [payload_str E payload ''slice_id'' ''unknown'']
      else rs_terminal_slice_failures s)"
  define event where "event = (if el
      then spec ''session.continuation_scheduled''
        [(''generation'', PInt g), (''continuation'', PInt (continuation_count (rs_continuation_counts s) g + 1))]
      else spec ''slice.terminal_failed''
        [(''generation'', PInt g), (''reason'', PStr ''INDEPENDENT_SLICE_TERMINAL_FAILURE'')])"
  let ?nxt = "s\<lparr>rs_continuation_counts := sort (AList.update g
      (if el then continuation_count (rs_continuation_counts s) g + 1
       else continuation_count (rs_continuation_counts s) g) (py_dict (rs_continuation_counts s))),
      rs_terminal_slice_failures := tf, rs_version := rs_version s + 1\<rparr>"
  obtain b w1 where c: "actor_commit E w ?nxt [event] = (b, w1)" by (rule prod.exhaust)
  have "handle_segment_stopped E payload s w = (case actor_commit E w ?nxt [event] of (committed, w1) \<Rightarrow>
      (Inr (), case en_continuation_port E of
         None \<Rightarrow> w1
       | Some port \<Rightarrow>
           if committed \<and> el then set_error (port (actor_id w1) g) (log_call (CallContinuation (actor_id w1) g) w1)
           else w1))"
    unfolding handle_segment_stopped_def Some option.case Let_def max_continuations_per_generation_def
      el_def [symmetric] tf_def [symmetric] event_def [symmetric] ..
  moreover have "g \<in> {0, 1, 2}"
    using Some by (auto simp: payload_generation_def split: option.splits pyval.splits if_splits)
  moreover have "el \<longrightarrow> rs_new_calls_enabled s \<and> continuation_count (rs_continuation_counts s) g < 3"
    by (simp add: el_def)
  ultimately show ?thesis using c by (intro valid) auto
qed

lemma session_input_refines: "lifecycle_step (abs_run w) (abs_run (snd (handle_session_input E kind payload w)))"
proof (cases "actor_state w")
  case (Some s)
  have confirm: "lifecycle_step (abs_run w) (abs_run (snd (handle_advice_confirmation E payload s w)))"
    unfolding handle_advice_confirmation_def Let_def
    by (auto intro!: abs_commit_snd [OF Some] abs_note stay)
  have stopped: "lifecycle_step (abs_run w) (abs_run (snd (handle_segment_stopped E payload s w)))"
  proof (cases rule: segment_stopped_cases [of E payload s w])
    case (invalid events)
    then show ?thesis by (simp add: abs_commit_snd [OF Some] abs_note bump_def)
  next
    case (valid g el tf event b w1)
    have "lifecycle_step (abs_run w) (abs_run w1)" by (rule abs_commit' [OF valid(3) Some abs_note]) simp_all
    then show ?thesis by (simp add: valid(4) actor_simps split: option.split)
  qed
  show ?thesis
    using Some confirm stopped
    by (auto simp: handle_session_input_def bump_def intro!: abs_commit_snd [OF Some] abs_note intro: stay)
qed (auto simp: handle_session_input_def intro: stay)

lemma execution_refines: "lifecycle_step (abs_run w) (abs_run (snd (handle_execution E run_id d result started w)))"
proof (cases "actor_state w")
  case (Some s)
  have start: "lifecycle_step (abs_run w) (abs_run (snd (start_dispatch E d s w)))"
    if "rs_status s \<notin> terminal_statuses" "rs_new_calls_enabled s"
  proof -
    have "lifecycle_step (Some (abs_state s)) (Some (abs_state (s\<lparr>rs_status := Executing,
        rs_active_dispatches := rs_active_dispatches s @ [d], rs_version := rs_version s + 1\<rparr>)))"
      using dispatch [of "abs_state s"] that by (simp add: abs_state_def)
    then show ?thesis
      unfolding start_dispatch_def
      by (auto simp: actor_simps intro: stay elim!: abs_commit' [OF _ Some] split: prod.split)
  qed
  have finish: "lifecycle_step (abs_run w) (abs_run (snd (finish_dispatch E d result s w)))"
    unfolding finish_dispatch_def
    by (auto simp: actor_simps intro!: abs_commit_snd [OF Some] abs_note stay split: option.split)
  show ?thesis
    using Some start finish
    by (auto simp: handle_execution_def actor_simps intro!: abs_commit_snd [OF Some] stay)
qed (auto simp: handle_execution_def actor_simps intro: stay)

lemma exhaust_ports_abs:
  "exhaust_ports E s w = (es, w1) \<Longrightarrow> actor_state w1 = actor_state w \<and> actor_id w1 = actor_id w \<and> aw_store w1 = aw_store w"
  unfolding exhaust_ports_def Let_def
  by (auto simp: actor_simps split: option.splits prod.splits)

lemma budget_refines: "lifecycle_step (abs_run w) (abs_run (snd (handle_budget E i out c w)))"
proof (cases "actor_state w")
  case (Some s)
  show ?thesis
  proof (cases "rs_status s \<in> terminal_statuses")
    case True
    with Some show ?thesis by (auto simp: handle_budget_def intro: stay)
  next
    case False
    show ?thesis
    proof (cases "evaluate_budget (rs_budget_usage s) (en_budget_limits E) i out c (rs_budget_warning_emitted s)")
      case (Inl e)
      with Some False show ?thesis by (auto simp: handle_budget_def intro: stay)
    next
      case (Inr ev)
      let ?next = "s\<lparr>rs_budget_usage := be_usage ev,
          rs_budget_warning_emitted := rs_budget_warning_emitted s \<or> be_warning ev, rs_version := rs_version s + 1\<rparr>"
      let ?fail = "?next\<lparr>rs_status := Failed, rs_failure_reason := Some BudgetExhausted,
          rs_new_calls_enabled := False, rs_active_dispatches := []\<rparr>"
      obtain es w1 where x: "exhaust_ports E (?next\<lparr>rs_new_calls_enabled := False\<rparr>) w = (es, w1)"
        by (rule prod.exhaust)
      have w1: "abs_run w1 = abs_run w" "actor_state w1 = Some s"
        using exhaust_ports_abs [OF x] Some by (simp_all add: abs_run_def)
      have "lifecycle_step (Some (abs_state s)) (Some (abs_state ?fail))"
        using halt [of "abs_state s" Failed] False by (simp add: abs_state_def)
      from abs_commit_snd [OF w1(2) this] have
        "lifecycle_step (abs_run w) (abs_run (snd (actor_commit E w1 ?fail events)))" for events
        by (simp add: w1(1))
      moreover have "lifecycle_step (abs_run w) (abs_run (snd (actor_commit E w ?next events)))" for events
        by (intro abs_commit_snd [OF Some] abs_note) simp_all
      ultimately show ?thesis
        using Some False Inr x by (simp add: handle_budget_def Let_def)
    qed
  qed
qed (auto simp: handle_budget_def intro: stay)

lemma recovery_refines: "lifecycle_step (abs_run w) (abs_run (snd (handle_recovery E trigger ds is corrupt drift w)))"
proof (cases "actor_state w")
  case (Some s)
  then show ?thesis
    by (auto simp: handle_recovery_def Let_def intro!: abs_commit_snd [OF Some] abs_note stay split: sum.split)
qed (auto simp: handle_recovery_def intro: stay)

lemma advice_decision_cases:
  assumes "advice_decision E run_id s a = (nxt, event, reason, hash)"
  obtains "nxt = s" | "rs_version nxt = rs_version s + 1" "rs_status nxt = rs_status s"
    "rs_new_calls_enabled nxt = rs_new_calls_enabled s" "rs_active_dispatches nxt = rs_active_dispatches s"
    "rs_continuation_counts nxt = rs_continuation_counts s" "rs_run_id nxt = rs_run_id s"
  using assms
  by (auto simp: advice_decision_def Let_def split: if_splits advice_disposition.splits)

lemma advice_refines: "lifecycle_step (abs_run w) (abs_run (snd (handle_advice E a w)))"
proof (cases "actor_state w")
  case (Some s)
  obtain nxt event reason hash where d: "advice_decision E (actor_id w) s a = (nxt, event, reason, hash)"
    by (metis prod.exhaust)
  then have "lifecycle_step (Some (abs_state s)) (Some (abs_state nxt))"
    by (rule advice_decision_cases) (auto intro: stay abs_note)
  with Some d show ?thesis
    by (auto simp: handle_advice_def actor_simps elim!: abs_commit' [OF _ Some] split: prod.split option.split)
qed (auto simp: handle_advice_def intro: stay)

section \<open>Workflow commands\<close>

lemma refines_commit_reply:
  assumes "actor_state w = Some s" "lifecycle_step (Some (abs_state s)) (Some (abs_state nxt))"
  shows "lifecycle_step (abs_run w) (abs_run (snd (case actor_commit E w nxt events of
       (False, w1) \<Rightarrow> (Inl e, w1) | (True, w1) \<Rightarrow> receipt_reply w1 key missing n)))"
proof -
  obtain b w1 where c: "actor_commit E w nxt events = (b, w1)" by (rule prod.exhaust)
  from abs_commit' [OF c assms] show ?thesis
    by (cases b) (simp_all add: c receipt_reply_abs)
qed

lemma agent_started_refines:
  assumes "actor_state w = Some s"
  shows "lifecycle_step (abs_run w) (abs_run (snd (wf_agent_started E a c s w)))"
proof -
  have "lifecycle_step (Some (abs_state s)) (Some (abs_state (bump s)))" by (rule abs_note) (simp_all add: bump_def)
  note step = refines_commit_reply [OF assms this]
  show ?thesis
    unfolding wf_agent_started_def Let_def
    by (auto simp: stay intro!: step split: option.split sum.split)
qed

lemma verification_refines:
  assumes "actor_state w = Some s"
  shows "lifecycle_step (abs_run w) (abs_run (snd (wf_verification E v c s w)))"
proof (cases "rs_status s = Verifying")
  case True
  then have "lifecycle_step (Some (abs_state s))
      (Some (abs_state (s\<lparr>rs_status := Reporting, rs_version := rs_version s + 1\<rparr>)))"
    by (intro abs_advance) (simp_all add: next_phase_def)
  from refines_commit_reply [OF assms this] True show ?thesis by (simp add: wf_verification_def)
qed (simp add: wf_verification_def stay)

lemma report_refines:
  assumes "actor_state w = Some s" "rp_status v \<in> {Completed, PartiallyCompleted}"
  shows "lifecycle_step (abs_run w) (abs_run (snd (wf_report E v c s w)))"
proof (cases "rs_status s = Reporting")
  case True
  then have "lifecycle_step (Some (abs_state s))
      (Some (abs_state (s\<lparr>rs_status := rp_status v, rs_version := rs_version s + 1\<rparr>)))"
    using assms(2) by (intro abs_advance) (auto simp: next_phase_def)
  from refines_commit_reply [OF assms(1) this] True show ?thesis by (simp add: wf_report_def)
qed (simp add: wf_report_def stay)

lemma set_state_reply_abs:
  "abs_run (snd (receipt_reply (upd_actor (\<lambda>a. a\<lparr>ac_state := x\<rparr>) w) key missing n)) = map_option abs_state x"
  unfolding receipt_reply_abs by (simp add: abs_run_def actor_simps)

lemma agent_terminal_refines:
  assumes "actor_state w = Some s"
  shows "lifecycle_step (abs_run w) (abs_run (snd (wf_agent_terminal E r rc obj c s w)))"
proof -
  have "lifecycle_step (abs_run w) (Some (abs_state (bump s)))"
    using assms abs_note [of "bump s" s] by (simp add: abs_run_def bump_def)
  moreover have "abs_run (w\<lparr>aw_store := st\<rparr>) = abs_run w" for st by (simp add: abs_run_def)
  ultimately show ?thesis
    unfolding wf_agent_terminal_def
    by (simp add: stay set_state_reply_abs split: sum.split prod.split)
qed

lemma accept_plan_refines:
  assumes "actor_state w = Some s"
  shows "lifecycle_step (abs_run w) (abs_run (snd (wf_accept_plan E completion plan c s w)))"
proof (cases "rs_status s = Planning")
  case True
  let ?nxt = "s\<lparr>rs_status := Executing, rs_frozen_plan_sha256 := Some (fp_plan_hash plan), rs_version := rs_version s + 1\<rparr>"
  have "lifecycle_step (abs_run w) (Some (abs_state ?nxt))"
    using assms True abs_advance [of ?nxt s] by (simp add: abs_run_def next_phase_def)
  moreover have "abs_run (w\<lparr>aw_store := st\<rparr>) = abs_run w" for st by (simp add: abs_run_def)
  ultimately show ?thesis
    unfolding wf_accept_plan_def Let_def
    by (simp add: stay set_state_reply_abs split: sum.split prod.split)
qed (simp add: wf_accept_plan_def Let_def stay)

lemma persist_intent_refines: "abs_run (snd (wf_persist_intent i c s w)) = abs_run w"
  by (simp add: wf_persist_intent_def abs_run_def actor_simps split: sum.split prod.split)

lemma schedule_round_refines: "abs_run (snd (wf_schedule_round E c s w)) = abs_run w"
  by (simp add: wf_schedule_round_def Let_def abs_run_def actor_simps)

text \<open>A completion whose receipt event is not in the log yet commits a new receipt.\<close>

lemma no_event_no_replay:
  assumes "event_for_receipt (load st (ii_run_id i)) (completed_key i) = None"
    and "commit_integration_receipt D st s' i oid events = (Inr rc, st')"
  shows "map_of (st_integration_receipts st) (ii_run_id i, ii_idempotency_key i) = None"
proof (rule ccontr)
  assume "map_of (st_integration_receipts st) (ii_run_id i, ii_idempotency_key i) \<noteq> None"
  then obtain x where "replay_integration_receipt st i oid x = Inr rc"
    using assms(2) by (auto simp: commit_integration_receipt_def Let_def)
  then obtain snap e where "load st (ii_run_id i) = Some snap"
      and f: "find (\<lambda>event. re_sequence event = ir_event_sequence x
          \<and> re_event_type event = ''integration.completed'') (sn_events snap) = Some e"
      and "data_get (re_data e) ''receipt_key'' = Some (PStr (completed_key i))"
    by (auto simp: replay_integration_receipt_def split: if_splits option.splits)
  moreover from f have "e \<in> set (sn_events snap)" by (auto simp: find_Some_iff)
  ultimately show False using assms(1)
    by (auto simp: event_for_receipt_def find_None_iff)
qed

lemma integration_commit_state:
  assumes "event_for_receipt (load st (ii_run_id i)) (completed_key i) = None"
    and "commit_integration_receipt D st s' i oid events = (Inr rc, st')"
  shows "map_option sn_state (load st' (ii_run_id i)) = Some s'"
proof -
  obtain ms where "st_snapshots st' = AList.update (ii_run_id i)
       \<lparr>sn_state = s', sn_events = events_of st (ii_run_id i) @ ms\<rparr> (st_snapshots st)"
    by (metis commit_integration_fresh [OF assms(2) no_event_no_replay [OF assms]])
  then show ?thesis by (simp add: load_update)
qed

lemma integration_refines:
  assumes "actor_state w = Some s"
    and "event_for_receipt (load (aw_store w) (actor_id w)) (wc_logical_key c) = None"
  shows "lifecycle_step (abs_run w) (abs_run (snd (wf_integration_completed E i oid c s w)))"
proof (cases "ii_run_id i = actor_id w \<and> wc_logical_key c = completed_key i")
  case True
  obtain r st where c: "commit_integration_receipt (en_digests E) (aw_store w) (bump s) i oid
      (integration_events (wc_logical_key c) i oid) = (r, st)" by (rule prod.exhaust)
  have keep: "abs_run (w\<lparr>aw_store := st\<rparr>) = abs_run w" by (simp add: abs_run_def)
  have a: "lifecycle_step (abs_run w) (Some (abs_state (bump s)))"
    using assms(1) abs_note [of "bump s" s] by (simp add: abs_run_def bump_def)
  have b: "map_option abs_state (map_option sn_state (load st (actor_id w))) = Some (abs_state (bump s))"
    if "r = Inr rc" for rc
    using integration_commit_state [OF _ c [unfolded that]] assms(2) True by auto
  have "lifecycle_step (abs_run w) (map_option abs_state (map_option sn_state (load st (actor_id w))))"
    if "r = Inr rc" for rc
    by (simp only: a b [OF that])
  then show ?thesis
    unfolding wf_integration_completed_def c
    by (cases r) (simp_all add: stay keep set_state_reply_abs Let_def)
qed (simp add: wf_integration_completed_def stay)

lemma workflow_refines:
  assumes "message_ok (MWorkflow c)"
  shows "lifecycle_step (abs_run w) (abs_run (snd (handle_workflow E c w)))"
proof (cases "wc_run_id c = actor_id w")
  case True
  show ?thesis
  proof (cases "event_for_receipt (load (aw_store w) (actor_id w)) (wc_logical_key c)")
    case (Some e)
    have "abs_run (snd (replay_workflow c e w)) = abs_run w"
      unfolding replay_workflow_def Let_def
      by (auto simp: actor_simps split: sum.split)
    with True Some show ?thesis by (simp add: handle_workflow_def Let_def stay)
  next
    case None
    have "lifecycle_step (abs_run w) (abs_run (snd (dispatch_workflow E c s w)))" if "actor_state w = Some s" for s
      using that assms None
      by (cases "wc_payload c")
        (simp_all add: dispatch_workflow_def message_ok_def accept_plan_refines schedule_round_refines stay
          agent_started_refines agent_terminal_refines persist_intent_refines integration_refines
          verification_refines report_refines)
    with True None show ?thesis
      by (auto simp: handle_workflow_def Let_def stay split: option.split)
  qed
qed (simp add: handle_workflow_def stay)

definition round_state :: "run_state \<Rightarrow> execution_round_decision \<Rightarrow> candidate_checkpoint_fact list \<Rightarrow> run_state" where
  "round_state s d facts =
     s\<lparr>rs_status := (if xd_complete d then Verifying else Executing),
       rs_candidate_checkpoints := facts, rs_version := rs_version s + 1\<rparr>"

lemma commit_round_cases:
  assumes "commit_execution_round E key s d w = (x, w1)"
  obtains (unchanged) "w1 = w" "\<exists>e. x = RRaised e"
    | (committed) facts es events b where "rs_status s = Executing"
      "merge_claims E w (xd_candidate_claims d) (rs_candidate_checkpoints s) = Inr (facts, es)"
      "actor_commit E w (round_state s d facts) events = (b, w1)"
  using assms unfolding commit_execution_round_def Let_def round_state_def [symmetric]
  by (simp split: if_split_asm sum.split_asm prod.split_asm bool.split_asm option.split_asm) blast+

lemma round_refines: "lifecycle_step (abs_run w) (abs_run (snd (handle_round_finished E key decision error w)))"
proof -
  have "lifecycle_step (abs_run w) (abs_run w1)"
    if s: "actor_state w = Some s" and r: "commit_execution_round E key s d w = (x, w1)" for s d x w1
    using r
  proof (cases rule: commit_round_cases)
    case unchanged
    then show ?thesis by (simp add: stay)
  next
    case (committed facts es events b)
    have "lifecycle_step (Some (abs_state s)) (Some (abs_state (round_state s d facts)))"
    proof (cases "xd_complete d")
      case True
      with committed(1) show ?thesis by (intro abs_advance) (simp_all add: round_state_def next_phase_def)
    next
      case False
      with committed(1) show ?thesis by (intro abs_note) (simp_all add: round_state_def)
    qed
    then show ?thesis by (rule abs_commit' [OF committed(3) s])
  qed
  then show ?thesis
    by (auto simp: handle_round_finished_def actor_simps stay split: option.split prod.split)
qed

lemma message_refines:
  assumes "message_ok m"
  shows "lifecycle_step (abs_run w) (abs_run (run_message E m w))"
proof -
  have "lifecycle_step (abs_run w) (abs_run (snd (handle_message E m w)))"
    using assms
    by (cases m) (simp_all add: handle_message_def create_refines cancel_refines session_input_refines
        execution_refines budget_refines recovery_refines advice_refines workflow_refines round_refines)
  moreover have "abs_run (run_message E m w) = abs_run (snd (handle_message E m w))"
    by (auto simp: run_message_def Let_def actor_simps split: prod.split sum.split runtime_message.split)
  ultimately show ?thesis by simp
qed

section \<open>Refinement\<close>

lemma run_messages_simps [simp]:
  "run_messages E [] w = w" "run_messages E (m # ms) w = run_messages E ms (run_message E m w)"
  by (simp_all add: run_messages_def)

text \<open>A terminal status is final, and the version never decreases.\<close>

lemma lifecycle_terminal:
  assumes "lifecycle_step\<^sup>*\<^sup>* (Some l) x" "lf_status l \<in> terminal_statuses"
  shows "\<exists>l'. x = Some l' \<and> lf_status l' = lf_status l \<and> lf_calls l' = lf_calls l \<and> lf_version l \<le> lf_version l'"
  using assms(1)
proof (induction rule: rtranclp_induct)
  case (step y z)
  then obtain m where m: "y = Some m" "lf_status m = lf_status l" "lf_calls m = lf_calls l" "lf_version l \<le> lf_version m"
    by auto
  have "next_phase (lf_status m) = {}"
    using m(2) assms(2) by (auto simp: terminal_statuses_def next_phase_def)
  with step.hyps(2) m assms(2) show ?case
    by (auto elim!: lifecycle_SomeE)
qed auto

lemma abs_run_Some: "abs_run w = Some l \<longleftrightarrow> (\<exists>s. actor_state w = Some s \<and> l = abs_state s)"
  by (auto simp: abs_run_def)

end
