(* ===== verification/Actor_Frame.thy ===== *)
theory Actor_Frame
  imports Actor_Lifecycle
begin

text \<open>
  What one message of the run actor (\<open>runtime/actor.py\<close>) can change besides the status: the identity
  and the continuation counters stay, active dispatches only grow while the run is live and calls are
  enabled, and the ports are only called while the run is live, except for the repair port.
\<close>

section \<open>Frames\<close>

definition keeps :: "run_state \<Rightarrow> run_state \<Rightarrow> bool" where
  "keeps s s' \<longleftrightarrow>
     rs_run_id s' = rs_run_id s \<and> rs_continuation_counts s' = rs_continuation_counts s
     \<and> (set (rs_active_dispatches s') \<subseteq> set (rs_active_dispatches s)
        \<or> rs_new_calls_enabled s \<and> rs_status s \<notin> terminal_statuses)"

definition call_allowed :: "run_state \<Rightarrow> port_call \<Rightarrow> bool" where
  "call_allowed s c = (case c of
       CallRepair _ \<Rightarrow> True
     | CallContinuation _ _ \<Rightarrow> False
     | _ \<Rightarrow> rs_status s \<notin> terminal_statuses)"

definition framed :: "actor_world \<Rightarrow> actor_world \<Rightarrow> bool" where
  "framed w w' \<longleftrightarrow> actor_id w' = actor_id w
     \<and> (\<exists>xs. aw_calls w' = aw_calls w @ xs
         \<and> (case actor_state w of
              None \<Rightarrow> xs = [] \<and> (actor_state w' = None
                \<or> (\<exists>r. actor_state w' = Some (run_state_init (actor_id w) Planning 1 (Some r))))
            | Some s \<Rightarrow> list_all (call_allowed s) xs \<and> (\<exists>s'. actor_state w' = Some s' \<and> keeps s s')))"

lemma keeps_refl [simp]: "keeps s s"
  by (simp add: keeps_def)

lemma framed_refl [simp]: "framed w w"
  by (auto simp: framed_def split: option.split)

lemma framed_cong:
  assumes "actor_state w1 = actor_state w2" "actor_id w1 = actor_id w2" "aw_calls w1 = aw_calls w2"
  shows "framed w w1 \<longleftrightarrow> framed w w2"
  unfolding framed_def assms ..

lemma framed_helpers [simp]:
  "framed w (set_error e w') = framed w w'" "framed w (set_acceptance b w') = framed w w'"
  "framed w (respond n x w') = framed w w'" "framed w (respond_opt r x w') = framed w w'"
  "framed w (finish_execution_round key x w') = framed w w'"
  "framed w (w'\<lparr>aw_coordinator := co\<rparr>) = framed w w'" "framed w (w'\<lparr>aw_store := st\<rparr>) = framed w w'"
  "framed w (upd_actor (\<lambda>a. a\<lparr>ac_create_receipt := cr\<rparr>) w') = framed w w'"
  by (rule framed_cong; simp add: actor_simps)+

lemma framed_log:
  assumes "framed w w'" "actor_state w = Some s" "call_allowed s c"
  shows "framed w (log_call c w')"
  using assms by (auto simp: framed_def actor_simps)

lemma framed_commit:
  assumes "actor_commit E w s' es = (b, w1)" "actor_state w = Some s" "keeps s s'"
  shows "framed w w1"
  using assms(1) by (cases rule: actor_commit_cases) (use assms(2,3) in \<open>auto simp: framed_def\<close>)

lemma framed_commit_snd:
  assumes "actor_state w = Some s" "keeps s s'"
  shows "framed w (snd (actor_commit E w s' es))"
  by (rule framed_commit [OF _ assms, of E es "fst (actor_commit E w s' es)"]) simp

lemma framed_state:
  assumes "actor_state w = Some s" "keeps s s'"
  shows "framed w (upd_actor (\<lambda>a. a\<lparr>ac_state := Some s'\<rparr>) w)"
  using assms by (simp add: framed_def actor_simps)

lemma framed_reply [simp]: "framed w (snd (receipt_reply w' key missing n)) = framed w w'"
  by (simp add: receipt_reply_def split: option.split)

lemma keepsI:
  assumes "rs_run_id s' = rs_run_id s" "rs_continuation_counts s' = rs_continuation_counts s"
    "set (rs_active_dispatches s') \<subseteq> set (rs_active_dispatches s)"
  shows "keeps s s'"
  using assms by (simp add: keeps_def)

section \<open>The handlers\<close>

lemma create_framed: "framed w (snd (handle_create E run_id request transaction w))"
proof -
  have "actor_id (snd (handle_create E run_id request transaction w)) = actor_id w
    \<and> aw_calls (snd (handle_create E run_id request transaction w)) = aw_calls w"
    by (simp add: handle_create_def Let_def actor_simps split: option.split sum.split prod.split)
  moreover have "run_id \<noteq> actor_id w \<Longrightarrow> snd (handle_create E run_id request transaction w) = w"
    by (simp add: handle_create_def)
  ultimately show ?thesis
    using handle_create_state [of E run_id request transaction w]
    by (cases "run_id = actor_id w"; cases "actor_state w") (auto simp: framed_def)
qed

lemma cancel_framed: "framed w (snd (handle_cancel E version response w))"
proof (cases "actor_state w")
  case (Some s)
  let ?next = "s\<lparr>rs_status := Cancelled, rs_cancel_requested := True, rs_new_calls_enabled := False,
      rs_active_dispatches := [], rs_version := rs_version s + 1\<rparr>"
  obtain b w1 where c: "actor_commit E w ?next [spec ''run.cancelled'' []] = (b, w1)" by (rule prod.exhaust)
  have f: "framed w w1" by (rule framed_commit [OF c Some]) (simp add: keepsI)
  have "framed w (log_call (CallCancel i) (w1\<lparr>aw_coordinator := co\<rparr>))" if "rs_status s \<notin> terminal_statuses" for i co
    by (rule framed_log [OF _ Some]) (use f that in \<open>simp_all add: call_allowed_def\<close>)
  then show ?thesis
    using Some c f
    by (cases b; cases "en_cancellation_port E") (simp_all add: handle_cancel_def Let_def)
qed (simp add: handle_cancel_def)

lemma confirmation_framed:
  assumes "actor_state w = Some s"
  shows "framed w (snd (handle_advice_confirmation E payload s w))"
  unfolding handle_advice_confirmation_def Let_def
  by (simp add: framed_commit_snd [OF assms] keepsI)

lemma other_input_framed:
  assumes "kind \<noteq> ''segment_stopped''"
  shows "framed w (snd (handle_session_input E kind payload w))"
  using assms
  by (cases "actor_state w")
    (simp_all add: handle_session_input_def confirmation_framed framed_commit_snd keepsI bump_def)

lemma execution_framed: "framed w (snd (handle_execution E run_id d result started w))"
proof (cases "actor_state w")
  case (Some s)
  have "framed w (snd (start_dispatch E d s w))" if "rs_status s \<notin> terminal_statuses" "rs_new_calls_enabled s"
  proof -
    let ?n = "s\<lparr>rs_status := Executing, rs_active_dispatches := rs_active_dispatches s @ [d], rs_version := rs_version s + 1\<rparr>"
    have "keeps s ?n" using that by (simp add: keeps_def)
    from framed_commit [OF _ Some this, of E] show ?thesis
      by (simp add: start_dispatch_def split: prod.split)
  qed
  moreover have "framed w (snd (finish_dispatch E d result s w))"
    unfolding finish_dispatch_def
    by (auto intro!: framed_commit_snd [OF Some] keepsI split: option.split)
  ultimately show ?thesis
    using Some by (simp add: handle_execution_def framed_commit_snd)
qed (simp add: handle_execution_def)

lemma exhaust_framed:
  assumes "exhaust_ports E s' w = (es, w1)" "actor_state w = Some s" "rs_status s \<notin> terminal_statuses"
  shows "framed w w1"
proof -
  have "\<exists>xs. aw_calls w1 = aw_calls w @ xs \<and> list_all (call_allowed s) xs"
    using assms(1,3) unfolding exhaust_ports_def Let_def
    by (auto simp: actor_simps call_allowed_def split: option.splits prod.splits)
  with exhaust_ports_abs [OF assms(1)] assms(2) show ?thesis by (auto simp: framed_def)
qed

lemma framed_commit_after:
  assumes "framed w w1" "actor_state w1 = Some s" "actor_state w = Some s" "keeps s s'"
  shows "framed w (snd (actor_commit E w1 s' es))"
proof -
  obtain b w2 where c: "actor_commit E w1 s' es = (b, w2)" by (rule prod.exhaust)
  from c show ?thesis
    by (cases rule: actor_commit_cases) (use c assms in \<open>auto simp: framed_def\<close>)
qed

lemma budget_framed: "framed w (snd (handle_budget E i out c w))"
proof (cases "actor_state w")
  case (Some s)
  show ?thesis
  proof (cases "rs_status s \<in> terminal_statuses")
    case False
    show ?thesis
    proof (cases "evaluate_budget (rs_budget_usage s) (en_budget_limits E) i out c (rs_budget_warning_emitted s)")
      case (Inr ev)
      let ?next = "s\<lparr>rs_budget_usage := be_usage ev,
          rs_budget_warning_emitted := rs_budget_warning_emitted s \<or> be_warning ev, rs_version := rs_version s + 1\<rparr>"
      let ?fail = "?next\<lparr>rs_status := Failed, rs_failure_reason := Some BudgetExhausted,
          rs_new_calls_enabled := False, rs_active_dispatches := []\<rparr>"
      obtain es w1 where x: "exhaust_ports E (?next\<lparr>rs_new_calls_enabled := False\<rparr>) w = (es, w1)"
        by (rule prod.exhaust)
      have "framed w (snd (actor_commit E w1 ?fail events))" for events
        by (rule framed_commit_after [OF exhaust_framed [OF x Some False]])
          (use exhaust_ports_abs [OF x] Some in \<open>simp_all add: keeps_def\<close>)
      moreover have "framed w (snd (actor_commit E w ?next events))" for events
        by (rule framed_commit_snd [OF Some]) (simp add: keepsI)
      ultimately show ?thesis
        using Some False Inr x by (simp add: handle_budget_def Let_def)
    qed (use Some False in \<open>simp add: handle_budget_def\<close>)
  qed (use Some in \<open>simp add: handle_budget_def\<close>)
qed (simp add: handle_budget_def)

lemma recovery_framed: "framed w (snd (handle_recovery E trigger ds is corrupt drift w))"
  by (cases "actor_state w")
    (auto simp: handle_recovery_def Let_def intro!: framed_commit_snd keepsI split: sum.split)

lemma advice_framed: "framed w (snd (handle_advice E a w))"
proof (cases "actor_state w")
  case (Some s)
  obtain nxt event reason hash where d: "advice_decision E (actor_id w) s a = (nxt, event, reason, hash)"
    by (metis prod.exhaust)
  then have k: "keeps s nxt" by (rule advice_decision_cases) (auto intro: keepsI)
  obtain b w1 where c: "actor_commit E w nxt
      [spec event [(''reason'', PStr reason), (''proposal_hash'', PStr hash)]] = (b, w1)" by (rule prod.exhaust)
  have f: "framed w w1" by (rule framed_commit [OF c Some k])
  have "framed w (log_call (CallRepair a) w1)"
    by (rule framed_log [OF f Some]) (simp add: call_allowed_def)
  with Some d c f show ?thesis
    by (simp add: handle_advice_def split: option.split)
qed (simp add: handle_advice_def)

lemma commit_reply_framed:
  assumes "actor_state w = Some s" "keeps s nxt"
  shows "framed w (snd (case actor_commit E w nxt events of
       (False, w1) \<Rightarrow> (Inl e, w1) | (True, w1) \<Rightarrow> receipt_reply w1 key missing n))"
  using framed_commit_snd [OF assms, of E events]
  by (cases "actor_commit E w nxt events"; cases "fst (actor_commit E w nxt events)") auto

lemma keeps_bump: "keeps s (bump s)"
  by (simp add: keepsI bump_def)

lemma set_state_framed:
  assumes "actor_state w = Some s" "keeps s s'"
  shows "framed w (upd_actor (\<lambda>a. a\<lparr>ac_state := Some s'\<rparr>) (w\<lparr>aw_store := st\<rparr>))"
  using assms by (simp add: framed_def actor_simps)

lemma dispatch_workflow_framed:
  assumes s: "actor_state w = Some s"
    and none: "event_for_receipt (load (aw_store w) (actor_id w)) (wc_logical_key c) = None"
  shows "framed w (snd (dispatch_workflow E c s w))"
proof (cases "wc_payload c")
  case (WfAcceptPlan completion plan)
  let ?nxt = "s\<lparr>rs_status := Executing, rs_frozen_plan_sha256 := Some (fp_plan_hash plan), rs_version := rs_version s + 1\<rparr>"
  have "keeps s ?nxt" by (simp add: keepsI)
  with WfAcceptPlan show ?thesis
    unfolding dispatch_workflow_def wf_accept_plan_def Let_def
    by (simp add: set_state_framed [OF s] split: sum.split prod.split)
next
  case WfExecuteRound
  show ?thesis
  proof (cases "rs_status s = Executing")
    case True
    then have "call_allowed s (CallScheduler k)" for k by (simp add: call_allowed_def terminal_statuses_def)
    then show ?thesis
      unfolding dispatch_workflow_def WfExecuteRound wf_schedule_round_def Let_def
      by (auto simp: framed_def actor_simps s)
  qed (simp add: dispatch_workflow_def WfExecuteRound wf_schedule_round_def)
next
  case (WfAgentStarted a)
  then show ?thesis
    unfolding dispatch_workflow_def wf_agent_started_def Let_def
    by (auto intro!: commit_reply_framed [OF s keeps_bump] split: option.split sum.split)
next
  case (WfAgentTerminal r rc obj)
  then show ?thesis
    unfolding dispatch_workflow_def wf_agent_terminal_def
    by (simp add: set_state_framed [OF s keeps_bump] split: sum.split prod.split)
next
  case (WfIntegrationIntent i)
  then show ?thesis
    by (simp add: dispatch_workflow_def wf_persist_intent_def split: sum.split prod.split)
next
  case (WfIntegrationCompleted i oid)
  show ?thesis
  proof (cases "ii_run_id i = actor_id w \<and> wc_logical_key c = completed_key i")
    case True
    obtain r st where c: "commit_integration_receipt (en_digests E) (aw_store w) (bump s) i oid
        (integration_events (wc_logical_key c) i oid) = (r, st)" by (rule prod.exhaust)
    have b: "map_option sn_state (load st (actor_id w)) = Some (bump s)" if "r = Inr rc" for rc
      using integration_commit_state [OF _ c [unfolded that]] none True by auto
    have "framed w (upd_actor (\<lambda>a. a\<lparr>ac_state := map_option sn_state (load st (actor_id w))\<rparr>) (w\<lparr>aw_store := st\<rparr>))"
      if "r = Inr rc" for rc
      unfolding b [OF that] by (rule set_state_framed [OF s keeps_bump])
    then show ?thesis
      unfolding dispatch_workflow_def WfIntegrationCompleted workflow_payload.case wf_integration_completed_def c
      by (cases r) (simp_all add: Let_def)
  qed (simp add: dispatch_workflow_def WfIntegrationCompleted wf_integration_completed_def)
next
  case (WfVerification v)
  have "keeps s (s\<lparr>rs_status := Reporting, rs_version := rs_version s + 1\<rparr>)" by (simp add: keepsI)
  with WfVerification show ?thesis
    by (simp add: dispatch_workflow_def wf_verification_def commit_reply_framed [OF s])
next
  case (WfReport v)
  have "keeps s (s\<lparr>rs_status := rp_status v, rs_version := rs_version s + 1\<rparr>)" by (simp add: keepsI)
  with WfReport show ?thesis
    by (simp add: dispatch_workflow_def wf_report_def commit_reply_framed [OF s])
qed

lemma workflow_framed: "framed w (snd (handle_workflow E c w))"
proof -
  have "framed w (snd (replay_workflow c e w))" for e
    unfolding replay_workflow_def Let_def by (auto split: sum.split)
  then show ?thesis
    by (auto simp: handle_workflow_def Let_def intro: dispatch_workflow_framed split: option.split)
qed

lemma round_framed: "framed w (snd (handle_round_finished E key decision error w))"
proof -
  have "framed w w1" if s: "actor_state w = Some s" and r: "commit_execution_round E key s d w = (x, w1)" for s d x w1
    using r
  proof (cases rule: commit_round_cases)
    case (committed facts es events b)
    show ?thesis by (rule framed_commit [OF committed(3) s]) (simp add: keepsI round_state_def)
  qed simp
  then show ?thesis
    by (auto simp: handle_round_finished_def split: option.split prod.split)
qed

definition is_segment_stop :: "runtime_message \<Rightarrow> bool" where
  "is_segment_stop m = (case m of MSessionInput kind _ \<Rightarrow> kind = ''segment_stopped'' | _ \<Rightarrow> False)"

lemma run_message_handled:
  "framed w (snd (handle_message E m w)) \<Longrightarrow> framed w (run_message E m w)"
  "actor_state (run_message E m w) = actor_state (snd (handle_message E m w))"
  "aw_calls (run_message E m w) = aw_calls (snd (handle_message E m w))"
  "actor_id (run_message E m w) = actor_id (snd (handle_message E m w))"
  by (auto simp: run_message_def Let_def actor_simps split: prod.split sum.split runtime_message.split)

lemma message_framed:
  assumes "\<not> is_segment_stop m"
  shows "framed w (run_message E m w)"
  by (rule run_message_handled(1))
    (use assms in \<open>cases m; simp add: handle_message_def is_segment_stop_def create_framed cancel_framed other_input_framed
      execution_framed budget_framed recovery_framed advice_framed workflow_framed round_framed\<close>)

end
