(* ===== verification/Actor_Replay.thy ===== *)
theory Actor_Replay
  imports Actor_Frame
begin

text \<open>
  What the messages of the run actor (\<open>runtime/actor.py\<close>) can add to the facts that a recorded receipt
  rests on. The event log of the run only grows, agent runs that have a receipt, CAS references,
  integration intents and integration receipts stay as they are, and a message records an event under a
  receipt key that is already taken only in the few cases that \<open>records_again\<close> names.
\<close>

section \<open>Growth of the store\<close>

definition carries :: "string \<Rightarrow> event_data \<Rightarrow> bool" where
  "carries key d \<longleftrightarrow> data_get d ''receipt_key'' = Some (PStr key)"

definition agent_runs_indexed :: "runtime_store \<Rightarrow> bool" where
  "agent_runs_indexed st \<longleftrightarrow> list_all (\<lambda>(i, r). ag_agent_run_id r = i) (st_agent_runs st)"

definition store_grows :: "uuid \<Rightarrow> string \<Rightarrow> runtime_store \<Rightarrow> runtime_store \<Rightarrow> bool" where
  "store_grows run key st st' \<longleftrightarrow>
     (\<exists>es. events_of st' run = events_of st run @ es \<and> list_all (\<lambda>e. \<not> carries key (re_data e)) es)
     \<and> (\<forall>i rc. load_agent_run_receipt st i = Some rc \<longrightarrow>
          load_agent_run_receipt st' i = Some rc \<and> load_agent_run st' i = load_agent_run st i)
     \<and> map_of (st_cas_refs st) \<subseteq>\<^sub>m map_of (st_cas_refs st')
     \<and> map_of (st_integration_intents st) \<subseteq>\<^sub>m map_of (st_integration_intents st')
     \<and> map_of (st_integration_receipts st) \<subseteq>\<^sub>m map_of (st_integration_receipts st')
     \<and> (agent_runs_indexed st \<longrightarrow> agent_runs_indexed st')"

lemma store_grows_refl [simp]: "store_grows run key st st"
  by (simp add: store_grows_def)

lemma store_grows_trans:
  assumes "store_grows run key a b" "store_grows run key b c"
  shows "store_grows run key a c"
  using assms unfolding store_grows_def
  by (elim conjE exE) (intro conjI, auto intro: map_le_trans)

lemma store_grows_fail [simp]: "store_grows run key st (st\<lparr>st_fail_next := b\<rparr>)"
  by (simp add: store_grows_def events_of_def load_def load_agent_run_receipt_def load_agent_run_def agent_runs_indexed_def)

lemma indexed_load: "agent_runs_indexed st \<Longrightarrow> load_agent_run st i = Some r \<Longrightarrow> ag_agent_run_id r = i"
  by (auto simp: agent_runs_indexed_def load_agent_run_def list_all_iff dest!: map_of_SomeD)

lemma indexed_update:
  assumes "agent_runs_indexed st" "st_agent_runs st' = AList.update (ag_agent_run_id r) r (st_agent_runs st)"
  shows "agent_runs_indexed st'"
proof -
  have "list_all (\<lambda>(i, r). ag_agent_run_id r = i) (AList.update (ag_agent_run_id r) r xs)"
    if "list_all (\<lambda>(i, r). ag_agent_run_id r = i) xs" for xs
    using that by (induction xs) auto
  with assms show ?thesis by (simp add: agent_runs_indexed_def)
qed

lemma materialized_silent:
  assumes "materialize D registry n events = Inr ms" "list_all (\<lambda>e. \<not> carries key (es_data e)) events"
  shows "list_all (\<lambda>e. \<not> carries key (re_data e)) ms"
proof -
  have "list_all (\<lambda>d. \<not> carries key d) (map re_data ms)"
    using assms(2) by (simp add: materialize_ok(3) [OF assms(1)] list.pred_map comp_def)
  then show ?thesis by (simp add: list.pred_map comp_def)
qed

lemma log_update_grows:
  assumes "st_snapshots st' = AList.update owner \<lparr>sn_state = s, sn_events = events_of st owner @ ms\<rparr> (st_snapshots st)"
    and "list_all (\<lambda>e. \<not> carries key (re_data e)) ms"
  shows "\<exists>es. events_of st' run = events_of st run @ es \<and> list_all (\<lambda>e. \<not> carries key (re_data e)) es"
proof (cases "run = owner")
  case True
  then have "events_of st' run = events_of st run @ ms" by (simp add: events_of_def [of st'] load_update [OF assms(1)])
  with assms(2) show ?thesis by blast
qed (simp add: events_of_def load_update [OF assms(1)])

lemma write_grows:
  assumes "store_write D st s events evolution = (x, st')" "list_all (\<lambda>e. \<not> carries key (es_data e)) events"
  shows "store_grows run key st st'"
proof (cases x)
  case (Inl e)
  with assms(1) store_write_error show ?thesis by fastforce
next
  case (Inr snap)
  have "st_cas_refs st' = st_cas_refs st"
    using assms(1) by (auto simp: store_write_def injected_failure_def Let_def split: if_splits sum.splits)
  moreover obtain ms where m: "materialize D (st_registry st) (length (events_of st (rs_run_id s)) + 1) events = Inr ms"
      and u: "snap = \<lparr>sn_state = s, sn_events = events_of st (rs_run_id s) @ ms\<rparr>"
        "st_snapshots st' = AList.update (rs_run_id s) snap (st_snapshots st)"
        "st_agent_runs st' = st_agent_runs st" "st_agent_receipts st' = st_agent_receipts st"
        "st_integration_intents st' = st_integration_intents st"
        "st_integration_receipts st' = st_integration_receipts st"
    by (rule store_write_ok [OF assms(1) [unfolded Inr]])
  ultimately show ?thesis
    unfolding store_grows_def using log_update_grows [OF u(2) [unfolded u(1)] materialized_silent [OF m assms(2)]]
    by (simp add: load_agent_run_receipt_def load_agent_run_def agent_runs_indexed_def)
qed

lemma store_commit_grows:
  "store_commit D st s events evolution = (x, st') \<Longrightarrow> list_all (\<lambda>e. \<not> carries key (es_data e)) events
    \<Longrightarrow> store_grows run key st st'"
  by (auto simp: store_commit_def intro: write_grows split: if_splits)

lemma store_create_grows:
  "store_create D st s events evolution transaction = (x, st') \<Longrightarrow> list_all (\<lambda>e. \<not> carries key (es_data e)) events
    \<Longrightarrow> store_grows run key st st'"
  by (auto simp: store_create_def intro: write_grows split: if_splits option.splits)

lemma references_keep:
  assumes "check_references refs r xs = Inr u"
  shows "map_of refs \<subseteq>\<^sub>m map_of (fold (\<lambda>(key, obj). AList.update (ag_owner_kind r, ag_owner_id r, key) obj) xs refs)"
proof -
  have ok: "\<forall>(key, obj) \<in> set xs. map_of refs (ag_owner_kind r, ag_owner_id r, key) \<in> {None, Some obj}"
    using assms by (induction xs) (auto simp: Let_def split: if_splits)
  have "map_of refs \<subseteq>\<^sub>m map_of (fold (\<lambda>(key, obj). AList.update (ag_owner_kind r, ag_owner_id r, key) obj) xs acc)"
    if "map_of refs \<subseteq>\<^sub>m map_of acc" for acc
    using ok that
  proof (induction xs arbitrary: acc)
    case (Cons x xs)
    obtain key obj where x: "x = (key, obj)" by (rule prod.exhaust)
    have "map_of refs \<subseteq>\<^sub>m map_of (AList.update (ag_owner_kind r, ag_owner_id r, key) obj acc)"
      using Cons.prems x by (auto simp: map_le_def update_conv' dom_def)
    with Cons x show ?case by simp
  qed simp
  then show ?thesis by simp
qed

lemma receipt_grows:
  assumes c: "commit_agent_run_receipt D st r receipt state events refs = (x, st')"
    and silent: "list_all (\<lambda>e. \<not> carries key (es_data e)) events"
  shows "store_grows run key st st'"
proof (cases "map_of (st_agent_receipts st) (ag_agent_run_id r)")
  case (Some old)
  with commit_receipt_replay [OF c] show ?thesis by simp
next
  case None
  show ?thesis
  proof (cases x)
    case (Inl e)
    with c None show ?thesis
      by (auto simp: commit_agent_run_receipt_def injected_failure_def split: if_splits sum.splits)
  next
    case (Inr rc)
    note c = c [unfolded Inr]
    from commit_receipt_fresh [OF c None] obtain snap where
        snap: "receipt_snapshot D st state events = Inr snap"
      and v: "validate_agent_receipt (map_of (st_agent_runs st) (ag_agent_run_id r)) r receipt state events refs = Inr ()"
      and u: "st_snapshots st' = (case snap of None \<Rightarrow> st_snapshots st
           | Some s \<Rightarrow> AList.update (ag_owner_id r) s (st_snapshots st))"
        "st_agent_runs st' = AList.update (ag_agent_run_id r) r (st_agent_runs st)"
        "st_agent_receipts st' = AList.update (ag_agent_run_id r) receipt (st_agent_receipts st)"
        "st_integration_intents st' = st_integration_intents st"
        "st_integration_receipts st' = st_integration_receipts st"
      by metis
    have "map_of (st_cas_refs st) \<subseteq>\<^sub>m map_of (st_cas_refs st')"
      using c None references_keep [of "st_cas_refs st" r refs]
      by (auto simp: commit_agent_run_receipt_def injected_failure_def split: if_splits sum.splits)
    moreover have "\<exists>es. events_of st' run = events_of st run @ es \<and> list_all (\<lambda>e. \<not> carries key (re_data e)) es"
    proof (cases snap)
      case (Some sn)
      with snap obtain s ms where s: "state = Some s"
          "sn = \<lparr>sn_state = s, sn_events = events_of st (rs_run_id s) @ ms\<rparr>"
          "materialize D (st_registry st) (length (events_of st (rs_run_id s)) + 1) events = Inr ms"
        by (metis receipt_snapshot_ok)
      have "rs_run_id s = ag_owner_id r" using validate_agent_receipt_ok [OF v] s(1) by metis
      with s(2) u(1) Some show ?thesis
        by (intro log_update_grows [OF _ materialized_silent [OF s(3) silent]]) simp
    qed (simp add: u events_of_def load_def)
    moreover have "load_agent_run_receipt st i = Some y \<Longrightarrow> i \<noteq> ag_agent_run_id r" for i y
      using None by (auto simp: load_agent_run_receipt_def)
    ultimately show ?thesis
      unfolding store_grows_def using u indexed_update [OF _ u(2)]
      by (auto simp: load_agent_run_receipt_def load_agent_run_def update_conv')
  qed
qed

lemma integration_grows:
  assumes c: "commit_integration_receipt D st s i oid events = (x, st')"
    and silent: "list_all (\<lambda>e. \<not> carries key (es_data e)) events"
  shows "store_grows run key st st'"
proof (cases "map_of (st_integration_receipts st) (ii_run_id i, ii_idempotency_key i)")
  case (Some old)
  with commit_integration_replay [OF c] show ?thesis by simp
next
  case None
  show ?thesis
  proof (cases x)
    case (Inl e)
    with c None show ?thesis
      by (auto simp: commit_integration_receipt_def injected_failure_def Let_def split: if_splits sum.splits option.splits)
  next
    case (Inr rc)
    note c = c [unfolded Inr]
    obtain ms where m: "materialize D (st_registry st) (length (events_of st (ii_run_id i)) + 1) events = Inr ms"
      and u: "st_snapshots st' = AList.update (ii_run_id i)
           \<lparr>sn_state = s, sn_events = events_of st (ii_run_id i) @ ms\<rparr> (st_snapshots st)"
        "st_integration_receipts st' = AList.update (ii_run_id i, ii_idempotency_key i) rc (st_integration_receipts st)"
        "st_integration_intents st' = st_integration_intents st"
        "st_agent_runs st' = st_agent_runs st" "st_agent_receipts st' = st_agent_receipts st"
      by (metis commit_integration_fresh [OF c None])
    have "st_cas_refs st' = st_cas_refs st"
      using c None
      by (auto simp: commit_integration_receipt_def injected_failure_def Let_def split: if_splits sum.splits option.splits)
    then show ?thesis
      unfolding store_grows_def using u None log_update_grows [OF u(1) materialized_silent [OF m silent]]
      by (auto simp: load_agent_run_receipt_def load_agent_run_def agent_runs_indexed_def update_conv' map_le_def)
  qed
qed

lemma intent_grows:
  assumes "persist_integration_intent st i = (x, st')"
  shows "store_grows run key st st'"
  using assms
  by (auto simp: persist_integration_intent_def Let_def store_grows_def events_of_def load_def load_agent_run_receipt_def
      load_agent_run_def agent_runs_indexed_def update_conv' map_le_def split: sum.splits option.splits if_splits)

section \<open>The handlers\<close>

text \<open>
  When a message may record an event under a receipt key that is in the log already. A command whose own
  logical key it is is answered from the log; creation, an agent start, a plan acceptance and a finished
  round write keys the actor does not look up first. The end of an agent run is not recorded by a round
  when the log has it.
\<close>

definition started_key :: "uuid \<Rightarrow> string" where
  "started_key i = ''agent_run.started:'' @ str_uuid i"

definition terminal_key :: "uuid \<Rightarrow> string" where
  "terminal_key i = ''agent_run.terminal:'' @ str_uuid i"

definition records_again :: "runtime_snapshot option \<Rightarrow> string \<Rightarrow> runtime_message \<Rightarrow> bool" where
  "records_again snapshot key m = (case m of
       MCreate run_id _ _ \<Rightarrow> key = ''run.created:'' @ str_uuid run_id
     | MWorkflow c \<Rightarrow> wc_logical_key c \<noteq> key \<and> (case wc_payload c of
           WfAgentStarted i \<Rightarrow> key = started_key i
         | WfAcceptPlan completion _ \<Rightarrow> key = terminal_key (ag_agent_run_id (pc_record completion))
         | _ \<Rightarrow> False)
     | MRoundFinished k decision _ \<Rightarrow> key = k \<or> (case decision of
           None \<Rightarrow> False
         | Some d \<Rightarrow> list_ex (\<lambda>i. key = terminal_key i \<and> \<not> has_agent_run_event snapshot ''agent_run.terminal'' i)
             (xd_terminal_ids d))
     | _ \<Rightarrow> False)"

named_theorems silent_simps \<open>events that carry no receipt key\<close>

lemma carries_simps [silent_simps]:
  "carries key [] = False"
  "carries key ((k, v) # d) = (if k = ''receipt_key'' then v = PStr key else carries key d)"
  by (auto simp: carries_def data_get_def)

lemma spec_data [silent_simps]: "es_data (spec t d) = d"
  by (simp add: spec_def)

lemma status_event_silent [silent_simps]: "\<not> carries key (es_data (run_status_changed_event s))"
  by (simp add: run_status_changed_event_def silent_simps split: option.split)

lemma slice_fields_silent [silent_simps]: "\<not> carries key (slice_fields r)"
  by (simp add: slice_fields_def silent_simps split: option.split)

lemma lifecycle_key:
  assumes "agent_run_lifecycle_spec r receipt = Inr event"
  shows "carries key (es_data event) \<longleftrightarrow>
    key = (case receipt of None \<Rightarrow> started_key (ag_agent_run_id r) | Some _ \<Rightarrow> terminal_key (ag_agent_run_id r))"
  using assms
  by (auto simp: agent_run_lifecycle_spec_def silent_simps started_key_def terminal_key_def split: option.splits if_splits)

lemma actor_commit_grows:
  assumes "list_all (\<lambda>e. \<not> carries key (es_data e)) events"
  shows "store_grows run key (aw_store w) (aw_store (snd (actor_commit E w s events)))"
proof -
  define es where "es = (case actor_state w of
            None \<Rightarrow> events
          | Some previous \<Rightarrow>
              if rs_status previous \<noteq> rs_status s then events @ [run_status_changed_event s] else events)"
  obtain r st where c: "store_commit (en_digests E) (aw_store w) s es None = (r, st)" by (rule prod.exhaust)
  have "list_all (\<lambda>e. \<not> carries key (es_data e)) es"
    using assms by (simp add: es_def silent_simps split: option.split)
  from store_commit_grows [OF c this] c show ?thesis
    by (simp add: actor_commit_def Let_def es_def [symmetric] actor_simps split: sum.split)
qed

lemma commit_grows:
  assumes "actor_commit E w s events = (b, w1)" "list_all (\<lambda>e. \<not> carries key (es_data e)) events"
  shows "store_grows run key (aw_store w) (aw_store w1)"
  using actor_commit_grows [OF assms(2), of run w E s] assms(1) by simp

lemma receipt_reply_store [actor_simps]: "aw_store (snd (receipt_reply w key missing n)) = aw_store w"
  by (simp add: receipt_reply_def actor_simps split: option.split)

lemma commit_reply_grows:
  assumes "list_all (\<lambda>e. \<not> carries key (es_data e)) events"
  shows "store_grows run key (aw_store w) (aw_store (snd (case actor_commit E w nxt events of
       (False, w1) \<Rightarrow> (Inl e, w1) | (True, w1) \<Rightarrow> receipt_reply w1 k missing n)))"
  using actor_commit_grows [OF assms, of run w E nxt]
  by (cases "actor_commit E w nxt events"; cases "fst (actor_commit E w nxt events)") (auto simp: actor_simps)

text \<open>The messages whose events carry no receipt key.\<close>

lemma cancel_grows: "store_grows run key (aw_store w) (aw_store (snd (handle_cancel E version response w)))"
proof (cases "actor_state w")
  case (Some s)
  let ?next = "s\<lparr>rs_status := Cancelled, rs_cancel_requested := True, rs_new_calls_enabled := False,
      rs_active_dispatches := [], rs_version := rs_version s + 1\<rparr>"
  obtain b w1 where c: "actor_commit E w ?next [spec ''run.cancelled'' []] = (b, w1)" by (rule prod.exhaust)
  have "store_grows run key (aw_store w) (aw_store w1)" by (rule commit_grows [OF c]) (simp add: silent_simps)
  with Some c show ?thesis
    by (cases b; cases "en_cancellation_port E") (simp_all add: handle_cancel_def Let_def actor_simps)
qed (simp add: handle_cancel_def actor_simps)

lemma segment_grows: "store_grows run key (aw_store w) (aw_store (snd (handle_segment_stopped E payload s w)))"
proof (cases "payload_generation payload")
  case None
  then show ?thesis by (simp add: handle_segment_stopped_def actor_commit_grows silent_simps)
next
  case (Some g)
  have calls: "aw_store (snd (case actor_commit E w nxt es of (b, w1) \<Rightarrow>
      (Inr (), case en_continuation_port E of None \<Rightarrow> w1 | Some port \<Rightarrow>
         if b \<and> el then set_error (port (actor_id w1) g) (log_call (CallContinuation (actor_id w1) g) w1) else w1)))
      = aw_store (snd (actor_commit E w nxt es))" for nxt es el
    by (simp add: actor_simps split: prod.split option.split)
  show ?thesis
    unfolding handle_segment_stopped_def Some option.case Let_def calls by (rule actor_commit_grows) (simp add: silent_simps)
qed

lemma session_input_grows: "store_grows run key (aw_store w) (aw_store (snd (handle_session_input E kind payload w)))"
  by (cases "actor_state w")
    (simp_all add: handle_session_input_def handle_advice_confirmation_def Let_def segment_grows actor_commit_grows silent_simps)

lemma execution_grows: "store_grows run key (aw_store w) (aw_store (snd (handle_execution E run_id d result started w)))"
proof (cases "actor_state w")
  case (Some s)
  have "store_grows run key (aw_store w) (aw_store (snd (start_dispatch E d s w)))"
    by (auto simp: start_dispatch_def actor_simps silent_simps intro: commit_grows split: prod.split)
  moreover have "store_grows run key (aw_store w) (aw_store (snd (finish_dispatch E d result s w)))"
    by (simp add: finish_dispatch_def actor_simps actor_commit_grows silent_simps split: option.split)
  ultimately show ?thesis
    using Some by (simp add: handle_execution_def actor_simps actor_commit_grows silent_simps)
qed (simp add: handle_execution_def actor_simps)

lemma budget_grows: "store_grows run key (aw_store w) (aw_store (snd (handle_budget E i out c w)))"
proof -
  have events: "list_all (\<lambda>e. \<not> carries key (es_data e)) es \<and> aw_store w1 = aw_store w"
    if "exhaust_ports E s w = (es, w1)" for s es w1
    using that exhaust_ports_abs [OF that]
    by (auto simp: exhaust_ports_def Let_def silent_simps split: option.splits prod.splits)
  have last: "store_grows run key (aw_store w) (aw_store (snd (actor_commit E w1 s' es)))"
      "\<not> carries key (es_data e) \<Longrightarrow> store_grows run key (aw_store w) (aw_store (snd (actor_commit E w1 s' (e # es))))"
    if "exhaust_ports E s w = (es, w1)" for s s' es w1 e
    using actor_commit_grows [of key es run w1 E s'] actor_commit_grows [of key "e # es" run w1 E s'] events [OF that] by simp_all
  show ?thesis
    by (auto simp: handle_budget_def Let_def silent_simps intro!: actor_commit_grows elim!: last
        split: option.split sum.split prod.split)
qed

lemma recovery_grows: "store_grows run key (aw_store w) (aw_store (snd (handle_recovery E trigger ds is corrupt drift w)))"
proof -
  have "list_all (\<lambda>e. \<not> carries key (es_data e)) (map recovery_event items)" for items
    by (induction items) (simp_all add: recovery_event_def Let_def silent_simps)
  from actor_commit_grows [OF this] show ?thesis
    by (simp add: handle_recovery_def Let_def split: option.split sum.split)
qed

lemma advice_grows: "store_grows run key (aw_store w) (aw_store (snd (handle_advice E a w)))"
proof (cases "actor_state w")
  case (Some s)
  obtain nxt event reason hash where d: "advice_decision E (actor_id w) s a = (nxt, event, reason, hash)"
    by (metis prod.exhaust)
  obtain b w1 where c: "actor_commit E w nxt
      [spec event [(''reason'', PStr reason), (''proposal_hash'', PStr hash)]] = (b, w1)" by (rule prod.exhaust)
  have "store_grows run key (aw_store w) (aw_store w1)" by (rule commit_grows [OF c]) (simp add: silent_simps)
  with Some d c show ?thesis by (simp add: handle_advice_def actor_simps split: option.split)
qed (simp add: handle_advice_def)

lemma create_grows:
  assumes "key \<noteq> ''run.created:'' @ str_uuid run_id"
  shows "store_grows run key (aw_store w) (aw_store (snd (handle_create E run_id request transaction w)))"
proof -
  have "store_grows run key (aw_store w) st"
    if "store_create (en_digests E) (aw_store w) s [spec ''run.created'' [(''status'', v),
        (''receipt_key'', PStr (''run.created:'' @ str_uuid run_id)), (''state_version'', n)], run_status_changed_event s]
        None transaction = (x, st)" for s v n x st
    by (rule store_create_grows [OF that]) (use assms in \<open>simp add: silent_simps\<close>)
  then show ?thesis
    unfolding handle_create_def Let_def by (auto simp: actor_simps split: option.split sum.split prod.split)
qed

text \<open>Workflow commands with another logical key, and rounds.\<close>

lemma dispatch_workflow_grows:
  assumes "agent_runs_indexed (aw_store w)" "\<not> records_again snapshot key (MWorkflow c)" "wc_logical_key c \<noteq> key"
  shows "store_grows run key (aw_store w) (aw_store (snd (dispatch_workflow E c s w)))"
proof (cases "wc_payload c")
  case (WfAcceptPlan completion plan)
  let ?r = "pc_record completion"
  have silent: "store_grows run key (aw_store w) st"
    if "agent_run_lifecycle_spec ?r (Some rc) = Inr event"
      "commit_agent_run_receipt (en_digests E) (aw_store w) ?r rc state
         [event, spec ''run.plan.accepted'' ((''receipt_key'', PStr (wc_logical_key c)) # d), run_status_changed_event nxt] refs = (x, st)"
    for event rc state d nxt refs x st
    by (rule receipt_grows [OF that(2)])
      (use lifecycle_key [OF that(1)] assms(2,3) WfAcceptPlan in \<open>auto simp: silent_simps records_again_def\<close>)
  then show ?thesis
    using WfAcceptPlan
    by (auto simp: dispatch_workflow_def wf_accept_plan_def Let_def actor_simps split: sum.split prod.split)
next
  case WfExecuteRound
  then show ?thesis by (simp add: dispatch_workflow_def wf_schedule_round_def Let_def actor_simps)
next
  case (WfAgentStarted a)
  have "list_all (\<lambda>e. \<not> carries key (es_data e)) [event]"
    if "load_agent_run (aw_store w) a = Some r" "agent_run_lifecycle_spec r None = Inr event" for r event
    using lifecycle_key [OF that(2)] indexed_load [OF assms(1) that(1)] assms(2,3) WfAgentStarted
    by (simp add: records_again_def)
  from commit_reply_grows [OF this] WfAgentStarted show ?thesis
    unfolding dispatch_workflow_def wf_agent_started_def Let_def by (auto split: option.split sum.split)
next
  case (WfAgentTerminal r rc obj)
  have silent: "store_grows run key (aw_store w) st"
    if "wc_logical_key c = ''agent_run.terminal:'' @ str_uuid (ag_agent_run_id r)" "agent_run_lifecycle_spec r (Some rc) = Inr event"
      "commit_agent_run_receipt (en_digests E) (aw_store w) r rc state [event] refs = (x, st)" for event state refs x st
    by (rule receipt_grows [OF that(3)]) (use lifecycle_key [OF that(2)] that(1) assms(3) in \<open>auto simp: terminal_key_def\<close>)
  then show ?thesis
    using WfAgentTerminal
    by (auto simp: dispatch_workflow_def wf_agent_terminal_def actor_simps split: sum.split prod.split)
next
  case (WfIntegrationIntent i)
  then show ?thesis
    by (auto simp: dispatch_workflow_def wf_persist_intent_def actor_simps intro: intent_grows split: sum.split prod.split)
next
  case (WfIntegrationCompleted i oid)
  have "store_grows run key (aw_store w) st"
    if "commit_integration_receipt (en_digests E) (aw_store w) (bump s) i oid
        (integration_events (wc_logical_key c) i oid) = (x, st)" for x st
    by (rule integration_grows [OF that]) (use assms(3) in \<open>simp add: integration_events_def silent_simps\<close>)
  then show ?thesis
    using WfIntegrationCompleted
    by (auto simp: dispatch_workflow_def wf_integration_completed_def Let_def actor_simps split: sum.split prod.split)
next
  case (WfVerification v)
  then show ?thesis
    using assms(3) by (simp add: dispatch_workflow_def wf_verification_def commit_reply_grows silent_simps)
next
  case (WfReport v)
  then show ?thesis
    using assms(3) by (simp add: dispatch_workflow_def wf_report_def commit_reply_grows silent_simps)
qed

lemma terminal_round_silent:
  assumes "terminal_round_events w snapshot ids = Inr es" "agent_runs_indexed (aw_store w)"
    and "\<not> list_ex (\<lambda>i. key = terminal_key i \<and> \<not> has_agent_run_event snapshot ''agent_run.terminal'' i) ids"
  shows "list_all (\<lambda>e. \<not> carries key (es_data e)) es"
  using assms
proof (induction ids arbitrary: es)
  case (Cons i ids)
  from Cons.prems(1) obtain r rc where r: "load_agent_run (aw_store w) i = Some r" "load_agent_run_receipt (aw_store w) i = Some rc"
    by (auto simp: Let_def split: option.splits)
  with Cons.prems(1) consider (old) "terminal_round_events w snapshot ids = Inr es"
    | (new) event rest where "\<not> has_agent_run_event snapshot ''agent_run.terminal'' i"
      "agent_run_lifecycle_spec r (Some rc) = Inr event" "terminal_round_events w snapshot ids = Inr rest" "es = event # rest"
    by (auto simp: Let_def map_sum_Inr split: if_splits sum.splits)
  then show ?case
  proof cases
    case new
    with Cons lifecycle_key [OF new(2)] indexed_load [OF Cons.prems(2) r(1)] show ?thesis by auto
  qed (use Cons in auto)
qed simp

lemma merge_fact_silent: "list_all (\<lambda>e. \<not> carries key (es_data e)) (snd (merge_fact facts ckf))"
  by (simp add: merge_fact_def Let_def silent_simps split: option.split)

lemma merge_claims_silent:
  "merge_claims E w claims facts = Inr (facts', es) \<Longrightarrow> list_all (\<lambda>e. \<not> carries key (es_data e)) es"
proof (induction claims arbitrary: facts facts' es)
  case (Cons claim claims)
  then obtain ckf where "validate_candidate_claim E w claim facts = Inr ckf" by (auto split: sum.splits)
  with Cons merge_fact_silent [of key facts ckf] show ?case
    by (cases "merge_fact facts ckf") (auto simp: map_sum_Inr list_all_append)
qed simp

lemma round_grows:
  assumes "agent_runs_indexed (aw_store w)"
    and "\<not> records_again (load (aw_store w) (actor_id w)) key (MRoundFinished k decision error)"
  shows "store_grows run key (aw_store w) (aw_store (snd (handle_round_finished E k decision error w)))"
proof -
  have "store_grows run key (aw_store w) (aw_store (snd (commit_execution_round E k s d w)))" if "decision = Some d" for s d
  proof -
    have "list_all (\<lambda>e. \<not> carries key (es_data e)) (ts @ cs @ [spec ''run.execute.round'' ((''receipt_key'', PStr k) # (''complete'', x) # (''dispatch_count'', y) # [])])"
      if "terminal_round_events w (load (aw_store w) (actor_id w)) (xd_terminal_ids d) = Inr ts"
        "merge_claims E w (xd_candidate_claims d) (rs_candidate_checkpoints s) = Inr (facts, cs)" for ts cs facts x y
      using terminal_round_silent [OF that(1) assms(1)] merge_claims_silent [OF that(2)] assms(2) \<open>decision = Some d\<close>
      by (auto simp: records_again_def silent_simps)
    from commit_grows [OF _ this] show ?thesis
      by (auto simp: commit_execution_round_def Let_def split: sum.split prod.split bool.split option.split)
  qed
  then show ?thesis
    by (auto simp: handle_round_finished_def actor_simps split: option.split prod.split) (metis snd_conv)+
qed

text \<open>One message.\<close>

lemma run_message_store: "aw_store (run_message E m w) = aw_store (snd (handle_message E m w))"
  by (auto simp: run_message_def Let_def actor_simps split: prod.split sum.split runtime_message.split)

lemma workflow_grows:
  assumes "agent_runs_indexed (aw_store w)" "\<not> records_again snapshot key (MWorkflow c)"
    and "event_for_receipt (load (aw_store w) (actor_id w)) key \<noteq> None"
  shows "store_grows run key (aw_store w) (aw_store (snd (handle_workflow E c w)))"
proof -
  have "aw_store (snd (replay_workflow c e w)) = aw_store w" for e
    unfolding replay_workflow_def Let_def by (auto simp: actor_simps split: sum.split)
  moreover have "wc_logical_key c \<noteq> key" if "event_for_receipt (load (aw_store w) (actor_id w)) (wc_logical_key c) = None"
    using that assms(3) by auto
  ultimately show ?thesis
    using dispatch_workflow_grows [OF assms(1,2)] by (auto simp: handle_workflow_def Let_def split: option.split)
qed

lemma message_grows:
  assumes "agent_runs_indexed (aw_store w)" "\<not> records_again (load (aw_store w) (actor_id w)) key m"
    and "event_for_receipt (load (aw_store w) (actor_id w)) key \<noteq> None"
  shows "store_grows run key (aw_store w) (aw_store (run_message E m w))"
  unfolding run_message_store
proof (cases m)
  case (MWorkflow c)
  with workflow_grows [OF assms(1) _ assms(3)] assms(2) show "store_grows run key (aw_store w) (aw_store (snd (handle_message E m w)))"
    by (simp add: handle_message_def)
next
  case (MRoundFinished k decision error)
  with round_grows [OF assms(1)] assms(2) show "store_grows run key (aw_store w) (aw_store (snd (handle_message E m w)))"
    by (simp add: handle_message_def)
next
  case (MCreate run_id request transaction)
  with create_grows assms(2) show "store_grows run key (aw_store w) (aw_store (snd (handle_message E m w)))"
    by (simp add: handle_message_def records_again_def)
qed (simp_all add: handle_message_def cancel_grows session_input_grows execution_grows budget_grows recovery_grows advice_grows)

end
