(* ===== verification/Actor_Properties.thy ===== *)
theory Actor_Properties
  imports Actor_Replay
begin

text \<open>
  What the run actor of \<open>runtime/actor.py\<close> guarantees over whole mailbox histories: continuation budgets,
  that a stopped run stays stopped, and that workflow commands take effect once.
\<close>

section \<open>A concrete run\<close>

definition ex_env :: actor_env where
  "ex_env =
     \<lparr>en_digests = \<lparr>dg_bytes = id, dg_json = (\<lambda>_. replicate 64 (CHR ''a''))\<rparr>, en_checkpoint_digest = (\<lambda>_. []),
      en_plan_payload_digest = (\<lambda>_. []), en_advice_hash = (\<lambda>_. []), en_str = (\<lambda>_. []),
      en_budget_limits = \<lparr>bl_input_tokens = 1000, bl_output_tokens = 1000, bl_cost_micros = 1000\<rparr>,
      en_advice_context = \<lparr>ax_expected_subjects = {}, ax_attribution_candidates = {}, ax_joint_domain_members = {},
        ax_max_fanout = 1\<rparr>,
      en_checkpoint_writer = None, en_cancellation_port = None, en_continuation_port = Some (\<lambda>_ _. None),
      en_archive_port = None, en_repair_port = None, en_has_scheduler = True, en_checkpoint_verifier = None\<rparr>"

definition ex_world :: "run_status \<Rightarrow> actor_world" where
  "ex_world status =
     (let s = (run_state_init 5 status 4 None)\<lparr>rs_new_calls_enabled := status \<noteq> Cancelled\<rparr> in
      \<lparr>aw_actor = \<lparr>ac_run_id = 5, ac_state = Some s, ac_last_error = None, ac_last_dispatch_acceptance = None,
         ac_create_receipt = None, ac_round_responses = [], ac_round_tasks = []\<rparr>,
       aw_store = (store_init [])\<lparr>st_snapshots := [(5, \<lparr>sn_state = s, sn_events = []\<rparr>)]\<rparr>,
       aw_coordinator = None, aw_replies = [], aw_calls = []\<rparr>)"

definition ex_command :: "workflow_payload \<Rightarrow> workflow_command" where
  "ex_command p = \<lparr>wc_run_id = 5, wc_logical_key = ''verify:5'', wc_payload = p, wc_response = 0\<rparr>"

definition ex_messages :: "runtime_message list" where
  "ex_messages =
     [MWorkflow (ex_command (WfReport \<lparr>rp_result_sha256 = [], rp_status = Completed\<rparr>)),
      MExecution 5 \<lparr>ad_attempt_id = 1, ad_subject = FinalVerified [], ad_check_id = 2, ad_tested_commit_oid = []\<rparr> None True, MCancel 4 None]"

section \<open>Refinement of the life cycle\<close>

text \<open>C5: The actor refines the abstract life cycle of a run. Whatever messages reach the mailbox, in
  whatever order (cancellations, budget events, late dispatch results, recovery, advice, workflow
  commands, finished rounds), and whether or not the store accepts the commits, the abstract state moves
  only along the life cycle: a run is created in planning at version 1, phases advance one at a time, a
  dispatch may only return a live run to execution, cancellation and budget exhaustion end a live run
  with calls disabled and no dispatch left, and every other change only counts the version up by one.
  The assumption on report commands is the check of the \<open>ReportSummary\<close> constructor.\<close>

theorem run_refines_lifecycle:
  assumes "list_all message_ok ms"
  shows "lifecycle_step\<^sup>*\<^sup>* (abs_run w) (abs_run (run_messages E ms w))"
  using assms
proof (induction ms arbitrary: w)
  case (Cons m ms)
  then have "lifecycle_step (abs_run w) (abs_run (run_message E m w))" by (simp add: message_refines)
  moreover have "lifecycle_step\<^sup>*\<^sup>* (abs_run (run_message E m w)) (abs_run (run_messages E (m # ms) w))"
    using Cons by simp
  ultimately show ?case by (rule converse_rtranclp_into_rtranclp)
qed simp

theorem run_refines_lifecycle_witness:
  "list_all message_ok ex_messages
   \<and> lifecycle_step\<^sup>*\<^sup>* (abs_run (ex_world Reporting)) (abs_run (run_messages ex_env ex_messages (ex_world Reporting)))"
proof
  show "list_all message_ok ex_messages" by (simp add: ex_messages_def message_ok_def ex_command_def)
  then show "lifecycle_step\<^sup>*\<^sup>* (abs_run (ex_world Reporting)) (abs_run (run_messages ex_env ex_messages (ex_world Reporting)))"
    by (rule run_refines_lifecycle)
qed

section \<open>Continuations\<close>

definition continuation_calls :: "actor_world \<Rightarrow> int \<Rightarrow> int" where
  "continuation_calls w g =
     int (length (filter (\<lambda>c. case c of CallContinuation _ h \<Rightarrow> h = g | _ \<Rightarrow> False) (aw_calls w)))"

definition durable_continuations :: "actor_world \<Rightarrow> int \<Rightarrow> int" where
  "durable_continuations w g = (case actor_state w of
       None \<Rightarrow> 0
     | Some s \<Rightarrow> continuation_count (rs_continuation_counts s) g)"

text \<open>The calls made between two worlds are covered by the counters, which stop at three.\<close>

definition covered :: "actor_world \<Rightarrow> actor_world \<Rightarrow> bool" where
  "covered w w' \<longleftrightarrow> (\<forall>g.
     continuation_calls w' g - continuation_calls w g \<le> durable_continuations w' g - durable_continuations w g
     \<and> durable_continuations w' g \<le> max 3 (durable_continuations w g)
     \<and> (g \<notin> {0, 1, 2} \<longrightarrow> continuation_calls w' g = continuation_calls w g))"

lemma covered_refl: "covered w w"
  by (simp add: covered_def)

lemma covered_trans:
  assumes "covered w1 w2" "covered w2 w3"
  shows "covered w1 w3"
  unfolding covered_def
proof
  fix g
  from assms have "continuation_calls w2 g - continuation_calls w1 g \<le> durable_continuations w2 g - durable_continuations w1 g
      \<and> durable_continuations w2 g \<le> max 3 (durable_continuations w1 g)
      \<and> (g \<notin> {0, 1, 2} \<longrightarrow> continuation_calls w2 g = continuation_calls w1 g)"
    "continuation_calls w3 g - continuation_calls w2 g \<le> durable_continuations w3 g - durable_continuations w2 g
      \<and> durable_continuations w3 g \<le> max 3 (durable_continuations w2 g)
      \<and> (g \<notin> {0, 1, 2} \<longrightarrow> continuation_calls w3 g = continuation_calls w2 g)"
    unfolding covered_def by blast+
  then show "continuation_calls w3 g - continuation_calls w1 g \<le> durable_continuations w3 g - durable_continuations w1 g
      \<and> durable_continuations w3 g \<le> max 3 (durable_continuations w1 g)
      \<and> (g \<notin> {0, 1, 2} \<longrightarrow> continuation_calls w3 g = continuation_calls w1 g)"
    by linarith
qed

lemma allowed_no_continuation:
  "list_all (call_allowed s) xs \<Longrightarrow>
     filter (\<lambda>c. case c of CallContinuation _ h \<Rightarrow> h = g | _ \<Rightarrow> False) xs = []"
  by (induction xs) (auto simp: call_allowed_def split: port_call.splits)

lemma framed_covered:
  assumes "framed w w'"
  shows "covered w w'"
proof -
  from assms obtain xs where "aw_calls w' = aw_calls w @ xs"
    and c: "case actor_state w of
              None \<Rightarrow> xs = [] \<and> (actor_state w' = None
                \<or> (\<exists>r. actor_state w' = Some (run_state_init (actor_id w) Planning 1 (Some r))))
            | Some s \<Rightarrow> list_all (call_allowed s) xs \<and> (\<exists>s'. actor_state w' = Some s' \<and> keeps s s')"
    unfolding framed_def by blast
  then have "continuation_calls w' g = continuation_calls w g \<and> durable_continuations w' g = durable_continuations w g" for g
    by (cases "actor_state w")
      (auto simp: continuation_calls_def durable_continuations_def keeps_def allowed_no_continuation
        run_state_init_def continuation_count_def py_dict_def)
  then show ?thesis by (simp add: covered_def)
qed

lemma map_of_sort:
  fixes kvs :: "('a::linorder \<times> 'b::linorder) list"
  assumes "distinct (map fst kvs)"
  shows "distinct (map fst (sort kvs))" "map_of (sort kvs) = map_of kvs"
proof -
  have "mset (map fst (sort kvs)) = mset (map fst kvs)" by (simp only: mset_map mset_sort)
  then show d: "distinct (map fst (sort kvs))" using assms mset_eq_imp_distinct_iff by blast
  show "map_of (sort kvs) = map_of kvs" by (simp add: map_of_inject_set [OF d assms])
qed

lemma continuation_count_update:
  "continuation_count (sort (AList.update g v (py_dict counts))) h = (if h = g then v else continuation_count counts h)"
proof -
  have d: "distinct (map fst (AList.update g v (py_dict counts)))"
    by (simp add: distinct_update)
  have "map_of (py_dict (sort (AList.update g v (py_dict counts)))) = (map_of (py_dict counts))(g \<mapsto> v)"
    by (simp only: py_dict_id [OF map_of_sort(1) [OF d]] map_of_sort(2) [OF d] update_conv')
  then show ?thesis by (simp add: continuation_count_def)
qed

lemma calls_snoc [simp]:
  "continuation_calls (log_call c w) g =
     continuation_calls w g + (case c of CallContinuation _ h \<Rightarrow> if h = g then 1 else 0 | _ \<Rightarrow> 0)"
  by (simp add: continuation_calls_def actor_simps split: port_call.split)

lemma calls_set_error [simp]: "continuation_calls (set_error e w) g = continuation_calls w g"
  by (simp add: continuation_calls_def actor_simps)

lemma durable_cong: "actor_state w' = actor_state w \<Longrightarrow> durable_continuations w' g = durable_continuations w g"
  by (simp add: durable_continuations_def)

lemma segment_stop_covered:
  assumes s: "actor_state w = Some s"
  shows "covered w (snd (handle_segment_stopped E payload s w))"
proof (cases rule: segment_stopped_cases [of E payload s w])
  case (invalid events)
  then show ?thesis by (simp add: framed_covered framed_commit_snd [OF s keeps_bump])
next
  case (valid g el tf event b w1)
  let ?w' = "snd (handle_segment_stopped E payload s w)"
  have st: "actor_state ?w' = actor_state w1"
    by (simp add: valid(4) actor_simps split: option.split)
  have calls: "continuation_calls ?w' h \<le> continuation_calls w1 h + (if b \<and> el \<and> h = g then 1 else 0)
      \<and> (h \<noteq> g \<longrightarrow> continuation_calls ?w' h = continuation_calls w1 h)" for h
    by (simp add: valid(4) split: option.split)
  have w1: "continuation_calls w1 h = continuation_calls w h" for h
    using valid(3) by (cases rule: actor_commit_cases) (simp_all add: continuation_calls_def)
  have dur: "durable_continuations ?w' h = durable_continuations w h + (if b \<and> el \<and> h = g then 1 else 0)" for h
    unfolding durable_cong [OF st] using valid(3)
    by (cases rule: actor_commit_cases) (simp_all add: durable_continuations_def s continuation_count_update)
  have "el \<longrightarrow> durable_continuations w g < 3" using valid(2) s by (simp add: durable_continuations_def)
  then have "continuation_calls ?w' h - continuation_calls w h \<le> durable_continuations ?w' h - durable_continuations w h
      \<and> durable_continuations ?w' h \<le> max 3 (durable_continuations w h)
      \<and> (h \<notin> {0, 1, 2} \<longrightarrow> continuation_calls ?w' h = continuation_calls w h)" for h
    using calls [of h] w1 [of h] dur [of h] valid(1) by (cases "h = g") (auto simp: max_def)
  then show ?thesis by (simp add: covered_def)
qed

lemma message_covered: "covered w (run_message E m w)"
proof (cases "is_segment_stop m")
  case True
  then obtain payload where m: "m = MSessionInput ''segment_stopped'' payload"
    by (auto simp: is_segment_stop_def split: runtime_message.splits)
  have "covered w (snd (handle_message E m w))"
    by (cases "actor_state w") (simp_all add: m handle_message_def handle_session_input_def covered_refl segment_stop_covered)
  then show ?thesis
    by (simp add: covered_def continuation_calls_def durable_continuations_def run_message_handled)
qed (rule framed_covered [OF message_framed])

text \<open>C10: Continuations are bounded per generation. Over any history of messages, whatever the mailbox
  holds and whichever commits the store refuses, the number of continuations the actor asks its port for
  in a generation is covered by the growth of the counter committed with the run state, the counter never
  grows past three, and no continuation is requested for a generation other than 0, 1 or 2. As the counter
  is durable the bound also holds across restarts of the actor.\<close>

theorem continuations_bounded:
  "continuation_calls (run_messages E ms w) g - continuation_calls w g
     \<le> durable_continuations (run_messages E ms w) g - durable_continuations w g
   \<and> durable_continuations (run_messages E ms w) g \<le> max 3 (durable_continuations w g)
   \<and> (g \<in> {0, 1, 2} \<or> continuation_calls (run_messages E ms w) g = continuation_calls w g)"
proof -
  have "covered w (run_messages E ms w)"
  proof (induction ms arbitrary: w)
    case (Cons m ms)
    show ?case using covered_trans [OF message_covered Cons.IH] by simp
  qed (simp add: covered_refl)
  then show ?thesis unfolding covered_def by blast
qed

section \<open>Stopped runs\<close>

definition stopped :: "actor_world \<Rightarrow> bool" where
  "stopped w \<longleftrightarrow> (\<exists>s. actor_state w = Some s \<and> rs_status s \<in> terminal_statuses \<and> \<not> rs_new_calls_enabled s)"

text \<open>Nothing but repair calls is added, and the abstract state and the dispatches only shrink.\<close>

definition quiet :: "actor_world \<Rightarrow> actor_world \<Rightarrow> bool" where
  "quiet w w' \<longleftrightarrow> (\<exists>s s' xs. actor_state w = Some s \<and> actor_state w' = Some s'
     \<and> rs_status s' = rs_status s \<and> \<not> rs_new_calls_enabled s' \<and> rs_version s \<le> rs_version s'
     \<and> set (rs_active_dispatches s') \<subseteq> set (rs_active_dispatches s)
     \<and> aw_calls w' = aw_calls w @ xs \<and> list_all (\<lambda>c. case c of CallRepair _ \<Rightarrow> True | _ \<Rightarrow> False) xs)"

lemma quiet_trans: "quiet w1 w2 \<Longrightarrow> quiet w2 w3 \<Longrightarrow> quiet w1 w3"
  unfolding quiet_def by (fastforce simp: list_all_append)

lemma quiet_stopped: "quiet w w' \<Longrightarrow> stopped w \<Longrightarrow> stopped w'"
  by (auto simp: quiet_def stopped_def)

lemma message_quiet:
  assumes "stopped w" "message_ok m"
  shows "quiet w (run_message E m w)"
proof -
  let ?w = "run_message E m w"
  from assms(1) obtain s where s: "actor_state w = Some s" "rs_status s \<in> terminal_statuses" "\<not> rs_new_calls_enabled s"
    by (auto simp: stopped_def)
  have "lifecycle_step\<^sup>*\<^sup>* (Some (abs_state s)) (abs_run ?w)"
    using message_refines [OF assms(2), of w E] s(1) by (simp add: abs_run_def r_into_rtranclp)
  from lifecycle_terminal [OF this] s obtain s' where s': "actor_state ?w = Some s'" "rs_status s' = rs_status s"
      "\<not> rs_new_calls_enabled s'" "rs_version s \<le> rs_version s'"
    by (auto simp: abs_run_Some abs_state_def)
  have "\<exists>xs. aw_calls ?w = aw_calls w @ xs \<and> list_all (\<lambda>c. case c of CallRepair _ \<Rightarrow> True | _ \<Rightarrow> False) xs
      \<and> set (rs_active_dispatches s') \<subseteq> set (rs_active_dispatches s)"
  proof (cases "is_segment_stop m")
    case True
    then obtain payload where m: "m = MSessionInput ''segment_stopped'' payload"
      by (auto simp: is_segment_stop_def split: runtime_message.splits)
    have "snd (handle_message E m w) = w"
      by (simp add: m handle_message_def handle_session_input_def s)
    with s(1) s'(1) show ?thesis by (simp add: run_message_handled)
  next
    case False
    from message_framed [OF this, of w E] s s'(1) obtain xs
      where "aw_calls ?w = aw_calls w @ xs" "list_all (call_allowed s) xs" "keeps s s'"
      by (auto simp: framed_def)
    moreover from this(2) have "list_all (\<lambda>c. case c of CallRepair _ \<Rightarrow> True | _ \<Rightarrow> False) xs"
      by (rule list.pred_mono_strong) (use s(2) in \<open>auto simp: call_allowed_def split: port_call.splits\<close>)
    ultimately show ?thesis using s by (auto simp: keeps_def)
  qed
  with s s' show ?thesis unfolding quiet_def by blast
qed

text \<open>C7: A cancelled or failed run starts nothing more. Once the run is in a terminal status with calls
  disabled, which is how cancellation and budget exhaustion leave it, no later message (a late dispatch
  start, a finished segment that made progress, a finished round, a workflow command, a second
  cancellation) changes its status or enables calls again, adds a dispatch, or reaches the checkpoint,
  archive, cancellation, continuation or scheduler port; only repair advice is still forwarded, because
  \<open>_handle_advice\<close> has no terminal check.\<close>

theorem stopped_run_starts_nothing:
  assumes "stopped w" "list_all message_ok ms"
  shows "quiet w (run_messages E ms w)"
  using assms
proof (induction ms arbitrary: w)
  case Nil
  then show ?case by (auto simp: stopped_def quiet_def)
next
  case (Cons m ms)
  then have "quiet w (run_message E m w)" by (simp add: message_quiet)
  moreover from this have "quiet (run_message E m w) (run_messages E ms (run_message E m w))"
    using Cons by (simp add: quiet_stopped)
  ultimately show ?case using quiet_trans by auto
qed

theorem stopped_run_starts_nothing_witness:
  "stopped (ex_world Cancelled) \<and> list_all message_ok ex_messages
   \<and> quiet (ex_world Cancelled) (run_messages ex_env ex_messages (ex_world Cancelled))"
proof (intro conjI)
  show s: "stopped (ex_world Cancelled)" by (simp add: stopped_def ex_world_def Let_def terminal_statuses_def run_state_init_def)
  show m: "list_all message_ok ex_messages" by (simp add: ex_messages_def message_ok_def ex_command_def)
  show "quiet (ex_world Cancelled) (run_messages ex_env ex_messages (ex_world Cancelled))"
    by (rule stopped_run_starts_nothing [OF s m])
qed

section \<open>Repeated workflow commands\<close>

lemma respond_reply:
  assumes "aw_replies (respond n x w) = rs @ [(n, y)]" "aw_replies w = rs"
  shows "x = y" "respond n x w = w\<lparr>aw_replies := rs @ [(n, y)]\<rparr>"
  using assms by (auto simp: respond_def split: if_splits)

lemma helper_replies [actor_simps]:
  "aw_replies (set_error e w) = aw_replies w" "aw_replies (upd_actor f w) = aw_replies w"
  by (simp_all add: set_error_def upd_actor_def split: option.split)

lemma actor_commit_replies [actor_simps]: "aw_replies (snd (actor_commit E w s es)) = aw_replies w"
  by (simp add: actor_commit_def Let_def actor_simps split: prod.split sum.split)

text \<open>The facts in the store that make the actor answer a command from the log.\<close>

definition recorded :: "workflow_command \<Rightarrow> actor_phase_receipt \<Rightarrow> actor_world \<Rightarrow> bool" where
  "recorded c receipt w \<longleftrightarrow> wc_run_id c = actor_id w \<and> wc_payload c \<noteq> WfExecuteRound
     \<and> (\<exists>e. event_for_receipt (load (aw_store w) (actor_id w)) (wc_logical_key c) = Some e
         \<and> receipt = \<lparr>ap_run_id = actor_id w, ap_receipt_key = wc_logical_key c, ap_event_sequence = re_sequence e\<rparr>
         \<and> (case wc_payload c of
              WfAgentTerminal r rc obj \<Rightarrow> validate_agent_terminal_replay r rc obj c w = Inr ()
            | WfIntegrationCompleted i oid \<Rightarrow> validate_integration_replay i oid (re_sequence e) w = Inr ()
            | _ \<Rightarrow> True))"

lemma recorded_replays:
  assumes "recorded c receipt w"
  shows "run_message E (MWorkflow (c\<lparr>wc_response := n\<rparr>)) w = respond n (RReceipt receipt) w"
proof -
  let ?c = "c\<lparr>wc_response := n\<rparr>"
  obtain e where e: "event_for_receipt (load (aw_store w) (actor_id w)) (wc_logical_key c) = Some e"
    and r: "receipt = \<lparr>ap_run_id = actor_id w, ap_receipt_key = wc_logical_key c, ap_event_sequence = re_sequence e\<rparr>"
    and v: "case wc_payload c of
              WfAgentTerminal r rc obj \<Rightarrow> validate_agent_terminal_replay r rc obj c w = Inr ()
            | WfIntegrationCompleted i oid \<Rightarrow> validate_integration_replay i oid (re_sequence e) w = Inr ()
            | _ \<Rightarrow> True"
    using assms unfolding recorded_def by blast
  have "validate_agent_terminal_replay r rc obj ?c w = validate_agent_terminal_replay r rc obj c w"
    for r rc obj by (simp add: validate_agent_terminal_replay_def)
  then have "replay_workflow ?c e w = (Inr (), respond n (RReceipt receipt) w)"
    using v assms r by (cases "wc_payload c") (simp_all add: replay_workflow_def recorded_def)
  moreover have "handle_workflow E ?c w = replay_workflow ?c e w"
    using assms e by (simp add: handle_workflow_def recorded_def)
  ultimately show ?thesis by (simp add: run_message_def handle_message_def)
qed

lemma recorded_cong:
  assumes "aw_store w' = aw_store w" "actor_id w' = actor_id w"
  shows "recorded c receipt w' = recorded c receipt w"
  unfolding recorded_def validate_agent_terminal_replay_def validate_integration_replay_def assms ..

text \<open>Each command that answers with a receipt has recorded it.\<close>

lemma receipt_reply_recorded:
  assumes h: "receipt_reply w1 (wc_logical_key c) missing (wc_response c) = (x, w2)"
    and r: "aw_replies w2 = aw_replies w1 @ [(wc_response c, RReceipt receipt)]"
    and c: "wc_run_id c = actor_id w1" "wc_payload c \<noteq> WfExecuteRound"
      "\<And>e. event_for_receipt (load (aw_store w1) (actor_id w1)) (wc_logical_key c) = Some e \<Longrightarrow>
         (case wc_payload c of
              WfAgentTerminal r rc obj \<Rightarrow> validate_agent_terminal_replay r rc obj c w1 = Inr ()
            | WfIntegrationCompleted i oid \<Rightarrow> validate_integration_replay i oid (re_sequence e) w1 = Inr ()
            | _ \<Rightarrow> True)"
  shows "recorded c receipt w2"
proof (cases "event_for_receipt (load (aw_store w1) (actor_id w1)) (wc_logical_key c)")
  case (Some e)
  let ?r = "\<lparr>ap_run_id = actor_id w1, ap_receipt_key = wc_logical_key c, ap_event_sequence = re_sequence e\<rparr>"
  from h Some have w2: "w2 = respond (wc_response c) (RReceipt ?r) w1" by (simp add: receipt_reply_def)
  have "RReceipt ?r = RReceipt receipt" by (rule respond_reply(1) [OF r [unfolded w2] refl])
  then have "receipt = ?r" by simp
  then have "recorded c receipt w1" unfolding recorded_def using c(1,2) Some c(3) [OF Some] by blast
  then show ?thesis using recorded_cong [of w2 w1 c receipt] by (simp add: w2 actor_simps)
qed (use h r in \<open>simp add: receipt_reply_def\<close>)

lemma commit_reply_recorded:
  assumes h: "(case actor_commit E w nxt events of
       (False, w1) \<Rightarrow> (Inl e, w1) | (True, w1) \<Rightarrow> receipt_reply w1 (wc_logical_key c) missing (wc_response c)) = (Inr u, w2)"
    and r: "aw_replies w2 = aw_replies w @ [(wc_response c, RReceipt receipt)]"
    and c: "wc_run_id c = actor_id w" "wc_payload c \<noteq> WfExecuteRound"
      "\<And>r rc obj. wc_payload c \<noteq> WfAgentTerminal r rc obj" "\<And>i oid. wc_payload c \<noteq> WfIntegrationCompleted i oid"
  shows "recorded c receipt w2"
proof -
  obtain b w1 where k: "actor_commit E w nxt events = (b, w1)" by (rule prod.exhaust)
  have k1: "aw_replies w1 = aw_replies w" "actor_id w1 = actor_id w"
    using actor_commit_replies [of E w nxt events] k by (auto elim: actor_commit_cases)
  from h k have b: "receipt_reply w1 (wc_logical_key c) missing (wc_response c) = (Inr u, w2)"
    by (cases b) simp_all
  show ?thesis
    by (rule receipt_reply_recorded [OF b]) (use r c k1 in \<open>auto split: workflow_payload.split\<close>)
qed

lemma agent_terminal_recorded:
  assumes h: "wf_agent_terminal E r rc obj c s w = (Inr u, w2)"
    and reply: "aw_replies w2 = aw_replies w @ [(wc_response c, RReceipt receipt)]"
    and none: "event_for_receipt (load (aw_store w) (actor_id w)) (wc_logical_key c) = None"
    and c: "wc_run_id c = actor_id w" "wc_payload c = WfAgentTerminal r rc obj"
  shows "recorded c receipt w2"
proof -
  let ?refs = "[(''agent-result:'' @ str_uuid (ag_agent_run_id r), obj)]"
  have own: "ag_owner_kind r = ''run''" "ag_owner_id r = actor_id w" "rc_category rc = ''session.terminal''"
      "wc_logical_key c = ''agent_run.terminal:'' @ str_uuid (ag_agent_run_id r)"
    using h by (auto simp: wf_agent_terminal_def split: if_splits)
  obtain event x st where k: "commit_agent_run_receipt (en_digests E) (aw_store w) r rc (Some (bump s)) [event] ?refs = (Inr x, st)"
      and y: "receipt_reply (upd_actor (\<lambda>a. a\<lparr>ac_state := Some (bump s)\<rparr>) (w\<lparr>aw_store := st\<rparr>)) (wc_logical_key c)
        (StoreCommitError ''committed AgentRun terminal receipt cannot be reloaded'') (wc_response c) = (Inr u, w2)"
    using h by (auto simp: wf_agent_terminal_def split: if_split_asm sum.split_asm prod.split_asm)
  have fresh: "map_of (st_agent_receipts (aw_store w)) (ag_agent_run_id r) = None"
  proof (rule ccontr)
    assume "map_of (st_agent_receipts (aw_store w)) (ag_agent_run_id r) \<noteq> None"
    from commit_receipt_replay [OF k this] y none show False by (simp add: receipt_reply_def actor_simps)
  qed
  show ?thesis
    by (rule receipt_reply_recorded [OF y])
      (use reply c k fresh own in \<open>auto simp: actor_simps validate_agent_terminal_replay_def load_agent_run_def
          load_agent_run_receipt_def get_cas_reference_def commit_agent_run_receipt_def injected_failure_def
          update_conv' split: sum.splits if_splits\<close>)
qed

lemma integration_recorded:
  assumes h: "wf_integration_completed E i oid c s w = (Inr u, w2)"
    and reply: "aw_replies w2 = aw_replies w @ [(wc_response c, RReceipt receipt)]"
    and none: "event_for_receipt (load (aw_store w) (actor_id w)) (wc_logical_key c) = None"
    and c: "wc_run_id c = actor_id w" "wc_payload c = WfIntegrationCompleted i oid"
  shows "recorded c receipt w2"
proof -
  have own: "ii_run_id i = actor_id w" "wc_logical_key c = completed_key i"
    using h by (auto simp: wf_integration_completed_def split: if_splits)
  obtain x st where k: "commit_integration_receipt (en_digests E) (aw_store w) (bump s) i oid
        (integration_events (wc_logical_key c) i oid) = (Inr x, st)"
      and v: "map_option re_sequence (event_for_receipt (load st (actor_id w)) (wc_logical_key c)) = Some (ir_event_sequence x)"
      and y: "receipt_reply (upd_actor (\<lambda>a. a\<lparr>ac_state := map_option sn_state (load st (actor_id w))\<rparr>) (w\<lparr>aw_store := st\<rparr>))
        (wc_logical_key c) (StoreCommitError ''integration receipt could not be reloaded'') (wc_response c) = (Inr u, w2)"
    using h by (auto simp: wf_integration_completed_def Let_def split: if_split_asm sum.split_asm prod.split_asm)
  have "map_of (st_integration_receipts (aw_store w)) (ii_run_id i, ii_idempotency_key i) = None"
    by (rule no_event_no_replay [OF _ k]) (use none own in simp)
  from commit_integration_fresh [OF k this] have
      "map_of (st_integration_intents st) (actor_id w, ii_idempotency_key i) = Some i"
      "ir_verified_commit_oid x = oid" "map_of (st_integration_receipts st) (actor_id w, ii_idempotency_key i) = Some x"
    unfolding own(1) by (metis update_conv' fun_upd_same)+
  with v have check: "validate_integration_replay i oid (re_sequence e) (upd_actor f (w\<lparr>aw_store := st\<rparr>)) = Inr ()"
    if "event_for_receipt (load st (actor_id w)) (wc_logical_key c) = Some e" "\<And>a. ac_run_id (f a) = ac_run_id a" for e f
    using that by (simp add: validate_integration_replay_def load_integration_receipt_def load_integration_intent_def actor_simps)
  show ?thesis
    by (rule receipt_reply_recorded [OF y]) (use reply c check in \<open>simp_all add: actor_simps\<close>)
qed

lemma dispatch_recorded:
  assumes h: "dispatch_workflow E c s w = (Inr u, w2)"
    and reply: "aw_replies w2 = aw_replies w @ [(wc_response c, RReceipt receipt)]"
    and none: "event_for_receipt (load (aw_store w) (actor_id w)) (wc_logical_key c) = None"
    and run: "wc_run_id c = actor_id w"
  shows "recorded c receipt w2"
proof (cases "wc_payload c")
  case (WfAcceptPlan completion plan)
  then obtain nxt st where "receipt_reply (upd_actor (\<lambda>a. a\<lparr>ac_state := Some nxt\<rparr>) (w\<lparr>aw_store := st\<rparr>)) (wc_logical_key c)
      (StoreCommitError ''committed PLAN owner receipt cannot be reloaded'') (wc_response c) = (Inr u, w2)"
    using h by (auto simp: dispatch_workflow_def wf_accept_plan_def Let_def split: if_split_asm sum.split_asm prod.split_asm)
  then show ?thesis
    by (rule receipt_reply_recorded) (use WfAcceptPlan reply run in \<open>simp_all add: actor_simps\<close>)
next
  case WfExecuteRound
  then show ?thesis
    using h reply by (auto simp: dispatch_workflow_def wf_schedule_round_def Let_def log_call_def actor_simps split: if_split_asm)
next
  case (WfAgentStarted a)
  with h obtain nxt events where "(case actor_commit E w nxt events of
       (False, w1) \<Rightarrow> (Inl (StoreCommitError ''AgentRun start receipt could not be committed''), w1)
     | (True, w1) \<Rightarrow> receipt_reply w1 (wc_logical_key c)
         (StoreCommitError ''committed AgentRun start receipt cannot be reloaded'') (wc_response c)) = (Inr u, w2)"
    by (auto simp: dispatch_workflow_def wf_agent_started_def Let_def split: if_split_asm sum.split_asm option.split_asm)
  then show ?thesis by (rule commit_reply_recorded) (use WfAgentStarted reply run in simp_all)
next
  case (WfAgentTerminal r rc obj)
  with h agent_terminal_recorded [OF _ reply none run] show ?thesis by (simp add: dispatch_workflow_def)
next
  case (WfIntegrationIntent i)
  with h reply show ?thesis
    by (auto simp: dispatch_workflow_def wf_persist_intent_def respond_def split: if_split_asm sum.split_asm prod.split_asm)
next
  case (WfIntegrationCompleted i oid)
  with h integration_recorded [OF _ reply none run] show ?thesis by (simp add: dispatch_workflow_def)
next
  case (WfVerification v)
  with h have "(case actor_commit E w (s\<lparr>rs_status := Reporting, rs_version := rs_version s + 1\<rparr>)
             [spec ''run.verify.completed'' [(''receipt_key'', PStr (wc_logical_key c)),
                (''passed'', PBool (vs_passed v)), (''result_sha256'', PStr (vs_result_sha256 v))]] of
        (False, w1) \<Rightarrow> (Inl (StoreCommitError ''VERIFY actor receipt could not be committed''), w1)
      | (True, w1) \<Rightarrow> receipt_reply w1 (wc_logical_key c) (AssertionError []) (wc_response c)) = (Inr u, w2)"
    by (simp add: dispatch_workflow_def wf_verification_def split: if_split_asm)
  then show ?thesis by (rule commit_reply_recorded) (use WfVerification reply run in simp_all)
next
  case (WfReport v)
  with h have "(case actor_commit E w (s\<lparr>rs_status := rp_status v, rs_version := rs_version s + 1\<rparr>)
             [spec ''run.report.completed'' [(''receipt_key'', PStr (wc_logical_key c)),
                (''status'', PStr (run_status_value (rp_status v))), (''result_sha256'', PStr (rp_result_sha256 v))]] of
        (False, w1) \<Rightarrow> (Inl (StoreCommitError ''REPORT actor receipt could not be committed''), w1)
      | (True, w1) \<Rightarrow> receipt_reply w1 (wc_logical_key c) (AssertionError []) (wc_response c)) = (Inr u, w2)"
    by (simp add: dispatch_workflow_def wf_report_def split: if_split_asm)
  then show ?thesis by (rule commit_reply_recorded) (use WfReport reply run in simp_all)
qed

lemma replay_recorded:
  assumes h: "replay_workflow c e w = (Inr u, w2)"
    and e: "event_for_receipt (load (aw_store w) (actor_id w)) (wc_logical_key c) = Some e"
    and reply: "aw_replies w2 = aw_replies w @ [(wc_response c, RReceipt receipt)]"
    and run: "wc_run_id c = actor_id w"
  shows "recorded c receipt w2"
proof -
  let ?r = "\<lparr>ap_run_id = actor_id w, ap_receipt_key = wc_logical_key c, ap_event_sequence = re_sequence e\<rparr>"
  obtain x where w2: "w2 = respond (wc_response c) x w"
      and x: "x = (if wc_payload c = WfExecuteRound then RRound ?r (data_get (re_data e) ''complete'' = Some (PBool True))
                 else RReceipt ?r)"
    using h by (auto simp: replay_workflow_def Let_def split: sum.split_asm)
  have "x = RReceipt receipt" by (rule respond_reply(1) [OF reply [unfolded w2] refl])
  with x have p: "wc_payload c \<noteq> WfExecuteRound" "receipt = ?r" by (auto split: if_splits)
  have "case wc_payload c of
              WfAgentTerminal r rc obj \<Rightarrow> validate_agent_terminal_replay r rc obj c w = Inr ()
            | WfIntegrationCompleted i oid \<Rightarrow> validate_integration_replay i oid (re_sequence e) w = Inr ()
            | _ \<Rightarrow> True"
    using h by (cases "wc_payload c") (auto simp: replay_workflow_def Let_def split: sum.split_asm)
  with p e run have "recorded c receipt w" unfolding recorded_def by blast
  then show ?thesis using recorded_cong [of w2 w c receipt] by (simp add: w2 actor_simps)
qed

lemma receipt_reply_failure: "receipt_reply w key missing n = (Inl e, w2) \<Longrightarrow> w2 = w"
  by (auto simp: receipt_reply_def split: option.split_asm)

lemma commit_reply_failure:
  assumes "(case actor_commit E w nxt events of
       (False, w1) \<Rightarrow> (Inl x, w1) | (True, w1) \<Rightarrow> receipt_reply w1 key missing n) = (Inl e, w2)"
  shows "aw_replies w2 = aw_replies w"
  using assms actor_commit_replies [of E w nxt events]
  by (cases "actor_commit E w nxt events"; cases "fst (actor_commit E w nxt events)")
    (auto dest: receipt_reply_failure)

lemma workflow_failure_silent:
  assumes "handle_workflow E c w = (Inl e, w2)"
  shows "aw_replies w2 = aw_replies w"
proof -
  have "aw_replies w2 = aw_replies w" if d: "dispatch_workflow E c s w = (Inl e, w2)" for s
  proof (cases "wc_payload c")
    case (WfAcceptPlan completion plan)
    with d show ?thesis
      by (auto simp: dispatch_workflow_def wf_accept_plan_def Let_def actor_simps dest!: receipt_reply_failure
          split: if_split_asm sum.split_asm prod.split_asm)
  next
    case (WfAgentStarted a)
    with d show ?thesis
      by (auto simp: dispatch_workflow_def wf_agent_started_def Let_def dest!: commit_reply_failure
          split: if_split_asm sum.split_asm option.split_asm)
  next
    case (WfAgentTerminal r rc obj)
    with d show ?thesis
      by (auto simp: dispatch_workflow_def wf_agent_terminal_def actor_simps dest!: receipt_reply_failure
          split: if_split_asm sum.split_asm prod.split_asm)
  next
    case (WfIntegrationIntent i)
    with d show ?thesis
      by (auto simp: dispatch_workflow_def wf_persist_intent_def split: if_split_asm sum.split_asm prod.split_asm)
  next
    case (WfIntegrationCompleted i oid)
    with d show ?thesis
      by (auto simp: dispatch_workflow_def wf_integration_completed_def Let_def actor_simps dest!: receipt_reply_failure
          split: if_split_asm sum.split_asm prod.split_asm)
  next
    case (WfVerification v)
    with d show ?thesis
      by (auto simp: dispatch_workflow_def wf_verification_def dest!: commit_reply_failure split: if_split_asm)
  next
    case (WfReport v)
    with d show ?thesis
      by (auto simp: dispatch_workflow_def wf_report_def dest!: commit_reply_failure split: if_split_asm)
  qed (use d in \<open>auto simp: dispatch_workflow_def wf_schedule_round_def Let_def split: if_split_asm\<close>)
  then show ?thesis
    using assms
    by (auto simp: handle_workflow_def replay_workflow_def Let_def split: if_split_asm option.split_asm sum.split_asm)
qed

text \<open>The facts of a recorded receipt survive the messages that do not record its key again.\<close>

lemma event_for_receipt_events:
  "event_for_receipt (load st run) key = find (\<lambda>e. carries key (re_data e)) (rev (events_of st run))"
  by (simp add: event_for_receipt_def events_of_def carries_def split: option.split)

lemma grows_event:
  assumes "store_grows run key st st'"
  shows "event_for_receipt (load st' run) key = event_for_receipt (load st run) key"
proof -
  obtain es where es: "events_of st' run = events_of st run @ es" "list_all (\<lambda>e. \<not> carries key (re_data e)) es"
    using assms by (auto simp: store_grows_def)
  have skip: "find (\<lambda>e. carries key (re_data e)) (xs @ ys) = find (\<lambda>e. carries key (re_data e)) ys"
    if "list_all (\<lambda>e. \<not> carries key (re_data e)) xs" for xs ys
    using that by (induction xs) auto
  have "list_all (\<lambda>e. \<not> carries key (re_data e)) (rev es)" using es(2) by (simp add: list_all_iff)
  from skip [OF this] show ?thesis by (simp add: event_for_receipt_events es(1))
qed

lemma grows_records_again:
  assumes "store_grows run key st st'" "\<not> records_again (load st run) k m"
  shows "\<not> records_again (load st' run) k m"
proof -
  have "has_agent_run_event (load x run) t i
      \<longleftrightarrow> list_ex (\<lambda>e. re_event_type e = t \<and> data_get (re_data e) ''agent_run_id'' = Some (PStr (str_uuid i))) (events_of x run)"
    for x t i by (simp add: has_agent_run_event_def events_of_def split: option.split)
  moreover obtain es where "events_of st' run = events_of st run @ es" using assms(1) by (auto simp: store_grows_def)
  ultimately have "has_agent_run_event (load st run) t i \<Longrightarrow> has_agent_run_event (load st' run) t i" for t i by simp
  with assms(2) show ?thesis
    by (auto simp: records_again_def list_ex_iff split: runtime_message.splits option.splits)
qed

lemma recorded_grows:
  assumes "recorded c receipt w" "store_grows (actor_id w) (wc_logical_key c) (aw_store w) (aw_store w')" "actor_id w' = actor_id w"
  shows "recorded c receipt w'"
proof -
  have "validate_agent_terminal_replay r rc obj c w = Inr () \<Longrightarrow> validate_agent_terminal_replay r rc obj c w' = Inr ()" for r rc obj
    using assms(2,3)
    by (auto simp: validate_agent_terminal_replay_def store_grows_def get_cas_reference_def map_le_def dom_def split: if_splits)
  moreover have "validate_integration_replay i oid n w = Inr () \<Longrightarrow> validate_integration_replay i oid n w' = Inr ()" for i oid n
    using assms(2,3)
    by (auto simp: validate_integration_replay_def store_grows_def load_integration_receipt_def load_integration_intent_def
        map_le_def dom_def split: if_splits option.splits)
  ultimately show ?thesis
    using assms(1) unfolding recorded_def assms(3) grows_event [OF assms(2)] by (auto split: workflow_payload.splits)
qed

lemma run_message_id: "actor_id (run_message E m w) = actor_id w"
proof (cases "is_segment_stop m")
  case True
  then obtain payload where m: "m = MSessionInput ''segment_stopped'' payload"
    by (auto simp: is_segment_stop_def split: runtime_message.splits)
  have commit: "actor_commit E w nxt es = (b, w1) \<Longrightarrow> actor_id w1 = actor_id w" for nxt es b w1
    by (auto elim: actor_commit_cases)
  have "actor_id (snd (handle_segment_stopped E payload s w)) = actor_id w" for s
    by (rule segment_stopped_cases [of E payload s w])
      (auto simp: actor_simps commit commit [OF surjective_pairing] split: option.split)
  then show ?thesis
    by (simp add: run_message_handled m handle_message_def handle_session_input_def split: option.split)
next
  case False
  from message_framed [OF this, of w E] show ?thesis by (simp add: framed_def)
qed

lemma messages_keep_recorded:
  assumes "recorded c receipt w" "agent_runs_indexed (aw_store w)"
    and "list_all (\<lambda>m. \<not> records_again (load (aw_store w) (actor_id w)) (wc_logical_key c) m) ms"
  shows "actor_id (run_messages E ms w) = actor_id w
    \<and> store_grows (actor_id w) (wc_logical_key c) (aw_store w) (aw_store (run_messages E ms w))"
  using assms
proof (induction ms arbitrary: w)
  case (Cons m ms)
  let ?w = "run_message E m w"
  have grows: "store_grows (actor_id w) (wc_logical_key c) (aw_store w) (aw_store ?w)"
    by (rule message_grows) (use Cons.prems in \<open>auto simp: recorded_def\<close>)
  have "recorded c receipt ?w" by (rule recorded_grows [OF Cons.prems(1) grows run_message_id])
  moreover have "agent_runs_indexed (aw_store ?w)" using grows Cons.prems(2) by (simp add: store_grows_def)
  moreover have "list_all (\<lambda>m. \<not> records_again (load (aw_store ?w) (actor_id ?w)) (wc_logical_key c) m) ms"
    using Cons.prems(3) grows_records_again [OF grows] by (auto simp: run_message_id list_all_iff)
  ultimately show ?case using Cons.IH [of ?w] store_grows_trans [OF grows] by (auto simp: run_message_id)
qed simp

lemma workflow_keeps_index:
  assumes "agent_runs_indexed (aw_store w)"
  shows "agent_runs_indexed (aw_store (run_message E (MWorkflow c) w))"
proof -
  define key where "key = (if wc_logical_key c = ''a'' then ''b'' else ''a'')"
  then have key: "key \<in> {''a'', ''b''}" "key \<noteq> wc_logical_key c" by auto
  then have "\<not> records_again x key (MWorkflow c)" for x
    by (auto simp: records_again_def started_key_def terminal_key_def split: workflow_payload.split)
  from dispatch_workflow_grows [OF assms this] key(2) have
    "store_grows (actor_id w) key (aw_store w) (aw_store (snd (dispatch_workflow E c s w)))" for s by simp
  moreover have "aw_store (snd (replay_workflow c e w)) = aw_store w" for e
    unfolding replay_workflow_def Let_def by (auto simp: actor_simps split: sum.split)
  ultimately show ?thesis
    using assms unfolding run_message_store
    by (auto simp: handle_message_def handle_workflow_def Let_def store_grows_def split: option.split)
qed

lemma answered_recorded:
  assumes "aw_replies (run_message E (MWorkflow c) w) = aw_replies w @ [(wc_response c, RReceipt receipt)]"
  shows "recorded c receipt (run_message E (MWorkflow c) w)"
proof -
  obtain x w2 where h: "handle_workflow E c w = (x, w2)" by (rule prod.exhaust)
  show ?thesis
  proof (cases x)
    case (Inl e)
    with h have "run_message E (MWorkflow c) w = respond (wc_response c) (RRaised e) (set_error (Some e) w2)"
      by (simp add: run_message_def handle_message_def Let_def)
    from respond_reply(1) [OF assms [unfolded this]] workflow_failure_silent [OF h [unfolded Inl]] show ?thesis
      by (simp add: actor_simps)
  next
    case (Inr u)
    with h have m: "run_message E (MWorkflow c) w = w2" by (simp add: run_message_def handle_message_def)
    note reply = assms [unfolded m]
    have run: "wc_run_id c = actor_id w" using h Inr by (auto simp: handle_workflow_def split: if_split_asm)
    show ?thesis
    proof (cases "event_for_receipt (load (aw_store w) (actor_id w)) (wc_logical_key c)")
      case (Some e)
      with h Inr run have "replay_workflow c e w = (Inr u, w2)" by (simp add: handle_workflow_def)
      from replay_recorded [OF this Some reply run] show ?thesis by (simp add: m)
    next
      case None
      with h Inr run obtain s where "dispatch_workflow E c s w = (Inr u, w2)"
        by (auto simp: handle_workflow_def Let_def split: option.split_asm)
      from dispatch_recorded [OF this reply None run] show ?thesis by (simp add: m)
    qed
  qed
qed

text \<open>C6: Workflow commands take effect exactly once. When the actor has answered a command (plan acceptance,
  an agent start or end, an integration, a verification or a report) with a receipt, then after any further
  messages of the mailbox sending the same command again with another response slot answers with the same
  receipt and changes nothing else: no event is appended, no state is committed, no port is called, and the
  log has the same events under the command's key as after the first answer. The messages in between must not
  record that key again; only those that \<open>records_again\<close> names can: the creation of the run under its own key,
  an agent start or a plan acceptance sent under another logical key, and a finished round whose key it is or
  that ends an agent run whose end is not in the log.\<close>

theorem workflow_exactly_once:
  assumes "aw_replies (run_message E (MWorkflow c) w) = aw_replies w @ [(wc_response c, RReceipt receipt)]"
    and "agent_runs_indexed (aw_store w)"
    and "w1 = run_message E (MWorkflow c) w" and "w2 = run_messages E ms w1"
    and "list_all (\<lambda>m. \<not> records_again (load (aw_store w1) (actor_id w)) (wc_logical_key c) m) ms"
  shows "run_message E (MWorkflow (c\<lparr>wc_response := n\<rparr>)) w2 = respond n (RReceipt receipt) w2
    \<and> filter (\<lambda>e. carries (wc_logical_key c) (re_data e)) (events_of (aw_store w2) (actor_id w))
      = filter (\<lambda>e. carries (wc_logical_key c) (re_data e)) (events_of (aw_store w1) (actor_id w))"
proof -
  have r: "recorded c receipt w1" using answered_recorded [OF assms(1)] assms(3) by simp
  have "agent_runs_indexed (aw_store w1)" using workflow_keeps_index [OF assms(2)] assms(3) by simp
  from messages_keep_recorded [OF r this] assms(3-5) have
    g: "actor_id w2 = actor_id w1" "store_grows (actor_id w1) (wc_logical_key c) (aw_store w1) (aw_store w2)"
    by (simp_all add: run_message_id)
  have "actor_id w1 = actor_id w" using assms(3) by (simp add: run_message_id)
  then have "filter (\<lambda>e. carries (wc_logical_key c) (re_data e)) (events_of (aw_store w2) (actor_id w))
      = filter (\<lambda>e. carries (wc_logical_key c) (re_data e)) (events_of (aw_store w1) (actor_id w))"
    using g(2) by (auto simp: store_grows_def list_all_iff filter_empty_conv)
  with recorded_replays [OF recorded_grows [OF r g(2,1)]] show ?thesis by blast
qed

definition ex_verify :: workflow_command where
  "ex_verify = ex_command (WfVerification \<lparr>vs_passed = True, vs_result_sha256 = ''ab''\<rparr>)"

lemma ex_fields_allowed:
  "casefold ''receipt_key'' \<notin> set FORBIDDEN_FIELDS" "casefold ''passed'' \<notin> set FORBIDDEN_FIELDS"
  "casefold ''result_sha256'' \<notin> set FORBIDDEN_FIELDS" "casefold ''run_status'' \<notin> set FORBIDDEN_FIELDS"
  by (simp_all add: scan_eval Let_def)

lemma ex_verify_answered:
  "aw_replies (run_message ex_env (MWorkflow ex_verify) (ex_world Verifying))
     = [(0, RReceipt \<lparr>ap_run_id = 5, ap_receipt_key = ''verify:5'', ap_event_sequence = 1\<rparr>)]"
  by (simp add: run_message_def handle_message_def handle_workflow_def ex_verify_def ex_command_def ex_world_def
      event_for_receipt_def load_def dispatch_workflow_def wf_verification_def actor_commit_def Let_def
      run_state_init_def store_init_def store_commit_def store_write_def events_of_def redact_event_data_def redact_def
      ex_fields_allowed contains_secret_def next_in_memory_evolution_def upd_actor_def receipt_reply_def
      run_status_changed_event_def respond_def data_get_def spec_def)

definition ex_later :: "runtime_message list" where
  "ex_later =
     [MWorkflow ((ex_command (WfReport \<lparr>rp_result_sha256 = [], rp_status = Completed\<rparr>))\<lparr>wc_logical_key := ''report:5''\<rparr>),
      MSessionInput ''note'' [], MRoundFinished ''round:1'' None None, MCancel 5 None]"

theorem workflow_exactly_once_witness:
  "let w = ex_world Verifying; w1 = run_message ex_env (MWorkflow ex_verify) w; w2 = run_messages ex_env ex_later w1;
       receipt = \<lparr>ap_run_id = 5, ap_receipt_key = ''verify:5'', ap_event_sequence = 1\<rparr>
   in aw_replies w1 = aw_replies w @ [(wc_response ex_verify, RReceipt receipt)]
    \<and> run_message ex_env (MWorkflow (ex_verify\<lparr>wc_response := 1\<rparr>)) w2 = respond 1 (RReceipt receipt) w2
    \<and> filter (\<lambda>e. carries (wc_logical_key ex_verify) (re_data e)) (events_of (aw_store w2) (actor_id w))
      = filter (\<lambda>e. carries (wc_logical_key ex_verify) (re_data e)) (events_of (aw_store w1) (actor_id w))"
proof -
  have r: "aw_replies (run_message ex_env (MWorkflow ex_verify) (ex_world Verifying))
     = aw_replies (ex_world Verifying) @ [(wc_response ex_verify, RReceipt \<lparr>ap_run_id = 5, ap_receipt_key = ''verify:5'', ap_event_sequence = 1\<rparr>)]"
    by (simp add: ex_verify_answered) (simp add: ex_verify_def ex_command_def ex_world_def Let_def)
  have i: "agent_runs_indexed (aw_store (ex_world Verifying))"
    by (simp add: agent_runs_indexed_def ex_world_def Let_def store_init_def)
  have m: "list_all (\<lambda>m. \<not> records_again x (wc_logical_key ex_verify) m) ex_later" for x
    by (simp add: ex_later_def ex_verify_def ex_command_def records_again_def)
  show ?thesis
    unfolding Let_def using r workflow_exactly_once [OF r i refl refl m, of 1] by blast
qed

end
