(* ===== verification/Py_Json.thy ===== *)
theory Py_Json
  imports Runtime_Store
begin

text \<open>
  Results in sequence, and \<open>json\<close> of the standard library on the values of the program: \<open>json_dumps\<close> is
  \<open>json.dumps\<close> with the separators \<open>","\<close> and \<open>":"\<close> (with or without \<open>ensure_ascii\<close> and \<open>sort_keys\<close>), and
  \<open>json_reload\<close> is the value \<open>json.loads(json.dumps(v, sort_keys=True))\<close>, which sorts the keys of every
  object, turns tuples into lists and refuses objects JSON does not have. The shortest decimal text of
  a float is a parameter.
\<close>

section \<open>Results\<close>

definition bind_res :: "'e + 'a \<Rightarrow> ('a \<Rightarrow> 'e + 'b) \<Rightarrow> 'e + 'b" where
  "bind_res r f = (case r of Inl e \<Rightarrow> Inl e | Inr x \<Rightarrow> f x)"

lemma bind_res_simps [simp, res_simps]: "bind_res (Inr x) f = f x" "bind_res (Inl e) f = Inl e"
  by (simp_all add: bind_res_def)

lemma bind_Inr: "bind_res r f = Inr y \<longleftrightarrow> (\<exists>x. r = Inr x \<and> f x = Inr y)"
  by (cases r) simp_all

lemma if_Inr: "(if b then Inl e else r) = Inr y \<longleftrightarrow> \<not> b \<and> r = Inr y"
  by simp

fun traverse :: "('a \<Rightarrow> 'e + 'b) \<Rightarrow> 'a list \<Rightarrow> 'e + 'b list" where
  "traverse f [] = Inr []"
| "traverse f (x # xs) = bind_res (f x) (\<lambda>y. map_sum id ((#) y) (traverse f xs))"

lemma traverse_map: "traverse f (map g xs) = traverse (f \<circ> g) xs"
  by (induction xs) simp_all

lemma traverse_ok: "(\<And>x. x \<in> set xs \<Longrightarrow> f x = Inr (g x)) \<Longrightarrow> traverse f xs = Inr (map g xs)"
  by (induction xs) simp_all

lemma traverse_total: "(\<And>x. x \<in> set xs \<Longrightarrow> is_ok (f x)) \<Longrightarrow> is_ok (traverse f xs)"
proof (induction xs)
  case (Cons x xs)
  then obtain y ys where "f x = Inr y" "traverse f xs = Inr ys" by (metis is_okE list.set_intros)
  then show ?case by simp
qed simp

section \<open>Reloading\<close>

fun entry_keys :: "dict_key \<Rightarrow> string" where
  "entry_keys (StrKey s) = s"
| "entry_keys OtherKey = []"

definition sort_entries :: "(dict_key \<times> 'a) list \<Rightarrow> (dict_key \<times> 'a) list" where
  "sort_entries kvs = sort_key (entry_keys \<circ> fst) kvs"

primrec json_reload :: "pyval \<Rightarrow> pyval res" where
  "json_reload PNone = Inr PNone"
| "json_reload (PBool b) = Inr (PBool b)"
| "json_reload (PInt i) = Inr (PInt i)"
| "json_reload (PFloat x) = Inr (PFloat x)"
| "json_reload (PStr s) = Inr (PStr s)"
| "json_reload (PUuid u) = Inl (TypeError ''Object of type UUID is not JSON serializable'')"
| "json_reload PObject = Inl (TypeError ''Object is not JSON serializable'')"
| "json_reload (PList vs) = map_sum id PList (traverse id (map json_reload vs))"
| "json_reload (PTuple vs) = map_sum id PList (traverse id (map json_reload vs))"
| "json_reload (PDict kvs) =
     map_sum id (PDict \<circ> sort_entries)
       (traverse (\<lambda>(k, r). case k of OtherKey \<Rightarrow> Inl (TypeError ''keys must be str, int, float, bool or None'')
                          | StrKey s \<Rightarrow> map_sum id (Pair (StrKey s)) r)
         (map (map_prod id json_reload) kvs))"

lemma map_of_stable:
  assumes "\<And>x y. fst x = fst y \<Longrightarrow> f x = f y"
  shows "map_of (sort_key f kvs) k = map_of kvs k"
proof -
  have restrict: "map_of (filter (\<lambda>y. f y = f (k, undefined)) xs) k = map_of xs k" for xs :: "('a \<times> 'b) list"
  proof (induction xs)
    case (Cons x xs)
    have "fst x = k \<Longrightarrow> f x = f (k, undefined)" by (rule assms) simp
    with Cons show ?case by auto
  qed simp
  have "map_of (filter (\<lambda>y. f y = f (k, undefined)) (sort_key f kvs)) k
      = map_of (filter (\<lambda>y. f y = f (k, undefined)) kvs) k" by (simp only: sort_key_stable)
  then show ?thesis by (simp only: restrict)
qed

lemma map_of_sort_entries [simp]: "map_of (sort_entries kvs) k = map_of kvs k"
  unfolding sort_entries_def by (rule map_of_stable) simp

lemma set_sort_entries [simp]: "set (sort_entries kvs) = set kvs"
  by (simp add: sort_entries_def)

abbreviation obj :: "(string \<times> pyval) list \<Rightarrow> pyval" where
  "obj kvs \<equiv> PDict (map (apfst StrKey) kvs)"

section \<open>Printing\<close>

text \<open>\<open>ensure_ascii=False\<close> escapes the quote, the backslash and the control characters only.\<close>

definition json_plain_point :: "string \<Rightarrow> string" where
  "json_plain_point cp = (if cp_value cp = 34 \<or> cp_value cp = 92 \<or> cp_value cp < 32 then json_escape_point (cp_value cp) else cp)"

definition json_string :: "bool \<Rightarrow> string \<Rightarrow> string" where
  "json_string ascii s =
     CHR 0x22 # (if ascii then json_escape s else concat (map json_plain_point (code_points s))) @ [CHR 0x22]"

text \<open>The arguments are the text of a float, \<open>ensure_ascii\<close> and \<open>sort_keys\<close>.\<close>

primrec json_dumps :: "(rat \<Rightarrow> string) \<Rightarrow> bool \<Rightarrow> bool \<Rightarrow> pyval \<Rightarrow> string res" where
  "json_dumps R ascii ordered PNone = Inr ''null''"
| "json_dumps R ascii ordered (PBool b) = Inr (if b then ''true'' else ''false'')"
| "json_dumps R ascii ordered (PInt i) = Inr (str_int i)"
| "json_dumps R ascii ordered (PFloat x) = Inr (R x)"
| "json_dumps R ascii ordered (PStr s) = Inr (json_string ascii s)"
| "json_dumps R ascii ordered (PUuid u) = Inl (TypeError ''Object of type UUID is not JSON serializable'')"
| "json_dumps R ascii ordered PObject = Inl (TypeError ''Object is not JSON serializable'')"
| "json_dumps R ascii ordered (PList vs) =
     map_sum id (\<lambda>ts. ''['' @ join_with '','' ts @ '']'') (traverse id (map (json_dumps R ascii ordered) vs))"
| "json_dumps R ascii ordered (PTuple vs) =
     map_sum id (\<lambda>ts. ''['' @ join_with '','' ts @ '']'') (traverse id (map (json_dumps R ascii ordered) vs))"
| "json_dumps R ascii ordered (PDict kvs) =
     map_sum id (\<lambda>es. ''{'' @ join_with '','' (map (\<lambda>(k, t). json_string ascii (entry_keys k) @ '':'' @ t)
         (if ordered then sort_entries es else es)) @ ''}'')
       (traverse (\<lambda>(k, r). case k of OtherKey \<Rightarrow> Inl (TypeError ''keys must be str, int, float, bool or None'')
                          | StrKey s \<Rightarrow> map_sum id (Pair (StrKey s)) r)
         (map (map_prod id (json_dumps R ascii ordered)) kvs))"

end
