(* ===== verification/Runtime_Codec.thy ===== *)
theory Runtime_Codec
  imports Runtime_Contracts Py_Json
begin

text \<open>
  The JSON codec of \<open>runtime/store.py\<close>: what the PostgreSQL store writes for a run state and an agent
  run (\<open>_json_value\<close>, \<open>_dump_json\<close>, \<open>_dump_agent_run\<close>) and how it reads them back (\<open>_decode_state\<close>,
  \<open>_decode_agent_run\<close>).

  JSON text is kept as the value it denotes (\<open>json_reload\<close> of \<open>Py_Json\<close>).
  The Pydantic models inside the records (\<open>ActiveDispatch\<close>, \<open>CreateRun\<close>, \<open>SliceGenerationRef\<close>) are dumped
  and validated by parameters (\<open>codec\<close>). \<open>RunState\<close> does not check the type of its string fields; a
  payload that holds anything else than a string there has no value in the model and is an error.
\<close>

section \<open>JSON\<close>

record codec =
  cd_str :: "pyval \<Rightarrow> string"
  cd_str_key :: string
  cd_dump_dispatch :: "active_dispatch \<Rightarrow> pyval"
  cd_load_dispatch :: "pyval \<Rightarrow> active_dispatch res"
  cd_dump_request :: "create_run \<Rightarrow> pyval"
  cd_load_request :: "pyval \<Rightarrow> create_run res"
  cd_dump_slice_ref :: "slice_generation_ref \<Rightarrow> pyval"
  cd_load_slice_ref :: "pyval \<Rightarrow> slice_generation_ref res"

text \<open>\<open>str(key)\<close>; \<open>cd_str_key\<close> is the text of a key that is not a string.\<close>

fun str_key :: "codec \<Rightarrow> dict_key \<Rightarrow> dict_key" where
  "str_key C (StrKey s) = StrKey s"
| "str_key C OtherKey = StrKey (cd_str_key C)"

primrec json_value :: "codec \<Rightarrow> pyval \<Rightarrow> pyval" where
  "json_value C PNone = PNone"
| "json_value C (PBool b) = PBool b"
| "json_value C (PInt i) = PInt i"
| "json_value C (PFloat x) = PFloat x"
| "json_value C (PStr s) = PStr s"
| "json_value C (PUuid u) = PStr (str_uuid u)"
| "json_value C (PList vs) = PList (map (json_value C) vs)"
| "json_value C (PTuple vs) = PList (map (json_value C) vs)"
| "json_value C (PDict kvs) = PDict (py_dict (map (apfst (str_key C)) (map (map_prod id (json_value C)) kvs)))"
| "json_value C PObject = PObject"

definition stored :: "codec \<Rightarrow> pyval \<Rightarrow> pyval res" where
  "stored C v = json_reload (json_value C v)"

section \<open>Reading values\<close>

definition get_item :: "pyval \<Rightarrow> string \<Rightarrow> pyval res" where
  "get_item v key = (case v of
       PDict kvs \<Rightarrow> (case map_of kvs (StrKey key) of None \<Rightarrow> Inl (KeyError key) | Some x \<Rightarrow> Inr x)
     | _ \<Rightarrow> Inl (TypeError ''object has no string keys''))"

text \<open>\<open>payload.get(key, default)\<close>.\<close>

definition get_or :: "pyval \<Rightarrow> string \<Rightarrow> pyval \<Rightarrow> pyval res" where
  "get_or v key fallback = (case v of
       PDict kvs \<Rightarrow> (case map_of kvs (StrKey key) of None \<Rightarrow> Inr fallback | Some x \<Rightarrow> Inr x)
     | _ \<Rightarrow> Inl (AttributeError ''object has no attribute get''))"

text \<open>\<open>int(text)\<close> of ASCII text.\<close>

definition dec_val :: "char \<Rightarrow> nat option" where
  "dec_val c = (let n = of_char c :: nat in if 48 \<le> n \<and> n < 58 then Some (n - 48) else None)"

fun dec_run :: "nat \<Rightarrow> string \<Rightarrow> nat option" where
  "dec_run acc [] = Some acc"
| "dec_run acc [c] = map_option (\<lambda>v. acc * 10 + v) (dec_val c)"
| "dec_run acc (c # d # cs) =
     (if c = CHR ''_''
      then (case dec_val d of None \<Rightarrow> None | Some v \<Rightarrow> dec_run (acc * 10 + v) cs)
      else (case dec_val c of None \<Rightarrow> None | Some v \<Rightarrow> dec_run (acc * 10 + v) (d # cs)))"

definition dec_number :: "string \<Rightarrow> nat option" where
  "dec_number s = (case s of
       [] \<Rightarrow> None
     | c # cs \<Rightarrow> (case dec_val c of None \<Rightarrow> None | Some v \<Rightarrow> dec_run v cs))"

definition int10 :: "string \<Rightarrow> int option" where
  "int10 s =
     (let t = strip_if py_space s in
      if take 1 t = ''-'' then map_option (\<lambda>n. - int n) (dec_number (drop 1 t))
      else if take 1 t = ''+'' then map_option int (dec_number (drop 1 t))
      else map_option int (dec_number t))"

definition py_int :: "pyval \<Rightarrow> int res" where
  "py_int v = (case v of
       PInt i \<Rightarrow> Inr i
     | PBool b \<Rightarrow> Inr (if b then 1 else 0)
     | PFloat x \<Rightarrow> Inr (if x < 0 then - \<lfloor>- x\<rfloor> else \<lfloor>x\<rfloor>)
     | PStr s \<Rightarrow> (case int10 s of
           None \<Rightarrow> Inl (ValueError ''invalid literal for int() with base 10'') | Some i \<Rightarrow> Inr i)
     | _ \<Rightarrow> Inl (TypeError ''int() argument must be a string or a real number''))"

definition py_str :: "codec \<Rightarrow> pyval \<Rightarrow> string" where
  "py_str C v = (case v of PStr s \<Rightarrow> s | PUuid u \<Rightarrow> str_uuid u | _ \<Rightarrow> cd_str C v)"

definition py_uuid :: "pyval \<Rightarrow> uuid res" where
  "py_uuid v = (case v of
       PStr s \<Rightarrow> (case parse_uuid s of
           None \<Rightarrow> Inl (ValueError ''badly formed hexadecimal UUID string'') | Some u \<Rightarrow> Inr u)
     | PNone \<Rightarrow> Inl (TypeError ''one of the hex, bytes, bytes_le, fields, or int arguments must be given'')
     | _ \<Rightarrow> Inl (AttributeError ''object has no attribute replace''))"

definition py_enum :: "('a \<Rightarrow> string) \<Rightarrow> 'a list \<Rightarrow> pyval \<Rightarrow> 'a res" where
  "py_enum value members v = (case v of
       PStr s \<Rightarrow> enum_of value members s
     | _ \<Rightarrow> Inl (ValueError ''not a valid member''))"

text \<open>\<open>tuple(value)\<close>.\<close>

definition py_items :: "pyval \<Rightarrow> pyval list res" where
  "py_items v = (case v of
       PList vs \<Rightarrow> Inr vs
     | PTuple vs \<Rightarrow> Inr vs
     | PStr s \<Rightarrow> Inr (map PStr (code_points s))
     | PDict kvs \<Rightarrow> Inr (map (\<lambda>(k, _). case k of StrKey s \<Rightarrow> PStr s | OtherKey \<Rightarrow> PObject) kvs)
     | _ \<Rightarrow> Inl (TypeError ''object is not iterable''))"

definition py_index :: "pyval \<Rightarrow> nat \<Rightarrow> pyval res" where
  "py_index v i = (case v of
       PList vs \<Rightarrow> if i < length vs then Inr (vs ! i) else Inl (IndexError ''list index out of range'')
     | PTuple vs \<Rightarrow> if i < length vs then Inr (vs ! i) else Inl (IndexError ''tuple index out of range'')
     | PStr s \<Rightarrow>
         if i < length (code_points s) then Inr (PStr (code_points s ! i))
         else Inl (IndexError ''string index out of range'')
     | PDict _ \<Rightarrow> Inl (KeyError (str_nat i))
     | _ \<Rightarrow> Inl (TypeError ''object is not subscriptable''))"

text \<open>A field the model types as a string.\<close>

definition typed_str :: "pyval \<Rightarrow> string res" where
  "typed_str v = (case v of PStr s \<Rightarrow> Inr s | _ \<Rightarrow> Inl (TypeError ''expected a string''))"

definition typed_opt_str :: "pyval \<Rightarrow> string option res" where
  "typed_opt_str v = (case v of PNone \<Rightarrow> Inr None | PStr s \<Rightarrow> Inr (Some s) | _ \<Rightarrow> Inl (TypeError ''expected a string''))"

text \<open>\<open>f(v) if v is not None else None\<close>, and the same with \<open>if v\<close>.\<close>

definition unless_none :: "(pyval \<Rightarrow> 'a res) \<Rightarrow> pyval \<Rightarrow> 'a option res" where
  "unless_none f v = (if v = PNone then Inr None else map_sum id Some (f v))"

definition unless_false :: "(pyval \<Rightarrow> 'a res) \<Rightarrow> pyval \<Rightarrow> 'a option res" where
  "unless_false f v = (if truthy v then map_sum id Some (f v) else Inr None)"

section \<open>Run states\<close>

definition json_opt :: "('a \<Rightarrow> pyval) \<Rightarrow> 'a option \<Rightarrow> pyval" where
  "json_opt f x = (case x of None \<Rightarrow> PNone | Some y \<Rightarrow> f y)"

definition asdict_usage :: "budget_usage \<Rightarrow> pyval" where
  "asdict_usage u = obj [(''input_tokens'', PInt (bu_input_tokens u)), (''output_tokens'', PInt (bu_output_tokens u)),
     (''cost_micros'', PInt (bu_cost_micros u))]"

definition asdict_fact :: "candidate_checkpoint_fact \<Rightarrow> pyval" where
  "asdict_fact f = obj [(''agent_run_id'', PUuid (cf_agent_run_id f)), (''slice_id'', PUuid (cf_slice_id f)),
     (''generation'', PInt (cf_generation f)), (''expected_candidate_oid'', PStr (cf_expected_candidate_oid f)),
     (''candidate_oid'', PStr (cf_candidate_oid f)), (''receipt_sha256'', PStr (cf_receipt_sha256 f))]"

text \<open>
  \<open>asdict(state)\<close>. An enumeration member is already replaced by its value and a Pydantic model by
  \<open>model_dump(mode="json", by_alias=True)\<close>, the first things \<open>_json_value\<close> does with them.
\<close>

definition asdict_state :: "codec \<Rightarrow> run_state \<Rightarrow> pyval" where
  "asdict_state C s = obj
     [(''run_id'', PUuid (rs_run_id s)),
      (''status'', PStr (run_status_value (rs_status s))),
      (''version'', PInt (rs_version s)),
      (''cancel_requested'', PBool (rs_cancel_requested s)),
      (''failure_reason'', json_opt (PStr \<circ> failure_reason_value) (rs_failure_reason s)),
      (''new_calls_enabled'', PBool (rs_new_calls_enabled s)),
      (''budget_usage'', asdict_usage (rs_budget_usage s)),
      (''budget_warning_emitted'', PBool (rs_budget_warning_emitted s)),
      (''active_dispatches'', PTuple (map (cd_dump_dispatch C) (rs_active_dispatches s))),
      (''continuation_counts'', PTuple (map (\<lambda>(g, n). PTuple [PInt g, PInt n]) (rs_continuation_counts s))),
      (''terminal_slice_failures'', PTuple (map PStr (rs_terminal_slice_failures s))),
      (''adopted_advice_ids'', PTuple (map PStr (rs_adopted_advice_ids s))),
      (''pending_advice_ids'', PTuple (map PStr (rs_pending_advice_ids s))),
      (''reporting_halted'', PBool (rs_reporting_halted s)),
      (''create_request'', json_opt (cd_dump_request C) (rs_create_request s)),
      (''frozen_plan_sha256'', json_opt PStr (rs_frozen_plan_sha256 s)),
      (''candidate_checkpoints'', PTuple (map asdict_fact (rs_candidate_checkpoints s)))]"

text \<open>\<open>BudgetUsage(**fields)\<close>: absent fields default to zero, and a field that is not an \<open>int\<close> is refused.\<close>

definition usage_field :: "(dict_key \<times> pyval) list \<Rightarrow> string \<Rightarrow> int res" where
  "usage_field kvs name = (case map_of kvs (StrKey name) of
       None \<Rightarrow> Inr 0
     | Some (PInt i) \<Rightarrow> Inr i
     | Some _ \<Rightarrow> Inl (ValueError (name @ '' must be a non-negative integer'')))"

definition decode_usage :: "pyval \<Rightarrow> budget_usage res" where
  "decode_usage v = (case v of
       PDict kvs \<Rightarrow>
         if \<not> fst ` set kvs \<subseteq> StrKey ` {''input_tokens'', ''output_tokens'', ''cost_micros''}
         then Inl (TypeError ''BudgetUsage.__init__() got an unexpected keyword argument'')
         else bind_res (usage_field kvs ''input_tokens'') (\<lambda>i.
              bind_res (non_negative i ''input_tokens'') (\<lambda>_.
              bind_res (usage_field kvs ''output_tokens'') (\<lambda>out.
              bind_res (non_negative out ''output_tokens'') (\<lambda>_.
              bind_res (usage_field kvs ''cost_micros'') (\<lambda>c.
              usage_init i out c)))))
     | _ \<Rightarrow> Inl (TypeError ''argument after ** must be a mapping''))"

definition decode_fact :: "codec \<Rightarrow> pyval \<Rightarrow> candidate_checkpoint_fact res" where
  "decode_fact C item =
     bind_res (get_item item ''agent_run_id'') (\<lambda>v1. bind_res (py_uuid v1) (\<lambda>agent_run_id.
     bind_res (get_item item ''slice_id'') (\<lambda>v2. bind_res (py_uuid v2) (\<lambda>slice_id.
     bind_res (get_item item ''generation'') (\<lambda>v3. bind_res (py_int v3) (\<lambda>generation.
     bind_res (get_item item ''expected_candidate_oid'') (\<lambda>v4.
     bind_res (get_item item ''candidate_oid'') (\<lambda>v5.
     bind_res (get_item item ''receipt_sha256'') (\<lambda>v6.
     candidate_fact_init
       \<lparr>cf_agent_run_id = agent_run_id, cf_slice_id = slice_id, cf_generation = generation,
        cf_expected_candidate_oid = py_str C v4, cf_candidate_oid = py_str C v5, cf_receipt_sha256 = py_str C v6\<rparr>)))))))))"

definition decode_count :: "pyval \<Rightarrow> (int \<times> int) res" where
  "decode_count item =
     bind_res (py_index item 0) (\<lambda>a. bind_res (py_int a) (\<lambda>g.
     bind_res (py_index item 1) (\<lambda>b. bind_res (py_int b) (\<lambda>n. Inr (g, n)))))"

definition decode_state :: "codec \<Rightarrow> pyval \<Rightarrow> run_state res" where
  "decode_state C payload =
     bind_res (bind_res (get_item payload ''run_id'') py_uuid) (\<lambda>run_id.
     bind_res (bind_res (get_item payload ''status'') (py_enum run_status_value run_statuses)) (\<lambda>status.
     bind_res (bind_res (get_item payload ''version'') py_int) (\<lambda>version.
     bind_res (map_sum id truthy (get_item payload ''cancel_requested'')) (\<lambda>cancel_requested.
     bind_res (bind_res (get_or payload ''failure_reason'' PNone)
       (unless_none (py_enum failure_reason_value failure_reasons))) (\<lambda>failure_reason.
     bind_res (map_sum id truthy (get_item payload ''new_calls_enabled'')) (\<lambda>new_calls_enabled.
     bind_res (bind_res (get_item payload ''budget_usage'') decode_usage) (\<lambda>budget_usage.
     bind_res (map_sum id truthy (get_item payload ''budget_warning_emitted'')) (\<lambda>budget_warning_emitted.
     bind_res (bind_res (bind_res (get_item payload ''active_dispatches'') py_items)
       (traverse (cd_load_dispatch C))) (\<lambda>active_dispatches.
     bind_res (bind_res (bind_res (get_item payload ''continuation_counts'') py_items)
       (traverse decode_count)) (\<lambda>continuation_counts.
     bind_res (bind_res (bind_res (get_item payload ''terminal_slice_failures'') py_items)
       (traverse typed_str)) (\<lambda>terminal_slice_failures.
     bind_res (bind_res (bind_res (get_or payload ''adopted_advice_ids'' (PTuple [])) py_items)
       (traverse typed_str)) (\<lambda>adopted_advice_ids.
     bind_res (bind_res (bind_res (get_or payload ''pending_advice_ids'' (PTuple [])) py_items)
       (traverse typed_str)) (\<lambda>pending_advice_ids.
     bind_res (bind_res (get_or payload ''create_request'' PNone) (unless_none (cd_load_request C))) (\<lambda>create_request.
     bind_res (bind_res (get_or payload ''frozen_plan_sha256'' PNone) typed_opt_str) (\<lambda>frozen_plan_sha256.
     bind_res (bind_res (bind_res (get_or payload ''candidate_checkpoints'' (PTuple [])) py_items)
       (traverse (decode_fact C))) (\<lambda>candidate_checkpoints.
     Inr \<lparr>rs_run_id = run_id, rs_status = status, rs_version = version, rs_cancel_requested = cancel_requested,
          rs_failure_reason = failure_reason, rs_new_calls_enabled = new_calls_enabled,
          rs_budget_usage = budget_usage, rs_budget_warning_emitted = budget_warning_emitted,
          rs_active_dispatches = active_dispatches, rs_continuation_counts = continuation_counts,
          rs_terminal_slice_failures = terminal_slice_failures, rs_adopted_advice_ids = adopted_advice_ids,
          rs_pending_advice_ids = pending_advice_ids, rs_reporting_halted = False,
          rs_create_request = create_request, rs_frozen_plan_sha256 = frozen_plan_sha256,
          rs_candidate_checkpoints = candidate_checkpoints\<rparr>))))))))))))))))"

definition dump_json :: "codec \<Rightarrow> run_state \<Rightarrow> pyval res" where
  "dump_json C s = stored C (asdict_state C s)"

section \<open>Agent runs\<close>

definition asdict_agent_run :: "codec \<Rightarrow> agent_run \<Rightarrow> pyval" where
  "asdict_agent_run C r = obj
     [(''agent_run_id'', PUuid (ag_agent_run_id r)),
      (''owner_kind'', PStr (ag_owner_kind r)),
      (''owner_id'', PUuid (ag_owner_id r)),
      (''logical_task_key'', PStr (ag_logical_task_key r)),
      (''phase'', PStr (phase_value (ag_phase r))),
      (''session_kind'', PStr (session_kind_value (ag_session_kind r))),
      (''thread_id'', PStr (ag_thread_id r)),
      (''model_binding_sha256'', PStr (ag_model_binding_sha256 r)),
      (''context_sha256'', PStr (ag_context_sha256 r)),
      (''toolset_sha256'', PStr (ag_toolset_sha256 r)),
      (''template_sha256'', PStr (ag_template_sha256 r)),
      (''slice_ref'', json_opt (cd_dump_slice_ref C) (ag_slice_ref r)),
      (''write_scope_sha256'', json_opt PStr (ag_write_scope_sha256 r)),
      (''checkpoint_sha256'', json_opt PStr (ag_checkpoint_sha256 r)),
      (''candidate_checkpoint_sha256'', json_opt PStr (ag_candidate_checkpoint_sha256 r)),
      (''result_sha256'', json_opt PStr (ag_result_sha256 r)),
      (''usage_sha256'', json_opt PStr (ag_usage_sha256 r)),
      (''retry_of'', json_opt PUuid (ag_retry_of r)),
      (''continuation_of'', json_opt PUuid (ag_continuation_of r)),
      (''restarted_from'', json_opt PUuid (ag_restarted_from r)),
      (''state'', PStr (session_state_value (ag_state r))),
      (''exit'', json_opt (PStr \<circ> session_exit_value) (ag_exit r))]"

definition dump_agent_run :: "codec \<Rightarrow> agent_run \<Rightarrow> pyval res" where
  "dump_agent_run C r = stored C (asdict_agent_run C r)"

text \<open>A digest that is not a string fails the SHA-256 check of the constructor, as the empty string does.\<close>

definition digest_of :: "pyval \<Rightarrow> string option" where
  "digest_of v = (case v of PNone \<Rightarrow> None | PStr s \<Rightarrow> Some s | _ \<Rightarrow> Some [])"

definition digest_field :: "pyval \<Rightarrow> string \<Rightarrow> string option res" where
  "digest_field payload name = map_sum id digest_of (get_or payload name PNone)"

definition str_field :: "codec \<Rightarrow> pyval \<Rightarrow> string \<Rightarrow> string res" where
  "str_field C payload name = map_sum id (py_str C) (get_item payload name)"

definition decode_agent_run :: "codec \<Rightarrow> pyval \<Rightarrow> agent_run res" where
  "decode_agent_run C payload =
     bind_res (bind_res (get_item payload ''agent_run_id'') py_uuid) (\<lambda>agent_run_id.
     bind_res (str_field C payload ''owner_kind'') (\<lambda>owner_kind.
     bind_res (bind_res (get_item payload ''owner_id'') py_uuid) (\<lambda>owner_id.
     bind_res (str_field C payload ''logical_task_key'') (\<lambda>logical_task_key.
     bind_res (bind_res (get_item payload ''phase'') (py_enum phase_value phases)) (\<lambda>phase.
     bind_res (bind_res (get_item payload ''session_kind'') (py_enum session_kind_value session_kinds)) (\<lambda>session_kind.
     bind_res (str_field C payload ''thread_id'') (\<lambda>thread_id.
     bind_res (str_field C payload ''model_binding_sha256'') (\<lambda>model_binding.
     bind_res (str_field C payload ''context_sha256'') (\<lambda>ctxt.
     bind_res (str_field C payload ''toolset_sha256'') (\<lambda>toolset.
     bind_res (str_field C payload ''template_sha256'') (\<lambda>template.
     bind_res (bind_res (get_or payload ''slice_ref'' PNone) (unless_none (cd_load_slice_ref C))) (\<lambda>slice_ref.
     bind_res (bind_res (get_or payload ''retry_of'' PNone) (unless_false py_uuid)) (\<lambda>retry_of.
     bind_res (bind_res (get_or payload ''continuation_of'' PNone) (unless_false py_uuid)) (\<lambda>continuation_of.
     bind_res (bind_res (get_or payload ''restarted_from'' PNone) (unless_false py_uuid)) (\<lambda>restarted_from.
     bind_res (bind_res (get_item payload ''state'') (py_enum session_state_value session_states)) (\<lambda>state.
     bind_res (bind_res (get_or payload ''exit'' PNone) (unless_false (py_enum session_exit_value session_exits))) (\<lambda>ex.
     bind_res (digest_field payload ''write_scope_sha256'') (\<lambda>write_scope.
     bind_res (digest_field payload ''checkpoint_sha256'') (\<lambda>checkpoint.
     bind_res (digest_field payload ''candidate_checkpoint_sha256'') (\<lambda>candidate.
     bind_res (digest_field payload ''result_sha256'') (\<lambda>result.
     bind_res (digest_field payload ''usage_sha256'') (\<lambda>usage.
     agent_run_init
       \<lparr>ag_agent_run_id = agent_run_id, ag_owner_kind = owner_kind, ag_owner_id = owner_id,
        ag_logical_task_key = logical_task_key, ag_phase = phase, ag_session_kind = session_kind,
        ag_thread_id = thread_id, ag_model_binding_sha256 = model_binding, ag_context_sha256 = ctxt,
        ag_toolset_sha256 = toolset, ag_template_sha256 = template, ag_slice_ref = slice_ref,
        ag_write_scope_sha256 = write_scope, ag_checkpoint_sha256 = checkpoint,
        ag_candidate_checkpoint_sha256 = candidate, ag_result_sha256 = result, ag_usage_sha256 = usage,
        ag_retry_of = retry_of, ag_continuation_of = continuation_of, ag_restarted_from = restarted_from,
        ag_state = state, ag_exit = ex\<rparr>))))))))))))))))))))))"

section \<open>Lookups in stored objects\<close>

text \<open>Objects whose keys are distinct strings.\<close>

lemma json_value_obj:
  assumes "distinct (map fst kvs)"
  shows "json_value C (obj kvs) = obj (map (apsnd (json_value C)) kvs)"
proof -
  have "map (apfst (str_key C)) (map (map_prod id (json_value C)) (map (apfst StrKey) kvs))
      = map (apfst StrKey) (map (apsnd (json_value C)) kvs)" by (induction kvs) auto
  moreover have "distinct (map fst (map (apfst StrKey) (map (apsnd (json_value C)) kvs)))"
    using assms by (simp add: comp_def distinct_map inj_on_def)
  ultimately show ?thesis by (simp only: json_value.simps py_dict_id)
qed

lemma json_reload_obj:
  assumes "list_all2 (\<lambda>(k, v) (k', w). k = k' \<and> json_reload v = Inr w) kvs ws"
  shows "json_reload (obj kvs) = Inr (PDict (sort_entries (map (apfst StrKey) ws)))"
proof -
  from assms have "traverse (\<lambda>(k, r). case k of OtherKey \<Rightarrow> Inl (TypeError ''keys must be str, int, float, bool or None'')
                          | StrKey s \<Rightarrow> map_sum id (Pair (StrKey s)) r)
         (map (map_prod id json_reload) (map (apfst StrKey) kvs)) = Inr (map (apfst StrKey) ws)"
    by (induction rule: list_all2_induct) auto
  then show ?thesis by simp
qed

lemma stored_obj:
  assumes "distinct (map fst kvs)" "list_all2 (\<lambda>(k, v) (k', w). k = k' \<and> stored C v = Inr w) kvs ws"
  shows "stored C (obj kvs) = Inr (PDict (sort_entries (map (apfst StrKey) ws)))"
  unfolding stored_def json_value_obj [OF assms(1)]
  by (rule json_reload_obj) (use assms(2) in \<open>auto simp: list_all2_map1 stored_def elim!: list_all2_mono\<close>)

lemma stored_simps [simp]:
  "stored C PNone = Inr PNone" "stored C (PBool b) = Inr (PBool b)" "stored C (PInt i) = Inr (PInt i)"
  "stored C (PStr s) = Inr (PStr s)" "stored C (PUuid u) = Inr (PStr (str_uuid u))"
  by (simp_all add: stored_def)

lemma stored_seq:
  assumes "list_all2 (\<lambda>v w. stored C v = Inr w) vs ws"
  shows "stored C (PTuple vs) = Inr (PList ws)"
proof -
  have "traverse id (map json_reload (map (json_value C) vs)) = Inr ws"
    using assms by (induction rule: list_all2_induct) (simp_all add: stored_def)
  then show ?thesis by (simp add: stored_def)
qed

lemma stored_opt:
  "stored C (json_opt f x) = (case x of None \<Rightarrow> Inr PNone | Some y \<Rightarrow> stored C (f y))"
  by (simp add: json_opt_def split: option.split)

lemma map_of_str_keys: "map_of (map (apfst StrKey) kvs) (StrKey k) = map_of kvs k"
  by (induction kvs) auto

lemma get_stored:
  "get_item (PDict (sort_entries (map (apfst StrKey) ws))) key
     = (case map_of ws key of None \<Rightarrow> Inl (KeyError key) | Some x \<Rightarrow> Inr x)"
  "get_or (PDict (sort_entries (map (apfst StrKey) ws))) key fallback
     = (case map_of ws key of None \<Rightarrow> Inr fallback | Some x \<Rightarrow> Inr x)"
  by (simp_all add: get_item_def get_or_def map_of_str_keys)

section \<open>Round trips\<close>

text \<open>A Pydantic model that is dumped to a JSON object and validated from it.\<close>

definition reloads :: "codec \<Rightarrow> ('a \<Rightarrow> pyval) \<Rightarrow> (pyval \<Rightarrow> 'a res) \<Rightarrow> 'a \<Rightarrow> bool" where
  "reloads C dump parse x \<longleftrightarrow> (case stored C (dump x) of Inr (PDict kvs) \<Rightarrow> parse (PDict kvs) = Inr x | _ \<Rightarrow> False)"

definition reloaded :: "codec \<Rightarrow> pyval \<Rightarrow> pyval" where
  "reloaded C v = (case stored C v of Inr w \<Rightarrow> w | Inl _ \<Rightarrow> PNone)"

lemma reloadsD:
  assumes "reloads C dump parse x"
  shows "stored C (dump x) = Inr (reloaded C (dump x))" "parse (reloaded C (dump x)) = Inr x" "reloaded C (dump x) \<noteq> PNone"
  using assms by (auto simp: reloads_def reloaded_def split: sum.splits pyval.splits)

lemma py_conversions [simp]:
  "py_uuid (PStr (str_uuid u)) = Inr u" "py_int (PInt i) = Inr i" "py_str C (PStr t) = t"
  "typed_str (PStr t) = Inr t" "py_items (PList vs) = Inr vs" "py_enum value members (PStr t) = enum_of value members t"
  by (simp_all add: py_uuid_def parse_str_uuid py_int_def py_str_def typed_str_def py_items_def py_enum_def)

lemma stored_items:
  assumes "\<And>x. x \<in> set xs \<Longrightarrow> stored C (f x) = Inr (g x)"
  shows "stored C (PTuple (map f xs)) = Inr (PList (map g xs))"
  by (rule stored_seq) (use assms in \<open>simp add: list_all2_map1 list_all2_map2 list_all2_same\<close>)

definition json_fact :: "candidate_checkpoint_fact \<Rightarrow> pyval" where
  "json_fact f = PDict (sort_entries (map (apfst StrKey)
     [(''agent_run_id'', PStr (str_uuid (cf_agent_run_id f))), (''slice_id'', PStr (str_uuid (cf_slice_id f))),
      (''generation'', PInt (cf_generation f)), (''expected_candidate_oid'', PStr (cf_expected_candidate_oid f)),
      (''candidate_oid'', PStr (cf_candidate_oid f)), (''receipt_sha256'', PStr (cf_receipt_sha256 f))]))"

lemma fact_stored: "stored C (asdict_fact f) = Inr (json_fact f)"
  unfolding asdict_fact_def json_fact_def by (rule stored_obj) simp_all

lemma fact_decoded: "decode_fact C (json_fact f) = candidate_fact_init f"
  unfolding decode_fact_def json_fact_def get_stored by (cases f) simp

definition json_usage :: "budget_usage \<Rightarrow> pyval" where
  "json_usage u = PDict (sort_entries (map (apfst StrKey)
     [(''input_tokens'', PInt (bu_input_tokens u)), (''output_tokens'', PInt (bu_output_tokens u)),
      (''cost_micros'', PInt (bu_cost_micros u))]))"

lemma usage_stored: "stored C (asdict_usage u) = Inr (json_usage u)"
  unfolding asdict_usage_def json_usage_def by (rule stored_obj) simp_all

lemma usage_decoded:
  assumes "usage_init (bu_input_tokens u) (bu_output_tokens u) (bu_cost_micros u) = Inr u"
  shows "decode_usage (json_usage u) = Inr u"
proof -
  have "non_negative (bu_input_tokens u) n = Inr (bu_input_tokens u)" "non_negative (bu_output_tokens u) n = Inr (bu_output_tokens u)" for n
    using assms by (auto simp: usage_init_def non_negative_def split: if_splits)
  then show ?thesis
    unfolding decode_usage_def json_usage_def using assms
    by (simp add: usage_field_def map_of_str_keys [where kvs = "[(a, b), c, d]" for a b c d, simplified])
qed

text \<open>What the store holds for a run state.\<close>

definition json_state :: "codec \<Rightarrow> run_state \<Rightarrow> (string \<times> pyval) list" where
  "json_state C s =
     [(''run_id'', PStr (str_uuid (rs_run_id s))),
      (''status'', PStr (run_status_value (rs_status s))),
      (''version'', PInt (rs_version s)),
      (''cancel_requested'', PBool (rs_cancel_requested s)),
      (''failure_reason'', json_opt (PStr \<circ> failure_reason_value) (rs_failure_reason s)),
      (''new_calls_enabled'', PBool (rs_new_calls_enabled s)),
      (''budget_usage'', json_usage (rs_budget_usage s)),
      (''budget_warning_emitted'', PBool (rs_budget_warning_emitted s)),
      (''active_dispatches'', PList (map (\<lambda>d. reloaded C (cd_dump_dispatch C d)) (rs_active_dispatches s))),
      (''continuation_counts'', PList (map (\<lambda>(g, n). PList [PInt g, PInt n]) (rs_continuation_counts s))),
      (''terminal_slice_failures'', PList (map PStr (rs_terminal_slice_failures s))),
      (''adopted_advice_ids'', PList (map PStr (rs_adopted_advice_ids s))),
      (''pending_advice_ids'', PList (map PStr (rs_pending_advice_ids s))),
      (''reporting_halted'', PBool (rs_reporting_halted s)),
      (''create_request'', json_opt (\<lambda>r. reloaded C (cd_dump_request C r)) (rs_create_request s)),
      (''frozen_plan_sha256'', json_opt PStr (rs_frozen_plan_sha256 s)),
      (''candidate_checkpoints'', PList (map json_fact (rs_candidate_checkpoints s)))]"

lemma stored_opt_str:
  "stored C (json_opt PStr x) = Inr (json_opt PStr x)" "stored C (json_opt (PStr \<circ> h) y) = Inr (json_opt (PStr \<circ> h) y)"
  "stored C (json_opt PUuid u) = Inr (json_opt (PStr \<circ> str_uuid) u)"
  by (simp_all add: stored_opt json_opt_def split: option.split)

lemma stored_opt_model:
  assumes "\<forall>r \<in> set_option x. reloads C dump parse r"
  shows "stored C (json_opt dump x) = Inr (json_opt (\<lambda>r. reloaded C (dump r)) x)"
    "unless_none parse (json_opt (\<lambda>r. reloaded C (dump r)) x) = Inr x"
proof -
  show "stored C (json_opt dump x) = Inr (json_opt (\<lambda>r. reloaded C (dump r)) x)"
  proof (cases x)
    case (Some r)
    with assms reloadsD(1) [of C dump parse r] show ?thesis by (simp add: json_opt_def)
  qed (simp add: json_opt_def)
  show "unless_none parse (json_opt (\<lambda>r. reloaded C (dump r)) x) = Inr x"
  proof (cases x)
    case (Some r)
    with assms reloadsD(2,3) [of C dump parse r] show ?thesis by (simp add: json_opt_def unless_none_def)
  qed (simp add: json_opt_def unless_none_def)
qed

lemma state_stored:
  assumes dispatches: "\<forall>d \<in> set (rs_active_dispatches s). reloads C (cd_dump_dispatch C) (cd_load_dispatch C) d"
    and request: "\<forall>r \<in> set_option (rs_create_request s). reloads C (cd_dump_request C) (cd_load_request C) r"
  shows "dump_json C s = Inr (PDict (sort_entries (map (apfst StrKey) (json_state C s))))"
proof -
  have "stored C (PTuple (map (cd_dump_dispatch C) (rs_active_dispatches s)))
      = Inr (PList (map (\<lambda>d. reloaded C (cd_dump_dispatch C d)) (rs_active_dispatches s)))"
    by (rule stored_items) (use dispatches reloadsD(1) [of C "cd_dump_dispatch C" "cd_load_dispatch C"] in simp)
  moreover have "stored C (PTuple (map (\<lambda>(g, n). PTuple [PInt g, PInt n]) (rs_continuation_counts s)))
      = Inr (PList (map (\<lambda>(g, n). PList [PInt g, PInt n]) (rs_continuation_counts s)))"
    by (rule stored_items) (auto intro: stored_seq)
  moreover have "stored C (PTuple (map PStr xs)) = Inr (PList (map PStr xs))" for xs
    by (rule stored_items) simp
  moreover have "stored C (PTuple (map asdict_fact xs)) = Inr (PList (map json_fact xs))" for xs
    by (rule stored_items) (simp add: fact_stored)
  ultimately show ?thesis
    unfolding dump_json_def asdict_state_def json_state_def
    by (intro stored_obj) (simp_all add: usage_stored stored_opt_str stored_opt_model(1) [OF request])
qed

text \<open>C13: A stored run state decodes to the state that was written, except that the flag set when a
  recovery found drifted refs (\<open>reporting_halted\<close>) comes back cleared: \<open>_decode_state\<close> never reads it. The
  assumptions are the checks the constructors of the nested records made, and that the Pydantic models
  inside the state validate from their own JSON dump.\<close>

theorem decode_state_roundtrip:
  assumes dispatches: "\<forall>d \<in> set (rs_active_dispatches s). reloads C (cd_dump_dispatch C) (cd_load_dispatch C) d"
    and request: "\<forall>r \<in> set_option (rs_create_request s). reloads C (cd_dump_request C) (cd_load_request C) r"
    and facts: "\<forall>f \<in> set (rs_candidate_checkpoints s). candidate_fact_init f = Inr f"
    and usage: "usage_init (bu_input_tokens (rs_budget_usage s)) (bu_output_tokens (rs_budget_usage s))
        (bu_cost_micros (rs_budget_usage s)) = Inr (rs_budget_usage s)"
  shows "bind_res (dump_json C s) (decode_state C) = Inr (s\<lparr>rs_reporting_halted := False\<rparr>)"
proof -
  have "cd_load_dispatch C (reloaded C (cd_dump_dispatch C d)) = Inr d" if "d \<in> set (rs_active_dispatches s)" for d
    using dispatches that reloadsD(2) [of C "cd_dump_dispatch C" "cd_load_dispatch C"] by simp
  then have "traverse (cd_load_dispatch C) (map (\<lambda>d. reloaded C (cd_dump_dispatch C d)) (rs_active_dispatches s))
      = Inr (rs_active_dispatches s)"
    unfolding traverse_map by (subst traverse_ok [where g = id]) auto
  moreover have "traverse decode_count (map (\<lambda>(g, n). PList [PInt g, PInt n]) (rs_continuation_counts s))
      = Inr (rs_continuation_counts s)"
    unfolding traverse_map by (subst traverse_ok [where g = id]) (auto simp: decode_count_def py_index_def)
  moreover have "traverse typed_str (map PStr xs) = Inr xs" for xs
    unfolding traverse_map by (subst traverse_ok [where g = id]) auto
  moreover have "traverse (decode_fact C) (map json_fact (rs_candidate_checkpoints s)) = Inr (rs_candidate_checkpoints s)"
    unfolding traverse_map using facts by (subst traverse_ok [where g = id]) (auto simp: fact_decoded)
  moreover have "unless_none (py_enum failure_reason_value failure_reasons) (json_opt (PStr \<circ> failure_reason_value) x) = Inr x"
      "typed_opt_str (json_opt PStr y) = Inr y" for x y
    by (simp_all add: unless_none_def typed_opt_str_def json_opt_def enum_of_value split: option.split)
  ultimately show ?thesis
    unfolding state_stored [OF dispatches request] bind_res_simps decode_state_def get_stored
    by (simp add: json_state_def enum_of_value usage_decoded [OF usage] stored_opt_model(2) [OF request])
qed

definition json_agent_run :: "codec \<Rightarrow> agent_run \<Rightarrow> (string \<times> pyval) list" where
  "json_agent_run C r =
     [(''agent_run_id'', PStr (str_uuid (ag_agent_run_id r))),
      (''owner_kind'', PStr (ag_owner_kind r)),
      (''owner_id'', PStr (str_uuid (ag_owner_id r))),
      (''logical_task_key'', PStr (ag_logical_task_key r)),
      (''phase'', PStr (phase_value (ag_phase r))),
      (''session_kind'', PStr (session_kind_value (ag_session_kind r))),
      (''thread_id'', PStr (ag_thread_id r)),
      (''model_binding_sha256'', PStr (ag_model_binding_sha256 r)),
      (''context_sha256'', PStr (ag_context_sha256 r)),
      (''toolset_sha256'', PStr (ag_toolset_sha256 r)),
      (''template_sha256'', PStr (ag_template_sha256 r)),
      (''slice_ref'', json_opt (\<lambda>x. reloaded C (cd_dump_slice_ref C x)) (ag_slice_ref r)),
      (''write_scope_sha256'', json_opt PStr (ag_write_scope_sha256 r)),
      (''checkpoint_sha256'', json_opt PStr (ag_checkpoint_sha256 r)),
      (''candidate_checkpoint_sha256'', json_opt PStr (ag_candidate_checkpoint_sha256 r)),
      (''result_sha256'', json_opt PStr (ag_result_sha256 r)),
      (''usage_sha256'', json_opt PStr (ag_usage_sha256 r)),
      (''retry_of'', json_opt (PStr \<circ> str_uuid) (ag_retry_of r)),
      (''continuation_of'', json_opt (PStr \<circ> str_uuid) (ag_continuation_of r)),
      (''restarted_from'', json_opt (PStr \<circ> str_uuid) (ag_restarted_from r)),
      (''state'', PStr (session_state_value (ag_state r))),
      (''exit'', json_opt (PStr \<circ> session_exit_value) (ag_exit r))]"

lemma agent_run_stored:
  assumes "\<forall>x \<in> set_option (ag_slice_ref r). reloads C (cd_dump_slice_ref C) (cd_load_slice_ref C) x"
  shows "dump_agent_run C r = Inr (PDict (sort_entries (map (apfst StrKey) (json_agent_run C r))))"
  unfolding dump_agent_run_def asdict_agent_run_def json_agent_run_def
  by (intro stored_obj) (simp_all add: stored_opt_str stored_opt_model(1) [OF assms])

lemma str_uuid_nonempty: "str_uuid u \<noteq> []"
  by (simp add: str_uuid_def Let_def)

text \<open>A stored agent run decodes to the agent run that was written. The assumptions are that the
  record passed its own constructor, and that its slice reference validates from its JSON dump.\<close>

theorem decode_agent_run_roundtrip:
  assumes init: "agent_run_init r = Inr r"
    and slice: "\<forall>x \<in> set_option (ag_slice_ref r). reloads C (cd_dump_slice_ref C) (cd_load_slice_ref C) x"
  shows "bind_res (dump_agent_run C r) (decode_agent_run C) = Inr r"
proof -
  have "unless_false py_uuid (json_opt (PStr \<circ> str_uuid) u) = Inr u" for u
    by (simp add: unless_false_def json_opt_def str_uuid_nonempty split: option.split)
  moreover have "session_exit_value x \<noteq> []" for x by (cases x) simp_all
  then have "unless_false (py_enum session_exit_value session_exits) (json_opt (PStr \<circ> session_exit_value) x) = Inr x" for x
    by (simp add: unless_false_def json_opt_def enum_of_value split: option.split)
  moreover have "digest_of (json_opt PStr x) = x" for x
    by (simp add: digest_of_def json_opt_def split: option.split)
  ultimately show ?thesis
    unfolding agent_run_stored [OF slice] bind_res_simps decode_agent_run_def str_field_def digest_field_def get_stored
    by (simp add: json_agent_run_def enum_of_value stored_opt_model(2) [OF slice]) (cases r, use init in simp)
qed

section \<open>Concrete records\<close>

definition ex_artifact :: artifact_ref where
  "ex_artifact = \<lparr>ar_sha256 = replicate 64 (CHR ''b''), ar_size = 10, ar_media_type = ''application/json''\<rparr>"

definition ex_request :: create_run where
  "ex_request = \<lparr>cr_source = RegisteredProject 3 4, cr_branch_prefix = ''migrate'',
     cr_frozen_artifacts = \<lparr>fb_spec = ex_artifact, fb_understanding_dossier = ex_artifact,
       fb_target_project_blueprint = ex_artifact, fb_migration_rulebook = ex_artifact\<rparr>\<rparr>"

definition ex_dispatch :: active_dispatch where
  "ex_dispatch = \<lparr>ad_attempt_id = 1, ad_subject = FinalVerified ''c1'', ad_check_id = 2, ad_tested_commit_oid = ''c1''\<rparr>"

definition ex_slice_ref :: slice_generation_ref where
  "ex_slice_ref = \<lparr>sg_slice_id = 6, sg_generation = 0, sg_baseline_candidate_oid = None\<rparr>"

text \<open>A codec that dumps the identities of the models above.\<close>

definition ex_codec :: codec where
  "ex_codec = \<lparr>cd_str = (\<lambda>_. []), cd_str_key = [],
     cd_dump_dispatch = (\<lambda>d. obj [(''attempt_id'', PStr (str_uuid (ad_attempt_id d)))]), cd_load_dispatch = (\<lambda>_. Inr ex_dispatch),
     cd_dump_request = (\<lambda>r. obj [(''branch_prefix'', PStr (cr_branch_prefix r))]), cd_load_request = (\<lambda>_. Inr ex_request),
     cd_dump_slice_ref = (\<lambda>x. obj [(''generation'', PInt (sg_generation x))]), cd_load_slice_ref = (\<lambda>_. Inr ex_slice_ref)\<rparr>"

lemma ex_codec_reloads:
  "reloads ex_codec (cd_dump_dispatch ex_codec) (cd_load_dispatch ex_codec) ex_dispatch"
  "reloads ex_codec (cd_dump_request ex_codec) (cd_load_request ex_codec) ex_request"
  "reloads ex_codec (cd_dump_slice_ref ex_codec) (cd_load_slice_ref ex_codec) ex_slice_ref"
  by (simp_all add: reloads_def stored_def ex_codec_def py_dict_def sort_entries_def)

definition ex_fact :: candidate_checkpoint_fact where
  "ex_fact = \<lparr>cf_agent_run_id = 8, cf_slice_id = 6, cf_generation = 1, cf_expected_candidate_oid = ''c0'',
     cf_candidate_oid = ''c1'', cf_receipt_sha256 = replicate 64 (CHR ''c'')\<rparr>"

definition ex_state :: run_state where
  "ex_state = (run_state_init 5 Executing 7 (Some ex_request))\<lparr>rs_active_dispatches := [ex_dispatch],
     rs_continuation_counts := [(0, 2)], rs_reporting_halted := True, rs_candidate_checkpoints := [ex_fact]\<rparr>"

theorem decode_state_roundtrip_witness:
  "rs_reporting_halted ex_state
   \<and> bind_res (dump_json ex_codec ex_state) (decode_state ex_codec) = Inr (ex_state\<lparr>rs_reporting_halted := False\<rparr>)"
proof
  show "rs_reporting_halted ex_state" by (simp add: ex_state_def)
  show "bind_res (dump_json ex_codec ex_state) (decode_state ex_codec) = Inr (ex_state\<lparr>rs_reporting_halted := False\<rparr>)"
    by (rule decode_state_roundtrip)
      (simp_all add: ex_state_def run_state_init_def ex_codec_reloads ex_fact_def candidate_fact_init_def valid_generation_def
        is_sha256_def list_all_iff zero_usage_def usage_init_def non_negative_def)
qed

definition ex_run :: agent_run where
  "ex_run =
     \<lparr>ag_agent_run_id = 1, ag_owner_kind = ''run'', ag_owner_id = 5, ag_logical_task_key = ''slice:6'',
      ag_phase = PhExecute, ag_session_kind = SkImplementation, ag_thread_id = ''00000000000000000000000000000002'',
      ag_model_binding_sha256 = replicate 64 (CHR ''a''), ag_context_sha256 = replicate 64 (CHR ''a''),
      ag_toolset_sha256 = replicate 64 (CHR ''a''), ag_template_sha256 = replicate 64 (CHR ''a''),
      ag_slice_ref = Some ex_slice_ref, ag_write_scope_sha256 = Some (replicate 64 (CHR ''b'')), ag_checkpoint_sha256 = None,
      ag_candidate_checkpoint_sha256 = None, ag_result_sha256 = None, ag_usage_sha256 = None,
      ag_retry_of = Some 4, ag_continuation_of = None, ag_restarted_from = None,
      ag_state = SsFailed, ag_exit = Some SxBudgetExhausted\<rparr>"

lemma ex_run_thread: "parse_uuid ''00000000000000000000000000000002'' = Some 2"
  by code_simp

lemma ex_run_typed: "agent_run_init ex_run = Inr ex_run"
  by (simp add: agent_run_init_def ex_run_def ex_run_thread valid_task_key_def task_key_first_def
      task_key_char_def agent_run_digests_def is_sha256_def list_all_iff agent_run_lineage_def)

theorem decode_agent_run_roundtrip_witness:
  "agent_run_init ex_run = Inr ex_run \<and> bind_res (dump_agent_run ex_codec ex_run) (decode_agent_run ex_codec) = Inr ex_run"
proof
  show "agent_run_init ex_run = Inr ex_run" by (rule ex_run_typed)
  then show "bind_res (dump_agent_run ex_codec ex_run) (decode_agent_run ex_codec) = Inr ex_run"
    by (rule decode_agent_run_roundtrip) (simp add: ex_run_def ex_codec_reloads)
qed

end
