(* ===== verification/Planning_Ripple.thy ===== *)
theory Planning_Ripple
  imports Plan_Properties "HOL-Library.Multiset"
begin

text \<open>
  \<open>planning/ripple.py\<close>: which modules and slices a change of symbols reaches. A Python set is a list
  without repetitions here; its iteration order is not specified, and the results below depend on
  membership only.
\<close>

section \<open>Reverse import closure\<close>

text \<open>The pairs \<open>(target, dependent)\<close> of the reverse edge map.\<close>

definition reverse_edges :: "analysis_result \<Rightarrow> (uuid \<times> uuid) list" where
  "reverse_edges analysis =
     concat (map (\<lambda>edge. case ie_to edge of Some (ModuleTarget m) \<Rightarrow> [(m, ie_from_module edge)] | _ \<Rightarrow> [])
       (an_imports analysis))
     @ concat (map (\<lambda>relation. if re_kind relation \<in> {RelImport, RelCoverage}
           then (case re_from_module relation of None \<Rightarrow> [] | Some m \<Rightarrow> [(re_to_module relation, m)]) else [])
       (an_relation_edges analysis))"

definition dependents :: "('a \<times> 'a) list \<Rightarrow> 'a \<Rightarrow> 'a list" where
  "dependents edges m = remdups (map snd (filter (\<lambda>(t, _). t = m) edges))"

function closure_loop :: "('a \<times> 'a) list \<Rightarrow> 'a list \<Rightarrow> 'a list \<Rightarrow> 'a list" where
  "closure_loop edges seen [] = seen"
| "closure_loop edges seen (current # queue) =
     (let new = filter (\<lambda>d. d \<notin> set seen) (dependents edges current)
      in closure_loop edges (seen @ new) (queue @ new))"
  by pat_completeness auto
termination
proof (relation "(\<lambda>(edges, seen, queue). card (snd ` set edges - set seen)) <*mlex*> measure (\<lambda>(_, _, queue). length queue)")
  show "wf ((\<lambda>(edges, seen, queue). card (snd ` set edges - set seen)) <*mlex*> measure (\<lambda>(_, _, queue :: 'a list). length queue))"
    by (simp add: wf_mlex)
next
  fix edges :: "('a \<times> 'a) list" and seen current queue new
  assume new: "new = filter (\<lambda>d. d \<notin> set seen) (dependents edges current)"
  let ?f = "\<lambda>(edges, seen, queue :: 'a list). card (snd ` set edges - set (seen :: 'a list))"
  show "((edges, seen @ new, queue @ new), (edges, seen, current # queue))
      \<in> ?f <*mlex*> measure (\<lambda>(_, _, queue). length queue)"
  proof (cases "new = []")
    case True
    then show ?thesis by (auto intro: mlex_leq)
  next
    case False
    then obtain d where d: "d \<in> set new" by (cases new) auto
    then have "d \<in> snd ` set edges - set seen" by (force simp: new dependents_def)
    then have "snd ` set edges - set (seen @ new) \<subset> snd ` set edges - set seen" using d by auto
    then have "card (snd ` set edges - set (seen @ new)) < card (snd ` set edges - set seen)"
      by (intro psubset_card_mono) auto
    then show ?thesis by (intro mlex_less) simp
  qed
qed

definition reverse_import_closure :: "analysis_result \<Rightarrow> uuid list \<Rightarrow> uuid list" where
  "reverse_import_closure analysis seeds = closure_loop (reverse_edges analysis) seeds seeds"

section \<open>The preview\<close>

record ripple_preview =
  rp_affected_modules :: "uuid list"
  rp_affected_symbols :: "string list"
  rp_invalidated_slices :: "string list"
  rp_rebuilt_slices :: "string list"
  rp_compensation_slices :: "string list"
  rp_estimated_slice_count :: nat
  rp_integration_rank_distribution :: "(int \<times> nat) list"
  rp_degraded :: bool
  rp_degradation_reasons :: "string list"

definition module_for_path :: "analysis_result \<Rightarrow> string \<Rightarrow> uuid option" where
  "module_for_path analysis path =
     map_of (py_dict (concat (map (\<lambda>m. map (\<lambda>p. (p, mf_module_id m)) (mf_file_paths m)) (an_modules analysis)))) path"

definition opt_list :: "'a option \<Rightarrow> 'a list" where
  "opt_list x = (case x of None \<Rightarrow> [] | Some y \<Rightarrow> [y])"

text \<open>Modules bound to a changed symbol, directly or through the file of the definition.\<close>

definition bound_modules :: "analysis_result \<Rightarrow> string list \<Rightarrow> uuid list" where
  "bound_modules analysis symbols =
     concat (map (\<lambda>b. if sb_symbol b \<in> set symbols then opt_list (sb_module b) else []) (an_symbol_bindings analysis))
     @ concat (map (\<lambda>b. if sb_symbol b \<in> set symbols \<and> sb_module b = None
                        then opt_list (module_for_path analysis (sr_file_path (sb_definition b))) else [])
         (an_symbol_bindings analysis))"

definition matching_references :: "analysis_result \<Rightarrow> string list \<Rightarrow> reference_site list" where
  "matching_references analysis symbols = filter (\<lambda>r. rs_symbol r \<in> set symbols) (an_reference_sites analysis)"

definition referencing_modules :: "analysis_result \<Rightarrow> string list \<Rightarrow> uuid list" where
  "referencing_modules analysis symbols =
     concat (map (\<lambda>r. opt_list (module_for_path analysis (sr_file_path (rs_site r)))) (matching_references analysis symbols))"

definition fallback_modules :: "analysis_result \<Rightarrow> uuid list" where
  "fallback_modules analysis =
     (if an_capability analysis = TextFallback
      then map mf_module_id (filter (\<lambda>m. mf_role m = Source) (an_modules analysis)) else [])"

definition exporting_modules :: "analysis_result \<Rightarrow> string list \<Rightarrow> uuid list" where
  "exporting_modules analysis symbols =
     map mf_module_id (filter (\<lambda>m. list_ex (\<lambda>x. ex_symbol x \<in> set symbols) (mf_exported_symbols m)) (an_modules analysis))"

text \<open>The modules affected before the closure.\<close>

definition seed_modules :: "analysis_result \<Rightarrow> string list \<Rightarrow> uuid list" where
  "seed_modules analysis symbols =
     (let direct = bound_modules analysis symbols @ referencing_modules analysis symbols @ fallback_modules analysis
      in remdups (if direct = [] then exporting_modules analysis symbols else direct))"

definition ripple_reasons :: "analysis_result \<Rightarrow> string list \<Rightarrow> string list" where
  "ripple_reasons analysis symbols =
     (if list_ex (\<lambda>b. sb_symbol b \<in> set symbols \<and> sb_ambiguous b) (an_symbol_bindings analysis)
      then [''ambiguous SymbolBinding degraded to module closure''] else [])
     @ concat (map (\<lambda>r. if module_for_path analysis (sr_file_path (rs_site r)) \<noteq> None \<and> rs_ambiguous r
         then [''ambiguous ReferenceSite for '' @ rs_symbol r @ '' degraded to module closure''] else [])
         (matching_references analysis symbols))
     @ (if an_capability analysis = TextFallback then [''text-fallback analysis has no reliable symbol closure''] else [])
     @ (if seed_modules analysis symbols = [] then [''changed symbols have no PSF-2 binding; module closure is empty''] else [])"

definition affected_refs :: "plan_proposal \<Rightarrow> uuid list \<Rightarrow> string list" where
  "affected_refs p affected =
     remdups (map ps_local_ref (filter (\<lambda>s. list_ex (\<lambda>m. m \<in> set affected) (ps_source_modules s)) (pp_slices p)))"

text \<open>\<open>rank_by_ref[local_ref]\<close> for every reference of a collection.\<close>

fun rank_refs :: "(string \<times> int) list \<Rightarrow> string list \<Rightarrow> (int \<times> string) list res" where
  "rank_refs ranks [] = Inr []"
| "rank_refs ranks (r # rs) = (case map_of ranks r of
       None \<Rightarrow> Inl (KeyError r)
     | Some n \<Rightarrow> map_sum id ((#) (n, r)) (rank_refs ranks rs))"

definition rank_distribution :: "int list \<Rightarrow> (int \<times> nat) list" where
  "rank_distribution ranks = map (\<lambda>n. (n, count_list ranks n)) (sorted_set ranks)"

definition calculate_ripple ::
  "frozen_plan \<Rightarrow> analysis_result \<Rightarrow> string list \<Rightarrow> string list \<Rightarrow> ripple_preview res" where
  "calculate_ripple plan analysis changed_symbols integrated_slices =
     (let symbols = sorted_set changed_symbols;
          p = ff_proposal (fp_facts plan);
          affected = reverse_import_closure analysis (seed_modules analysis symbols);
          refs = affected_refs p affected;
          integrated = set integrated_slices \<inter> fst ` set (ff_local_ref_to_id (fp_facts plan));
          ranks = pp_integration_ranks p;
          reasons = ripple_reasons analysis symbols
      in case rank_refs ranks (filter (\<lambda>r. r \<notin> integrated) refs) of
           Inl e \<Rightarrow> Inl e
         | Inr invalid \<Rightarrow>
             (case rank_refs ranks (filter (\<lambda>r. r \<in> integrated) refs) of
                Inl e \<Rightarrow> Inl e
              | Inr compensated \<Rightarrow>
                  let invalidated = map snd (sort invalid); compensation = map snd (sort compensated)
                  in Inr \<lparr>rp_affected_modules = sorted_set affected, rp_affected_symbols = symbols,
                          rp_invalidated_slices = invalidated, rp_rebuilt_slices = invalidated,
                          rp_compensation_slices = compensation,
                          rp_estimated_slice_count = length invalidated + length compensation,
                          rp_integration_rank_distribution = rank_distribution (map fst (invalid @ compensated)),
                          rp_degraded = (reasons \<noteq> []), rp_degradation_reasons = from_keys reasons\<rparr>))"

section \<open>The closure is reachability\<close>

lemma set_dependents: "set (dependents edges m) = set edges `` {m}"
  by (force simp: dependents_def)

lemma closure_seen: "set seen \<subseteq> set (closure_loop edges seen queue)"
  by (induction edges seen queue rule: closure_loop.induct) (auto simp: Let_def)

lemma closure_sound: "set queue \<subseteq> set seen \<Longrightarrow> set (closure_loop edges seen queue) \<subseteq> (set edges)\<^sup>* `` set seen"
proof (induction edges seen queue rule: closure_loop.induct)
  case (2 edges seen current queue)
  let ?new = "filter (\<lambda>d. d \<notin> set seen) (dependents edges current)"
  have reach: "(set edges)\<^sup>* `` set (seen @ ?new) \<subseteq> (set edges)\<^sup>* `` set seen"
    using 2(2) by (auto simp: set_dependents intro: converse_rtrancl_into_rtrancl)
  have "set (queue @ ?new) \<subseteq> set (seen @ ?new)" using 2(2) by auto
  from 2(1) [OF refl this] have "set (closure_loop edges seen (current # queue)) \<subseteq> (set edges)\<^sup>* `` set (seen @ ?new)"
    by (simp add: Let_def)
  with reach show ?case by (rule order.trans [rotated])
qed auto

lemma closure_closed:
  assumes "\<forall>x \<in> set seen - set queue. set edges `` {x} \<subseteq> set seen"
    and "x \<in> set (closure_loop edges seen queue)" "(x, y) \<in> set edges"
  shows "y \<in> set (closure_loop edges seen queue)"
  using assms
proof (induction edges seen queue rule: closure_loop.induct)
  case (2 edges seen current queue)
  let ?new = "filter (\<lambda>d. d \<notin> set seen) (dependents edges current)"
  have "\<forall>x \<in> set (seen @ ?new) - set (queue @ ?new). set edges `` {x} \<subseteq> set (seen @ ?new)"
    using 2(2) by (auto simp: set_dependents)
  from 2(1) [OF refl this] 2(3,4) show ?case by (simp add: Let_def)
qed auto

lemma closure_reachable: "set (reverse_import_closure analysis seeds) = (set (reverse_edges analysis))\<^sup>* `` set seeds"
proof
  show "set (reverse_import_closure analysis seeds) \<subseteq> (set (reverse_edges analysis))\<^sup>* `` set seeds"
    unfolding reverse_import_closure_def by (rule closure_sound) simp
  have "m \<in> set (reverse_import_closure analysis seeds)" if "(s, m) \<in> (set (reverse_edges analysis))\<^sup>*" "s \<in> set seeds" for s m
    using that
  proof (induction rule: rtrancl_induct)
    case base
    then show ?case using closure_seen [of seeds] unfolding reverse_import_closure_def by blast
  next
    case (step y z)
    then show ?case unfolding reverse_import_closure_def by (auto intro: closure_closed)
  qed
  then show "(set (reverse_edges analysis))\<^sup>* `` set seeds \<subseteq> set (reverse_import_closure analysis seeds)" by auto
qed

section \<open>Affected slices\<close>

lemma rank_refs_ok:
  assumes "set refs \<subseteq> fst ` set ranks"
  shows "rank_refs ranks refs = Inr (map (\<lambda>r. (dict_at ranks r, r)) refs)"
  using assms
proof (induction refs)
  case (Cons r refs)
  then have "map_of ranks r \<noteq> None" by (simp add: map_of_eq_None_iff)
  with Cons show ?case by (auto simp: dict_at_def)
qed simp

text \<open>Sorting by rank, then by reference.\<close>

lemma ranked_sort:
  fixes k :: "string \<Rightarrow> int"
  assumes "distinct refs"
  defines "out \<equiv> map snd (sort (map (\<lambda>r. (k r, r)) refs))"
  shows "set out = set refs" "distinct out" "sorted (map k out)" "length out = length refs"
proof -
  let ?ps = "sort (map (\<lambda>r. (k r, r)) refs)"
  show "set out = set refs" by (force simp: out_def)
  have "mset out = mset refs" by (simp add: out_def image_mset.compositionality comp_def)
  then show "distinct out" "length out = length refs"
    using assms(1) by (metis mset_eq_imp_distinct_iff, metis size_mset)
  have "map k out = map fst ?ps" by (auto simp: out_def)
  moreover have "sorted (map fst ?ps)"
    by (rule sorted_map_mono [OF sorted_sort]) (auto simp: mono_on_def less_eq_prod_def)
  ultimately show "sorted (map k out)" by simp
qed

definition touched_refs :: "plan_proposal \<Rightarrow> uuid set \<Rightarrow> string set" where
  "touched_refs p modules = ps_local_ref ` {s \<in> set (pp_slices p). set (ps_source_modules s) \<inter> modules \<noteq> {}}"

lemma set_affected_refs: "set (affected_refs p affected) = touched_refs p (set affected)"
  by (auto simp: affected_refs_def touched_refs_def list_ex_iff)

text \<open>The modules a change touches directly: a changed symbol is bound in them or in one of their files, or referenced from one of
  their files, or the analysis is textual and they are source modules; if there is none, the modules that
  export a changed symbol.\<close>

definition directly_touched :: "analysis_result \<Rightarrow> string set \<Rightarrow> uuid \<Rightarrow> bool" where
  "directly_touched analysis S m \<longleftrightarrow>
     (\<exists>b \<in> set (an_symbol_bindings analysis). sb_symbol b \<in> S
        \<and> (sb_module b = Some m \<or> sb_module b = None \<and> module_for_path analysis (sr_file_path (sb_definition b)) = Some m))
     \<or> (\<exists>r \<in> set (an_reference_sites analysis). rs_symbol r \<in> S \<and> module_for_path analysis (sr_file_path (rs_site r)) = Some m)
     \<or> an_capability analysis = TextFallback \<and> (\<exists>f \<in> set (an_modules analysis). mf_role f = Source \<and> mf_module_id f = m)"

definition touched_modules :: "analysis_result \<Rightarrow> string set \<Rightarrow> uuid set" where
  "touched_modules analysis S =
     (if \<exists>m. directly_touched analysis S m then {m. directly_touched analysis S m}
      else {m. \<exists>f \<in> set (an_modules analysis). mf_module_id f = m \<and> (\<exists>x \<in> set (mf_exported_symbols f). ex_symbol x \<in> S)})"

lemma set_seed_modules: "set (seed_modules analysis symbols) = touched_modules analysis (set symbols)"
proof -
  let ?direct = "bound_modules analysis symbols @ referencing_modules analysis symbols @ fallback_modules analysis"
  have opt: "x \<in> set (opt_list y) \<longleftrightarrow> y = Some x" for x :: uuid and y by (auto simp: opt_list_def split: option.splits)
  have direct: "m \<in> set ?direct \<longleftrightarrow> directly_touched analysis (set symbols) m" for m
    by (fastforce simp: directly_touched_def bound_modules_def referencing_modules_def matching_references_def fallback_modules_def opt split: if_splits)
  have empty: "?direct = [] \<longleftrightarrow> \<not> (\<exists>m. directly_touched analysis (set symbols) m)"
    unfolding direct [symmetric] by (metis empty_iff empty_set list.set_sel(1))
  have exports: "set (exporting_modules analysis symbols)
      = {m. \<exists>f \<in> set (an_modules analysis). mf_module_id f = m \<and> (\<exists>x \<in> set (mf_exported_symbols f). ex_symbol x \<in> set symbols)}"
    by (auto simp: exporting_modules_def list_ex_iff)
  show ?thesis
  proof (cases "?direct = []")
    case True
    with empty exports show ?thesis by (simp add: seed_modules_def touched_modules_def del: append_is_Nil_conv)
  next
    case False
    then have "set (seed_modules analysis symbols) = set ?direct"
      by (simp only: seed_modules_def Let_def set_remdups if_False)
    moreover have "touched_modules analysis (set symbols) = {m. directly_touched analysis (set symbols) m}"
      using False empty by (simp only: touched_modules_def if_True not_not)
    ultimately show ?thesis using direct by blast
  qed
qed

lemma rank_distribution_exact:
  assumes "distinct refs" "mset ks = image_mset k (mset refs)"
  shows "set (rank_distribution ks) = (\<lambda>n. (n, card {r \<in> set refs. k r = n})) ` k ` set refs"
    "sorted (map fst (rank_distribution ks))" "distinct (map fst (rank_distribution ks))"
proof -
  have "count_list ks n = card {r \<in> set refs. k r = n}" for n
  proof -
    have "count_list ks n = count_list (map k refs) n"
      using assms(2) by (metis count_mset mset_map)
    also have "\<dots> = length (filter (\<lambda>r. k r = n) refs)"
      by (induction refs) auto
    also have "\<dots> = card {r \<in> set refs. k r = n}"
      using assms(1) by (metis distinct_card distinct_filter set_filter)
    finally show ?thesis .
  qed
  moreover have "set ks = k ` set refs"
    using assms(2) by (metis set_image_mset set_mset_mset)
  ultimately show "set (rank_distribution ks) = (\<lambda>n. (n, card {r \<in> set refs. k r = n})) ` k ` set refs"
    by (simp add: rank_distribution_def set_sorted_set)
  show "sorted (map fst (rank_distribution ks))" "distinct (map fst (rank_distribution ks))"
    by (simp_all add: rank_distribution_def comp_def sorted_sorted_set distinct_sorted_set)
qed

definition degraded :: "analysis_result \<Rightarrow> string set \<Rightarrow> bool" where
  "degraded analysis S \<longleftrightarrow>
     (\<exists>b \<in> set (an_symbol_bindings analysis). sb_symbol b \<in> S \<and> sb_ambiguous b)
     \<or> (\<exists>r \<in> set (an_reference_sites analysis). rs_symbol r \<in> S \<and> rs_ambiguous r \<and> module_for_path analysis (sr_file_path (rs_site r)) \<noteq> None)
     \<or> an_capability analysis = TextFallback \<or> touched_modules analysis S = {}"

lemma reasons_degraded: "ripple_reasons analysis symbols \<noteq> [] \<longleftrightarrow> degraded analysis (set symbols)"
proof -
  have "seed_modules analysis symbols = [] \<longleftrightarrow> touched_modules analysis (set symbols) = {}"
    by (metis set_empty set_seed_modules)
  then show ?thesis
    by (auto simp: ripple_reasons_def degraded_def list_ex_iff matching_references_def)
qed



end
