(* ===== verification/Planning_Derivation.thy ===== *)
theory Planning_Derivation
  imports Plan_Properties
begin

text \<open>
  \<open>planning/derivation.py\<close>: the proposal that is derived from analysis facts without a model, the
  naming of groups, the artifact tasks and the anchors of generated tests. The Unicode tables behind
  \<open>unicodedata.normalize("NFKC", value).casefold()\<close> are a parameter \<open>nf\<close>.
\<close>

section \<open>Names\<close>

definition name_char :: "char \<Rightarrow> bool" where
  "name_char c \<longleftrightarrow> is_lower c \<or> is_digit c"

text \<open>\<^verbatim>\<open>re.sub(r"[^a-z0-9]+", "-", s)\<close>; \<open>gap\<close> says that the last character was replaced.\<close>

fun dash_runs :: "bool \<Rightarrow> string \<Rightarrow> string" where
  "dash_runs gap [] = []"
| "dash_runs gap (c # cs) =
     (if name_char c then c # dash_runs False cs
      else if gap then dash_runs True cs
      else CHR ''-'' # dash_runs True cs)"

definition strip_dashes :: "string \<Rightarrow> string" where
  "strip_dashes s = rev (dropWhile (\<lambda>c. c = CHR ''-'') (rev (dropWhile (\<lambda>c. c = CHR ''-'') s)))"

definition normalize_group_name :: "(string \<Rightarrow> string) \<Rightarrow> string \<Rightarrow> string" where
  "normalize_group_name nf value =
     (let normalized = strip_dashes (dash_runs False (nf value))
      in if normalized = [] then ''group'' else normalized)"

fun name_loop :: "(string \<Rightarrow> string) \<Rightarrow> (string \<times> nat) list \<Rightarrow> string list \<Rightarrow> string list" where
  "name_loop nf counts [] = []"
| "name_loop nf counts (value # values) =
     (let base = normalize_group_name nf value;
          n = (case map_of counts base of None \<Rightarrow> 0 | Some k \<Rightarrow> k) + 1
      in (if n = 1 then base else base @ ''-'' @ str_nat n) # name_loop nf (AList.update base n counts) values)"

definition normalize_group_names :: "(string \<Rightarrow> string) \<Rightarrow> string list \<Rightarrow> string list" where
  "normalize_group_names nf values = name_loop nf [] values"

section \<open>Artifact tasks\<close>

fun derive_tasks :: "(string \<times> string) list \<Rightarrow> artifact_fact list \<Rightarrow> artifact_task list res" where
  "derive_tasks paths [] = Inr []"
| "derive_tasks paths (artifact # facts) =
     (if af_artifact_kind artifact = GeneratedCode \<and> af_source_path artifact = None
      then Inl (ValueError ''GeneratedCode artifacts require source_path'')
      else
        let task = \<lparr>at_kind = af_artifact_kind artifact, at_action = expected_action (af_artifact_kind artifact),
              at_source_path = (case af_source_path artifact of
                  None \<Rightarrow> af_path artifact | Some s \<Rightarrow> if s = [] then af_path artifact else s),
              at_target_path = (case map_of paths (af_path artifact) of
                  None \<Rightarrow> ''target/'' @ af_path artifact | Some t \<Rightarrow> t),
              at_artifact_path = Some (af_path artifact)\<rparr>
        in case check_artifact_task task of
             None \<Rightarrow> Inl (ValueError ''validation error for ArtifactTask'')
           | Some t \<Rightarrow> map_sum id ((#) t) (derive_tasks paths facts))"

definition derive_artifact_tasks :: "artifact_fact list \<Rightarrow> (string \<times> string) list \<Rightarrow> artifact_task list res" where
  "derive_artifact_tasks facts target_paths = derive_tasks target_paths (sort_key af_path facts)"

section \<open>Proposals\<close>

definition module_is_in_scope :: "module_fact \<Rightarrow> planning_inputs \<Rightarrow> bool" where
  "module_is_in_scope m inputs = list_all (scope_includes_path (in_scope inputs)) (mf_file_paths m)"

definition base_name :: "string \<Rightarrow> string" where
  "base_name path = rev (takeWhile (\<lambda>c. c \<noteq> CHR ''/'') (rev path))"

definition target_paths :: "string list \<Rightarrow> string \<Rightarrow> string list" where
  "target_paths paths root = map (\<lambda>path. root @ ''/'' @ base_name path) (sort paths)"

definition rationale :: "string \<Rightarrow> dossier_entry" where
  "rationale content = \<lparr>de_kind = ''planner'', de_content = content, de_anchors = [], de_advisory = True\<rparr>"

text \<open>\<open>PlanSliceProposal(...)\<close> with the defaults of the remaining fields.\<close>

definition slice_of ::
  "string \<Rightarrow> slice_kind \<Rightarrow> uuid list \<Rightarrow> string list \<Rightarrow> string list \<Rightarrow> artifact_task list \<Rightarrow> string \<Rightarrow> plan_slice_proposal" where
  "slice_of ref kind modules writes roots tasks why =
     \<lparr>ps_local_ref = ref, ps_kind = kind, ps_source_modules = modules, ps_write_paths = writes,
      ps_create_roots = roots, ps_rationale = [rationale why], ps_required_checks = [], ps_artifact_tasks = tasks,
      ps_generated = False, ps_generation_tag = None, ps_minimum_nontrivial_assertions = 0,
      ps_information_firewall = False\<rparr>"

definition covered_test_modules :: "analysis_result \<Rightarrow> module_fact list \<Rightarrow> uuid set" where
  "covered_test_modules analysis test_modules =
     (let paths_by_module = py_dict (map (\<lambda>m. (mf_module_id m, mf_file_paths m)) test_modules)
      in set (concat (map (\<lambda>entry. map fst (filter (\<lambda>(_, paths). ce_test_file entry \<in> set paths) paths_by_module))
           (an_coverage analysis))))"

definition scoped_modules :: "planning_inputs \<Rightarrow> module_role \<Rightarrow> module_fact list" where
  "scoped_modules inputs role =
     filter (\<lambda>m. mf_role m = role \<and> module_is_in_scope m inputs) (sort_key mf_module_id (an_modules (in_analysis inputs)))"

definition contract_slices :: "artifact_task list \<Rightarrow> plan_slice_proposal list" where
  "contract_slices tasks =
     (if tasks = [] then []
      else [slice_of ''CT'' Contract [] (map at_target_path tasks) [] tasks
              ''classified artifacts use descriptor-declared handling''])"

definition implementation_slice :: "module_fact \<times> string \<Rightarrow> plan_slice_proposal" where
  "implementation_slice = (\<lambda>(m, name).
     slice_of (''I-'' @ name) Implementation [mf_module_id m] (target_paths (mf_file_paths m) (''target/src/'' @ name))
       [''target/src/'' @ name] [] ''implementation follows the source module boundary'')"

definition translation_slice :: "(string \<Rightarrow> string) \<Rightarrow> module_fact \<Rightarrow> plan_slice_proposal" where
  "translation_slice nf m =
     (let name = normalize_group_name nf (str_uuid (mf_module_id m))
      in slice_of (''TT-'' @ name) TestTranslation [mf_module_id m]
           (target_paths (mf_file_paths m) (''target/tests/'' @ name)) [''target/tests/'' @ name] []
           ''covered source tests use the translation track'')"

definition generation_slice :: "module_fact \<times> string \<Rightarrow> plan_slice_proposal" where
  "generation_slice = (\<lambda>(m, name).
     slice_of (''TG-'' @ name) TestGeneration [mf_module_id m]
       [''target/tests/generated/'' @ name @ ''/'' @ name @ ''_test''] [''target/tests/generated/'' @ name] []
       ''empty test suite requires behavior-anchored generation'')"

definition status_of_module :: "analysis_result \<Rightarrow> uuid \<Rightarrow> module_coverage option" where
  "status_of_module analysis m = map_of (py_dict (map (\<lambda>s. (cs_module s, cs_status s)) (an_coverage_status analysis))) m"

definition derived_slices :: "(string \<Rightarrow> string) \<Rightarrow> planning_inputs \<Rightarrow> artifact_task list \<Rightarrow> plan_slice_proposal list" where
  "derived_slices nf inputs tasks =
     (let sources = scoped_modules inputs Source; tests = scoped_modules inputs TestRole;
          names = normalize_group_names nf (map (str_uuid \<circ> mf_module_id) sources);
          covered = covered_test_modules (in_analysis inputs) tests
      in contract_slices tasks
         @ map implementation_slice (zip sources names)
         @ map (translation_slice nf) (filter (\<lambda>m. mf_module_id m \<in> covered) tests)
         @ map generation_slice (filter (\<lambda>(m, _). status_of_module (in_analysis inputs) (mf_module_id m) = Some EmptyTestSuite)
             (zip sources names)))"

definition derive_plan_proposal :: "(string \<Rightarrow> string) \<Rightarrow> planning_inputs \<Rightarrow> plan_proposal res" where
  "derive_plan_proposal nf inputs =
     (case derive_artifact_tasks (an_artifacts (in_analysis inputs)) [] of
        Inl e \<Rightarrow> Inl e
      | Inr tasks \<Rightarrow>
          let slices = derived_slices nf inputs tasks
          in case check_plan_proposal
                    \<lparr>pp_slices = slices, pp_edges = [],
                     pp_integration_ranks = py_dict (map (\<lambda>(i, s). (ps_local_ref s, int i)) (enum_list slices)),
                     pp_planner_rationale = [rationale ''derived from frozen analysis facts'']\<rparr> of
               None \<Rightarrow> Inl (ValueError ''validation error for PlanProposal'')
             | Some p \<Rightarrow> Inr p)"

section \<open>Anchors of generated tests\<close>

datatype anchor_level = SymbolLevel | ModuleLevel

record test_generation_anchor =
  ta_module_id :: uuid
  ta_level :: anchor_level
  ta_symbols :: "string list"
  ta_module_summary :: "string list"
  ta_degraded :: bool
  ta_reason :: string
  ta_information_firewall :: bool

definition resolve_test_generation_anchor :: "uuid \<Rightarrow> analysis_result \<Rightarrow> test_generation_anchor res" where
  "resolve_test_generation_anchor module_id analysis =
     (case find (\<lambda>m. mf_module_id m = module_id) (an_modules analysis) of
        None \<Rightarrow> Inl (ValueError ''module is not present in analysis facts'')
      | Some m \<Rightarrow>
          let references = filter (\<lambda>r. sr_file_path (rs_site r) \<in> set (mf_file_paths m)) (an_reference_sites analysis);
              symbols = sorted_set (map rs_symbol references);
              summary = map (\<lambda>x. ex_symbol x @ '': '' @ ex_signature_text x) (mf_exported_symbols m)
          in if an_capability analysis = TextFallback \<or> list_ex rs_ambiguous references \<or> symbols = []
             then Inr \<lparr>ta_module_id = module_id, ta_level = ModuleLevel, ta_symbols = [], ta_module_summary = summary,
                    ta_degraded = True,
                    ta_reason = (if an_capability analysis = TextFallback
                      then ''text fallback prevents reliable symbol anchoring''
                      else ''ambiguous or missing symbol references require module fallback''),
                    ta_information_firewall = True\<rparr>
             else Inr \<lparr>ta_module_id = module_id, ta_level = SymbolLevel, ta_symbols = symbols, ta_module_summary = summary,
                    ta_degraded = False, ta_reason = ''PSF-2 symbol references are unambiguous'',
                    ta_information_firewall = True\<rparr>)"

section \<open>Group names\<close>

text \<open>The names keep the alphabet, and they are never empty.\<close>

lemma dash_runs_chars: "c \<in> set (dash_runs gap s) \<Longrightarrow> name_char c \<or> c = CHR ''-''"
  by (induction gap s rule: dash_runs.induct) (auto split: if_splits)

lemma set_strip_dashes: "set (strip_dashes s) \<subseteq> set s"
  by (auto simp: strip_dashes_def dest!: set_dropWhileD)

lemma group_name_safe:
  "normalize_group_name nf value \<noteq> []"
  "c \<in> set (normalize_group_name nf value) \<Longrightarrow> name_char c \<or> c = CHR ''-''"
proof -
  show "normalize_group_name nf value \<noteq> []" by (simp add: normalize_group_name_def Let_def)
  have "name_char c'" if "c' \<in> set ''group''" for c'
    using that by (auto simp: name_char_def is_lower_def less_eq_char_def)
  then show "name_char c \<or> c = CHR ''-''" if "c \<in> set (normalize_group_name nf value)"
    using that dash_runs_chars [of c False "nf value"] set_strip_dashes [of "dash_runs False (nf value)"]
    by (cases "strip_dashes (dash_runs False (nf value)) = []") (auto simp: normalize_group_name_def Let_def)
qed

text \<open>The suffix that resolves a collision can itself collide with a later name.\<close>

lemma group_names_collide:
  "normalize_group_names id [''a'', ''a'', ''a-2''] = [''a'', ''a-2'', ''a-2'']"
  by code_simp

text \<open>Two files of one module with the same base name share one target path.\<close>

lemma target_paths_collide: "target_paths [''a/x.go'', ''b/x.go''] ''t'' = [''t/x.go'', ''t/x.go'']"
  by code_simp

section \<open>Derived proposals\<close>

lemma length_names [simp]: "length (normalize_group_names nf names) = length names"
proof -
  have "length (name_loop nf counts names) = length names" for counts
    by (induction names arbitrary: counts) (simp_all add: Let_def)
  then show ?thesis by (simp add: normalize_group_names_def)
qed

lemma check_slice_fields:
  "check_slice_proposal s = Some s' \<Longrightarrow>
     ps_kind s' = ps_kind s \<and> ps_source_modules s' = ps_source_modules s \<and> ps_local_ref s' = ps_local_ref s"
  by (auto simp: check_slice_proposal_def generation_contract_matches_kind_def split: if_splits sum.splits)

lemma check_plan_fields:
  assumes "check_plan_proposal p0 = Some p"
  shows "map ps_kind (pp_slices p) = map ps_kind (pp_slices p0)"
    "map ps_source_modules (pp_slices p) = map ps_source_modules (pp_slices p0)"
    "proposal_refs p = proposal_refs p0" "pp_edges p = pp_edges p0" "distinct (proposal_refs p)"
    "pp_integration_ranks p = py_dict (pp_integration_ranks p0)"
proof -
  obtain slices where sl: "those (map check_slice_proposal (pp_slices p0)) = Some slices"
      and p: "p = p0\<lparr>pp_slices := slices, pp_integration_ranks := py_dict (pp_integration_ranks p0)\<rparr>"
      and d: "distinct (proposal_refs p)"
    using assms
    by (auto simp: check_plan_proposal_def Let_def length_remdups_eq [symmetric] split: option.splits if_splits)
  from sl have "map check_slice_proposal (pp_slices p0) = map Some slices" by (simp add: those_Some_iff)
  then have "map ps_kind slices = map ps_kind (pp_slices p0) \<and> map ps_source_modules slices = map ps_source_modules (pp_slices p0)
      \<and> map ps_local_ref slices = map ps_local_ref (pp_slices p0)"
  proof (induction slices arbitrary: p0)
    case (Cons s slices)
    then obtain s0 ss where "pp_slices p0 = s0 # ss" "check_slice_proposal s0 = Some s"
        "map check_slice_proposal (pp_slices (p0\<lparr>pp_slices := ss\<rparr>)) = map Some slices" by auto
    with Cons.IH [of "p0\<lparr>pp_slices := ss\<rparr>"] show ?case by (auto dest: check_slice_fields)
  qed simp
  then show "map ps_kind (pp_slices p) = map ps_kind (pp_slices p0)"
    "map ps_source_modules (pp_slices p) = map ps_source_modules (pp_slices p0)"
    "proposal_refs p = proposal_refs p0" "pp_edges p = pp_edges p0" "distinct (proposal_refs p)"
    "pp_integration_ranks p = py_dict (pp_integration_ranks p0)"
    using d by (simp_all add: p proposal_refs_def)
qed

lemma derive_cases:
  assumes "derive_plan_proposal nf inputs = Inr p"
  obtains tasks where "derive_artifact_tasks (an_artifacts (in_analysis inputs)) [] = Inr tasks"
    "map ps_kind (pp_slices p) = map ps_kind (derived_slices nf inputs tasks)"
    "map ps_source_modules (pp_slices p) = map ps_source_modules (derived_slices nf inputs tasks)"
    "distinct (proposal_refs p)" "pp_edges p = []"
    "pp_integration_ranks p = zip (proposal_refs p) (map int [0..<length (pp_slices p)])"
proof -
  obtain tasks p0 where t: "derive_artifact_tasks (an_artifacts (in_analysis inputs)) [] = Inr tasks"
      and p0: "p0 = \<lparr>pp_slices = derived_slices nf inputs tasks, pp_edges = [],
         pp_integration_ranks = py_dict (map (\<lambda>(i, s). (ps_local_ref s, int i)) (enum_list (derived_slices nf inputs tasks))),
         pp_planner_rationale = [rationale ''derived from frozen analysis facts'']\<rparr>"
      and c: "check_plan_proposal p0 = Some p"
    using assms by (auto simp: derive_plan_proposal_def Let_def split: sum.splits option.splits)
  note f = check_plan_fields [OF c]
  have refs: "map fst (map (\<lambda>(i, s). (ps_local_ref s, int i)) (enum_list (derived_slices nf inputs tasks))) = proposal_refs p"
    unfolding f(3) by (rule nth_equalityI) (simp_all add: p0 proposal_refs_def nth_enumerate_eq)
  have len: "length (pp_slices p) = length (derived_slices nf inputs tasks)"
    using f(1) by (metis length_map p0 plan_proposal.select_convs(1))
  have "pp_integration_ranks p = map (\<lambda>(i, s). (ps_local_ref s, int i)) (enum_list (derived_slices nf inputs tasks))"
    using f(5,6) refs by (simp add: p0 py_dict_id)
  also have "\<dots> = zip (proposal_refs p) (map int [0..<length (pp_slices p)])"
    unfolding f(3) len by (rule nth_equalityI) (simp_all add: p0 proposal_refs_def nth_enumerate_eq)
  finally show ?thesis using that [OF t] f p0 by simp
qed

lemma owned_modules:
  fixes xs ys :: "'z plan_slice_proposal_scheme list"
  assumes "map ps_kind xs = map ps_kind ys" "map ps_source_modules xs = map ps_source_modules ys"
  shows "map ps_source_modules (filter (\<lambda>s. ps_kind s = k) xs) = map ps_source_modules (filter (\<lambda>s. ps_kind s = k) ys)"
proof -
  have aux: "map ps_source_modules (filter (\<lambda>s. ps_kind s = k) zs)
      = map snd (filter (\<lambda>(q, _). q = k) (zip (map ps_kind zs) (map ps_source_modules zs)))" for zs :: "'z plan_slice_proposal_scheme list"
    by (induction zs) auto
  show ?thesis unfolding aux assms ..
qed

text \<open>The mechanical proposal follows the module boundaries. When it exists, its implementation slices
  own the in-scope source modules one by one in identity order, its translation slices the in-scope test
  modules that cover something, its generation slices the in-scope source modules with an empty test suite,
  no edges are proposed, slice names are unique, and the ranks count the slices in their order.\<close>

theorem derive_follows_modules:
  assumes "derive_plan_proposal nf inputs = Inr p"
  shows "map ps_source_modules (filter (\<lambda>s. ps_kind s = Implementation) (pp_slices p))
       = map (\<lambda>m. [mf_module_id m]) (scoped_modules inputs Source)
     \<and> map ps_source_modules (filter (\<lambda>s. ps_kind s = TestTranslation) (pp_slices p))
       = map (\<lambda>m. [mf_module_id m]) (filter (\<lambda>m. mf_module_id m \<in> covered_test_modules (in_analysis inputs)
             (scoped_modules inputs TestRole)) (scoped_modules inputs TestRole))
     \<and> map ps_source_modules (filter (\<lambda>s. ps_kind s = TestGeneration) (pp_slices p))
       = map (\<lambda>m. [mf_module_id m]) (filter (\<lambda>m. status_of_module (in_analysis inputs) (mf_module_id m) = Some EmptyTestSuite)
           (scoped_modules inputs Source))
     \<and> distinct (proposal_refs p) \<and> pp_edges p = []
     \<and> pp_integration_ranks p = zip (proposal_refs p) (map int [0..<length (pp_slices p)])"
proof -
  obtain tasks where t: "map ps_kind (pp_slices p) = map ps_kind (derived_slices nf inputs tasks)"
      "map ps_source_modules (pp_slices p) = map ps_source_modules (derived_slices nf inputs tasks)"
      and rest: "distinct (proposal_refs p)" "pp_edges p = []"
      "pp_integration_ranks p = zip (proposal_refs p) (map int [0..<length (pp_slices p)])"
    by (rule derive_cases [OF assms])
  define sources where "sources = scoped_modules inputs Source"
  define names where "names = normalize_group_names nf (map (str_uuid \<circ> mf_module_id) sources)"
  have len: "length sources = length names" by (simp add: names_def)
  have kinds: "ps_kind (implementation_slice x) = Implementation" "ps_source_modules (implementation_slice x) = [mf_module_id (fst x)]"
      "ps_kind (generation_slice x) = TestGeneration" "ps_source_modules (generation_slice x) = [mf_module_id (fst x)]"
      "ps_kind (translation_slice nf m) = TestTranslation" "ps_source_modules (translation_slice nf m) = [mf_module_id m]" for x m
    by (simp_all add: implementation_slice_def generation_slice_def translation_slice_def slice_of_def Let_def split: prod.split)
  have contract: "filter (\<lambda>s. ps_kind s = k) (contract_slices tasks) = []" if "k \<noteq> Contract" for k
    using that by (simp add: contract_slices_def slice_of_def)
  have zipped: "map (\<lambda>x. [mf_module_id (fst x)]) (filter (\<lambda>x. Q (fst x)) (zip sources names)) = map (\<lambda>m. [mf_module_id m]) (filter Q sources)" for Q
    using len by (induction sources names rule: list_induct2) auto
  note own = owned_modules [OF t, unfolded derived_slices_def Let_def sources_def [symmetric] names_def [symmetric]]
  show ?thesis
    using zipped [of "\<lambda>_. True"] zipped [of "\<lambda>m. status_of_module (in_analysis inputs) (mf_module_id m) = Some EmptyTestSuite"]
    unfolding own sources_def [symmetric]
    by (simp add: contract filter_map comp_def kinds rest case_prod_unfold)
qed

lemma ex_scope: "scope_includes_path (in_scope ex_inputs) ''app/a.py''" "scope_includes_path (in_scope ex_inputs) ''app/b.py''"
    "scope_includes_path (in_scope ex_inputs) ''tests/t.py''"
  by code_simp+

lemma ex_sources: "scoped_modules ex_inputs Source = [ex_module 1 Source ''app/a.py'', ex_module 2 Source ''app/b.py'']"
    "scoped_modules ex_inputs TestRole = [ex_module 3 TestRole ''tests/t.py'']"
  using ex_scope by (simp_all add: scoped_modules_def module_is_in_scope_def ex_inputs_def ex_module_def)

lemma ex_covered: "covered_test_modules (in_analysis ex_inputs) [ex_module 3 TestRole ''tests/t.py''] = {3}"
  by (auto simp: covered_test_modules_def py_dict_def ex_inputs_def ex_module_def Let_def)

lemma ex_names: "normalize_group_names (\<lambda>_. ''m'') [u, v] = [''m'', ''m-2'']"
  by (simp add: normalize_group_names_def normalize_group_name_def strip_dashes_def name_char_def is_lower_def less_eq_char_def
       str_nat.simps digit_char_def char_of_eq_iff Let_def)

lemma ex_status: "status_of_module (in_analysis ex_inputs) m = None"
  by (simp add: status_of_module_def ex_inputs_def py_dict_def)

lemma ex_derived: "derived_slices (\<lambda>_. ''m'') ex_inputs [] =
   [slice_of ''I-m'' Implementation [1] [''target/src/m/a.py''] [''target/src/m''] [] ''implementation follows the source module boundary'',
    slice_of ''I-m-2'' Implementation [2] [''target/src/m-2/b.py''] [''target/src/m-2''] [] ''implementation follows the source module boundary'',
    slice_of ''TT-m'' TestTranslation [3] [''target/tests/m/t.py''] [''target/tests/m''] [] ''covered source tests use the translation track'']"
proof -
  have n: "normalize_group_name (\<lambda>_. ''m'') u = ''m''" for u
    using ex_names [of u u] by (simp add: normalize_group_names_def Let_def)
  have "mf_module_id (ex_module i r q) = i" "mf_file_paths (ex_module i r q) = [q]" for i r q by (simp_all add: ex_module_def)
  then show ?thesis using ex_names [of "str_uuid 1" "str_uuid 2"]
    by (simp add: derived_slices_def ex_sources ex_covered ex_status n Let_def contract_slices_def implementation_slice_def
       translation_slice_def target_paths_def base_name_def)
qed

lemma ex_derives: "\<exists>p. derive_plan_proposal (\<lambda>_. ''m'') ex_inputs = Inr p"
proof -
  have "an_artifacts (in_analysis ex_inputs) = []" by (simp add: ex_inputs_def)
  moreover have "check_plan_proposal \<lparr>pp_slices = derived_slices (\<lambda>_. ''m'') ex_inputs [], pp_edges = [],
        pp_integration_ranks = py_dict (map (\<lambda>(i, s). (ps_local_ref s, int i)) (enum_list (derived_slices (\<lambda>_. ''m'') ex_inputs []))),
        pp_planner_rationale = [rationale ''derived from frozen analysis facts'']\<rparr> \<noteq> None"
    unfolding ex_derived by code_simp
  ultimately show ?thesis by (auto simp: derive_plan_proposal_def derive_artifact_tasks_def Let_def)
qed

theorem derive_follows_modules_witness:
  "\<exists>p. derive_plan_proposal (\<lambda>_. ''m'') ex_inputs = Inr p
     \<and> map ps_source_modules (filter (\<lambda>s. ps_kind s = TestTranslation) (pp_slices p)) = [[3]]
     \<and> map ps_source_modules (filter (\<lambda>s. ps_kind s = Implementation) (pp_slices p)) = [[1], [2]]"
proof -
  obtain p where p: "derive_plan_proposal (\<lambda>_. ''m'') ex_inputs = Inr p" using ex_derives by blast
  show ?thesis using derive_follows_modules [OF p] p by (simp add: ex_sources ex_covered) (simp add: ex_module_def)
qed

end
