(* ===== verification/Context_Blocks.thy ===== *)
theory Context_Blocks
  imports Context_Manager
begin

text \<open>
  The second half of \<open>runtime/memory.py\<close>: tool results as bounded data blocks, the eviction of old results
  from a prompt, the recovery brief that is projected from audit events, and the two summaries a
  regeneration starts from. The text of a float and \<open>str\<close> of an object outside the JSON values are
  parameters.
\<close>

section \<open>Bytes\<close>

definition MAX_CONTEXT_BLOCK_BYTES :: nat where
  "MAX_CONTEXT_BLOCK_BYTES = 262144"

definition MAX_AST_MATCHES :: nat where
  "MAX_AST_MATCHES = 200"

text \<open>\<open>value.encode("utf-8")[:limit].decode("utf-8", errors="ignore")\<close>: the code points that fit whole; and
  \<open>value.encode("utf-8")[-limit:].decode(...)\<close> for a positive limit, which drops the rest of a code point that
  was cut.\<close>

fun fit_points :: "nat \<Rightarrow> string list \<Rightarrow> string list" where
  "fit_points limit [] = []"
| "fit_points limit (cp # cps) = (if length cp \<le> limit then cp # fit_points (limit - length cp) cps else [])"

definition byte_prefix :: "string \<Rightarrow> nat \<Rightarrow> string" where
  "byte_prefix value limit = concat (fit_points limit (code_points value))"

definition byte_suffix :: "string \<Rightarrow> nat \<Rightarrow> string" where
  "byte_suffix value limit =
     (if length value \<le> limit then value else dropWhile utf8_cont (drop (length value - limit) value))"

section \<open>CAS references\<close>

datatype artifact_value = CasText string | CasArtifact string

definition hex_either_case :: "char \<Rightarrow> bool" where
  "hex_either_case c \<longleftrightarrow> c \<in> set ''0123456789abcdefABCDEF''"

definition ascii_lower :: "char \<Rightarrow> char" where
  "ascii_lower c = (let n = of_char c :: nat in if 65 \<le> n \<and> n \<le> 90 then char_of (n + 32) else c)"

definition cas_uri :: "string \<Rightarrow> bool" where
  "cas_uri s \<longleftrightarrow> take 6 s = ''cas://'' \<and> length s = 70 \<and> list_all hex_either_case (drop 6 s)"

definition cas_ref :: "artifact_value option \<Rightarrow> string option res" where
  "cas_ref value = (case value of
       None \<Rightarrow> Inr None
     | Some v \<Rightarrow> let result = (case v of CasText s \<Rightarrow> s | CasArtifact sha \<Rightarrow> ''cas://'' @ sha)
         in if \<not> cas_uri result then Inl (ValueError ''artifact_ref must be a cas:// SHA-256 URI'')
            else Inr (Some (map ascii_lower result)))"

type_synonym cas_validator = "string \<Rightarrow> uuid \<Rightarrow> bool res"

definition owned_cas_ref :: "artifact_value option \<Rightarrow> uuid option \<Rightarrow> cas_validator option \<Rightarrow> string option res" where
  "owned_cas_ref value run validator =
     bind_res (cas_ref value) (\<lambda>r. case r of
       None \<Rightarrow> Inr None
     | Some reference \<Rightarrow> (case (run, validator) of
         (Some run, Some owns) \<Rightarrow> (case owns reference run of
             Inl (TypeError _) \<Rightarrow> Inl (ValueError ''CAS ownership validation failed'')
           | Inl (ValueError _) \<Rightarrow> Inl (ValueError ''CAS ownership validation failed'')
           | Inl e \<Rightarrow> Inl e
           | Inr owned \<Rightarrow> if \<not> owned then Inl (ValueError ''CAS reference is not owned by the current run'')
               else Inr (Some reference))
       | _ \<Rightarrow> Inl (ValueError ''CAS ownership validation requires the current run identity'')))"

section \<open>Data blocks\<close>

datatype data_block_kind = SourceFile | SourceAst | ShellBlock | ExecBlock | CompleteLog | ToolErrorBlock | ContractBlock

record context_data_block =
  cb_kind :: data_block_kind
  cb_text :: string
  cb_total_bytes :: int
  cb_truncated :: bool
  cb_artifact_ref :: "string option"
  cb_range_hint :: "string option"
  cb_facts :: "pyval list"

definition data_block :: "data_block_kind \<Rightarrow> string \<Rightarrow> int \<Rightarrow> context_data_block" where
  "data_block kind body bytes =
     \<lparr>cb_kind = kind, cb_text = body, cb_total_bytes = bytes, cb_truncated = False, cb_artifact_ref = None,
      cb_range_hint = None, cb_facts = []\<rparr>"

definition data_block_init :: "context_data_block \<Rightarrow> context_data_block res" where
  "data_block_init b =
     (if cb_total_bytes b < 0 then Inl (ValueError ''data block byte count must not be negative'')
      else if length (cb_text b) > MAX_CONTEXT_BLOCK_BYTES then Inl (ValueError ''context data block exceeds 256 KiB'')
      else bind_res (cas_ref (map_option CasText (cb_artifact_ref b))) (\<lambda>r. Inr (b\<lparr>cb_artifact_ref := r\<rparr>)))"

definition read_range :: "string \<Rightarrow> int \<Rightarrow> int \<Rightarrow> string" where
  "read_range path start_line total_lines =
     byte_prefix path 4096 @ '':'' @ str_int start_line @ ''-'' @ str_int total_lines"

definition read_marker :: "string \<Rightarrow> string" where
  "read_marker extent = newline @ ''[truncated=true; range='' @ extent @ ''; reread_next_range=true]''"

definition govern_read_file :: "string \<Rightarrow> string \<Rightarrow> int \<Rightarrow> int \<Rightarrow> bool \<Rightarrow> context_data_block res" where
  "govern_read_file body path total_lines start_line truncated0 =
     (if path = [] \<or> total_lines < 0 \<or> start_line < 1 then Inl (ValueError ''ReadFile context facts are invalid'')
      else
        let truncated = (truncated0 \<or> length body > MAX_CONTEXT_BLOCK_BYTES);
            extent = read_range path start_line total_lines;
            marker = read_marker extent;
            body' = (if truncated then byte_prefix body (MAX_CONTEXT_BLOCK_BYTES - length marker) @ marker else body)
        in data_block_init ((data_block SourceFile body' (int (length body)))
             \<lparr>cb_truncated := truncated, cb_range_hint := Some extent\<rparr>))"

definition shell_text :: "string \<Rightarrow> string \<Rightarrow> int \<Rightarrow> string" where
  "shell_text stdout stderr exit_code = py_strip (''[exit_code='' @ str_int exit_code @ '']'' @ newline @ ''[stdout]'' @ newline
     @ stdout @ newline @ ''[stderr]'' @ newline @ stderr)"

definition shell_head :: string where
  "shell_head = ''[truncated=true]'' @ newline @ ''[head]'' @ newline"

definition tail_mark :: string where
  "tail_mark = newline @ ''[tail]'' @ newline"

definition govern_shell_output ::
  "string \<Rightarrow> string \<Rightarrow> int \<Rightarrow> artifact_value option \<Rightarrow> uuid option \<Rightarrow> cas_validator option \<Rightarrow> context_data_block res" where
  "govern_shell_output stdout stderr exit_code artifact run validator =
     (let combined = shell_text stdout stderr exit_code;
          truncated = (length combined > MAX_CONTEXT_BLOCK_BYTES)
      in bind_res (owned_cas_ref artifact run validator) (\<lambda>reference.
           if truncated \<and> reference = None then Inl (ValueError ''oversized Shell output requires a CAS artifact reference'')
           else
             let payload_limit = MAX_CONTEXT_BLOCK_BYTES - length (shell_head @ tail_mark);
                 head_limit = payload_limit div 2;
                 tail_limit = payload_limit - head_limit;
                 body = (if truncated then shell_head @ byte_prefix combined head_limit @ tail_mark @ byte_suffix combined tail_limit
                         else combined)
             in data_block_init ((data_block ShellBlock body (int (length combined)))
                  \<lparr>cb_truncated := truncated, cb_artifact_ref := reference,
                   cb_range_hint := Some (''exit_code='' @ str_int exit_code)\<rparr>)))"

text \<open>\<open>json.dumps(v, separators=(",", ":"))\<close> of values without floats, with \<open>ensure_ascii\<close> and \<open>sort_keys\<close>.\<close>

abbreviation dumps :: "bool \<Rightarrow> bool \<Rightarrow> pyval \<Rightarrow> string res" where
  "dumps \<equiv> json_dumps (\<lambda>_. [])"

definition exec_summary :: "string \<Rightarrow> string" where
  "exec_summary summary =
     (let summary_limit = MAX_CONTEXT_BLOCK_BYTES - 8192; half = summary_limit div 2
      in ''[head]'' @ newline @ byte_prefix summary half @ tail_mark @ byte_suffix summary (summary_limit - half))"

definition govern_exec_result ::
  "string \<Rightarrow> int \<Rightarrow> string option \<Rightarrow> artifact_value option \<Rightarrow> uuid option \<Rightarrow> cas_validator option \<Rightarrow> context_data_block res" where
  "govern_exec_result summary step_count error_message artifact run validator =
     (if step_count < 0 then Inl (ValueError ''Exec step count is invalid'')
      else
        let total_bytes = length summary + (case error_message of None \<Rightarrow> 0 | Some m \<Rightarrow> length m);
            oversized = (length summary > MAX_CONTEXT_BLOCK_BYTES - 8192)
        in bind_res (owned_cas_ref artifact run validator) (\<lambda>reference.
             if (total_bytes > MAX_CONTEXT_BLOCK_BYTES \<or> oversized) \<and> reference = None
             then Inl (ValueError ''oversized Exec summary requires a CAS artifact reference'')
             else
               let truncated = (total_bytes > MAX_CONTEXT_BLOCK_BYTES \<or> oversized);
                   failed = (case error_message of None \<Rightarrow> [] | Some m \<Rightarrow> m)
               in bind_res (dumps False True (obj ([(''step_count'', PInt step_count),
                      (''outcome'', PStr (if failed \<noteq> [] then ''FAILED'' else ''OK'')),
                      (''summary'', PStr (if oversized then exec_summary summary else summary)),
                      (''truncated'', PBool truncated)]
                      @ (if failed \<noteq> [] then [(''error'', PStr (byte_prefix failed 4096))] else [])))) (\<lambda>body.
                  data_block_init ((data_block ExecBlock body (int total_bytes))
                    \<lparr>cb_truncated := truncated, cb_artifact_ref := reference\<rparr>))))"

definition govern_complete_log ::
  "int \<Rightarrow> artifact_value \<Rightarrow> uuid option \<Rightarrow> cas_validator option \<Rightarrow> context_data_block res" where
  "govern_complete_log total_bytes artifact run validator =
     (if total_bytes < 0 then Inl (ValueError ''complete log byte count is invalid'')
      else bind_res (owned_cas_ref (Some artifact) run validator) (\<lambda>r. case r of
          None \<Rightarrow> Inl (AssertionError [])
        | Some reference \<Rightarrow> bind_res (dumps True True (obj [(''artifact_ref'', PStr reference), (''bytes'', PInt total_bytes)]))
            (\<lambda>body. data_block_init ((data_block CompleteLog body total_bytes)
               \<lparr>cb_truncated := True, cb_artifact_ref := Some reference\<rparr>))))"

text \<open>\<open>_jsonable\<close>; \<open>other\<close> is \<open>str\<close> of an object (or of a key) that is no JSON value.\<close>

definition jsonable_key :: "string \<Rightarrow> dict_key \<Rightarrow> dict_key" where
  "jsonable_key other k = (case k of StrKey s \<Rightarrow> StrKey s | OtherKey \<Rightarrow> StrKey other)"

primrec jsonable :: "string \<Rightarrow> pyval \<Rightarrow> pyval" where
  "jsonable other PNone = PNone"
| "jsonable other (PBool b) = PBool b"
| "jsonable other (PInt i) = PInt i"
| "jsonable other (PFloat x) = PFloat x"
| "jsonable other (PStr s) = PStr s"
| "jsonable other (PList vs) = PList (map (jsonable other) vs)"
| "jsonable other (PTuple vs) = PList (map (jsonable other) vs)"
| "jsonable other (PDict kvs) = PDict (py_dict (map (map_prod (jsonable_key other) id) (map (map_prod id (jsonable other)) kvs)))"
| "jsonable other (PUuid u) = PStr (str_uuid u)"
| "jsonable other PObject = PStr other"

definition ast_text :: "(rat \<Rightarrow> string) \<Rightarrow> string \<Rightarrow> pyval list \<Rightarrow> bool \<Rightarrow> string res" where
  "ast_text R other facts truncated =
     json_dumps R False False (obj [(''matches'', PList (map (jsonable other) facts)), (''truncated'', PBool truncated)])"

function ast_loop :: "(rat \<Rightarrow> string) \<Rightarrow> string \<Rightarrow> pyval list \<Rightarrow> bool \<Rightarrow> (string \<times> pyval list \<times> bool) res" where
  "ast_loop R other facts truncated =
     (case ast_text R other facts truncated of
        Inl e \<Rightarrow> Inl e
      | Inr body \<Rightarrow> if length body \<le> MAX_CONTEXT_BLOCK_BYTES \<or> facts = [] then Inr (body, facts, truncated)
          else ast_loop R other (butlast facts) True)"
  by pat_completeness auto
termination
  by (relation "measure (\<lambda>(_, _, facts, _). length facts)") auto

declare ast_loop.simps [simp del]

definition govern_ast_matches :: "(rat \<Rightarrow> string) \<Rightarrow> string \<Rightarrow> pyval list \<Rightarrow> context_data_block res" where
  "govern_ast_matches R other matches =
     bind_res (ast_loop R other (take MAX_AST_MATCHES matches) (length matches > MAX_AST_MATCHES)) (\<lambda>(body, facts, truncated).
       data_block_init ((data_block SourceAst body (int (length body)))\<lparr>cb_truncated := truncated, cb_facts := facts\<rparr>))"

definition key_value :: "dict_key \<Rightarrow> pyval" where
  "key_value k = (case k of StrKey s \<Rightarrow> PStr s | OtherKey \<Rightarrow> PObject)"

definition govern_tool_error :: "(rat \<Rightarrow> string) \<Rightarrow> string \<Rightarrow> string \<Rightarrow> (dict_key \<times> pyval) list \<Rightarrow> context_data_block res" where
  "govern_tool_error R other code facts =
     (if code = [] then Inl (ValueError ''ToolError context facts are invalid'')
      else bind_res (json_dumps R True True (obj [(''code'', PStr code), (''facts'', jsonable other (PDict facts))])) (\<lambda>body.
        data_block_init ((data_block ToolErrorBlock body (int (length body)))
          \<lparr>cb_facts := map (\<lambda>(k, v). PTuple [key_value k, v]) facts\<rparr>)))"

definition govern_contract_reference :: "string list \<Rightarrow> context_data_block res" where
  "govern_contract_reference refs =
     (if list_ex (\<lambda>r. r = []) refs then Inl (ValueError ''contract references must be non-empty text'')
      else bind_res (dumps True True (obj [(''contract_refs'', PList (map PStr refs))])) (\<lambda>body.
        data_block_init (data_block ContractBlock body (int (length body)))))"

definition segment_from_block :: "context_data_block \<Rightarrow> bool \<Rightarrow> int option \<Rightarrow> context_segment res" where
  "segment_from_block b required turn_index =
     context_segment_init
       \<lparr>cs_kind = ''targeted'', cs_content = cb_text b, cs_required = required, cs_evictable = (\<not> required),
        cs_source_body = (cb_kind b = SourceFile),
        cs_source_ref = (case cb_range_hint b of
            Some h \<Rightarrow> if h = [] then cb_artifact_ref b else Some h
          | None \<Rightarrow> cb_artifact_ref b),
        cs_turn_index = turn_index\<rparr>"

section \<open>Eviction\<close>

record eviction_audit =
  ea_segment_kind :: string
  ea_source_ref :: "string option"
  ea_replacement :: string
  ea_turn_index :: int

record eviction_result =
  er_envelope :: context_envelope
  er_audit :: "eviction_audit list"

definition replacement_text :: "string option \<Rightarrow> string res" where
  "replacement_text source_ref =
     dumps False True (obj [(''evicted'', PBool True), (''source_ref'', json_option PStr source_ref),
       (''conclusion'', PStr ''content externalized; reread explicitly'')])"

text \<open>One round of the loop over \<open>envelope.targeted\<close>: the segment to keep and the audit entry, if any.\<close>

definition evict_segment :: "int \<Rightarrow> context_segment \<Rightarrow> (context_segment \<times> eviction_audit list) res" where
  "evict_segment current_turn s =
     (case cs_turn_index s of
        None \<Rightarrow> Inr (s, [])
      | Some turn \<Rightarrow>
          if \<not> cs_evictable s \<or> cs_required s \<or> turn \<ge> current_turn then Inr (s, [])
          else bind_res (replacement_text (cs_source_ref s)) (\<lambda>replacement.
            bind_res (context_segment_init
               \<lparr>cs_kind = ''targeted'', cs_content = replacement, cs_required = False, cs_evictable = False, cs_source_body = False,
                cs_source_ref = cs_source_ref s, cs_turn_index = Some turn\<rparr>) (\<lambda>s'.
              Inr (s', [\<lparr>ea_segment_kind = ''targeted'', ea_source_ref = cs_source_ref s, ea_replacement = replacement,
                         ea_turn_index = turn\<rparr>]))))"

text \<open>The calls of \<open>audit_sink\<close> are the second component of the result.\<close>

definition evict ::
  "context_envelope \<Rightarrow> int \<Rightarrow> int \<Rightarrow> int \<Rightarrow> int \<Rightarrow> (context_envelope \<Rightarrow> int res) option
    \<Rightarrow> (eviction_audit list \<Rightarrow> unit res) option \<Rightarrow> (eviction_result \<times> eviction_audit list list) ctx" where
  "evict envelope current_turn current_tokens net_input_cap watermark_pct remeasure audit_sink =
     (if current_turn < 0 then Inl (Py (TypeError ''eviction measurements must be integers''))
      else if net_input_cap \<le> 0 \<or> \<not> (1 \<le> watermark_pct \<and> watermark_pct \<le> 100)
      then Inl (Py (ValueError ''eviction measurements are invalid''))
      else if current_tokens * 100 < net_input_cap * watermark_pct then Inr (\<lparr>er_envelope = envelope, er_audit = []\<rparr>, [])
      else bind_res (lift_py (traverse (evict_segment current_turn) (ev_targeted envelope))) (\<lambda>steps.
        let audit = concat (map snd steps)
        in if audit = [] then Inr (\<lparr>er_envelope = envelope, er_audit = []\<rparr>, [])
           else case (remeasure, audit_sink) of
              (Some meter, Some sink) \<Rightarrow>
                bind_res (lift_py (context_envelope_init (envelope\<lparr>ev_targeted := map fst steps\<rparr>))) (\<lambda>envelope'.
                bind_res (lift_py (meter envelope')) (\<lambda>measured.
                if measured < 0 then capability_invalid ''eviction remeasurement is invalid''
                else if measured > net_input_cap then budget_exceeded ''context remains above the locked net-input cap''
                else bind_res (lift_py (sink audit)) (\<lambda>_. Inr (\<lparr>er_envelope = envelope', er_audit = audit\<rparr>, [audit]))))
            | _ \<Rightarrow> capability_invalid ''eviction requires exact remeasurement and durable audit''))"

section \<open>Recovery briefs\<close>

record checkpoint_summary =
  ck_candidate_commit_oid :: string
  ck_file_count :: int
  ck_total_bytes :: int

record check_feedback_summary =
  cf_action :: check_action
  cf_exit_code :: int
  cf_output_digest :: string

record segment_progress_summary =
  sp_completed_items :: "string list"
  sp_remaining_task_hints :: "string list"

record recovery_brief =
  rb_slice :: slice_generation_ref
  rb_latest_checkpoint :: "checkpoint_summary option"
  rb_recent_check_feedback :: "check_feedback_summary list"
  rb_discarded_turns :: int
  rb_segment_progress :: "segment_progress_summary option"

definition progress_items_are_text :: "string list \<Rightarrow> bool" where
  "progress_items_are_text items = list_all (\<lambda>item. \<not> blank item) items"

definition brief_from_facts ::
  "slice_generation_ref \<Rightarrow> (string \<times> int \<times> int) option \<Rightarrow> (check_action \<times> int \<times> string) list \<Rightarrow> int
    \<Rightarrow> string list \<Rightarrow> string list \<Rightarrow> recovery_brief res" where
  "brief_from_facts slice_ref checkpoint feedback discarded_turns completed_items remaining =
     (if (case checkpoint of None \<Rightarrow> False | Some (_, files, bytes) \<Rightarrow> files < 0 \<or> bytes < 0)
      then Inl (ValueError ''validation error for CheckpointSummary'')
      else if list_ex (\<lambda>(_, _, sha). \<not> is_sha256 sha) feedback
      then Inl (ValueError ''validation error for CheckFeedbackSummary'')
      else if \<not> (progress_items_are_text completed_items \<and> progress_items_are_text remaining)
      then Inl (ValueError ''validation error for SegmentProgressSummary'')
      else if discarded_turns < 0 then Inl (ValueError ''validation error for RecoveryBrief'')
      else Inr
        \<lparr>rb_slice = slice_ref,
         rb_latest_checkpoint = map_option (\<lambda>(oid, files, bytes).
           \<lparr>ck_candidate_commit_oid = oid, ck_file_count = files, ck_total_bytes = bytes\<rparr>) checkpoint,
         rb_recent_check_feedback = map (\<lambda>(action, exit_code, sha).
           \<lparr>cf_action = action, cf_exit_code = exit_code, cf_output_digest = sha\<rparr>) feedback,
         rb_discarded_turns = discarded_turns,
         rb_segment_progress = (if completed_items = [] \<and> remaining = [] then None
           else Some \<lparr>sp_completed_items = completed_items, sp_remaining_task_hints = remaining\<rparr>)\<rparr>)"

fun check_action_value :: "check_action \<Rightarrow> string" where
  "check_action_value Scaffold = ''SCAFFOLD''"
| "check_action_value Compile = ''COMPILE''"
| "check_action_value Test = ''TEST''"
| "check_action_value Lint = ''LINT''"
| "check_action_value TypeCheck = ''TYPE_CHECK''"

definition check_actions :: "check_action list" where
  "check_actions = [Scaffold, Compile, Test, Lint, TypeCheck]"

text \<open>An event is a mapping with string keys; \<open>str\<close> of a value outside the scalars is the parameter \<open>S\<close>.\<close>

definition scalar_str :: "(pyval \<Rightarrow> string) \<Rightarrow> pyval \<Rightarrow> string" where
  "scalar_str S v = (case v of
       PStr s \<Rightarrow> s | PUuid u \<Rightarrow> str_uuid u | PInt i \<Rightarrow> str_int i | PNone \<Rightarrow> ''None''
     | PBool b \<Rightarrow> (if b then ''True'' else ''False'') | w \<Rightarrow> S w)"

definition get_or_none :: "event_data \<Rightarrow> string \<Rightarrow> pyval" where
  "get_or_none data key = (case data_get data key of None \<Rightarrow> PNone | Some v \<Rightarrow> v)"

text \<open>\<open>value == n\<close> for an integer \<open>n\<close>.\<close>

definition equals_int :: "pyval \<Rightarrow> int \<Rightarrow> bool" where
  "equals_int v n = (case v of PInt i \<Rightarrow> i = n | PBool b \<Rightarrow> n = (if b then 1 else 0) | PFloat x \<Rightarrow> x = of_int n | _ \<Rightarrow> False)"

definition str_items :: "(dict_key \<times> pyval) list \<Rightarrow> event_data" where
  "str_items kvs = concat (map (\<lambda>(k, v). case k of StrKey s \<Rightarrow> [(s, v)] | OtherKey \<Rightarrow> []) kvs)"

text \<open>The type and the data of an event, when both have the right shape.\<close>

definition event_parts :: "event_data \<Rightarrow> (string \<times> event_data) option" where
  "event_parts event =
     (let event_type = (case data_get event ''event_type'' of None \<Rightarrow> get_or_none event ''type'' | Some v \<Rightarrow> v)
      in case event_type of
           PStr t \<Rightarrow> (case data_get event ''data'' of
               None \<Rightarrow> Some (t, event)
             | Some (PDict kvs) \<Rightarrow> Some (t, str_items kvs)
             | _ \<Rightarrow> None)
         | _ \<Rightarrow> None)"

definition in_slice_scope :: "(pyval \<Rightarrow> string) \<Rightarrow> slice_generation_ref \<Rightarrow> string \<Rightarrow> event_data \<Rightarrow> event_data \<Rightarrow> bool" where
  "in_slice_scope S slice_ref run_id event raw =
     (let scope = (\<lambda>key. case data_get raw key of Some v \<Rightarrow> v | None \<Rightarrow> get_or_none event key)
      in scalar_str S (scope ''run_id'') = run_id \<and> scalar_str S (scope ''slice_id'') = str_uuid (sg_slice_id slice_ref)
         \<and> (scope ''generation'' = PNone \<or> equals_int (scope ''generation'') (sg_generation slice_ref)))"

type_synonym recovery_facts = "(string \<times> int \<times> int) option \<times> (check_action \<times> int \<times> string) list"

definition checkpoint_fact :: "event_data \<Rightarrow> (string \<times> int \<times> int) res" where
  "checkpoint_fact raw =
     (case (get_or_none raw ''candidate_commit_oid'', get_or_none raw ''file_count'', get_or_none raw ''total_bytes'') of
        (PStr oid, PInt files, PInt bytes) \<Rightarrow> Inr (oid, files, bytes)
      | _ \<Rightarrow> Inl (ValueError ''checkpoint event lacks typed recovery facts''))"

definition feedback_fact :: "event_data \<Rightarrow> (check_action \<times> int \<times> string) res" where
  "feedback_fact raw =
     (case (get_or_none raw ''action'', get_or_none raw ''exit_code'', get_or_none raw ''output_digest'') of
        (PStr action, PInt exit_code, PStr sha) \<Rightarrow>
          bind_res (enum_of check_action_value check_actions action) (\<lambda>a. Inr (a, exit_code, sha))
      | _ \<Rightarrow> Inl (ValueError ''check event lacks typed recovery facts''))"

definition is_checkpoint_event :: "string \<Rightarrow> bool" where
  "is_checkpoint_event t \<longleftrightarrow> t \<in> {''checkpoint.committed'', ''checkpoint.completed''}"

definition is_check_event :: "string \<Rightarrow> bool" where
  "is_check_event t \<longleftrightarrow> t \<in> {''check.feedback'', ''verification.check''}"

fun recovery_loop ::
  "(pyval \<Rightarrow> string) \<Rightarrow> slice_generation_ref \<Rightarrow> string \<Rightarrow> recovery_facts \<Rightarrow> event_data list \<Rightarrow> recovery_facts res" where
  "recovery_loop S slice_ref run_id acc [] = Inr acc"
| "recovery_loop S slice_ref run_id (checkpoint, feedback) (event # events) =
     (case event_parts event of
        None \<Rightarrow> recovery_loop S slice_ref run_id (checkpoint, feedback) events
      | Some (t, raw) \<Rightarrow>
          if \<not> in_slice_scope S slice_ref run_id event raw
          then recovery_loop S slice_ref run_id (checkpoint, feedback) events
          else if is_checkpoint_event t
          then bind_res (checkpoint_fact raw) (\<lambda>c. recovery_loop S slice_ref run_id (Some c, feedback) events)
          else if is_check_event t
          then bind_res (feedback_fact raw) (\<lambda>item. recovery_loop S slice_ref run_id (checkpoint, feedback @ [item]) events)
          else recovery_loop S slice_ref run_id (checkpoint, feedback) events)"

definition brief_from_events ::
  "(pyval \<Rightarrow> string) \<Rightarrow> slice_generation_ref \<Rightarrow> uuid \<Rightarrow> event_data list \<Rightarrow> int \<Rightarrow> string list \<Rightarrow> string list \<Rightarrow> recovery_brief res" where
  "brief_from_events S slice_ref run events discarded_turns completed_items remaining =
     bind_res (recovery_loop S slice_ref (str_uuid run) (None, []) events) (\<lambda>(checkpoint, feedback).
       brief_from_facts slice_ref checkpoint feedback discarded_turns completed_items remaining)"

section \<open>Regeneration history\<close>

record regeneration_history =
  rh_diagnostic_summary :: string
  rh_checkpoint_diff_summary :: string

definition regeneration_history_init :: "regeneration_history \<Rightarrow> regeneration_history res" where
  "regeneration_history_init h =
     (if blank (rh_diagnostic_summary h) \<or> blank (rh_checkpoint_diff_summary h)
      then Inl (ValueError ''regeneration history requires exactly two non-empty summaries'') else Inr h)"

definition required_segment :: "string \<Rightarrow> string \<Rightarrow> context_segment" where
  "required_segment content source_ref =
     \<lparr>cs_kind = ''targeted'', cs_content = content, cs_required = True, cs_evictable = False, cs_source_body = False,
      cs_source_ref = Some source_ref, cs_turn_index = None\<rparr>"

definition exceeds :: "string \<Rightarrow> int option \<Rightarrow> bool" where
  "exceeds content limit = (case limit of None \<Rightarrow> False | Some n \<Rightarrow> int (length content) > n)"

definition history_segments ::
  "regeneration_history \<Rightarrow> int option \<Rightarrow> artifact_value option \<Rightarrow> uuid option \<Rightarrow> cas_validator option
    \<Rightarrow> (context_segment \<times> context_segment) ctx" where
  "history_segments h max_inline artifact run validator =
     (if (case max_inline of None \<Rightarrow> False | Some n \<Rightarrow> n < 1) then Inl (Py (ValueError ''max_inline_bytes must be positive''))
      else bind_res
        (if exceeds (rh_checkpoint_diff_summary h) max_inline
         then bind_res (lift_py (owned_cas_ref artifact run validator)) (\<lambda>r. case r of
             None \<Rightarrow> Inl (Py (ValueError ''oversized checkpoint diff requires a CAS artifact''))
           | Some reference \<Rightarrow> lift_py (dumps True True (obj [(''artifact_ref'', PStr reference)])))
         else Inr (rh_checkpoint_diff_summary h)) (\<lambda>diff.
        if exceeds (rh_diagnostic_summary h) max_inline
        then budget_exceeded ''failure diagnostic summary is required and cannot be truncated''
        else bind_res (lift_py (context_segment_init (required_segment (rh_diagnostic_summary h) ''history:failure-diagnostic''))) (\<lambda>d.
          bind_res (lift_py (context_segment_init (required_segment diff ''history:checkpoint-diff''))) (\<lambda>c. Inr (d, c)))))"

section \<open>Cutting text\<close>

lemma fit_points_length: "length (concat (fit_points n cps)) \<le> n"
  by (induction n cps rule: fit_points.induct) auto

lemma fit_points_prefix: "prefix (concat (fit_points n cps)) (concat cps)"
  by (induction n cps rule: fit_points.induct) auto

lemma byte_prefix_length: "length (byte_prefix s n) \<le> n"
  by (simp add: byte_prefix_def fit_points_length)

lemma byte_prefix_prefix: "prefix (byte_prefix s n) s"
  using fit_points_prefix [of n "code_points s"] by (simp add: byte_prefix_def)

lemma byte_suffix_length: "length (byte_suffix s n) \<le> n"
  using length_dropWhile_le [of utf8_cont "drop (length s - n) s"] by (auto simp: byte_suffix_def)

lemma byte_suffix_suffix: "suffix (byte_suffix s n) s"
proof -
  have "suffix (dropWhile utf8_cont (drop (length s - n) s)) s"
    by (meson suffix_dropWhile suffix_drop suffix_order.trans)
  then show ?thesis by (simp add: byte_suffix_def)
qed

lemma length_str_nat: "n < 10 ^ Suc k \<Longrightarrow> length (str_nat n) \<le> Suc k"
proof (induction k arbitrary: n)
  case 0
  then show ?case by (simp add: str_nat.simps [of n])
next
  case (Suc k)
  then have "n div 10 < 10 ^ Suc k" by auto
  with Suc.IH show ?case by (simp add: str_nat.simps [of n])
qed

lemma length_str_int: "0 \<le> i \<Longrightarrow> i < 10 ^ 19 \<Longrightarrow> length (str_int i) \<le> 19"
  using length_str_nat [of "nat i" 18] by (simp add: str_int_def nat_less_iff)

section \<open>References\<close>

lemma ascii_lower_hex: "hex_either_case c \<Longrightarrow> hex_either_case (ascii_lower c) \<and> ascii_lower (ascii_lower c) = ascii_lower c"
  by (auto simp: hex_either_case_def ascii_lower_def char_of_eq_iff)

lemma cas_uri_lower:
  assumes "cas_uri s"
  shows "cas_uri (map ascii_lower s)" "map ascii_lower (map ascii_lower s) = map ascii_lower s"
proof -
  have s: "s = ''cas://'' @ drop 6 s" using assms by (metis append_take_drop_id cas_uri_def)
  have l: "map ascii_lower ''cas://'' = ''cas://''" by (simp add: ascii_lower_def)
  have hex: "hex_either_case c" if "c \<in> set (drop 6 s)" for c
    using assms that by (simp add: cas_uri_def list_all_iff)
  have e: "map ascii_lower s = ''cas://'' @ map ascii_lower (drop 6 s)" by (subst s) (simp only: map_append l)
  show "cas_uri (map ascii_lower s)"
    using assms ascii_lower_hex [OF hex] unfolding e by (auto simp: cas_uri_def list_all_iff)
  show "map ascii_lower (map ascii_lower s) = map ascii_lower s"
    unfolding e map_append l using ascii_lower_hex [OF hex] by simp
qed

lemma owned_cas_ref_stable:
  assumes "owned_cas_ref v run validator = Inr r"
  shows "cas_ref (map_option CasText r) = Inr r"
proof (cases r)
  case (Some x)
  obtain y where y: "cas_ref v = Inr y" using assms by (cases "cas_ref v") (simp_all add: owned_cas_ref_def)
  then have "y = Some x" using assms unfolding Some owned_cas_ref_def y bind_res_simps
    by (auto split: option.split_asm sum.split_asm if_splits py_exn.split_asm)
  with y have "cas_ref v = Inr (Some x)" by simp
  then obtain s where "cas_uri s" "x = map ascii_lower s" by (auto simp: cas_ref_def Let_def split: option.splits if_splits)
  with cas_uri_lower show ?thesis unfolding Some by (simp add: cas_ref_def)
qed (simp add: cas_ref_def)

lemma data_block_ok:
  assumes "0 \<le> cb_total_bytes b" "length (cb_text b) \<le> MAX_CONTEXT_BLOCK_BYTES" "cas_ref (map_option CasText (cb_artifact_ref b)) = Inr (cb_artifact_ref b)"
  shows "data_block_init b = Inr b"
  using assms by (simp add: data_block_init_def)

lemma read_marker_length:
  assumes "0 \<le> total_lines" "total_lines < 10 ^ 19" "1 \<le> start_line" "start_line < 10 ^ 19"
  shows "length (read_marker (read_range path start_line total_lines)) \<le> MAX_CONTEXT_BLOCK_BYTES"
  using assms length_str_int [of total_lines] length_str_int [of start_line] byte_prefix_length [of path 4096]
  by (simp add: read_marker_def read_range_def newline_def MAX_CONTEXT_BLOCK_BYTES_def)

text \<open>Reading a file always yields a block of at most 256 KiB. For line numbers of at most nineteen digits
  no request is refused: a body within the limit is passed on unchanged, and a larger one (or one the tool
  itself cut) becomes a prefix of it that ends at a character boundary followed by the marker that names the
  range to reread.\<close>

theorem read_file_governed:
  assumes "path \<noteq> []" "0 \<le> total_lines" "total_lines < 10 ^ 19" "1 \<le> start_line" "start_line < 10 ^ 19"
  shows "\<exists>b. govern_read_file body path total_lines start_line was_cut = Inr b
     \<and> length (cb_text b) \<le> MAX_CONTEXT_BLOCK_BYTES \<and> cb_total_bytes b = int (length body)
     \<and> cb_truncated b = (was_cut \<or> length body > MAX_CONTEXT_BLOCK_BYTES)
     \<and> (if cb_truncated b
        then \<exists>p. prefix p body \<and> cb_text b = p @ read_marker (read_range path start_line total_lines)
        else cb_text b = body)"
proof -
  let ?m = "read_marker (read_range path start_line total_lines)"
  define truncated where "truncated = (was_cut \<or> length body > MAX_CONTEXT_BLOCK_BYTES)"
  define b where "b = (data_block SourceFile (if truncated then byte_prefix body (MAX_CONTEXT_BLOCK_BYTES - length ?m) @ ?m else body)
      (int (length body)))\<lparr>cb_truncated := truncated, cb_range_hint := Some (read_range path start_line total_lines)\<rparr>"
  have bound: "length (cb_text b) \<le> MAX_CONTEXT_BLOCK_BYTES"
    using read_marker_length [OF assms(2-5), of path] byte_prefix_length [of body "MAX_CONTEXT_BLOCK_BYTES - length ?m"]
    by (auto simp: b_def data_block_def truncated_def)
  then have "data_block_init b = Inr b" by (intro data_block_ok) (simp_all add: b_def data_block_def cas_ref_def)
  then have "govern_read_file body path total_lines start_line was_cut = Inr b"
    using assms by (simp add: govern_read_file_def truncated_def b_def Let_def)
  with bound show ?thesis
    using byte_prefix_prefix [of body] by (auto simp: b_def data_block_def truncated_def)
qed

text \<open>Shell output is bounded in the same way: an oversized one needs an owned CAS reference and shows its head
  and its tail.\<close>

lemma shell_output_governed:
  assumes "owned_cas_ref artifact run validator = Inr reference"
    and "length (shell_text stdout stderr exit_code) > MAX_CONTEXT_BLOCK_BYTES \<Longrightarrow> reference \<noteq> None"
  shows "\<exists>b. govern_shell_output stdout stderr exit_code artifact run validator = Inr b
     \<and> length (cb_text b) \<le> MAX_CONTEXT_BLOCK_BYTES \<and> cb_artifact_ref b = reference
     \<and> (if length (shell_text stdout stderr exit_code) > MAX_CONTEXT_BLOCK_BYTES
        then \<exists>p s. prefix p (shell_text stdout stderr exit_code) \<and> suffix s (shell_text stdout stderr exit_code)
               \<and> cb_text b = shell_head @ p @ tail_mark @ s
        else cb_text b = shell_text stdout stderr exit_code)"
proof -
  define combined where "combined = shell_text stdout stderr exit_code"
  define truncated where "truncated = (length combined > MAX_CONTEXT_BLOCK_BYTES)"
  define limit where "limit = MAX_CONTEXT_BLOCK_BYTES - length (shell_head @ tail_mark)"
  define b where "b = (data_block ShellBlock
      (if truncated then shell_head @ byte_prefix combined (limit div 2) @ tail_mark @ byte_suffix combined (limit - limit div 2) else combined)
      (int (length combined)))
      \<lparr>cb_truncated := truncated, cb_artifact_ref := reference, cb_range_hint := Some (''exit_code='' @ str_int exit_code)\<rparr>"
  have "length shell_head + length tail_mark + limit = MAX_CONTEXT_BLOCK_BYTES"
    by (simp add: limit_def shell_head_def tail_mark_def newline_def MAX_CONTEXT_BLOCK_BYTES_def)
  then have bound: "length (cb_text b) \<le> MAX_CONTEXT_BLOCK_BYTES"
    using byte_prefix_length [of combined "limit div 2"] byte_suffix_length [of combined "limit - limit div 2"]
    by (auto simp: b_def data_block_def truncated_def)
  then have "data_block_init b = Inr b"
    by (intro data_block_ok) (simp_all add: b_def data_block_def owned_cas_ref_stable [OF assms(1)])
  then have "govern_shell_output stdout stderr exit_code artifact run validator = Inr b"
    using assms unfolding govern_shell_output_def Let_def combined_def [symmetric] truncated_def [symmetric] limit_def [symmetric]
    by (simp add: b_def truncated_def combined_def)
  with bound show ?thesis unfolding combined_def [symmetric]
    using byte_prefix_prefix [of combined] byte_suffix_suffix [of combined] by (auto simp: b_def data_block_def truncated_def)
qed

section \<open>Matches\<close>

lemma is_ok_map_sum [simp]: "is_ok (map_sum id f r) = is_ok r"
  by (cases r) simp_all

lemma py_dict_subset: "set (py_dict kvs) \<subseteq> set kvs"
proof
  fix x assume "x \<in> set (py_dict kvs)"
  then have "map_of (rev kvs) (fst x) = Some (snd x)"
    by (metis distinct_keys_py_dict map_of_is_SomeI map_of_py_dict prod.collapse)
  then show "x \<in> set kvs" by (metis map_of_SomeD prod.collapse set_rev)
qed

text \<open>What \<open>_jsonable\<close> returns can be printed.\<close>

lemma jsonable_prints: "is_ok (json_dumps R ascii ordered (jsonable other v))"
proof (induction v)
  case (PDict kvs)
  have entry: "\<exists>s w. x = (StrKey s, w) \<and> is_ok (json_dumps R ascii ordered w)"
    if x: "x \<in> set (py_dict (map (map_prod (jsonable_key other) id) (map (map_prod id (jsonable other)) kvs)))" for x
  proof -
    obtain k v where kv: "(k, v) \<in> set kvs" "x = (jsonable_key other k, jsonable other v)"
      using x py_dict_subset by (fastforce simp: map_prod_def)
    with PDict [of "(k, v)" v] show ?thesis by (cases k) (auto simp: jsonable_key_def)
  qed
  show ?case
    unfolding jsonable.simps json_dumps.simps is_ok_map_sum
  proof (rule traverse_total)
    fix x assume "x \<in> set (map (map_prod id (json_dumps R ascii ordered))
      (py_dict (map (map_prod (jsonable_key other) id) (map (map_prod id (jsonable other)) kvs))))"
    then show "is_ok (case x of (k, r) \<Rightarrow> case k of OtherKey \<Rightarrow> Inl (TypeError ''keys must be str, int, float, bool or None'')
        | StrKey s \<Rightarrow> map_sum id (Pair (StrKey s)) r)"
      by (auto dest!: entry simp del: map_map)
  qed
qed (auto intro!: traverse_total)

lemma ast_text_prints: "is_ok (ast_text R other facts truncated)"
proof -
  have "is_ok (traverse id (map (json_dumps R False False) (map (jsonable other) facts)))"
    by (rule traverse_total) (auto simp: jsonable_prints)
  then obtain ts where "traverse id (map (json_dumps R False False) (map (jsonable other) facts)) = Inr ts"
    by (rule is_okE)
  then show ?thesis by (simp add: ast_text_def)
qed

lemma ast_text_empty: "\<exists>body. ast_text R other [] truncated = Inr body \<and> length body \<le> 32"
  by (cases truncated)
    (simp_all add: ast_text_def json_string_def json_plain_point_def cp_value_def utf8_cont_def)

text \<open>The loop gives up the last match until the text fits, so it keeps the longest prefix that fits.\<close>

lemma ast_loop_longest:
  assumes "truncated = (length facts < N)" "length facts \<le> N"
  shows "\<exists>n body. n \<le> length facts \<and> ast_loop R other facts truncated = Inr (body, take n facts, n < N)
     \<and> ast_text R other (take n facts) (n < N) = Inr body \<and> length body \<le> MAX_CONTEXT_BLOCK_BYTES
     \<and> (\<forall>k t. n < k \<and> k \<le> length facts \<and> ast_text R other (take k facts) (k < N) = Inr t
          \<longrightarrow> MAX_CONTEXT_BLOCK_BYTES < length t)"
  using assms
proof (induction "length facts" arbitrary: facts truncated)
  case 0
  then obtain body where "ast_text R other [] (0 < N) = Inr body" "length body \<le> 32" using ast_text_empty by blast
  with 0 show ?case by (intro exI [of _ 0] exI [of _ body]) (simp add: ast_loop.simps MAX_CONTEXT_BLOCK_BYTES_def)
next
  case (Suc m)
  obtain body where body: "ast_text R other facts truncated = Inr body" using ast_text_prints by (rule is_okE)
  show ?case
  proof (cases "length body \<le> MAX_CONTEXT_BLOCK_BYTES")
    case True
    with Suc body show ?thesis
      by (intro exI [of _ "length facts"] exI [of _ body]) (simp add: ast_loop.simps [of _ _ facts])
  next
    case False
    have m: "m = length (butlast facts)" "facts \<noteq> []" using Suc.hyps(2) by auto
    have take: "take k (butlast facts) = take k facts" if "k \<le> m" for k
      using that m by (metis append_butlast_last_id append_Nil2 diff_is_0_eq take_0 take_append)
    have "True = (length (butlast facts) < N)" "length (butlast facts) \<le> N" using Suc.prems Suc.hyps(2) by auto
    from Suc.hyps(1) [OF m(1) this] obtain n b where raw: "n \<le> m"
        "ast_loop R other (butlast facts) True = Inr (b, take n (butlast facts), n < N)"
        "ast_text R other (take n (butlast facts)) (n < N) = Inr b" "length b \<le> MAX_CONTEXT_BLOCK_BYTES"
        "\<And>k t. n < k \<Longrightarrow> k \<le> m \<Longrightarrow> ast_text R other (take k (butlast facts)) (k < N) = Inr t
             \<Longrightarrow> MAX_CONTEXT_BLOCK_BYTES < length t"
      unfolding m(1) by blast
    note n = raw(1) raw(2-4) [unfolded take [OF raw(1)]]
    have longest: "MAX_CONTEXT_BLOCK_BYTES < length t" if "n < k" "k \<le> m" "ast_text R other (take k facts) (k < N) = Inr t" for k t
      using raw(5) [OF that(1,2)] that by (simp add: take)
    have "MAX_CONTEXT_BLOCK_BYTES < length t"
      if "n < k" "k \<le> length facts" "ast_text R other (take k facts) (k < N) = Inr t" for k t
      using longest [OF that(1) _ that(3)] that False body Suc.prems Suc.hyps(2) by (cases "k = length facts") auto
    moreover have "ast_loop R other facts truncated = Inr (b, take n facts, n < N)"
      using False m n(2) body by (simp add: ast_loop.simps [of _ _ facts])
    ultimately show ?thesis using n Suc.hyps(2) by (intro exI [of _ n] exI [of _ b]) auto
  qed
qed

text \<open>Matches of a structural search are never refused: the block holds the longest prefix of the first
  two hundred matches whose JSON text is at most 256 KiB, its text is the text of exactly these facts, and it
  is marked truncated exactly when a match was left out.\<close>

theorem ast_matches_governed:
  "\<exists>b n. govern_ast_matches R other matches = Inr b \<and> cb_facts b = take n matches \<and> n \<le> MAX_AST_MATCHES \<and> n \<le> length matches
     \<and> cb_truncated b = (n < length matches) \<and> ast_text R other (take n matches) (cb_truncated b) = Inr (cb_text b)
     \<and> length (cb_text b) \<le> MAX_CONTEXT_BLOCK_BYTES
     \<and> \<not> (\<exists>k t. n < k \<and> k \<le> min MAX_AST_MATCHES (length matches)
          \<and> ast_text R other (take k matches) (k < length matches) = Inr t \<and> length t \<le> MAX_CONTEXT_BLOCK_BYTES)"
proof -
  let ?facts = "take MAX_AST_MATCHES matches"
  have "(length matches > MAX_AST_MATCHES) = (length ?facts < length matches)" "length ?facts \<le> length matches" by auto
  from ast_loop_longest [OF this] obtain n body where n: "n \<le> length ?facts"
      "ast_loop R other ?facts (length matches > MAX_AST_MATCHES) = Inr (body, take n ?facts, n < length matches)"
      "ast_text R other (take n ?facts) (n < length matches) = Inr body" "length body \<le> MAX_CONTEXT_BLOCK_BYTES"
      and longest: "\<And>k t. n < k \<Longrightarrow> k \<le> length ?facts \<Longrightarrow> ast_text R other (take k ?facts) (k < length matches) = Inr t
           \<Longrightarrow> MAX_CONTEXT_BLOCK_BYTES < length t" by blast
  define b where "b = (data_block SourceAst body (int (length body)))\<lparr>cb_truncated := n < length matches, cb_facts := take n ?facts\<rparr>"
  have "data_block_init b = Inr b" using n by (intro data_block_ok) (simp_all add: b_def data_block_def cas_ref_def)
  then have "govern_ast_matches R other matches = Inr b" by (simp add: govern_ast_matches_def n(2) b_def)
  moreover have "take k ?facts = take k matches" if "k \<le> length ?facts" for k using that by (simp add: min_absorb1)
  ultimately show ?thesis
    using n longest by (intro exI [of _ b] exI [of _ n]) (force simp: b_def data_block_def)
qed

section \<open>What eviction replaces\<close>

text \<open>A segment is due when it may be evicted and belongs to an earlier turn; the note that replaces it keeps
  its source reference and its turn, and can itself not be evicted.\<close>

definition due :: "int \<Rightarrow> context_segment \<Rightarrow> bool" where
  "due turn s \<longleftrightarrow> cs_evictable s \<and> \<not> cs_required s \<and> (case cs_turn_index s of None \<Rightarrow> False | Some t \<Rightarrow> t < turn)"

definition replacement :: "string option \<Rightarrow> string" where
  "replacement source_ref = projr (replacement_text source_ref)"

definition evicted :: "context_segment \<Rightarrow> context_segment" where
  "evicted s = \<lparr>cs_kind = ''targeted'', cs_content = replacement (cs_source_ref s), cs_required = False, cs_evictable = False,
     cs_source_body = False, cs_source_ref = cs_source_ref s, cs_turn_index = cs_turn_index s\<rparr>"

definition audit_of :: "context_segment \<Rightarrow> eviction_audit" where
  "audit_of s = \<lparr>ea_segment_kind = ''targeted'', ea_source_ref = cs_source_ref s, ea_replacement = replacement (cs_source_ref s),
     ea_turn_index = the (cs_turn_index s)\<rparr>"

lemma not_due_evicted [simp]: "\<not> due turn (evicted s)"
  by (simp add: due_def evicted_def)

lemma replacement_text_ok: "replacement_text r = Inr (replacement r)"
proof -
  have "is_ok (replacement_text r)"
    by (cases r) (simp_all add: replacement_text_def json_option_def)
  then show ?thesis by (auto simp: replacement_def elim: is_okE)
qed

lemma evict_segment_Inr:
  assumes "evict_segment turn s = Inr y"
  shows "y = (if due turn s then (evicted s, [audit_of s]) else (s, []))"
  using assms
  by (auto simp: evict_segment_def due_def evicted_def audit_of_def replacement_text_ok bind_Inr context_segment_init_def
      split: option.splits if_splits)

lemma evict_steps:
  assumes "traverse (evict_segment turn) ss = Inr steps"
  shows "map fst steps = map (\<lambda>s. if due turn s then evicted s else s) ss"
    and "concat (map snd steps) = map audit_of (filter (due turn) ss)"
proof -
  have "steps = map (\<lambda>s. if due turn s then (evicted s, [audit_of s]) else (s, [])) ss"
    using assms
  proof (induction ss arbitrary: steps)
    case (Cons s ss)
    then show ?case by (auto simp: bind_Inr dest!: evict_segment_Inr split: sum.splits)
       (metis (no_types, lifting) Inr_inject map_sum.simps sum.exhaust sum.distinct(1))+
  qed simp
  then show "map fst steps = map (\<lambda>s. if due turn s then evicted s else s) ss"
    and "concat (map snd steps) = map audit_of (filter (due turn) ss)"
    by (induction ss arbitrary: steps) auto
qed

text \<open>Eviction is exact. Below the watermark nothing changes. Above it precisely the segments that are due
  (evictable, not required, of an earlier turn) are replaced by a note with the same source reference and
  turn, while stable, evolving and all other targeted segments stay as they are and in place; when anything
  was replaced, the remeasured prompt is within the cap and the audit sink received exactly one list, the
  notes in order; evicting again at any turn finds nothing.\<close>

theorem evict_exact:
  assumes "evict envelope turn tokens cap pct remeasure sink = Inr (r, calls)"
  shows "let hot = (cap * pct \<le> tokens * 100); old = ev_targeted envelope in
       ev_stable (er_envelope r) = ev_stable envelope \<and> ev_evolving (er_envelope r) = ev_evolving envelope
     \<and> ev_targeted (er_envelope r) = map (\<lambda>s. if hot \<and> due turn s then evicted s else s) old
     \<and> er_audit r = (if hot then map audit_of (filter (due turn) old) else [])
     \<and> calls = (if er_audit r = [] then [] else [er_audit r])
     \<and> (er_audit r = [] \<or> (\<exists>meter n. remeasure = Some meter \<and> meter (er_envelope r) = Inr n \<and> 0 \<le> n \<and> n \<le> cap))
     \<and> (er_audit r = [] \<or> filter (due turn) (ev_targeted (er_envelope r)) = [])"
proof (cases "tokens * 100 < cap * pct")
  case True
  with assms show ?thesis by (auto simp: evict_def split: if_splits)
next
  case False
  then obtain steps where steps: "traverse (evict_segment turn) (ev_targeted envelope) = Inr steps"
    using assms by (auto simp: evict_def bind_Inr split: if_splits)
  define audit where "audit = map audit_of (filter (due turn) (ev_targeted envelope))"
  note s = evict_steps [OF steps]
  show ?thesis
  proof (cases "audit = []")
    case True
    then have "map (\<lambda>s. if due turn s then evicted s else s) (ev_targeted envelope) = ev_targeted envelope"
      by (auto simp: audit_def filter_empty_conv intro: map_idI)
    with False True assms steps s show ?thesis by (auto simp: evict_def audit_def split: if_splits)
  next
    case nonempty: False
    have init: "e' = e" if "context_envelope_init e = Inr e'" for e e'
      using that by (auto simp: context_envelope_init_def split: if_splits)
    obtain meter n where "remeasure = Some meter"
        "er_envelope r = envelope\<lparr>ev_targeted := map fst steps\<rparr>" "meter (er_envelope r) = Inr n" "0 \<le> n" "n \<le> cap"
        "er_audit r = audit" "calls = [audit]"
      using assms False nonempty
      unfolding evict_def steps lift_py_simps bind_res_simps Let_def s(2) audit_def [symmetric]
      by (auto simp: bind_Inr if_Inr split: if_splits option.splits dest!: init)
    with False nonempty s show ?thesis by (auto simp: audit_def filter_empty_conv Let_def)
  qed
qed

definition ex_old :: context_segment where
  "ex_old = \<lparr>cs_kind = ''targeted'', cs_content = ''x'', cs_required = False, cs_evictable = True, cs_source_body = False,
     cs_source_ref = None, cs_turn_index = Some 0\<rparr>"

theorem evict_exact_witness:
  "\<exists>r calls. evict \<lparr>ev_stable = [], ev_evolving = [], ev_targeted = [ex_old, ex_old\<lparr>cs_required := True\<rparr>]\<rparr> 1 90 100 80
       (Some (\<lambda>_. Inr 50)) (Some (\<lambda>_. Inr ())) = Inr (r, calls)
     \<and> ev_targeted (er_envelope r) = [evicted ex_old, ex_old\<lparr>cs_required := True\<rparr>] \<and> calls = [[audit_of ex_old]]"
proof -
  have "\<exists>p. evict \<lparr>ev_stable = [], ev_evolving = [], ev_targeted = [ex_old, ex_old\<lparr>cs_required := True\<rparr>]\<rparr> 1 90 100 80
       (Some (\<lambda>_. Inr 50)) (Some (\<lambda>_. Inr ())) = Inr p"
    by (simp add: evict_def ex_old_def evict_segment_def replacement_text_ok context_segment_init_def context_envelope_init_def Let_def)
  then obtain r calls where *: "evict \<lparr>ev_stable = [], ev_evolving = [], ev_targeted = [ex_old, ex_old\<lparr>cs_required := True\<rparr>]\<rparr> 1 90 100 80
       (Some (\<lambda>_. Inr 50)) (Some (\<lambda>_. Inr ())) = Inr (r, calls)" by auto
  have "due 1 ex_old" "\<not> due 1 (ex_old\<lparr>cs_required := True\<rparr>)" by (simp_all add: due_def ex_old_def)
  with evict_exact [OF *] * show ?thesis by (simp add: Let_def)
qed

theorem read_file_governed_witness:
  "\<exists>b. govern_read_file (replicate 300000 CHR ''x'') ''a.py'' 20 1 False = Inr b \<and> cb_truncated b
     \<and> length (cb_text b) \<le> MAX_CONTEXT_BLOCK_BYTES"
  using read_file_governed [of "''a.py''" 20 1 "replicate 300000 CHR ''x''" False] by (auto simp: MAX_CONTEXT_BLOCK_BYTES_def)

text \<open>An executed plan is not protected in this way: the limit on its summary is on the raw bytes, but the block
  holds them as a JSON string, in which every control character takes six. A summary far below every limit
  is then refused by the block itself.\<close>

lemma code_points_ascii: "(of_char c :: nat) < 128 \<Longrightarrow> code_points (replicate n c) = replicate n [c]"
  by (induction n) (auto simp: utf8_cont_def takeWhile_eq_Nil_iff dropWhile_eq_self_iff hd_replicate)

lemma exec_summary_overflows:
  "govern_exec_result (replicate 60000 (CHR 0x01)) 1 None None None None = Inl (ValueError ''context data block exceeds 256 KiB'')"
proof -
  define body where "body = concat (map json_plain_point (code_points (replicate 60000 (CHR 0x01))))"
  have "length body = 360000"
    by (simp add: body_def code_points_ascii json_plain_point_def cp_value_def json_escape_point_def length_concat
        sum_list_replicate hex_digits_def)
  moreover have "json_string False (replicate 60000 (CHR 0x01)) = CHR 0x22 # body @ [CHR 0x22]"
    by (simp add: json_string_def body_def)
  ultimately show ?thesis
    by (simp add: govern_exec_result_def owned_cas_ref_def cas_ref_def MAX_CONTEXT_BLOCK_BYTES_def Let_def data_block_init_def
        data_block_def sort_entries_def)
qed

section \<open>What a recovery brief holds\<close>

text \<open>The data of the events of one slice generation with a given kind of type, in order.\<close>

definition scoped_data ::
  "(pyval \<Rightarrow> string) \<Rightarrow> slice_generation_ref \<Rightarrow> string \<Rightarrow> (string \<Rightarrow> bool) \<Rightarrow> event_data list \<Rightarrow> event_data list" where
  "scoped_data S slice_ref run_id kind events =
     concat (map (\<lambda>event. case event_parts event of
         None \<Rightarrow> []
       | Some (t, raw) \<Rightarrow> if in_slice_scope S slice_ref run_id event raw \<and> kind t then [raw] else []) events)"

lemma kinds_disjoint: "is_checkpoint_event t \<Longrightarrow> \<not> is_check_event t"
  by (auto simp: is_checkpoint_event_def is_check_event_def)

lemma recovery_loop_facts:
  assumes "recovery_loop S slice_ref run_id (c, f) events = Inr (c', f')"
  shows "(\<exists>fs. traverse feedback_fact (scoped_data S slice_ref run_id is_check_event events) = Inr fs \<and> f' = f @ fs)
     \<and> (\<exists>cs. traverse checkpoint_fact (scoped_data S slice_ref run_id is_checkpoint_event events) = Inr cs
           \<and> c' = (if cs = [] then c else Some (last cs)))"
  using assms
proof (induction events arbitrary: c f)
  case Nil
  then show ?case by (simp add: scoped_data_def)
next
  case (Cons event events)
  show ?case
  proof (cases "event_parts event")
    case None
    with Cons show ?thesis by (auto simp: scoped_data_def)
  next
    case (Some p)
    obtain t raw where p: "p = (t, raw)" by (cases p)
    consider (out) "\<not> in_slice_scope S slice_ref run_id event raw \<or> \<not> is_checkpoint_event t \<and> \<not> is_check_event t"
      | (ck) "in_slice_scope S slice_ref run_id event raw" "is_checkpoint_event t" "\<not> is_check_event t"
      | (fb) "in_slice_scope S slice_ref run_id event raw" "\<not> is_checkpoint_event t" "is_check_event t"
      using kinds_disjoint by blast
    then show ?thesis
    proof cases
      case out
      then have "recovery_loop S slice_ref run_id (c, f) events = Inr (c', f')"
        using Cons.prems Some p by (auto split: if_splits)
      from Cons.IH [OF this] out Some p show ?thesis by (auto simp: scoped_data_def)
    next
      case ck
      then obtain x where x: "checkpoint_fact raw = Inr x" "recovery_loop S slice_ref run_id (Some x, f) events = Inr (c', f')"
        using Cons.prems Some p by (auto simp: bind_Inr)
      from Cons.IH [OF x(2)] obtain fs cs where
        IH: "traverse feedback_fact (scoped_data S slice_ref run_id is_check_event events) = Inr fs" "f' = f @ fs"
          "traverse checkpoint_fact (scoped_data S slice_ref run_id is_checkpoint_event events) = Inr cs"
          "c' = (if cs = [] then Some x else Some (last cs))" by blast
      have "scoped_data S slice_ref run_id is_check_event (event # events) = scoped_data S slice_ref run_id is_check_event events"
        "scoped_data S slice_ref run_id is_checkpoint_event (event # events) = raw # scoped_data S slice_ref run_id is_checkpoint_event events"
        using ck Some p by (simp_all add: scoped_data_def)
      with IH x(1) show ?thesis by simp
    next
      case fb
      then obtain x where x: "feedback_fact raw = Inr x" "recovery_loop S slice_ref run_id (c, f @ [x]) events = Inr (c', f')"
        using Cons.prems Some p by (auto simp: bind_Inr)
      from Cons.IH [OF x(2)] obtain fs cs where
        IH: "traverse feedback_fact (scoped_data S slice_ref run_id is_check_event events) = Inr fs" "f' = (f @ [x]) @ fs"
          "traverse checkpoint_fact (scoped_data S slice_ref run_id is_checkpoint_event events) = Inr cs"
          "c' = (if cs = [] then c else Some (last cs))" by blast
      have "scoped_data S slice_ref run_id is_check_event (event # events) = raw # scoped_data S slice_ref run_id is_check_event events"
        "scoped_data S slice_ref run_id is_checkpoint_event (event # events) = scoped_data S slice_ref run_id is_checkpoint_event events"
        using fb Some p by (simp_all add: scoped_data_def)
      with IH x(1) show ?thesis by simp
    qed
  qed
qed

text \<open>A recovery brief is a projection of the audit events of one slice generation: its checkpoint is the
  last checkpoint event in scope, or none if there is none, its feedback is that of the check events in
  scope in their order; events of another run, slice or generation and events of other types have no
  influence.\<close>

theorem recovery_brief_projects:
  assumes "brief_from_events S slice_ref run events discarded done todo = Inr b"
  shows "rb_slice b = slice_ref \<and> rb_discarded_turns b = discarded
     \<and> (\<exists>fs cs. traverse feedback_fact (scoped_data S slice_ref (str_uuid run) is_check_event events) = Inr fs
          \<and> traverse checkpoint_fact (scoped_data S slice_ref (str_uuid run) is_checkpoint_event events) = Inr cs
          \<and> map (\<lambda>c. (cf_action c, cf_exit_code c, cf_output_digest c)) (rb_recent_check_feedback b) = fs
          \<and> map_option (\<lambda>c. (ck_candidate_commit_oid c, ck_file_count c, ck_total_bytes c)) (rb_latest_checkpoint b)
              = (if cs = [] then None else Some (last cs)))"
proof -
  obtain c f where loop: "recovery_loop S slice_ref (str_uuid run) (None, []) events = Inr (c, f)"
      and facts: "brief_from_facts slice_ref c f discarded done todo = Inr b"
    using assms by (auto simp: brief_from_events_def bind_Inr)
  have "rb_slice b = slice_ref" "rb_discarded_turns b = discarded"
      "map (\<lambda>c. (cf_action c, cf_exit_code c, cf_output_digest c)) (rb_recent_check_feedback b) = f"
      "map_option (\<lambda>c. (ck_candidate_commit_oid c, ck_file_count c, ck_total_bytes c)) (rb_latest_checkpoint b) = c"
    using facts by (auto simp: brief_from_facts_def if_Inr comp_def case_prod_unfold option.map_comp option.map_ident)
  with recovery_loop_facts [OF loop] show ?thesis by auto
qed

definition ex_brief_ref :: slice_generation_ref where
  "ex_brief_ref = \<lparr>sg_slice_id = 3, sg_generation = 0, sg_baseline_candidate_oid = None\<rparr>"

definition ex_events :: "event_data list" where
  "ex_events = [[(''type'', PStr ''checkpoint.committed''), (''run_id'', PUuid 7), (''slice_id'', PUuid 3),
       (''candidate_commit_oid'', PStr ''c1''), (''file_count'', PInt 1), (''total_bytes'', PInt 5)],
     [(''type'', PStr ''dialogue''), (''run_id'', PUuid 7), (''slice_id'', PUuid 3)],
     [(''type'', PStr ''checkpoint.committed''), (''run_id'', PUuid 7), (''slice_id'', PUuid 3), (''generation'', PInt 0),
       (''candidate_commit_oid'', PStr ''c2''), (''file_count'', PInt 2), (''total_bytes'', PInt 9)]]"

theorem recovery_brief_projects_witness:
  "\<exists>b. brief_from_events (\<lambda>_. []) ex_brief_ref 7 ex_events 4 [] [] = Inr b
     \<and> map_option ck_candidate_commit_oid (rb_latest_checkpoint b) = Some ''c2'' \<and> rb_recent_check_feedback b = []"
proof -
  have data: "scoped_data (\<lambda>_. []) ex_brief_ref (str_uuid 7) is_check_event ex_events = []"
      "scoped_data (\<lambda>_. []) ex_brief_ref (str_uuid 7) is_checkpoint_event ex_events = [ex_events ! 0, ex_events ! 2]"
    by (simp_all add: scoped_data_def ex_events_def event_parts_def get_or_none_def data_get_def in_slice_scope_def
        is_check_event_def is_checkpoint_event_def scalar_str_def equals_int_def ex_brief_ref_def Let_def)
  have "\<exists>b. brief_from_events (\<lambda>_. []) ex_brief_ref 7 ex_events 4 [] [] = Inr b"
    by (simp add: brief_from_events_def ex_events_def event_parts_def get_or_none_def data_get_def in_slice_scope_def
        is_check_event_def is_checkpoint_event_def scalar_str_def equals_int_def ex_brief_ref_def checkpoint_fact_def
        brief_from_facts_def progress_items_are_text_def Let_def)
  then obtain b where b: "brief_from_events (\<lambda>_. []) ex_brief_ref 7 ex_events 4 [] [] = Inr b" ..
  have "checkpoint_fact (ex_events ! 0) = Inr (''c1'', 1, 5)" "checkpoint_fact (ex_events ! 2) = Inr (''c2'', 2, 9)"
    by (simp_all add: ex_events_def checkpoint_fact_def get_or_none_def data_get_def)
  with recovery_brief_projects [OF b] b show ?thesis unfolding data by (cases "rb_latest_checkpoint b") auto
qed

end
