(* ===== verification/Repair.thy ===== *)
theory Repair
  imports Integration Plan_Validator Verification_Routing Runtime_Advice Context_Blocks
begin

text \<open>
  \<open>runtime/repair.py\<close>: the admission of a joint repair, the brief that is handed to a repair session, the gate
  that counts attempts, and the orchestrator that runs an adopted decision and queues its result with the
  coordinator of \<open>runtime/integration.py\<close>. The runner, the event sink and the budget are ports. The awaits are
  the points where other tasks run; what they do to the shared coordinator while the session runs is the
  field \<open>re_meanwhile\<close> of the environment.
\<close>

section \<open>Text\<close>

text \<open>\<open>str.upper\<close>, on the ASCII letters and on the ten characters whose uppercase is ASCII; the others, whose
  uppercase is not, stay: a status is only compared with ASCII words.\<close>

definition upper_point :: "string \<Rightarrow> string" where
  "upper_point cp =
     (let n = cp_value cp in
      if 97 \<le> n \<and> n \<le> 122 then [char_of (n - 32)]
      else case map_of [(223, ''SS''), (305, ''I''), (383, ''S''), (64256, ''FF''), (64257, ''FI''), (64258, ''FL''),
                        (64259, ''FFI''), (64260, ''FFL''), (64261, ''ST''), (64262, ''ST'')] n of
             Some s \<Rightarrow> s | None \<Rightarrow> cp)"

definition status_text :: "string \<Rightarrow> string" where
  "status_text s = map (\<lambda>c. if c = CHR ''-'' then CHR ''_'' else c) (concat (map upper_point (code_points s)))"

datatype identity_arg = IdText string | IdUuid uuid

definition non_empty_text :: "string \<Rightarrow> string \<Rightarrow> string res" where
  "non_empty_text value name = (if blank value then Inl (ValueError (name @ '' must be non-empty text'')) else Inr value)"

definition identity_text :: "identity_arg \<Rightarrow> string \<Rightarrow> string res" where
  "identity_text value name = (case value of IdUuid u \<Rightarrow> Inr (str_uuid u) | IdText s \<Rightarrow> non_empty_text s name)"

definition text_tuple :: "string list \<Rightarrow> string \<Rightarrow> bool \<Rightarrow> string list res" where
  "text_tuple value name allow_empty =
     (if \<not> allow_empty \<and> value = [] then Inl (ValueError (name @ '' must not be empty''))
      else if list_ex blank value then Inl (ValueError (name @ '' must contain non-empty strings''))
      else Inr value)"

definition status :: "string \<Rightarrow> string \<Rightarrow> string res" where
  "status value name = bind_res (non_empty_text value name) (\<lambda>s. Inr (status_text s))"

section \<open>Scopes\<close>

record write_scope =
  ws_write_paths :: "string list"
  ws_create_roots :: "string list"

text \<open>The validator of \<open>WriteScopeOut\<close>, and a scope it has accepted.\<close>

definition write_scope_init :: "string list \<Rightarrow> string list \<Rightarrow> write_scope res" where
  "write_scope_init paths roots =
     (case (normalize_repo_relative_paths paths, normalize_repo_relative_paths roots) of
        (Inr p, Inr r) \<Rightarrow> Inr \<lparr>ws_write_paths = p, ws_create_roots = r\<rparr>
      | _ \<Rightarrow> Inl (ValueError ''validation error for WriteScopeOut''))"

definition scope_ok :: "write_scope \<Rightarrow> bool" where
  "scope_ok s \<longleftrightarrow> write_scope_init (ws_write_paths s) (ws_create_roots s) = Inr s"

definition freeze_scope :: "write_scope \<Rightarrow> write_scope res" where
  "freeze_scope s = write_scope_init (ws_write_paths s) (ws_create_roots s)"

definition path_in_root :: "string \<Rightarrow> string \<Rightarrow> bool" where
  "path_in_root path tree \<longleftrightarrow> path = tree \<or> prefix (tree @ ''/'') path"

definition repair_scopes_overlap :: "write_scope \<Rightarrow> write_scope \<Rightarrow> bool" where
  "repair_scopes_overlap l r \<longleftrightarrow>
     set (ws_write_paths l) \<inter> set (ws_write_paths r) \<noteq> {}
     \<or> list_ex (\<lambda>path. list_ex (path_in_root path) (ws_create_roots r)) (ws_write_paths l)
     \<or> list_ex (\<lambda>path. list_ex (path_in_root path) (ws_create_roots l)) (ws_write_paths r)
     \<or> list_ex (\<lambda>left_root. list_ex (\<lambda>right_root. path_in_root left_root right_root \<or> path_in_root right_root left_root)
          (ws_create_roots r)) (ws_create_roots l)"

section \<open>Admission\<close>

definition TERMINAL_STATUSES :: "string list" where
  "TERMINAL_STATUSES = [''INTEGRATED'', ''TERMINAL'', ''TERMINAL_FAILED'']"

definition ACTIVE_STATUSES :: "string list" where
  "ACTIVE_STATUSES = [''RUNNING'', ''REGENERATING'', ''CHECKPOINT_PENDING'', ''CHECKPOINTPENDING'']"

text \<open>\<open>RepairSlice\<close> and \<open>ActiveWriter\<close>, with the identity as text.\<close>

record scope_holder =
  sh_slice_id :: string
  sh_status :: string
  sh_write_scope :: write_scope

definition repair_slice_init :: "identity_arg \<Rightarrow> string \<Rightarrow> write_scope \<Rightarrow> scope_holder res" where
  "repair_slice_init i st scope =
     bind_res (identity_text i ''slice_id'') (\<lambda>slice_id. bind_res (status st ''status'') (\<lambda>norm.
       Inr \<lparr>sh_slice_id = slice_id, sh_status = norm, sh_write_scope = scope\<rparr>))"

definition active_writer_init :: "identity_arg \<Rightarrow> string \<Rightarrow> write_scope \<Rightarrow> scope_holder res" where
  "active_writer_init i st scope =
     bind_res (identity_text i ''slice_id'') (\<lambda>slice_id. bind_res (status st ''status'') (\<lambda>norm.
       if norm \<notin> set ACTIVE_STATUSES then Inl (ValueError ''active writer status is not active'')
       else Inr \<lparr>sh_slice_id = slice_id, sh_status = norm, sh_write_scope = scope\<rparr>))"

record global_repair_session =
  gs_repair_decision_id :: uuid
  gs_run_id :: uuid
  gs_joint_write_scope :: write_scope

record joint_admission =
  ja_admitted :: bool
  ja_reason :: string
  ja_session :: "global_repair_session option"
  ja_blocking :: "string list"

definition joint_admission_init :: "joint_admission \<Rightarrow> joint_admission res" where
  "joint_admission_init a =
     (if ja_admitted a \<noteq> (ja_reason a = ''ADMITTED'') then Inl (ValueError ''admission flag and reason disagree'')
      else if ja_admitted a \<and> ja_session a = None then Inl (ValueError ''admitted repair requires a session'')
      else if \<not> ja_admitted a \<and> ja_session a \<noteq> None then Inl (ValueError ''blocked repair must not expose a session'')
      else bind_res (text_tuple (ja_blocking a) ''blocking_slice_ids'' True) (\<lambda>b. Inr (a\<lparr>ja_blocking := b\<rparr>)))"

definition refused :: "string \<Rightarrow> string list \<Rightarrow> joint_admission res" where
  "refused reason blocking =
     joint_admission_init \<lparr>ja_admitted = False, ja_reason = reason, ja_session = None, ja_blocking = blocking\<rparr>"

definition evaluate_joint_repair_dispatch ::
  "uuid \<Rightarrow> uuid \<Rightarrow> scope_holder list \<Rightarrow> scope_holder list \<Rightarrow> joint_admission res" where
  "evaluate_joint_repair_dispatch run_id decision_id repair_set active_writers =
     (if repair_set = [] then refused ''EMPTY_REPAIR_SET'' []
      else if \<not> distinct (map sh_slice_id repair_set)
      then Inl (ValueError ''repair set must contain unique Slice identities'')
      else
        let nonterminal = map sh_slice_id (filter (\<lambda>s. sh_status s \<notin> set TERMINAL_STATUSES) repair_set)
        in if nonterminal \<noteq> [] then refused ''REPAIR_SET_NOT_TERMINAL'' nonterminal
           else bind_res (write_scope_init (concat (map (ws_write_paths \<circ> sh_write_scope) repair_set))
                            (concat (map (ws_create_roots \<circ> sh_write_scope) repair_set))) (\<lambda>scope.
                bind_res (freeze_scope scope) (\<lambda>joint.
                let blockers = map sh_slice_id (filter (\<lambda>w. repair_scopes_overlap joint (sh_write_scope w)) active_writers)
                in if blockers \<noteq> [] then refused ''IN_FLIGHT_SCOPE_CONFLICT'' (from_keys blockers)
                   else joint_admission_init \<lparr>ja_admitted = True, ja_reason = ''ADMITTED'',
                          ja_session = Some \<lparr>gs_repair_decision_id = decision_id, gs_run_id = run_id,
                                             gs_joint_write_scope = joint\<rparr>,
                          ja_blocking = []\<rparr>)))"

section \<open>Briefs\<close>

text \<open>\<open>_freeze_json\<close> and \<open>_jsonable\<close>; \<open>other\<close> is \<open>str\<close> of a key that is no string.\<close>

primrec freeze_json :: "string \<Rightarrow> pyval \<Rightarrow> pyval" where
  "freeze_json other PNone = PNone"
| "freeze_json other (PBool b) = PBool b"
| "freeze_json other (PInt i) = PInt i"
| "freeze_json other (PFloat x) = PFloat x"
| "freeze_json other (PStr s) = PStr s"
| "freeze_json other (PList vs) = PTuple (map (freeze_json other) vs)"
| "freeze_json other (PTuple vs) = PTuple (map (freeze_json other) vs)"
| "freeze_json other (PDict kvs) =
     PDict (py_dict (map (map_prod (jsonable_key other) id) (map (map_prod id (freeze_json other)) kvs)))"
| "freeze_json other (PUuid u) = PUuid u"
| "freeze_json other PObject = PObject"

primrec repair_jsonable :: "string \<Rightarrow> pyval \<Rightarrow> pyval" where
  "repair_jsonable other PNone = PNone"
| "repair_jsonable other (PBool b) = PBool b"
| "repair_jsonable other (PInt i) = PInt i"
| "repair_jsonable other (PFloat x) = PFloat x"
| "repair_jsonable other (PStr s) = PStr s"
| "repair_jsonable other (PList vs) = PList (map (repair_jsonable other) vs)"
| "repair_jsonable other (PTuple vs) = PList (map (repair_jsonable other) vs)"
| "repair_jsonable other (PDict kvs) =
     PDict (py_dict (map (map_prod (jsonable_key other) id) (map (map_prod id (repair_jsonable other)) kvs)))"
| "repair_jsonable other (PUuid u) = PUuid u"
| "repair_jsonable other PObject = PObject"

definition json_size :: "(rat \<Rightarrow> string) \<Rightarrow> string \<Rightarrow> pyval \<Rightarrow> nat res" where
  "json_size R other value =
     (case json_dumps R False True (repair_jsonable other value) of
        Inl _ \<Rightarrow> Inl (ValueError ''repair fact is not JSON serializable'') | Inr s \<Rightarrow> Inr (length s))"

record failure_facts =
  rf_failed_test_refs :: "string list"
  rf_diagnostic_summary :: "(dict_key \<times> pyval) list"
  rf_cas_refs :: "string list"

definition dict_items :: "pyval \<Rightarrow> (dict_key \<times> pyval) list" where
  "dict_items v = (case v of PDict kvs \<Rightarrow> kvs | _ \<Rightarrow> [])"

definition failure_facts_init :: "string \<Rightarrow> failure_facts \<Rightarrow> failure_facts res" where
  "failure_facts_init other f =
     bind_res (text_tuple (rf_failed_test_refs f) ''failed_test_refs'' False) (\<lambda>tests.
       if rf_diagnostic_summary f = [] then Inl (ValueError ''diagnostic_summary must not be empty'')
       else bind_res (text_tuple (rf_cas_refs f) ''cas_refs'' True) (\<lambda>refs.
         if list_ex (\<lambda>r. \<not> cas_uri r) refs then Inl (ValueError ''cas_refs must contain cas:// SHA-256 URIs'')
         else Inr \<lparr>rf_failed_test_refs = tests,
                   rf_diagnostic_summary = dict_items (freeze_json other (PDict (rf_diagnostic_summary f))),
                   rf_cas_refs = refs\<rparr>))"

record navigation_index =
  ni_paths :: "string list"
  ni_positions :: "string list"

text \<open>The zeros of the decimal digits outside ASCII (Unicode 15), each followed by its nine successors.\<close>

definition digit_zeros :: "nat list" where
  "digit_zeros = [48, 1632, 1776, 1984, 2406, 2534, 2662, 2790, 2918, 3046, 3174, 3302, 3430, 3558, 3664, 3792, 3872, 4160,
     4240, 6112, 6160, 6470, 6608, 6784, 6800, 6992, 7088, 7232, 7248, 42528, 43216, 43264, 43472, 43504, 43600, 44016,
     65296, 66720, 68912, 69734, 69872, 69942, 70096, 70384, 70736, 70864, 71248, 71360, 71472, 71904, 72016, 72784,
     73040, 73120, 73552, 92768, 92864, 93008, 120782, 120792, 120802, 120812, 120822, 123200, 123632, 124144, 125264, 130032]"

definition digit_point :: "string \<Rightarrow> nat option" where
  "digit_point cp = map_option (\<lambda>z. cp_value cp - z) (find (\<lambda>z. z \<le> cp_value cp \<and> cp_value cp < z + 10) digit_zeros)"

text \<open>\<open>line.isdigit() and int(line) >= 1\<close>; digits that are not decimal make \<open>int\<close> raise, which is refused as well.\<close>

definition positive_line :: "string \<Rightarrow> bool" where
  "positive_line line \<longleftrightarrow> line \<noteq> [] \<and> list_all (\<lambda>cp. digit_point cp \<noteq> None) (code_points line)
     \<and> list_ex (\<lambda>cp. digit_point cp \<noteq> Some 0) (code_points line)"

text \<open>\<open>position.rpartition(":")\<close>: the text before and after the last colon.\<close>

definition rpartition :: "char \<Rightarrow> string \<Rightarrow> (string \<times> string) option" where
  "rpartition c s = (if c \<notin> set s then None
     else let line = rev (takeWhile (\<lambda>x. x \<noteq> c) (rev s)) in Some (take (length s - length line - 1) s, line))"

definition nav_position_ok :: "string list \<Rightarrow> string \<Rightarrow> bool" where
  "nav_position_ok paths pos = (case rpartition CHR '':'' pos of
     None \<Rightarrow> False | Some (path, line) \<Rightarrow> path \<in> set paths \<and> positive_line line)"

definition navigation_index_init :: "navigation_index \<Rightarrow> navigation_index res" where
  "navigation_index_init i =
     bind_res (normalize_repo_relative_paths (ni_paths i)) (\<lambda>paths.
       if paths = [] then Inl (ValueError ''paths must not be empty'')
       else bind_res (text_tuple (ni_positions i) ''positions'' True) (\<lambda>positions.
         if list_ex (\<lambda>p. \<not> nav_position_ok paths p) positions
         then Inl (ValueError (''positions must use '' @ [CHR 0x27] @ ''<indexed path>:<positive line>'' @ [CHR 0x27]))
         else Inr \<lparr>ni_paths = paths, ni_positions = positions\<rparr>))"

record history_entry =
  he_decision_id :: string
  he_result :: string

definition history_entry_init :: "history_entry \<Rightarrow> history_entry res" where
  "history_entry_init h =
     bind_res (non_empty_text (he_decision_id h) ''decision_id'') (\<lambda>_.
     bind_res (non_empty_text (he_result h) ''result'') (\<lambda>_. Inr h))"

record repair_constraints =
  rc_write_scope :: write_scope
  rc_verification_requirements :: "string list"
  rc_impact_preview_required :: bool

definition repair_constraints_init :: "repair_constraints \<Rightarrow> repair_constraints res" where
  "repair_constraints_init c =
     bind_res (text_tuple (rc_verification_requirements c) ''verification_requirements'' False) (\<lambda>v.
       Inr (c\<lparr>rc_verification_requirements := v\<rparr>))"

record repair_brief =
  br_attribution :: repair_evidence
  br_failure_facts :: failure_facts
  br_scope_index :: navigation_index
  br_repair_history :: "history_entry list"
  br_constraints :: repair_constraints

definition repair_brief_init :: "repair_brief \<Rightarrow> repair_brief res" where
  "repair_brief_init b =
     (if \<not> distinct (map he_decision_id (br_repair_history b))
      then Inl (ValueError ''repair_history must not contain duplicate decisions'')
      else if \<not> distinct (rv_candidate_slice_set (br_attribution b))
      then Inl (ValueError ''attribution candidate Slice identities must be unique'')
      else Inr b)"

type_synonym ref_validator = "string \<Rightarrow> string \<Rightarrow> bool res"

text \<open>\<open>any(not validator(ref, run_identity) for ref in refs)\<close>.\<close>

fun any_unowned :: "ref_validator \<Rightarrow> string \<Rightarrow> string list \<Rightarrow> bool res" where
  "any_unowned owns run [] = Inr False"
| "any_unowned owns run (r # rs) = bind_res (owns r run) (\<lambda>b. if \<not> b then Inr True else any_unowned owns run rs)"

definition check_ownership :: "string list \<Rightarrow> identity_arg option \<Rightarrow> ref_validator option \<Rightarrow> unit res" where
  "check_ownership refs run_id validator =
     (case validator of
        None \<Rightarrow> Inr ()
      | Some owns \<Rightarrow>
          if refs = [] then Inr ()
          else case run_id of
            None \<Rightarrow> Inl (ValueError ''CAS ownership validation requires the current run identity'')
          | Some run \<Rightarrow> bind_res (identity_text run ''run_id'') (\<lambda>run_identity.
              bind_res (any_unowned owns run_identity refs) (\<lambda>bad.
                if bad then Inl (ValueError ''CAS reference is not owned by the current run'') else Inr ())))"

text \<open>The arguments \<open>R\<close> and \<open>other\<close> are the text of a float and of a key that is no string.\<close>

definition assemble_repair_brief ::
  "(rat \<Rightarrow> string) \<Rightarrow> string \<Rightarrow> repair_evidence \<Rightarrow> failure_facts \<Rightarrow> navigation_index \<Rightarrow> history_entry list \<Rightarrow> repair_constraints
    \<Rightarrow> int option \<Rightarrow> identity_arg option \<Rightarrow> ref_validator option \<Rightarrow> repair_brief res" where
  "assemble_repair_brief R other evidence facts scope_index history constraints max_inline run_id validator =
     (if (case max_inline of None \<Rightarrow> False | Some n \<Rightarrow> n < 1)
      then Inl (ValueError ''max_inline_bytes must be a positive integer'')
      else bind_res (check_ownership (rf_cas_refs facts) run_id validator) (\<lambda>_.
        bind_res (case max_inline of
            None \<Rightarrow> Inr facts
          | Some n \<Rightarrow> bind_res (json_size R other (PDict (rf_diagnostic_summary facts))) (\<lambda>size.
              if int size > n
              then if rf_cas_refs facts = []
                   then Inl (ValueError ''oversized failure facts require a controlled cas reference'')
                   else failure_facts_init other (facts\<lparr>rf_diagnostic_summary :=
                     [(StrKey ''externalized'', PBool True), (StrKey ''cas_refs'', PList (map PStr (rf_cas_refs facts)))]\<rparr>)
              else Inr facts)) (\<lambda>facts'.
          repair_brief_init \<lparr>br_attribution = evidence, br_failure_facts = facts', br_scope_index = scope_index,
            br_repair_history = history, br_constraints = constraints\<rparr>)))"

record situational_snapshot =
  sn_slice_states :: "(string \<times> string) list"
  sn_verified_oid :: string
  sn_active_dispatches :: "string list"
  sn_budget_ratio :: rat
  sn_prior_repair_history :: "string list"

definition situational_snapshot_init :: "situational_snapshot \<Rightarrow> situational_snapshot res" where
  "situational_snapshot_init s =
     (if list_ex (\<lambda>(k, _). k = []) (sn_slice_states s) then Inl (ValueError ''slice state keys must be non-empty strings'')
      else if list_ex (\<lambda>(_, v). v = []) (sn_slice_states s)
      then Inl (ValueError ''slice state values must be non-empty strings'')
      else bind_res (non_empty_text (sn_verified_oid s) ''verified_oid'') (\<lambda>_.
        bind_res (text_tuple (sn_active_dispatches s) ''active_dispatches'' True) (\<lambda>_.
        if \<not> (0 \<le> sn_budget_ratio s \<and> sn_budget_ratio s \<le> 1) then Inl (ValueError ''budget_ratio must be between 0 and 1'')
        else bind_res (text_tuple (sn_prior_repair_history s) ''prior_repair_history'' True) (\<lambda>_. Inr s))))"

section \<open>Sessions\<close>

text \<open>The identity of a repair session; its kind and the absence of a generation are constants.\<close>

record session_identity =
  si_run_id :: uuid
  si_repair_decision_id :: uuid

record read_scope =
  rr_source_snapshot_oid :: string
  rr_contract_refs :: "string list"
  rr_domain_workspace_refs :: "string list"
  rr_verified_head_oid :: string

definition read_scope_init :: "read_scope \<Rightarrow> read_scope res" where
  "read_scope_init r =
     bind_res (non_empty_text (rr_source_snapshot_oid r) ''source_snapshot_oid'') (\<lambda>_.
     bind_res (text_tuple (rr_contract_refs r) ''contract_refs'' False) (\<lambda>_.
     bind_res (text_tuple (rr_domain_workspace_refs r) ''domain_workspace_refs'' False) (\<lambda>_.
     bind_res (non_empty_text (rr_verified_head_oid r) ''verified_head_oid'') (\<lambda>_. Inr r))))"

record session_dispatch =
  sd_identity :: session_identity
  sd_read_scope :: read_scope
  sd_write_scope :: write_scope
  sd_brief :: repair_brief
  sd_impact_preview_required :: bool

definition session_dispatch_init :: "session_dispatch \<Rightarrow> session_dispatch res" where
  "session_dispatch_init d =
     (if sd_write_scope d \<noteq> rc_write_scope (br_constraints (sd_brief d))
      then Inl (ValueError ''repair dispatch scope must match the brief constraints'')
      else if sd_impact_preview_required d
      then Inl (ValueError ''attribution-driven repair sessions do not require ImpactPreview'')
      else Inr d)"

definition build_repair_session_dispatch :: "global_repair_session \<Rightarrow> read_scope \<Rightarrow> repair_brief \<Rightarrow> session_dispatch res" where
  "build_repair_session_dispatch session reads brief =
     bind_res (freeze_scope (gs_joint_write_scope session)) (\<lambda>scope.
       session_dispatch_init \<lparr>sd_identity = \<lparr>si_run_id = gs_run_id session, si_repair_decision_id = gs_repair_decision_id session\<rparr>,
         sd_read_scope = reads, sd_write_scope = scope, sd_brief = brief, sd_impact_preview_required = False\<rparr>)"

section \<open>Attempts\<close>

type_synonym attempt_key = "string \<times> string"

record attempt_gate =
  ga_limit :: int
  ga_attempts :: "(attempt_key \<times> int) list"
  ga_evidence :: "(attempt_key \<times> string list) list"

definition attempt_gate_init :: "int \<Rightarrow> attempt_gate res" where
  "attempt_gate_init limit =
     (if limit < 1 then Inl (ValueError ''repair attempt limit must be a positive integer'')
      else Inr \<lparr>ga_limit = limit, ga_attempts = [], ga_evidence = []\<rparr>)"

datatype attempt_admission = AttemptAdmitted int | DuplicateEvidence | RepairRetryExhausted

fun attempt_reason :: "attempt_admission \<Rightarrow> string" where
  "attempt_reason (AttemptAdmitted n) = ''ADMITTED''"
| "attempt_reason DuplicateEvidence = ''DUPLICATE_EVIDENCE''"
| "attempt_reason RepairRetryExhausted = ''REPAIR_RETRY_EXHAUSTED''"

definition gate_count :: "attempt_gate \<Rightarrow> attempt_key \<Rightarrow> int" where
  "gate_count g k = (case map_of (ga_attempts g) k of None \<Rightarrow> 0 | Some n \<Rightarrow> n)"

definition gate_seen :: "attempt_gate \<Rightarrow> attempt_key \<Rightarrow> string list" where
  "gate_seen g k = (case map_of (ga_evidence g) k of None \<Rightarrow> [] | Some es \<Rightarrow> es)"

definition gate_key :: "identity_arg \<Rightarrow> identity_arg \<Rightarrow> attempt_key res" where
  "gate_key run_id decision_id =
     bind_res (identity_text run_id ''run_id'') (\<lambda>r.
     bind_res (identity_text decision_id ''repair_decision_id'') (\<lambda>d. Inr (r, d)))"

definition try_start ::
  "attempt_gate \<Rightarrow> identity_arg \<Rightarrow> identity_arg \<Rightarrow> string \<Rightarrow> attempt_admission res \<times> attempt_gate" where
  "try_start g run_id decision_id evidence_key =
     (case bind_res (gate_key run_id decision_id) (\<lambda>k. bind_res (non_empty_text evidence_key ''evidence_key'') (\<lambda>e. Inr (k, e))) of
        Inl e \<Rightarrow> (Inl e, g)
      | Inr (k, e) \<Rightarrow>
          let seen = gate_seen g k; g1 = g\<lparr>ga_evidence := AList.update k seen (ga_evidence g)\<rparr>
          in if e \<in> set seen then (Inr DuplicateEvidence, g1)
             else if gate_count g k \<ge> ga_limit g then (Inr RepairRetryExhausted, g1)
             else let n = gate_count g k + 1
                  in (Inr (AttemptAdmitted n),
                      g\<lparr>ga_evidence := AList.update k (e # seen) (ga_evidence g),
                        ga_attempts := AList.update k n (ga_attempts g)\<rparr>))"

definition gate_attempts :: "attempt_gate \<Rightarrow> identity_arg \<Rightarrow> identity_arg \<Rightarrow> int res" where
  "gate_attempts g run_id decision_id = bind_res (gate_key run_id decision_id) (\<lambda>k. Inr (gate_count g k))"

record repair_lineage =
  li_run_id :: string
  li_original_slice_id :: string
  li_repair_decision_id :: string
  li_relation :: string
  li_original_generation :: int

definition supersede :: "identity_arg \<Rightarrow> identity_arg \<Rightarrow> identity_arg \<Rightarrow> int \<Rightarrow> repair_lineage res" where
  "supersede run_id original decision_id generation =
     (if generation \<notin> {0, 1, 2} then Inl (ValueError ''original generation must be one of 0, 1, or 2'')
      else bind_res (identity_text run_id ''run_id'') (\<lambda>r.
        bind_res (identity_text original ''original_slice_id'') (\<lambda>slice_id.
        bind_res (identity_text decision_id ''repair_decision_id'') (\<lambda>d.
          Inr \<lparr>li_run_id = r, li_original_slice_id = slice_id, li_repair_decision_id = d,
               li_relation = ''superseded-by-repair'', li_original_generation = generation\<rparr>))))"

section \<open>Requests and results\<close>

record execution_result =
  xr_candidate_commit_oid :: string
  xr_checkpoint_passed :: bool
  xr_local_verification_passed :: bool

definition execution_result_init :: "execution_result \<Rightarrow> execution_result res" where
  "execution_result_init x =
     bind_res (non_empty_text (xr_candidate_commit_oid x) ''candidate_commit_oid'') (\<lambda>_. Inr x)"

record repair_decision =
  rn_decision_id :: uuid
  rn_run_id :: uuid
  rn_repair_set :: "uuid list"
  rn_domain_split :: "(uuid \<times> string list) list"
  rn_brief_refs :: "artifact_ref list"

record dispatch_request =
  rq_decision :: repair_decision
  rq_repair_slices :: "scope_holder list"
  rq_active_writers :: "scope_holder list"
  rq_evidence :: repair_evidence
  rq_failure_facts :: failure_facts
  rq_scope_index :: navigation_index
  rq_repair_history :: "history_entry list"
  rq_source_snapshot_oid :: string
  rq_contract_refs :: "string list"
  rq_domain_workspace_refs :: "string list"
  rq_verified_head_oid :: string
  rq_verification_requirements :: "string list"
  rq_evidence_key :: string
  rq_original_slice_id :: identity_arg
  rq_original_generation :: int
  rq_cas_ref_validator :: "ref_validator option"

definition decision_slices :: "dispatch_request \<Rightarrow> string list" where
  "decision_slices q = map str_uuid (rn_repair_set (rq_decision q))"

definition supplied_slices :: "dispatch_request \<Rightarrow> string list" where
  "supplied_slices q = map sh_slice_id (rq_repair_slices q)"

definition dispatch_request_init :: "dispatch_request \<Rightarrow> dispatch_request res" where
  "dispatch_request_init q =
     (if rq_repair_slices q = [] then Inl (ValueError ''repair_slices must not be empty'')
      else if \<not> distinct (decision_slices q) then Inl (ValueError ''decision repair_set must contain unique Slice identities'')
      else if \<not> distinct (supplied_slices q) then Inl (ValueError ''repair_slices must contain unique Slice identities'')
      else if set (decision_slices q) \<noteq> set (supplied_slices q)
      then Inl (ValueError ''decision repair_set and repair_slices must identify the same Slices'')
      else bind_res (non_empty_text (rq_source_snapshot_oid q) ''source_snapshot_oid'') (\<lambda>_.
        bind_res (text_tuple (rq_contract_refs q) ''contract_refs'' False) (\<lambda>_.
        bind_res (text_tuple (rq_domain_workspace_refs q) ''domain_workspace_refs'' False) (\<lambda>_.
        bind_res (non_empty_text (rq_verified_head_oid q) ''verified_head_oid'') (\<lambda>_.
        bind_res (text_tuple (rq_verification_requirements q) ''verification_requirements'' False) (\<lambda>_.
        bind_res (non_empty_text (rq_evidence_key q) ''evidence_key'') (\<lambda>_.
        bind_res (identity_text (rq_original_slice_id q) ''original_slice_id'') (\<lambda>original.
        if rq_original_generation q \<notin> {0, 1, 2} then Inl (ValueError ''original generation must be one of 0, 1, or 2'')
        else if rf_cas_refs (rq_failure_facts q) \<noteq> [] \<and> rq_cas_ref_validator q = None
        then Inl (ValueError ''CAS references require a current-run ownership validator'')
        else Inr (q\<lparr>rq_original_slice_id := IdText original\<rparr>)))))))))"

record dispatch_result =
  dr_accepted :: bool
  dr_reason :: string
  dr_session :: "session_dispatch option"
  dr_item :: "integration_item option"
  dr_attempt :: "int option"
  dr_lineage :: "repair_lineage option"

definition dispatch_result_init :: "dispatch_result \<Rightarrow> dispatch_result res" where
  "dispatch_result_init r =
     bind_res (non_empty_text (dr_reason r) ''reason'') (\<lambda>_.
       if dr_accepted r \<and> dr_session r = None then Inl (ValueError ''accepted repair dispatch requires a session'')
       else if dr_accepted r \<and> dr_item r = None then Inl (ValueError ''accepted repair dispatch requires an integration item'')
       else if dr_accepted r \<and> dr_attempt r = None then Inl (ValueError ''accepted repair dispatch requires an attempt'')
       else Inr r)"

definition rejected :: "string \<Rightarrow> session_dispatch option \<Rightarrow> int option \<Rightarrow> dispatch_result res" where
  "rejected reason session attempt =
     dispatch_result_init \<lparr>dr_accepted = False, dr_reason = reason, dr_session = session, dr_item = None,
       dr_attempt = attempt, dr_lineage = None\<rparr>"

section \<open>The orchestrator\<close>

record repair_env =
  re_runner :: "session_dispatch \<Rightarrow> execution_result res"
  re_meanwhile :: "integration_coordinator \<Rightarrow> integration_coordinator"
  re_sink :: "(event_spec \<Rightarrow> unit res) option"
  re_budget :: "(session_identity \<Rightarrow> bool res) option"
  re_request_factory :: "(advice \<Rightarrow> dispatch_request res) option"
  re_float :: "rat \<Rightarrow> string"
  re_other :: string

text \<open>\<open>ow_events\<close> is what the sink has accepted.\<close>

record repair_world =
  ow_coordinator :: integration_coordinator
  ow_gate :: attempt_gate
  ow_events :: "event_spec list"
  ow_last_result :: "dispatch_result option"

type_synonym 'a orchestrated = "'a res \<times> repair_world"

definition emit :: "repair_env \<Rightarrow> string \<Rightarrow> event_data \<Rightarrow> repair_world \<Rightarrow> unit orchestrated" where
  "emit E event_type data w =
     (case re_sink E of
        None \<Rightarrow> (Inr (), w)
      | Some sink \<Rightarrow> (case sink (spec event_type data) of
            Inl e \<Rightarrow> (Inl e, w)
          | Inr _ \<Rightarrow> (Inr (), w\<lparr>ow_events := ow_events w @ [spec event_type data]\<rparr>)))"

definition emit_then :: "repair_env \<Rightarrow> string \<Rightarrow> event_data \<Rightarrow> (repair_world \<Rightarrow> 'a orchestrated) \<Rightarrow> repair_world \<Rightarrow> 'a orchestrated" where
  "emit_then E event_type data next_step w =
     (case emit E event_type data w of (Inl e, w') \<Rightarrow> (Inl e, w') | (Inr _, w') \<Rightarrow> next_step w')"

definition repair_fields :: "dispatch_request \<Rightarrow> event_data" where
  "repair_fields q = [(''run_id'', PStr (str_uuid (rn_run_id (rq_decision q)))),
     (''repair_decision_id'', PStr (str_uuid (rn_decision_id (rq_decision q))))]"

text \<open>An event with a reason, then the refusal.\<close>

definition stop_with ::
  "repair_env \<Rightarrow> string \<Rightarrow> dispatch_request \<Rightarrow> string \<Rightarrow> session_dispatch option \<Rightarrow> int option \<Rightarrow> repair_world
    \<Rightarrow> dispatch_result orchestrated" where
  "stop_with E event_type q reason session attempt =
     emit_then E event_type (repair_fields q @ [(''reason'', PStr reason)]) (\<lambda>w. (rejected reason session attempt, w))"

definition prepare_dispatch :: "repair_env \<Rightarrow> dispatch_request \<Rightarrow> global_repair_session \<Rightarrow> session_dispatch res" where
  "prepare_dispatch E q session =
     bind_res (repair_constraints_init \<lparr>rc_write_scope = gs_joint_write_scope session,
         rc_verification_requirements = rq_verification_requirements q, rc_impact_preview_required = False\<rparr>) (\<lambda>constraints.
     bind_res (assemble_repair_brief (re_float E) (re_other E) (rq_evidence q) (rq_failure_facts q) (rq_scope_index q)
         (rq_repair_history q) constraints (Some 65536) (Some (IdUuid (rn_run_id (rq_decision q)))) (rq_cas_ref_validator q)) (\<lambda>brief.
     bind_res (read_scope_init \<lparr>rr_source_snapshot_oid = rq_source_snapshot_oid q, rr_contract_refs = rq_contract_refs q,
         rr_domain_workspace_refs = rq_domain_workspace_refs q, rr_verified_head_oid = rq_verified_head_oid q\<rparr>) (\<lambda>reads.
     build_repair_session_dispatch session reads brief)))"

definition repair_item :: "dispatch_request \<Rightarrow> execution_result \<Rightarrow> integration_item" where
  "repair_item q x =
     (let decision_id = str_uuid (rn_decision_id (rq_decision q))
      in \<lparr>it_run_id = str_uuid (rn_run_id (rq_decision q)), it_slice_id = ''repair:'' @ decision_id, it_generation = None,
          it_candidate_commit_oid = xr_candidate_commit_oid x, it_prospective_checks_passed = False, it_repair = True,
          it_repair_decision_id = Some decision_id,
          it_replaces_slice_id = Some (case rq_original_slice_id q of IdText s \<Rightarrow> s | IdUuid u \<Rightarrow> str_uuid u),
          it_original_generation = Some (rq_original_generation q)\<rparr>)"

text \<open>From the verified execution to the queue.\<close>

definition queue_result ::
  "repair_env \<Rightarrow> dispatch_request \<Rightarrow> session_dispatch \<Rightarrow> int \<Rightarrow> execution_result \<Rightarrow> repair_world \<Rightarrow> dispatch_result orchestrated" where
  "queue_result E q d n x w =
     (let item = repair_item q x
      in case enqueue_repair (ow_coordinator w) item of
           Inl e \<Rightarrow> (Inl e, w)
         | Inr (False, c) \<Rightarrow> (rejected ''INTEGRATION_REJECTED'' (Some d) (Some n), w\<lparr>ow_coordinator := c\<rparr>)
         | Inr (True, c) \<Rightarrow>
             emit_then E ''repair.session.integration_queued'' (repair_fields q @ [(''slice_id'', PStr (it_slice_id item))])
               (\<lambda>w'. (dispatch_result_init \<lparr>dr_accepted = True, dr_reason = ''ADMITTED'', dr_session = Some d, dr_item = Some item,
                        dr_attempt = Some n, dr_lineage = None\<rparr>, w'))
               (w\<lparr>ow_coordinator := c\<rparr>))"

text \<open>\<open>await self.runner.run(dispatch)\<close>: other tasks may use the coordinator until it returns.\<close>

definition run_session ::
  "repair_env \<Rightarrow> dispatch_request \<Rightarrow> session_dispatch \<Rightarrow> int \<Rightarrow> repair_world \<Rightarrow> dispatch_result orchestrated" where
  "run_session E q d n =
     emit_then E ''repair.session.started''
       (repair_fields q @ [(''attempt'', PInt n), (''slice_count'', PInt (int (length (rq_repair_slices q))))])
       (\<lambda>w0. let w = w0\<lparr>ow_coordinator := re_meanwhile E (ow_coordinator w0)\<rparr>
         in case re_runner E d of
              Inl _ \<Rightarrow> stop_with E ''repair.session.failed'' q ''RUNNER_ERROR'' (Some d) (Some n) w
            | Inr x \<Rightarrow>
                if \<not> xr_checkpoint_passed x \<or> \<not> xr_local_verification_passed x
                then stop_with E ''repair.session.failed'' q ''CHECKPOINT_OR_LOCAL_VERIFY_FAILED'' (Some d) (Some n) w
                else queue_result E q d n x w)"

definition admit_budget :: "repair_env \<Rightarrow> session_identity \<Rightarrow> bool res" where
  "admit_budget E i = (case re_budget E of None \<Rightarrow> Inr True | Some admit \<Rightarrow> admit i)"

definition start_attempt ::
  "repair_env \<Rightarrow> dispatch_request \<Rightarrow> session_dispatch \<Rightarrow> repair_world \<Rightarrow> dispatch_result orchestrated" where
  "start_attempt E q d w =
     (case try_start (ow_gate w) (IdText (str_uuid (rn_run_id (rq_decision q)))) (IdText (str_uuid (rn_decision_id (rq_decision q))))
             (rq_evidence_key q) of
        (Inl e, g) \<Rightarrow> (Inl e, w\<lparr>ow_gate := g\<rparr>)
      | (Inr (AttemptAdmitted n), g) \<Rightarrow>
          (let w' = w\<lparr>ow_gate := g\<rparr>
           in case admit_budget E (sd_identity d) of
                Inl e \<Rightarrow> (Inl e, w')
              | Inr False \<Rightarrow> stop_with E ''repair.session.blocked'' q ''BUDGET_CLOSED'' (Some d) (Some n) w'
              | Inr True \<Rightarrow> run_session E q d n w')
      | (Inr a, g) \<Rightarrow> stop_with E ''repair.session.blocked'' q (attempt_reason a) None None (w\<lparr>ow_gate := g\<rparr>))"

definition dispatch :: "repair_env \<Rightarrow> dispatch_request \<Rightarrow> repair_world \<Rightarrow> dispatch_result orchestrated" where
  "dispatch E q w =
     (if set (decision_slices q) \<noteq> set (supplied_slices q)
      then (rejected ''REPAIR_SET_IDENTITY_MISMATCH'' None None, w)
      else case register_verified_head (ow_coordinator w) (str_uuid (rn_run_id (rq_decision q))) (rq_verified_head_oid q) of
        Inl _ \<Rightarrow> (rejected ''VERIFIED_HEAD_STALE'' None None, w)
      | Inr c \<Rightarrow>
          let w1 = w\<lparr>ow_coordinator := c\<rparr>
          in case evaluate_joint_repair_dispatch (rn_run_id (rq_decision q)) (rn_decision_id (rq_decision q))
                    (rq_repair_slices q) (rq_active_writers q) of
               Inl e \<Rightarrow> (Inl e, w1)
             | Inr admission \<Rightarrow>
                 (case (ja_admitted admission, ja_session admission) of
                    (True, Some session) \<Rightarrow>
                      (case prepare_dispatch E q session of
                         Inl (TypeError _) \<Rightarrow> stop_with E ''repair.session.blocked'' q ''BRIEF_REJECTED'' None None w1
                       | Inl (ValueError _) \<Rightarrow> stop_with E ''repair.session.blocked'' q ''BRIEF_REJECTED'' None None w1
                       | Inl e \<Rightarrow> (Inl e, w1)
                       | Inr d \<Rightarrow> start_attempt E q d w1)
                  | _ \<Rightarrow> stop_with E ''repair.session.blocked'' q (ja_reason admission) None None w1))"

definition dispatch_adopted :: "repair_env \<Rightarrow> advice \<Rightarrow> repair_world \<Rightarrow> unit orchestrated" where
  "dispatch_adopted E adv w =
     (if av_kind adv \<noteq> RepairDecisionAdvice
      then (Inl (ValueError ''only adopted RepairDecision advice may enter repair orchestration''), w)
      else case re_request_factory E of
        None \<Rightarrow> (Inl (RuntimeError ''repair request materialization is not configured''), w)
      | Some factory \<Rightarrow> (case factory adv of
            Inl e \<Rightarrow> (Inl e, w)
          | Inr q \<Rightarrow> (case dispatch E q w of
                (Inl e, w') \<Rightarrow> (Inl e, w')
              | (Inr r, w') \<Rightarrow> (Inr (), w'\<lparr>ow_last_result := Some r\<rparr>))))"

record integration_result =
  ir_integrated :: bool
  ir_item :: "integration_item option"
  ir_lineage :: "repair_lineage option"

definition lineage_of :: "bool \<Rightarrow> integration_item \<Rightarrow> repair_lineage option res" where
  "lineage_of success item =
     (case (it_replaces_slice_id item, it_repair_decision_id item, it_original_generation item) of
        (Some original, Some decision_id, Some generation) \<Rightarrow>
          if success \<and> it_repair item
          then map_sum id Some (supersede (IdText (it_run_id item)) (IdText original) (IdText decision_id) generation)
          else Inr None
      | _ \<Rightarrow> Inr None)"

definition complete_integration :: "repair_env \<Rightarrow> bool \<Rightarrow> string option \<Rightarrow> repair_world \<Rightarrow> integration_result orchestrated" where
  "complete_integration E success new_verified_oid w =
     (case Integration.complete (ow_coordinator w) success new_verified_oid of
        Inl e \<Rightarrow> (Inl e, w)
      | Inr (None, c) \<Rightarrow> (Inr \<lparr>ir_integrated = False, ir_item = None, ir_lineage = None\<rparr>, w\<lparr>ow_coordinator := c\<rparr>)
      | Inr (Some item, c) \<Rightarrow>
          (case lineage_of success item of
             Inl e \<Rightarrow> (Inl e, w\<lparr>ow_coordinator := c\<rparr>)
           | Inr lineage \<Rightarrow>
               emit_then E (if success \<and> it_repair item then ''repair.session.integrated'' else ''integration.completed'')
                 [(''run_id'', PStr (it_run_id item)), (''slice_id'', PStr (it_slice_id item)), (''success'', PBool success)]
                 (\<lambda>w'. (Inr \<lparr>ir_integrated = success, ir_item = Some item, ir_lineage = lineage\<rparr>, w'))
                 (w\<lparr>ow_coordinator := c\<rparr>)))"

section \<open>The brief as context\<close>

text \<open>\<open>repair_navigation_segments\<close> of \<open>runtime/memory.py\<close>.\<close>

fun json_pyval :: "json \<Rightarrow> pyval" where
  "json_pyval JNull = PNone"
| "json_pyval (JBool b) = PBool b"
| "json_pyval (JInt i) = PInt i"
| "json_pyval (JStr s) = PStr s"
| "json_pyval (JArr vs) = PList (map json_pyval vs)"
| "json_pyval (JObj kvs) = PDict (map (\<lambda>(k, v). (StrKey k, json_pyval v)) kvs)"

fun reliability_value :: "attribution_reliability \<Rightarrow> string" where
  "reliability_value Reliable = ''Reliable''"
| "reliability_value Uncertain = ''Uncertain''"
| "reliability_value Dynamic = ''Dynamic''"

abbreviation strings :: "string list \<Rightarrow> pyval" where
  "strings xs \<equiv> PList (map PStr xs)"

definition evidence_payload :: "repair_evidence \<Rightarrow> pyval" where
  "evidence_payload e = obj
     [(''candidate_slice_set'', strings (map str_uuid (rv_candidate_slice_set e))),
      (''reliability'', PStr (reliability_value (rv_reliability e))), (''strong_coupling'', PBool (rv_strong_coupling e)),
      (''cross_generation_recurrence'', PBool (rv_cross_generation_recurrence e)),
      (''conservation_signal_summary'', json_pyval (JObj (rv_conservation_signal_summary e)))]"

definition constraints_payload :: "repair_constraints \<Rightarrow> pyval" where
  "constraints_payload c = obj
     [(''write_scope'', obj [(''out'', obj [(''write_paths'', strings (ws_write_paths (rc_write_scope c))),
         (''create_roots'', strings (ws_create_roots (rc_write_scope c)))])]),
      (''verification_requirements'', strings (rc_verification_requirements c)),
      (''impact_preview_required'', PBool (rc_impact_preview_required c))]"

definition required_payload :: "string \<Rightarrow> repair_brief \<Rightarrow> pyval" where
  "required_payload other b = obj
     [(''failure_facts'', obj [(''failed_test_refs'', strings (rf_failed_test_refs (br_failure_facts b))),
         (''diagnostic_summary'', jsonable other (PDict (rf_diagnostic_summary (br_failure_facts b)))),
         (''cas_refs'', strings (rf_cas_refs (br_failure_facts b)))]),
      (''attribution'', evidence_payload (br_attribution b)),
      (''repair_history'', PList (map (\<lambda>h. obj [(''decision_id'', PStr (he_decision_id h)), (''result'', PStr (he_result h))])
         (br_repair_history b))),
      (''constraints'', constraints_payload (br_constraints b))]"

definition navigation_text ::
  "repair_brief \<Rightarrow> int \<Rightarrow> artifact_value option \<Rightarrow> uuid option \<Rightarrow> cas_validator option \<Rightarrow> string res" where
  "navigation_text b max_index artifact run validator =
     bind_res (dumps False True (obj [(''paths'', strings (ni_paths (br_scope_index b))),
         (''positions'', strings (ni_positions (br_scope_index b)))])) (\<lambda>index.
       if int (length index) \<le> max_index then Inr index
       else bind_res (owned_cas_ref artifact run validator) (\<lambda>r. case r of
           None \<Rightarrow> Inl (ValueError ''oversized repair navigation index requires a CAS artifact'')
         | Some reference \<Rightarrow> dumps True True (obj [(''artifact_ref'', PStr reference)])))"

definition repair_navigation_segments ::
  "(rat \<Rightarrow> string) \<Rightarrow> string \<Rightarrow> repair_brief \<Rightarrow> int \<Rightarrow> artifact_value option \<Rightarrow> uuid option \<Rightarrow> cas_validator option
    \<Rightarrow> (context_segment \<times> context_segment) ctx" where
  "repair_navigation_segments R other b max_index artifact run validator =
     (if \<not> (1 \<le> max_index \<and> max_index \<le> int MAX_CONTEXT_BLOCK_BYTES)
      then Inl (Py (ValueError ''max_index_bytes must be within the context block limit''))
      else bind_res (lift_py (json_dumps R False True (required_payload other b))) (\<lambda>required.
        if length required > MAX_CONTEXT_BLOCK_BYTES then budget_exceeded ''repair brief required facts cannot be truncated''
        else bind_res (lift_py (navigation_text b max_index artifact run validator)) (\<lambda>index.
          bind_res (lift_py (context_segment_init (required_segment required ''repair:brief''))) (\<lambda>first.
          bind_res (lift_py (context_segment_init ((required_segment index ''repair:navigation-index'')
              \<lparr>cs_required := False, cs_evictable := True\<rparr>))) (\<lambda>second.
            Inr (first, second))))))"

text \<open>The required facts are never cut: the first segment is their whole text, within the block limit.\<close>

lemma navigation_segments_required:
  assumes "repair_navigation_segments R other b max_index artifact run validator = Inr (first, second)"
  shows "json_dumps R False True (required_payload other b) = Inr (cs_content first)"
    and "length (cs_content first) \<le> MAX_CONTEXT_BLOCK_BYTES" "cs_required first" "\<not> cs_evictable first"
    and "navigation_text b max_index artifact run validator = Inr (cs_content second)" "cs_evictable second"
  using assms
  by (auto simp: repair_navigation_segments_def bind_Inr if_Inr context_segment_init_def required_segment_def split: if_splits)

section \<open>Joint scopes\<close>

text \<open>The paths a scope lets its holder write.\<close>

definition may_write :: "write_scope \<Rightarrow> string \<Rightarrow> bool" where
  "may_write s q \<longleftrightarrow> q \<in> set (ws_write_paths s) \<or> list_ex (path_in_root q) (ws_create_roots s)"

text \<open>The test at dispatch time is the test of plan validation, so it is exact for the same reason.\<close>

lemma path_in_root_eq: "path_in_root = path_is_in_root"
  by (simp add: fun_eq_iff path_in_root_def path_is_in_root_def)

lemma repair_overlap_eq:
  "repair_scopes_overlap l r =
     scopes_overlap (ws_write_paths l) (ws_create_roots l) (ws_write_paths r) (ws_create_roots r)"
  by (simp add: repair_scopes_overlap_def scopes_overlap_def path_in_root_eq)

lemma may_write_alt: "may_write s q \<longleftrightarrow> seg.writable (set (ws_write_paths s)) (set (ws_create_roots s)) q"
  by (auto simp: may_write_def seg.writable_def seg.below_def list_ex_iff path_in_root_eq)

lemma repair_overlap_iff: "repair_scopes_overlap l r \<longleftrightarrow> (\<exists>q. may_write l q \<and> may_write r q)"
  by (simp add: repair_overlap_eq scopes_overlap_iff may_write_alt)

lemma write_scope_init_Inr:
  assumes "write_scope_init paths roots = Inr s"
  shows "set (ws_write_paths s) = set paths" "set (ws_create_roots s) = set roots" "scope_ok s"
proof -
  have n: "normalize_repo_relative_paths paths = Inr (ws_write_paths s)" "normalize_repo_relative_paths roots = Inr (ws_create_roots s)"
    using assms by (auto simp: write_scope_init_def split: sum.splits)
  then show "set (ws_write_paths s) = set paths" "set (ws_create_roots s) = set roots"
    by (simp_all add: normalize_ok_iff)
  show "scope_ok s" using normalize_idem [OF n(1)] normalize_idem [OF n(2)] by (simp add: scope_ok_def write_scope_init_def)
qed

lemma write_scope_init_ok_iff:
  "is_ok (write_scope_init paths roots) \<longleftrightarrow> (\<forall>p \<in> set paths \<union> set roots. check_repo_path p = None)"
proof -
  have ok: "is_ok (normalize_repo_relative_paths ps) \<longleftrightarrow> (\<forall>p \<in> set ps. check_repo_path p = None)" for ps
    using normalize_ok_iff [of ps] by (cases "normalize_repo_relative_paths ps") (auto simp: Inl_Inr_False)
  have "is_ok (write_scope_init paths roots) \<longleftrightarrow> is_ok (normalize_repo_relative_paths paths) \<and> is_ok (normalize_repo_relative_paths roots)"
    by (cases "normalize_repo_relative_paths paths"; cases "normalize_repo_relative_paths roots") (simp_all add: write_scope_init_def)
  then show ?thesis by (auto simp: ok)
qed

definition joint_paths :: "scope_holder list \<Rightarrow> string list" where
  "joint_paths hs = concat (map (ws_write_paths \<circ> sh_write_scope) hs)"

definition joint_roots :: "scope_holder list \<Rightarrow> string list" where
  "joint_roots hs = concat (map (ws_create_roots \<circ> sh_write_scope) hs)"

lemma joint_scope_exists:
  assumes "\<forall>h \<in> set hs. scope_ok (sh_write_scope h)"
  obtains joint where "write_scope_init (joint_paths hs) (joint_roots hs) = Inr joint" "freeze_scope joint = Inr joint"
    "\<And>q. may_write joint q \<longleftrightarrow> (\<exists>h \<in> set hs. may_write (sh_write_scope h) q)"
proof -
  have "check_repo_path p = None" if "h \<in> set hs" "p \<in> set (ws_write_paths (sh_write_scope h)) \<union> set (ws_create_roots (sh_write_scope h))" for h p
    using assms that write_scope_init_ok_iff [of "ws_write_paths (sh_write_scope h)" "ws_create_roots (sh_write_scope h)"]
    by (auto simp: scope_ok_def)
  then have "is_ok (write_scope_init (joint_paths hs) (joint_roots hs))"
    by (auto simp: write_scope_init_ok_iff joint_paths_def joint_roots_def)
  then obtain joint where j: "write_scope_init (joint_paths hs) (joint_roots hs) = Inr joint" by (rule is_okE)
  note w = write_scope_init_Inr [OF j]
  show ?thesis
  proof (rule that [OF j])
    show "freeze_scope joint = Inr joint" using w(3) by (simp add: freeze_scope_def scope_ok_def)
    show "may_write joint q \<longleftrightarrow> (\<exists>h \<in> set hs. may_write (sh_write_scope h) q)" for q
      by (auto simp: may_write_def w(1,2) joint_paths_def joint_roots_def list_ex_iff)
  qed
qed

text \<open>The facts of a request: named holders with validated scopes.\<close>

definition holders_ok :: "scope_holder list \<Rightarrow> bool" where
  "holders_ok hs \<longleftrightarrow> list_all (\<lambda>h. scope_ok (sh_write_scope h) \<and> \<not> blank (sh_slice_id h)) hs"

lemma refused_ok: "reason \<noteq> ''ADMITTED'' \<Longrightarrow> list_all (\<lambda>s. \<not> blank s) ids \<Longrightarrow>
    refused reason ids = Inr \<lparr>ja_admitted = False, ja_reason = reason, ja_session = None, ja_blocking = ids\<rparr>"
  by (auto simp: refused_def joint_admission_init_def text_tuple_def list_all_iff list_ex_iff)

lemma joint_admission_decided:
  assumes "holders_ok repair_set" "holders_ok writers" "distinct (map sh_slice_id repair_set)"
  shows "\<exists>a. evaluate_joint_repair_dispatch run decision repair_set writers = Inr a
     \<and> (ja_admitted a \<longleftrightarrow> repair_set \<noteq> [] \<and> list_all (\<lambda>s. sh_status s \<in> set TERMINAL_STATUSES) repair_set
         \<and> \<not> (\<exists>q. list_ex (\<lambda>s. may_write (sh_write_scope s) q) repair_set \<and> list_ex (\<lambda>w. may_write (sh_write_scope w) q) writers))
     \<and> (case ja_session a of
          None \<Rightarrow> \<not> ja_admitted a
        | Some session \<Rightarrow> ja_admitted a \<and> gs_run_id session = run \<and> gs_repair_decision_id session = decision
            \<and> (\<forall>q. may_write (gs_joint_write_scope session) q \<longleftrightarrow> list_ex (\<lambda>s. may_write (sh_write_scope s) q) repair_set))"
proof -
  have named: "list_all (\<lambda>s. \<not> blank s) (map sh_slice_id (filter P hs))" if "holders_ok hs" for P hs
    using that by (auto simp: holders_ok_def list_all_iff)
  have "\<forall>h \<in> set repair_set. scope_ok (sh_write_scope h)" using assms(1) by (simp add: holders_ok_def list_all_iff)
  then obtain joint where joint: "write_scope_init (joint_paths repair_set) (joint_roots repair_set) = Inr joint" "freeze_scope joint = Inr joint"
      "\<And>q. may_write joint q \<longleftrightarrow> (\<exists>h \<in> set repair_set. may_write (sh_write_scope h) q)" using joint_scope_exists by blast
  define late where "late = map sh_slice_id (filter (\<lambda>s. sh_status s \<notin> set TERMINAL_STATUSES) repair_set)"
  define blockers where "blockers = map sh_slice_id (filter (\<lambda>w. repair_scopes_overlap joint (sh_write_scope w)) writers)"
  have "list_all (\<lambda>s. \<not> blank s) late" "list_all (\<lambda>s. \<not> blank s) (from_keys blockers)"
    using named [OF assms(1)] named [OF assms(2)] by (auto simp: late_def blockers_def list_all_iff)
  note ref = this [THEN refused_ok [rotated]]
  have late: "late = [] \<longleftrightarrow> list_all (\<lambda>s. sh_status s \<in> set TERMINAL_STATUSES) repair_set"
    by (auto simp: late_def filter_empty_conv list_all_iff)
  have blockers: "blockers = [] \<longleftrightarrow> \<not> (\<exists>q. list_ex (\<lambda>s. may_write (sh_write_scope s) q) repair_set \<and> list_ex (\<lambda>w. may_write (sh_write_scope w) q) writers)"
    by (auto simp: blockers_def filter_empty_conv repair_overlap_iff joint(3) list_ex_iff)
  have eval: "evaluate_joint_repair_dispatch run decision repair_set writers =
     (if repair_set = [] then refused ''EMPTY_REPAIR_SET'' []
      else if late \<noteq> [] then refused ''REPAIR_SET_NOT_TERMINAL'' late
      else if blockers \<noteq> [] then refused ''IN_FLIGHT_SCOPE_CONFLICT'' (from_keys blockers)
      else Inr \<lparr>ja_admitted = True, ja_reason = ''ADMITTED'', ja_session = Some \<lparr>gs_repair_decision_id = decision, gs_run_id = run,
             gs_joint_write_scope = joint\<rparr>, ja_blocking = []\<rparr>)"
    using assms(3) joint(1,2)
    by (simp add: evaluate_joint_repair_dispatch_def late_def blockers_def joint_paths_def joint_roots_def Let_def
        joint_admission_init_def text_tuple_def)
  show ?thesis
    unfolding eval late [symmetric] blockers [symmetric]
    using ref [of "''REPAIR_SET_NOT_TERMINAL''"] ref [of "''IN_FLIGHT_SCOPE_CONFLICT''"] refused_ok [of "''EMPTY_REPAIR_SET''" "[]"] joint(3)
    by (auto simp: list_ex_iff)
qed

text \<open>C15: A joint repair is admitted exactly when it is safe: the repair set is not empty, all its slices are
  terminal, and no path can be written both by one of them and by an active writer. The scope of the admitted
  session is then the union of the slices' scopes, neither more nor less.\<close>

theorem joint_repair_admission_exact:
  assumes "holders_ok repair_set" "holders_ok writers" "distinct (map sh_slice_id repair_set)"
  shows "\<exists>a. evaluate_joint_repair_dispatch run decision repair_set writers = Inr a
     \<and> (ja_admitted a \<longleftrightarrow> repair_set \<noteq> [] \<and> list_all (\<lambda>s. sh_status s \<in> set TERMINAL_STATUSES) repair_set
         \<and> \<not> (\<exists>q. list_ex (\<lambda>s. may_write (sh_write_scope s) q) repair_set \<and> list_ex (\<lambda>w. may_write (sh_write_scope w) q) writers))
     \<and> (case ja_session a of
          None \<Rightarrow> \<not> ja_admitted a
        | Some session \<Rightarrow> ja_admitted a \<and> gs_run_id session = run \<and> gs_repair_decision_id session = decision
            \<and> (\<forall>q. may_write (gs_joint_write_scope session) q \<longleftrightarrow> list_ex (\<lambda>s. may_write (sh_write_scope s) q) repair_set))"
  using assms by (rule joint_admission_decided)

section \<open>Attempts are counted\<close>

text \<open>The count of a decision is the number of distinct pieces of evidence it was started for, within the limit.\<close>

definition gate_ok :: "attempt_gate \<Rightarrow> bool" where
  "gate_ok g \<longleftrightarrow> (\<forall>k. gate_count g k = int (length (gate_seen g k)) \<and> distinct (gate_seen g k) \<and> int (length (gate_seen g k)) \<le> ga_limit g)"

lemma gate_ok_init: "attempt_gate_init limit = Inr g \<Longrightarrow> gate_ok g"
  by (auto simp: attempt_gate_init_def gate_ok_def gate_count_def gate_seen_def split: if_splits)

lemma gate_update [simp]:
  "gate_seen (g\<lparr>ga_evidence := AList.update k es (ga_evidence g)\<rparr>) = (gate_seen g)(k := es)"
  "gate_seen (g\<lparr>ga_evidence := AList.update k es (ga_evidence g), ga_attempts := as\<rparr>) = (gate_seen g)(k := es)"
  "gate_count (g\<lparr>ga_evidence := AList.update k es (ga_evidence g)\<rparr>) = gate_count g"
  "gate_count (g\<lparr>ga_evidence := ev, ga_attempts := AList.update k n (ga_attempts g)\<rparr>) = (gate_count g)(k := n)"
  by (auto simp: gate_seen_def gate_count_def update_conv fun_eq_iff)

lemma try_start_result:
  assumes "try_start g run_id decision_id evidence = (r, g')"
  shows "ga_limit g' = ga_limit g"
    and "(case r of
        Inr (AttemptAdmitted n) \<Rightarrow> (\<exists>k. gate_key run_id decision_id = Inr k \<and> evidence \<notin> set (gate_seen g k)
            \<and> n = gate_count g k + 1 \<and> n \<le> ga_limit g
            \<and> gate_seen g' = (gate_seen g)(k := evidence # gate_seen g k) \<and> gate_count g' = (gate_count g)(k := n))
      | _ \<Rightarrow> gate_seen g' = gate_seen g \<and> gate_count g' = gate_count g)"
  using assms
  by (auto simp: try_start_def Let_def bind_Inr non_empty_text_def split: sum.splits if_splits)

lemma try_start_ok: "gate_ok g \<Longrightarrow> try_start g run_id decision_id evidence = (r, g') \<Longrightarrow> gate_ok g'"
  using try_start_result [of g run_id decision_id evidence r g']
  by (auto simp: gate_ok_def split: sum.splits attempt_admission.splits)

section \<open>Dispatch\<close>

lemma emit_keeps:
  "ow_coordinator (snd (emit E t data w)) = ow_coordinator w" "ow_gate (snd (emit E t data w)) = ow_gate w"
  by (auto simp: emit_def split: option.splits sum.splits)

lemma emit_then_Inr:
  assumes "emit_then E t data f w = (Inr r, w')"
  obtains w1 where "f w1 = (Inr r, w')" "ow_coordinator w1 = ow_coordinator w" "ow_gate w1 = ow_gate w"
  using assms emit_keeps [of E t data w] that
  by (cases "emit E t data w") (auto simp: emit_then_def split: sum.splits)

lemma rejected_not_accepted: "rejected reason d n = Inr r \<Longrightarrow> \<not> dr_accepted r"
  by (auto simp: rejected_def dispatch_result_init_def bind_Inr split: if_splits)

lemma stop_with_Inr:
  assumes "stop_with E t q reason d n w = (Inr r, w')"
  shows "\<not> dr_accepted r \<and> ow_coordinator w' = ow_coordinator w \<and> ow_gate w' = ow_gate w"
  using assms unfolding stop_with_def by (elim emit_then_Inr) (auto dest: rejected_not_accepted)

text \<open>What an accepted dispatch has gone through, and what a refused one leaves.\<close>

definition accepted_run ::
  "repair_env \<Rightarrow> dispatch_request \<Rightarrow> session_dispatch \<Rightarrow> int \<Rightarrow> integration_coordinator \<Rightarrow> dispatch_result \<Rightarrow> integration_coordinator \<Rightarrow> bool" where
  "accepted_run E q d n c r c' \<longleftrightarrow>
     (\<exists>x. re_runner E d = Inr x \<and> xr_checkpoint_passed x \<and> xr_local_verification_passed x
        \<and> enqueue (re_meanwhile E c) (repair_item q x) = (True, c') \<and> dr_item r = Some (repair_item q x)
        \<and> dr_session r = Some d \<and> dr_attempt r = Some n)"

lemma queue_result_Inr:
  assumes "queue_result E q d n x w = (Inr r, w')"
  shows "ow_gate w' = ow_gate w
     \<and> (if dr_accepted r
        then enqueue (ow_coordinator w) (repair_item q x) = (True, ow_coordinator w') \<and> dr_item r = Some (repair_item q x)
           \<and> dr_session r = Some d \<and> dr_attempt r = Some n
        else ow_coordinator w' = ow_coordinator w)"
proof -
  obtain ok c where e: "enqueue_repair (ow_coordinator w) (repair_item q x) = Inr (ok, c)"
    using assms by (auto simp: queue_result_def Let_def split: sum.splits)
  show ?thesis
  proof (cases ok)
    case False
    have "enqueue (ow_coordinator w) (repair_item q x) = (False, c)" using enqueue_repairD [OF e] False by simp
    then have "c = ow_coordinator w" by (auto simp: enqueue_def split: if_splits)
    with assms e False show ?thesis by (auto simp: queue_result_def Let_def dest: rejected_not_accepted)
  next
    case True
    with assms e obtain w1 where
      "dispatch_result_init \<lparr>dr_accepted = True, dr_reason = ''ADMITTED'', dr_session = Some d, dr_item = Some (repair_item q x),
          dr_attempt = Some n, dr_lineage = None\<rparr> = Inr r" "w' = w1" "ow_coordinator w1 = c" "ow_gate w1 = ow_gate w"
      by (auto simp: queue_result_def Let_def elim!: emit_then_Inr)
    with enqueue_repairD [OF e] True show ?thesis by (auto simp: dispatch_result_init_def bind_Inr)
  qed
qed

lemma run_session_Inr:
  assumes "run_session E q d n w = (Inr r, w')"
  shows "ow_gate w' = ow_gate w
     \<and> (if dr_accepted r then accepted_run E q d n (ow_coordinator w) r (ow_coordinator w')
        else ow_coordinator w' = re_meanwhile E (ow_coordinator w))"
proof -
  obtain w1 where keeps: "ow_coordinator w1 = ow_coordinator w" "ow_gate w1 = ow_gate w"
      and step: "(let v = w1\<lparr>ow_coordinator := re_meanwhile E (ow_coordinator w1)\<rparr>
         in case re_runner E d of
              Inl _ \<Rightarrow> stop_with E ''repair.session.failed'' q ''RUNNER_ERROR'' (Some d) (Some n) v
            | Inr x \<Rightarrow>
                if \<not> xr_checkpoint_passed x \<or> \<not> xr_local_verification_passed x
                then stop_with E ''repair.session.failed'' q ''CHECKPOINT_OR_LOCAL_VERIFY_FAILED'' (Some d) (Some n) v
                else queue_result E q d n x v) = (Inr r, w')"
    using assms unfolding run_session_def by (elim emit_then_Inr)
  show ?thesis
  proof (cases "re_runner E d")
    case (Inl e)
    with step keeps show ?thesis by (auto simp: Let_def dest!: stop_with_Inr)
  next
    case (Inr x)
    show ?thesis
    proof (cases "xr_checkpoint_passed x \<and> xr_local_verification_passed x")
      case True
      with step Inr keeps show ?thesis by (auto simp: Let_def accepted_run_def dest!: queue_result_Inr)
    next
      case False
      with step Inr keeps show ?thesis by (auto simp: Let_def dest!: stop_with_Inr)
    qed
  qed
qed

abbreviation request_key :: "dispatch_request \<Rightarrow> attempt_key" where
  "request_key q \<equiv> (str_uuid (rn_run_id (rq_decision q)), str_uuid (rn_decision_id (rq_decision q)))"

lemma start_attempt_Inr:
  assumes "start_attempt E q d w = (Inr r, w')" "gate_ok (ow_gate w)"
  shows "gate_ok (ow_gate w') \<and> ga_limit (ow_gate w') = ga_limit (ow_gate w)
     \<and> (if dr_accepted r
        then rq_evidence_key q \<notin> set (gate_seen (ow_gate w) (request_key q)) \<and> rq_evidence_key q \<in> set (gate_seen (ow_gate w') (request_key q))
           \<and> (case re_budget E of None \<Rightarrow> True | Some admit \<Rightarrow> admit (sd_identity d) = Inr True)
           \<and> accepted_run E q d (gate_count (ow_gate w') (request_key q)) (ow_coordinator w) r (ow_coordinator w')
        else ow_coordinator w' = ow_coordinator w \<or> ow_coordinator w' = re_meanwhile E (ow_coordinator w))"
proof -
  let ?run = "IdText (str_uuid (rn_run_id (rq_decision q)))" and ?dec = "IdText (str_uuid (rn_decision_id (rq_decision q)))"
  obtain a g where t: "try_start (ow_gate w) ?run ?dec (rq_evidence_key q) = (a, g)" by fastforce
  note ok = try_start_ok [OF assms(2) t] try_start_result [OF t]
  have key: "k = request_key q" if "gate_key ?run ?dec = Inr k" for k
    using that by (auto simp: gate_key_def identity_text_def non_empty_text_def bind_Inr split: if_splits)
  consider (refused) b where "a = Inr b" "b = DuplicateEvidence \<or> b = RepairRetryExhausted" | (admitted) n where "a = Inr (AttemptAdmitted n)"
    using assms(1) t by (cases a) (auto simp: start_attempt_def, metis attempt_admission.exhaust)
  then show ?thesis
  proof cases
    case refused
    with assms(1) t ok show ?thesis by (auto simp: start_attempt_def dest!: stop_with_Inr)
  next
    case admitted
    from ok(3) key obtain k where k: "k = request_key q" "rq_evidence_key q \<notin> set (gate_seen (ow_gate w) k)"
        "gate_seen g = (gate_seen (ow_gate w))(k := rq_evidence_key q # gate_seen (ow_gate w) k)"
        "gate_count g = (gate_count (ow_gate w))(k := n)" unfolding admitted by auto
    obtain b where b: "admit_budget E (sd_identity d) = Inr b"
      using assms(1) t admitted by (auto simp: start_attempt_def Let_def split: sum.splits)
    show ?thesis
    proof (cases b)
      case True
      then have "run_session E q d n (w\<lparr>ow_gate := g\<rparr>) = (Inr r, w')"
        using assms(1) t admitted b by (simp add: start_attempt_def)
      moreover from b True have "(case re_budget E of None \<Rightarrow> True | Some admit \<Rightarrow> admit (sd_identity d) = Inr True)"
        by (auto simp: admit_budget_def split: option.splits)
      ultimately show ?thesis using run_session_Inr k ok by (fastforce split: if_splits)
    next
      case False
      then have "stop_with E ''repair.session.blocked'' q ''BUDGET_CLOSED'' (Some d) (Some n) (w\<lparr>ow_gate := g\<rparr>) = (Inr r, w')"
        using assms(1) t admitted b by (simp add: start_attempt_def)
      from stop_with_Inr [OF this] ok show ?thesis by simp
    qed
  qed
qed

lemma build_dispatch_scope:
  assumes "prepare_dispatch E q session = Inr d"
  shows "freeze_scope (gs_joint_write_scope session) = Inr (sd_write_scope d)"
  using assms
  by (auto simp: prepare_dispatch_def build_repair_session_dispatch_def session_dispatch_init_def bind_Inr split: if_splits)

lemma freeze_scope_same:
  assumes "freeze_scope s = Inr t"
  shows "may_write t = may_write s"
proof -
  note w = write_scope_init_Inr [OF assms [unfolded freeze_scope_def]]
  then show ?thesis by (simp add: fun_eq_iff may_write_def list_ex_iff)
qed

lemma register_keeps_queue: "register_verified_head c run oid = Inr c' \<Longrightarrow> ic_queue c' = ic_queue c \<and> ic_verified_oids c' run = Some oid"
  by (auto simp: register_verified_head_def split: if_splits)

lemma dispatch_Inr:
  assumes "dispatch E q w = (Inr r, w')" "gate_ok (ow_gate w)"
  shows "gate_ok (ow_gate w') \<and> ga_limit (ow_gate w') = ga_limit (ow_gate w)
     \<and> (if dr_accepted r
        then \<exists>c a session d. register_verified_head (ow_coordinator w) (fst (request_key q)) (rq_verified_head_oid q) = Inr c
           \<and> evaluate_joint_repair_dispatch (rn_run_id (rq_decision q)) (rn_decision_id (rq_decision q))
                (rq_repair_slices q) (rq_active_writers q) = Inr a
           \<and> ja_session a = Some session \<and> prepare_dispatch E q session = Inr d
           \<and> rq_evidence_key q \<notin> set (gate_seen (ow_gate w) (request_key q)) \<and> rq_evidence_key q \<in> set (gate_seen (ow_gate w') (request_key q))
           \<and> set (decision_slices q) = set (supplied_slices q) \<and> (case re_budget E of None \<Rightarrow> True | Some admit \<Rightarrow> admit (sd_identity d) = Inr True)
           \<and> accepted_run E q d (gate_count (ow_gate w') (request_key q)) c r (ow_coordinator w')
        else ow_coordinator w' = ow_coordinator w
          \<or> (\<exists>c. register_verified_head (ow_coordinator w) (fst (request_key q)) (rq_verified_head_oid q) = Inr c
               \<and> (ow_coordinator w' = c \<or> ow_coordinator w' = re_meanwhile E c)))"
proof (cases "set (decision_slices q) \<noteq> set (supplied_slices q)
    \<or> \<not> is_ok (register_verified_head (ow_coordinator w) (fst (request_key q)) (rq_verified_head_oid q))")
  case True
  with assms show ?thesis by (auto simp: dispatch_def dest!: rejected_not_accepted split: sum.splits if_splits)
next
  case False
  then obtain c where c: "register_verified_head (ow_coordinator w) (fst (request_key q)) (rq_verified_head_oid q) = Inr c"
    by (auto elim: is_okE)
  let ?w = "w\<lparr>ow_coordinator := c\<rparr>"
  obtain a where a: "evaluate_joint_repair_dispatch (rn_run_id (rq_decision q)) (rn_decision_id (rq_decision q))
      (rq_repair_slices q) (rq_active_writers q) = Inr a"
    using assms(1) False c
    by (cases "evaluate_joint_repair_dispatch (rn_run_id (rq_decision q)) (rn_decision_id (rq_decision q))
      (rq_repair_slices q) (rq_active_writers q)") (auto simp: dispatch_def Let_def)
  consider (stop) reason where "stop_with E ''repair.session.blocked'' q reason None None ?w = (Inr r, w')"
    | (go) session d where "ja_session a = Some session" "prepare_dispatch E q session = Inr d" "start_attempt E q d ?w = (Inr r, w')"
    using assms(1) False c a
    by (cases "ja_admitted a"; cases "ja_session a")
      (auto simp: dispatch_def Let_def split: sum.splits py_exn.splits)
  then show ?thesis
  proof cases
    case stop
    from stop_with_Inr [OF this] assms(2) c show ?thesis by simp
  next
    case go
    from False have "set (decision_slices q) = set (supplied_slices q)" by simp
    with start_attempt_Inr [OF go(3)] assms(2) c a go(1,2) show ?thesis by (simp split: if_splits)
  qed
qed

text \<open>C14: An adopted repair reaches the integration queue only through every gate. When a dispatch is accepted,
  the request names the slices of its decision, the coordinator holds the verified head the request names, no
  active writer can touch a path the session may write, the evidence was not used before for this decision and
  its attempts are within the limit, the budget, if there is one, admitted the session, the session ran with
  checkpoint and local verification passed, and the queue, as other tasks left it while the session ran, is
  extended by exactly the item of this decision. A dispatch that is refused adds nothing to it.\<close>

theorem repair_dispatch_gated:
  assumes "dispatch E q w = (Inr r, w')" "gate_ok (ow_gate w)"
    and "holders_ok (rq_repair_slices q)" "holders_ok (rq_active_writers q)" "distinct (supplied_slices q)"
  shows "gate_ok (ow_gate w')
     \<and> (if dr_accepted r
        then \<exists>c d x. register_verified_head (ow_coordinator w) (fst (request_key q)) (rq_verified_head_oid q) = Inr c
           \<and> dr_session r = Some d
           \<and> \<not> (\<exists>p. may_write (sd_write_scope d) p \<and> list_ex (\<lambda>h. may_write (sh_write_scope h) p) (rq_active_writers q))
           \<and> rq_evidence_key q \<notin> set (gate_seen (ow_gate w) (request_key q))
           \<and> rq_evidence_key q \<in> set (gate_seen (ow_gate w') (request_key q))
           \<and> dr_attempt r = Some (gate_count (ow_gate w') (request_key q))
           \<and> gate_count (ow_gate w') (request_key q) \<le> ga_limit (ow_gate w)
           \<and> set (decision_slices q) = set (supplied_slices q)
           \<and> (case re_budget E of None \<Rightarrow> True | Some admit \<Rightarrow> admit (sd_identity d) = Inr True)
           \<and> re_runner E d = Inr x \<and> xr_checkpoint_passed x \<and> xr_local_verification_passed x
           \<and> ic_queue (ow_coordinator w') = ic_queue (re_meanwhile E c) @ [repair_item q x]
        else ic_queue (ow_coordinator w') = ic_queue (ow_coordinator w)
          \<or> (\<exists>c. register_verified_head (ow_coordinator w) (fst (request_key q)) (rq_verified_head_oid q) = Inr c
               \<and> ow_coordinator w' = re_meanwhile E c))"
proof (cases "dr_accepted r")
  case False
  with dispatch_Inr [OF assms(1,2)] show ?thesis by (auto dest: register_keeps_queue)
next
  case True
  note D = dispatch_Inr [OF assms(1,2)]
  with True obtain c a session d where c: "register_verified_head (ow_coordinator w) (fst (request_key q)) (rq_verified_head_oid q) = Inr c"
      and a: "evaluate_joint_repair_dispatch (rn_run_id (rq_decision q)) (rn_decision_id (rq_decision q))
                (rq_repair_slices q) (rq_active_writers q) = Inr a" "ja_session a = Some session"
      and d: "prepare_dispatch E q session = Inr d"
      and new: "rq_evidence_key q \<notin> set (gate_seen (ow_gate w) (request_key q))" "rq_evidence_key q \<in> set (gate_seen (ow_gate w') (request_key q))"
      and run: "accepted_run E q d (gate_count (ow_gate w') (request_key q)) c r (ow_coordinator w')"
      and budget: "set (decision_slices q) = set (supplied_slices q)" "(case re_budget E of None \<Rightarrow> True | Some admit \<Rightarrow> admit (sd_identity d) = Inr True)"
    by auto
  from run obtain x where x: "re_runner E d = Inr x" "xr_checkpoint_passed x" "xr_local_verification_passed x"
      "enqueue (re_meanwhile E c) (repair_item q x) = (True, ow_coordinator w')" "dr_session r = Some d"
      "dr_attempt r = Some (gate_count (ow_gate w') (request_key q))"
    by (auto simp: accepted_run_def)
  have queue: "ic_queue (ow_coordinator w') = ic_queue (re_meanwhile E c) @ [repair_item q x]"
  proof -
    have "ow_coordinator w' = (re_meanwhile E c)\<lparr>ic_queue := ic_queue (re_meanwhile E c) @ [repair_item q x]\<rparr>"
      using x(4) by (auto simp: enqueue_def split: if_splits)
    then show ?thesis by simp
  qed
  have bound: "gate_count (ow_gate w') (request_key q) \<le> ga_limit (ow_gate w)" using D by (auto simp: gate_ok_def)
  have scope: "may_write (sd_write_scope d) = may_write (gs_joint_write_scope session)"
    using freeze_scope_same [OF build_dispatch_scope [OF d]] .
  have free: "\<not> (\<exists>p. may_write (sd_write_scope d) p \<and> list_ex (\<lambda>h. may_write (sh_write_scope h) p) (rq_active_writers q))"
    using joint_admission_decided [OF assms(3,4) assms(5) [unfolded supplied_slices_def],
        of "rn_run_id (rq_decision q)" "rn_decision_id (rq_decision q)"] a scope by auto
  show ?thesis using True D c new x queue bound free budget by auto
qed

section \<open>Examples\<close>

lemma ex_str: "str_uuid 1 = ''00000000-0000-0000-0000-000000000001''" "str_uuid 2 = ''00000000-0000-0000-0000-000000000002''"
  by (simp_all add: str_uuid_def hex_digits_def hex_char_def upt_rec char_of_eq_iff Let_def)

definition ex_holder :: "uuid \<Rightarrow> string \<Rightarrow> string \<Rightarrow> scope_holder" where
  "ex_holder u st path = \<lparr>sh_slice_id = str_uuid u, sh_status = st, sh_write_scope = \<lparr>ws_write_paths = [path], ws_create_roots = []\<rparr>\<rparr>"

lemma ex_paths: "check_repo_path ''a'' = None" "check_repo_path ''b'' = None"
  by code_simp+

lemmas text_eval = blank_def unicode_space_def cp_value_def utf8_cont_def

lemma ex_scope_ok: "check_repo_path p = None \<Longrightarrow> write_scope_init [p] [] = Inr \<lparr>ws_write_paths = [p], ws_create_roots = []\<rparr>"
proof -
  assume "check_repo_path p = None"
  then have "normalize_repo_relative_paths [p] = Inr [p]" "normalize_repo_relative_paths [] = Inr []"
    by (simp_all add: normalize_ok_iff sorted_set_def)
  then show ?thesis by (simp add: write_scope_init_def)
qed

lemma ex_holders: "holders_ok [ex_holder 1 ''INTEGRATED'' ''a'']" "holders_ok [ex_holder 2 ''RUNNING'' ''b'']"
  by (simp_all add: holders_ok_def ex_holder_def scope_ok_def ex_scope_ok ex_paths ex_str text_eval)

theorem joint_repair_admission_exact_witness:
  "\<exists>a. evaluate_joint_repair_dispatch 7 8 [ex_holder 1 ''INTEGRATED'' ''a''] [ex_holder 2 ''RUNNING'' ''b''] = Inr a \<and> ja_admitted a"
  using joint_repair_admission_exact [OF ex_holders, of 7 8]
  by (auto simp: ex_holder_def TERMINAL_STATUSES_def may_write_def)

definition ex_repair_request :: dispatch_request where
  "ex_repair_request = \<lparr>rq_decision = \<lparr>rn_decision_id = 2, rn_run_id = 1, rn_repair_set = [1], rn_domain_split = [], rn_brief_refs = []\<rparr>,
     rq_repair_slices = [ex_holder 1 ''INTEGRATED'' ''a''], rq_active_writers = [ex_holder 2 ''RUNNING'' ''b''],
     rq_evidence = \<lparr>rv_candidate_slice_set = [1], rv_reliability = Reliable, rv_strong_coupling = False,
        rv_cross_generation_recurrence = False, rv_conservation_signal_summary = []\<rparr>,
     rq_failure_facts = \<lparr>rf_failed_test_refs = [''t''], rf_diagnostic_summary = [(StrKey ''k'', PBool True)], rf_cas_refs = []\<rparr>,
     rq_scope_index = \<lparr>ni_paths = [''a''], ni_positions = []\<rparr>, rq_repair_history = [], rq_source_snapshot_oid = ''o'',
     rq_contract_refs = [''c''], rq_domain_workspace_refs = [''d''], rq_verified_head_oid = ''h'', rq_verification_requirements = [''v''],
     rq_evidence_key = ''e'', rq_original_slice_id = IdUuid 1, rq_original_generation = 0, rq_cas_ref_validator = None\<rparr>"

definition ex_repair_env :: repair_env where
  "ex_repair_env = \<lparr>re_runner = (\<lambda>_. Inr \<lparr>xr_candidate_commit_oid = ''n'', xr_checkpoint_passed = True, xr_local_verification_passed = True\<rparr>),
     re_meanwhile = id, re_sink = None, re_budget = None, re_request_factory = None, re_float = (\<lambda>_. []), re_other = []\<rparr>"

definition ex_repair_world :: repair_world where
  "ex_repair_world = \<lparr>ow_coordinator = coordinator_init, ow_gate = \<lparr>ga_limit = 3, ga_attempts = [], ga_evidence = []\<rparr>, ow_events = [],
     ow_last_result = None\<rparr>"

lemma ex_prepares:
  "\<exists>d. prepare_dispatch ex_repair_env ex_repair_request \<lparr>gs_repair_decision_id = 2, gs_run_id = 1, gs_joint_write_scope = \<lparr>ws_write_paths = [''a''], ws_create_roots = []\<rparr>\<rparr> = Inr d"
  by (simp add: prepare_dispatch_def ex_repair_env_def ex_repair_request_def repair_constraints_init_def text_tuple_def text_eval
      assemble_repair_brief_def check_ownership_def json_size_def py_dict_def jsonable_key_def sort_entries_def json_string_def
      json_plain_point_def repair_brief_init_def read_scope_init_def non_empty_text_def build_repair_session_dispatch_def
      freeze_scope_def ex_scope_ok ex_paths session_dispatch_init_def)

lemma ex_dispatches: "\<exists>r w. dispatch ex_repair_env ex_repair_request ex_repair_world = (Inr r, w) \<and> dr_accepted r"
proof -
  have scopes: "\<not> repair_scopes_overlap \<lparr>ws_write_paths = [''a''], ws_create_roots = []\<rparr> \<lparr>ws_write_paths = [''b''], ws_create_roots = []\<rparr>"
    by (simp add: repair_scopes_overlap_def)
  have eval: "evaluate_joint_repair_dispatch 1 2 [ex_holder 1 ''INTEGRATED'' ''a''] [ex_holder 2 ''RUNNING'' ''b'']
      = Inr \<lparr>ja_admitted = True, ja_reason = ''ADMITTED'', ja_session = Some \<lparr>gs_repair_decision_id = 2, gs_run_id = 1,
          gs_joint_write_scope = \<lparr>ws_write_paths = [''a''], ws_create_roots = []\<rparr>\<rparr>, ja_blocking = []\<rparr>"
    by (simp add: evaluate_joint_repair_dispatch_def ex_holder_def TERMINAL_STATUSES_def ex_scope_ok ex_paths freeze_scope_def scopes
        joint_admission_init_def text_tuple_def Let_def)
  obtain d where d: "prepare_dispatch ex_repair_env ex_repair_request \<lparr>gs_repair_decision_id = 2, gs_run_id = 1,
      gs_joint_write_scope = \<lparr>ws_write_paths = [''a''], ws_create_roots = []\<rparr>\<rparr> = Inr d" using ex_prepares by blast
  have req: "rn_run_id (rq_decision ex_repair_request) = 1" "rn_decision_id (rq_decision ex_repair_request) = 2"
      "rq_repair_slices ex_repair_request = [ex_holder 1 ''INTEGRATED'' ''a'']" "rq_active_writers ex_repair_request = [ex_holder 2 ''RUNNING'' ''b'']"
      "rq_evidence_key ex_repair_request = ''e''" "rq_verified_head_oid ex_repair_request = ''h''" "decision_slices ex_repair_request = supplied_slices ex_repair_request"
    by (simp_all add: ex_repair_request_def decision_slices_def supplied_slices_def ex_holder_def)
  have nonblank: "\<not> blank (str_uuid 1)" "\<not> blank (str_uuid 2)" "\<not> blank ''e''" "\<not> blank ''ADMITTED''" "str_uuid 1 \<noteq> []" "str_uuid 2 \<noteq> []"
    by (simp_all add: ex_str text_eval)
  have ports: "re_sink ex_repair_env = None" "re_budget ex_repair_env = None" "re_meanwhile ex_repair_env = id"
      "re_runner ex_repair_env d = Inr \<lparr>xr_candidate_commit_oid = ''n'', xr_checkpoint_passed = True, xr_local_verification_passed = True\<rparr>"
    by (simp_all add: ex_repair_env_def)
  show ?thesis
    by (simp add: dispatch_def req register_verified_head_def ex_repair_world_def coordinator_init_def nonblank eval d Let_def
        start_attempt_def try_start_def gate_key_def identity_text_def non_empty_text_def gate_seen_def gate_count_def
        admit_budget_def ports run_session_def emit_then_def emit_def queue_result_def repair_item_def enqueue_repair_def enqueue_def
        dispatch_result_init_def)
qed

theorem repair_dispatch_gated_witness:
  "\<exists>r w. dispatch ex_repair_env ex_repair_request ex_repair_world = (Inr r, w) \<and> dr_accepted r \<and> gate_ok (ow_gate w)
     \<and> dr_attempt r = Some (gate_count (ow_gate w) (str_uuid 1, str_uuid 2)) \<and> length (ic_queue (ow_coordinator w)) = 1"
proof -
  obtain r w where d: "dispatch ex_repair_env ex_repair_request ex_repair_world = (Inr r, w)" and acc: "dr_accepted r" using ex_dispatches by blast
  have "gate_ok (ow_gate ex_repair_world)" by (simp add: ex_repair_world_def gate_ok_def gate_count_def gate_seen_def)
  moreover have "holders_ok (rq_repair_slices ex_repair_request)" "holders_ok (rq_active_writers ex_repair_request)" "distinct (supplied_slices ex_repair_request)"
    using ex_holders by (simp_all add: ex_repair_request_def supplied_slices_def)
  ultimately have "gate_ok (ow_gate w)" "dr_attempt r = Some (gate_count (ow_gate w) (request_key ex_repair_request))"
      "\<exists>c x. register_verified_head (ow_coordinator ex_repair_world) (fst (request_key ex_repair_request)) (rq_verified_head_oid ex_repair_request) = Inr c
        \<and> ic_queue (ow_coordinator w) = ic_queue (re_meanwhile ex_repair_env c) @ [repair_item ex_repair_request x]"
    using repair_dispatch_gated [OF d] acc by auto
  with d acc show ?thesis
    by (auto simp: ex_repair_request_def ex_repair_env_def ex_repair_world_def coordinator_init_def dest!: register_keeps_queue)
qed

end
