(* ===== verification/Draft_Validation.thy ===== *)
theory Draft_Validation
  imports Plan_Model Py_Json "HOL-Library.Multiset"
begin

text \<open>
  \<open>runtime/draft_validation.py\<close>: the exploration skeleton that is built from module candidates, the exact
  coverage test of the reports, and the mechanical checks of a dossier. Messages that quote a value keep
  their fixed part, and the reasons of the dossier check are values instead of text.
\<close>

section \<open>Domains\<close>

record domain_skeleton =
  dk_domain_path :: string
  dk_files :: "string list"

definition domain_path_is_safe :: "string \<Rightarrow> string res" where
  "domain_path_is_safe value = (if value = ''.'' then Inr ''.'' else validate_repo_relative_path value)"

definition domain_skeleton_init :: "string \<Rightarrow> string list \<Rightarrow> domain_skeleton res" where
  "domain_skeleton_init path files =
     bind_res (domain_path_is_safe path) (\<lambda>p. bind_res (traverse validate_repo_relative_path files) (\<lambda>fs.
       if fs = [] then Inl (ValueError ''validation error for DomainSkeleton'')
       else Inr \<lparr>dk_domain_path = p, dk_files = fs\<rparr>))"

definition module_prefix :: "string \<Rightarrow> string" where
  "module_prefix m = (if m = ''.'' then [] else m @ ''/'')"

text \<open>A file lies in a domain: the test of the skeleton and of the exploration reports.\<close>

definition in_domain :: "string \<Rightarrow> string \<Rightarrow> bool" where
  "in_domain m f \<longleftrightarrow> m = ''.'' \<or> f = m \<or> prefix (module_prefix m) f"

definition removeprefix :: "string \<Rightarrow> string \<Rightarrow> string" where
  "removeprefix p s = (if prefix p s then drop (length p) s else s)"

definition child_domain :: "string \<Rightarrow> string \<Rightarrow> string" where
  "child_domain m f =
     (case split_on slash (removeprefix (module_prefix m) f) of
        child # _ # _ \<Rightarrow> if child = [] then m else if m = ''.'' then child else m @ ''/'' @ child
      | _ \<Rightarrow> m)"

definition grouped :: "string \<Rightarrow> string list \<Rightarrow> (string \<times> string list) list" where
  "grouped m files = map (\<lambda>d. (d, filter (\<lambda>f. child_domain m f = d) files)) (sorted_set (map (child_domain m) files))"

definition module_domains :: "nat \<Rightarrow> string \<Rightarrow> string list \<Rightarrow> domain_skeleton list res" where
  "module_domains max_files m files =
     (if length files \<le> max_files then map_sum id (\<lambda>d. [d]) (domain_skeleton_init m files)
      else traverse (\<lambda>(d, fs). domain_skeleton_init d fs) (grouped m files))"

text \<open>The files of one module, checked and in normal form.\<close>

definition module_files_of :: "string list \<Rightarrow> string \<Rightarrow> string list \<Rightarrow> string list res" where
  "module_files_of seen m raw =
     bind_res (normalize_repo_relative_paths raw) (\<lambda>files.
       if files = [] then Inl (ValueError ''module must contain at least one file'')
       else if length files \<noteq> length raw then Inl (ValueError ''module contains duplicate files'')
       else if list_ex (\<lambda>f. \<not> in_domain m f) files then Inl (ValueError ''files must be under module'')
       else if list_ex (\<lambda>f. f \<in> set seen) files then Inl (ValueError ''files occur in more than one module'')
       else Inr files)"

fun skeleton_loop :: "nat \<Rightarrow> string list \<Rightarrow> (string \<times> string list) list \<Rightarrow> domain_skeleton list res" where
  "skeleton_loop max_files seen [] = Inr []"
| "skeleton_loop max_files seen ((raw_path, raw_files) # modules) =
     bind_res (domain_path_is_safe raw_path) (\<lambda>m.
     bind_res (module_files_of seen m raw_files) (\<lambda>files.
     bind_res (module_domains max_files m files) (\<lambda>domains.
       map_sum id ((@) domains) (skeleton_loop max_files (seen @ files) modules))))"

text \<open>\<open>module_files\<close> is a dictionary; its keys are visited in byte order.\<close>

definition build_domain_skeleton :: "(string \<times> string list) list \<Rightarrow> int \<Rightarrow> int \<Rightarrow> domain_skeleton list res" where
  "build_domain_skeleton module_files max_files max_fanout =
     (if max_files < 1 then Inl (ValueError ''max_files_per_domain must be a positive integer'')
      else if max_fanout < 1 then Inl (ValueError ''max_fanout must be a positive integer'')
      else if module_files = [] then Inl (ValueError ''module_files must contain at least one module'')
      else bind_res (skeleton_loop (nat max_files) [] (sort_key fst module_files)) (\<lambda>domains.
        if int (length domains) > max_fanout then Inl (ValueError ''exploration fanout exceeds configured maximum'')
        else Inr domains))"

section \<open>Coverage\<close>

fun dup_loop :: "string list \<Rightarrow> string list \<Rightarrow> string list \<Rightarrow> string list" where
  "dup_loop seen dups [] = dups"
| "dup_loop seen dups (p # ps) = dup_loop (List.insert p seen) (if p \<in> set seen then List.insert p dups else dups) ps"

definition duplicates :: "string list \<Rightarrow> string list" where
  "duplicates paths = sorted_set (dup_loop [] [] paths)"

record coverage_result =
  cv_valid :: bool
  cv_missing_files :: "string list"
  cv_duplicate_files :: "string list"
  cv_unknown_files :: "string list"

definition validate_exact_coverage :: "domain_skeleton list \<Rightarrow> string list \<Rightarrow> coverage_result res" where
  "validate_exact_coverage skeleton expected_raw =
     bind_res (normalize_repo_relative_paths expected_raw) (\<lambda>expected.
       let actual_raw = concat (map dk_files skeleton)
       in bind_res (normalize_repo_relative_paths actual_raw) (\<lambda>actual.
         let missing = filter (\<lambda>p. p \<notin> set actual) expected;
             unknown = filter (\<lambda>p. p \<notin> set expected) actual;
             dups = sorted_set (duplicates expected_raw @ duplicates actual_raw)
         in Inr \<lparr>cv_valid = (missing = [] \<and> unknown = [] \<and> dups = [] \<and> length actual_raw = length expected),
                 cv_missing_files = missing, cv_duplicate_files = dups, cv_unknown_files = unknown\<rparr>))"

section \<open>Dossiers\<close>

record understanding_dossier =
  ud_architecture_narrative :: "dossier_entry list"
  ud_semantic_modules :: "dossier_entry list"
  ud_dependency_resolutions :: "dossier_entry list"
  ud_test_map :: "dossier_entry list"
  ud_risk_hotspots :: "dossier_entry list"
  ud_strategy_advice :: "dossier_entry list"
  ud_coverage_self_report :: "(string \<times> json) list"
  ud_budget_tier :: string

definition jget :: "(string \<times> json) list \<Rightarrow> string \<Rightarrow> json" where
  "jget kvs k = (case map_of kvs k of None \<Rightarrow> JNull | Some v \<Rightarrow> v)"

definition digits_value :: "string \<Rightarrow> nat" where
  "digits_value ds = foldl (\<lambda>n c. 10 * n + (of_char c - 48)) 0 ds"

definition positive_digits :: "string \<Rightarrow> bool" where
  "positive_digits ds \<longleftrightarrow> ds \<noteq> [] \<and> list_all is_digit ds \<and> hd ds \<noteq> CHR ''0''"

definition skip_space :: "string \<Rightarrow> string" where
  "skip_space s = concat (dropWhile unicode_space (code_points s))"

text \<open>\<open>int\<close> refuses more than 4300 digits.\<close>

definition parse_int :: "string \<Rightarrow> int res" where
  "parse_int ds = (if length ds > 4300 then Inl (ValueError ''Exceeds the limit (4300 digits) for integer string conversion'')
                else Inr (int (digits_value ds)))"

text \<open>The two line numbers of a compact range such as \<open>1-3\<close>, with space around the separator allowed.\<close>

definition compact_range :: "string \<Rightarrow> (string \<times> string) option" where
  "compact_range s =
     (let t = concat (strip_if unicode_space (code_points s));
          first = takeWhile is_digit t
      in case skip_space (drop (length first) t) of
           c # rest \<Rightarrow>
             let last_part = skip_space rest
             in if c \<in> set ''-:'' \<and> positive_digits first \<and> positive_digits last_part
                then Some (first, last_part) else None
         | [] \<Rightarrow> None)"

definition line_of :: "json \<Rightarrow> json" where
  "line_of v = (case v of JObj kvs \<Rightarrow> jget kvs ''line'' | _ \<Rightarrow> JNull)"

definition is_object :: "json \<Rightarrow> bool" where
  "is_object v = (case v of JObj _ \<Rightarrow> True | _ \<Rightarrow> False)"

definition anchor_lines :: "(string \<times> json) list \<Rightarrow> (json \<times> json) res" where
  "anchor_lines anchor =
     (let start0 = jget anchor ''start_line''; end0 = jget anchor ''end_line'';
          nested = (start0 = JNull \<or> end0 = JNull) \<and> is_object (jget anchor ''start'') \<and> is_object (jget anchor ''end'');
          start1 = (if nested then line_of (jget anchor ''start'') else start0);
          end1 = (if nested then line_of (jget anchor ''end'') else end0)
      in if start1 \<noteq> JNull \<and> end1 \<noteq> JNull then Inr (start1, end1)
         else case jget anchor ''range'' of
           JStr short \<Rightarrow> (case compact_range short of
               None \<Rightarrow> Inl (ValueError ''range must be a positive line range such as 1-3'')
             | Some (a, b) \<Rightarrow>
                 bind_res (parse_int a) (\<lambda>i. bind_res (parse_int b) (\<lambda>j. Inr (JInt i, JInt j))))
         | _ \<Rightarrow> Inl (ValueError ''anchor needs start_line and end_line''))"

definition anchor_path :: "(string \<times> json) list \<Rightarrow> string res" where
  "anchor_path kvs =
     (case (case map_of kvs ''file'' of Some v \<Rightarrow> v | None \<Rightarrow> jget kvs ''file_path'') of
        JStr s \<Rightarrow> validate_repo_relative_path s
      | _ \<Rightarrow> Inl (ValueError ''repository path must be a non-empty string without NUL''))"

fun ordered_range :: "string \<Rightarrow> json \<times> json \<Rightarrow> (string \<times> int \<times> int) res" where
  "ordered_range path (JInt a, JInt b) =
     (if a < 1 \<or> b < a then Inl (ValueError ''anchor line range must be positive and ordered'') else Inr (path, a, b))"
| "ordered_range path _ = Inl (ValueError ''anchor line range must be positive and ordered'')"

definition parse_anchor :: "json \<Rightarrow> (string \<times> int \<times> int) res" where
  "parse_anchor anchor =
     (case anchor of
        JObj kvs \<Rightarrow> bind_res (anchor_path kvs) (\<lambda>path. bind_res (anchor_lines kvs) (ordered_range path))
      | _ \<Rightarrow> Inl (TypeError ''anchor must be an object''))"

datatype dossier_reason =
    EmptyAnchors string nat
  | InvalidAnchor string nat nat py_exn
  | OutsideScope string
  | UnresolvedConflicts int

record dossier_consistency =
  dc_valid :: bool
  dc_reasons :: "dossier_reason list"
  dc_unresolved_conflict_count :: int
  dc_reason_code :: "string option"

definition dossier_sections :: "understanding_dossier \<Rightarrow> (string \<times> dossier_entry list) list" where
  "dossier_sections d =
     [(''architecture_narrative'', ud_architecture_narrative d), (''semantic_modules'', ud_semantic_modules d),
      (''dependency_resolutions'', ud_dependency_resolutions d), (''test_map'', ud_test_map d),
      (''risk_hotspots'', ud_risk_hotspots d), (''strategy_advice'', ud_strategy_advice d)]"

definition anchor_reasons :: "spec_scope \<Rightarrow> string list \<Rightarrow> string \<Rightarrow> nat \<Rightarrow> nat \<Rightarrow> json \<Rightarrow> dossier_reason list" where
  "anchor_reasons scope f1 section i j anchor =
     (case parse_anchor anchor of
        Inl e \<Rightarrow> [InvalidAnchor (if section = ''semantic_modules'' then ''semantic module'' else section) i j e]
      | Inr (path, _, _) \<Rightarrow>
          if section = ''semantic_modules'' \<and> (path \<notin> set f1 \<or> \<not> scope_includes_path scope path) then [OutsideScope path] else [])"

definition entry_reasons :: "spec_scope \<Rightarrow> string list \<Rightarrow> string \<Rightarrow> nat \<Rightarrow> dossier_entry \<Rightarrow> dossier_reason list" where
  "entry_reasons scope f1 section i entry =
     (if de_anchors entry = [] then if de_advisory entry then [] else [EmptyAnchors section i]
      else concat (map (\<lambda>(j, a). anchor_reasons scope f1 section i j a) (enum_list (de_anchors entry))))"

definition check_dossier_consistency ::
  "understanding_dossier \<Rightarrow> spec_scope \<Rightarrow> string list \<Rightarrow> int \<Rightarrow> dossier_consistency res" where
  "check_dossier_consistency dossier scope f1_files conflicts =
     (if conflicts < 0 then Inl (ValueError ''unresolved_conflict_count must be a non-negative integer'')
      else bind_res (normalize_repo_relative_paths f1_files) (\<lambda>f1.
        let reasons = concat (map (\<lambda>(section, entries). concat (map (\<lambda>(i, e). entry_reasons scope f1 section i e) (enum_list entries)))
                        (dossier_sections dossier))
                      @ (if conflicts \<noteq> 0 then [UnresolvedConflicts conflicts] else [])
        in Inr \<lparr>dc_valid = (reasons = []), dc_reasons = reasons, dc_unresolved_conflict_count = conflicts,
                dc_reason_code = (if reasons = [] then None else Some ''DOSSIER_INCONSISTENT'')\<rparr>))"

section \<open>The skeleton partitions the files\<close>

lemma mset_group_by:
  assumes "distinct ks" "g ` set xs \<subseteq> set ks"
  shows "mset (concat (map (\<lambda>k. filter (\<lambda>x. g x = k) xs) ks)) = mset xs"
  using assms
proof (induction ks arbitrary: xs)
  case (Cons k ks)
  have rest: "filter (\<lambda>x. g x = j) (filter (\<lambda>x. g x \<noteq> k) xs) = filter (\<lambda>x. g x = j) xs" if "j \<in> set ks" for j
    using that Cons.prems(1) by (auto simp: intro!: filter_cong)
  have "mset (concat (map (\<lambda>j. filter (\<lambda>x. g x = j) (filter (\<lambda>x. g x \<noteq> k) xs)) ks)) = mset (filter (\<lambda>x. g x \<noteq> k) xs)"
    using Cons.prems by (intro Cons.IH) auto
  moreover have "map (\<lambda>j. filter (\<lambda>x. g x = j) (filter (\<lambda>x. g x \<noteq> k) xs)) ks = map (\<lambda>j. filter (\<lambda>x. g x = j) xs) ks"
    by (intro map_cong refl rest)
  ultimately have "mset (concat (map (\<lambda>j. filter (\<lambda>x. g x = j) xs) ks)) = mset (filter (\<lambda>x. g x \<noteq> k) xs)"
    by (simp only:)
  then show ?case
    using multiset_partition [of "mset xs" "\<lambda>x. g x = k"] by simp
qed simp

lemma mset_grouped: "mset (concat (map snd (grouped m files))) = mset files"
  using mset_group_by [of "sorted_set (map (child_domain m) files)" "child_domain m" files]
  by (simp add: grouped_def comp_def)

lemma child_domain_in:
  assumes "in_domain m f" "f \<noteq> m"
  shows "in_domain (child_domain m f) f"
proof -
  define rel where "rel = removeprefix (module_prefix m) f"
  have f: "f = module_prefix m @ rel"
    using assms by (auto simp: in_domain_def module_prefix_def rel_def removeprefix_def prefix_def)
  show ?thesis
  proof (cases "split_on slash rel")
    case (Cons child rest)
    show ?thesis
    proof (cases "rest = [] \<or> child = []")
      case False
      then obtain r rs where Cons: "rest = r # rs" and child: "child \<noteq> []"
        by (cases rest) auto
      then have "rel = child @ ''/'' @ join_with [slash] (r # rs)"
        using split_on_join [of slash rel] \<open>split_on slash rel = child # rest\<close> by simp
      moreover have "child_domain m f = module_prefix m @ child"
        using \<open>split_on slash rel = child # rest\<close> Cons child unfolding child_domain_def rel_def [symmetric]
        by (simp add: module_prefix_def)
      ultimately show ?thesis
        using f by (auto simp: in_domain_def module_prefix_def)
    qed (use \<open>split_on slash rel = child # rest\<close> assms in \<open>auto simp: child_domain_def rel_def [symmetric] split: list.splits\<close>)
  qed simp
qed

lemma domain_path_is_safe_id: "domain_path_is_safe p = Inr q \<Longrightarrow> q = p"
  by (auto simp: domain_path_is_safe_def validate_repo_relative_path_iff split: if_splits)

lemma traverse_paths_id: "traverse validate_repo_relative_path fs = Inr gs \<Longrightarrow> gs = fs"
  by (induction fs arbitrary: gs) (auto simp: bind_Inr map_sum_Inr validate_repo_relative_path_iff)

lemma domain_skeleton_init_Inr:
  assumes "domain_skeleton_init p fs = Inr d"
  shows "dk_domain_path d = p \<and> dk_files d = fs \<and> fs \<noteq> []"
  using assms by (auto simp: domain_skeleton_init_def bind_Inr dest!: domain_path_is_safe_id traverse_paths_id split: if_splits)

lemma traverse_init_Inr:
  "traverse (\<lambda>(d, fs). domain_skeleton_init d fs) gs = Inr ds \<Longrightarrow>
     map (\<lambda>d. (dk_domain_path d, dk_files d)) ds = gs \<and> (\<forall>d \<in> set ds. dk_files d \<noteq> [])"
  by (induction gs arbitrary: ds) (auto simp: bind_Inr map_sum_Inr dest!: domain_skeleton_init_Inr)

text \<open>Every domain is nonempty and holds its files; the files of the module alone may coincide with its path.\<close>

definition domain_ok :: "string list \<Rightarrow> domain_skeleton \<Rightarrow> bool" where
  "domain_ok modules d \<longleftrightarrow> dk_files d \<noteq> [] \<and> (\<forall>f \<in> set (dk_files d). f \<in> set modules \<or> in_domain (dk_domain_path d) f)"

lemma module_domains_Inr:
  assumes "module_domains n m files = Inr ds" "list_all (in_domain m) files" "files \<noteq> []"
  shows "mset (concat (map dk_files ds)) = mset files \<and> list_all (domain_ok [m]) ds"
proof (cases "length files \<le> n")
  case True
  with assms show ?thesis
    by (cases "domain_skeleton_init m files")
      (auto simp: module_domains_def domain_ok_def list_all_iff dest!: domain_skeleton_init_Inr)
next
  case False
  with assms(1) have ds: "map (\<lambda>d. (dk_domain_path d, dk_files d)) ds = grouped m files" "\<forall>d \<in> set ds. dk_files d \<noteq> []"
    by (auto simp: module_domains_def dest!: traverse_init_Inr)
  then have "map dk_files ds = map snd (grouped m files)"
    by (simp add: ds(1) [symmetric] comp_def)
  moreover have "in_domain (dk_domain_path d) f" if "d \<in> set ds" "f \<in> set (dk_files d)" "f \<noteq> m" for d f
  proof -
    have "(dk_domain_path d, dk_files d) \<in> set (grouped m files)"
      using that(1) by (simp add: ds(1) [symmetric])
    then have "f \<in> set files" "child_domain m f = dk_domain_path d"
      using that(2) by (auto simp: grouped_def)
    then show ?thesis
      using child_domain_in [of m f] assms(2) that(3) by (simp add: list_all_iff)
  qed
  ultimately show ?thesis
    using mset_grouped [of m files] ds(2) by (auto simp: domain_ok_def list_all_iff)
qed

lemma mset_sorted_set_length: "length (sorted_set xs) = length xs \<Longrightarrow> mset (sorted_set xs) = mset xs \<and> distinct xs"
  by (simp add: sorted_set_def length_remdups_card_conv card_distinct distinct_remdups_id)

lemma module_files_of_Inr:
  assumes "module_files_of seen m raw = Inr files"
  shows "mset files = mset raw \<and> distinct raw \<and> files \<noteq> [] \<and> list_all (in_domain m) files \<and> set raw \<inter> set seen = {}"
  using assms mset_sorted_set_length [of raw]
  by (auto simp: module_files_of_def bind_Inr normalize_ok_iff list_ex_iff list_all_iff split: if_splits)

lemma domain_ok_mono: "list_all (domain_ok ms) ds \<Longrightarrow> set ms \<subseteq> set ms' \<Longrightarrow> list_all (domain_ok ms') ds"
  by (auto simp: domain_ok_def list_all_iff)

lemma skeleton_loop_Inr:
  assumes "skeleton_loop n seen mods = Inr ds"
  shows "mset (concat (map dk_files ds)) = mset (concat (map snd mods)) \<and> distinct (concat (map snd mods))
     \<and> set (concat (map snd mods)) \<inter> set seen = {} \<and> list_all (domain_ok (map fst mods)) ds"
  using assms
proof (induction n seen mods arbitrary: ds rule: skeleton_loop.induct)
  case (2 n seen m raw mods)
  from "2.prems" obtain files ds1 ds2 where
    files: "module_files_of seen m raw = Inr files" and ds1: "module_domains n m files = Inr ds1"
    and ds2: "skeleton_loop n (seen @ files) mods = Inr ds2" and ds: "ds = ds1 @ ds2"
    and safe: "domain_path_is_safe m = Inr m"
    by (auto simp: bind_Inr map_sum_Inr dest: domain_path_is_safe_id)
  note f = module_files_of_Inr [OF files]
  have d1: "mset (concat (map dk_files ds1)) = mset files \<and> list_all (domain_ok [m]) ds1"
    using module_domains_Inr [OF ds1] f by blast
  note d2 = "2.IH" [OF ds2]
  have sets: "set files = set raw"
    using f by (metis mset_eq_setD)
  show ?case
    using f d1 d2 sets domain_ok_mono [of "[m]" ds1 "m # map fst mods"] domain_ok_mono [of "map fst mods" ds2 "m # map fst mods"]
    by (auto simp: ds)
qed simp

section \<open>Exact coverage\<close>

lemma set_dup_loop:
  "set (dup_loop seen dups ps) = set dups \<union> {p \<in> set ps. p \<in> set seen \<or> 1 < count_list ps p}"
proof (induction ps arbitrary: seen dups)
  case (Cons q ps)
  have "1 < count_list (q # ps) p \<longleftrightarrow> (if p = q then p \<in> set ps else 1 < count_list ps p)" for p
    using count_list_0_iff [of ps p] by auto
  then show ?case
    using count_list_0_iff [of ps] by (auto simp: Cons)
qed simp

lemma set_duplicates: "set (duplicates ps) = {p. 1 < count_list ps p}"
proof -
  have "p \<in> set ps" if "1 < count_list ps p" for p
    using that count_list_0_iff [of ps p] by auto
  then show ?thesis
    by (auto simp: duplicates_def set_dup_loop)
qed

lemma no_duplicates_iff: "(\<forall>p. \<not> 1 < count_list ps p) \<longleftrightarrow> distinct ps"
proof -
  have "count_list ps p = count (mset ps) p" for p
    by (induction ps) auto
  then show ?thesis
    unfolding distinct_count_atmost_1 by (metis Suc_lessI count_eq_zero_iff less_numeral_extra(4) linorder_neqE_nat mset_eq_setD not_less_zero One_nat_def count_mset_0_iff)
qed

lemma coverage_facts:
  assumes "validate_exact_coverage skeleton expected = Inr r"
  defines "files \<equiv> concat (map dk_files skeleton)"
  shows "set (cv_missing_files r) = set expected - set files"
    and "set (cv_unknown_files r) = set files - set expected"
    and "set (cv_duplicate_files r) = {p. 1 < count_list expected p \<or> 1 < count_list files p}"
    and "cv_valid r \<longleftrightarrow> distinct expected \<and> distinct files \<and> set files = set expected"
proof -
  have r: "r = \<lparr>cv_valid = (cv_missing_files r = [] \<and> cv_unknown_files r = [] \<and> cv_duplicate_files r = []
                  \<and> length files = length (sorted_set expected)),
       cv_missing_files = filter (\<lambda>p. p \<notin> set files) (sorted_set expected),
       cv_duplicate_files = sorted_set (duplicates expected @ duplicates files),
       cv_unknown_files = filter (\<lambda>p. p \<notin> set expected) (sorted_set files)\<rparr>"
    using assms(1) by (auto simp: validate_exact_coverage_def bind_Inr normalize_ok_iff files_def Let_def)
  show missing: "set (cv_missing_files r) = set expected - set files"
    by (subst r) auto
  show unknown: "set (cv_unknown_files r) = set files - set expected"
    by (subst r) auto
  show dups: "set (cv_duplicate_files r) = {p. 1 < count_list expected p \<or> 1 < count_list files p}"
    by (subst r) (auto simp: set_duplicates)
  have "cv_duplicate_files r = [] \<longleftrightarrow> distinct expected \<and> distinct files"
    using dups by (auto simp: no_duplicates_iff [symmetric] set_empty [symmetric] simp del: set_empty)
  moreover have "cv_missing_files r = [] \<longleftrightarrow> set expected \<subseteq> set files" "cv_unknown_files r = [] \<longleftrightarrow> set files \<subseteq> set expected"
    using missing unknown by (auto simp flip: set_empty)
  moreover have "length files = length (sorted_set expected)" if "distinct files" "set files = set expected"
    using that by (simp add: distinct_card [symmetric])
  ultimately show "cv_valid r \<longleftrightarrow> distinct expected \<and> distinct files \<and> set files = set expected"
    by (subst r) auto
qed

text \<open>The coverage test of an exploration accepts exactly when neither side repeats a path and both list
  the same files; otherwise its three lists are exactly the files that are expected and missing, reported
  and unknown, and repeated on either side.\<close>

theorem coverage_exact:
  assumes "validate_exact_coverage skeleton expected = Inr r"
  shows "(cv_valid r \<longleftrightarrow> distinct expected \<and> distinct (concat (map dk_files skeleton))
            \<and> set (concat (map dk_files skeleton)) = set expected)
    \<and> set (cv_missing_files r) = set expected - set (concat (map dk_files skeleton))
    \<and> set (cv_unknown_files r) = set (concat (map dk_files skeleton)) - set expected
    \<and> set (cv_duplicate_files r) = {p. 1 < count_list expected p \<or> 1 < count_list (concat (map dk_files skeleton)) p}"
  using coverage_facts [OF assms] by blast

theorem coverage_exact_witness:
  "\<exists>r. validate_exact_coverage [\<lparr>dk_domain_path = ''a'', dk_files = [''a/x'', ''a/x'', ''a/y'']\<rparr>] [''a/x'', ''b''] = Inr r
     \<and> \<not> cv_valid r \<and> set (cv_missing_files r) = {''b''} \<and> set (cv_unknown_files r) = {''a/y''}"
proof -
  obtain r where r: "validate_exact_coverage [\<lparr>dk_domain_path = ''a'', dk_files = [''a/x'', ''a/x'', ''a/y'']\<rparr>] [''a/x'', ''b''] = Inr r"
    by (simp add: validate_exact_coverage_def bind_Inr normalize_ok_iff Let_def check_repo_path_def unsafe_segments_def)
  show ?thesis
    using coverage_exact [OF r] r by auto
qed

lemma normalize_okI: "(\<And>p. p \<in> set ps \<Longrightarrow> check_repo_path p = None) \<Longrightarrow> normalize_repo_relative_paths ps = Inr (sorted_set ps)"
  by (simp add: normalize_ok_iff)

lemma skeleton_loop_paths:
  "skeleton_loop n seen mods = Inr ds \<Longrightarrow> p \<in> set (concat (map snd mods)) \<Longrightarrow> check_repo_path p = None"
  by (induction n seen mods arbitrary: ds rule: skeleton_loop.induct)
    (auto simp: bind_Inr map_sum_Inr module_files_of_def normalize_ok_iff split: if_splits)

lemma mset_concat_snd: "mset (concat (map snd xs)) = \<Sum>\<^sub># (image_mset (mset \<circ> snd) (mset xs))"
  by (induction xs) auto

text \<open>C19: a skeleton that is built splits the files of the modules into nonempty domains: every file is in
  exactly one domain, every file lies under the path of its domain (a file that is itself named like a module
  apart), the fan-out limit holds, and the coverage test accepts it for the files it was built from.\<close>

theorem skeleton_partitions:
  assumes "build_domain_skeleton module_files max_files max_fanout = Inr ds"
  shows "mset (concat (map dk_files ds)) = mset (concat (map snd module_files)) \<and> distinct (concat (map dk_files ds))
    \<and> (\<forall>d \<in> set ds. dk_files d \<noteq> [] \<and> (\<forall>f \<in> set (dk_files d). f \<in> fst ` set module_files \<or> in_domain (dk_domain_path d) f))
    \<and> int (length ds) \<le> max_fanout
    \<and> (\<exists>r. validate_exact_coverage ds (concat (map snd module_files)) = Inr r \<and> cv_valid r)"
proof -
  let ?mods = "sort_key fst module_files" and ?files = "concat (map snd module_files)"
  have loop: "skeleton_loop (nat max_files) [] ?mods = Inr ds" and fan: "int (length ds) \<le> max_fanout"
    using assms by (auto simp: build_domain_skeleton_def bind_Inr split: if_splits)
  note d = skeleton_loop_Inr [OF loop]
  have "mset (concat (map snd ?mods)) = mset ?files"
    by (simp add: mset_concat_snd)
  then have files: "mset (concat (map dk_files ds)) = mset ?files" "distinct (concat (map dk_files ds))"
    using d by (auto dest: mset_eq_imp_distinct_iff)
  have sets: "set (concat (map dk_files ds)) = set ?files" and dist: "distinct ?files"
    using mset_eq_setD [OF files(1)] mset_eq_imp_distinct_iff [OF files(1)] files(2) by blast+
  have "check_repo_path p = None" if "p \<in> set ?files" for p
    using skeleton_loop_paths [OF loop, of p] that by simp
  then have "normalize_repo_relative_paths ?files = Inr (sorted_set ?files)"
    "normalize_repo_relative_paths (concat (map dk_files ds)) = Inr (sorted_set (concat (map dk_files ds)))"
    using sets by (blast intro: normalize_okI)+
  then obtain r where r: "validate_exact_coverage ds ?files = Inr r"
    by (simp add: validate_exact_coverage_def Let_def)
  have "cv_valid r"
    using coverage_facts(4) [OF r] files sets dist by simp
  then show ?thesis
    using d files fan r by (auto simp: list_all_iff domain_ok_def)
qed

theorem skeleton_partitions_witness:
  "\<exists>ds. build_domain_skeleton [(''b'', [''b/z'']), (''a'', [''a/x/1'', ''a/x/2'', ''a/y/3''])] 2 6 = Inr ds
     \<and> map dk_domain_path ds = [''a/x'', ''a/y'', ''b''] \<and> distinct (concat (map dk_files ds))"
proof -
  have b: "build_domain_skeleton [(''b'', [''b/z'']), (''a'', [''a/x/1'', ''a/x/2'', ''a/y/3''])] 2 6 =
    Inr [\<lparr>dk_domain_path = ''a/x'', dk_files = [''a/x/1'', ''a/x/2'']\<rparr>,
         \<lparr>dk_domain_path = ''a/y'', dk_files = [''a/y/3'']\<rparr>, \<lparr>dk_domain_path = ''b'', dk_files = [''b/z'']\<rparr>]"
    by code_simp
  show ?thesis
    using skeleton_partitions [OF b] b by simp
qed

section \<open>Consistent dossiers\<close>

text \<open>An anchor of a section is acceptable.\<close>

definition anchor_ok :: "spec_scope \<Rightarrow> string list \<Rightarrow> string \<Rightarrow> json \<Rightarrow> bool" where
  "anchor_ok scope files section anchor \<longleftrightarrow>
     (\<exists>path a b. parse_anchor anchor = Inr (path, a, b)
        \<and> (section = ''semantic_modules'' \<longrightarrow> path \<in> set files \<and> scope_includes_path scope path))"

lemma concat_enum_Nil: "concat (map (\<lambda>(j, x). f j x) (List.enumerate n xs)) = [] \<longleftrightarrow> (\<forall>j < length xs. f (n + j) (xs ! j) = [])"
proof (induction xs arbitrary: n)
  case (Cons x xs)
  then show ?case by (simp add: All_less_Suc2)
qed simp

lemma anchor_reasons_Nil: "anchor_reasons scope files section i j anchor = [] \<longleftrightarrow> anchor_ok scope files section anchor"
  by (cases "parse_anchor anchor") (auto simp: anchor_reasons_def anchor_ok_def split: if_splits)

lemma entry_reasons_Nil:
  "entry_reasons scope files section i e = [] \<longleftrightarrow>
     (if de_anchors e = [] then de_advisory e else list_all (anchor_ok scope files section) (de_anchors e))"
proof (cases "de_anchors e = []")
  case False
  then show ?thesis
    by (simp only: entry_reasons_def concat_enum_Nil anchor_reasons_Nil list_all_length add_0 if_False)
qed (simp add: entry_reasons_def)

lemma section_reasons_Nil:
  "concat (map (\<lambda>(i, e). entry_reasons scope files section i e) (enum_list entries)) = [] \<longleftrightarrow>
     (\<forall>e \<in> set entries. if de_anchors e = [] then de_advisory e else list_all (anchor_ok scope files section) (de_anchors e))"
  by (simp only: concat_enum_Nil entry_reasons_Nil all_set_conv_all_nth)

lemma ordered_range_Inr: "ordered_range p ls = Inr (q, a, b) \<Longrightarrow> q = p \<and> 1 \<le> a \<and> a \<le> b"
  by (cases "(p, ls)" rule: ordered_range.cases) (auto split: if_splits)

lemma parse_anchor_Inr: "parse_anchor anchor = Inr (path, a, b) \<Longrightarrow> check_repo_path path = None \<and> 1 \<le> a \<and> a \<le> b"
  by (cases anchor)
    (auto simp: parse_anchor_def bind_Inr anchor_path_def validate_repo_relative_path_iff dest!: ordered_range_Inr split: json.splits)

text \<open>A dossier passes the mechanical check exactly when no conflict is left and, in every section, each entry
  without anchors is advisory and each anchor names a safe path and an ordered range of lines; the anchors of
  semantic modules must also name analysed files inside the scope of the Spec.\<close>

theorem dossier_consistent_iff:
  assumes "check_dossier_consistency dossier scope f1_files conflicts = Inr r"
  shows "dc_valid r \<longleftrightarrow> conflicts = 0
    \<and> (\<forall>(section, entries) \<in> set (dossier_sections dossier). \<forall>e \<in> set entries.
         (de_anchors e = [] \<longrightarrow> de_advisory e)
         \<and> (\<forall>anchor \<in> set (de_anchors e). \<exists>path a b. parse_anchor anchor = Inr (path, a, b)
              \<and> check_repo_path path = None \<and> 1 \<le> a \<and> a \<le> b
              \<and> (section = ''semantic_modules'' \<longrightarrow> path \<in> set f1_files \<and> scope_includes_path scope path)))"
proof -
  have f1: "anchor_ok scope (sorted_set f1_files) = anchor_ok scope f1_files"
    by (intro ext) (simp add: anchor_ok_def)
  have sections: "concat (map (\<lambda>(section, entries). concat (map (\<lambda>(i, e). entry_reasons scope (sorted_set f1_files) section i e)
        (enum_list entries))) ss) = [] \<longleftrightarrow>
      (\<forall>(section, entries) \<in> set ss. \<forall>e \<in> set entries.
        if de_anchors e = [] then de_advisory e else list_all (anchor_ok scope f1_files section) (de_anchors e))" for ss
  proof (induction ss)
    case (Cons p ss)
    then show ?case
      by (cases p) (simp only: list.map concat.simps append_is_Nil_conv prod.case section_reasons_Nil f1 set_simps ball_simps)
  qed simp
  have r: "dc_valid r \<longleftrightarrow> conflicts = 0 \<and> (\<forall>(section, entries) \<in> set (dossier_sections dossier). \<forall>e \<in> set entries.
      if de_anchors e = [] then de_advisory e else list_all (anchor_ok scope f1_files section) (de_anchors e))"
    unfolding sections [symmetric] using assms
    by (auto simp: check_dossier_consistency_def bind_Inr normalize_ok_iff Let_def simp del: concat_eq_Nil_conv split: if_splits)
  have entry: "(if de_anchors e = [] then de_advisory e else list_all (anchor_ok scope f1_files s) (de_anchors e)) \<longleftrightarrow>
      (de_anchors e = [] \<longrightarrow> de_advisory e)
      \<and> (\<forall>anchor \<in> set (de_anchors e). \<exists>path a b. parse_anchor anchor = Inr (path, a, b)
           \<and> check_repo_path path = None \<and> 1 \<le> a \<and> a \<le> b
           \<and> (s = ''semantic_modules'' \<longrightarrow> path \<in> set f1_files \<and> scope_includes_path scope path))" for s e
    by (auto simp: list_all_iff anchor_ok_def dest: parse_anchor_Inr) (meson parse_anchor_Inr)+
  show ?thesis
    unfolding r entry ..
qed

definition ex_dossier :: understanding_dossier where
  "ex_dossier =
     \<lparr>ud_architecture_narrative = [], ud_semantic_modules = [\<lparr>de_kind = ''k'', de_content = ''c'',
        de_anchors = [JObj [(''file'', JStr ''b''), (''start_line'', JInt 1), (''end_line'', JInt 3)]], de_advisory = False\<rparr>],
      ud_dependency_resolutions = [], ud_test_map = [], ud_risk_hotspots = [], ud_strategy_advice = [],
      ud_coverage_self_report = [], ud_budget_tier = ''LOW''\<rparr>"

theorem dossier_consistent_iff_witness:
  "\<exists>r. check_dossier_consistency ex_dossier \<lparr>sc_include = [''b''], sc_exclude = []\<rparr> [''b''] 0 = Inr r \<and> dc_valid r"
proof -
  let ?check = "check_dossier_consistency ex_dossier \<lparr>sc_include = [''b''], sc_exclude = []\<rparr> [''b''] 0"
  have "normalize_repo_relative_paths [''b''] = Inr [''b'']"
    by code_simp
  then obtain r where r: "?check = Inr r"
    by (simp add: check_dossier_consistency_def)
  have safe: "check_repo_path ''b'' = None"
    by code_simp
  have "parse_anchor (JObj [(''file'', JStr ''b''), (''start_line'', JInt 1), (''end_line'', JInt 3)]) = Inr (''b'', 1, 3)"
    by (simp add: parse_anchor_def anchor_path_def anchor_lines_def jget_def validate_repo_relative_path_iff [of "''b''" "''b''", THEN iffD2] safe
        is_object_def line_of_def)
  moreover have "scope_includes_path \<lparr>sc_include = [''b''], sc_exclude = []\<rparr> ''b''"
    by code_simp
  ultimately show ?thesis
    using dossier_consistent_iff [OF r] r safe by (simp add: ex_dossier_def dossier_sections_def)
qed

end
