(* ===== verification/Draft_Models.thy ===== *)
theory Draft_Models
  imports Draft_Validation Verification_Checks
begin

text \<open>
  \<open>runtime/draft_models.py\<close> and the artifacts of \<open>core/models/common.py\<close> it carries: the closed contracts of
  the drafting workflow with their validators. A constructor returns \<open>Inl\<close> where Pydantic raises
  \<open>ValidationError\<close> (a \<open>ValueError\<close>). The RFC 8785 serialiser and \<open>hashlib.sha256\<close> are parameters: the first
  returns \<open>None\<close> on a value it refuses.
\<close>

section \<open>Enumerations\<close>

datatype read_only_draft_tool = ReadFileTool | QuerySourceAstTool | ExecTool

fun read_only_draft_tool_value :: "read_only_draft_tool \<Rightarrow> string" where
  "read_only_draft_tool_value ReadFileTool = ''ReadFile''"
| "read_only_draft_tool_value QuerySourceAstTool = ''QuerySourceAst''"
| "read_only_draft_tool_value ExecTool = ''Exec''"

datatype draft_stage = Explore | Align | Draft | Calibrate | Confirmed

fun draft_stage_value :: "draft_stage \<Rightarrow> string" where
  "draft_stage_value Explore = ''EXPLORE''"
| "draft_stage_value Align = ''ALIGN''"
| "draft_stage_value Draft = ''DRAFT''"
| "draft_stage_value Calibrate = ''CALIBRATE''"
| "draft_stage_value Confirmed = ''CONFIRMED''"

definition text_within :: "nat \<Rightarrow> string \<Rightarrow> bool" where
  "text_within maximum s \<longleftrightarrow> s \<noteq> [] \<and> length (code_points s) \<le> maximum"

definition invalid_model :: "string \<Rightarrow> py_exn" where
  "invalid_model name = ValueError (''validation error for '' @ name)"

section \<open>Exploration\<close>

datatype highlight_kind = RiskHotspot | LargeFile | ImportWeight

record focus_highlight =
  fh_path :: string
  fh_kind :: highlight_kind
  fh_reason :: string

definition focus_highlight_init :: "focus_highlight \<Rightarrow> focus_highlight res" where
  "focus_highlight_init h =
     bind_res (validate_repo_relative_path (fh_path h)) (\<lambda>path.
       if \<not> text_within 1024 (fh_reason h) then Inl (invalid_model ''FocusHighlight'') else Inr (h\<lparr>fh_path := path\<rparr>))"

record focus_brief =
  fb_domain_paths :: "string list"
  fb_highlights :: "focus_highlight list"
  fb_budget_hint :: string

definition focus_brief_init :: "focus_brief \<Rightarrow> focus_brief res" where
  "focus_brief_init b =
     bind_res (normalize_repo_relative_paths (fb_domain_paths b)) (\<lambda>paths.
     bind_res (traverse focus_highlight_init (fb_highlights b)) (\<lambda>highlights.
       if paths = [] \<or> \<not> text_within 256 (fb_budget_hint b) then Inl (invalid_model ''FocusBrief'')
       else Inr (b\<lparr>fb_domain_paths := paths, fb_highlights := highlights\<rparr>)))"

datatype reassignment_op = Merge | Split | Refocus

record explore_reassignment =
  er_op :: reassignment_op
  er_domain_paths :: "string list"
  er_reason_summary :: string
  er_focus_brief :: focus_brief

definition explore_reassignment_init :: "explore_reassignment \<Rightarrow> explore_reassignment res" where
  "explore_reassignment_init a =
     bind_res (normalize_repo_relative_paths (er_domain_paths a)) (\<lambda>paths.
     bind_res (focus_brief_init (er_focus_brief a)) (\<lambda>brief.
       if paths = [] \<or> \<not> text_within 2048 (er_reason_summary a) then Inl (invalid_model ''ExploreReassignment'')
       else Inr (a\<lparr>er_domain_paths := paths, er_focus_brief := brief\<rparr>)))"

record exploration_report =
  xr_domain_path :: string
  xr_anchors :: "source_range list"
  xr_coverage :: "string list"
  xr_confidence_reason :: string
  xr_unresolved_conflict_count :: int

definition exploration_report_init :: "exploration_report \<Rightarrow> exploration_report res" where
  "exploration_report_init r =
     bind_res (domain_path_is_safe (xr_domain_path r)) (\<lambda>path.
     bind_res (traverse validate_repo_relative_path (xr_coverage r)) (\<lambda>files.
       if xr_anchors r = [] \<or> list_ex (\<lambda>a. check_source_range a = None) (xr_anchors r) \<or> files = []
          \<or> \<not> text_within 4096 (xr_confidence_reason r) \<or> xr_unresolved_conflict_count r < 0
       then Inl (invalid_model ''ExplorationReport'')
       else Inr (r\<lparr>xr_domain_path := path, xr_coverage := files\<rparr>)))"

record exploration_merge =
  em_reports :: "exploration_report list"
  em_coverage :: coverage_result
  em_unresolved_conflict_count :: int

definition exploration_merge_init :: "exploration_merge \<Rightarrow> exploration_merge res" where
  "exploration_merge_init e =
     (if em_reports e = [] \<or> em_unresolved_conflict_count e < 0 then Inl (invalid_model ''ExplorationMerge'') else Inr e)"

section \<open>Artifacts\<close>

record rulebook_entry =
  re_kind :: string
  re_content :: string
  re_source :: string
  re_rationale_ref :: "artifact_ref option"
  re_advisory :: bool

record migration_rulebook =
  mr_entries :: "rulebook_entry list"
  mr_version :: int

record spec_artifact =
  sa_spec :: json
  sa_canonical_bytes :: string
  sa_canonical_sha256 :: string

record draft_artifacts =
  da_spec :: spec_artifact
  da_understanding_dossier :: understanding_dossier
  da_target_project_blueprint :: target_project_blueprint
  da_migration_rulebook :: migration_rulebook

definition draft_artifacts_init :: "(string \<Rightarrow> string) \<Rightarrow> draft_artifacts \<Rightarrow> draft_artifacts res" where
  "draft_artifacts_init sha a =
     (if sha (sa_canonical_bytes (da_spec a)) \<noteq> sa_canonical_sha256 (da_spec a)
      then Inl (ValueError ''SpecArtifact canonical hash does not match its bytes'')
      else Inr a)"

text \<open>\<open>model_dump(mode="json")\<close> of the three models that are serialised.\<close>

definition dump_strs :: "string list \<Rightarrow> json" where
  "dump_strs ss = JArr (map JStr ss)"

definition dump_dossier_entry :: "dossier_entry \<Rightarrow> json" where
  "dump_dossier_entry e =
     JObj [(''kind'', JStr (de_kind e)), (''content'', JStr (de_content e)), (''anchors'', JArr (de_anchors e)),
           (''advisory'', JBool (de_advisory e))]"

definition dump_dossier :: "understanding_dossier \<Rightarrow> json" where
  "dump_dossier d =
     JObj (map (apsnd (JArr \<circ> map dump_dossier_entry)) (dossier_sections d)
           @ [(''coverage_self_report'', JObj (ud_coverage_self_report d)), (''budget_tier'', JStr (ud_budget_tier d))])"

definition dump_blueprint :: "target_project_blueprint \<Rightarrow> json" where
  "dump_blueprint b =
     JObj [(''module_boundaries'', JArr (map JObj (bp_module_boundaries b))),
           (''granularity_principles'', dump_strs (bp_granularity_principles b)),
           (''target_layout_principles'', dump_strs (bp_target_layout_principles b)),
           (''parallelism_rules'', dump_strs (bp_parallelism_rules b)),
           (''generated_artifact_policy'', JStr (bp_generated_artifact_policy b)), (''version'', JInt (bp_version b))]"

definition dump_artifact_ref :: "artifact_ref \<Rightarrow> json" where
  "dump_artifact_ref r =
     JObj [(''sha256'', JStr (ar_sha256 r)), (''size'', JInt (ar_size r)), (''media_type'', JStr (ar_media_type r))]"

definition dump_rulebook_entry :: "rulebook_entry \<Rightarrow> json" where
  "dump_rulebook_entry e =
     JObj [(''kind'', JStr (re_kind e)), (''content'', JStr (re_content e)), (''source'', JStr (re_source e)),
           (''rationale_ref'', case re_rationale_ref e of None \<Rightarrow> JNull | Some r \<Rightarrow> dump_artifact_ref r),
           (''advisory'', JBool (re_advisory e))]"

definition dump_rulebook :: "migration_rulebook \<Rightarrow> json" where
  "dump_rulebook r = JObj [(''entries'', JArr (map dump_rulebook_entry (mr_entries r))), (''version'', JInt (mr_version r))]"

definition canonical_json_bytes :: "(json \<Rightarrow> string option) \<Rightarrow> json \<Rightarrow> string res" where
  "canonical_json_bytes rfc8785 v =
     (case rfc8785 v of None \<Rightarrow> Inl (ValueError ''value is not canonicalizable JSON'') | Some b \<Rightarrow> Inr b)"

section \<open>Revisions\<close>

datatype draft_artifact_name = SpecName | DossierName | BlueprintName | RulebookName

record artifact_snapshot =
  as_name :: draft_artifact_name
  as_version :: int
  as_sha256 :: string
  as_size :: int
  as_media_type :: string

definition artifact_snapshot_init :: "artifact_snapshot \<Rightarrow> artifact_snapshot res" where
  "artifact_snapshot_init s =
     (if as_version s < 1 \<or> \<not> is_sha256 (as_sha256 s) \<or> as_size s < 0 \<or> \<not> text_within 256 (as_media_type s)
      then Inl (invalid_model ''ArtifactSnapshot'') else Inr s)"

record task_draft_revision =
  tr_revision_id :: uuid
  tr_revision_number :: int
  tr_artifacts :: draft_artifacts
  tr_artifact_snapshots :: "artifact_snapshot list"

definition task_draft_revision_init :: "task_draft_revision \<Rightarrow> task_draft_revision res" where
  "task_draft_revision_init r =
     (if tr_revision_number r < 1 \<or> length (tr_artifact_snapshots r) \<noteq> 4 then Inl (invalid_model ''TaskDraftRevision'')
      else if length (remdups (map as_name (tr_artifact_snapshots r))) \<noteq> 4
      then Inl (ValueError ''a draft revision must snapshot each artifact exactly once'')
      else Inr r)"

section \<open>Questions and answers\<close>

record question_option =
  qo_key :: string
  qo_label :: string
  qo_impact :: string
  qo_recommended :: bool

definition question_option_ok :: "question_option \<Rightarrow> bool" where
  "question_option_ok q \<longleftrightarrow> text_within 64 (qo_key q) \<and> text_within 256 (qo_label q) \<and> text_within 1024 (qo_impact q)"

record ask_user_question =
  aq_question_id :: uuid
  aq_revision_id :: uuid
  aq_prompt :: string
  aq_options :: "question_option list"
  aq_allow_free_text :: bool

definition ask_user_question_init :: "ask_user_question \<Rightarrow> ask_user_question res" where
  "ask_user_question_init q =
     (if \<not> text_within 4096 (aq_prompt q) \<or> length (aq_options q) < 2 \<or> \<not> list_all question_option_ok (aq_options q)
      then Inl (invalid_model ''AskUserQuestion'')
      else if \<not> distinct (map qo_key (aq_options q)) then Inl (ValueError ''AskUser options must have unique keys'')
      else if length (filter qo_recommended (aq_options q)) \<noteq> 1
      then Inl (ValueError ''AskUser must have exactly one recommended option'')
      else Inr q)"

record ask_user_answer =
  aa_question_id :: uuid
  aa_revision_id :: uuid
  aa_selected_option :: "string option"
  aa_free_text :: "string option"

definition ask_user_answer_init :: "ask_user_answer \<Rightarrow> ask_user_answer res" where
  "ask_user_answer_init a =
     (if \<not> pred_option (text_within 64) (aa_selected_option a) \<or> \<not> pred_option (text_within 4096) (aa_free_text a)
      then Inl (invalid_model ''AskUserAnswer'')
      else if (aa_selected_option a = None) = (aa_free_text a = None)
      then Inl (ValueError ''an AskUser answer must select one option or provide free text'')
      else Inr a)"

datatype draft_turn = DraftQuestionTurn ask_user_question | DraftArtifactsTurn draft_artifacts

datatype draft_operation = ReadFileOp | QuerySourceAstOp

record draft_exec_request =
  dx_operation :: draft_operation
  dx_path :: "string option"
  dx_query :: "string option"

definition draft_exec_request_init :: "draft_exec_request \<Rightarrow> draft_exec_request res" where
  "draft_exec_request_init r =
     bind_res (case dx_path r of None \<Rightarrow> Inr None | Some p \<Rightarrow> map_sum id Some (validate_repo_relative_path p)) (\<lambda>path.
       if \<not> pred_option (text_within 4096) (dx_query r) then Inl (invalid_model ''DraftExecRequest'')
       else if dx_operation r = ReadFileOp
       then if path = None \<or> dx_query r \<noteq> None then Inl (ValueError ''ReadFile Exec requires only one repository path'')
            else Inr (r\<lparr>dx_path := path\<rparr>)
       else if path = None \<or> dx_query r = None then Inl (ValueError ''QuerySourceAst Exec requires a path and query'')
       else Inr (r\<lparr>dx_path := path\<rparr>))"

section \<open>Freezing and calibration\<close>

record draft_freeze_receipt =
  fz_revision_id :: uuid
  fz_revision_number :: int
  fz_artifact_snapshots :: "artifact_snapshot list"
  fz_frozen_artifact_bundle :: frozen_artifact_bundle
  fz_answer_question_ids :: "uuid list"

record trial_translation =
  tt_file_path :: string
  tt_constrained_output :: string
  tt_freeform_output :: string

definition trial_translation_init :: "trial_translation \<Rightarrow> trial_translation res" where
  "trial_translation_init t =
     bind_res (validate_repo_relative_path (tt_file_path t)) (\<lambda>path.
       if tt_constrained_output t = [] \<or> tt_freeform_output t = [] then Inl (invalid_model ''TrialTranslation'')
       else Inr (t\<lparr>tt_file_path := path\<rparr>))"

end
