(* ===== verification/Draft_Ledger.thy ===== *)
theory Draft_Ledger
  imports Draft_Models
begin

text \<open>
  \<open>DraftLedger\<close> of \<open>runtime/draft.py\<close>: the append-only ledger of draft revisions, questions and answers, and its
  restoration from persisted facts. A \<open>DraftConflictError\<close> is \<open>Conflict\<close>; every other exception is \<open>Failure\<close>. The
  identity a new revision draws from \<open>new_uuid7\<close> is an argument. An operation that raises leaves the ledger as it
  was, so only successful calls return one.

  The locale \<open>sealing_ledger\<close> is the contract the workflow relies on: operations keep an invariant and change
  nothing once the state is sealed.
\<close>

section \<open>Errors\<close>

datatype draft_error = Conflict string | Failure py_exn

type_synonym 'a dres = "draft_error + 'a"

abbreviation lift_res :: "'a res \<Rightarrow> 'a dres" where
  "lift_res r \<equiv> map_sum Failure id r"

lemma lift_Inr [simp]: "lift_res r = Inr x \<longleftrightarrow> r = Inr x"
  by (cases r) auto

section \<open>Sealing ledgers\<close>

fun run_calls :: "('o \<Rightarrow> 'l \<Rightarrow> 'e + 'l) \<Rightarrow> 'o list \<Rightarrow> 'l \<Rightarrow> 'l" where
  "run_calls exec [] l = l"
| "run_calls exec (c # cs) l = run_calls exec cs (case exec c l of Inl _ \<Rightarrow> l | Inr l' \<Rightarrow> l')"

text \<open>Every operation of a sequence is admissible in the state it is applied to.\<close>

fun admissible :: "('o \<Rightarrow> 'l \<Rightarrow> 'e + 'l) \<Rightarrow> ('o \<Rightarrow> 'l \<Rightarrow> bool) \<Rightarrow> 'o list \<Rightarrow> 'l \<Rightarrow> bool" where
  "admissible exec allowed [] l = True"
| "admissible exec allowed (c # cs) l \<longleftrightarrow>
     allowed c l \<and> admissible exec allowed cs (case exec c l of Inl _ \<Rightarrow> l | Inr l' \<Rightarrow> l')"

locale sealing_ledger =
  fixes exec :: "'o \<Rightarrow> 'l \<Rightarrow> 'e + 'l" and allowed :: "'o \<Rightarrow> 'l \<Rightarrow> bool" and inv :: "'l \<Rightarrow> bool" and sealed :: "'l \<Rightarrow> bool"
  assumes exec_keeps: "inv l \<Longrightarrow> allowed c l \<Longrightarrow> exec c l = Inr l' \<Longrightarrow> inv l'"
    and exec_sealed: "sealed l \<Longrightarrow> exec c l = Inr l' \<Longrightarrow> l' = l"
begin

lemma run_keeps: "inv l \<Longrightarrow> admissible exec allowed cs l \<Longrightarrow> inv (run_calls exec cs l)"
proof (induction cs arbitrary: l)
  case (Cons c cs)
  then show ?case
    by (cases "exec c l") (auto dest: exec_keeps)
qed simp

lemma run_sealed: "sealed l \<Longrightarrow> run_calls exec cs l = l"
proof (induction cs arbitrary: l)
  case (Cons c cs)
  then show ?case
    by (cases "exec c l") (auto dest: exec_sealed)
qed simp

lemma run_append: "run_calls exec (cs @ ds) l = run_calls exec ds (run_calls exec cs l)"
  by (induction cs arbitrary: l) simp_all

lemma sealed_prefix: "sealed (run_calls exec cs l) \<Longrightarrow> run_calls exec (cs @ ds) l = run_calls exec cs l"
  by (simp add: run_append run_sealed)

end

section \<open>State\<close>

record draft_ledger =
  dl_revisions :: "(uuid \<times> task_draft_revision) list"
  dl_current_revision_id :: "uuid option"
  dl_questions :: "(uuid \<times> ask_user_question) list"
  dl_answers :: "(uuid \<times> ask_user_answer) list"
  dl_freeze_receipt :: "draft_freeze_receipt option"

definition draft_ledger_init :: draft_ledger where
  "draft_ledger_init =
     \<lparr>dl_revisions = [], dl_current_revision_id = None, dl_questions = [], dl_answers = [], dl_freeze_receipt = None\<rparr>"

definition current_revision :: "draft_ledger \<Rightarrow> task_draft_revision option" where
  "current_revision l = Option.bind (dl_current_revision_id l) (map_of (dl_revisions l))"

definition ledger_questions :: "draft_ledger \<Rightarrow> ask_user_question list" where
  "ledger_questions l = sort_key (str_uuid \<circ> aq_question_id) (map snd (dl_questions l))"

definition ledger_answers :: "draft_ledger \<Rightarrow> ask_user_answer list" where
  "ledger_answers l = sort_key (str_uuid \<circ> aa_question_id) (map snd (dl_answers l))"

definition ledger_revisions :: "draft_ledger \<Rightarrow> task_draft_revision list" where
  "ledger_revisions l = sort_key tr_revision_number (map snd (dl_revisions l))"

section \<open>Snapshots\<close>

definition artifact_payload :: "(json \<Rightarrow> string option) \<Rightarrow> draft_artifacts \<Rightarrow> draft_artifact_name \<Rightarrow> string res" where
  "artifact_payload rfc8785 a name =
     (case name of
        SpecName \<Rightarrow> Inr (sa_canonical_bytes (da_spec a))
      | DossierName \<Rightarrow> canonical_json_bytes rfc8785 (dump_dossier (da_understanding_dossier a))
      | BlueprintName \<Rightarrow> canonical_json_bytes rfc8785 (dump_blueprint (da_target_project_blueprint a))
      | RulebookName \<Rightarrow> canonical_json_bytes rfc8785 (dump_rulebook (da_migration_rulebook a)))"

definition artifact_snapshot_of ::
  "(json \<Rightarrow> string option) \<Rightarrow> (string \<Rightarrow> string) \<Rightarrow> draft_artifacts \<Rightarrow> int \<Rightarrow> draft_artifact_name \<Rightarrow> artifact_snapshot res" where
  "artifact_snapshot_of rfc8785 sha a version name =
     bind_res (artifact_payload rfc8785 a name) (\<lambda>payload.
       artifact_snapshot_init \<lparr>as_name = name, as_version = version, as_sha256 = sha payload,
                               as_size = int (length payload), as_media_type = ''application/json''\<rparr>)"

definition artifact_snapshots ::
  "(json \<Rightarrow> string option) \<Rightarrow> (string \<Rightarrow> string) \<Rightarrow> draft_artifacts \<Rightarrow> int \<Rightarrow> artifact_snapshot list res" where
  "artifact_snapshots rfc8785 sha a version =
     traverse (artifact_snapshot_of rfc8785 sha a version) [SpecName, DossierName, BlueprintName, RulebookName]"

definition snapshot_ref :: "artifact_snapshot \<Rightarrow> artifact_ref" where
  "snapshot_ref s = \<lparr>ar_sha256 = as_sha256 s, ar_size = as_size s, ar_media_type = as_media_type s\<rparr>"

definition bundle_ref :: "artifact_snapshot list \<Rightarrow> draft_artifact_name \<Rightarrow> artifact_ref res" where
  "bundle_ref snapshots name =
     (case map_of (py_dict (map (\<lambda>s. (as_name s, snapshot_ref s)) snapshots)) name of
        None \<Rightarrow> Inl (KeyError ''artifact'') | Some r \<Rightarrow> Inr r)"

definition frozen_artifact_bundle_of :: "artifact_snapshot list \<Rightarrow> frozen_artifact_bundle res" where
  "frozen_artifact_bundle_of snapshots =
     bind_res (bundle_ref snapshots SpecName) (\<lambda>s. bind_res (bundle_ref snapshots DossierName) (\<lambda>d.
     bind_res (bundle_ref snapshots BlueprintName) (\<lambda>b. bind_res (bundle_ref snapshots RulebookName) (\<lambda>r.
       Inr \<lparr>fb_spec = s, fb_understanding_dossier = d, fb_target_project_blueprint = b, fb_migration_rulebook = r\<rparr>))))"

section \<open>Operations\<close>

definition require_current_revision :: "draft_ledger \<Rightarrow> uuid \<Rightarrow> task_draft_revision dres" where
  "require_current_revision l revision_id =
     (case current_revision l of
        None \<Rightarrow> Inl (Conflict ''operation must target the current revision'')
      | Some r \<Rightarrow> if tr_revision_id r \<noteq> revision_id then Inl (Conflict ''operation must target the current revision'')
          else Inr r)"

definition new_revision ::
  "(json \<Rightarrow> string option) \<Rightarrow> (string \<Rightarrow> string) \<Rightarrow> uuid \<Rightarrow> draft_artifacts \<Rightarrow> int \<Rightarrow> draft_ledger
     \<Rightarrow> (task_draft_revision \<times> draft_ledger) dres" where
  "new_revision rfc8785 sha fresh artifacts number l =
     (if dl_freeze_receipt l \<noteq> None then Inl (Conflict ''draft is already frozen'')
      else bind_res (lift_res (artifact_snapshots rfc8785 sha artifacts number)) (\<lambda>snapshots.
        bind_res (lift_res (task_draft_revision_init
            \<lparr>tr_revision_id = fresh, tr_revision_number = number, tr_artifacts = artifacts,
             tr_artifact_snapshots = snapshots\<rparr>)) (\<lambda>r.
          Inr (r, l\<lparr>dl_revisions := AList.update fresh r (dl_revisions l), dl_current_revision_id := Some fresh\<rparr>))))"

definition revise ::
  "(json \<Rightarrow> string option) \<Rightarrow> (string \<Rightarrow> string) \<Rightarrow> uuid \<Rightarrow> uuid \<Rightarrow> draft_artifacts \<Rightarrow> draft_ledger
     \<Rightarrow> (task_draft_revision \<times> draft_ledger) dres" where
  "revise rfc8785 sha fresh revision_id artifacts l =
     bind_res (require_current_revision l revision_id) (\<lambda>current.
       if dl_freeze_receipt l \<noteq> None then Inl (Conflict ''draft is already frozen'')
       else bind_res (lift_res (artifact_snapshots rfc8785 sha artifacts (tr_revision_number current))) (\<lambda>snapshots.
         if snapshots = tr_artifact_snapshots current then Inr (current, l)
         else new_revision rfc8785 sha fresh artifacts (tr_revision_number current + 1) l))"

definition create_revision ::
  "(json \<Rightarrow> string option) \<Rightarrow> (string \<Rightarrow> string) \<Rightarrow> uuid \<Rightarrow> draft_artifacts \<Rightarrow> draft_ledger
     \<Rightarrow> (task_draft_revision \<times> draft_ledger) dres" where
  "create_revision rfc8785 sha fresh artifacts l =
     (case current_revision l of
        None \<Rightarrow> new_revision rfc8785 sha fresh artifacts 1 l
      | Some r \<Rightarrow> revise rfc8785 sha fresh (tr_revision_id r) artifacts l)"

definition append_question :: "ask_user_question \<Rightarrow> draft_ledger \<Rightarrow> (ask_user_question \<times> draft_ledger) dres" where
  "append_question q l =
     bind_res (require_current_revision l (aq_revision_id q)) (\<lambda>_.
       case map_of (dl_questions l) (aq_question_id q) of
         Some previous \<Rightarrow> if previous = q then Inr (previous, l) else Inl (Conflict ''question id already exists'')
       | None \<Rightarrow> if dl_freeze_receipt l \<noteq> None then Inl (Conflict ''draft is already frozen'')
           else Inr (q, l\<lparr>dl_questions := AList.update (aq_question_id q) q (dl_questions l)\<rparr>))"

definition same_answer :: "ask_user_answer \<Rightarrow> ask_user_answer \<Rightarrow> bool" where
  "same_answer a b \<longleftrightarrow> aa_question_id a = aa_question_id b \<and> aa_revision_id a = aa_revision_id b
     \<and> aa_selected_option a = aa_selected_option b \<and> aa_free_text a = aa_free_text b"

definition validate_answer_choice :: "ask_user_question \<Rightarrow> ask_user_answer \<Rightarrow> unit dres" where
  "validate_answer_choice q a =
     (case aa_selected_option a of
        Some key \<Rightarrow> if key \<notin> qo_key ` set (aq_options q) then Inl (Conflict ''answer selects an unknown option'') else Inr ()
      | None \<Rightarrow> if \<not> aq_allow_free_text q then Inl (Conflict ''free-text answer is not allowed'') else Inr ())"

definition answer_question :: "ask_user_answer \<Rightarrow> draft_ledger \<Rightarrow> (ask_user_answer \<times> draft_ledger) dres" where
  "answer_question a l =
     bind_res (require_current_revision l (aa_revision_id a)) (\<lambda>_.
       case map_of (dl_questions l) (aa_question_id a) of
         None \<Rightarrow> Inl (Conflict ''answer references an unknown question'')
       | Some q \<Rightarrow>
           if aq_revision_id q \<noteq> aa_revision_id a then Inl (Conflict ''answer is bound to a different revision'')
           else bind_res (validate_answer_choice q a) (\<lambda>_.
             case map_of (dl_answers l) (aa_question_id a) of
               Some previous \<Rightarrow> if same_answer previous a then Inr (previous, l)
                 else Inl (Conflict ''answer conflicts with the existing answer'')
             | None \<Rightarrow> if dl_freeze_receipt l \<noteq> None then Inl (Conflict ''draft is already frozen'')
                 else Inr (a, l\<lparr>dl_answers := AList.update (aa_question_id a) a (dl_answers l)\<rparr>)))"

definition draft_freeze_receipt_init :: "draft_freeze_receipt \<Rightarrow> draft_freeze_receipt res" where
  "draft_freeze_receipt_init z =
     (if fz_revision_number z < 1 \<or> length (fz_artifact_snapshots z) \<noteq> 4 then Inl (invalid_model ''DraftFreezeReceipt'')
      else Inr z)"

text \<open>The questions of a revision; the code collects their identities in a set and sorts them by text.\<close>

definition question_ids_of :: "draft_ledger \<Rightarrow> uuid \<Rightarrow> uuid list" where
  "question_ids_of l revision_id =
     map aq_question_id (filter (\<lambda>q. aq_revision_id q = revision_id) (map snd (dl_questions l)))"

definition freeze_receipt_of :: "draft_ledger \<Rightarrow> task_draft_revision \<Rightarrow> uuid list option \<Rightarrow> draft_freeze_receipt dres" where
  "freeze_receipt_of l r answer_question_ids =
     (let expected = question_ids_of l (tr_revision_id r);
          selected = (case answer_question_ids of None \<Rightarrow> from_keys expected | Some ids \<Rightarrow> ids)
      in if \<not> distinct selected then Inl (Conflict ''freeze answer pointers must be unique'')
         else if set selected \<noteq> set expected then Inl (Conflict ''freeze must include every current question'')
         else if list_ex (\<lambda>i. i \<notin> fst ` set (dl_answers l)) selected
         then Inl (Conflict ''cannot freeze with unanswered questions'')
         else bind_res (lift_res (frozen_artifact_bundle_of (tr_artifact_snapshots r))) (\<lambda>bundle.
           lift_res (draft_freeze_receipt_init
             \<lparr>fz_revision_id = tr_revision_id r, fz_revision_number = tr_revision_number r,
              fz_artifact_snapshots = tr_artifact_snapshots r, fz_frozen_artifact_bundle = bundle,
              fz_answer_question_ids = sort_key str_uuid selected\<rparr>)))"

definition freeze_draft :: "uuid \<Rightarrow> uuid list option \<Rightarrow> draft_ledger \<Rightarrow> (draft_freeze_receipt \<times> draft_ledger) dres" where
  "freeze_draft revision_id answer_question_ids l =
     bind_res (require_current_revision l revision_id) (\<lambda>r.
       case dl_freeze_receipt l of
         Some z \<Rightarrow> if fz_revision_id z = revision_id then Inr (z, l)
           else Inl (Conflict ''only the current revision can be frozen'')
       | None \<Rightarrow> bind_res (freeze_receipt_of l r answer_question_ids) (\<lambda>z. Inr (z, l\<lparr>dl_freeze_receipt := Some z\<rparr>)))"

section \<open>Restoration\<close>

fun restore_revisions ::
  "(json \<Rightarrow> string option) \<Rightarrow> (string \<Rightarrow> string) \<Rightarrow> int \<Rightarrow> task_draft_revision list \<Rightarrow> draft_ledger \<Rightarrow> draft_ledger dres" where
  "restore_revisions rfc8785 sha expected [] l = Inr l"
| "restore_revisions rfc8785 sha expected (r # rs) l =
     (if tr_revision_number r \<noteq> expected then Inl (Conflict ''persisted Draft revisions must be contiguous'')
      else if tr_revision_id r \<in> fst ` set (dl_revisions l) then Inl (Conflict ''persisted Draft revision id is duplicated'')
      else case artifact_snapshots rfc8785 sha (tr_artifacts r) (tr_revision_number r) of
        Inl _ \<Rightarrow> Inl (Conflict ''persisted Draft revision artifacts are invalid'')
      | Inr snapshots \<Rightarrow>
          if tr_artifact_snapshots r \<noteq> snapshots then Inl (Conflict ''persisted Draft revision artifact snapshot mismatch'')
          else restore_revisions rfc8785 sha (expected + 1) rs
            (l\<lparr>dl_revisions := AList.update (tr_revision_id r) r (dl_revisions l),
               dl_current_revision_id := Some (tr_revision_id r)\<rparr>))"

fun restore_questions :: "ask_user_question list \<Rightarrow> draft_ledger \<Rightarrow> draft_ledger dres" where
  "restore_questions [] l = Inr l"
| "restore_questions (q # qs) l =
     (if aq_revision_id q \<notin> fst ` set (dl_revisions l)
      then Inl (Conflict ''persisted Draft question references an unknown revision'')
      else if aq_question_id q \<in> fst ` set (dl_questions l)
      then Inl (Conflict ''persisted Draft question id is duplicated'')
      else restore_questions qs (l\<lparr>dl_questions := AList.update (aq_question_id q) q (dl_questions l)\<rparr>))"

fun restore_answers :: "ask_user_answer list \<Rightarrow> draft_ledger \<Rightarrow> draft_ledger dres" where
  "restore_answers [] l = Inr l"
| "restore_answers (a # as) l =
     (case map_of (dl_questions l) (aa_question_id a) of
        None \<Rightarrow> Inl (Conflict ''persisted Draft answer references an unknown question'')
      | Some q \<Rightarrow>
          if aa_question_id a \<in> fst ` set (dl_answers l) then Inl (Conflict ''persisted Draft answer id is duplicated'')
          else if aa_revision_id a \<noteq> aq_revision_id q
          then Inl (Conflict ''persisted Draft answer revision does not match its question'')
          else bind_res (validate_answer_choice q a) (\<lambda>_.
            restore_answers as (l\<lparr>dl_answers := AList.update (aa_question_id a) a (dl_answers l)\<rparr>)))"

definition restore_receipt :: "draft_freeze_receipt option \<Rightarrow> draft_ledger \<Rightarrow> draft_ledger dres" where
  "restore_receipt receipt l =
     (case receipt of
        None \<Rightarrow> Inr l
      | Some z \<Rightarrow> (case freeze_draft (fz_revision_id z) (Some (fz_answer_question_ids z)) l of
            Inl (Conflict _) \<Rightarrow> Inl (Conflict ''persisted Draft freeze receipt is inconsistent'')
          | Inl e \<Rightarrow> Inl e
          | Inr (computed, l') \<Rightarrow>
              if computed \<noteq> z then Inl (Conflict ''persisted Draft freeze receipt does not match the ledger'') else Inr l'))"

definition restore ::
  "(json \<Rightarrow> string option) \<Rightarrow> (string \<Rightarrow> string) \<Rightarrow> task_draft_revision list \<Rightarrow> ask_user_question list
     \<Rightarrow> ask_user_answer list \<Rightarrow> draft_freeze_receipt option \<Rightarrow> draft_ledger dres" where
  "restore rfc8785 sha revisions questions answers receipt =
     bind_res (restore_revisions rfc8785 sha 1 (sort_key tr_revision_number revisions) draft_ledger_init) (\<lambda>l.
     bind_res (restore_questions questions l) (\<lambda>l.
     bind_res (restore_answers answers l) (restore_receipt receipt)))"

section \<open>Sequences of operations\<close>

datatype ledger_op =
    CreateRevision uuid draft_artifacts
  | Revise uuid uuid draft_artifacts
  | AppendQuestion ask_user_question
  | AnswerQuestion ask_user_answer
  | Freeze uuid "uuid list option"

fun ledger_exec ::
  "(json \<Rightarrow> string option) \<Rightarrow> (string \<Rightarrow> string) \<Rightarrow> ledger_op \<Rightarrow> draft_ledger \<Rightarrow> draft_ledger dres" where
  "ledger_exec rfc8785 sha (CreateRevision fresh a) l = map_sum id snd (create_revision rfc8785 sha fresh a l)"
| "ledger_exec rfc8785 sha (Revise fresh i a) l = map_sum id snd (revise rfc8785 sha fresh i a l)"
| "ledger_exec rfc8785 sha (AppendQuestion q) l = map_sum id snd (append_question q l)"
| "ledger_exec rfc8785 sha (AnswerQuestion a) l = map_sum id snd (answer_question a l)"
| "ledger_exec rfc8785 sha (Freeze i ids) l = map_sum id snd (freeze_draft i ids l)"

text \<open>\<open>new_uuid7\<close> does not repeat an identity.\<close>

fun ledger_allowed :: "ledger_op \<Rightarrow> draft_ledger \<Rightarrow> bool" where
  "ledger_allowed (CreateRevision fresh _) l \<longleftrightarrow> fresh \<notin> fst ` set (dl_revisions l)"
| "ledger_allowed (Revise fresh _ _) l \<longleftrightarrow> fresh \<notin> fst ` set (dl_revisions l)"
| "ledger_allowed _ _ \<longleftrightarrow> True"

section \<open>The invariant\<close>

definition keyed :: "('v \<Rightarrow> 'k) \<Rightarrow> ('k \<times> 'v) list \<Rightarrow> bool" where
  "keyed f d \<longleftrightarrow> distinct (map fst d) \<and> map fst d = map (f \<circ> snd) d"

definition revisions_ok :: "(json \<Rightarrow> string option) \<Rightarrow> (string \<Rightarrow> string) \<Rightarrow> draft_ledger \<Rightarrow> bool" where
  "revisions_ok rfc8785 sha l \<longleftrightarrow>
     keyed tr_revision_id (dl_revisions l)
     \<and> map (tr_revision_number \<circ> snd) (dl_revisions l) = map int [1..<Suc (length (dl_revisions l))]
     \<and> dl_current_revision_id l = (if dl_revisions l = [] then None else Some (fst (last (dl_revisions l))))
     \<and> (\<forall>r \<in> snd ` set (dl_revisions l).
          artifact_snapshots rfc8785 sha (tr_artifacts r) (tr_revision_number r) = Inr (tr_artifact_snapshots r))"

definition questions_ok :: "draft_ledger \<Rightarrow> bool" where
  "questions_ok l \<longleftrightarrow>
     keyed aq_question_id (dl_questions l) \<and> (\<forall>q \<in> snd ` set (dl_questions l). aq_revision_id q \<in> fst ` set (dl_revisions l))"

definition answers_ok :: "draft_ledger \<Rightarrow> bool" where
  "answers_ok l \<longleftrightarrow>
     keyed aa_question_id (dl_answers l)
     \<and> (\<forall>a \<in> snd ` set (dl_answers l). \<exists>q. map_of (dl_questions l) (aa_question_id a) = Some q
          \<and> aa_revision_id a = aq_revision_id q \<and> validate_answer_choice q a = Inr ())"

definition receipt_ok :: "draft_ledger \<Rightarrow> bool" where
  "receipt_ok l \<longleftrightarrow>
     (case dl_freeze_receipt l of None \<Rightarrow> True
      | Some z \<Rightarrow> \<exists>r. current_revision l = Some r \<and> tr_revision_id r = fz_revision_id z
          \<and> freeze_receipt_of l r (Some (fz_answer_question_ids z)) = Inr z)"

definition ledger_ok :: "(json \<Rightarrow> string option) \<Rightarrow> (string \<Rightarrow> string) \<Rightarrow> draft_ledger \<Rightarrow> bool" where
  "ledger_ok rfc8785 sha l \<longleftrightarrow> revisions_ok rfc8785 sha l \<and> questions_ok l \<and> answers_ok l \<and> receipt_ok l"

lemma keyed_fresh: "keyed f d \<Longrightarrow> f v \<notin> fst ` set d \<Longrightarrow> keyed f (AList.update (f v) v d)"
  by (simp add: keyed_def update_fresh)

lemma keyed_entry: "keyed f d \<Longrightarrow> (k, v) \<in> set d \<Longrightarrow> k = f v"
  by (auto simp: keyed_def map_eq_conv)

lemma keyed_map_of: "keyed f d \<Longrightarrow> v \<in> snd ` set d \<Longrightarrow> map_of d (f v) = Some v"
  by (auto simp: keyed_def map_eq_conv)

lemma keyed_ids:
  assumes "keyed f d"
  shows "set (map f (filter P (map snd d))) = {i. \<exists>v. map_of d i = Some v \<and> P v}"
proof -
  have "map_of d i = Some v \<longleftrightarrow> v \<in> snd ` set d \<and> f v = i" for i v
    using keyed_map_of [OF assms, of v] keyed_entry [OF assms, of i v] map_of_SomeD [of d i v] by force
  then show ?thesis by (simp add: set_filter) blast
qed

lemma ledger_ok_init: "ledger_ok rfc8785 sha draft_ledger_init"
  by (simp add: ledger_ok_def revisions_ok_def questions_ok_def answers_ok_def receipt_ok_def draft_ledger_init_def keyed_def)

lemma last_number:
  assumes "map (g \<circ> snd) d = map int [1..<Suc (length d)]" "d \<noteq> []"
  shows "g (snd (last d)) = int (length d)"
proof -
  have "g (snd (last d)) = last (map (g \<circ> snd) d)"
    using assms(2) by (simp add: last_map)
  also have "\<dots> = int (length d)"
    using assms(2) by (simp add: assms(1) last_map Suc_leI)
  finally show ?thesis .
qed

lemma current_revision_last:
  assumes "revisions_ok rfc8785 sha l"
  shows "current_revision l = (if dl_revisions l = [] then None else Some (snd (last (dl_revisions l))))"
proof (cases "dl_revisions l = []")
  case False
  then have last_in: "(fst (last (dl_revisions l)), snd (last (dl_revisions l))) \<in> set (dl_revisions l)"
    by simp
  have "distinct (map fst (dl_revisions l))"
    using assms by (simp add: revisions_ok_def keyed_def)
  then have "map_of (dl_revisions l) (fst (last (dl_revisions l))) = Some (snd (last (dl_revisions l)))"
    using last_in by (rule map_of_is_SomeI)
  with False assms show ?thesis
    by (simp add: current_revision_def revisions_ok_def)
qed (use assms in \<open>simp add: current_revision_def revisions_ok_def\<close>)

lemma require_current_Inr: "require_current_revision l i = Inr r \<longleftrightarrow> current_revision l = Some r \<and> tr_revision_id r = i"
  by (auto simp: require_current_revision_def split: option.splits)

lemma new_revision_Inr:
  assumes "new_revision rfc8785 sha fresh a n l = Inr (r, l')"
  shows "dl_freeze_receipt l = None" "tr_revision_id r = fresh" "tr_revision_number r = n" "tr_artifacts r = a"
    "artifact_snapshots rfc8785 sha a n = Inr (tr_artifact_snapshots r)"
    "l' = l\<lparr>dl_revisions := AList.update fresh r (dl_revisions l), dl_current_revision_id := Some fresh\<rparr>"
  using assms by (auto simp: new_revision_def bind_Inr task_draft_revision_init_def split: if_splits)

lemma new_revision_keeps:
  assumes "ledger_ok rfc8785 sha l" "fresh \<notin> fst ` set (dl_revisions l)"
    and "new_revision rfc8785 sha fresh a (int (length (dl_revisions l)) + 1) l = Inr (r, l')"
  shows "ledger_ok rfc8785 sha l'"
proof -
  note r = new_revision_Inr [OF assms(3)]
  have revs: "dl_revisions l' = dl_revisions l @ [(fresh, r)]"
    using r(6) assms(2) by (simp add: update_fresh)
  have "keyed tr_revision_id (dl_revisions l')"
    using keyed_fresh [of tr_revision_id "dl_revisions l" r] assms(1,2) r(2,6) by (simp add: ledger_ok_def revisions_ok_def)
  with assms(1) r revs show ?thesis
    by (auto simp: ledger_ok_def revisions_ok_def questions_ok_def answers_ok_def receipt_ok_def)
qed

lemma revise_keeps:
  assumes ok: "ledger_ok rfc8785 sha l" "fresh \<notin> fst ` set (dl_revisions l)"
    and rev: "revise rfc8785 sha fresh i a l = Inr (r, l')"
  shows "ledger_ok rfc8785 sha l'"
proof -
  from rev obtain c where c: "current_revision l = Some c"
    and l': "l' = l \<or> new_revision rfc8785 sha fresh a (tr_revision_number c + 1) l = Inr (r, l')"
    by (auto simp: revise_def bind_Inr require_current_Inr split: if_splits)
  have "dl_revisions l \<noteq> []" "c = snd (last (dl_revisions l))"
    using c current_revision_last [of rfc8785 sha l] ok(1) by (auto simp: ledger_ok_def split: if_splits)
  then have "tr_revision_number c = int (length (dl_revisions l))"
    using last_number [of tr_revision_number "dl_revisions l"] ok(1) by (simp add: ledger_ok_def revisions_ok_def)
  with l' ok new_revision_keeps [OF ok, of a r l'] show ?thesis by auto
qed

lemma create_revision_keeps:
  assumes "ledger_ok rfc8785 sha l" "fresh \<notin> fst ` set (dl_revisions l)"
    and "create_revision rfc8785 sha fresh a l = Inr (r, l')"
  shows "ledger_ok rfc8785 sha l'"
proof (cases "current_revision l")
  case None
  then have "dl_revisions l = []"
    using current_revision_last [of rfc8785 sha l] assms(1) by (auto simp: ledger_ok_def split: if_splits)
  with None assms new_revision_keeps [OF assms(1,2), of a r l'] show ?thesis by (simp add: create_revision_def)
qed (use assms revise_keeps in \<open>auto simp: create_revision_def\<close>)

lemma map_of_update_fresh: "k \<notin> fst ` set d \<Longrightarrow> map_of d j = Some v \<Longrightarrow> map_of (AList.update k w d) j = Some v"
  by (auto simp: update_conv dest: map_of_SomeD intro: rev_image_eqI)

lemma append_question_keeps:
  assumes ok: "ledger_ok rfc8785 sha l" and q: "append_question q l = Inr (q', l')"
  shows "ledger_ok rfc8785 sha l'"
proof (cases "map_of (dl_questions l) (aq_question_id q)")
  case None
  with q obtain c where c: "current_revision l = Some c" "tr_revision_id c = aq_revision_id q" "dl_freeze_receipt l = None"
    and l': "l' = l\<lparr>dl_questions := AList.update (aq_question_id q) q (dl_questions l)\<rparr>"
    by (auto simp: append_question_def bind_Inr require_current_Inr split: if_splits)
  have fresh: "aq_question_id q \<notin> fst ` set (dl_questions l)"
    using None by (simp add: map_of_eq_None_iff)
  have "dl_revisions l \<noteq> []" "c = snd (last (dl_revisions l))"
    using c current_revision_last [of rfc8785 sha l] ok by (auto simp: ledger_ok_def split: if_splits)
  then have "(fst (last (dl_revisions l)), c) \<in> set (dl_revisions l)"
    by simp
  then have "(aq_revision_id q, c) \<in> set (dl_revisions l)"
    using keyed_entry [of tr_revision_id "dl_revisions l"] ok c(2) by (metis ledger_ok_def revisions_ok_def)
  then have "questions_ok l'"
    using ok keyed_fresh [of aq_question_id "dl_questions l" q] fresh unfolding ledger_ok_def questions_ok_def l'
    by (auto simp: update_fresh rev_image_eqI)
  moreover have "answers_ok l'"
    using ok map_of_update_fresh [OF fresh] unfolding ledger_ok_def answers_ok_def l' by fastforce
  ultimately show ?thesis
    using ok c(3) by (simp add: ledger_ok_def l' revisions_ok_def receipt_ok_def)
qed (use assms in \<open>auto simp: append_question_def bind_Inr split: if_splits\<close>)

lemma answer_question_keeps:
  assumes ok: "ledger_ok rfc8785 sha l" and a: "answer_question a l = Inr (a', l')"
  shows "ledger_ok rfc8785 sha l'"
proof (cases "map_of (dl_answers l) (aa_question_id a)")
  case None
  with a obtain q where q: "map_of (dl_questions l) (aa_question_id a) = Some q" "aa_revision_id a = aq_revision_id q"
      "validate_answer_choice q a = Inr ()" and n: "dl_freeze_receipt l = None"
    and l': "l' = l\<lparr>dl_answers := AList.update (aa_question_id a) a (dl_answers l)\<rparr>"
    by (auto simp: answer_question_def bind_Inr split: if_splits option.splits)
  have fresh: "aa_question_id a \<notin> fst ` set (dl_answers l)"
    using None by (simp add: map_of_eq_None_iff)
  have "answers_ok l'"
    using ok q keyed_fresh [of aa_question_id "dl_answers l" a] fresh unfolding ledger_ok_def answers_ok_def l' by (auto simp: update_fresh)
  then show ?thesis
    using ok n by (simp add: ledger_ok_def l' revisions_ok_def questions_ok_def receipt_ok_def)
qed (use assms in \<open>auto simp: answer_question_def bind_Inr split: if_splits option.splits\<close>)

lemma freeze_receipt_Inr:
  assumes "freeze_receipt_of l r ids = Inr z"
  shows "fz_revision_id z = tr_revision_id r" "fz_revision_number z = tr_revision_number r"
    "fz_artifact_snapshots z = tr_artifact_snapshots r" "distinct (fz_answer_question_ids z)"
    "set (fz_answer_question_ids z) = set (question_ids_of l (tr_revision_id r))"
    "set (fz_answer_question_ids z) \<subseteq> fst ` set (dl_answers l)"
    "frozen_artifact_bundle_of (tr_artifact_snapshots r) = Inr (fz_frozen_artifact_bundle z)"
    "freeze_receipt_of l r (Some (fz_answer_question_ids z)) = Inr z"
  using assms
  by (auto simp: freeze_receipt_of_def Let_def bind_Inr draft_freeze_receipt_init_def list_ex_iff sort_key_id_if_sorted split: if_splits)

lemma freeze_receipt_cong:
  assumes "set (question_ids_of l (tr_revision_id r)) = set (question_ids_of l' (tr_revision_id r))"
    and "fst ` set (dl_answers l) = fst ` set (dl_answers l')"
  shows "freeze_receipt_of l r (Some ids) = freeze_receipt_of l' r (Some ids)"
  by (simp add: freeze_receipt_of_def assms Let_def)

lemma freeze_keeps:
  assumes ok: "ledger_ok rfc8785 sha l" and z: "freeze_draft i ids l = Inr (z, l')"
  shows "ledger_ok rfc8785 sha l'"
proof (cases "dl_freeze_receipt l")
  case None
  with z obtain r where r: "current_revision l = Some r" "freeze_receipt_of l r ids = Inr z"
    and l': "l' = l\<lparr>dl_freeze_receipt := Some z\<rparr>"
    by (auto simp: freeze_draft_def bind_Inr require_current_Inr)
  have "receipt_ok l'"
    using r freeze_receipt_Inr [OF r(2)] freeze_receipt_cong [of l' r l]
    by (simp add: receipt_ok_def l' current_revision_def question_ids_of_def)
  then show ?thesis
    using ok by (simp add: ledger_ok_def l' revisions_ok_def questions_ok_def answers_ok_def)
qed (use assms in \<open>auto simp: freeze_draft_def bind_Inr split: if_splits\<close>)

lemma ledger_exec_keeps:
  assumes "ledger_ok rfc8785 sha l" "ledger_allowed c l" "ledger_exec rfc8785 sha c l = Inr l'"
  shows "ledger_ok rfc8785 sha l'"
  using assms
  by (cases c) (auto simp: map_sum_Inr dest: create_revision_keeps revise_keeps append_question_keeps answer_question_keeps freeze_keeps)

lemma ledger_exec_frozen:
  assumes "dl_freeze_receipt l \<noteq> None" "ledger_exec rfc8785 sha c l = Inr l'"
  shows "l' = l"
  using assms
  by (cases c)
    (auto simp: map_sum_Inr bind_Inr create_revision_def revise_def new_revision_def append_question_def answer_question_def
      freeze_draft_def split: option.splits if_splits)

interpretation draft_ledger: sealing_ledger "ledger_exec rfc8785 sha" ledger_allowed "ledger_ok rfc8785 sha"
  "\<lambda>l. dl_freeze_receipt l \<noteq> None" for rfc8785 sha
  by unfold_locales (fact ledger_exec_keeps, fact ledger_exec_frozen)

section \<open>Restoring a ledger\<close>

lemma restore_revisions_ok:
  assumes "map tr_revision_number rs = map int [n..<n + length rs]"
    and "distinct (map fst (dl_revisions l) @ map tr_revision_id rs)"
    and "\<forall>r \<in> set rs. artifact_snapshots rfc8785 sha (tr_artifacts r) (tr_revision_number r) = Inr (tr_artifact_snapshots r)"
  shows "restore_revisions rfc8785 sha (int n) rs l =
     Inr (l\<lparr>dl_revisions := dl_revisions l @ map (\<lambda>r. (tr_revision_id r, r)) rs,
            dl_current_revision_id := (if rs = [] then dl_current_revision_id l else Some (tr_revision_id (last rs)))\<rparr>)"
  using assms
proof (induction rs arbitrary: n l)
  case (Cons r rs)
  let ?l = "l\<lparr>dl_revisions := dl_revisions l @ [(tr_revision_id r, r)], dl_current_revision_id := Some (tr_revision_id r)\<rparr>"
  have n: "[n..<n + length (r # rs)] = n # [Suc n..<Suc n + length rs]"
    by (simp add: upt_conv_Cons del: upt_Suc)
  have fresh: "tr_revision_id r \<notin> fst ` set (dl_revisions l)"
    using Cons.prems(2) by auto
  have "restore_revisions rfc8785 sha (int (Suc n)) rs ?l =
     Inr (?l\<lparr>dl_revisions := dl_revisions ?l @ map (\<lambda>r. (tr_revision_id r, r)) rs,
            dl_current_revision_id := (if rs = [] then dl_current_revision_id ?l else Some (tr_revision_id (last rs)))\<rparr>)"
    using Cons.prems unfolding n by (intro Cons.IH) auto
  with Cons.prems fresh show ?case
    unfolding n by (simp add: update_fresh add.commute)
qed simp

lemma restore_questions_ok:
  assumes "distinct (map fst (dl_questions l) @ map aq_question_id qs)"
    and "\<forall>q \<in> set qs. aq_revision_id q \<in> fst ` set (dl_revisions l)"
  shows "restore_questions qs l = Inr (l\<lparr>dl_questions := dl_questions l @ map (\<lambda>q. (aq_question_id q, q)) qs\<rparr>)"
  using assms
proof (induction qs arbitrary: l)
  case (Cons q qs)
  then have "aq_question_id q \<notin> fst ` set (dl_questions l)" by auto
  with Cons show ?case by (simp add: update_fresh)
qed simp

lemma restore_answers_ok:
  assumes "distinct (map fst (dl_answers l) @ map aa_question_id as)"
    and "\<forall>a \<in> set as. \<exists>q. map_of (dl_questions l) (aa_question_id a) = Some q
          \<and> aa_revision_id a = aq_revision_id q \<and> validate_answer_choice q a = Inr ()"
  shows "restore_answers as l = Inr (l\<lparr>dl_answers := dl_answers l @ map (\<lambda>a. (aa_question_id a, a)) as\<rparr>)"
  using assms
proof (induction as arbitrary: l)
  case (Cons a as)
  then have "aa_question_id a \<notin> fst ` set (dl_answers l)" by auto
  with Cons show ?case by (auto simp: update_fresh)
qed simp

text \<open>What a restored ledger looks like: the dictionaries of questions and answers are filled in the order of
  the persisted lists.\<close>

definition restored :: "draft_ledger \<Rightarrow> draft_ledger" where
  "restored l = l\<lparr>dl_questions := map (\<lambda>q. (aq_question_id q, q)) (ledger_questions l),
                  dl_answers := map (\<lambda>a. (aa_question_id a, a)) (ledger_answers l)\<rparr>"

lemma keyed_list: "keyed f d \<Longrightarrow> map (\<lambda>v. (f v, v)) (map snd d) = d"
  by (induction d) (auto simp: keyed_def)

lemma keyed_sorted_map_of:
  assumes "keyed f d"
  shows "map_of (map (\<lambda>v. (f v, v)) (sort_key g (map snd d))) = map_of d"
    and "distinct (map f (sort_key g (map snd d)))"
proof -
  have ids: "map f (map snd d) = map fst d"
    using assms by (simp add: keyed_def)
  have "mset (map f (sort_key g (map snd d))) = mset (map f (map snd d))"
    by (simp only: mset_map mset_sort)
  then show dist: "distinct (map f (sort_key g (map snd d)))"
    using assms ids by (metis keyed_def mset_eq_imp_distinct_iff)
  have "set (map (\<lambda>v. (f v, v)) (sort_key g (map snd d))) = set (map (\<lambda>v. (f v, v)) (map snd d))"
    by (simp only: set_map set_sort)
  also have "\<dots> = set d"
    using keyed_list [OF assms] by simp
  finally show "map_of (map (\<lambda>v. (f v, v)) (sort_key g (map snd d))) = map_of d"
    using assms dist by (intro map_of_inject_set [THEN iffD2]) (simp_all add: keyed_def comp_def)
qed

lemma numbers_sorted:
  assumes "map (tr_revision_number \<circ> snd) d = map int [1..<Suc (length d)]"
  shows "sort_key tr_revision_number (map snd d) = map snd d"
proof (rule sort_key_id_if_sorted)
  show "sorted (map tr_revision_number (map snd d))"
    using assms by (simp add: sorted_map del: upt_Suc)
qed

lemma current_revision_restored [simp]: "current_revision (restored l) = current_revision l"
  by (simp add: current_revision_def restored_def)

lemma question_ids_restored: "set (question_ids_of (restored l) i) = set (question_ids_of l i)"
  by (auto simp: question_ids_of_def restored_def ledger_questions_def image_iff)

lemma answer_ids_restored: "answers_ok l \<Longrightarrow> fst ` set (dl_answers (restored l)) = fst ` set (dl_answers l)"
  by (force simp: answers_ok_def keyed_def map_eq_conv restored_def ledger_answers_def image_image)

lemma restore_receipt_ok:
  assumes "receipt_ok l" "answers_ok l"
  shows "restore_receipt (dl_freeze_receipt l) (restored l\<lparr>dl_freeze_receipt := None\<rparr>) = Inr (restored l)"
proof (cases "dl_freeze_receipt l")
  case None
  then show ?thesis by (simp add: restore_receipt_def restored_def)
next
  case (Some z)
  let ?l = "restored l\<lparr>dl_freeze_receipt := None\<rparr>"
  from Some assms(1) obtain r where r: "current_revision l = Some r" "tr_revision_id r = fz_revision_id z"
      "freeze_receipt_of l r (Some (fz_answer_question_ids z)) = Inr z"
    by (auto simp: receipt_ok_def)
  have "freeze_receipt_of ?l r (Some (fz_answer_question_ids z)) = freeze_receipt_of l r (Some (fz_answer_question_ids z))"
    using question_ids_restored [of l] answer_ids_restored [OF assms(2)]
    by (intro freeze_receipt_cong) (simp_all add: question_ids_of_def)
  moreover have "require_current_revision ?l (fz_revision_id z) = Inr r"
    using r(1,2) by (simp add: require_current_Inr current_revision_def restored_def)
  ultimately show ?thesis
    using Some r(3) by (simp add: restore_receipt_def freeze_draft_def restored_def)
qed

lemma restore_ledger:
  assumes ok: "ledger_ok rfc8785 sha l"
  shows "restore rfc8785 sha (ledger_revisions l) (ledger_questions l) (ledger_answers l) (dl_freeze_receipt l) = Inr (restored l)"
proof -
  let ?rs = "map snd (dl_revisions l)"
  let ?l1 = "l\<lparr>dl_questions := [], dl_answers := [], dl_freeze_receipt := None\<rparr>"
  have rev: "revisions_ok rfc8785 sha l" "questions_ok l" "answers_ok l" "receipt_ok l"
    using ok by (simp_all add: ledger_ok_def)
  have order: "ledger_revisions l = ?rs" "sort_key tr_revision_number ?rs = ?rs"
    using numbers_sorted [of "dl_revisions l"] rev(1) by (simp_all add: ledger_revisions_def revisions_ok_def del: upt_Suc)
  have "restore_revisions rfc8785 sha (int 1) ?rs draft_ledger_init = Inr ?l1"
  proof (subst restore_revisions_ok)
    show "map tr_revision_number ?rs = map int [1..<1 + length ?rs]"
      using rev(1) by (simp add: revisions_ok_def del: upt_Suc)
    show "distinct (map fst (dl_revisions draft_ledger_init) @ map tr_revision_id ?rs)"
      using rev(1) by (simp only: revisions_ok_def draft_ledger_init_def keyed_def) (metis append_Nil draft_ledger.select_convs(1) list.map(1) map_map)
  qed (use rev(1) keyed_list [of tr_revision_id "dl_revisions l"] in
    \<open>auto simp: revisions_ok_def draft_ledger_init_def last_map keyed_def simp del: upt_Suc\<close>)
  moreover have "restore_questions (ledger_questions l) ?l1 = Inr (restored l\<lparr>dl_answers := [], dl_freeze_receipt := None\<rparr>)"
    using keyed_sorted_map_of(2) [of aq_question_id "dl_questions l" "str_uuid \<circ> aq_question_id"] rev(2)
    by (subst restore_questions_ok) (auto simp: questions_ok_def restored_def ledger_questions_def)
  moreover have "restore_answers (ledger_answers l) (restored l\<lparr>dl_answers := [], dl_freeze_receipt := None\<rparr>)
      = Inr (restored l\<lparr>dl_freeze_receipt := None\<rparr>)"
    using keyed_sorted_map_of [of aa_question_id "dl_answers l" "str_uuid \<circ> aa_question_id"] rev(2,3)
      keyed_sorted_map_of(1) [of aq_question_id "dl_questions l" "str_uuid \<circ> aq_question_id"]
    by (subst restore_answers_ok) (auto simp: answers_ok_def questions_ok_def restored_def ledger_answers_def ledger_questions_def)
  moreover have "restore_receipt (dl_freeze_receipt l) (restored l\<lparr>dl_freeze_receipt := None\<rparr>) = Inr (restored l)"
    by (rule restore_receipt_ok [OF rev(4,3)])
  ultimately show ?thesis
    by (simp add: restore_def order)
qed

lemma restored_lists:
  "ledger_revisions (restored l) = ledger_revisions l" "ledger_questions (restored l) = ledger_questions l"
  "ledger_answers (restored l) = ledger_answers l" "dl_freeze_receipt (restored l) = dl_freeze_receipt l"
  by (simp_all add: restored_def ledger_revisions_def ledger_questions_def ledger_answers_def comp_def sort_key_id_if_sorted)

text \<open>C18: the facts a draft ledger exposes are enough to rebuild it: whatever sequence of calls produced the
  ledger (failed calls included), restoring its revisions, questions, answers and receipt succeeds, and the
  restored ledger exposes the same facts and the same current revision.\<close>

theorem draft_ledger_restores:
  assumes "admissible (ledger_exec rfc8785 sha) ledger_allowed ops draft_ledger_init"
  shows "\<exists>l l'. l = run_calls (ledger_exec rfc8785 sha) ops draft_ledger_init
    \<and> restore rfc8785 sha (ledger_revisions l) (ledger_questions l) (ledger_answers l) (dl_freeze_receipt l) = Inr l'
    \<and> ledger_revisions l' = ledger_revisions l \<and> ledger_questions l' = ledger_questions l
    \<and> ledger_answers l' = ledger_answers l \<and> dl_freeze_receipt l' = dl_freeze_receipt l
    \<and> current_revision l' = current_revision l"
  using restore_ledger [OF draft_ledger.run_keeps [OF ledger_ok_init assms]] restored_lists current_revision_restored
  by blast

definition ex_artifacts :: draft_artifacts where
  "ex_artifacts =
     \<lparr>da_spec = \<lparr>sa_spec = JNull, sa_canonical_bytes = ''{}'', sa_canonical_sha256 = replicate 64 CHR ''0''\<rparr>,
      da_understanding_dossier =
        \<lparr>ud_architecture_narrative = [], ud_semantic_modules = [], ud_dependency_resolutions = [], ud_test_map = [],
         ud_risk_hotspots = [], ud_strategy_advice = [], ud_coverage_self_report = [], ud_budget_tier = ''LOW''\<rparr>,
      da_target_project_blueprint =
        \<lparr>bp_module_boundaries = [], bp_granularity_principles = [], bp_target_layout_principles = [],
         bp_parallelism_rules = [], bp_generated_artifact_policy = ''none'', bp_version = 1\<rparr>,
      da_migration_rulebook = \<lparr>mr_entries = [], mr_version = 1\<rparr>\<rparr>"

definition ex_question :: ask_user_question where
  "ex_question =
     \<lparr>aq_question_id = 7, aq_revision_id = 1, aq_prompt = ''p'',
      aq_options = [\<lparr>qo_key = ''a'', qo_label = ''A'', qo_impact = ''i'', qo_recommended = True\<rparr>,
                    \<lparr>qo_key = ''b'', qo_label = ''B'', qo_impact = ''i'', qo_recommended = False\<rparr>],
      aq_allow_free_text = False\<rparr>"

definition ex_answer :: ask_user_answer where
  "ex_answer = \<lparr>aa_question_id = 7, aa_revision_id = 1, aa_selected_option = Some ''b'', aa_free_text = None\<rparr>"

definition ex_ops :: "ledger_op list" where
  "ex_ops = [CreateRevision 1 ex_artifacts, AppendQuestion ex_question, Freeze 1 None, AnswerQuestion ex_answer, Freeze 1 None]"

definition ex_exec :: "ledger_op \<Rightarrow> draft_ledger \<Rightarrow> draft_ledger dres" where
  "ex_exec = ledger_exec (\<lambda>_. Some ''{}'') (\<lambda>_. replicate 64 CHR ''0'')"

lemma ex_snapshots:
  "1 \<le> n \<Longrightarrow> artifact_snapshots (\<lambda>_. Some ''{}'') (\<lambda>_. replicate 64 CHR ''0'') a n =
     Inr (map (\<lambda>k. \<lparr>as_name = k, as_version = n, as_sha256 = replicate 64 CHR ''0'', as_size = 2,
                    as_media_type = ''application/json''\<rparr>) [SpecName, DossierName, BlueprintName, RulebookName])"
  if "length (sa_canonical_bytes (da_spec a)) = 2"
  using that by (simp add: artifact_snapshots_def artifact_snapshot_of_def artifact_payload_def canonical_json_bytes_def
      artifact_snapshot_init_def is_sha256_def list_all_iff text_within_def utf8_cont_def)

lemmas ledger_defs = create_revision_def new_revision_def revise_def append_question_def answer_question_def freeze_draft_def
  require_current_revision_def current_revision_def freeze_receipt_of_def question_ids_of_def validate_answer_choice_def

lemma ex_freezes:
  "admissible ex_exec ledger_allowed ex_ops draft_ledger_init"
  "\<exists>z. dl_freeze_receipt (run_calls ex_exec ex_ops draft_ledger_init) = Some z \<and> fz_revision_id z = 1 \<and> fz_answer_question_ids z = [7]"
  by (simp_all add: ex_exec_def ex_ops_def ledger_defs ex_snapshots ex_artifacts_def ex_question_def ex_answer_def
      draft_ledger_init_def task_draft_revision_init_def draft_freeze_receipt_init_def frozen_artifact_bundle_of_def
      bundle_ref_def Let_def py_dict_def)

theorem draft_ledger_restores_witness:
  "\<exists>l l'. l = run_calls ex_exec ex_ops draft_ledger_init
    \<and> restore (\<lambda>_. Some ''{}'') (\<lambda>_. replicate 64 CHR ''0'') (ledger_revisions l) (ledger_questions l) (ledger_answers l)
        (dl_freeze_receipt l) = Inr l'
    \<and> dl_freeze_receipt l' = dl_freeze_receipt l \<and> dl_freeze_receipt l \<noteq> None"
proof -
  have freezes: "\<exists>z. dl_freeze_receipt (run_calls ex_exec ex_ops draft_ledger_init) = Some z" using ex_freezes(2) by blast
  show ?thesis
    using draft_ledger_restores [OF ex_freezes(1) [unfolded ex_exec_def]] freezes unfolding ex_exec_def by fastforce
qed

text \<open>C17: a freeze is final and complete. Once a sequence of calls has frozen the ledger, no further call changes
  anything, and the receipt is about the current revision: it carries that revision's snapshots, which are the
  hashes of its artifacts, and names each question of the revision once, and each of them has an answer that
  its question admits.\<close>

theorem draft_freeze_final:
  assumes "admissible (ledger_exec rfc8785 sha) ledger_allowed ops draft_ledger_init"
    and "l = run_calls (ledger_exec rfc8785 sha) ops draft_ledger_init" and "dl_freeze_receipt l = Some z"
  shows "run_calls (ledger_exec rfc8785 sha) (ops @ later) draft_ledger_init = l
    \<and> (\<exists>r. current_revision l = Some r \<and> tr_revision_id r = fz_revision_id z \<and> tr_revision_number r = fz_revision_number z
         \<and> artifact_snapshots rfc8785 sha (tr_artifacts r) (tr_revision_number r) = Inr (fz_artifact_snapshots z))
    \<and> distinct (fz_answer_question_ids z)
    \<and> set (fz_answer_question_ids z) = {i. \<exists>q. map_of (dl_questions l) i = Some q \<and> aq_revision_id q = fz_revision_id z}
    \<and> (\<forall>i \<in> set (fz_answer_question_ids z). \<exists>q a. map_of (dl_questions l) i = Some q \<and> map_of (dl_answers l) i = Some a
         \<and> validate_answer_choice q a = Inr ())"
proof -
  have ok: "ledger_ok rfc8785 sha l"
    using draft_ledger.run_keeps [OF ledger_ok_init assms(1)] assms(2) by simp
  then have keyed: "keyed aq_question_id (dl_questions l)" "keyed aa_question_id (dl_answers l)" "receipt_ok l" "answers_ok l"
    by (simp_all add: ledger_ok_def questions_ok_def answers_ok_def)
  obtain r where r: "current_revision l = Some r" "tr_revision_id r = fz_revision_id z"
      "freeze_receipt_of l r (Some (fz_answer_question_ids z)) = Inr z"
    using keyed(3) assms(3) by (auto simp: receipt_ok_def)
  note z = freeze_receipt_Inr [OF r(3)]
  have "r \<in> snd ` set (dl_revisions l)"
    using r(1) current_revision_last [of rfc8785 sha l] ok by (auto simp: ledger_ok_def split: if_splits)
  then have hashes: "artifact_snapshots rfc8785 sha (tr_artifacts r) (tr_revision_number r) = Inr (fz_artifact_snapshots z)"
    using ok z(3) by (auto simp: ledger_ok_def revisions_ok_def)
  have ids: "set (fz_answer_question_ids z) = {i. \<exists>q. map_of (dl_questions l) i = Some q \<and> aq_revision_id q = fz_revision_id z}"
    unfolding z(5) r(2) question_ids_of_def by (rule keyed_ids [OF keyed(1)])
  have "\<exists>q a. map_of (dl_questions l) i = Some q \<and> map_of (dl_answers l) i = Some a \<and> validate_answer_choice q a = Inr ()"
    if i: "i \<in> set (fz_answer_question_ids z)" for i
  proof -
    obtain a where a: "(i, a) \<in> set (dl_answers l)"
      using z(6) i by auto
    then have "aa_question_id a = i" "map_of (dl_answers l) i = Some a"
      using keyed_entry [OF keyed(2) a] keyed_map_of [OF keyed(2), of a] by force+
    with a keyed(4) show ?thesis
      by (force simp: answers_ok_def)
  qed
  with draft_ledger.sealed_prefix [of rfc8785 sha ops draft_ledger_init later] assms(2,3) r(1,2) z(2,4) hashes ids
  show ?thesis by auto
qed

theorem draft_freeze_final_witness:
  "\<exists>l z. l = run_calls ex_exec ex_ops draft_ledger_init \<and> dl_freeze_receipt l = Some z
     \<and> run_calls ex_exec (ex_ops @ [CreateRevision 2 ex_artifacts]) draft_ledger_init = l
     \<and> {i. \<exists>q. map_of (dl_questions l) i = Some q \<and> aq_revision_id q = 1} = {7}"
proof -
  obtain z where z: "dl_freeze_receipt (run_calls ex_exec ex_ops draft_ledger_init) = Some z" "fz_revision_id z = 1"
      "fz_answer_question_ids z = [7]"
    using ex_freezes(2) by blast
  show ?thesis
    using draft_freeze_final [OF ex_freezes(1) [unfolded ex_exec_def] refl z(1) [unfolded ex_exec_def]] z
    unfolding ex_exec_def by simp
qed

end
