(* ===== verification/Draft_Flow.thy ===== *)
theory Draft_Flow
  imports Draft_Ledger
begin

text \<open>
  \<open>DraftFlow\<close> of \<open>runtime/draft.py\<close>: the stage-gated workflow from exploration to confirmation, on top of the
  ledger of \<open>Draft_Ledger\<close> and the skeleton and coverage tests of \<open>Draft_Validation\<close>. The counters the class
  exposes (\<open>run_count\<close>, \<open>slice_count\<close> and the others) are constants and left out.
\<close>

section \<open>State\<close>

record draft_flow =
  df_ledger :: draft_ledger
  df_stage :: draft_stage
  df_module_files :: "(string \<times> string list) list option"
  df_max_fanout :: int
  df_reports :: "exploration_report list"
  df_reassignments :: "explore_reassignment list"
  df_merged_exploration :: "exploration_merge option"
  df_trial_results :: "trial_translation list"

definition draft_flow_init :: "draft_ledger option \<Rightarrow> (string \<times> string list) list option \<Rightarrow> int \<Rightarrow> draft_flow dres" where
  "draft_flow_init ledger module_files max_fanout =
     (if max_fanout < 1 then Inl (Failure (ValueError ''max_fanout must be a positive integer''))
      else Inr \<lparr>df_ledger = (case ledger of None \<Rightarrow> draft_ledger_init | Some l \<Rightarrow> l), df_stage = Explore,
                df_module_files = module_files, df_max_fanout = max_fanout, df_reports = [], df_reassignments = [],
                df_merged_exploration = None, df_trial_results = []\<rparr>)"

definition tool_is_allowed :: "string \<Rightarrow> bool" where
  "tool_is_allowed tool_name \<longleftrightarrow> tool_name \<in> set (map read_only_draft_tool_value [ReadFileTool, QuerySourceAstTool, ExecTool])"

definition validate_exec :: "draft_exec_request \<Rightarrow> draft_exec_request dres" where
  "validate_exec request =
     (if \<not> tool_is_allowed (read_only_draft_tool_value ExecTool) then Inl (Conflict ''Exec is not allowed in draft sessions'')
      else Inr request)"

definition require_stage :: "draft_flow \<Rightarrow> draft_stage \<Rightarrow> unit dres" where
  "require_stage f expected =
     (if df_stage f \<noteq> expected
      then Inl (Conflict (''draft operation requires stage '' @ draft_stage_value expected @ '', got '' @ draft_stage_value (df_stage f)))
      else Inr ())"

section \<open>Exploration\<close>

definition submit_report :: "exploration_report \<Rightarrow> draft_flow \<Rightarrow> draft_flow dres" where
  "submit_report r f = bind_res (require_stage f Explore) (\<lambda>_. Inr (f\<lparr>df_reports := df_reports f @ [r]\<rparr>))"

text \<open>\<open>self._module_files or {report.domain_path: report.coverage ...}\<close>.\<close>

definition flow_module_files :: "draft_flow \<Rightarrow> (string \<times> string list) list" where
  "flow_module_files f =
     (case df_module_files f of
        Some (m # ms) \<Rightarrow> m # ms
      | _ \<Rightarrow> py_dict (map (\<lambda>r. (xr_domain_path r, xr_coverage r)) (df_reports f)))"

definition record_reassignment :: "explore_reassignment \<Rightarrow> draft_flow \<Rightarrow> draft_flow dres" where
  "record_reassignment advice f =
     (if df_stage f \<notin> set [Explore, Align] then Inl (Conflict ''reassignment is only available during exploration alignment'')
      else if int (length (fb_domain_paths (er_focus_brief advice))) > df_max_fanout f
      then Inl (Conflict ''reassignment exceeds the configured exploration fanout'')
      else if er_op advice \<noteq> Split \<and> \<not> set (er_domain_paths advice) \<subseteq> xr_domain_path ` set (df_reports f)
      then Inl (Conflict ''reassignment references an unknown exploration domain'')
      else bind_res (if flow_module_files f = [] then Inr []
                     else lift_res (build_domain_skeleton (flow_module_files f) 20 (df_max_fanout f))) (\<lambda>_.
        Inr (f\<lparr>df_reassignments := df_reassignments f @ [advice]\<rparr>)))"

definition report_in_domain :: "exploration_report \<Rightarrow> bool" where
  "report_in_domain r \<longleftrightarrow> list_all (in_domain (xr_domain_path r)) (xr_coverage r)"

definition finish_exploration :: "string list \<Rightarrow> draft_flow \<Rightarrow> (exploration_merge \<times> draft_flow) dres" where
  "finish_exploration expected_files f =
     bind_res (require_stage f Explore) (\<lambda>_.
       let reports = df_reports f; domains = remdups (map xr_domain_path reports)
       in if reports = [] then Inl (Conflict ''at least one exploration report is required'')
          else if int (length domains) > df_max_fanout f
          then Inl (Conflict ''exploration fanout exceeds the configured maximum'')
          else if length domains \<noteq> length reports
          then Inl (Conflict ''each exploration domain must have one merged report'')
          else if list_ex (\<lambda>r. \<not> report_in_domain r) reports then Inl (Conflict ''report coverage is outside its domain'')
          else bind_res (lift_res (traverse (\<lambda>r. domain_skeleton_init (xr_domain_path r) (xr_coverage r)) reports)) (\<lambda>skeleton.
          bind_res (lift_res (build_domain_skeleton (flow_module_files f) 20 (df_max_fanout f))) (\<lambda>expected_skeleton.
            if set domains \<noteq> dk_domain_path ` set expected_skeleton
            then Inl (Conflict ''reports do not match the machine-built domain skeleton'')
            else bind_res (lift_res (validate_exact_coverage skeleton expected_files)) (\<lambda>coverage.
              if \<not> cv_valid coverage then Inl (Conflict ''exploration coverage is not exact'')
              else bind_res (lift_res (exploration_merge_init
                  \<lparr>em_reports = reports, em_coverage = coverage,
                   em_unresolved_conflict_count = sum_list (map xr_unresolved_conflict_count reports)\<rparr>)) (\<lambda>merged.
                Inr (merged, f\<lparr>df_merged_exploration := Some merged, df_stage := Align\<rparr>))))))"

section \<open>Artifacts and questions\<close>

definition save_artifacts ::
  "(json \<Rightarrow> string option) \<Rightarrow> (string \<Rightarrow> string) \<Rightarrow> uuid \<Rightarrow> draft_artifacts \<Rightarrow> draft_flow
     \<Rightarrow> (task_draft_revision \<times> draft_flow) dres" where
  "save_artifacts rfc8785 sha fresh a f =
     (if df_stage f \<notin> set [Align, Draft] then Inl (Conflict ''artifacts can only be saved after exploration'')
      else bind_res (create_revision rfc8785 sha fresh a (df_ledger f)) (\<lambda>(r, l).
        Inr (r, f\<lparr>df_ledger := l, df_stage := Draft, df_trial_results := []\<rparr>)))"

definition seed_artifacts ::
  "(json \<Rightarrow> string option) \<Rightarrow> (string \<Rightarrow> string) \<Rightarrow> uuid \<Rightarrow> draft_artifacts \<Rightarrow> draft_flow
     \<Rightarrow> (task_draft_revision \<times> draft_flow) dres" where
  "seed_artifacts rfc8785 sha fresh a f =
     bind_res (require_stage f Align) (\<lambda>_.
     bind_res (create_revision rfc8785 sha fresh a (df_ledger f)) (\<lambda>(r, l). Inr (r, f\<lparr>df_ledger := l\<rparr>)))"

definition finalize_alignment :: "draft_flow \<Rightarrow> draft_flow dres" where
  "finalize_alignment f =
     bind_res (require_stage f Align) (\<lambda>_.
       if current_revision (df_ledger f) = None then Inl (Conflict ''alignment requires provisional artifacts'')
       else Inr (f\<lparr>df_stage := Draft\<rparr>))"

definition revise_artifacts ::
  "(json \<Rightarrow> string option) \<Rightarrow> (string \<Rightarrow> string) \<Rightarrow> uuid \<Rightarrow> draft_artifacts \<Rightarrow> draft_flow
     \<Rightarrow> (task_draft_revision \<times> draft_flow) dres" where
  "revise_artifacts rfc8785 sha fresh a f =
     (if df_stage f \<notin> set [Draft, Calibrate]
      then Inl (Conflict ''artifacts can only be revised during drafting or calibration'')
      else case current_revision (df_ledger f) of
        None \<Rightarrow> Inl (Conflict ''artifact revision requires an existing draft'')
      | Some r \<Rightarrow> bind_res (revise rfc8785 sha fresh (tr_revision_id r) a (df_ledger f)) (\<lambda>(u, l).
          Inr (u, f\<lparr>df_ledger := l, df_stage := Draft, df_trial_results := []\<rparr>)))"

definition ask_user :: "ask_user_question \<Rightarrow> draft_flow \<Rightarrow> (ask_user_question \<times> draft_flow) dres" where
  "ask_user q f =
     (if df_stage f \<notin> set [Align, Draft] then Inl (Conflict ''AskUser is only available during alignment and drafting'')
      else bind_res (append_question q (df_ledger f)) (\<lambda>(q', l). Inr (q', f\<lparr>df_ledger := l\<rparr>)))"

definition answer_user :: "ask_user_answer \<Rightarrow> draft_flow \<Rightarrow> (ask_user_answer \<times> draft_flow) dres" where
  "answer_user a f =
     (if df_stage f \<notin> set [Align, Draft] then Inl (Conflict ''AskUser is only available during alignment and drafting'')
      else bind_res (answer_question a (df_ledger f)) (\<lambda>(a', l). Inr (a', f\<lparr>df_ledger := l\<rparr>)))"

section \<open>Calibration and confirmation\<close>

definition begin_calibration :: "draft_flow \<Rightarrow> draft_flow dres" where
  "begin_calibration f =
     bind_res (require_stage f Draft) (\<lambda>_.
       if current_revision (df_ledger f) = None then Inl (Conflict ''calibration requires a draft revision'')
       else Inr (f\<lparr>df_stage := Calibrate\<rparr>))"

definition select_trial_paths :: "string list \<Rightarrow> string list res" where
  "select_trial_paths risk_hotspots =
     bind_res (normalize_repo_relative_paths risk_hotspots) (\<lambda>paths.
       if length paths < 2 then Inl (ValueError ''trial translation requires 2 or 3 risk-hotspot files'')
       else Inr (take 3 paths))"

definition trial_of :: "(string \<times> string) list \<Rightarrow> (string \<times> string) list \<Rightarrow> string \<Rightarrow> trial_translation res" where
  "trial_of constrained freeform path =
     (case (map_of constrained path, map_of freeform path) of
        (Some c, Some d) \<Rightarrow>
          trial_translation_init \<lparr>tt_file_path = path, tt_constrained_output = c, tt_freeform_output = d\<rparr>
      | _ \<Rightarrow> Inl (KeyError path))"

definition trial_translate ::
  "string list \<Rightarrow> (string \<times> string) list \<Rightarrow> (string \<times> string) list \<Rightarrow> draft_flow
     \<Rightarrow> (trial_translation list \<times> draft_flow) dres" where
  "trial_translate risk_hotspots constrained freeform f =
     bind_res (require_stage f Calibrate) (\<lambda>_.
     bind_res (lift_res (select_trial_paths risk_hotspots)) (\<lambda>paths.
       if fst ` set constrained \<noteq> set paths \<or> fst ` set freeform \<noteq> set paths
       then Inl (Failure (ValueError ''trial outputs must cover exactly the selected 2 or 3 files''))
       else bind_res (lift_res (traverse (trial_of constrained freeform) paths)) (\<lambda>trials.
         Inr (trials, f\<lparr>df_trial_results := trials\<rparr>))))"

definition confirm :: "draft_flow \<Rightarrow> (draft_freeze_receipt \<times> draft_flow) dres" where
  "confirm f =
     bind_res (require_stage f Calibrate) (\<lambda>_.
       if df_trial_results f = [] then Inl (Conflict ''confirmation requires a completed trial translation'')
       else case current_revision (df_ledger f) of
         None \<Rightarrow> Inl (Conflict ''confirmation requires a draft revision'')
       | Some r \<Rightarrow> bind_res (freeze_draft (tr_revision_id r) None (df_ledger f)) (\<lambda>(z, l).
           Inr (z, f\<lparr>df_ledger := l, df_stage := Confirmed\<rparr>)))"

section \<open>Sequences of calls\<close>

datatype flow_op =
    SubmitReport exploration_report
  | RecordReassignment explore_reassignment
  | FinishExploration "string list"
  | SaveArtifacts uuid draft_artifacts
  | SeedArtifacts uuid draft_artifacts
  | FinalizeAlignment
  | ReviseArtifacts uuid draft_artifacts
  | AskUser ask_user_question
  | AnswerUser ask_user_answer
  | BeginCalibration
  | TrialTranslate "string list" "(string \<times> string) list" "(string \<times> string) list"
  | Confirm

fun flow_exec :: "(json \<Rightarrow> string option) \<Rightarrow> (string \<Rightarrow> string) \<Rightarrow> flow_op \<Rightarrow> draft_flow \<Rightarrow> draft_flow dres" where
  "flow_exec rfc8785 sha (SubmitReport r) f = submit_report r f"
| "flow_exec rfc8785 sha (RecordReassignment a) f = record_reassignment a f"
| "flow_exec rfc8785 sha (FinishExploration files) f = map_sum id snd (finish_exploration files f)"
| "flow_exec rfc8785 sha (SaveArtifacts fresh a) f = map_sum id snd (save_artifacts rfc8785 sha fresh a f)"
| "flow_exec rfc8785 sha (SeedArtifacts fresh a) f = map_sum id snd (seed_artifacts rfc8785 sha fresh a f)"
| "flow_exec rfc8785 sha FinalizeAlignment f = finalize_alignment f"
| "flow_exec rfc8785 sha (ReviseArtifacts fresh a) f = map_sum id snd (revise_artifacts rfc8785 sha fresh a f)"
| "flow_exec rfc8785 sha (AskUser q) f = map_sum id snd (ask_user q f)"
| "flow_exec rfc8785 sha (AnswerUser a) f = map_sum id snd (answer_user a f)"
| "flow_exec rfc8785 sha BeginCalibration f = begin_calibration f"
| "flow_exec rfc8785 sha (TrialTranslate hs c d) f = map_sum id snd (trial_translate hs c d f)"
| "flow_exec rfc8785 sha Confirm f = map_sum id snd (confirm f)"

text \<open>\<open>new_uuid7\<close> does not repeat an identity.\<close>

fun flow_allowed :: "flow_op \<Rightarrow> draft_flow \<Rightarrow> bool" where
  "flow_allowed (SaveArtifacts fresh _) f \<longleftrightarrow> fresh \<notin> fst ` set (dl_revisions (df_ledger f))"
| "flow_allowed (SeedArtifacts fresh _) f \<longleftrightarrow> fresh \<notin> fst ` set (dl_revisions (df_ledger f))"
| "flow_allowed (ReviseArtifacts fresh _) f \<longleftrightarrow> fresh \<notin> fst ` set (dl_revisions (df_ledger f))"
| "flow_allowed _ _ \<longleftrightarrow> True"

section \<open>The invariant\<close>

text \<open>The merged exploration is about the reports of the flow, and their coverage is exact.\<close>

definition merge_ok :: "draft_flow \<Rightarrow> bool" where
  "merge_ok f \<longleftrightarrow>
     (\<exists>m. df_merged_exploration f = Some m \<and> em_reports m = df_reports f \<and> cv_valid (em_coverage m)
        \<and> list_all report_in_domain (df_reports f) \<and> distinct (map xr_domain_path (df_reports f))
        \<and> distinct (concat (map xr_coverage (df_reports f))) \<and> int (length (df_reports f)) \<le> df_max_fanout f)"

text \<open>\<open>sealed\<close>: the flow was started on a ledger that was frozen already.\<close>

definition flow_ok :: "(json \<Rightarrow> string option) \<Rightarrow> (string \<Rightarrow> string) \<Rightarrow> bool \<Rightarrow> draft_flow \<Rightarrow> bool" where
  "flow_ok rfc8785 sha sealed f \<longleftrightarrow>
     ledger_ok rfc8785 sha (df_ledger f)
     \<and> (dl_freeze_receipt (df_ledger f) \<noteq> None \<longleftrightarrow> df_stage f = Confirmed \<or> sealed)
     \<and> (if df_stage f = Explore then df_merged_exploration f = None else merge_ok f)
     \<and> (df_stage f \<in> {Draft, Calibrate, Confirmed} \<longrightarrow> current_revision (df_ledger f) \<noteq> None)
     \<and> (df_trial_results f \<noteq> [] \<longrightarrow> df_stage f \<in> {Calibrate, Confirmed} \<and> length (df_trial_results f) \<in> {2, 3}
          \<and> sorted (map tt_file_path (df_trial_results f)) \<and> distinct (map tt_file_path (df_trial_results f)))
     \<and> (df_stage f = Confirmed \<longrightarrow> df_trial_results f \<noteq> [])"

lemma merge_ok_frame [simp]:
  "merge_ok (f\<lparr>df_ledger := l\<rparr>) = merge_ok f" "merge_ok (f\<lparr>df_stage := s\<rparr>) = merge_ok f"
  "merge_ok (f\<lparr>df_trial_results := ts\<rparr>) = merge_ok f" "merge_ok (f\<lparr>df_reassignments := as\<rparr>) = merge_ok f"
  by (simp_all add: merge_ok_def)

lemma require_stage_Inr [simp]: "require_stage f e = Inr u \<longleftrightarrow> df_stage f = e"
  by (simp add: require_stage_def)

lemma new_revision_frame:
  assumes "new_revision rfc8785 sha fresh a n l = Inr (r, l')"
  shows "current_revision l' = Some r \<and> dl_freeze_receipt l' = None \<and> dl_freeze_receipt l = None"
  using new_revision_Inr [OF assms] by (simp add: current_revision_def update_conv)

lemma revise_frame:
  assumes "revise rfc8785 sha fresh i a l = Inr (r, l')"
  shows "current_revision l' = Some r \<and> dl_freeze_receipt l' = None \<and> dl_freeze_receipt l = None"
  using assms by (auto simp: revise_def bind_Inr require_current_Inr dest: new_revision_frame split: if_splits)

lemma create_revision_frame:
  assumes "create_revision rfc8785 sha fresh a l = Inr (r, l')"
  shows "current_revision l' = Some r \<and> dl_freeze_receipt l' = None \<and> dl_freeze_receipt l = None"
  using assms by (auto simp: create_revision_def dest: new_revision_frame revise_frame split: option.splits)

lemma append_question_frame:
  assumes "append_question q l = Inr (q', l')"
  shows "current_revision l' = current_revision l \<and> dl_freeze_receipt l' = dl_freeze_receipt l"
  using assms by (auto simp: append_question_def bind_Inr current_revision_def split: option.splits if_splits)

lemma answer_question_frame:
  assumes "answer_question a l = Inr (a', l')"
  shows "current_revision l' = current_revision l \<and> dl_freeze_receipt l' = dl_freeze_receipt l"
  using assms by (auto simp: answer_question_def bind_Inr current_revision_def split: option.splits if_splits)

lemma freeze_frame:
  assumes "freeze_draft i ids l = Inr (z, l')"
  shows "current_revision l' = current_revision l \<and> dl_freeze_receipt l' = Some z"
  using assms by (auto simp: freeze_draft_def bind_Inr current_revision_def split: option.splits if_splits)

lemmas ledger_frames = revise_frame create_revision_frame append_question_frame answer_question_frame freeze_frame

lemma traverse_reports:
  "traverse (\<lambda>r. domain_skeleton_init (xr_domain_path r) (xr_coverage r)) rs = Inr ds \<Longrightarrow> map dk_files ds = map xr_coverage rs"
  by (induction rs arbitrary: ds) (auto simp: bind_Inr map_sum_Inr dest!: domain_skeleton_init_Inr)

lemma finish_exploration_Inr:
  assumes "finish_exploration files f = Inr (m, f')"
  shows "df_stage f = Explore" "f' = f\<lparr>df_merged_exploration := Some m, df_stage := Align\<rparr>" "merge_ok f'"
    and "set (concat (map xr_coverage (df_reports f))) = set files"
proof -
  let ?rs = "df_reports f"
  from assms obtain sk cov where sk: "traverse (\<lambda>r. domain_skeleton_init (xr_domain_path r) (xr_coverage r)) ?rs = Inr sk"
    and cov: "validate_exact_coverage sk files = Inr cov" "cv_valid cov"
    and m: "em_reports m = ?rs" "em_coverage m = cov" and dom: "length (remdups (map xr_domain_path ?rs)) = length ?rs"
      "int (length (remdups (map xr_domain_path ?rs))) \<le> df_max_fanout f" "list_all report_in_domain ?rs"
    and stage: "df_stage f = Explore" and f': "f' = f\<lparr>df_merged_exploration := Some m, df_stage := Align\<rparr>"
    by (auto simp: finish_exploration_def bind_Inr Let_def exploration_merge_init_def list_ex_iff list_all_iff split: if_splits)
  have "distinct (concat (map xr_coverage ?rs))" and files: "set (concat (map xr_coverage ?rs)) = set files"
    using coverage_facts(4) [OF cov(1)] cov(2) traverse_reports [OF sk] by simp_all
  moreover have "distinct (map xr_domain_path ?rs)"
    using dom(1) by (simp add: length_remdups_card_conv card_distinct)
  ultimately show "merge_ok f'"
    using m cov(2) dom by (simp add: merge_ok_def f' distinct_remdups_id)
  show "df_stage f = Explore" "f' = f\<lparr>df_merged_exploration := Some m, df_stage := Align\<rparr>"
    "set (concat (map xr_coverage (df_reports f))) = set files"
    by fact+
qed

lemma trial_of_path: "trial_of c d p = Inr t \<Longrightarrow> tt_file_path t = p"
  by (auto simp: trial_of_def trial_translation_init_def bind_Inr validate_repo_relative_path_iff split: option.splits if_splits)

lemma traverse_trials: "traverse (trial_of c d) ps = Inr ts \<Longrightarrow> map tt_file_path ts = ps"
  by (induction ps arbitrary: ts) (auto simp: bind_Inr map_sum_Inr dest: trial_of_path)

lemma select_trial_paths_Inr:
  assumes "select_trial_paths hs = Inr ps"
  shows "sorted ps \<and> distinct ps \<and> length ps \<in> {2, 3} \<and> set ps \<subseteq> set hs"
proof -
  from assms have "ps = take 3 (sorted_set hs)" "2 \<le> length (sorted_set hs)"
    by (auto simp: select_trial_paths_def bind_Inr normalize_ok_iff split: if_splits)
  moreover have "set (take 3 (sorted_set hs)) \<subseteq> set hs"
    using set_take_subset [of 3 "sorted_set hs"] by simp
  ultimately show ?thesis
    by (auto simp: sorted_wrt_take distinct_take)
qed

lemma trial_translate_Inr:
  assumes "trial_translate hs c d f = Inr (ts, f')"
  shows "df_stage f = Calibrate \<and> f' = f\<lparr>df_trial_results := ts\<rparr> \<and> sorted (map tt_file_path ts)
    \<and> distinct (map tt_file_path ts) \<and> length ts \<in> {2, 3}"
proof -
  from assms obtain ps where ps: "select_trial_paths hs = Inr ps" "traverse (trial_of c d) ps = Inr ts"
    and f': "df_stage f = Calibrate" "f' = f\<lparr>df_trial_results := ts\<rparr>"
    by (auto simp: trial_translate_def bind_Inr split: if_splits)
  have "map tt_file_path ts = ps" "length ts = length ps"
    using traverse_trials [OF ps(2)] by auto
  with select_trial_paths_Inr [OF ps(1)] f' show ?thesis by simp
qed

lemma flow_ok_ledger:
  assumes "flow_ok rfc8785 sha sealed f" "ledger_ok rfc8785 sha l"
    "current_revision l = current_revision (df_ledger f)" "dl_freeze_receipt l = dl_freeze_receipt (df_ledger f)"
  shows "flow_ok rfc8785 sha sealed (f\<lparr>df_ledger := l\<rparr>)"
  using assms by (simp add: flow_ok_def)

lemma flow_ok_revision:
  assumes "flow_ok rfc8785 sha sealed f" "df_stage f \<noteq> Explore" "df_stage f \<noteq> Confirmed" "ledger_ok rfc8785 sha l"
    "current_revision l = Some r" "dl_freeze_receipt l = None" "dl_freeze_receipt (df_ledger f) = None"
  shows "flow_ok rfc8785 sha sealed (f\<lparr>df_ledger := l, df_stage := Draft, df_trial_results := []\<rparr>)"
  using assms by (simp add: flow_ok_def)

lemma flow_exec_keeps:
  assumes ok: "flow_ok rfc8785 sha sealed f" and allowed: "flow_allowed c f" and exec: "flow_exec rfc8785 sha c f = Inr f'"
  shows "flow_ok rfc8785 sha sealed f'"
proof (cases c)
  case (SubmitReport r)
  with ok exec show ?thesis by (auto simp: submit_report_def bind_Inr flow_ok_def)
next
  case (RecordReassignment a)
  with ok exec show ?thesis
    by (auto simp: record_reassignment_def bind_Inr flow_ok_def split: if_splits)
next
  case (FinishExploration files)
  with exec obtain m where "finish_exploration files f = Inr (m, f')" by (auto simp: map_sum_Inr)
  note fin = finish_exploration_Inr [OF this]
  with ok show ?thesis by (auto simp: flow_ok_def)
next
  case (SaveArtifacts fresh a)
  with exec obtain r l where r: "create_revision rfc8785 sha fresh a (df_ledger f) = Inr (r, l)"
    and f': "f' = f\<lparr>df_ledger := l, df_stage := Draft, df_trial_results := []\<rparr>" "df_stage f \<in> {Align, Draft}"
    by (auto simp: map_sum_Inr save_artifacts_def bind_Inr split: if_splits)
  have "ledger_ok rfc8785 sha l"
    using create_revision_keeps [OF _ _ r] ok allowed SaveArtifacts by (simp add: flow_ok_def)
  with f' show ?thesis
    using flow_ok_revision [OF ok, of l r] create_revision_frame [OF r] by auto
next
  case (SeedArtifacts fresh a)
  with exec obtain r l where r: "create_revision rfc8785 sha fresh a (df_ledger f) = Inr (r, l)"
    and f': "f' = f\<lparr>df_ledger := l\<rparr>" "df_stage f = Align"
    by (auto simp: map_sum_Inr seed_artifacts_def bind_Inr)
  have "ledger_ok rfc8785 sha l"
    using create_revision_keeps [OF _ _ r] ok allowed SeedArtifacts by (simp add: flow_ok_def)
  with f' ok show ?thesis
    using create_revision_frame [OF r] by (auto simp: flow_ok_def)
next
  case FinalizeAlignment
  with ok exec show ?thesis by (auto simp: finalize_alignment_def bind_Inr flow_ok_def split: if_splits)
next
  case (ReviseArtifacts fresh a)
  with exec obtain i r l where r: "revise rfc8785 sha fresh i a (df_ledger f) = Inr (r, l)"
    and f': "f' = f\<lparr>df_ledger := l, df_stage := Draft, df_trial_results := []\<rparr>" "df_stage f \<in> {Draft, Calibrate}"
    by (auto simp: map_sum_Inr revise_artifacts_def bind_Inr split: if_splits option.splits)
  have "ledger_ok rfc8785 sha l"
    using revise_keeps [OF _ _ r] ok allowed ReviseArtifacts by (simp add: flow_ok_def)
  with f' show ?thesis
    using flow_ok_revision [OF ok, of l r] revise_frame [OF r] by auto
next
  case (AskUser q)
  with exec obtain q' l where q: "append_question q (df_ledger f) = Inr (q', l)" "f' = f\<lparr>df_ledger := l\<rparr>"
    by (auto simp: map_sum_Inr ask_user_def bind_Inr split: if_splits)
  then show ?thesis
    using flow_ok_ledger [OF ok] append_question_keeps [OF _ q(1)] append_question_frame [OF q(1)] ok by (simp add: flow_ok_def)
next
  case (AnswerUser a)
  with exec obtain a' l where a: "answer_question a (df_ledger f) = Inr (a', l)" "f' = f\<lparr>df_ledger := l\<rparr>"
    by (auto simp: map_sum_Inr answer_user_def bind_Inr split: if_splits)
  then show ?thesis
    using flow_ok_ledger [OF ok] answer_question_keeps [OF _ a(1)] answer_question_frame [OF a(1)] ok by (simp add: flow_ok_def)
next
  case BeginCalibration
  with ok exec show ?thesis by (auto simp: begin_calibration_def bind_Inr flow_ok_def split: if_splits)
next
  case (TrialTranslate hs d e)
  with exec obtain ts where "trial_translate hs d e f = Inr (ts, f')" by (auto simp: map_sum_Inr)
  note trial = trial_translate_Inr [OF this]
  with ok show ?thesis by (auto simp: flow_ok_def)
next
  case Confirm
  with exec obtain i z l where z: "freeze_draft i None (df_ledger f) = Inr (z, l)" "f' = f\<lparr>df_ledger := l, df_stage := Confirmed\<rparr>"
    "df_stage f = Calibrate" "df_trial_results f \<noteq> []"
    by (auto simp: map_sum_Inr confirm_def bind_Inr split: if_splits option.splits)
  then show ?thesis
    using freeze_keeps [OF _ z(1)] freeze_frame [OF z(1)] ok by (auto simp: flow_ok_def)
qed

lemma flow_exec_confirmed: "df_stage f = Confirmed \<Longrightarrow> flow_exec rfc8785 sha c f = Inr f' \<Longrightarrow> f' = f"
  by (cases c)
    (auto simp: map_sum_Inr bind_Inr submit_report_def record_reassignment_def finish_exploration_def save_artifacts_def
      seed_artifacts_def finalize_alignment_def revise_artifacts_def ask_user_def answer_user_def begin_calibration_def
      trial_translate_def confirm_def)

lemma flow_exec_frozen:
  assumes "dl_freeze_receipt (df_ledger f) \<noteq> None" "flow_exec rfc8785 sha c f = Inr f'"
  shows "df_ledger f' = df_ledger f"
proof -
  note frozen = ledger_exec_frozen [OF assms(1), of rfc8785 sha]
  have create: "create_revision rfc8785 sha fresh a (df_ledger f) = Inr (x, l) \<Longrightarrow> l = df_ledger f" for fresh a x l
    using frozen [of "CreateRevision fresh a" l] by simp
  have revise: "revise rfc8785 sha fresh i a (df_ledger f) = Inr (x, l) \<Longrightarrow> l = df_ledger f" for fresh i a x l
    using frozen [of "Revise fresh i a" l] by simp
  have freeze: "freeze_draft i ids (df_ledger f) = Inr (x, l) \<Longrightarrow> l = df_ledger f" for i ids x l
    using frozen [of "Freeze i ids" l] by simp
  show ?thesis
  proof (cases c)
    case (SaveArtifacts fresh a)
    with assms(2) create show ?thesis by (auto simp: map_sum_Inr save_artifacts_def bind_Inr split: if_splits)
  next
    case (SeedArtifacts fresh a)
    with assms(2) create show ?thesis by (auto simp: map_sum_Inr seed_artifacts_def bind_Inr)
  next
    case (ReviseArtifacts fresh a)
    with assms(2) show ?thesis
      by (auto simp: map_sum_Inr revise_artifacts_def bind_Inr dest: revise split: if_splits option.splits)
  next
    case (AskUser q)
    with assms(2) frozen [of "AppendQuestion q"] show ?thesis
      by (auto simp: map_sum_Inr ask_user_def bind_Inr split: if_splits)
  next
    case (AnswerUser q)
    with assms(2) frozen [of "AnswerQuestion q"] show ?thesis
      by (auto simp: map_sum_Inr answer_user_def bind_Inr split: if_splits)
  next
    case Confirm
    with assms(2) show ?thesis
      by (auto simp: map_sum_Inr confirm_def bind_Inr dest: freeze split: if_splits option.splits)
  next
    case (FinishExploration files)
    with assms(2) show ?thesis by (auto simp: map_sum_Inr dest: finish_exploration_Inr)
  next
    case (TrialTranslate hs d e)
    with assms(2) show ?thesis by (auto simp: map_sum_Inr dest: trial_translate_Inr)
  qed (use assms(2) in \<open>auto simp: bind_Inr submit_report_def record_reassignment_def finalize_alignment_def begin_calibration_def
      split: if_splits\<close>)
qed

lemma frozen_ledger_stays:
  "dl_freeze_receipt (df_ledger f) \<noteq> None \<Longrightarrow> df_ledger (run_calls (flow_exec rfc8785 sha) ops f) = df_ledger f"
  by (induction ops arbitrary: f) (auto simp: flow_exec_frozen split: sum.split)

interpretation draft_flow: sealing_ledger "flow_exec rfc8785 sha" flow_allowed "flow_ok rfc8785 sha sealed" "\<lambda>f. df_stage f = Confirmed"
  for rfc8785 sha sealed
  by unfold_locales (fact flow_exec_keeps, fact flow_exec_confirmed)

lemma flow_ok_init:
  assumes "draft_flow_init ledger mods fan = Inr f" "ledger_ok rfc8785 sha (df_ledger f)"
  shows "flow_ok rfc8785 sha (dl_freeze_receipt (df_ledger f) \<noteq> None) f"
  using assms by (auto simp: draft_flow_init_def flow_ok_def split: if_splits)

text \<open>C16: in every state that a drafting flow reaches by its calls, from the constructor with no ledger or with
  any well-formed one, the stages mean what they say. The ledger is frozen exactly in the confirmed stage, or
  when the flow was already constructed on a frozen ledger, and a frozen ledger never changes; beyond exploration
  the reports are merged, name distinct domains within the fan-out limit, cover no file twice and no file outside
  their domain; drafting and later stages have a current revision; trial results exist only while calibrating or confirmed and are two or three distinct files in
  order. A confirmed flow had a trial, and no later call changes anything. (\<open>restore_ledger\<close> of the flow's owner,
  which replaces the ledger and the stage behind the flow, is not one of its calls.)\<close>

theorem draft_flow_sound:
  assumes "draft_flow_init ledger module_files max_fanout = Inr f0"
    and "case ledger of None \<Rightarrow> True | Some l \<Rightarrow> ledger_ok rfc8785 sha l"
    and "admissible (flow_exec rfc8785 sha) flow_allowed ops f0" and "f = run_calls (flow_exec rfc8785 sha) ops f0"
  shows "(dl_freeze_receipt (df_ledger f) \<noteq> None \<longleftrightarrow> df_stage f = Confirmed \<or> dl_freeze_receipt (df_ledger f0) \<noteq> None)
    \<and> (dl_freeze_receipt (df_ledger f) \<noteq> None \<longrightarrow> df_ledger (run_calls (flow_exec rfc8785 sha) (ops @ later) f0) = df_ledger f)
    \<and> (df_stage f \<noteq> Explore \<longrightarrow>
         (\<exists>m. df_merged_exploration f = Some m \<and> em_reports m = df_reports f \<and> cv_valid (em_coverage m))
         \<and> distinct (map xr_domain_path (df_reports f)) \<and> int (length (df_reports f)) \<le> df_max_fanout f
         \<and> distinct (concat (map xr_coverage (df_reports f)))
         \<and> (\<forall>r \<in> set (df_reports f). \<forall>p \<in> set (xr_coverage r). in_domain (xr_domain_path r) p))
    \<and> (df_stage f \<in> {Draft, Calibrate, Confirmed} \<longrightarrow> current_revision (df_ledger f) \<noteq> None)
    \<and> (df_trial_results f \<noteq> [] \<longrightarrow> df_stage f \<in> {Calibrate, Confirmed} \<and> length (df_trial_results f) \<in> {2, 3}
         \<and> sorted (map tt_file_path (df_trial_results f)) \<and> distinct (map tt_file_path (df_trial_results f)))
    \<and> (df_stage f = Confirmed \<longrightarrow> df_trial_results f \<noteq> []
         \<and> run_calls (flow_exec rfc8785 sha) (ops @ later) f0 = f)"
proof -
  have "ledger_ok rfc8785 sha (df_ledger f0)"
    using assms(1,2) ledger_ok_init [of rfc8785 sha] by (auto simp: draft_flow_init_def split: if_splits option.splits)
  from draft_flow.run_keeps [OF flow_ok_init [OF assms(1) this] assms(3)] assms(4)
  have ok: "flow_ok rfc8785 sha (dl_freeze_receipt (df_ledger f0) \<noteq> None) f" by simp
  have "df_stage f = Confirmed \<Longrightarrow> run_calls (flow_exec rfc8785 sha) (ops @ later) f0 = f"
    using draft_flow.sealed_prefix [of rfc8785 sha ops f0 later] assms(4) by simp
  moreover have "run_calls (flow_exec rfc8785 sha) (ops @ later) f0 = run_calls (flow_exec rfc8785 sha) later f"
    using assms(4) by (simp add: draft_flow.run_append)
  moreover have "merge_ok f" if "df_stage f \<noteq> Explore"
    using ok that by (simp add: flow_ok_def)
  then have "df_stage f \<noteq> Explore \<longrightarrow>
         (\<exists>m. df_merged_exploration f = Some m \<and> em_reports m = df_reports f \<and> cv_valid (em_coverage m))
         \<and> distinct (map xr_domain_path (df_reports f)) \<and> int (length (df_reports f)) \<le> df_max_fanout f
         \<and> distinct (concat (map xr_coverage (df_reports f)))
         \<and> (\<forall>r \<in> set (df_reports f). \<forall>p \<in> set (xr_coverage r). in_domain (xr_domain_path r) p)"
    by (auto simp: merge_ok_def list_all_iff report_in_domain_def)
  ultimately show ?thesis
    using ok frozen_ledger_stays [of f rfc8785 sha later] unfolding flow_ok_def by metis
qed

definition ex_report :: exploration_report where
  "ex_report = \<lparr>xr_domain_path = ''.'', xr_anchors = [], xr_coverage = [''a'', ''b''], xr_confidence_reason = ''r'',
     xr_unresolved_conflict_count = 0\<rparr>"

definition ex_flow :: draft_flow where
  "ex_flow = \<lparr>df_ledger = draft_ledger_init, df_stage = Explore, df_module_files = None, df_max_fanout = 6, df_reports = [],
     df_reassignments = [], df_merged_exploration = None, df_trial_results = []\<rparr>"

definition ex_calls :: "flow_op list" where
  "ex_calls = [SubmitReport ex_report, FinishExploration [''b'', ''a''], SaveArtifacts 1 ex_artifacts, BeginCalibration,
     TrialTranslate [''b'', ''a''] [(''a'', ''x''), (''b'', ''x'')] [(''a'', ''y''), (''b'', ''y'')], Confirm]"

lemma ex_exploration:
  "traverse (\<lambda>r. domain_skeleton_init (xr_domain_path r) (xr_coverage r)) [ex_report] = Inr [\<lparr>dk_domain_path = ''.'', dk_files = [''a'', ''b'']\<rparr>]"
  "build_domain_skeleton [(''.'', [''a'', ''b''])] 20 6 = Inr [\<lparr>dk_domain_path = ''.'', dk_files = [''a'', ''b'']\<rparr>]"
  "validate_exact_coverage [\<lparr>dk_domain_path = ''.'', dk_files = [''a'', ''b'']\<rparr>] [''b'', ''a''] =
     Inr \<lparr>cv_valid = True, cv_missing_files = [], cv_duplicate_files = [], cv_unknown_files = []\<rparr>"
  "select_trial_paths [''b'', ''a''] = Inr [''a'', ''b'']"
  "traverse (trial_of [(''a'', ''x''), (''b'', ''x'')] [(''a'', ''y''), (''b'', ''y'')]) [''a'', ''b''] =
     Inr [\<lparr>tt_file_path = ''a'', tt_constrained_output = ''x'', tt_freeform_output = ''y''\<rparr>,
          \<lparr>tt_file_path = ''b'', tt_constrained_output = ''x'', tt_freeform_output = ''y''\<rparr>]"
  by code_simp+

abbreviation ex_flow_run :: "flow_op \<Rightarrow> draft_flow \<Rightarrow> draft_flow dres" where
  "ex_flow_run \<equiv> flow_exec (\<lambda>_. Some ''{}'') (\<lambda>_. replicate 64 CHR ''0'')"

lemma ex_finish:
  "\<exists>m. finish_exploration [''b'', ''a''] (ex_flow\<lparr>df_reports := [ex_report]\<rparr>) =
     Inr (m, ex_flow\<lparr>df_reports := [ex_report], df_merged_exploration := Some m, df_stage := Align\<rparr>)"
  using ex_exploration(1-3)
  by (simp add: finish_exploration_def require_stage_def ex_flow_def Let_def report_in_domain_def flow_module_files_def
      in_domain_def exploration_merge_init_def ex_report_def py_dict_def)

lemma ex_created:
  "\<exists>r l z l'. create_revision (\<lambda>_. Some ''{}'') (\<lambda>_. replicate 64 CHR ''0'') 1 ex_artifacts draft_ledger_init = Inr (r, l)
     \<and> current_revision l = Some r \<and> freeze_draft (tr_revision_id r) None l = Inr (z, l')"
  by (simp add: ledger_defs ex_snapshots ex_artifacts_def draft_ledger_init_def task_draft_revision_init_def
      draft_freeze_receipt_init_def frozen_artifact_bundle_of_def bundle_ref_def Let_def py_dict_def)

lemma ex_calibrated:
  assumes "df_stage f = Calibrate" "current_revision (df_ledger f) = Some r" "freeze_draft (tr_revision_id r) None (df_ledger f) = Inr (z, l)"
  shows "df_stage (run_calls ex_flow_run (drop 4 ex_calls) f) = Confirmed"
    and "admissible ex_flow_run flow_allowed (drop 4 ex_calls) f"
  using assms ex_exploration(4,5)
  by (simp_all add: ex_calls_def trial_translate_def confirm_def require_stage_def del: traverse.simps)

lemma ex_confirms:
  "admissible ex_flow_run flow_allowed ex_calls ex_flow \<and> df_stage (run_calls ex_flow_run ex_calls ex_flow) = Confirmed"
proof -
  obtain m where m: "finish_exploration [''b'', ''a''] (ex_flow\<lparr>df_reports := [ex_report]\<rparr>) =
     Inr (m, ex_flow\<lparr>df_reports := [ex_report], df_merged_exploration := Some m, df_stage := Align\<rparr>)" (is "_ = Inr (m, ?f)")
    using ex_finish by blast
  obtain r l z l' where r: "create_revision (\<lambda>_. Some ''{}'') (\<lambda>_. replicate 64 CHR ''0'') 1 ex_artifacts draft_ledger_init = Inr (r, l)"
     "current_revision l = Some r" "freeze_draft (tr_revision_id r) None l = Inr (z, l')"
    using ex_created by blast
  let ?g = "?f\<lparr>df_ledger := l, df_stage := Calibrate, df_trial_results := []\<rparr>"
  have calls: "ex_calls = [SubmitReport ex_report, FinishExploration [''b'', ''a''], SaveArtifacts 1 ex_artifacts, BeginCalibration] @ drop 4 ex_calls"
    by (simp add: ex_calls_def)
  have "ex_flow_run (SubmitReport ex_report) ex_flow = Inr (ex_flow\<lparr>df_reports := [ex_report]\<rparr>)"
    by (simp add: submit_report_def require_stage_def ex_flow_def)
  moreover have "ex_flow_run (FinishExploration [''b'', ''a'']) (ex_flow\<lparr>df_reports := [ex_report]\<rparr>) = Inr ?f"
    by (simp add: m)
  moreover have "ex_flow_run (SaveArtifacts 1 ex_artifacts) ?f = Inr (?f\<lparr>df_ledger := l, df_stage := Draft, df_trial_results := []\<rparr>)"
    by (simp add: save_artifacts_def r(1) ex_flow_def)
  moreover have "ex_flow_run BeginCalibration (?f\<lparr>df_ledger := l, df_stage := Draft, df_trial_results := []\<rparr>) = Inr ?g"
    by (simp add: begin_calibration_def require_stage_def r(2))
  moreover have "df_ledger ?f = draft_ledger_init"
    by (simp add: ex_flow_def)
  ultimately show ?thesis
    using ex_calibrated [of ?g r z l'] r(2,3)
    by (subst (1 2) calls) (simp add: draft_ledger_init_def del: flow_exec.simps drop.simps drop_Cons_numeral)
qed

theorem draft_flow_sound_witness:
  "dl_freeze_receipt (df_ledger (run_calls ex_flow_run ex_calls ex_flow)) \<noteq> None
     \<and> run_calls ex_flow_run (ex_calls @ [SubmitReport ex_report]) ex_flow = run_calls ex_flow_run ex_calls ex_flow"
proof -
  have init: "draft_flow_init None None 6 = Inr ex_flow"
    by (simp add: draft_flow_init_def ex_flow_def)
  show ?thesis
    using draft_flow_sound [OF init _ conjunct1 [OF ex_confirms] refl, of "[SubmitReport ex_report]"] ex_confirms by simp
qed

end
