(* ===== verification/Action_Protocol.thy ===== *)
theory Action_Protocol
  imports Context_Manager
begin

text \<open>
  \<open>parse_action_stream\<close> of \<open>workspace/protocol.py\<close> and \<open>runtime/normalizer.py\<close>: how the output of a model becomes
  tool actions. \<open>json.loads\<close> is the parameter \<open>loads\<close>: it returns the tree it reads, with the members of every
  object in order and the constants \<open>NaN\<close> and \<open>Infinity\<close> by name; it fails with \<open>JSONDecodeError\<close> (\<open>Malformed\<close>), or with another
  exception, such as the \<open>ValueError\<close> for an integer of more than 4300 digits (\<open>Raised\<close>, when no hook has refused the
  text before). The two hooks the code passes are applied to the tree. The reasons that quote the text (malformed JSON, a repeated key, a
  non-finite number) are the one error \<open>InvalidAction\<close>. A literal beyond the range of a double, such as \<open>1e999\<close>, which
  \<open>json.loads\<close> turns into an infinity without asking the hook, has no counterpart: floats are rationals here.
\<close>

section \<open>Decoded JSON\<close>

datatype raw_json =
    RNull
  | RBool bool
  | RInt int
  | RFloat rat
  | RStr string
  | RConstant string
  | RArr "raw_json list"
  | RObj "(string \<times> raw_json) list"

datatype loads_result = Loaded raw_json | Malformed | Raised py_exn

datatype action_error =
    InvalidAction
  | NotAnObject
  | EmptyOutput
  | ExpectedAction nat
  | MissingEnd nat
  | NoActionSegment
  | Uncaught py_exn

text \<open>\<open>_reject_duplicate_keys\<close> and \<open>_reject_non_finite\<close>, applied bottom-up.\<close>

primrec admit_json :: "raw_json \<Rightarrow> action_error + pyval" where
  "admit_json RNull = Inr PNone"
| "admit_json (RBool b) = Inr (PBool b)"
| "admit_json (RInt i) = Inr (PInt i)"
| "admit_json (RFloat x) = Inr (PFloat x)"
| "admit_json (RStr s) = Inr (PStr s)"
| "admit_json (RConstant c) = Inl InvalidAction"
| "admit_json (RArr vs) = map_sum id PList (traverse id (map admit_json vs))"
| "admit_json (RObj kvs) =
     bind_res (traverse (\<lambda>(k, r). map_sum id (Pair k) r) (map (map_prod id admit_json) kvs)) (\<lambda>es.
       if distinct (map fst es) then Inr (obj es) else Inl InvalidAction)"

text \<open>A JSON object as the dictionary of its members.\<close>

type_synonym payload = "(string \<times> pyval) list"

definition as_object :: "pyval \<Rightarrow> payload option" where
  "as_object v = (case v of PDict kvs \<Rightarrow> Some (map (apfst entry_keys) kvs) | _ \<Rightarrow> None)"

definition parse_object :: "(string \<Rightarrow> loads_result) \<Rightarrow> string \<Rightarrow> action_error + payload" where
  "parse_object loads content =
     (case loads content of
        Malformed \<Rightarrow> Inl InvalidAction
      | Raised e \<Rightarrow> Inl (Uncaught e)
      | Loaded r \<Rightarrow> bind_res (admit_json r) (\<lambda>v.
          case as_object v of None \<Rightarrow> Inl NotAnObject | Some p \<Rightarrow> Inr p))"

section \<open>Lines\<close>

text \<open>\<open>str.splitlines\<close>: the line boundaries of Unicode, with \<open>\r\n\<close> as one.\<close>

definition line_break :: "string \<Rightarrow> bool" where
  "line_break cp \<longleftrightarrow> cp_value cp \<in> {10, 11, 12, 13, 28, 29, 30, 133, 8232, 8233}"

fun split_lines :: "string list \<Rightarrow> string list \<Rightarrow> string list" where
  "split_lines line [] = (if line = [] then [] else [concat (rev line)])"
| "split_lines line [c] = (if line_break c then [concat (rev line)] else [concat (rev (c # line))])"
| "split_lines line (c # d # cs) =
     (if cp_value c = 13 \<and> cp_value d = 10 then concat (rev line) # split_lines [] cs
      else if line_break c then concat (rev line) # split_lines [] (d # cs)
      else split_lines (c # line) (d # cs))"

definition splitlines :: "string \<Rightarrow> string list" where
  "splitlines s = split_lines [] (code_points s)"

section \<open>Marked actions\<close>

definition action_open :: string where
  "action_open = ''[cm:action]''"

definition action_close :: string where
  "action_close = ''[cm:/action]''"

lemma drop_shorter: "drop n xs = y # ys \<Longrightarrow> length ys < length xs"
  by (metis Suc_le_eq diff_le_self length_Cons length_drop)

function parse_segments :: "(string \<Rightarrow> loads_result) \<Rightarrow> nat \<Rightarrow> string list \<Rightarrow> action_error + payload list" where
  "parse_segments loads index [] = Inr []"
| "parse_segments loads index (l # ls) =
     (if blank l then parse_segments loads (Suc index) ls
      else if py_strip l \<noteq> action_open then Inl (ExpectedAction (Suc index))
      else let body = takeWhile (\<lambda>x. py_strip x \<noteq> action_close) ls
           in case drop (length body) ls of
                [] \<Rightarrow> Inl (MissingEnd (Suc index))
              | _ # rest \<Rightarrow> bind_res (parse_object loads (join_with newline body)) (\<lambda>p.
                  map_sum id ((#) p) (parse_segments loads (index + length body + 2) rest)))"
  by pat_completeness auto
termination
  by (relation "measure (\<lambda>(_, _, ls). length ls)") (auto dest: drop_shorter intro: less_SucI)

definition parse_action_stream :: "(string \<Rightarrow> loads_result) \<Rightarrow> string \<Rightarrow> action_error + payload list" where
  "parse_action_stream loads s =
     (if blank s then Inl EmptyOutput
      else if \<not> list_ex (\<lambda>l. py_strip l \<in> {action_open, action_close}) (splitlines s)
      then map_sum id (\<lambda>p. [p]) (parse_object loads s)
      else bind_res (parse_segments loads 0 (splitlines s)) (\<lambda>ps. if ps = [] then Inl NoActionSegment else Inr ps))"

section \<open>Normalisation\<close>

record provider_tool_call =
  tc_name :: string
  tc_arguments :: string
  tc_call_id :: string

record model_action =
  ma_payload :: payload
  ma_call_id :: "string option"

record normalized_turn =
  nt_actions :: "model_action list"
  nt_assistant_text :: string
  nt_declared_complete :: bool

text \<open>\<open>NormalizationError\<close>, and the exceptions that \<open>_parse_object\<close> does not catch.\<close>

datatype normalization_error = NotNormal string | Escaped py_exn

definition structured :: "action_error + 'a \<Rightarrow> normalization_error + 'a" where
  "structured r =
     (case r of
        Inr x \<Rightarrow> Inr x
      | Inl (Uncaught e) \<Rightarrow> Inl (Escaped e)
      | Inl NotAnObject \<Rightarrow> Inl (NotNormal ''structured response must be a JSON object'')
      | Inl _ \<Rightarrow> Inl (NotNormal ''structured response JSON is invalid''))"

definition parse_marked :: "(string \<Rightarrow> loads_result) \<Rightarrow> string \<Rightarrow> normalization_error + payload list" where
  "parse_marked loads content =
     (case parse_action_stream loads content of
        Inr ps \<Rightarrow> Inr ps
      | Inl (Uncaught e) \<Rightarrow> Inl (Escaped e)
      | Inl _ \<Rightarrow> Inl (NotNormal ''marked action stream is invalid''))"

definition native_action :: "(string \<Rightarrow> loads_result) \<Rightarrow> provider_tool_call \<Rightarrow> normalization_error + model_action" where
  "native_action loads call =
     bind_res (structured (parse_object loads (tc_arguments call))) (\<lambda>payload.
       let call_id = (if tc_call_id call = [] then None else Some (tc_call_id call))
       in case map_of payload ''tool'' of
            None \<Rightarrow> Inr \<lparr>ma_payload = (''tool'', PStr (tc_name call)) # payload, ma_call_id = call_id\<rparr>
          | Some v \<Rightarrow> if v \<noteq> PStr (tc_name call)
              then Inl (NotNormal ''provider tool name does not match action payload'')
              else Inr \<lparr>ma_payload = payload, ma_call_id = call_id\<rparr>)"

definition is_text :: "pyval option \<Rightarrow> bool" where
  "is_text v = (case v of Some (PStr _) \<Rightarrow> True | _ \<Rightarrow> False)"

text \<open>One segment of structured content: a completion, an action, or neither.\<close>

definition content_segment :: "string \<Rightarrow> payload \<Rightarrow> normalization_error + model_action option" where
  "content_segment reason payload =
     (if map_of payload ''completed'' = Some (PBool True) then Inr None
      else if is_text (map_of payload ''tool'') then Inr (Some \<lparr>ma_payload = payload, ma_call_id = None\<rparr>)
      else Inl (NotNormal reason))"

definition content_turn :: "string \<Rightarrow> string \<Rightarrow> payload list \<Rightarrow> normalization_error + normalized_turn" where
  "content_turn reason content payloads =
     map_sum id (\<lambda>os. \<lparr>nt_actions = List.map_filter id os, nt_assistant_text = content, nt_declared_complete = None \<in> set os\<rparr>)
       (traverse (content_segment reason) payloads)"

definition lstrip_starts :: "string \<Rightarrow> string \<Rightarrow> bool" where
  "lstrip_starts p s = prefix p (concat (dropWhile unicode_space (code_points s)))"

definition normalize_response ::
  "(string \<Rightarrow> loads_result) \<Rightarrow> string \<Rightarrow> provider_tool_call list \<Rightarrow> normalization_error + normalized_turn" where
  "normalize_response loads content tool_calls =
     (if tool_calls \<noteq> []
      then map_sum id (\<lambda>as. \<lparr>nt_actions = as, nt_assistant_text = content, nt_declared_complete = False\<rparr>)
             (traverse (native_action loads) tool_calls)
      else if sublist action_open content \<or> sublist action_close content
      then bind_res (parse_marked loads content)
             (content_turn ''marked segment is not a tool action or completion'' content)
      else if lstrip_starts ''{'' content
      then bind_res (structured (parse_object loads content))
             (\<lambda>p. content_turn ''JSON response is not a tool action or completion'' content [p])
      else Inr \<lparr>nt_actions = [], nt_assistant_text = content, nt_declared_complete = False\<rparr>)"

section \<open>What a text says\<close>

text \<open>
  The reading that the normaliser should give, without its hooks. A tree is clean when no object in it, at any
  depth, repeats a key and no value is one of the constants \<open>NaN\<close> and \<open>Infinity\<close>; its value keeps every member. A text denotes
  a payload when it decodes to a clean object with that value.
\<close>

primrec clean_json :: "raw_json \<Rightarrow> bool" where
  "clean_json RNull = True"
| "clean_json (RBool b) = True"
| "clean_json (RInt i) = True"
| "clean_json (RFloat x) = True"
| "clean_json (RStr s) = True"
| "clean_json (RConstant c) = False"
| "clean_json (RArr vs) = list_all id (map clean_json vs)"
| "clean_json (RObj kvs) = (distinct (map fst kvs) \<and> list_all snd (map (map_prod id clean_json) kvs))"

primrec tree_value :: "raw_json \<Rightarrow> pyval" where
  "tree_value RNull = PNone"
| "tree_value (RBool b) = PBool b"
| "tree_value (RInt i) = PInt i"
| "tree_value (RFloat x) = PFloat x"
| "tree_value (RStr s) = PStr s"
| "tree_value (RConstant c) = PNone"
| "tree_value (RArr vs) = PList (map tree_value vs)"
| "tree_value (RObj kvs) = obj (map (map_prod id tree_value) kvs)"

definition denotes :: "(string \<Rightarrow> loads_result) \<Rightarrow> string \<Rightarrow> payload \<Rightarrow> bool" where
  "denotes loads s p \<longleftrightarrow> (\<exists>kvs. loads s = Loaded (RObj kvs) \<and> clean_json (RObj kvs) \<and> p = map (map_prod id tree_value) kvs)"

text \<open>The texts between the markers, when the lines outside are blank.\<close>

inductive marked_segments :: "string list \<Rightarrow> string list \<Rightarrow> bool" where
  no_lines: "marked_segments [] []"
| blank_line: "blank l \<Longrightarrow> marked_segments ls ss \<Longrightarrow> marked_segments (l # ls) ss"
| segment: "py_strip l = action_open \<Longrightarrow> \<forall>x \<in> set body. py_strip x \<noteq> action_close \<Longrightarrow> py_strip r = action_close
    \<Longrightarrow> marked_segments ls ss \<Longrightarrow> marked_segments (l # body @ r # ls) (join_with newline body # ss)"

definition completes :: "payload \<Rightarrow> bool" where
  "completes p \<longleftrightarrow> map_of p ''completed'' = Some (PBool True)"

text \<open>The action of a native call: its arguments, with the name of the tool when they do not have it.\<close>

definition action_of_call :: "(string \<Rightarrow> loads_result) \<Rightarrow> provider_tool_call \<Rightarrow> model_action \<Rightarrow> bool" where
  "action_of_call loads c a \<longleftrightarrow> (\<exists>p. denotes loads (tc_arguments c) p
     \<and> ma_payload a = (if ''tool'' \<in> fst ` set p then p else (''tool'', PStr (tc_name c)) # p))
     \<and> map_of (ma_payload a) ''tool'' = Some (PStr (tc_name c))
     \<and> ma_call_id a = (if tc_call_id c = [] then None else Some (tc_call_id c))"

section \<open>Nothing is guessed\<close>

lemma traverse_Inr_length: "traverse f xs = Inr ys \<Longrightarrow> length ys = length xs"
  by (induction xs arbitrary: ys) (auto simp: bind_Inr map_sum_Inr)

lemma traverse_Inr_nth: "traverse f xs = Inr ys \<Longrightarrow> i < length xs \<Longrightarrow> f (xs ! i) = Inr (ys ! i)"
proof (induction xs arbitrary: ys i)
  case (Cons x xs)
  then show ?case by (cases i) (auto simp: bind_Inr map_sum_Inr)
qed simp

lemma traverse_Inr_map: "traverse f xs = Inr ys \<Longrightarrow> (\<And>x y. f x = Inr y \<Longrightarrow> g y = h x) \<Longrightarrow> map g ys = map h xs"
  by (induction xs arbitrary: ys) (auto simp: bind_Inr map_sum_Inr)

lemma traverse_Inr_set: "traverse f xs = Inr ys \<Longrightarrow> y \<in> set ys \<Longrightarrow> \<exists>x \<in> set xs. f x = Inr y"
  by (induction xs arbitrary: ys) (auto simp: bind_Inr map_sum_Inr)

lemma traverse_clean:
  assumes "\<And>x. x \<in> set xs \<Longrightarrow> f x = (if ok x then Inr (g x) else Inl e)"
  shows "traverse f xs = (if list_all ok xs then Inr (map g xs) else Inl e)"
  using assms by (induction xs) auto

lemma admit_json_exact: "admit_json r = (if clean_json r then Inr (tree_value r) else Inl InvalidAction)"
proof (induction r)
  case (RArr vs)
  then have "traverse id (map admit_json vs) = (if list_all clean_json vs then Inr (map tree_value vs) else Inl InvalidAction)"
    using traverse_clean [of vs admit_json clean_json tree_value InvalidAction] by (simp add: traverse_map)
  then show ?case by (simp add: list.pred_map)
next
  case (RObj kvs)
  have "(\<lambda>(k, r). map_sum id (Pair k) r) (map_prod id admit_json x)
      = (if clean_json (snd x) then Inr (map_prod id tree_value x) else Inl InvalidAction)" if "x \<in> set kvs" for x
    using RObj that by (cases x) (auto simp: snds.simps)
  then have "traverse (\<lambda>(k, r). map_sum id (Pair k) r) (map (map_prod id admit_json) kvs)
      = (if list_all (clean_json \<circ> snd) kvs then Inr (map (map_prod id tree_value) kvs) else Inl InvalidAction)"
    unfolding traverse_map by (intro traverse_clean) simp
  then show ?case by (auto simp: list.pred_map comp_def)
qed simp_all

lemma parse_object_denotes: "parse_object loads s = Inr p \<longleftrightarrow> denotes loads s p"
proof -
  have "bind_res (admit_json r) (\<lambda>v. case as_object v of None \<Rightarrow> Inl NotAnObject | Some p \<Rightarrow> Inr p) = Inr p
      \<longleftrightarrow> (\<exists>kvs. r = RObj kvs \<and> clean_json r \<and> p = map (map_prod id tree_value) kvs)" for r
    unfolding admit_json_exact
    by (cases r) (auto simp: as_object_def comp_def apfst_def map_prod_def split_beta)
  then show ?thesis
    by (auto simp: parse_object_def denotes_def split: loads_result.splits)
qed

lemma parse_segments_marked:
  "parse_segments loads n ls = Inr ps \<Longrightarrow> \<exists>ss. marked_segments ls ss \<and> list_all2 (denotes loads) ss ps"
proof (induction loads n ls arbitrary: ps rule: parse_segments.induct)
  case (1 loads n)
  then show ?case using no_lines by auto
next
  case (2 loads n l ls)
  show ?case
  proof (cases "blank l")
    case True
    with 2 show ?thesis using blank_line by fastforce
  next
    case False
    define body where "body = takeWhile (\<lambda>x. py_strip x \<noteq> action_close) ls"
    from 2(3) False obtain r rest p ps' where l: "py_strip l = action_open" and d: "drop (length body) ls = r # rest"
        and p: "parse_object loads (join_with newline body) = Inr p" "ps = p # ps'"
        and more_segments: "parse_segments loads (n + length body + 2) rest = Inr ps'"
      by (auto simp: Let_def bind_Inr map_sum_Inr body_def split: if_splits list.splits)
    have ls: "ls = body @ r # rest"
      using d append_take_drop_id [of "length body" ls] by (simp add: body_def takeWhile_eq_take [symmetric])
    moreover have "\<forall>x \<in> set body. py_strip x \<noteq> action_close" by (auto simp: body_def dest: set_takeWhileD)
    moreover have "py_strip r = action_close"
      using d hd_dropWhile [of "\<lambda>x. py_strip x \<noteq> action_close" ls] by (simp add: body_def dropWhile_eq_drop)
    moreover obtain ss where "marked_segments rest ss" "list_all2 (denotes loads) ss ps'"
      using 2(2) [OF False _ body_def d] l p(1) more_segments by auto
    ultimately show ?thesis
      using segment [OF l] p by (fastforce simp: parse_object_denotes)
  qed
qed

lemma parse_marked_segments:
  assumes "parse_marked loads content = Inr ps"
  shows "\<exists>ss. (ss = [content] \<or> marked_segments (splitlines content) ss) \<and> list_all2 (denotes loads) ss ps"
  using assms
  by (auto simp: parse_marked_def parse_action_stream_def bind_Inr map_sum_Inr parse_object_denotes
      dest: parse_segments_marked split: sum.splits action_error.splits if_splits)

lemma structured_Inr: "structured r = Inr x \<longleftrightarrow> r = Inr x"
  by (auto simp: structured_def split: sum.splits action_error.splits)

lemma native_action_Inr:
  assumes "native_action loads c = Inr a"
  shows "action_of_call loads c a"
proof -
  from assms obtain p where p: "denotes loads (tc_arguments c) p"
    and a: "(let call_id = (if tc_call_id c = [] then None else Some (tc_call_id c))
       in case map_of p ''tool'' of
            None \<Rightarrow> Inr \<lparr>ma_payload = (''tool'', PStr (tc_name c)) # p, ma_call_id = call_id\<rparr>
          | Some v \<Rightarrow> if v \<noteq> PStr (tc_name c)
              then Inl (NotNormal ''provider tool name does not match action payload'')
              else Inr \<lparr>ma_payload = p, ma_call_id = call_id\<rparr>) = Inr a"
    by (auto simp: native_action_def bind_Inr structured_Inr parse_object_denotes)
  have "''tool'' \<in> fst ` set p \<longleftrightarrow> map_of p ''tool'' \<noteq> None" by (simp add: map_of_eq_None_iff)
  with a have "ma_payload a = (if ''tool'' \<in> fst ` set p then p else (''tool'', PStr (tc_name c)) # p)
      \<and> map_of (ma_payload a) ''tool'' = Some (PStr (tc_name c))
      \<and> ma_call_id a = (if tc_call_id c = [] then None else Some (tc_call_id c))"
    by (cases "map_of p ''tool''") (simp_all add: Let_def split: if_splits, auto)
  with p show ?thesis unfolding action_of_call_def by blast
qed

lemma content_turn_Inr:
  assumes "content_turn reason s ps = Inr t"
  shows "(\<forall>p \<in> set ps. completes p \<or> is_text (map_of p ''tool''))
    \<and> nt_actions t = map (\<lambda>p. \<lparr>ma_payload = p, ma_call_id = None\<rparr>) (filter (\<lambda>p. \<not> completes p) ps)
    \<and> (nt_declared_complete t \<longleftrightarrow> (\<exists>p \<in> set ps. completes p)) \<and> nt_assistant_text t = s"
proof -
  obtain os where os: "traverse (content_segment reason) ps = Inr os"
    and t: "t = \<lparr>nt_actions = List.map_filter id os, nt_assistant_text = s, nt_declared_complete = None \<in> set os\<rparr>"
    using assms by (auto simp: content_turn_def map_sum_Inr)
  from os have "(\<forall>p \<in> set ps. completes p \<or> is_text (map_of p ''tool''))
    \<and> List.map_filter id os = map (\<lambda>p. \<lparr>ma_payload = p, ma_call_id = None\<rparr>) (filter (\<lambda>p. \<not> completes p) ps)
    \<and> (None \<in> set os \<longleftrightarrow> (\<exists>p \<in> set ps. completes p))"
    by (induction ps arbitrary: os)
      (auto simp: bind_Inr map_sum_Inr content_segment_def completes_def List.map_filter_simps split: if_splits)
  with t show ?thesis by simp
qed

lemma content_cases:
  assumes "normalize_response loads content [] = Inr t"
  obtains (marked) ps reason where "parse_marked loads content = Inr ps" "content_turn reason content ps = Inr t"
    | (single) p reason where "parse_object loads content = Inr p" "content_turn reason content [p] = Inr t"
    | (plain) "t = \<lparr>nt_actions = [], nt_assistant_text = content, nt_declared_complete = False\<rparr>"
  using assms by (auto simp: normalize_response_def bind_Inr structured_Inr split: if_splits)

text \<open>C30: model output becomes actions without guessing. Native tool calls are taken one to one and in order, and never declare
  completion: the arguments of each decode to an object in which no key is repeated at any depth and no value is \<open>NaN\<close>
  or \<open>Infinity\<close>, the action carries all its members with their values, and the name of the tool, which the arguments may
  repeat but not change, and the identifier of the call. Text without markers that does not start with a brace gives
  no action and no completion. Otherwise the actions are, in order, the objects that the marked segments, or
  the whole text, denote in the same strict sense and that do not declare completion, each with a tool name that is text;
  completion is declared exactly by an object that says so. Whatever repeats a key is refused and not repaired.\<close>

theorem normalize_never_guesses:
  assumes "normalize_response loads content calls = Inr t"
  shows "nt_assistant_text t = content
    \<and> (calls \<noteq> [] \<longrightarrow> list_all2 (action_of_call loads) calls (nt_actions t) \<and> \<not> nt_declared_complete t)
    \<and> (calls = [] \<and> \<not> sublist action_open content \<and> \<not> sublist action_close content \<and> \<not> lstrip_starts ''{'' content
         \<longrightarrow> nt_actions t = [] \<and> \<not> nt_declared_complete t)
    \<and> (calls = [] \<and> (sublist action_open content \<or> sublist action_close content \<or> lstrip_starts ''{'' content) \<longrightarrow>
         (\<exists>ss ps. (ss = [content] \<or> marked_segments (splitlines content) ss) \<and> list_all2 (denotes loads) ss ps
            \<and> (\<forall>p \<in> set ps. completes p \<or> is_text (map_of p ''tool''))
            \<and> nt_actions t = map (\<lambda>p. \<lparr>ma_payload = p, ma_call_id = None\<rparr>) (filter (\<lambda>p. \<not> completes p) ps)
            \<and> (nt_declared_complete t \<longleftrightarrow> (\<exists>p \<in> set ps. completes p))))"
proof (cases "calls = []")
  case False
  with assms obtain as where as: "traverse (native_action loads) calls = Inr as"
    and t: "t = \<lparr>nt_actions = as, nt_assistant_text = content, nt_declared_complete = False\<rparr>"
    by (auto simp: normalize_response_def map_sum_Inr)
  have "list_all2 (action_of_call loads) calls as"
    using traverse_Inr_length [OF as] traverse_Inr_nth [OF as] by (auto simp: list_all2_conv_all_nth intro: native_action_Inr)
  with t False show ?thesis by simp
next
  case True
  have t: "normalize_response loads content [] = Inr t" using assms True by simp
  have plain: "t = \<lparr>nt_actions = [], nt_assistant_text = content, nt_declared_complete = False\<rparr>"
    if "\<not> sublist action_open content" "\<not> sublist action_close content" "\<not> lstrip_starts ''{'' content"
    using t that by (simp add: normalize_response_def)
  show ?thesis
  proof (cases "sublist action_open content \<or> sublist action_close content \<or> lstrip_starts ''{'' content")
    case objects: True
    with t obtain ps reason where turn: "content_turn reason content ps = Inr t"
        and read: "parse_marked loads content = Inr ps \<or> (\<exists>p. ps = [p] \<and> parse_object loads content = Inr p)"
      by (auto simp: normalize_response_def bind_Inr structured_Inr split: if_splits)
    have "list_all2 (denotes loads) [content] [p]" if "parse_object loads content = Inr p" for p
      using that by (simp add: parse_object_denotes)
    with read parse_marked_segments [of loads content ps]
    have "\<exists>ss. (ss = [content] \<or> marked_segments (splitlines content) ss) \<and> list_all2 (denotes loads) ss ps" by blast
    with content_turn_Inr [OF turn] True objects show ?thesis by blast
  next
    case False
    with plain True show ?thesis by simp
  qed
qed

text \<open>A decoder that knows one text.\<close>

definition ex_loads :: "string \<Rightarrow> loads_result" where
  "ex_loads s = (if s = ''x'' then Loaded (RObj [(''path'', RStr ''a'')]) else if s = ''9'' then Raised (ValueError ''int'')
     else if s = ''d'' then Loaded (RObj [(''path'', RStr ''a''), (''path'', RStr ''b'')]) else Malformed)"

theorem normalize_never_guesses_witness:
  "\<exists>t. normalize_response ex_loads [] [\<lparr>tc_name = ''ReadFile'', tc_arguments = ''x'', tc_call_id = ''c1''\<rparr>] = Inr t
     \<and> nt_actions t = [\<lparr>ma_payload = [(''tool'', PStr ''ReadFile''), (''path'', PStr ''a'')], ma_call_id = Some ''c1''\<rparr>]
     \<and> \<not> nt_declared_complete t"
proof -
  obtain t where t: "normalize_response ex_loads [] [\<lparr>tc_name = ''ReadFile'', tc_arguments = ''x'', tc_call_id = ''c1''\<rparr>] = Inr t"
    by (simp add: normalize_response_def native_action_def structured_def parse_object_def ex_loads_def as_object_def)
  show ?thesis
    using normalize_never_guesses [OF t] t
    by (auto simp: list_all2_Cons1 action_of_call_def denotes_def ex_loads_def intro!: model_action.equality)
qed

text \<open>Arguments that repeat a key are refused.\<close>

lemma repeated_key_refused:
  "normalize_response ex_loads [] [\<lparr>tc_name = ''ReadFile'', tc_arguments = ''d'', tc_call_id = ''c1''\<rparr>]
     = Inl (NotNormal ''structured response JSON is invalid'')"
  by (simp add: normalize_response_def native_action_def structured_def parse_object_def ex_loads_def)

text \<open>Only \<open>JSONDecodeError\<close> and the errors of the hooks become \<open>NormalizationError\<close>: any other exception of the
  decoder leaves the normaliser.\<close>

lemma decoder_exception_escapes:
  "normalize_response ex_loads [] [\<lparr>tc_name = ''ReadFile'', tc_arguments = ''9'', tc_call_id = ''c1''\<rparr>] = Inl (Escaped (ValueError ''int''))"
  by (simp add: normalize_response_def native_action_def structured_def parse_object_def ex_loads_def)

end
