(* ===== verification/Agent_Loop.thy ===== *)
theory Agent_Loop
  imports Action_Protocol Budget
begin

text \<open>
  \<open>runtime/binding.py\<close>, the session contracts of \<open>runtime/loop_contracts.py\<close>, and \<open>AgentLoop\<close> of \<open>runtime/loop.py\<close>: one
  session of a model with its tools, from admission to checkpoint. The provider, the tool gateway, the
  checkpoint, the cancellation gate, the wallet and the usage sink are ports over a world \<open>'w\<close>; a call returns its
  outcome and the new world. While a provider or tool call runs, a watcher polls the cancellation gate:
  the port of the call says whether the token was cancelled meanwhile. Task cancellation by asyncio itself
  (\<open>CancelledError\<close>) is not modelled; a gateway that hands out an awaitable is awaited inside its port, and the notice of a
  cancellation does not raise. \<open>str\<close> of a tool result is the parameter \<open>show\<close>, the digest of canonical JSON the
  parameter \<open>digest\<close>, \<open>json.loads\<close> the parameter \<open>loads\<close>.
\<close>

section \<open>Bindings and admission\<close>

datatype model_profile = Reasoning | Code

fun model_profile_value :: "model_profile \<Rightarrow> string" where
  "model_profile_value Reasoning = ''REASONING''"
| "model_profile_value Code = ''CODE''"

record locked_model_binding =
  lb_provider_id :: string
  lb_model_id :: string
  lb_profile :: model_profile
  lb_config_revision :: string
  lb_context_window :: int
  lb_output_cap :: int
  lb_input_cost_micros_per_1k :: int
  lb_output_cost_micros_per_1k :: int

definition locked_model_binding_init :: "locked_model_binding \<Rightarrow> locked_model_binding res" where
  "locked_model_binding_init b =
     (if lb_provider_id b = [] \<or> lb_model_id b = [] \<or> lb_config_revision b = []
      then Inl (ValueError ''provider, model, and config revision are required'')
      else if lb_context_window b \<le> 0 \<or> lb_output_cap b \<le> 0
      then Inl (ValueError ''context window and output cap must be positive'')
      else if lb_output_cap b \<ge> lb_context_window b then Inl (ValueError ''output cap must leave room for input'')
      else if lb_input_cost_micros_per_1k b < 0 \<or> lb_output_cost_micros_per_1k b < 0
      then Inl (ValueError ''pricing values must not be negative'')
      else Inr b)"

definition binding_digest :: "(pyval \<Rightarrow> string) \<Rightarrow> locked_model_binding \<Rightarrow> string" where
  "binding_digest digest b =
     digest (obj [(''provider_id'', PStr (lb_provider_id b)), (''model_id'', PStr (lb_model_id b)),
       (''profile'', PStr (model_profile_value (lb_profile b))), (''config_revision'', PStr (lb_config_revision b)),
       (''context_window'', PInt (lb_context_window b)), (''output_cap'', PInt (lb_output_cap b)),
       (''input_cost_micros_per_1k'', PInt (lb_input_cost_micros_per_1k b)),
       (''output_cost_micros_per_1k'', PInt (lb_output_cost_micros_per_1k b))])"

record loop_identity =
  li_run_id :: uuid
  li_phase :: phase
  li_session_kind :: session_kind
  li_slice_ref :: "slice_generation_ref option"

record session_spec =
  ss_identity :: loop_identity
  ss_run_status :: run_status
  ss_binding :: locked_model_binding
  ss_context_pack :: context_pack
  ss_context :: context_envelope
  ss_template :: string
  ss_state :: session_state
  ss_agent_run_id :: "uuid option"

text \<open>What may leave \<open>_run\<close> as an exception.\<close>

datatype loop_error =
    BindingError string
  | ContextOverflow
  | ContextFault ctx_exn
  | LoopPy py_exn

definition expected_admission :: "phase \<Rightarrow> (run_status \<times> model_profile) option" where
  "expected_admission p = (case p of PhPlan \<Rightarrow> Some (Planning, Reasoning) | PhExecute \<Rightarrow> Some (Executing, Code) | _ \<Rightarrow> None)"

definition validate_session_admission :: "(pyval \<Rightarrow> string) \<Rightarrow> session_spec \<Rightarrow> loop_error + unit" where
  "validate_session_admission digest sp =
     (let i = ss_identity sp; frozen = cp_identity (ss_context_pack sp) in
      case expected_admission (li_phase i) of
        None \<Rightarrow> Inl (BindingError ''VERIFY and REPORT cannot admit a model session'')
      | Some (status, profile) \<Rightarrow>
          if ss_run_status sp \<noteq> status then Inl (BindingError ''phase and run status do not match'')
          else if lb_profile (ss_binding sp) \<noteq> profile then Inl (BindingError ''phase requires a different model profile'')
          else if ss_state sp \<noteq> SsCreated then Inl (BindingError ''session can only be admitted from CREATED'')
          else if li_phase i = PhPlan \<and> li_session_kind i \<noteq> PlanAuxiliary
          then Inl (BindingError ''session kind is not admitted in PLAN'')
          else if li_phase i = PhExecute \<and> session_kind_value (li_session_kind i) \<in> {''ANALYZE_AUXILIARY'', ''PLAN_AUXILIARY''}
          then Inl (BindingError ''session kind is not admitted in EXECUTE'')
          else if ci_run_id frozen \<noteq> li_run_id i \<or> ci_phase frozen \<noteq> li_phase i
          then Inl (BindingError ''context identity does not match session'')
          else if ci_session frozen \<noteq> li_session_kind i then Inl (BindingError ''session kind does not match context'')
          else if ci_model_binding_sha256 frozen \<noteq> binding_digest digest (ss_binding sp)
          then Inl (BindingError ''model binding digest does not match context'')
          else if ci_slice frozen \<noteq> li_slice_ref i then Inl (BindingError ''slice identity does not match context'')
          else Inr ())"

text \<open>\<open>len / 4 * 1.2\<close> in binary64, rounded up. The literal is the double nearest to 1.2.\<close>

definition literal_1_2 :: rat where
  "literal_1_2 = 5404319552844595 / 2 ^ 52"

definition float_mul :: "rat \<Rightarrow> rat \<Rightarrow> rat" where
  "float_mul x y = (let (a, b) = quotient_of (x * y) in if a = 0 then 0 else round_at (binade a b) (x * y))"

definition estimate_net_input_tokens :: "string \<Rightarrow> int res" where
  "estimate_net_input_tokens s = map_sum id (\<lambda>x. \<lceil>float_mul x literal_1_2\<rceil>) (py_truediv (int (length s)) 4)"

definition ensure_context_fits :: "string \<Rightarrow> locked_model_binding \<Rightarrow> loop_error + int" where
  "ensure_context_fits s b =
     bind_res (map_sum LoopPy id (estimate_net_input_tokens s)) (\<lambda>estimated.
       if estimated + lb_output_cap b > lb_context_window b then Inl ContextOverflow else Inr estimated)"

section \<open>Values of the loop\<close>

record provider_response =
  pr_content :: string
  pr_tool_calls :: "provider_tool_call list"
  pr_finish_reason :: string
  pr_usage :: token_usage
  pr_model :: string
  pr_provider_receipt_id :: string

record call_identity =
  ca_call_id :: string
  ca_provider_receipt_id :: string
  ca_provider_id :: string
  ca_model_id :: string
  ca_session_key :: string

record usage_receipt =
  ur_run_id :: uuid
  ur_call :: call_identity
  ur_usage :: token_usage
  ur_provenance :: "loop_identity \<times> uuid option"

text \<open>The global identity of a receipt, under which the wallet counts it once.\<close>

definition receipt_id :: "usage_receipt \<Rightarrow> string" where
  "receipt_id r = str_uuid (ur_run_id r) @ '':'' @ ca_provider_receipt_id (ur_call r)"

datatype tool_value = ToolReturned pyval | ToolFailed string

record tool_observation =
  to_round_index :: nat
  to_segment_index :: nat
  to_action :: payload
  to_result :: tool_value

record checkpoint_decision =
  cd_accepted :: bool
  cd_committed :: bool
  cd_rejection_reasons :: "string list"
  cd_owner_receipt :: "agent_run_receipt option"
  cd_candidate_checkpoint_sha256 :: "string option"

record session_result =
  sr_state :: session_state
  sr_exit :: session_exit
  sr_observations :: "tool_observation list"
  sr_assistant_texts :: "string list"
  sr_usages :: "token_usage list"
  sr_outcome_published :: bool
  sr_rounds :: nat
  sr_failure :: "string option"
  sr_provenance :: "loop_identity \<times> uuid option"
  sr_candidate_checkpoint_sha256 :: "string option"

record loop_state =
  ls_messages :: "prompt_message list"
  ls_observations :: "tool_observation list"
  ls_assistant_texts :: "string list"
  ls_usages :: "token_usage list"
  ls_self_corrections :: nat

section \<open>Ports\<close>

datatype provider_outcome =
    Responded provider_response
  | ProviderCancelled
  | ProviderFailed (pf_retryable: bool) (pf_cancelled: bool)
  | ProviderRaised

datatype dispatch_outcome = Dispatched pyval | DispatchRaised string | DispatchCancelled

record 'w loop_ports =
  lp_complete :: "locked_model_binding \<Rightarrow> prompt_message list \<Rightarrow> 'w \<Rightarrow> (provider_outcome \<times> bool) \<times> 'w"
  lp_dispatch :: "payload \<Rightarrow> 'w \<Rightarrow> (dispatch_outcome \<times> bool) \<times> 'w"
  lp_checkpoint :: "(session_spec \<Rightarrow> tool_observation list \<Rightarrow> 'w \<Rightarrow> checkpoint_decision option \<times> 'w) option"
  lp_allow :: "(loop_identity \<Rightarrow> 'w \<Rightarrow> bool res \<times> 'w) option"
  lp_cancel :: "loop_identity \<Rightarrow> 'w \<Rightarrow> 'w"
  lp_budget :: "((loop_identity \<Rightarrow> 'w \<Rightarrow> bool res \<times> 'w) \<times> (usage_receipt \<Rightarrow> 'w \<Rightarrow> bool res \<times> 'w)) option"
  lp_usage_sink :: "(usage_receipt \<Rightarrow> 'w \<Rightarrow> unit res \<times> 'w) option"
  lp_max_self_corrections :: int
  lp_context_manager :: "context_manager option"
  lp_tool_schema_tokens :: int
  lp_envelope_margin :: int

definition agent_loop_init :: "'w loop_ports \<Rightarrow> 'w loop_ports res" where
  "agent_loop_init P =
     (if lp_max_self_corrections P < 0 then Inl (ValueError ''max self corrections must not be negative'')
      else if lp_tool_schema_tokens P < 0 \<or> lp_envelope_margin P < 0
      then Inl (ValueError ''context measurement margins must not be negative'')
      else Inr P)"

section \<open>Programs\<close>

text \<open>A piece of \<open>_run\<close> raises, returns the result of the session, or goes on with a value.\<close>

datatype 'a step = Return session_result | Go 'a

type_synonym ('w, 'a) prog = "'w \<Rightarrow> (loop_error + 'a step) \<times> 'w"

definition prog_then :: "('w, 'a) prog \<Rightarrow> ('a \<Rightarrow> ('w, 'b) prog) \<Rightarrow> ('w, 'b) prog" where
  "prog_then p f w =
     (case p w of
        (Inl e, w') \<Rightarrow> (Inl e, w')
      | (Inr (Return r), w') \<Rightarrow> (Inr (Return r), w')
      | (Inr (Go x), w') \<Rightarrow> f x w')"

definition prog_give :: "'a \<Rightarrow> ('w, 'a) prog" where
  "prog_give x w = (Inr (Go x), w)"

definition prog_stop :: "session_result \<Rightarrow> ('w, 'a) prog" where
  "prog_stop r w = (Inr (Return r), w)"

definition prog_raise :: "loop_error \<Rightarrow> ('w, 'a) prog" where
  "prog_raise e w = (Inl e, w)"

text \<open>Call a port that may raise.\<close>

definition prog_port :: "('w \<Rightarrow> 'a res \<times> 'w) \<Rightarrow> ('w, 'a) prog" where
  "prog_port f w = (case f w of (Inl e, w') \<Rightarrow> (Inl (LoopPy e), w') | (Inr x, w') \<Rightarrow> (Inr (Go x), w'))"

text \<open>Call one that does not.\<close>

definition prog_call :: "('w \<Rightarrow> 'a \<times> 'w) \<Rightarrow> ('w, 'a) prog" where
  "prog_call f w = (case f w of (x, w') \<Rightarrow> (Inr (Go x), w'))"

section \<open>Results\<close>

definition provenance_of :: "session_spec \<Rightarrow> loop_identity \<times> uuid option" where
  "provenance_of sp = (ss_identity sp, ss_agent_run_id sp)"

definition result_of :: "session_spec \<Rightarrow> session_state \<Rightarrow> session_exit \<Rightarrow> loop_state \<Rightarrow> nat \<Rightarrow> session_result" where
  "result_of sp state exit st rounds =
     \<lparr>sr_state = state, sr_exit = exit, sr_observations = ls_observations st, sr_assistant_texts = ls_assistant_texts st,
      sr_usages = ls_usages st, sr_outcome_published = False, sr_rounds = rounds, sr_failure = None,
      sr_provenance = provenance_of sp, sr_candidate_checkpoint_sha256 = None\<rparr>"

definition failed_result :: "session_spec \<Rightarrow> loop_state \<Rightarrow> nat \<Rightarrow> string \<Rightarrow> session_result" where
  "failed_result sp st rounds failure = result_of sp SsFailed SxFailed st rounds \<lparr>sr_failure := Some failure\<rparr>"

definition budget_exhausted_result :: "session_spec \<Rightarrow> loop_state \<Rightarrow> nat \<Rightarrow> session_result" where
  "budget_exhausted_result sp st rounds =
     result_of sp SsFailed SxBudgetExhausted st rounds \<lparr>sr_failure := Some ''BUDGET_EXHAUSTED''\<rparr>"

definition invalidated_result :: "session_spec \<Rightarrow> loop_state \<Rightarrow> nat \<Rightarrow> session_result" where
  "invalidated_result sp st rounds = result_of sp SsInvalidated SxInvalidated st rounds"

definition loop_write_kinds :: "session_kind list" where
  "loop_write_kinds = [SkContract, SkImplementation, SkTestTranslation, SkTestGeneration, RepairSession]"

definition requires_candidate_checkpoint :: "loop_identity \<Rightarrow> bool" where
  "requires_candidate_checkpoint i \<longleftrightarrow> li_phase i = PhExecute \<and> li_session_kind i \<in> set loop_write_kinds"

definition session_key :: "loop_identity \<Rightarrow> string" where
  "session_key i =
     str_uuid (li_run_id i) @ '':'' @ phase_value (li_phase i) @ '':'' @ session_kind_value (li_session_kind i) @ '':''
     @ (case li_slice_ref i of None \<Rightarrow> ''none'' | Some r \<Rightarrow> str_uuid (sg_slice_id r)) @ '':''
     @ (case li_slice_ref i of None \<Rightarrow> ''none'' | Some r \<Rightarrow> str_int (sg_generation r))"

section \<open>Gates\<close>

definition allowed :: "'w loop_ports \<Rightarrow> session_spec \<Rightarrow> 'w \<Rightarrow> bool res \<times> 'w" where
  "allowed P sp w = (case lp_allow P of None \<Rightarrow> (Inr True, w) | Some allow \<Rightarrow> allow (ss_identity sp) w)"

text \<open>\<open>if token.cancelled or not await self._allowed(...): return self._invalidated(...)\<close>.\<close>

definition gate :: "'w loop_ports \<Rightarrow> session_spec \<Rightarrow> loop_state \<Rightarrow> nat \<Rightarrow> bool \<Rightarrow> ('w, unit) prog" where
  "gate P sp st rounds cancelled =
     (if cancelled then prog_stop (invalidated_result sp st rounds)
      else prog_then (prog_port (allowed P sp)) (\<lambda>ok.
        if ok then prog_give () else prog_stop (invalidated_result sp st rounds)))"

definition budget_admit :: "'w loop_ports \<Rightarrow> session_spec \<Rightarrow> loop_state \<Rightarrow> nat \<Rightarrow> ('w, unit) prog" where
  "budget_admit P sp st rounds =
     (case lp_budget P of
        None \<Rightarrow> prog_give ()
      | Some (admit, _) \<Rightarrow> prog_then (prog_port (admit (ss_identity sp))) (\<lambda>ok.
          if ok then prog_give () else prog_stop (budget_exhausted_result sp st rounds)))"

definition context_fits :: "'w loop_ports \<Rightarrow> session_spec \<Rightarrow> prompt_message list \<Rightarrow> loop_error + int" where
  "context_fits P sp messages =
     (case lp_context_manager P of
        Some mgr \<Rightarrow> map_sum ContextFault id (fit_messages mgr messages
          \<lparr>in_window = lb_context_window (ss_binding sp), in_reserved = lb_output_cap (ss_binding sp),
           in_schema = lp_tool_schema_tokens P, in_margin = lp_envelope_margin P\<rparr>)
      | None \<Rightarrow> if ci_template_sha256 (cp_identity (ss_context_pack sp)) \<noteq> zero_digest
          then Inl (ContextFault (BudgetErr ''CONTEXT_CAPABILITY_INVALID'' ''a frozen M-14 context pack requires the unified ContextManager''))
          else ensure_context_fits (prompt_text messages) (ss_binding sp))"

definition overflow_error :: "loop_error \<Rightarrow> bool" where
  "overflow_error e = (case e of ContextOverflow \<Rightarrow> True | ContextFault (BudgetErr _ _) \<Rightarrow> True | _ \<Rightarrow> False)"

definition fit_stage :: "'w loop_ports \<Rightarrow> session_spec \<Rightarrow> loop_state \<Rightarrow> nat \<Rightarrow> ('w, unit) prog" where
  "fit_stage P sp st rounds =
     (case context_fits P sp (ls_messages st) of
        Inr _ \<Rightarrow> prog_give ()
      | Inl e \<Rightarrow> if overflow_error e then prog_stop (failed_result sp st rounds ''CONTEXT_OVERFLOW'') else prog_raise e)"

section \<open>Calls\<close>

text \<open>\<open>_provider_call\<close>: the identity is checked again after the call; a lost gate cancels the session.\<close>

definition provider_call :: "'w loop_ports \<Rightarrow> session_spec \<Rightarrow> prompt_message list \<Rightarrow> 'w \<Rightarrow> provider_outcome \<times> 'w" where
  "provider_call P sp messages w =
     (case lp_complete P (ss_binding sp) messages w of
        ((Responded r, cancelled), w1) \<Rightarrow>
          if cancelled then (ProviderCancelled, w1)
          else (case allowed P sp w1 of
              (Inl _, w2) \<Rightarrow> (ProviderRaised, w2)
            | (Inr True, w2) \<Rightarrow> (Responded r, w2)
            | (Inr False, w2) \<Rightarrow> (ProviderCancelled, lp_cancel P (ss_identity sp) w2))
      | ((failure, _), w1) \<Rightarrow> (failure, w1))"

definition provider_stage :: "'w loop_ports \<Rightarrow> session_spec \<Rightarrow> loop_state \<Rightarrow> nat \<Rightarrow> ('w, provider_response) prog" where
  "provider_stage P sp st rounds =
     prog_then (prog_call (provider_call P sp (ls_messages st))) (\<lambda>outcome. case outcome of
         Responded r \<Rightarrow> prog_give r
       | ProviderCancelled \<Rightarrow> prog_stop (invalidated_result sp st rounds)
       | ProviderFailed retryable cancelled \<Rightarrow>
           prog_stop (if cancelled then invalidated_result sp st rounds
                      else failed_result sp st rounds (if retryable then ''RETRYABLE_PROVIDER_ERROR'' else ''PROVIDER_ERROR''))
       | ProviderRaised \<Rightarrow> prog_stop (failed_result sp st rounds ''PROVIDER_ERROR''))"

definition call_id_of :: "session_spec \<Rightarrow> nat \<Rightarrow> string" where
  "call_id_of sp rounds = str_uuid (li_run_id (ss_identity sp)) @ '':'' @ str_nat rounds"

definition usage_receipt_of :: "session_spec \<Rightarrow> nat \<Rightarrow> provider_response \<Rightarrow> usage_receipt" where
  "usage_receipt_of sp rounds r =
     \<lparr>ur_run_id = li_run_id (ss_identity sp),
      ur_call = \<lparr>ca_call_id = call_id_of sp rounds,
                 ca_provider_receipt_id = (if pr_provider_receipt_id r = [] then call_id_of sp rounds else pr_provider_receipt_id r),
                 ca_provider_id = lb_provider_id (ss_binding sp), ca_model_id = lb_model_id (ss_binding sp),
                 ca_session_key = session_key (ss_identity sp)\<rparr>,
      ur_usage = pr_usage r, ur_provenance = provenance_of sp\<rparr>"

definition usage_stage :: "'w loop_ports \<Rightarrow> session_spec \<Rightarrow> loop_state \<Rightarrow> nat \<Rightarrow> provider_response \<Rightarrow> ('w, loop_state) prog" where
  "usage_stage P sp st rounds r =
     (let receipt = usage_receipt_of sp rounds r; st' = st\<lparr>ls_usages := ls_usages st @ [pr_usage r]\<rparr> in
      prog_then (case lp_usage_sink P of None \<Rightarrow> prog_give () | Some sink \<Rightarrow> prog_port (sink receipt)) (\<lambda>_.
        case lp_budget P of
          None \<Rightarrow> prog_give st'
        | Some (_, record_receipt) \<Rightarrow> prog_then (prog_port (record_receipt receipt)) (\<lambda>ok.
            if ok then prog_give st' else prog_stop (budget_exhausted_result sp st' rounds))))"

definition normalize_stage ::
  "(string \<Rightarrow> loads_result) \<Rightarrow> session_spec \<Rightarrow> loop_state \<Rightarrow> nat \<Rightarrow> provider_response \<Rightarrow> ('w, normalized_turn) prog" where
  "normalize_stage loads sp st rounds r =
     (case normalize_response loads (pr_content r) (pr_tool_calls r) of
        Inr turn \<Rightarrow> prog_give turn
      | Inl (NotNormal _) \<Rightarrow> prog_stop (failed_result sp st rounds ''NORMALIZATION_ERROR'')
      | Inl (Escaped e) \<Rightarrow> prog_raise (LoopPy e))"

definition plain_message :: "string \<Rightarrow> string \<Rightarrow> prompt_message" where
  "plain_message role content =
     \<lparr>pm_role = role, pm_content = content, pm_segment_kind = None, pm_tool_call_id = None, pm_tool_name = None,
      pm_native_tool_calls = []\<rparr>"

definition record_response :: "session_spec \<Rightarrow> nat \<Rightarrow> provider_response \<Rightarrow> loop_state \<Rightarrow> loop_state" where
  "record_response sp rounds r st =
     (if pr_content r = [] \<and> pr_tool_calls r = [] then st
      else st\<lparr>ls_messages := ls_messages st @ [(plain_message ''assistant'' (pr_content r))
                \<lparr>pm_native_tool_calls := map (\<lambda>(i, c). (if tc_call_id c = [] then call_id_of sp rounds @ '':'' @ str_nat i else tc_call_id c,
                     tc_name c, tc_arguments c)) (enum_list (pr_tool_calls r))\<rparr>],
              ls_assistant_texts := ls_assistant_texts st @ (if pr_content r = [] then [] else [pr_content r])\<rparr>)"

section \<open>Tools\<close>

fun exception_name :: "py_exn \<Rightarrow> string" where
  "exception_name (TypeError _) = ''TypeError''"
| "exception_name (ValueError _) = ''ValueError''"
| "exception_name (RuntimeError _) = ''RuntimeError''"
| "exception_name (KeyError _) = ''KeyError''"
| "exception_name (IndexError _) = ''IndexError''"
| "exception_name (ZeroDivisionError _) = ''ZeroDivisionError''"
| "exception_name (OverflowError _) = ''OverflowError''"
| "exception_name (StoreCommitError _) = ''StoreCommitError''"
| "exception_name (AssertionError _) = ''AssertionError''"
| "exception_name (AttributeError _) = ''AttributeError''"

text \<open>\<open>_dispatch\<close>: the result of the tool (or its exception) and whether the token is cancelled, or \<open>SessionCancelled\<close>.\<close>

definition dispatch_call :: "'w loop_ports \<Rightarrow> session_spec \<Rightarrow> payload \<Rightarrow> 'w \<Rightarrow> (tool_value \<times> bool) option \<times> 'w" where
  "dispatch_call P sp p w =
     (case lp_dispatch P p w of
        ((Dispatched v, cancelled), w1) \<Rightarrow>
          if cancelled then (None, w1)
          else (case allowed P sp w1 of
              (Inl e, w2) \<Rightarrow> (Some (ToolFailed (exception_name e), False), w2)
            | (Inr True, w2) \<Rightarrow> (Some (ToolReturned v, False), w2)
            | (Inr False, w2) \<Rightarrow> (None, lp_cancel P (ss_identity sp) w2))
      | ((DispatchRaised name, cancelled), w1) \<Rightarrow> (Some (ToolFailed name, cancelled), w1)
      | ((DispatchCancelled, _), w1) \<Rightarrow> (None, w1))"

definition observation_message :: "(pyval \<Rightarrow> string) \<Rightarrow> nat \<Rightarrow> model_action \<Rightarrow> tool_value \<Rightarrow> prompt_message" where
  "observation_message show_value segment a result =
     (let value = (case result of ToolFailed name \<Rightarrow> ''tool execution failed: '' @ name | ToolReturned v \<Rightarrow> show_value v)
      in case ma_call_id a of
           None \<Rightarrow> plain_message ''user'' (''[tool.result:'' @ str_nat segment @ '']'' @ newline @ value)
         | Some i \<Rightarrow> (plain_message ''tool'' value)\<lparr>pm_tool_call_id := Some i,
               pm_tool_name := Some (case map_of (ma_payload a) ''tool'' of None \<Rightarrow> [] | Some v \<Rightarrow> show_value v)\<rparr>)"

fun action_loop ::
  "'w loop_ports \<Rightarrow> (pyval \<Rightarrow> string) \<Rightarrow> session_spec \<Rightarrow> nat \<Rightarrow> (nat \<times> model_action) list \<Rightarrow> loop_state \<Rightarrow> ('w, loop_state) prog" where
  "action_loop P show_value sp rounds [] st = prog_give st"
| "action_loop P show_value sp rounds ((segment, a) # as) st =
     prog_then (gate P sp st rounds False) (\<lambda>_.
     prog_then (prog_call (dispatch_call P sp (ma_payload a))) (\<lambda>outcome. case outcome of
         None \<Rightarrow> prog_stop (invalidated_result sp st rounds)
       | Some (result, cancelled) \<Rightarrow>
           prog_then (gate P sp st rounds cancelled) (\<lambda>_.
             action_loop P show_value sp rounds as
               (st\<lparr>ls_observations := ls_observations st @ [\<lparr>to_round_index = rounds, to_segment_index = segment,
                       to_action = ma_payload a, to_result = result\<rparr>],
                   ls_messages := ls_messages st @ [observation_message show_value segment a result]\<rparr>))))"

section \<open>Checkpoint\<close>

definition publishable :: "session_spec \<Rightarrow> checkpoint_decision \<Rightarrow> bool" where
  "publishable sp d \<longleftrightarrow>
     cd_accepted d \<and> cd_committed d
     \<and> (case ss_agent_run_id sp of None \<Rightarrow> True
        | Some i \<Rightarrow> (case cd_owner_receipt d of None \<Rightarrow> False | Some receipt \<Rightarrow>
            rc_agent_run_id receipt = i
            \<and> (\<not> requires_candidate_checkpoint (ss_identity sp)
               \<or> (case cd_candidate_checkpoint_sha256 d of None \<Rightarrow> False | Some sha \<Rightarrow> is_sha256 sha))))"

definition default_decision :: checkpoint_decision where
  "default_decision = \<lparr>cd_accepted = True, cd_committed = True, cd_rejection_reasons = [], cd_owner_receipt = None,
     cd_candidate_checkpoint_sha256 = None\<rparr>"

definition precheck :: "'w loop_ports \<Rightarrow> session_spec \<Rightarrow> loop_state \<Rightarrow> 'w \<Rightarrow> checkpoint_decision option \<times> 'w" where
  "precheck P sp st w =
     (case lp_checkpoint P of
        None \<Rightarrow> (Some default_decision, w)
      | Some check \<Rightarrow> check (sp\<lparr>ss_state := SsCheckpointPending\<rparr>) (ls_observations st) w)"

definition decide :: "'w loop_ports \<Rightarrow> session_spec \<Rightarrow> nat \<Rightarrow> loop_state \<Rightarrow> checkpoint_decision \<Rightarrow> ('w, loop_state) prog" where
  "decide P sp rounds st d =
     (if publishable sp d
      then prog_stop (result_of sp SsClosed SxCompleted st rounds
             \<lparr>sr_outcome_published := True, sr_candidate_checkpoint_sha256 := cd_candidate_checkpoint_sha256 d\<rparr>)
      else if cd_accepted d
      then prog_stop (result_of sp SsCheckpointPending SxCompleted st rounds
             \<lparr>sr_candidate_checkpoint_sha256 := cd_candidate_checkpoint_sha256 d\<rparr>)
      else if int (ls_self_corrections st) + 1 > lp_max_self_corrections P
      then prog_stop (failed_result sp st rounds ''CHECKPOINT_REJECTED_TOO_MANY_TIMES'')
      else let joined = join_with '', '' (cd_rejection_reasons d);
               reasons = (if joined = [] then ''checkpoint rejected'' else joined)
           in prog_give (st\<lparr>ls_self_corrections := Suc (ls_self_corrections st),
                ls_messages := ls_messages st @ [plain_message ''user'' (''[checkpoint.rejection]'' @ newline @ reasons)]\<rparr>))"

definition checkpoint_stage :: "'w loop_ports \<Rightarrow> session_spec \<Rightarrow> nat \<Rightarrow> loop_state \<Rightarrow> ('w, loop_state) prog" where
  "checkpoint_stage P sp rounds st =
     prog_then (gate P sp st rounds False) (\<lambda>_.
     prog_then (prog_call (precheck P sp st)) (\<lambda>outcome. case outcome of
         None \<Rightarrow> prog_stop (failed_result sp st rounds ''CHECKPOINT_ERROR'')
       | Some d \<Rightarrow> decide P sp rounds st d))"

section \<open>The loop\<close>

definition turn_stage ::
  "'w loop_ports \<Rightarrow> (pyval \<Rightarrow> string) \<Rightarrow> session_spec \<Rightarrow> nat \<Rightarrow> provider_response \<Rightarrow> normalized_turn \<Rightarrow> loop_state \<Rightarrow> ('w, loop_state) prog" where
  "turn_stage P show_value sp rounds r turn st =
     prog_then (gate P sp st rounds False) (\<lambda>_.
     prog_then (action_loop P show_value sp rounds (enum_list (nt_actions turn)) st) (\<lambda>st.
       if nt_declared_complete turn then checkpoint_stage P sp rounds st
       else if nt_actions turn = [] \<and> pr_finish_reason r \<in> {''stop'', ''end_turn''}
       then prog_stop (result_of sp SsClosed SxSegmentStopped st rounds)
       else prog_give st))"

definition run_round ::
  "'w loop_ports \<Rightarrow> (string \<Rightarrow> loads_result) \<Rightarrow> (pyval \<Rightarrow> string) \<Rightarrow> session_spec \<Rightarrow> nat \<Rightarrow> loop_state \<Rightarrow> ('w, loop_state) prog" where
  "run_round P loads show_value sp rounds st =
     prog_then (gate P sp st (rounds - 1) False) (\<lambda>_.
     prog_then (budget_admit P sp st (rounds - 1)) (\<lambda>_.
     prog_then (fit_stage P sp st rounds) (\<lambda>_.
     prog_then (provider_stage P sp st rounds) (\<lambda>r.
     prog_then (gate P sp st rounds False) (\<lambda>_.
     prog_then (usage_stage P sp st rounds r) (\<lambda>st.
     prog_then (normalize_stage loads sp st rounds r) (\<lambda>turn.
       turn_stage P show_value sp rounds r turn (record_response sp rounds r st))))))))"

fun round_loop ::
  "'w loop_ports \<Rightarrow> (string \<Rightarrow> loads_result) \<Rightarrow> (pyval \<Rightarrow> string) \<Rightarrow> session_spec \<Rightarrow> nat list \<Rightarrow> loop_state \<Rightarrow> ('w, loop_state) prog" where
  "round_loop P loads show_value sp [] st =
     prog_stop (result_of sp SsClosed SxSegmentStopped st (nat (bp_max_rounds (cp_budget (ss_context_pack sp)))))"
| "round_loop P loads show_value sp (i # is) st =
     prog_then (run_round P loads show_value sp i st) (\<lambda>st. round_loop P loads show_value sp is st)"

definition agent_loop_run ::
  "'w loop_ports \<Rightarrow> (pyval \<Rightarrow> string) \<Rightarrow> (string \<Rightarrow> loads_result) \<Rightarrow> (pyval \<Rightarrow> string) \<Rightarrow> session_spec
     \<Rightarrow> ('w, loop_state) prog" where
  "agent_loop_run P digest loads show_value sp =
     (case validate_session_admission digest sp of
        Inl e \<Rightarrow> prog_raise e
      | Inr _ \<Rightarrow> (case render_prompt (ss_template sp) (ss_context sp) of
          Inl e \<Rightarrow> prog_raise (LoopPy e)
        | Inr messages \<Rightarrow> (case context_fits P sp messages of
            Inl e \<Rightarrow> prog_raise e
          | Inr _ \<Rightarrow> round_loop P loads show_value sp [1..<Suc (nat (bp_max_rounds (cp_budget (ss_context_pack sp))))]
              \<lparr>ls_messages = messages, ls_observations = [], ls_assistant_texts = [], ls_usages = [], ls_self_corrections = 0\<rparr>)))"

section \<open>Reasoning about programs\<close>

text \<open>Whatever the world: a returned result satisfies \<open>Q\<close> (with the final world), a value that goes on satisfies \<open>R\<close>.\<close>

definition prog_sat :: "(session_result \<Rightarrow> bool) \<Rightarrow> ('a \<Rightarrow> bool) \<Rightarrow> ('w, 'a) prog \<Rightarrow> bool" where
  "prog_sat Q R p \<longleftrightarrow>
     (\<forall>w r w'. p w = (Inr (Return r), w') \<longrightarrow> Q r) \<and> (\<forall>w x w'. p w = (Inr (Go x), w') \<longrightarrow> R x)"

named_theorems prog_rules \<open>rules for programs of the loop\<close>

lemma prog_satD: "prog_sat Q R p \<Longrightarrow> p w = (Inr (Return r), w') \<Longrightarrow> Q r"
  by (auto simp: prog_sat_def)

lemma sat_then [prog_rules]:
  assumes "prog_sat Q R p" "\<And>x. R x \<Longrightarrow> prog_sat Q S (f x)"
  shows "prog_sat Q S (prog_then p f)"
  using assms by (fastforce simp: prog_sat_def prog_then_def split: prod.splits sum.splits step.splits)

lemma sat_give [prog_rules]: "R x \<Longrightarrow> prog_sat Q R (prog_give x)"
  by (simp add: prog_sat_def prog_give_def)

lemma sat_stop [prog_rules]: "Q r \<Longrightarrow> prog_sat Q R (prog_stop r)"
  by (simp add: prog_sat_def prog_stop_def)

lemma sat_raise [prog_rules]: "prog_sat Q R (prog_raise e)"
  by (simp add: prog_sat_def prog_raise_def)

lemma sat_port [prog_rules]: "(\<And>x. R x) \<Longrightarrow> prog_sat Q R (prog_port f)"
  by (auto simp: prog_sat_def prog_port_def split: prod.splits sum.splits)

lemma sat_call [prog_rules]: "(\<And>w x w'. f w = (x, w') \<Longrightarrow> R x) \<Longrightarrow> prog_sat Q R (prog_call f)"
  by (auto simp: prog_sat_def prog_call_def split: prod.splits)

lemma sat_if [prog_rules]: "(b \<Longrightarrow> prog_sat Q R p) \<Longrightarrow> (\<not> b \<Longrightarrow> prog_sat Q R q) \<Longrightarrow> prog_sat Q R (if b then p else q)"
  by simp

section \<open>What a session returns\<close>

text \<open>Everything that holds of a result with \<open>rounds\<close> rounds, from the state it is made of.\<close>

definition state_ok :: "nat \<Rightarrow> loop_state \<Rightarrow> bool" where
  "state_ok n st \<longleftrightarrow> length (ls_usages st) \<le> n \<and> sorted (map to_round_index (ls_observations st))
     \<and> (\<forall>b \<in> set (ls_observations st). 1 \<le> to_round_index b \<and> to_round_index b \<le> n)"

definition result_ok :: "nat \<Rightarrow> session_result \<Rightarrow> bool" where
  "result_ok n r \<longleftrightarrow> sr_rounds r \<le> n \<and> length (sr_usages r) \<le> sr_rounds r
     \<and> sorted (map to_round_index (sr_observations r))
     \<and> (\<forall>b \<in> set (sr_observations r). 1 \<le> to_round_index b \<and> to_round_index b \<le> sr_rounds r)
     \<and> (sr_failure r \<noteq> None \<longleftrightarrow> sr_state r = SsFailed)
     \<and> (if sr_state r = SsCheckpointPending then sr_exit r = SxCompleted
        else \<exists>es. terminal_exits (sr_state r) = Some es \<and> sr_exit r \<in> set es)
     \<and> (sr_outcome_published r \<longrightarrow> sr_state r = SsClosed \<and> sr_exit r = SxCompleted)"

lemma state_ok_mono: "state_ok n st \<Longrightarrow> n \<le> m \<Longrightarrow> state_ok m st"
  by (auto simp: state_ok_def)

lemma result_ok_of:
  assumes "state_ok n st" "n \<le> m"
  shows "result_ok m (failed_result sp st n f)" "result_ok m (budget_exhausted_result sp st n)" "result_ok m (invalidated_result sp st n)"
    "result_ok m (result_of sp SsClosed SxSegmentStopped st n)"
    "result_ok m (result_of sp SsCheckpointPending SxCompleted st n \<lparr>sr_candidate_checkpoint_sha256 := c\<rparr>)"
    "result_ok m (result_of sp SsClosed SxCompleted st n \<lparr>sr_outcome_published := True, sr_candidate_checkpoint_sha256 := c\<rparr>)"
  using assms
  by (auto simp: result_ok_def state_ok_def failed_result_def budget_exhausted_result_def invalidated_result_def result_of_def)

text \<open>The gate a published outcome went through.\<close>

definition published_ok :: "'w loop_ports \<Rightarrow> session_spec \<Rightarrow> session_result \<Rightarrow> bool" where
  "published_ok P sp r \<longleftrightarrow>
     (sr_outcome_published r \<longrightarrow>
        (case lp_checkpoint P of
           None \<Rightarrow> ss_agent_run_id sp = None
         | Some check \<Rightarrow> \<exists>w w' d. check (sp\<lparr>ss_state := SsCheckpointPending\<rparr>) (sr_observations r) w = (Some d, w')
             \<and> publishable sp d \<and> sr_candidate_checkpoint_sha256 r = cd_candidate_checkpoint_sha256 d))"

lemma published_ok_of [simp]:
  "published_ok P sp (failed_result sp' st n f)" "published_ok P sp (budget_exhausted_result sp' st n)"
  "published_ok P sp (invalidated_result sp' st n)" "published_ok P sp (result_of sp' s e st n)"
  "published_ok P sp (result_of sp' s e st n \<lparr>sr_candidate_checkpoint_sha256 := c\<rparr>)"
  by (simp_all add: published_ok_def failed_result_def budget_exhausted_result_def invalidated_result_def result_of_def)

abbreviation sound :: "'w loop_ports \<Rightarrow> session_spec \<Rightarrow> nat \<Rightarrow> session_result \<Rightarrow> bool" where
  "sound P sp n r \<equiv> result_ok n r \<and> published_ok P sp r"

lemma sat_gate [prog_rules]:
  "state_ok k st \<Longrightarrow> k \<le> n \<Longrightarrow> prog_sat (sound P sp n) (\<lambda>_. True) (gate P sp st k c)"
  unfolding gate_def by (auto intro!: prog_rules intro: result_ok_of)

lemma sat_budget_admit:
  "state_ok k st \<Longrightarrow> k \<le> n \<Longrightarrow> prog_sat (sound P sp n) (\<lambda>_. True) (budget_admit P sp st k)"
  unfolding budget_admit_def by (auto intro!: prog_rules intro: result_ok_of split: option.splits)

lemma sat_fit_stage:
  "state_ok k st \<Longrightarrow> k \<le> n \<Longrightarrow> prog_sat (sound P sp n) (\<lambda>_. True) (fit_stage P sp st k)"
  unfolding fit_stage_def by (auto intro!: prog_rules intro: result_ok_of split: sum.splits)

lemma sat_provider_stage:
  "state_ok k st \<Longrightarrow> k \<le> n \<Longrightarrow> prog_sat (sound P sp n) (\<lambda>_. True) (provider_stage P sp st k)"
  unfolding provider_stage_def
  by (rule sat_then [where R = "\<lambda>_. True"]) (auto intro!: prog_rules intro: result_ok_of split: provider_outcome.splits)

lemma sat_usage_stage:
  assumes "state_ok k st" "Suc k \<le> n"
  shows "prog_sat (sound P sp n) (state_ok (Suc k)) (usage_stage P sp st (Suc k) r)"
proof -
  have ok: "state_ok (Suc k) (st\<lparr>ls_usages := ls_usages st @ [pr_usage r]\<rparr>)"
    using assms(1) by (auto simp: state_ok_def)
  have "prog_sat (sound P sp n) (\<lambda>_. True) (case lp_usage_sink P of None \<Rightarrow> prog_give () | Some sink \<Rightarrow> prog_port (sink rc))" for rc
    by (auto intro!: prog_rules split: option.splits)
  then show ?thesis
    unfolding usage_stage_def Let_def
    by (rule sat_then) (auto intro!: prog_rules ok result_ok_of assms(2) split: option.splits)
qed

lemma sat_normalize_stage:
  "state_ok k st \<Longrightarrow> k \<le> n \<Longrightarrow> prog_sat (sound P sp n) (\<lambda>_. True) (normalize_stage loads sp st k r)"
  unfolding normalize_stage_def by (auto intro!: prog_rules intro: result_ok_of split: sum.splits normalization_error.splits)

lemma state_ok_response: "state_ok k (record_response sp n r st) = state_ok k st"
  by (simp add: state_ok_def record_response_def)

lemma sat_action_loop:
  assumes "1 \<le> k" "k \<le> n"
  shows "state_ok k st \<Longrightarrow> prog_sat (sound P sp n) (state_ok k) (action_loop P show_value sp k as st)"
proof (induction as arbitrary: st)
  case (Cons a as)
  obtain i act where a: "a = (i, act)" by force
  have ok: "state_ok k (st\<lparr>ls_observations := ls_observations st @ [\<lparr>to_round_index = k, to_segment_index = i, to_action = p, to_result = v\<rparr>],
      ls_messages := ms\<rparr>)" for p v ms
    using Cons.prems assms(1) by (auto simp: state_ok_def sorted_append)
  note gated = sat_gate [OF Cons.prems assms(2)]
  show ?case
    unfolding a action_loop.simps
    by (rule sat_then [OF gated], rule sat_then [where R = "\<lambda>_. True"])
      (auto intro!: prog_rules sat_then [OF gated] Cons.IH ok result_ok_of Cons.prems assms(2) split: option.splits)
qed (auto intro: prog_rules)

lemma sat_decide:
  assumes "state_ok k st" "k \<le> n" "precheck P sp st w = (Some d, w')"
  shows "prog_sat (sound P sp n) (state_ok k) (decide P sp k st d)"
proof -
  have "published_ok P sp (result_of sp SsClosed SxCompleted st k
      \<lparr>sr_outcome_published := True, sr_candidate_checkpoint_sha256 := cd_candidate_checkpoint_sha256 d\<rparr>)" if d: "publishable sp d"
  proof (cases "lp_checkpoint P")
    case None
    then have "d = default_decision"
      using assms(3) by (simp add: precheck_def)
    with None d show ?thesis
      by (auto simp: published_ok_def publishable_def default_decision_def split: option.splits)
  next
    case (Some check)
    then have "check (sp\<lparr>ss_state := SsCheckpointPending\<rparr>) (ls_observations st) w = (Some d, w')"
      using assms(3) by (simp add: precheck_def)
    with Some d show ?thesis
      by (auto simp: published_ok_def result_of_def)
  qed
  moreover have "state_ok k (st\<lparr>ls_self_corrections := c, ls_messages := ms\<rparr>)" for c ms
    using assms(1) by (simp add: state_ok_def)
  ultimately show ?thesis
    unfolding decide_def Let_def using result_ok_of [OF assms(1,2)] by (auto intro!: prog_rules)
qed

lemma sat_checkpoint_stage:
  assumes "state_ok k st" "k \<le> n"
  shows "prog_sat (sound P sp n) (state_ok k) (checkpoint_stage P sp k st)"
  unfolding checkpoint_stage_def
proof (rule sat_then [OF sat_gate [OF assms]], rule sat_then)
  show "prog_sat (sound P sp n) (\<lambda>x. \<exists>w w'. precheck P sp st w = (x, w')) (prog_call (precheck P sp st))"
    by (rule sat_call) blast
qed (auto intro!: prog_rules sat_decide result_ok_of assms split: option.splits)

lemma sat_turn_stage:
  assumes "state_ok k st" "1 \<le> k" "k \<le> n"
  shows "prog_sat (sound P sp n) (state_ok k) (turn_stage P show_value sp k r turn st)"
  unfolding turn_stage_def
  by (rule sat_then [OF sat_gate [OF assms(1,3)]], rule sat_then [OF sat_action_loop [OF assms(2,3,1)]])
    (auto intro!: prog_rules sat_checkpoint_stage result_ok_of assms(3))

lemma sat_run_round:
  assumes "state_ok k st" "Suc k \<le> n"
  shows "prog_sat (sound P sp n) (state_ok (Suc k)) (run_round P loads show_value sp (Suc k) st)"
proof -
  have le: "k \<le> n" and ok: "state_ok (Suc k) st"
    using assms state_ok_mono [of k st "Suc k"] by auto
  show ?thesis
    unfolding run_round_def diff_Suc_1
    by (rule sat_then [OF sat_gate [OF assms(1) le]], rule sat_then [OF sat_budget_admit [OF assms(1) le]],
        rule sat_then [OF sat_fit_stage [OF ok assms(2)]], rule sat_then [OF sat_provider_stage [OF ok assms(2)]],
        rule sat_then [OF sat_gate [OF ok assms(2)]], rule sat_then [OF sat_usage_stage [OF assms]],
        rule sat_then [OF sat_normalize_stage [OF _ assms(2)]])
      (auto intro!: sat_turn_stage assms(2) simp: state_ok_response)
qed

lemma sat_round_loop:
  "state_ok k st \<Longrightarrow> k \<le> n \<Longrightarrow> n = nat (bp_max_rounds (cp_budget (ss_context_pack sp)))
     \<Longrightarrow> prog_sat (sound P sp n) (\<lambda>_. False) (round_loop P loads show_value sp [Suc k..<Suc n] st)"
proof (induction "n - k" arbitrary: k st)
  case 0
  then show ?case
    using result_ok_of(4) [of n st n sp] state_ok_mono [of k st n] by (auto intro!: prog_rules)
next
  case (Suc d)
  then have "[Suc k..<Suc n] = Suc k # [Suc (Suc k)..<Suc n]"
    by (simp add: upt_conv_Cons del: upt_Suc)
  moreover have "prog_sat (sound P sp n) (state_ok (Suc k)) (run_round P loads show_value sp (Suc k) st)"
    using Suc by (intro sat_run_round) auto
  ultimately show ?case
    using Suc by (auto intro!: sat_then simp del: upt_Suc)
qed

lemma loop_sat:
  "prog_sat (\<lambda>r. sound P sp (nat (bp_max_rounds (cp_budget (ss_context_pack sp)))) r \<and> validate_session_admission digest sp = Inr ())
     (\<lambda>_. False) (agent_loop_run P digest loads show_value sp)"
proof (cases "validate_session_admission digest sp")
  case (Inr u)
  have start: "state_ok 0 \<lparr>ls_messages = ms, ls_observations = [], ls_assistant_texts = [], ls_usages = [], ls_self_corrections = 0\<rparr>" for ms
    by (simp add: state_ok_def)
  have rounds: "prog_sat (sound P sp (nat (bp_max_rounds (cp_budget (ss_context_pack sp))))) (\<lambda>_. False)
      (round_loop P loads show_value sp [1..<Suc (nat (bp_max_rounds (cp_budget (ss_context_pack sp))))]
         \<lparr>ls_messages = ms, ls_observations = [], ls_assistant_texts = [], ls_usages = [], ls_self_corrections = 0\<rparr>)" for ms
    using sat_round_loop [OF start le0 refl, where P = P and loads = loads and show_value = show_value] by (simp del: upt_Suc)
  show ?thesis
    unfolding agent_loop_run_def using rounds Inr
    by (auto simp del: upt_Suc simp: sat_raise split: sum.splits)
qed (simp add: agent_loop_run_def sat_raise)

lemma loop_sound:
  assumes "agent_loop_run P digest loads show_value sp w = (Inr s, w')"
  shows "\<exists>r. s = Return r \<and> sound P sp (nat (bp_max_rounds (cp_budget (ss_context_pack sp)))) r
    \<and> validate_session_admission digest sp = Inr ()"
  using loop_sat [where P = P and sp = sp and digest = digest and loads = loads and show_value = show_value] assms unfolding prog_sat_def by (cases s) blast+


text \<open>C29: a session that does not raise ends with a result, is bounded, and its outcome is consistent. The rounds of a result are at most the rounds of its
  budget, every call to the provider that was paid for belongs to one of them, the observations are in the
  order of the rounds, a failure is named exactly in the failed state, and state and exit are a pair that
  the agent ledger accepts as terminal unless the checkpoint is still pending.\<close>

theorem loop_bounded:
  assumes "agent_loop_run P digest loads show_value sp w = (Inr s, w')"
  shows "\<exists>r. s = Return r \<and> sr_rounds r \<le> nat (bp_max_rounds (cp_budget (ss_context_pack sp))) \<and> length (sr_usages r) \<le> sr_rounds r
    \<and> sorted (map to_round_index (sr_observations r))
    \<and> (\<forall>b \<in> set (sr_observations r). 1 \<le> to_round_index b \<and> to_round_index b \<le> sr_rounds r)
    \<and> (sr_failure r \<noteq> None \<longleftrightarrow> sr_state r = SsFailed)
    \<and> (if sr_state r = SsCheckpointPending then sr_exit r = SxCompleted
       else \<exists>es. terminal_exits (sr_state r) = Some es \<and> sr_exit r \<in> set es)"
  using loop_sound [OF assms] by (auto simp: result_ok_def)

section \<open>Examples\<close>

definition ex_binding :: locked_model_binding where
  "ex_binding = \<lparr>lb_provider_id = ''p'', lb_model_id = ''m'', lb_profile = Code, lb_config_revision = ''1'', lb_context_window = 10,
     lb_output_cap = 3, lb_input_cost_micros_per_1k = 1, lb_output_cost_micros_per_1k = 1\<rparr>"

definition ex_session :: session_spec where
  "ex_session = \<lparr>ss_identity = \<lparr>li_run_id = 7, li_phase = PhExecute, li_session_kind = SkImplementation, li_slice_ref = None\<rparr>,
     ss_run_status = Executing, ss_binding = ex_binding,
     ss_context_pack = \<lparr>cp_identity = ex_identity, cp_budget = SessionBudgetProfile SkImplementation 4 80, cp_assembled_tokens = 1\<rparr>,
     ss_context = ex_envelope, ss_template = ''t'', ss_state = SsCreated, ss_agent_run_id = None\<rparr>"

text \<open>A provider that declares completion at once, and a checkpoint that accepts and commits.\<close>

definition ex_response :: provider_response where
  "ex_response = \<lparr>pr_content = ''{'', pr_tool_calls = [], pr_finish_reason = ''stop'', pr_usage = \<lparr>tu_input_tokens = 1, tu_output_tokens = 1, tu_cost_micros = 0\<rparr>,
     pr_model = ''m'', pr_provider_receipt_id = ''r''\<rparr>"

definition ex_ports :: "unit loop_ports" where
  "ex_ports = \<lparr>lp_complete = \<lambda>_ _ w. ((Responded ex_response, False), w), lp_dispatch = \<lambda>_ w. ((DispatchRaised ''ToolError'', False), w),
     lp_checkpoint = Some (\<lambda>_ _ w. (Some default_decision, w)), lp_allow = Some (\<lambda>_ w. (Inr True, w)), lp_cancel = \<lambda>_ w. w,
     lp_budget = None, lp_usage_sink = None, lp_max_self_corrections = 3, lp_context_manager = Some ex_manager,
     lp_tool_schema_tokens = 0, lp_envelope_margin = 0\<rparr>"

abbreviation ex_loop_run :: "(loop_error + loop_state step) \<times> unit" where
  "ex_loop_run \<equiv> agent_loop_run ex_ports (\<lambda>_. zero_digest) (\<lambda>_. Loaded (RObj [(''completed'', RBool True)])) (\<lambda>_. []) ex_session ()"

lemma ex_starts: "lstrip_starts ''{'' ''{''"
  by (simp add: lstrip_starts_def code_points.simps utf8_cont_def unicode_space_def cp_value_def)

lemma ex_turn:
  "normalize_response (\<lambda>_. Loaded (RObj [(''completed'', RBool True)])) ''{'' []
     = Inr \<lparr>nt_actions = [], nt_assistant_text = ''{'', nt_declared_complete = True\<rparr>"
  using ex_starts by (simp add: normalize_response_def action_open_def action_close_def sublist_code structured_def
      parse_object_def as_object_def content_turn_def content_segment_def List.map_filter_def)

lemma ex_prompt: "\<exists>messages. render_prompt ''t'' ex_envelope = Inr messages \<and> length messages = 2"
  by (simp add: render_prompt_def ex_envelope_def segments_def prompt_message_init_def text_message_def)

lemma ex_fits: "length messages = 2 \<Longrightarrow> context_fits ex_ports ex_session messages = Inr 2"
  by (simp add: context_fits_def ex_ports_def ex_session_def ex_binding_def ex_manager_def fit_messages_def measure_prompt_def
      port_result_def formula_net_input_cap_def)

lemma ex_admitted: "validate_session_admission (\<lambda>_. zero_digest) ex_session = Inr ()"
  by (simp add: validate_session_admission_def ex_session_def ex_binding_def ex_identity_def expected_admission_def binding_digest_def)

lemma ex_loop_returns: "\<exists>r. ex_loop_run = (Inr (Return r), ()) \<and> sr_outcome_published r"
proof -
  obtain messages where m: "render_prompt ''t'' ex_envelope = Inr messages" "length messages = 2"
    using ex_prompt by blast
  have fits: "fit_stage ex_ports ex_session st n = prog_give ()" if "ls_messages st = messages" for st n
    using ex_fits [OF m(2)] that by (simp add: fit_stage_def)
  have fields: "ss_template ex_session = ''t''" "ss_context ex_session = ex_envelope"
      "bp_max_rounds (cp_budget (ss_context_pack ex_session)) = 4" "ss_agent_run_id ex_session = None"
      "lp_checkpoint ex_ports = Some (\<lambda>_ _ w. (Some default_decision, w))"
    by (simp_all add: ex_session_def ex_ports_def)
  have gates: "gate ex_ports ex_session st n False = prog_give ()" for st n
    by (rule ext) (simp add: gate_def allowed_def ex_ports_def prog_then_def prog_port_def prog_give_def)
  have called: "provider_stage ex_ports ex_session st n = prog_give ex_response" for st n
    by (rule ext) (simp add: provider_stage_def provider_call_def allowed_def ex_ports_def prog_then_def prog_call_def prog_give_def)
  have normal: "normalize_stage (\<lambda>_. Loaded (RObj [(''completed'', RBool True)])) ex_session st n ex_response
      = prog_give \<lparr>nt_actions = [], nt_assistant_text = ''{'', nt_declared_complete = True\<rparr>" for st n
    using ex_turn by (simp add: normalize_stage_def ex_response_def)
  have used: "usage_stage ex_ports ex_session st n ex_response = prog_give (st\<lparr>ls_usages := ls_usages st @ [pr_usage ex_response]\<rparr>)" for st n
    by (rule ext) (simp add: usage_stage_def ex_ports_def prog_then_def prog_give_def Let_def)
  have admit: "budget_admit ex_ports ex_session st n = prog_give ()" for st n
    by (simp add: budget_admit_def ex_ports_def)
  have closed: "\<exists>r. checkpoint_stage ex_ports ex_session n st () = (Inr (Return r), ()) \<and> sr_outcome_published r" for st n
    by (simp add: checkpoint_stage_def gates precheck_def decide_def publishable_def default_decision_def fields
        prog_then_def prog_call_def prog_give_def prog_stop_def)
  then obtain r where closed: "checkpoint_stage ex_ports ex_session n st () = (Inr (Return (r n st)), ())"
      "sr_outcome_published (r n st)" for n st
    by metis
  show ?thesis
    by (simp add: agent_loop_run_def ex_admitted m ex_fits fields upt_conv_Cons run_round_def gates admit fits called used normal
        turn_stage_def prog_then_def prog_give_def closed del: upt_Suc)
qed


theorem loop_bounded_witness: "\<exists>r. ex_loop_run = (Inr (Return r), ()) \<and> sr_rounds r \<le> 4 \<and> length (sr_usages r) \<le> 4"
proof -
  obtain r where r: "ex_loop_run = (Inr (Return r), ())"
    using ex_loop_returns by blast
  from loop_bounded [OF this] r show ?thesis
    by (auto simp: ex_session_def)
qed

end
