(* ===== verification/Provider_Adapters.thy ===== *)
theory Provider_Adapters
  imports Agent_Loop
begin

text \<open>
  \<open>runtime/provider.py\<close>: the adapters for OpenAI-compatible and Anthropic services, and what a session says to them. A
  request is the URL, the headers and the JSON body; the HTTP client is a port that answers with an
  \<open>httpx.HTTPError\<close>, with another exception (\<open>httpx.InvalidURL\<close>, a header that cannot be encoded), with a response, its status and
  what \<open>response.json()\<close> makes of the body, or with the notice that the session was cancelled first. Objects of a decoded body keep their members in order, a later
  member hides an earlier one of the same name. \<open>json.dumps\<close> of a decoded value is the parameter \<open>dumps\<close>, which does not raise. Not modelled are
  the life time of the client and the two functions that read a local configuration file.
\<close>

section \<open>Failures\<close>

record provider_failure =
  pv_retryable :: bool
  pv_retry_delay_secs :: "int option"
  pv_cancelled :: bool
  pv_failure_code :: string

text \<open>How a call fails: with a \<open>ProviderError\<close>, with a Python exception that the adapter's own code raises, or with an exception
  of the HTTP client or of the JSON decoder that it does not catch, by its class.\<close>

datatype call_error = ProviderErr provider_failure | CallPy py_exn | CallEscaped string

definition provider_failure_codes :: "string list" where
  "provider_failure_codes =
     [''provider_error'', ''invalid_response'', ''cancelled'', ''invalid_json'', ''invalid_envelope'', ''invalid_usage'',
      ''invalid_content'', ''provider_binding_mismatch'', ''invalid_choices'', ''invalid_choice'', ''invalid_message'',
      ''missing_finish_reason'', ''invalid_content_blocks'', ''invalid_tool_calls'', ''invalid_tool_call'',
      ''model_identity_mismatch'', ''missing_response_id'', ''missing_tool_call_id'', ''connect_timeout'', ''read_timeout'',
      ''write_timeout'', ''pool_timeout'', ''proxy_error'', ''remote_protocol_error'', ''connect_error'', ''transport_error'',
      ''provider_response_truncated'', ''invalid_tool_arguments_json'', ''invalid_tool_arguments_shape'',
      ''http_status_out_of_range'']"

definition status_prefix :: string where
  "status_prefix = ''http_status_''"

definition is_status_digit :: "char \<Rightarrow> bool" where
  "is_status_digit c \<longleftrightarrow> 48 \<le> (of_char c :: nat) \<and> (of_char c :: nat) \<le> 57"

definition int_of_digits :: "string \<Rightarrow> nat" where
  "int_of_digits s = foldl (\<lambda>n c. 10 * n + (of_char c - 48)) 0 s"

definition is_provider_failure_code :: "string \<Rightarrow> bool" where
  "is_provider_failure_code v \<longleftrightarrow>
     v \<in> set provider_failure_codes
     \<or> prefix status_prefix v
       \<and> (let status = drop (length status_prefix) v
          in length status = 3 \<and> list_all is_status_digit status \<and> 100 \<le> int_of_digits status \<and> int_of_digits status \<le> 599)"

text \<open>The constructor of \<open>ProviderError\<close>.\<close>

definition provider_error_init :: "bool \<Rightarrow> int option \<Rightarrow> bool \<Rightarrow> string \<Rightarrow> call_error" where
  "provider_error_init retryable delay cancelled code =
     (if is_provider_failure_code code
      then ProviderErr \<lparr>pv_retryable = retryable, pv_retry_delay_secs = delay, pv_cancelled = cancelled, pv_failure_code = code\<rparr>
      else CallPy (ValueError ''provider failure code must be a fixed safe category''))"

definition retry_delay_for_attempt :: "int \<Rightarrow> int res" where
  "retry_delay_for_attempt attempt =
     (if attempt < 1 then Inl (ValueError ''retry attempt must be a positive integer'')
      else Inr ([30, 60, 120] ! nat (min (attempt - 1) 2)))"

definition provider_error :: "bool \<Rightarrow> string \<Rightarrow> call_error" where
  "provider_error retryable code =
     (if retryable
      then (case retry_delay_for_attempt 1 of Inl e \<Rightarrow> CallPy e | Inr d \<Rightarrow> provider_error_init True (Some d) False code)
      else provider_error_init False None False code)"

section \<open>HTTP\<close>

datatype transport_error =
    ConnectTimeout | ReadTimeout | WriteTimeout | PoolTimeout | ProxyError | RemoteProtocolError | ConnectError | OtherHttpError

fun transport_failure_code :: "transport_error \<Rightarrow> string" where
  "transport_failure_code ConnectTimeout = ''connect_timeout''"
| "transport_failure_code ReadTimeout = ''read_timeout''"
| "transport_failure_code WriteTimeout = ''write_timeout''"
| "transport_failure_code PoolTimeout = ''pool_timeout''"
| "transport_failure_code ProxyError = ''proxy_error''"
| "transport_failure_code RemoteProtocolError = ''remote_protocol_error''"
| "transport_failure_code ConnectError = ''connect_error''"
| "transport_failure_code OtherHttpError = ''transport_error''"

definition http_status_failure_code :: "nat \<Rightarrow> string" where
  "http_status_failure_code status =
     (if 100 \<le> status \<and> status \<le> 599 then status_prefix @ str_nat status else ''http_status_out_of_range'')"

text \<open>\<open>response.json()\<close> gives a value, raises \<open>ValueError\<close>, or raises something else, as \<open>RecursionError\<close> on deep nesting.\<close>

datatype response_body = JsonBody raw_json | NotJson | BodyRaised string

datatype http_outcome =
    TransportFailed transport_error
  | PostRaised string
  | CancelledFirst
  | HttpResponse (http_status: nat) (http_body: response_body)

type_synonym fields = "(string \<times> raw_json) list"

text \<open>The tests \<open>isinstance(value, ...)\<close> of the adapters, and the failure when one does not hold.\<close>

definition json_object :: "raw_json \<Rightarrow> fields option" where
  "json_object v = (case v of RObj kvs \<Rightarrow> Some kvs | _ \<Rightarrow> None)"

definition json_array :: "raw_json \<Rightarrow> raw_json list option" where
  "json_array v = (case v of RArr vs \<Rightarrow> Some vs | _ \<Rightarrow> None)"

definition json_str :: "raw_json \<Rightarrow> string option" where
  "json_str v = (case v of RStr s \<Rightarrow> Some s | _ \<Rightarrow> None)"

definition json_int :: "raw_json \<Rightarrow> int option" where
  "json_int v = (case v of RInt i \<Rightarrow> Some i | _ \<Rightarrow> None)"

definition json_text :: "raw_json \<Rightarrow> string option" where
  "json_text v = (case json_str v of None \<Rightarrow> None | Some s \<Rightarrow> if s = [] then None else Some s)"

definition demand :: "string \<Rightarrow> 'a option \<Rightarrow> call_error + 'a" where
  "demand code x = (case x of None \<Rightarrow> Inl (provider_error False code) | Some v \<Rightarrow> Inr v)"

definition post_json :: "http_outcome \<Rightarrow> call_error + fields" where
  "post_json outcome =
     (case outcome of
        TransportFailed e \<Rightarrow> Inl (provider_error True (transport_failure_code e))
      | PostRaised name \<Rightarrow> Inl (CallEscaped name)
      | CancelledFirst \<Rightarrow> Inl (provider_error_init False None True ''cancelled'')
      | HttpResponse status body \<Rightarrow>
          if status \<ge> 500 \<or> status = 429 then Inl (provider_error True (http_status_failure_code status))
          else if status \<ge> 400 then Inl (provider_error False (http_status_failure_code status))
          else (case body of
              BodyRaised name \<Rightarrow> Inl (CallEscaped name)
            | NotJson \<Rightarrow> Inl (provider_error False ''invalid_json'')
            | JsonBody v \<Rightarrow> demand ''invalid_envelope'' (json_object v)))"

text \<open>\<open>payload.get(key)\<close>, where a missing member and \<open>null\<close> are both \<open>None\<close>.\<close>

definition get_field :: "fields \<Rightarrow> string \<Rightarrow> raw_json" where
  "get_field kvs k = (case map_of (rev kvs) k of None \<Rightarrow> RNull | Some v \<Rightarrow> v)"

section \<open>Reading a response\<close>

text \<open>True division of any integers: rounding is symmetric.\<close>

definition signed_truediv :: "int \<Rightarrow> int \<Rightarrow> rat res" where
  "signed_truediv a b = (if a < 0 then map_sum id uminus (py_truediv (- a) b) else py_truediv a b)"

definition ceil_thousands :: "int \<Rightarrow> int res" where
  "ceil_thousands n = map_sum id (\<lambda>q. \<lceil>q\<rceil>) (signed_truediv n 1000)"

definition computed_cost :: "locked_model_binding \<Rightarrow> int \<Rightarrow> int \<Rightarrow> int res" where
  "computed_cost b input_tokens output_tokens =
     bind_res (ceil_thousands input_tokens) (\<lambda>i.
       map_sum id (\<lambda>out. i * lb_input_cost_micros_per_1k b + out * lb_output_cost_micros_per_1k b) (ceil_thousands output_tokens))"

definition cost_of :: "fields \<Rightarrow> locked_model_binding \<Rightarrow> int \<Rightarrow> int \<Rightarrow> call_error + int" where
  "cost_of raw b i out =
     (let v = get_field raw ''cost_micros'' in
      if v = RNull then map_sum CallPy id (computed_cost b i out)
      else bind_res (demand ''invalid_usage'' (json_int v)) (\<lambda>c. if c \<ge> 0 then Inr c else Inl (provider_error False ''invalid_usage'')))"

definition usage_of :: "fields \<Rightarrow> string \<Rightarrow> string \<Rightarrow> locked_model_binding \<Rightarrow> call_error + token_usage" where
  "usage_of payload input_key output_key b =
     bind_res (demand ''invalid_usage'' (json_object (get_field payload ''usage''))) (\<lambda>raw.
     bind_res (demand ''invalid_usage'' (json_int (get_field raw input_key))) (\<lambda>i.
     bind_res (demand ''invalid_usage'' (json_int (get_field raw output_key))) (\<lambda>out.
     bind_res (cost_of raw b i out) (\<lambda>cost.
       map_sum CallPy id (token_usage_init i out cost)))))"

definition block_text :: "raw_json \<Rightarrow> string" where
  "block_text block =
     (case json_object block of
        None \<Rightarrow> []
      | Some kvs \<Rightarrow> if get_field kvs ''type'' = RStr ''text''
          then (case json_str (get_field kvs ''text'') of Some s \<Rightarrow> s | None \<Rightarrow> []) else [])"

definition content_text :: "raw_json \<Rightarrow> call_error + string" where
  "content_text v =
     (if v = RNull then Inr []
      else case json_str v of
        Some s \<Rightarrow> Inr s
      | None \<Rightarrow> map_sum id (\<lambda>blocks. concat (map block_text blocks)) (demand ''invalid_content'' (json_array v)))"

definition named_call :: "fields \<Rightarrow> raw_json \<times> raw_json" where
  "named_call kvs =
     (case json_object (get_field kvs ''function'') of
        Some f \<Rightarrow> (get_field f ''name'', get_field f ''arguments'')
      | None \<Rightarrow> (get_field kvs ''name'', get_field kvs ''input''))"

definition tool_call_of :: "(raw_json \<Rightarrow> string) \<Rightarrow> nat \<times> raw_json \<Rightarrow> call_error + provider_tool_call" where
  "tool_call_of dumps item =
     bind_res (demand ''invalid_tool_call'' (json_object (snd item))) (\<lambda>kvs.
     bind_res (demand ''invalid_tool_call'' (json_text (fst (named_call kvs)))) (\<lambda>name.
       Inr \<lparr>tc_name = name,
            tc_arguments = (case json_str (snd (named_call kvs)) of Some s \<Rightarrow> s | None \<Rightarrow> dumps (snd (named_call kvs))),
            tc_call_id = (case json_text (get_field kvs ''id'') of Some i \<Rightarrow> i | None \<Rightarrow> ''call-'' @ str_nat (Suc (fst item)))\<rparr>))"

definition tool_calls_of :: "(raw_json \<Rightarrow> string) \<Rightarrow> raw_json \<Rightarrow> call_error + provider_tool_call list" where
  "tool_calls_of dumps v =
     (if v = RNull then Inr []
      else bind_res (demand ''invalid_tool_calls'' (json_array v)) (\<lambda>items. traverse (tool_call_of dumps) (enum_list items)))"

definition response_model :: "fields \<Rightarrow> string \<Rightarrow> call_error + string" where
  "response_model payload expected =
     (if get_field payload ''model'' = RStr expected then Inr expected
      else Inl (provider_error_init False None False ''model_identity_mismatch''))"

definition response_id :: "fields \<Rightarrow> call_error + string" where
  "response_id payload =
     (case json_text (get_field payload ''id'') of
        None \<Rightarrow> Inl (provider_error_init False None False ''missing_response_id'') | Some s \<Rightarrow> Inr s)"

definition finish_of :: "raw_json \<Rightarrow> call_error + string" where
  "finish_of v = demand ''missing_finish_reason'' (json_str v)"

text \<open>The last expression of both adapters: its arguments are evaluated in order.\<close>

definition response_of ::
  "fields \<Rightarrow> locked_model_binding \<Rightarrow> string \<Rightarrow> raw_json \<Rightarrow> provider_tool_call list \<Rightarrow> string \<Rightarrow> string \<Rightarrow> string
     \<Rightarrow> call_error + provider_response" where
  "response_of decoded b model content calls finish input_key output_key =
     bind_res (content_text content) (\<lambda>c.
     bind_res (usage_of decoded input_key output_key b) (\<lambda>usage.
     bind_res (response_id decoded) (\<lambda>i.
       Inr \<lparr>pr_content = c, pr_tool_calls = calls, pr_finish_reason = finish, pr_usage = usage, pr_model = model,
            pr_provider_receipt_id = i\<rparr>)))"

definition first_choice :: "raw_json \<Rightarrow> call_error + raw_json" where
  "first_choice v = (case json_array v of Some (c # _) \<Rightarrow> Inr c | _ \<Rightarrow> Inl (provider_error False ''invalid_choices''))"

definition openai_response :: "(raw_json \<Rightarrow> string) \<Rightarrow> locked_model_binding \<Rightarrow> fields \<Rightarrow> call_error + provider_response" where
  "openai_response dumps b decoded =
     bind_res (response_model decoded (lb_model_id b)) (\<lambda>model.
     bind_res (first_choice (get_field decoded ''choices'')) (\<lambda>first.
     bind_res (demand ''invalid_choice'' (json_object first)) (\<lambda>choice.
     bind_res (demand ''invalid_message'' (json_object (get_field choice ''message''))) (\<lambda>message.
     bind_res (tool_calls_of dumps (get_field message ''tool_calls'')) (\<lambda>calls.
     bind_res (finish_of (get_field choice ''finish_reason'')) (\<lambda>finish.
       response_of decoded b model (get_field message ''content'') calls finish ''prompt_tokens'' ''completion_tokens''))))))"

definition tool_use_block :: "raw_json \<Rightarrow> raw_json option" where
  "tool_use_block block =
     (case json_object block of
        None \<Rightarrow> None
      | Some kvs \<Rightarrow> if get_field kvs ''type'' = RStr ''tool_use''
          then Some (RObj [(''id'', get_field kvs ''id''), (''name'', get_field kvs ''name''), (''input'', get_field kvs ''input'')])
          else None)"

definition anthropic_response :: "(raw_json \<Rightarrow> string) \<Rightarrow> locked_model_binding \<Rightarrow> fields \<Rightarrow> call_error + provider_response" where
  "anthropic_response dumps b decoded =
     bind_res (response_model decoded (lb_model_id b)) (\<lambda>model.
     bind_res (demand ''invalid_content_blocks'' (json_array (get_field decoded ''content''))) (\<lambda>blocks.
     bind_res (tool_calls_of dumps (RArr (List.map_filter tool_use_block blocks))) (\<lambda>calls.
     bind_res (finish_of (get_field decoded ''stop_reason'')) (\<lambda>finish.
       response_of decoded b model (RArr blocks) calls finish ''input_tokens'' ''output_tokens''))))"

section \<open>Writing a request\<close>

record tool_definition =
  td_name :: string
  td_description :: string
  td_parameters :: fields
  td_strict :: bool

definition default_tool_definitions :: "tool_definition list" where
  "default_tool_definitions = map (\<lambda>name. \<lparr>td_name = name, td_description = ''Invoke the closed CodeMigrator '' @ name @ '' tool.'',
       td_parameters = [(''type'', RStr ''object''), (''additionalProperties'', RBool True)], td_strict = False\<rparr>)
     [''ReadFile'', ''WriteFile'', ''EditFile'', ''QuerySourceAst'', ''Shell'', ''Exec'']"

record provider_request =
  rq_binding :: locked_model_binding
  rq_messages :: "prompt_message list"
  rq_tools :: "tool_definition list"
  rq_tool_choice :: "string option"

record http_request =
  hr_url :: string
  hr_headers :: "(string \<times> string) list"
  hr_payload :: fields

definition openai_tools :: "tool_definition list \<Rightarrow> raw_json list" where
  "openai_tools = map (\<lambda>t. RObj [(''type'', RStr ''function''), (''function'', RObj ([(''name'', RStr (td_name t)),
     (''description'', RStr (td_description t)), (''parameters'', RObj (td_parameters t))]
     @ (if td_strict t then [(''strict'', RBool True)] else [])))])"

definition missing_call_identity :: call_error where
  "missing_call_identity = provider_error_init False None False ''missing_tool_call_id''"

definition openai_message :: "prompt_message \<Rightarrow> call_error + raw_json" where
  "openai_message m =
     (let item = [(''role'', RStr (pm_role m)), (''content'', RStr (pm_content m))]
            @ (if pm_role m = ''assistant'' \<and> pm_native_tool_calls m \<noteq> []
               then [(''tool_calls'', RArr (map (\<lambda>(i, name, arguments). RObj [(''id'', RStr i), (''type'', RStr ''function''),
                        (''function'', RObj [(''name'', RStr name), (''arguments'', RStr arguments)])]) (pm_native_tool_calls m)))]
               else [])
      in if pm_role m = ''tool''
         then (case pm_tool_call_id m of None \<Rightarrow> Inl missing_call_identity | Some i \<Rightarrow> Inr (RObj (item @ [(''tool_call_id'', RStr i)])))
         else Inr (RObj item))"

definition openai_messages :: "prompt_message list \<Rightarrow> call_error + raw_json list" where
  "openai_messages = traverse openai_message"

definition anthropic_tools :: "tool_definition list \<Rightarrow> raw_json list" where
  "anthropic_tools = map (\<lambda>t. RObj [(''name'', RStr (td_name t)), (''description'', RStr (td_description t)),
     (''input_schema'', RObj (td_parameters t))])"

definition cache_control :: "string \<times> raw_json" where
  "cache_control = (''cache_control'', RObj [(''type'', RStr ''ephemeral'')])"

definition text_block :: "string \<Rightarrow> fields" where
  "text_block s = [(''type'', RStr ''text''), (''text'', RStr s)]"

definition anthropic_system :: "prompt_message list \<Rightarrow> raw_json list" where
  "anthropic_system messages =
     (let rendered = map (\<lambda>m. text_block (pm_content m)) (filter (\<lambda>m. pm_role m = ''system'') messages)
      in map RObj (if rendered = [] then [] else butlast rendered @ [last rendered @ [cache_control]]))"

text \<open>The index of the last message of a segment kind, if there is one.\<close>

definition last_segment :: "string \<Rightarrow> prompt_message list \<Rightarrow> nat option" where
  "last_segment kind messages =
     (case filter (\<lambda>(i, m). pm_segment_kind m = Some kind) (enum_list messages) of [] \<Rightarrow> None | is \<Rightarrow> Some (fst (last is)))"

definition plain_loads :: "(string \<Rightarrow> loads_result) \<Rightarrow> string \<Rightarrow> call_error + raw_json" where
  "plain_loads loads s =
     (case loads s of Loaded r \<Rightarrow> Inr r | Malformed \<Rightarrow> Inl (CallPy (ValueError ''JSONDecodeError'')) | Raised e \<Rightarrow> Inl (CallPy e))"

definition anthropic_message ::
  "(string \<Rightarrow> loads_result) \<Rightarrow> nat option \<Rightarrow> nat option \<Rightarrow> nat \<times> prompt_message \<Rightarrow> call_error + raw_json" where
  "anthropic_message loads last_stable last_evolving im =
     (let (index, m) = im in
      if pm_role m = ''assistant'' \<and> pm_native_tool_calls m \<noteq> []
      then map_sum id (\<lambda>uses. RObj [(''role'', RStr ''assistant''), (''content'', RArr
               ((if pm_content m = [] then [] else [RObj (text_block (pm_content m))]) @ uses))])
             (traverse (\<lambda>(i, name, arguments). map_sum id (\<lambda>v. RObj [(''type'', RStr ''tool_use''), (''id'', RStr i), (''name'', RStr name),
                (''input'', v)]) (plain_loads loads arguments)) (pm_native_tool_calls m))
      else if pm_role m = ''tool''
      then (case pm_tool_call_id m of
              None \<Rightarrow> Inl missing_call_identity
            | Some i \<Rightarrow> Inr (RObj [(''role'', RStr ''user''), (''content'', RArr [RObj [(''type'', RStr ''tool_result''),
                (''tool_use_id'', RStr i), (''content'', RStr (pm_content m))]])]))
      else Inr (RObj [(''role'', RStr (pm_role m)), (''content'',
             if pm_segment_kind m \<in> {Some ''stable'', Some ''evolving''}
             then RArr [RObj (text_block (pm_content m) @ (if Some index \<in> {last_stable, last_evolving} then [cache_control] else []))]
             else RStr (pm_content m))]))"

definition anthropic_messages :: "(string \<Rightarrow> loads_result) \<Rightarrow> prompt_message list \<Rightarrow> call_error + raw_json list" where
  "anthropic_messages loads messages =
     (let non_system = filter (\<lambda>m. pm_role m \<noteq> ''system'') messages
      in traverse (anthropic_message loads (last_segment ''stable'' non_system) (last_segment ''evolving'' non_system))
           (enum_list non_system))"

section \<open>The adapters\<close>

record openai_provider =
  oa_endpoint :: string
  oa_api_key :: string

definition openai_provider_init :: "string \<Rightarrow> string \<Rightarrow> openai_provider res" where
  "openai_provider_init endpoint api_key =
     (if endpoint = [] \<or> api_key = [] then Inl (ValueError ''provider endpoint and api key are required'')
      else Inr \<lparr>oa_endpoint = rstrip_char (CHR ''/'') endpoint, oa_api_key = api_key\<rparr>)"

record anthropic_provider =
  an_endpoint :: string
  an_api_key :: string
  an_version :: string

definition anthropic_provider_init :: "string \<Rightarrow> string \<Rightarrow> string \<Rightarrow> anthropic_provider res" where
  "anthropic_provider_init endpoint api_key version =
     (if endpoint = [] \<or> api_key = [] \<or> version = [] then Inl (ValueError ''provider endpoint, api key, and version are required'')
      else Inr \<lparr>an_endpoint = rstrip_char (CHR ''/'') endpoint, an_api_key = api_key, an_version = version\<rparr>)"

definition openai_request :: "openai_provider \<Rightarrow> provider_request \<Rightarrow> call_error + http_request" where
  "openai_request self rq =
     (if lb_provider_id (rq_binding rq) \<notin> {''openai'', ''openai-compatible''}
      then Inl (provider_error False ''provider_binding_mismatch'')
      else map_sum id (\<lambda>messages.
             \<lparr>hr_url = oa_endpoint self @ ''/chat/completions'', hr_headers = [(''authorization'', ''Bearer '' @ oa_api_key self)],
              hr_payload = [(''model'', RStr (lb_model_id (rq_binding rq))), (''messages'', RArr messages),
                (''tools'', RArr (openai_tools (rq_tools rq))), (''max_tokens'', RInt (lb_output_cap (rq_binding rq)))]
                @ (case rq_tool_choice rq of None \<Rightarrow> []
                   | Some c \<Rightarrow> [(''tool_choice'', RStr (if c = ''any'' then ''required'' else c))])\<rparr>)
           (openai_messages (rq_messages rq)))"

definition anthropic_request :: "anthropic_provider \<Rightarrow> (string \<Rightarrow> loads_result) \<Rightarrow> provider_request \<Rightarrow> call_error + http_request" where
  "anthropic_request self loads rq =
     (if lb_provider_id (rq_binding rq) \<noteq> ''anthropic'' then Inl (provider_error False ''invalid_response'')
      else map_sum id (\<lambda>messages.
             \<lparr>hr_url = an_endpoint self @ ''/messages'',
              hr_headers = [(''x-api-key'', an_api_key self), (''anthropic-version'', an_version self)],
              hr_payload = [(''model'', RStr (lb_model_id (rq_binding rq))), (''system'', RArr (anthropic_system (rq_messages rq))),
                (''messages'', RArr messages), (''tools'', RArr (anthropic_tools (rq_tools rq)))]
                @ (if rq_tool_choice rq = Some ''any'' then [(''tool_choice'', RObj [(''type'', RStr ''any'')])] else [])
                @ [(''max_tokens'', RInt (lb_output_cap (rq_binding rq)))]\<rparr>)
           (anthropic_messages loads (rq_messages rq)))"

text \<open>\<open>complete\<close>: one request, one answer.\<close>

definition exchange ::
  "(http_request \<Rightarrow> 'w \<Rightarrow> http_outcome \<times> 'w) \<Rightarrow> call_error + http_request \<Rightarrow> (fields \<Rightarrow> call_error + provider_response)
     \<Rightarrow> 'w \<Rightarrow> (call_error + provider_response) \<times> 'w" where
  "exchange post request read_response w =
     (case request of
        Inl e \<Rightarrow> (Inl e, w)
      | Inr rq \<Rightarrow> (case post rq w of (outcome, w') \<Rightarrow> (bind_res (post_json outcome) read_response, w')))"

definition openai_complete ::
  "openai_provider \<Rightarrow> (raw_json \<Rightarrow> string) \<Rightarrow> (http_request \<Rightarrow> 'w \<Rightarrow> http_outcome \<times> 'w) \<Rightarrow> provider_request \<Rightarrow> 'w
     \<Rightarrow> (call_error + provider_response) \<times> 'w" where
  "openai_complete self dumps post rq = exchange post (openai_request self rq) (openai_response dumps (rq_binding rq))"

definition anthropic_complete ::
  "anthropic_provider \<Rightarrow> (string \<Rightarrow> loads_result) \<Rightarrow> (raw_json \<Rightarrow> string) \<Rightarrow> (http_request \<Rightarrow> 'w \<Rightarrow> http_outcome \<times> 'w) \<Rightarrow> provider_request \<Rightarrow> 'w
     \<Rightarrow> (call_error + provider_response) \<times> 'w" where
  "anthropic_complete self loads dumps post rq = exchange post (anthropic_request self loads rq) (anthropic_response dumps (rq_binding rq))"

definition registry_resolve :: "(string \<times> 'a) list \<Rightarrow> locked_model_binding \<Rightarrow> call_error + 'a" where
  "registry_resolve adapters b =
     (case map_of adapters (lb_provider_id b) of
        Some a \<Rightarrow> Inr a | None \<Rightarrow> Inl (provider_error_init False None False ''provider_error''))"

definition provider_adapter_id_for_label :: "string \<Rightarrow> string res" where
  "provider_adapter_id_for_label label =
     (let normalized = casefold (py_strip label)
      in if normalized = ''opencode'' then Inr ''openai-compatible''
         else if normalized \<in> {''openai'', ''openai-compatible'', ''anthropic''} then Inr normalized
         else Inl (ValueError ''unsupported provider label''))"

section \<open>Failures are classified\<close>

text \<open>A failure that is neither worth a retry nor a cancellation.\<close>

definition final_failure :: "string \<Rightarrow> call_error" where
  "final_failure code = ProviderErr \<lparr>pv_retryable = False, pv_retry_delay_secs = None, pv_cancelled = False, pv_failure_code = code\<rparr>"

lemma provider_error_codes:
  "is_provider_failure_code code \<Longrightarrow> provider_error False code = final_failure code"
  "is_provider_failure_code code \<Longrightarrow> provider_error_init False None False code = final_failure code"
  "is_provider_failure_code code \<Longrightarrow> provider_error True code
     = ProviderErr \<lparr>pv_retryable = True, pv_retry_delay_secs = Some 30, pv_cancelled = False, pv_failure_code = code\<rparr>"
  by (simp_all add: provider_error_def provider_error_init_def final_failure_def retry_delay_for_attempt_def)

lemma known_code: "code \<in> set provider_failure_codes \<Longrightarrow> is_provider_failure_code code"
  by (simp add: is_provider_failure_code_def)

lemma response_codes:
  "is_provider_failure_code ''invalid_json''" "is_provider_failure_code ''invalid_envelope''"
  "is_provider_failure_code ''invalid_usage''" "is_provider_failure_code ''invalid_content''"
  "is_provider_failure_code ''provider_binding_mismatch''" "is_provider_failure_code ''invalid_choices''"
  "is_provider_failure_code ''invalid_choice''" "is_provider_failure_code ''invalid_message''"
  "is_provider_failure_code ''missing_finish_reason''" "is_provider_failure_code ''invalid_content_blocks''"
  "is_provider_failure_code ''invalid_tool_calls''" "is_provider_failure_code ''invalid_tool_call''"
  "is_provider_failure_code ''model_identity_mismatch''" "is_provider_failure_code ''missing_response_id''"
  "is_provider_failure_code ''missing_tool_call_id''" "is_provider_failure_code ''invalid_response''"
  "is_provider_failure_code ''cancelled''" "is_provider_failure_code ''http_status_out_of_range''"
  "is_provider_failure_code ''provider_error''"
  by (simp_all add: is_provider_failure_code_def provider_failure_codes_def)

lemma transport_code: "is_provider_failure_code (transport_failure_code e)"
  by (rule known_code) (cases e; simp add: provider_failure_codes_def)

lemma str_nat_three:
  assumes "100 \<le> n" "n \<le> 999"
  shows "str_nat n = [digit_char (n div 100), digit_char (n div 10 mod 10), digit_char (n mod 10)]"
proof -
  have "n div 10 div 10 < 10" "\<not> n div 10 < 10" "\<not> n < 10" "n div 10 div 10 = n div 100"
    using assms by (auto simp: div_mult2_eq [symmetric])
  then show ?thesis by (simp add: str_nat.simps)
qed

lemma digit_char_value: "d < 10 \<Longrightarrow> is_status_digit (digit_char d)" "d < 10 \<Longrightarrow> of_char (digit_char d) - 48 = d"
  by (simp_all add: is_status_digit_def digit_char_def)

lemma status_code: "is_provider_failure_code (http_status_failure_code status)"
proof (cases "100 \<le> status \<and> status \<le> 599")
  case True
  have horner: "10 * (10 * a + b) + c = n" if "d * 10 + c = n" "a * 10 + b = d" for a b c d n :: nat
    using that by simp
  have "10 * (10 * (status div 10 div 10) + status div 10 mod 10) + status mod 10 = status"
    by (rule horner [OF div_mult_mod_eq div_mult_mod_eq])
  then have "10 * (10 * (status div 100) + status div 10 mod 10) + status mod 10 = status"
    by (simp only: div_mult2_eq [of status 10 10, simplified, symmetric])
  moreover have "status div 100 < 10" "status div 10 mod 10 < 10" "status mod 10 < 10"
    using True by auto
  ultimately show ?thesis
    using True str_nat_three [of status]
    by (simp add: http_status_failure_code_def is_provider_failure_code_def Let_def int_of_digits_def digit_char_value)
qed (auto simp: http_status_failure_code_def response_codes)

lemma bind_Inl: "bind_res r f = Inl e \<longleftrightarrow> r = Inl e \<or> (\<exists>x. r = Inr x \<and> f x = Inl e)"
  by (cases r) auto

lemma map_sum_Inl: "map_sum g f r = Inl e \<longleftrightarrow> (\<exists>x. r = Inl x \<and> e = g x)"
  by (cases r) auto

lemma traverse_Inl: "traverse f xs = Inl e \<Longrightarrow> \<exists>x \<in> set xs. f x = Inl e"
  by (induction xs) (auto simp: bind_Inl map_sum_Inl)

text \<open>What reading a response can raise: a final failure, or the exceptions of the arithmetic on its usage.\<close>

definition reading_error :: "call_error \<Rightarrow> bool" where
  "reading_error e \<longleftrightarrow> (\<exists>c. is_provider_failure_code c \<and> e = final_failure c)
     \<or> e = CallPy (ValueError ''usage values must not be negative'')
     \<or> e = CallPy (OverflowError ''integer division result too large for a float'')"

definition fails_safely :: "call_error + 'a \<Rightarrow> bool" where
  "fails_safely r \<longleftrightarrow> (\<forall>e. r = Inl e \<longrightarrow> reading_error e)"

named_theorems safely \<open>programs that fail safely\<close>

lemma safely_bind [safely]: "fails_safely r \<Longrightarrow> (\<And>x. fails_safely (f x)) \<Longrightarrow> fails_safely (bind_res r f)"
  by (auto simp: fails_safely_def bind_Inl)

lemma safely_map [safely]: "fails_safely r \<Longrightarrow> fails_safely (map_sum id f r)"
  by (auto simp: fails_safely_def map_sum_Inl)

lemma safely_Inr [safely]: "fails_safely (Inr x)"
  by (simp add: fails_safely_def)

lemma safely_Inl [safely]:
  "is_provider_failure_code c \<Longrightarrow> fails_safely (Inl (provider_error False c))"
  "is_provider_failure_code c \<Longrightarrow> fails_safely (Inl (provider_error_init False None False c))"
  by (auto simp: fails_safely_def reading_error_def provider_error_codes)

lemma safely_demand [safely]: "is_provider_failure_code c \<Longrightarrow> fails_safely (demand c x)"
  by (cases x) (simp_all add: demand_def safely_Inl safely_Inr)

lemma safely_traverse [safely]: "(\<And>x. fails_safely (f x)) \<Longrightarrow> fails_safely (traverse f xs)"
  using traverse_Inl [of f xs] by (fastforce simp: fails_safely_def)

lemma safely_computed: "fails_safely (map_sum CallPy id (computed_cost b i out))"
proof -
  have "e = OverflowError ''integer division result too large for a float''" if "ceil_thousands n = Inl e" for n e
    using that by (auto simp: ceil_thousands_def signed_truediv_def py_truediv_def Let_def map_sum_Inl split: if_splits)
  then show ?thesis
    by (auto simp: fails_safely_def computed_cost_def map_sum_Inl bind_Inl reading_error_def)
qed

lemma safely_usage: "fails_safely (usage_of payload i out b)"
proof -
  have "fails_safely (map_sum CallPy id (token_usage_init n m c))" for n m c
    by (simp add: fails_safely_def token_usage_init_def reading_error_def)
  moreover have "fails_safely (cost_of raw b n m)" for raw n m
    by (auto simp: cost_of_def Let_def response_codes intro!: safely safely_computed)
  ultimately show ?thesis
    by (auto simp: usage_of_def response_codes intro!: safely)
qed

lemma safely_parts [safely]:
  "fails_safely (content_text v)" "fails_safely (tool_call_of dumps item)" "fails_safely (response_model decoded m)"
  "fails_safely (finish_of v)" "fails_safely (first_choice v)" "fails_safely (response_id decoded)"
  by (auto simp: content_text_def tool_call_of_def response_model_def finish_of_def first_choice_def response_id_def
      response_codes intro!: safely split: option.splits list.splits)

lemma safely_responses:
  "fails_safely (tool_calls_of dumps v)"
  "fails_safely (response_of decoded b model content calls finish i out)"
  by (auto simp: tool_calls_of_def response_of_def response_codes intro!: safely safely_usage)

lemma openai_response_safe: "fails_safely (openai_response dumps b decoded)"
  by (auto simp: openai_response_def response_codes intro!: safely safely_responses)

lemma anthropic_response_safe: "fails_safely (anthropic_response dumps b decoded)"
  by (auto simp: anthropic_response_def response_codes intro!: safely safely_responses)

text \<open>The outcomes of an exchange that are worth a retry.\<close>

definition retryable_outcome :: "http_outcome \<Rightarrow> bool" where
  "retryable_outcome outcome =
     (case outcome of TransportFailed _ \<Rightarrow> True | PostRaised _ \<Rightarrow> False | CancelledFirst \<Rightarrow> False | HttpResponse status _ \<Rightarrow> status \<ge> 500 \<or> status = 429)"

text \<open>A failure with a known code that says whether to retry, and when, and whether it was a cancellation.\<close>

definition classified :: "bool \<Rightarrow> bool \<Rightarrow> call_error \<Rightarrow> bool" where
  "classified retry cancelled e =
     (case e of
        ProviderErr f \<Rightarrow> is_provider_failure_code (pv_failure_code f) \<and> (pv_retryable f \<longleftrightarrow> retry)
          \<and> pv_retry_delay_secs f = (if retry then Some 30 else None) \<and> (pv_cancelled f \<longleftrightarrow> cancelled)
      | _ \<Rightarrow> False)"

text \<open>The exceptions that the exchange lets through: those of the client that are no \<open>HTTPError\<close>, and those of the decoder that are no
  \<open>ValueError\<close>.\<close>

definition escaping_outcome :: "http_outcome \<Rightarrow> string \<Rightarrow> bool" where
  "escaping_outcome outcome name \<longleftrightarrow>
     outcome = PostRaised name \<or> (\<exists>status. outcome = HttpResponse status (BodyRaised name) \<and> status < 400)"

lemma classified_errors:
  "is_provider_failure_code c \<Longrightarrow> classified False False (final_failure c)"
  "is_provider_failure_code c \<Longrightarrow> classified True False (provider_error True c)"
  "classified False True (provider_error_init False None True ''cancelled'')"
  by (simp_all add: classified_def final_failure_def provider_error_codes provider_error_init_def response_codes)

lemma post_json_error:
  assumes "post_json outcome = Inl e"
  shows "classified (retryable_outcome outcome) (outcome = CancelledFirst) e \<or> (\<exists>name. e = CallEscaped name \<and> escaping_outcome outcome name)"
proof (cases outcome)
  case (HttpResponse status body)
  with assms show ?thesis
    by (auto simp: post_json_def retryable_outcome_def demand_def provider_error_codes(1) classified_errors status_code response_codes
        escaping_outcome_def split: if_splits option.splits response_body.splits)
qed (use assms in \<open>auto simp: post_json_def retryable_outcome_def classified_errors transport_code escaping_outcome_def\<close>)

definition usage_exn :: "py_exn \<Rightarrow> bool" where
  "usage_exn x \<longleftrightarrow> x = ValueError ''usage values must not be negative'' \<or> x = OverflowError ''integer division result too large for a float''"

lemma reading_classified:
  "reading_error e \<Longrightarrow> classified False False e \<or> (\<exists>x. e = CallPy x \<and> usage_exn x)"
  by (auto simp: reading_error_def classified_errors usage_exn_def)

lemma openai_message_safe: "fails_safely (openai_messages ms)"
proof -
  have "fails_safely (openai_message m)" for m
    by (auto simp: openai_message_def Let_def missing_call_identity_def response_codes intro!: safely split: option.splits)
  then show ?thesis
    unfolding openai_messages_def by (auto intro: safely)
qed

text \<open>C26: what a failed call of the OpenAI adapter raises. A \<open>ProviderError\<close> has one of the known codes; it is worth a retry, after
  thirty seconds, exactly when the transport failed or the service answered 429 or 5xx, and it is a cancellation
  exactly when the session was cancelled first. Besides, only these exceptions leave the call: two of the arithmetic on the
  usage of a response, and those of the HTTP client that are no \<open>HTTPError\<close> and of the decoder of a response
  below 400 that are no \<open>ValueError\<close>, which have no failure code.\<close>

theorem provider_failures_classified:
  assumes "openai_complete self dumps post rq w = (Inl e, w')"
  shows "case e of
      ProviderErr f \<Rightarrow> is_provider_failure_code (pv_failure_code f)
        \<and> (pv_retryable f \<longleftrightarrow> (\<exists>h. openai_request self rq = Inr h \<and> retryable_outcome (fst (post h w))))
        \<and> pv_retry_delay_secs f = (if pv_retryable f then Some 30 else None)
        \<and> (pv_cancelled f \<longleftrightarrow> (\<exists>h. openai_request self rq = Inr h \<and> fst (post h w) = CancelledFirst))
    | CallPy x \<Rightarrow> x = ValueError ''usage values must not be negative''
        \<or> x = OverflowError ''integer division result too large for a float''
    | CallEscaped name \<Rightarrow> \<exists>h. openai_request self rq = Inr h
        \<and> (fst (post h w) = PostRaised name \<or> (\<exists>status. fst (post h w) = HttpResponse status (BodyRaised name) \<and> status < 400))"
proof -
  have "classified (\<exists>h. openai_request self rq = Inr h \<and> retryable_outcome (fst (post h w)))
      (\<exists>h. openai_request self rq = Inr h \<and> fst (post h w) = CancelledFirst) e
    \<or> (\<exists>x. e = CallPy x \<and> usage_exn x)
    \<or> (\<exists>name h. e = CallEscaped name \<and> openai_request self rq = Inr h \<and> escaping_outcome (fst (post h w)) name)"
  proof (cases "openai_request self rq")
    case (Inl e')
    have "fails_safely (openai_request self rq)"
      by (auto simp: openai_request_def response_codes intro!: safely openai_message_safe)
    with Inl assms reading_classified [of e] show ?thesis
      by (auto simp: openai_complete_def exchange_def fails_safely_def)
  next
    case (Inr h)
    obtain outcome where outcome: "post h w = (outcome, w')"
      using assms Inr by (auto simp: openai_complete_def exchange_def split: prod.splits)
    with assms Inr have "bind_res (post_json outcome) (openai_response dumps (rq_binding rq)) = Inl e"
      by (simp add: openai_complete_def exchange_def)
    then consider "post_json outcome = Inl e" | decoded where "post_json outcome = Inr decoded" "openai_response dumps (rq_binding rq) decoded = Inl e"
      by (auto simp: bind_Inl)
    then show ?thesis
    proof cases
      case 1
      with post_json_error [OF this] Inr outcome show ?thesis by auto
    next
      case 2
      have "\<not> retryable_outcome outcome" "outcome \<noteq> CancelledFirst"
        using 2(1) by (auto simp: post_json_def retryable_outcome_def split: http_outcome.splits if_splits)
      moreover have "reading_error e"
        using 2(2) openai_response_safe [of dumps "rq_binding rq" decoded] by (auto simp: fails_safely_def)
      ultimately show ?thesis using reading_classified [of e] Inr outcome by auto
    qed
  qed
  then show ?thesis
    by (auto simp: classified_def usage_exn_def escaping_outcome_def split: call_error.splits)
qed

section \<open>Conversations\<close>

text \<open>
  Both services refuse a conversation in which a tool call is not answered, or in which a tool result answers
  nothing. \<open>answered pending ms\<close>: the messages first answer the pending calls, in order, and every later call of the model is
  answered by the tool messages that follow it.
\<close>

fun answered :: "string list \<Rightarrow> prompt_message list \<Rightarrow> bool" where
  "answered pending [] \<longleftrightarrow> pending = []"
| "answered (i # is) (m # ms) \<longleftrightarrow> pm_role m = ''tool'' \<and> pm_tool_call_id m = Some i \<and> answered is ms"
| "answered [] (m # ms) \<longleftrightarrow> pm_role m \<noteq> ''tool'' \<and> answered (map fst (pm_native_tool_calls m)) ms"

text \<open>A message that the adapters render: a tool message has its call, the arguments of a call are JSON.\<close>

definition renderable :: "(string \<Rightarrow> loads_result) \<Rightarrow> prompt_message \<Rightarrow> bool" where
  "renderable loads m \<longleftrightarrow> (pm_role m = ''tool'' \<longrightarrow> pm_tool_call_id m \<noteq> None)
     \<and> list_all (\<lambda>(i, name, arguments). \<exists>v. loads arguments = Loaded v) (pm_native_tool_calls m)"

definition conversation_ok :: "(string \<Rightarrow> loads_result) \<Rightarrow> prompt_message list \<Rightarrow> bool" where
  "conversation_ok loads ms \<longleftrightarrow> answered [] ms \<and> list_all (renderable loads) ms"

lemma answered_append: "answered pending xs \<Longrightarrow> answered pending (xs @ ys) = answered [] ys"
  by (induction pending xs rule: answered.induct) auto

lemma conversation_append:
  "conversation_ok loads ms \<Longrightarrow> conversation_ok loads (ms @ ns) = conversation_ok loads ns"
  by (auto simp: conversation_ok_def answered_append)

lemma traverse_is_ok: "(\<And>x. x \<in> set xs \<Longrightarrow> is_ok (f x)) \<Longrightarrow> is_ok (traverse f xs)"
  using traverse_Inl [of f xs] by (cases "traverse f xs") fastforce+

lemma map_sum_ok [simp]: "is_ok (map_sum g f r) = is_ok r"
  by (cases r) auto

lemma conversation_renders:
  assumes "conversation_ok loads ms"
  shows "is_ok (openai_messages ms)" "is_ok (anthropic_messages loads ms)"
proof -
  have m: "renderable loads m" if "m \<in> set ms" for m
    using assms that by (auto simp: conversation_ok_def list_all_iff)
  have "is_ok (openai_message m)" if "m \<in> set ms" for m
    using m [OF that] by (auto simp: openai_message_def renderable_def Let_def split: option.splits)
  then show "is_ok (openai_messages ms)"
    unfolding openai_messages_def by (rule traverse_is_ok)
  have arguments: "is_ok (plain_loads loads a)" if "m \<in> set ms" "(i, n, a) \<in> set (pm_native_tool_calls m)" for m i n a
    using m [OF that(1)] that(2) by (auto simp: renderable_def list_all_iff plain_loads_def)
  have "is_ok (anthropic_message loads s e (i, m))" if "m \<in> set ms" for s e i m
    using m [OF that] arguments [OF that]
    by (auto simp: anthropic_message_def renderable_def Let_def intro!: traverse_is_ok split: option.splits)
  then show "is_ok (anthropic_messages loads ms)"
    unfolding anthropic_messages_def Let_def by (intro traverse_is_ok) (auto simp: in_set_enumerate_eq dest: nth_mem)
qed

section \<open>What a session says\<close>

lemma conversation_plain:
  assumes "list_all (\<lambda>m. pm_role m \<noteq> ''tool'' \<and> pm_native_tool_calls m = []) ms"
  shows "conversation_ok loads ms"
proof -
  have "answered [] ms" using assms by (induction ms) auto
  with assms show ?thesis by (auto simp: conversation_ok_def renderable_def list_all_iff)
qed

lemma conversation_prompt: "render_prompt template envelope = Inr ms \<Longrightarrow> conversation_ok loads ms"
  by (auto simp: text_message_def list_all_iff dest!: render_prompt_shape(2) intro!: conversation_plain)

text \<open>The messages after the actions of a turn.\<close>

definition observations_of :: "(pyval \<Rightarrow> string) \<Rightarrow> (nat \<times> model_action) list \<Rightarrow> tool_value list \<Rightarrow> prompt_message list" where
  "observations_of show_value as rs = map2 (\<lambda>(i, a) r. observation_message show_value i a r) as rs"

abbreviation any_result :: "session_result \<Rightarrow> bool" where
  "any_result \<equiv> \<lambda>_. True"

lemma any_gate: "prog_sat any_result (\<lambda>_. True) (gate P sp st n c)"
  unfolding gate_def by (auto intro!: prog_rules)

lemma sat_weaken: "prog_sat Q R p \<Longrightarrow> (\<And>x. R x \<Longrightarrow> S x) \<Longrightarrow> prog_sat Q S p"
  unfolding prog_sat_def by blast

lemma talk_actions:
  "prog_sat any_result (\<lambda>st'. \<exists>rs. length rs = length as \<and> ls_messages st' = ls_messages st @ observations_of show_value as rs)
     (action_loop P show_value sp n as st)"
proof (induction as arbitrary: st)
  case (Cons a as)
  obtain i act where a: "a = (i, act)" by force
  let ?said = "\<lambda>st'. \<exists>rs. length rs = length (a # as) \<and> ls_messages st' = ls_messages st @ observations_of show_value (a # as) rs"
  have said: "?said st'" if "length rs = length as"
      "ls_messages st' = (ls_messages st @ [observation_message show_value i act r]) @ observations_of show_value as rs" for rs st' r
    using that a by (intro exI [of _ "r # rs"]) (simp add: observations_of_def)
  have step: "prog_sat any_result ?said
      (action_loop P show_value sp n as (st\<lparr>ls_observations := os, ls_messages := ls_messages st @ [observation_message show_value i act r]\<rparr>))" for os r
    by (rule sat_weaken [OF Cons.IH]) (use said in auto)
  show ?case
    unfolding a action_loop.simps
  proof (rule sat_then [OF any_gate], rule sat_then [where R = "\<lambda>_. True"])
    fix outcome
    show "prog_sat any_result (\<lambda>st'. \<exists>rs. length rs = length ((i, act) # as) \<and> ls_messages st' = ls_messages st @ observations_of show_value ((i, act) # as) rs)
      (case outcome of None \<Rightarrow> prog_stop (invalidated_result sp st n)
       | Some (result, cancelled) \<Rightarrow> prog_then (gate P sp st n cancelled) (\<lambda>_. action_loop P show_value sp n as
           (st\<lparr>ls_observations := ls_observations st @ [\<lparr>to_round_index = n, to_segment_index = i, to_action = ma_payload act, to_result = result\<rparr>],
               ls_messages := ls_messages st @ [observation_message show_value i act result]\<rparr>)))"
      using step unfolding a by (cases outcome) (auto intro!: sat_stop sat_then [OF any_gate])
  qed (rule sat_call, simp)
qed (auto intro: prog_rules simp: observations_of_def)

lemma talk_usage: "prog_sat any_result (\<lambda>st'. ls_messages st' = ls_messages st) (usage_stage P sp st n r)"
proof -
  have "prog_sat any_result (\<lambda>_. True) (case lp_usage_sink P of None \<Rightarrow> prog_give () | Some sink \<Rightarrow> prog_port (sink rc))" for rc
    by (auto intro!: prog_rules split: option.splits)
  then show ?thesis
    unfolding usage_stage_def Let_def by (rule sat_then) (auto intro!: prog_rules split: option.splits)
qed

lemma talk_checkpoint:
  "prog_sat any_result (\<lambda>st'. \<exists>c. ls_messages st' = ls_messages st @ [plain_message ''user'' c]) (checkpoint_stage P sp n st)"
  unfolding checkpoint_stage_def
  by (rule sat_then [OF any_gate], rule sat_then [where R = "\<lambda>_. True"])
    (auto intro!: prog_rules simp: decide_def Let_def split: option.splits)

text \<open>A turn of the model and the observations of its actions.\<close>

lemma answered_tools:
  "length rs = length as \<Longrightarrow> list_all2 (\<lambda>i (_, a). ma_call_id a = Some i) is as \<Longrightarrow> answered is (observations_of show_value as rs)"
proof (induction as arbitrary: "is" rs)
  case (Cons a as)
  then show ?case
    by (cases rs; cases "is") (auto simp: observations_of_def observation_message_def plain_message_def Let_def)
qed (simp add: observations_of_def)

lemma observation_renderable: "renderable loads (observation_message show_value i a r)"
  by (simp add: renderable_def observation_message_def plain_message_def Let_def split: option.splits)

lemma observations_renderable: "length rs = length as \<Longrightarrow> list_all (renderable loads) (observations_of show_value as rs)"
  by (auto simp: observations_of_def list_all_iff observation_renderable set_zip)

lemma content_no_calls:
  assumes "normalize_response loads content [] = Inr t" "a \<in> set (nt_actions t)"
  shows "ma_call_id a = None"
  using assms(1)
proof (cases rule: content_cases)
  case marked
  with content_turn_Inr [OF marked(2)] assms(2) show ?thesis by auto
next
  case single
  with content_turn_Inr [OF single(2)] assms(2) show ?thesis by auto
qed (use assms(2) in simp)

lemma native_turn:
  assumes "normalize_response loads content calls = Inr t" "calls \<noteq> []"
  shows "map ma_call_id (nt_actions t) = map (\<lambda>c. if tc_call_id c = [] then None else Some (tc_call_id c)) calls"
    and "c \<in> set calls \<Longrightarrow> \<exists>v. loads (tc_arguments c) = Loaded v"
proof -
  from assms obtain as where as: "traverse (native_action loads) calls = Inr as" "nt_actions t = as"
    by (auto simp: normalize_response_def map_sum_Inr)
  then show "map ma_call_id (nt_actions t) = map (\<lambda>c. if tc_call_id c = [] then None else Some (tc_call_id c)) calls"
    by (simp add: traverse_Inr_map [OF as(1)] native_action_Inr [unfolded action_of_call_def])
  assume "c \<in> set calls"
  then obtain a where "native_action loads c = Inr a"
    using as(1) traverse_Inr_nth traverse_Inr_length by (metis in_set_conv_nth)
  then show "\<exists>v. loads (tc_arguments c) = Loaded v"
    by (auto simp: native_action_def bind_Inr structured_Inr parse_object_def split: loads_result.splits)
qed

lemma list_all2_enumerate:
  "map f xs = map (\<lambda>c. Some (g c)) ys \<Longrightarrow> list_all2 (\<lambda>i (_, a). f a = Some i) (map g ys) (enumerate n xs)"
proof (induction xs arbitrary: ys n)
  case (Cons x xs)
  then show ?case by (cases ys) auto
qed simp

lemma enumerate_ids:
  "\<forall>c \<in> set cs. tc_call_id c \<noteq> [] \<Longrightarrow>
     map fst (map (\<lambda>(i, c). (if tc_call_id c = [] then f i else tc_call_id c, tc_name c, tc_arguments c)) (enumerate n cs)) = map tc_call_id cs"
  by (induction cs arbitrary: n) auto

lemma turn_spoken:
  assumes "normalize_response loads (pr_content r) (pr_tool_calls r) = Inr turn"
    "\<forall>c \<in> set (pr_tool_calls r). tc_call_id c \<noteq> []" "conversation_ok loads (ls_messages st)"
    "length rs = length (nt_actions turn)"
  shows "conversation_ok loads (ls_messages (record_response sp n r st) @ observations_of show_value (enum_list (nt_actions turn)) rs)"
proof (cases "pr_tool_calls r = []")
  case True
  have "ma_call_id a = None" if "(i, a) \<in> set (enum_list (nt_actions turn))" for i a
    using content_no_calls [of loads "pr_content r" turn a] assms(1) True that by (auto simp: in_set_enumerate_eq)
  then have "list_all (\<lambda>m. pm_role m \<noteq> ''tool'' \<and> pm_native_tool_calls m = []) (observations_of show_value (enum_list (nt_actions turn)) rs)"
    by (auto simp: observations_of_def list_all_iff observation_message_def plain_message_def Let_def dest!: set_zip_leftD)
  then show ?thesis
    using assms(3) True by (auto simp: record_response_def conversation_append plain_message_def intro!: conversation_plain)
next
  case False
  let ?calls = "map (\<lambda>(i, c). (if tc_call_id c = [] then call_id_of sp n @ '':'' @ str_nat i else tc_call_id c, tc_name c, tc_arguments c))
    (enum_list (pr_tool_calls r))"
  let ?m = "plain_message ''assistant'' (pr_content r) \<lparr>pm_native_tool_calls := ?calls\<rparr>"
  have calls: "map fst ?calls = map tc_call_id (pr_tool_calls r)"
    using assms(2) by (rule enumerate_ids)
  have ids: "list_all2 (\<lambda>i (_, a). ma_call_id a = Some i) (map tc_call_id (pr_tool_calls r)) (enum_list (nt_actions turn))"
    using native_turn(1) [OF assms(1) False] assms(2) by (intro list_all2_enumerate) (simp cong: map_cong)
  have "renderable loads ?m"
    using native_turn(2) [OF assms(1) False]
    by (auto simp: renderable_def plain_message_def list_all_iff in_set_enumerate_eq)
  with calls ids assms(4) have "conversation_ok loads (?m # observations_of show_value (enum_list (nt_actions turn)) rs)"
    by (simp add: conversation_ok_def plain_message_def answered_tools observations_renderable)
  then show ?thesis
    using assms(3) False by (simp add: record_response_def conversation_append)
qed

text \<open>Every response that reaches the session identifies its calls.\<close>

definition identified :: "provider_response \<Rightarrow> bool" where
  "identified r \<longleftrightarrow> (\<forall>c \<in> set (pr_tool_calls r). tc_call_id c \<noteq> [])"

definition identifying :: "'w loop_ports \<Rightarrow> bool" where
  "identifying P \<longleftrightarrow> (\<forall>b ms w r c w'. lp_complete P b ms w = ((Responded r, c), w') \<longrightarrow> identified r)"

lemma talk_provider: "identifying P \<Longrightarrow> prog_sat any_result identified (provider_stage P sp st n)"
  unfolding provider_stage_def
proof (rule sat_then [where R = "\<lambda>x. \<forall>r. x = Responded r \<longrightarrow> identified r"])
  assume P: "identifying P"
  show "prog_sat any_result (\<lambda>x. \<forall>r. x = Responded r \<longrightarrow> identified r) (prog_call (provider_call P sp (ls_messages st)))"
    using P unfolding identifying_def
    by (intro sat_call) (auto simp: provider_call_def split: prod.splits provider_outcome.splits if_splits sum.splits bool.splits, blast)
qed (auto intro!: prog_rules split: provider_outcome.splits)

lemma talk_turn:
  assumes "normalize_response loads (pr_content r) (pr_tool_calls r) = Inr turn" "identified r" "conversation_ok loads (ls_messages st)"
  shows "prog_sat any_result (\<lambda>st'. conversation_ok loads (ls_messages st')) (turn_stage P show_value sp n r turn (record_response sp n r st))"
  unfolding turn_stage_def
proof (rule sat_then [OF any_gate], rule sat_then [OF talk_actions])
  fix st' :: loop_state
  assume "\<exists>rs. length rs = length (enum_list (nt_actions turn))
    \<and> ls_messages st' = ls_messages (record_response sp n r st) @ observations_of show_value (enum_list (nt_actions turn)) rs"
  then have ok: "conversation_ok loads (ls_messages st')"
    using turn_spoken [OF assms(1) _ assms(3)] assms(2) by (auto simp: identified_def)
  have "conversation_ok loads (ls_messages st' @ [plain_message ''user'' c])" for c
    using ok by (auto simp: conversation_append plain_message_def intro!: conversation_plain)
  then have "prog_sat any_result (\<lambda>st'. conversation_ok loads (ls_messages st')) (checkpoint_stage P sp n st')"
    by (intro sat_weaken [OF talk_checkpoint]) auto
  with ok show "prog_sat any_result (\<lambda>st'. conversation_ok loads (ls_messages st'))
      (if nt_declared_complete turn then checkpoint_stage P sp n st'
       else if nt_actions turn = [] \<and> pr_finish_reason r \<in> {''stop'', ''end_turn''}
       then prog_stop (result_of sp SsClosed SxSegmentStopped st' n) else prog_give st')"
    by (auto intro!: prog_rules)
qed

lemma talk_round:
  assumes "identifying P" "conversation_ok loads (ls_messages st)"
  shows "prog_sat any_result (\<lambda>st'. conversation_ok loads (ls_messages st')) (run_round P loads show_value sp n st)"
proof -
  have admit: "prog_sat any_result (\<lambda>_. True) (budget_admit P sp st k)" for k
    unfolding budget_admit_def by (auto intro!: prog_rules split: option.splits)
  have fits: "prog_sat any_result (\<lambda>_. True) (fit_stage P sp st k)" for k
    unfolding fit_stage_def by (auto intro!: prog_rules split: sum.splits)
  have normal: "prog_sat any_result (\<lambda>turn. normalize_response loads (pr_content r) (pr_tool_calls r) = Inr turn) (normalize_stage loads sp st' k r)" for st' k r
    unfolding normalize_stage_def by (auto intro!: prog_rules split: sum.splits normalization_error.splits)
  show ?thesis
    unfolding run_round_def
    by (rule sat_then [OF any_gate], rule sat_then [OF admit], rule sat_then [OF fits], rule sat_then [OF talk_provider [OF assms(1)]],
        rule sat_then [OF any_gate], rule sat_then [OF talk_usage], rule sat_then [OF normal], rule talk_turn)
      (use assms(2) in auto)
qed

section \<open>Accepted responses\<close>

lemma demand_Inr [simp]: "demand c x = Inr v \<longleftrightarrow> x = Some v"
  by (cases x) (simp_all add: demand_def)

lemma json_text_Some [simp]: "json_text v = Some s \<longleftrightarrow> v = RStr s \<and> s \<noteq> []"
  by (cases v) (auto simp: json_text_def json_str_def)

lemma json_text_None [simp]: "json_text v = None \<longleftrightarrow> (\<forall>s. v = RStr s \<longrightarrow> s = [])"
  by (cases v) (auto simp: json_text_def json_str_def)

lemma tool_calls_checked:
  assumes "tool_calls_of dumps v = Inr calls" "c \<in> set calls"
  shows "tc_name c \<noteq> [] \<and> tc_call_id c \<noteq> []"
proof -
  have "tc_name c \<noteq> [] \<and> tc_call_id c \<noteq> []" if "tool_call_of dumps item = Inr c" for item
    using that by (auto simp: tool_call_of_def bind_Inr split: option.splits)
  moreover obtain item where "tool_call_of dumps item = Inr c"
    using assms by (auto simp: tool_calls_of_def bind_Inr split: if_splits dest!: traverse_Inr_set)
  ultimately show ?thesis by blast
qed

lemma response_of_checked:
  assumes "response_of decoded b model content calls finish i out = Inr r"
  shows "pr_model r = model \<and> pr_tool_calls r = calls \<and> get_field decoded ''id'' = RStr (pr_provider_receipt_id r)
    \<and> pr_provider_receipt_id r \<noteq> [] \<and> 0 \<le> tu_input_tokens (pr_usage r) \<and> 0 \<le> tu_output_tokens (pr_usage r)
    \<and> 0 \<le> tu_cost_micros (pr_usage r)"
  using assms
  by (auto simp: response_of_def response_id_def usage_of_def token_usage_init_def bind_Inr split: option.splits if_splits sum.splits)

lemma response_model_Inr [simp]: "response_model decoded m = Inr m' \<longleftrightarrow> m' = m \<and> get_field decoded ''model'' = RStr m"
  by (auto simp: response_model_def)

lemma openai_response_checked:
  "openai_response dumps b decoded = Inr r \<Longrightarrow> \<exists>calls v content finish. tool_calls_of dumps v = Inr calls
     \<and> response_of decoded b (lb_model_id b) content calls finish ''prompt_tokens'' ''completion_tokens'' = Inr r"
  by (auto simp: openai_response_def bind_Inr)

lemma anthropic_response_checked:
  "anthropic_response dumps b decoded = Inr r \<Longrightarrow> \<exists>calls v content finish. tool_calls_of dumps v = Inr calls
     \<and> response_of decoded b (lb_model_id b) content calls finish ''input_tokens'' ''output_tokens'' = Inr r"
  by (auto simp: anthropic_response_def bind_Inr)

text \<open>The two adapters.\<close>

definition adapter ::
  "openai_provider + anthropic_provider \<Rightarrow> (string \<Rightarrow> loads_result) \<Rightarrow> (raw_json \<Rightarrow> string) \<Rightarrow> (http_request \<Rightarrow> 'w \<Rightarrow> http_outcome \<times> 'w)
     \<Rightarrow> provider_request \<Rightarrow> 'w \<Rightarrow> (call_error + provider_response) \<times> 'w" where
  "adapter self loads dumps post =
     (case self of Inl openai \<Rightarrow> openai_complete openai dumps post | Inr anthropic \<Rightarrow> anthropic_complete anthropic loads dumps post)"

lemma exchange_Inr:
  "exchange post request f w = (Inr r, w') \<longleftrightarrow>
     (\<exists>h outcome decoded. request = Inr h \<and> post h w = (outcome, w') \<and> post_json outcome = Inr decoded \<and> f decoded = Inr r)"
  by (auto simp: exchange_def bind_Inr split: sum.splits prod.splits)

lemma post_json_Inr: "post_json outcome = Inr decoded \<longleftrightarrow> (\<exists>status. outcome = HttpResponse status (JsonBody (RObj decoded)) \<and> status < 400)"
  by (cases outcome) (auto simp: post_json_def json_object_def demand_def split: option.splits raw_json.splits response_body.splits)

lemma adapter_Inr:
  assumes "adapter self loads dumps post rq w = (Inr r, w')"
  shows "\<exists>h status decoded calls v content finish i out. post h w = (HttpResponse status (JsonBody (RObj decoded)), w') \<and> status < 400
    \<and> tool_calls_of dumps v = Inr calls
    \<and> response_of decoded (rq_binding rq) (lb_model_id (rq_binding rq)) content calls finish i out = Inr r"
proof (cases self)
  case (Inl openai)
  with assms obtain h status decoded where h: "post h w = (HttpResponse status (JsonBody (RObj decoded)), w')" "status < 400"
    "openai_response dumps (rq_binding rq) decoded = Inr r"
    by (auto simp: adapter_def openai_complete_def exchange_Inr post_json_Inr)
  from openai_response_checked [OF h(3)] h(1,2) show ?thesis by blast
next
  case (Inr anthropic)
  with assms obtain h status decoded where h: "post h w = (HttpResponse status (JsonBody (RObj decoded)), w')" "status < 400"
    "anthropic_response dumps (rq_binding rq) decoded = Inr r"
    by (auto simp: adapter_def anthropic_complete_def exchange_Inr post_json_Inr)
  from anthropic_response_checked [OF h(3)] h(1,2) show ?thesis by blast
qed

text \<open>An adapter returns only checked responses. The service answered below 400 with a JSON object for the model
  that the session is bound to, its receipt is the nonempty identifier of the body, the usage is not negative,
  and every tool call has a name and an identifier.\<close>

theorem adapter_response_checked:
  assumes "adapter self loads dumps post rq w = (Inr r, w')"
  shows "pr_model r = lb_model_id (rq_binding rq)
    \<and> (\<exists>h status decoded. post h w = (HttpResponse status (JsonBody (RObj decoded)), w') \<and> status < 400
         \<and> get_field decoded ''id'' = RStr (pr_provider_receipt_id r))
    \<and> pr_provider_receipt_id r \<noteq> []
    \<and> 0 \<le> tu_input_tokens (pr_usage r) \<and> 0 \<le> tu_output_tokens (pr_usage r) \<and> 0 \<le> tu_cost_micros (pr_usage r)
    \<and> (\<forall>c \<in> set (pr_tool_calls r). tc_name c \<noteq> [] \<and> tc_call_id c \<noteq> [])"
proof -
  obtain h status decoded calls v content finish i out where r: "post h w = (HttpResponse status (JsonBody (RObj decoded)), w')" "status < 400"
    "tool_calls_of dumps v = Inr calls" "response_of decoded (rq_binding rq) (lb_model_id (rq_binding rq)) content calls finish i out = Inr r"
    using adapter_Inr [OF assms] by blast
  with response_of_checked [OF r(4)] tool_calls_checked [OF r(3)] show ?thesis by blast
qed

section \<open>A session with an adapter\<close>

text \<open>An adapter as the provider of \<open>AgentLoop\<close>; \<open>cancelled\<close> says whether the watcher cancelled the token meanwhile.\<close>

definition adapter_port ::
  "(provider_request \<Rightarrow> 'w \<Rightarrow> (call_error + provider_response) \<times> 'w) \<Rightarrow> ('w \<Rightarrow> bool)
     \<Rightarrow> locked_model_binding \<Rightarrow> prompt_message list \<Rightarrow> 'w \<Rightarrow> (provider_outcome \<times> bool) \<times> 'w" where
  "adapter_port complete_call cancelled b ms w =
     (case complete_call \<lparr>rq_binding = b, rq_messages = ms, rq_tools = default_tool_definitions, rq_tool_choice = None\<rparr> w of
        (Inr r, w') \<Rightarrow> ((Responded r, cancelled w'), w')
      | (Inl (ProviderErr f), w') \<Rightarrow> ((ProviderFailed (pv_retryable f) (pv_cancelled f), cancelled w'), w')
      | (Inl _, w') \<Rightarrow> ((ProviderRaised, cancelled w'), w'))"

lemma adapter_identifying: "identifying (P\<lparr>lp_complete := adapter_port (adapter self loads dumps post) cancelled\<rparr>)"
proof -
  have "identified r" if "adapter self loads dumps post rq w = (Inr r, w')" for rq w r w'
    using adapter_Inr [OF that] response_of_checked tool_calls_checked unfolding identified_def by metis
  then show ?thesis
    by (auto simp: identifying_def adapter_port_def split: prod.splits sum.splits call_error.splits)
qed

lemma then_cong_sat:
  assumes "prog_sat any_result R p" "\<And>x. R x \<Longrightarrow> f x = g x"
  shows "prog_then p f = prog_then p g"
  using assms by (fastforce simp: prog_sat_def prog_then_def fun_eq_iff split: prod.splits sum.splits step.splits)

lemma complete_irrelevant:
  fixes P :: "'w loop_ports"
  defines "Q \<equiv> \<lambda>f. P\<lparr>lp_complete := f\<rparr>"
  shows "gate (Q f) = gate P" "budget_admit (Q f) = budget_admit P" "fit_stage (Q f) = fit_stage P" "usage_stage (Q f) = usage_stage P"
    "turn_stage (Q f) = turn_stage P" "context_fits (Q f) = context_fits P"
proof -
  have a: "allowed (Q f) = allowed P" for f
    by (simp add: fun_eq_iff allowed_def Q_def)
  have g: "gate (Q f) = gate P" for f
    by (simp add: fun_eq_iff gate_def a)
  have ports: "lp_dispatch (Q f) = lp_dispatch P" "lp_cancel (Q f) = lp_cancel P" "lp_context_manager (Q f) = lp_context_manager P"
      "lp_tool_schema_tokens (Q f) = lp_tool_schema_tokens P" "lp_envelope_margin (Q f) = lp_envelope_margin P" for f
    by (simp_all add: Q_def)
  have d: "dispatch_call (Q f) = dispatch_call P" for f
    by (intro ext) (simp only: dispatch_call_def a ports)
  have act: "action_loop (Q f) show_value sp n as st = action_loop P show_value sp n as st" for f show_value sp n as st
    by (induction as arbitrary: st) (auto simp: g d)
  have dec: "decide (Q f) = decide P" "precheck (Q f) = precheck P" for f
    by (simp_all add: fun_eq_iff decide_def precheck_def Q_def)
  have check: "checkpoint_stage (Q f) = checkpoint_stage P" for f
    unfolding fun_eq_iff checkpoint_stage_def g dec by simp
  show "gate (Q f) = gate P" by (rule g)
  show "budget_admit (Q f) = budget_admit P" "usage_stage (Q f) = usage_stage P"
    by (simp_all add: fun_eq_iff budget_admit_def usage_stage_def Q_def)
  show fits: "context_fits (Q f) = context_fits P"
    by (intro ext) (simp only: context_fits_def ports)
  show "fit_stage (Q f) = fit_stage P"
    unfolding fun_eq_iff fit_stage_def fits by simp
  show "turn_stage (Q f) = turn_stage P"
    unfolding fun_eq_iff turn_stage_def g act check by simp
qed

lemma provider_stage_cong:
  assumes "\<And>w. f (ss_binding sp) (ls_messages st) w = g (ss_binding sp) (ls_messages st) w"
  shows "provider_stage (P\<lparr>lp_complete := f\<rparr>) sp st n = provider_stage (P\<lparr>lp_complete := g\<rparr>) sp st n"
proof -
  have a: "allowed (P\<lparr>lp_complete := h\<rparr>) = allowed P" for h
    by (simp add: fun_eq_iff allowed_def)
  have ports: "lp_complete (P\<lparr>lp_complete := h\<rparr>) = h" "lp_cancel (P\<lparr>lp_complete := h\<rparr>) = lp_cancel P" for h
    by simp_all
  have "provider_call (P\<lparr>lp_complete := f\<rparr>) sp (ls_messages st) = provider_call (P\<lparr>lp_complete := g\<rparr>) sp (ls_messages st)"
    by (intro ext) (simp only: provider_call_def a ports assms)
  then show ?thesis by (simp add: provider_stage_def)
qed

lemma rounds_cong:
  assumes "identifying (P\<lparr>lp_complete := f\<rparr>)" "\<And>b ms w. conversation_ok loads ms \<Longrightarrow> f b ms w = g b ms w"
  shows "conversation_ok loads (ls_messages st) \<Longrightarrow>
    round_loop (P\<lparr>lp_complete := f\<rparr>) loads show_value sp ns st = round_loop (P\<lparr>lp_complete := g\<rparr>) loads show_value sp ns st"
proof (induction ns arbitrary: st)
  case (Cons n ns)
  have "run_round (P\<lparr>lp_complete := f\<rparr>) loads show_value sp n st = run_round (P\<lparr>lp_complete := g\<rparr>) loads show_value sp n st"
    using provider_stage_cong [of f sp st g] assms(2) [OF Cons.prems] unfolding run_round_def complete_irrelevant by simp
  moreover have "prog_then (run_round (P\<lparr>lp_complete := f\<rparr>) loads show_value sp n st) (round_loop (P\<lparr>lp_complete := f\<rparr>) loads show_value sp ns)
      = prog_then (run_round (P\<lparr>lp_complete := f\<rparr>) loads show_value sp n st) (round_loop (P\<lparr>lp_complete := g\<rparr>) loads show_value sp ns)"
    by (rule then_cong_sat [OF talk_round [OF assms(1) Cons.prems]]) (rule Cons.IH)
  ultimately show ?case by simp
qed simp

text \<open>C27: a session with an adapter holds a well-formed conversation. Replace the adapter by anything that behaves
  like it on conversations in which every tool call is answered in order and every message can be rendered:
  the session does not notice, whatever the service, the tools and the other ports do. So the failures of
  rendering never happen in a session: on such conversations both adapters render their request.\<close>

theorem session_conversation_ok:
  assumes "\<And>b ms w. conversation_ok loads ms \<Longrightarrow> other b ms w = adapter_port (adapter self loads dumps post) cancelled b ms w"
  shows "agent_loop_run (P\<lparr>lp_complete := adapter_port (adapter self loads dumps post) cancelled\<rparr>) digest loads show_value sp
      = agent_loop_run (P\<lparr>lp_complete := other\<rparr>) digest loads show_value sp
    \<and> (conversation_ok loads ms \<longrightarrow> is_ok (openai_messages ms) \<and> is_ok (anthropic_messages loads ms))"
proof -
  note rounds = rounds_cong [OF adapter_identifying, where loads = loads and g = other]
  have "agent_loop_run (P\<lparr>lp_complete := adapter_port (adapter self loads dumps post) cancelled\<rparr>) digest loads show_value sp
      = agent_loop_run (P\<lparr>lp_complete := other\<rparr>) digest loads show_value sp"
    unfolding agent_loop_run_def complete_irrelevant
    by (auto split: sum.splits simp del: upt_Suc intro!: rounds dest: conversation_prompt simp: assms)
  then show ?thesis
    using conversation_renders by blast
qed

section \<open>Prices\<close>

lemma quot_ceiling:
  assumes "0 < n" "n < 2 ^ 52"
  shows "\<lceil>quot n 1000\<rceil> = (n + 999) div 1000"
proof -
  let ?q = "of_int n / of_int 1000 :: rat" and ?c = "(n + 999) div 1000"
  define k where "k = binade n 1000"
  define j where "j = nat (52 - k)"
  have B: "2 powi k \<le> ?q" "?q < 2 powi (k + 1)"
    unfolding k_def using binade_bounds [of n 1000] assms(1) by auto
  have "?q < 2 powi 43" using assms(2) by (simp add: divide_simps)
  then have "\<not> 2 powi 43 \<le> (2 powi k :: rat)" using B(1) by linarith
  then have k: "k \<le> 42" by (simp only: powi_mono)
  have "2 powi (- 10) \<le> ?q" using assms(1) by (simp add: power_int_minus divide_simps)
  then have "\<not> (2 powi (k + 1) :: rat) \<le> 2 powi (- 10)" using B(2) by linarith
  then have k': "- 11 < k" by (simp only: powi_mono)
  have quot: "quot n 1000 = of_int (round_half_even (?q * 2 ^ j)) / 2 ^ j"
  proof -
    have "(2 :: rat) powi (52 - k) = 2 ^ j" using k by (simp add: j_def power_int_nonneg_exp)
    moreover have "(2 :: rat) powi (k - 52) = 1 / 2 powi (52 - k)" by (metis minus_diff_eq power_int_minus_divide)
    ultimately show ?thesis
      using quot_in_binade [of n 1000 k] assms(1) B k' by simp
  qed
  have c: "?q \<le> of_int ?c" "of_int (?c - 1) + 1 / 1000 \<le> ?q"
  proof -
    have "1000 * ?c + (n + 999) mod 1000 = n + 999" "0 \<le> (n + 999) mod 1000" "(n + 999) mod 1000 < 1000"
      by simp_all
    then have "n \<le> 1000 * ?c" "1000 * (?c - 1) + 1 \<le> n" by (simp_all only: right_diff_distrib)
    then have "(of_int n :: rat) \<le> of_int (1000 * ?c)" "(of_int (1000 * (?c - 1) + 1) :: rat) \<le> of_int n"
      by (simp_all only: of_int_le_iff)
    then show "?q \<le> of_int ?c" "of_int (?c - 1) + 1 / 1000 \<le> ?q" by simp_all
  qed
  have "round_half_even (?q * 2 ^ j) \<le> ?c * 2 ^ j"
    using c(1) by (intro round_half_even_le) simp
  then have "(of_int (round_half_even (?q * 2 ^ j)) :: rat) \<le> of_int (?c * 2 ^ j)"
    by (simp only: of_int_le_iff)
  then have upper: "quot n 1000 \<le> of_int ?c"
    unfolding quot by (simp add: pos_divide_le_eq)
  have "(2 :: rat) ^ 10 \<le> 2 ^ j" using k by (intro power_increasing) (auto simp: j_def)
  then have "(1 :: rat) \<le> 1 / 1000 * 2 ^ j" by simp
  moreover have "(of_int (?c - 1) + 1 / 1000) * 2 ^ j \<le> ?q * 2 ^ j"
    using c(2) by (intro mult_right_mono) auto
  ultimately have "of_int ((?c - 1) * 2 ^ j + 1) \<le> ?q * 2 ^ j" by (simp add: algebra_simps)
  then have "(?c - 1) * 2 ^ j + 1 \<le> round_half_even (?q * 2 ^ j)" by (rule round_half_even_ge)
  then have "(of_int ((?c - 1) * 2 ^ j) :: rat) < of_int (round_half_even (?q * 2 ^ j))"
    by (simp only: of_int_less_iff)
  then have "of_int (?c - 1) < quot n 1000"
    unfolding quot by (simp add: pos_less_divide_eq)
  with upper show ?thesis by (simp add: ceiling_eq_iff)
qed

lemma ceil_thousands_exact:
  assumes "0 \<le> n" "n < 2 ^ 52"
  shows "ceil_thousands n = Inr ((n + 999) div 1000)"
proof (cases "n = 0")
  case False
  moreover have "py_truediv n 1000 = Inr (quot n 1000)"
    using assms False by (intro py_truediv_pos) (auto intro: less_le_trans)
  ultimately show ?thesis
    using quot_ceiling [of n] assms by (simp add: ceil_thousands_def signed_truediv_def)
qed (simp add: ceil_thousands_def signed_truediv_def)

text \<open>The price of a call is exact although it is computed with floats: below \<open>2^52\<close> tokens it is the number of
  started thousands of tokens times their price.\<close>

theorem cost_exact:
  assumes "0 \<le> i" "i < 2 ^ 52" "0 \<le> out" "out < 2 ^ 52"
  shows "computed_cost b i out = Inr ((i + 999) div 1000 * lb_input_cost_micros_per_1k b + (out + 999) div 1000 * lb_output_cost_micros_per_1k b)"
  using assms by (simp add: computed_cost_def ceil_thousands_exact)

theorem cost_exact_witness: "computed_cost ex_binding 1001 0 = Inr 2"
  using cost_exact [of 1001 0 ex_binding] by (simp add: ex_binding_def)

section \<open>Examples\<close>

definition ex_openai :: openai_provider where
  "ex_openai = \<lparr>oa_endpoint = ''e'', oa_api_key = ''k''\<rparr>"

definition ex_provider_request :: provider_request where
  "ex_provider_request = \<lparr>rq_binding = ex_binding\<lparr>lb_provider_id := ''openai''\<rparr>, rq_messages = [], rq_tools = [], rq_tool_choice = None\<rparr>"

text \<open>A service that answers, and one that is overloaded.\<close>

definition ex_post :: "http_request \<Rightarrow> unit \<Rightarrow> http_outcome \<times> unit" where
  "ex_post _ w = (HttpResponse 200 (JsonBody (RObj [(''id'', RStr ''r1''), (''model'', RStr ''m''),
     (''choices'', RArr [RObj [(''message'', RObj [(''content'', RStr ''x'')]), (''finish_reason'', RStr ''stop'')]]),
     (''usage'', RObj [(''prompt_tokens'', RInt 1), (''completion_tokens'', RInt 1), (''cost_micros'', RInt 5)])])), w)"

definition ex_overloaded :: "http_request \<Rightarrow> unit \<Rightarrow> http_outcome \<times> unit" where
  "ex_overloaded _ w = (HttpResponse 503 NotJson, w)"

lemma ex_openai_request: "\<exists>h. openai_request ex_openai ex_provider_request = Inr h"
  by (simp add: openai_request_def openai_messages_def ex_provider_request_def)

theorem provider_failures_classified_witness:
  "\<exists>f. openai_complete ex_openai (\<lambda>_. []) ex_overloaded ex_provider_request () = (Inl (ProviderErr f), ())
     \<and> pv_retryable f \<and> pv_retry_delay_secs f = Some 30 \<and> \<not> pv_cancelled f"
proof -
  obtain h where h: "openai_request ex_openai ex_provider_request = Inr h"
    using ex_openai_request by blast
  obtain f where f: "openai_complete ex_openai (\<lambda>_. []) ex_overloaded ex_provider_request () = (Inl (ProviderErr f), ())"
    by (simp add: openai_complete_def exchange_def h ex_overloaded_def post_json_def provider_error_codes status_code)
  from provider_failures_classified [OF f] show ?thesis
    using f h by (simp add: ex_overloaded_def retryable_outcome_def)
qed

theorem adapter_response_checked_witness:
  "\<exists>r. adapter (Inl ex_openai) (\<lambda>_. Malformed) (\<lambda>_. []) ex_post ex_provider_request () = (Inr r, ()) \<and> pr_model r = ''m''
     \<and> pr_provider_receipt_id r \<noteq> []"
proof -
  obtain h where h: "openai_request ex_openai ex_provider_request = Inr h"
    using ex_openai_request by blast
  have m: "lb_model_id (rq_binding ex_provider_request) = ''m''"
    by (simp add: ex_provider_request_def ex_binding_def)
  obtain r where r: "adapter (Inl ex_openai) (\<lambda>_. Malformed) (\<lambda>_. []) ex_post ex_provider_request () = (Inr r, ())"
    by (simp add: adapter_def openai_complete_def exchange_def h ex_post_def post_json_def json_object_def openai_response_def
        m response_model_def get_field_def first_choice_def json_array_def tool_calls_of_def finish_of_def json_str_def
        response_of_def content_text_def usage_of_def json_int_def cost_of_def token_usage_init_def response_id_def json_text_def demand_def)
  from adapter_response_checked [OF r] r m show ?thesis
    by simp
qed

theorem session_conversation_ok_witness:
  "agent_loop_run (ex_ports\<lparr>lp_complete := adapter_port (adapter (Inl ex_openai) (\<lambda>_. Malformed) (\<lambda>_. []) ex_post) (\<lambda>_. False)\<rparr>)
       (\<lambda>_. zero_digest) (\<lambda>_. Malformed) (\<lambda>_. []) ex_session
     = agent_loop_run (ex_ports\<lparr>lp_complete := \<lambda>b ms w. if conversation_ok (\<lambda>_. Malformed) ms
         then adapter_port (adapter (Inl ex_openai) (\<lambda>_. Malformed) (\<lambda>_. []) ex_post) (\<lambda>_. False) b ms w else ((ProviderRaised, False), w)\<rparr>)
       (\<lambda>_. zero_digest) (\<lambda>_. Malformed) (\<lambda>_. []) ex_session
   \<and> is_ok (anthropic_messages (\<lambda>_. Malformed) [plain_message ''user'' ''x''])"
proof -
  have ok: "conversation_ok (\<lambda>_. Malformed) [plain_message ''user'' ''x'']"
    by (simp add: conversation_ok_def plain_message_def renderable_def)
  show ?thesis
    using session_conversation_ok [where loads = "\<lambda>_. Malformed" and ms = "[plain_message ''user'' ''x'']" and self = "Inl ex_openai"
        and dumps = "\<lambda>_. []" and post = ex_post and cancelled = "\<lambda>_. False" and P = ex_ports and digest = "\<lambda>_. zero_digest"
        and show_value = "\<lambda>_. []" and sp = ex_session and other = "\<lambda>b ms w. if conversation_ok (\<lambda>_. Malformed) ms
         then adapter_port (adapter (Inl ex_openai) (\<lambda>_. Malformed) (\<lambda>_. []) ex_post) (\<lambda>_. False) b ms w else ((ProviderRaised, False), w)"]
      ok by simp
qed

text \<open>A response with a negative count leaves the adapter as a plain \<open>ValueError\<close>, not as a failure with the code for invalid usage.\<close>

lemma negative_usage_escapes:
  "usage_of [(''usage'', RObj [(''i'', RInt (-1)), (''o'', RInt 0), (''cost_micros'', RInt 0)])] ''i'' ''o'' b
     = Inl (CallPy (ValueError ''usage values must not be negative''))"
  by (simp add: usage_of_def get_field_def json_object_def json_int_def demand_def cost_of_def token_usage_init_def)

end
