(* ===== verification/Workspace_Paths.thy ===== *)
theory Workspace_Paths
  imports Prelude Py_Json "HOL-Library.Sublist"
begin

text \<open>
  \<open>workspace/paths.py\<close>: files below a root directory that is opened once. A directory tree is a partial function from the segments
  of a path to a node, with the device the node lives on. Every step opens one segment below an open
  directory without following links, so that an operation is a walk along the segments. The model is sequential
  and leaves out failures of the disk; the temporary file of an atomic write, which is gone when the write
  returns, does not appear, and the counter of opened files, which only tests read, is left out.
\<close>

section \<open>Trees\<close>

text \<open>\<open>OtherNode\<close> is a FIFO or a device, which opens and is then found not to be a regular file; a socket, whose opening fails with
  \<open>ENXIO\<close>, is left out.\<close>

datatype fs_node = FileNode string | DirNode | LinkNode | OtherNode

record secure_root =
  sr_name :: string
  sr_path :: string
  sr_device :: nat
  sr_nodes :: "string list \<Rightarrow> (nat \<times> fs_node) option"

text \<open>\<open>PathSecurityError\<close>, \<open>PathNotFound\<close>, and the \<open>ValueError\<close> of a file beyond the read limit.\<close>

datatype root_exn = PathSecurityError | PathNotFound | FileTooLarge

definition unsafe_parts :: "string list" where
  "unsafe_parts = ['''', ''.'', ''..'', ''.git'']"

definition validate_relative_path :: "string \<Rightarrow> root_exn + string" where
  "validate_relative_path path =
     (if path = [] \<or> CHR 0x00 \<in> set path then Inl PathSecurityError
      else if length path > 4096 then Inl PathSecurityError
      else if hd path \<in> {CHR ''/'', CHR ''~''} \<or> CHR 0x5C \<in> set path then Inl PathSecurityError
      else if list_ex (\<lambda>part. part \<in> set unsafe_parts) (split_on (CHR ''/'') path) then Inl PathSecurityError
      else Inr path)"

definition secure_root_init :: "string \<Rightarrow> string \<Rightarrow> nat \<Rightarrow> (string list \<Rightarrow> (nat \<times> fs_node) option) \<Rightarrow> secure_root res" where
  "secure_root_init name path device nodes =
     (if name = [] \<or> CHR ''/'' \<in> set name \<or> name \<in> {''.'', ''..''} then Inl (ValueError ''root name must be a safe identifier'')
      else Inr \<lparr>sr_name = name, sr_path = path, sr_device = device, sr_nodes = nodes\<rparr>)"

definition absolute_path :: "secure_root \<Rightarrow> string option \<Rightarrow> root_exn + string" where
  "absolute_path self path =
     (case path of
        None \<Rightarrow> Inr (sr_path self)
      | Some p \<Rightarrow> map_sum id (\<lambda>q. sr_path self @ ''/'' @ q) (validate_relative_path p))"

section \<open>Walking\<close>

definition open_directory :: "secure_root \<Rightarrow> string list \<Rightarrow> string \<Rightarrow> root_exn + unit" where
  "open_directory self parent name =
     (case sr_nodes self (parent @ [name]) of
        None \<Rightarrow> Inl PathNotFound
      | Some (device, node) \<Rightarrow> (case node of
          LinkNode \<Rightarrow> Inl PathSecurityError
        | DirNode \<Rightarrow> if device \<noteq> sr_device self then Inl PathSecurityError else Inr ()
        | _ \<Rightarrow> Inl PathNotFound))"

text \<open>\<open>os.mkdir\<close>, with \<open>FileExistsError\<close> ignored.\<close>

definition make_directory :: "secure_root \<Rightarrow> string list \<Rightarrow> secure_root" where
  "make_directory self path =
     (case sr_nodes self path of
        None \<Rightarrow> self\<lparr>sr_nodes := (sr_nodes self)(path := Some (sr_device self, DirNode))\<rparr>
      | Some _ \<Rightarrow> self)"

fun open_parent :: "bool \<Rightarrow> secure_root \<Rightarrow> string list \<Rightarrow> string list \<Rightarrow> (root_exn + unit) \<times> secure_root" where
  "open_parent create_missing self walked [] = (Inr (), self)"
| "open_parent create_missing self walked (part # parts) =
     (case open_directory self walked part of
        Inr _ \<Rightarrow> open_parent create_missing self (walked @ [part]) parts
      | Inl e \<Rightarrow>
          if e = PathNotFound \<and> create_missing
          then let self' = make_directory self (walked @ [part])
               in (case open_directory self' walked part of
                     Inr _ \<Rightarrow> open_parent create_missing self' (walked @ [part]) parts
                   | Inl e' \<Rightarrow> (Inl e', self'))
          else (Inl e, self))"

text \<open>\<open>_open_leaf\<close>: \<open>None\<close> stands for \<open>FileNotFoundError\<close>.\<close>

definition open_leaf :: "secure_root \<Rightarrow> string list \<Rightarrow> root_exn + fs_node option" where
  "open_leaf self path =
     (case sr_nodes self path of
        None \<Rightarrow> Inr None
      | Some (device, node) \<Rightarrow>
          if node = LinkNode \<or> device \<noteq> sr_device self then Inl PathSecurityError else Inr (Some node))"

definition segments_of :: "string \<Rightarrow> string list" where
  "segments_of path = split_on (CHR ''/'') path"

definition assert_regular_file :: "fs_node \<Rightarrow> root_exn + string" where
  "assert_regular_file node = (case node of FileNode s \<Rightarrow> Inr s | _ \<Rightarrow> Inl PathSecurityError)"

section \<open>Operations\<close>

definition root_exists :: "secure_root \<Rightarrow> string \<Rightarrow> root_exn + bool" where
  "root_exists self path =
     bind_res (validate_relative_path path) (\<lambda>p.
     bind_res (fst (open_parent False self [] (butlast (segments_of p)))) (\<lambda>_.
     bind_res (open_leaf self (segments_of p)) (\<lambda>leaf.
       case leaf of None \<Rightarrow> Inr False | Some node \<Rightarrow> map_sum id (\<lambda>_. True) (assert_regular_file node))))"

definition read_bytes :: "secure_root \<Rightarrow> string \<Rightarrow> nat option \<Rightarrow> root_exn + string" where
  "read_bytes self path max_bytes =
     bind_res (validate_relative_path path) (\<lambda>p.
     bind_res (fst (open_parent False self [] (butlast (segments_of p)))) (\<lambda>_.
     bind_res (open_leaf self (segments_of p)) (\<lambda>leaf.
       case leaf of
         None \<Rightarrow> Inl PathNotFound
       | Some node \<Rightarrow> bind_res (assert_regular_file node) (\<lambda>s.
           case max_bytes of Some limit \<Rightarrow> if length s > limit then Inl FileTooLarge else Inr s | None \<Rightarrow> Inr s))))"

text \<open>\<open>write_atomic\<close>: whether the file existed before, and the new tree. Directories made on the way stay when the leaf is refused.\<close>

definition write_atomic :: "secure_root \<Rightarrow> string \<Rightarrow> string \<Rightarrow> (root_exn + bool) \<times> secure_root" where
  "write_atomic self path content =
     (case validate_relative_path path of
        Inl e \<Rightarrow> (Inl e, self)
      | Inr p \<Rightarrow> (case open_parent True self [] (butlast (segments_of p)) of
          (Inl e, self') \<Rightarrow> (Inl e, self')
        | (Inr _, self') \<Rightarrow>
            (case bind_res (open_leaf self' (segments_of p)) (\<lambda>leaf.
                    case leaf of None \<Rightarrow> Inr False | Some node \<Rightarrow> map_sum id (\<lambda>_. True) (assert_regular_file node)) of
               Inl e \<Rightarrow> (Inl e, self')
             | Inr existed \<Rightarrow> (Inr existed,
                 self'\<lparr>sr_nodes := (sr_nodes self')(segments_of p := Some (sr_device self', FileNode content))\<rparr>))))"

section \<open>Walks\<close>

text \<open>All directories on the way to a leaf, on the device of the root.\<close>

definition walkable :: "secure_root \<Rightarrow> string list \<Rightarrow> string list \<Rightarrow> bool" where
  "walkable self walked parts \<longleftrightarrow>
     (\<forall>ps qs. parts = ps @ qs \<and> ps \<noteq> [] \<longrightarrow> sr_nodes self (walked @ ps) = Some (sr_device self, DirNode))"

lemma walkable_Cons:
  "walkable self walked (p # ps) \<longleftrightarrow> sr_nodes self (walked @ [p]) = Some (sr_device self, DirNode) \<and> walkable self (walked @ [p]) ps"
proof -
  have "(\<forall>qs rs. p # ps = qs @ rs \<and> qs \<noteq> [] \<longrightarrow> P qs) \<longleftrightarrow> P [p] \<and> (\<forall>qs rs. ps = qs @ rs \<and> qs \<noteq> [] \<longrightarrow> P (p # qs))" for P :: "string list \<Rightarrow> bool"
    by (auto simp: Cons_eq_append_conv)
  then show ?thesis unfolding walkable_def by simp
qed

lemma open_directory_Inr: "open_directory self walked p = Inr u \<longleftrightarrow> sr_nodes self (walked @ [p]) = Some (sr_device self, DirNode)"
  by (auto simp: open_directory_def split: option.splits fs_node.splits)

lemma open_parent_walk: "walkable self walked parts \<Longrightarrow> open_parent c self walked parts = (Inr (), self)"
proof (induction parts arbitrary: walked)
  case (Cons p ps)
  then have "open_directory self walked p = Inr ()" "walkable self (walked @ [p]) ps"
    by (auto simp: walkable_Cons open_directory_Inr)
  with Cons.IH show ?case by simp
qed simp

lemma open_parent_readonly:
  "open_parent False self walked parts = (r, self') \<Longrightarrow> self' = self \<and> (r = Inr u \<longrightarrow> walkable self walked parts)"
proof (induction parts arbitrary: walked)
  case Nil
  then show ?case by (auto simp: walkable_def)
next
  case (Cons p ps)
  then show ?case
    by (auto simp: walkable_Cons open_directory_Inr split: sum.splits)
qed

text \<open>A walk that makes directories changes the tree at missing nodes on its way and nowhere else.\<close>

definition grown :: "secure_root \<Rightarrow> secure_root \<Rightarrow> (string list \<Rightarrow> bool) \<Rightarrow> bool" where
  "grown self self' way \<longleftrightarrow> sr_device self' = sr_device self \<and> sr_name self' = sr_name self \<and> sr_path self' = sr_path self
     \<and> (\<forall>q. sr_nodes self' q = sr_nodes self q
          \<or> way q \<and> sr_nodes self q = None \<and> sr_nodes self' q = Some (sr_device self, DirNode))"

lemma grown_refl [simp]: "grown self self way"
  by (simp add: grown_def)

lemma grown_trans: "grown a b way \<Longrightarrow> grown b c way \<Longrightarrow> grown a c way"
  unfolding grown_def by (metis option.distinct(1))

lemma grown_mono: "grown a b way \<Longrightarrow> (\<And>q. way q \<Longrightarrow> way' q) \<Longrightarrow> grown a b way'"
  unfolding grown_def by blast

lemma make_directory_grown: "way path \<Longrightarrow> grown self (make_directory self path) way"
  by (auto simp: grown_def make_directory_def split: option.splits)

abbreviation on_way :: "string list \<Rightarrow> string list \<Rightarrow> string list \<Rightarrow> bool" where
  "on_way walked parts q \<equiv> (\<exists>ps. prefix ps parts \<and> ps \<noteq> [] \<and> q = walked @ ps)"

lemma on_way_step: "on_way (walked @ [p]) ps q \<Longrightarrow> on_way walked (p # ps) q"
  by (metis Cons_prefix_Cons append.assoc append_Cons append_Nil list.distinct(1))

lemma open_parent_grown:
  "open_parent c self walked parts = (r, self') \<Longrightarrow> grown self self' (on_way walked parts) \<and> (r = Inr u \<longrightarrow> walkable self' walked parts)"
proof (induction parts arbitrary: self walked)
  case Nil
  then show ?case by (auto simp: walkable_def)
next
  case (Cons p ps)
  have step: "grown a b (on_way (walked @ [p]) ps) \<Longrightarrow> grown a b (on_way walked (p # ps))" for a b
    by (erule grown_mono) (rule on_way_step)
  have kept: "grown a b way \<Longrightarrow> sr_nodes a (walked @ [p]) = Some (sr_device a, DirNode) \<Longrightarrow> sr_nodes b (walked @ [p]) = Some (sr_device b, DirNode)" for a b way
    unfolding grown_def by (metis option.distinct(1))
  have made: "grown self (make_directory self (walked @ [p])) (on_way walked (p # ps))"
    by (rule make_directory_grown) (rule exI [of _ "[p]"], simp)
  show ?case
  proof (cases "open_directory self walked p")
    case (Inr x)
    then have d: "sr_nodes self (walked @ [p]) = Some (sr_device self, DirNode)"
      by (simp add: open_directory_Inr)
    from Cons.prems Inr have "open_parent c self (walked @ [p]) ps = (r, self')" by simp
    from Cons.IH [OF this] d step kept show ?thesis by (auto simp: walkable_Cons)
  next
    case (Inl e)
    show ?thesis
    proof (cases "e = PathNotFound \<and> c")
      case False
      with Inl Cons.prems show ?thesis by (auto split: if_splits)
    next
      case True
      let ?m = "make_directory self (walked @ [p])"
      show ?thesis
      proof (cases "open_directory ?m walked p")
        case (Inr x)
        then have d: "sr_nodes ?m (walked @ [p]) = Some (sr_device ?m, DirNode)"
          by (simp add: open_directory_Inr)
        from Cons.prems Inl True Inr have "open_parent c ?m (walked @ [p]) ps = (r, self')" by simp
        from Cons.IH [OF this] d step kept grown_trans [OF made] show ?thesis by (auto simp: walkable_Cons)
      next
        case (Inl e')
        with Cons.prems \<open>open_directory self walked p = Inl e\<close> True made show ?thesis by auto
      qed
    qed
  qed
qed

section \<open>Reading and writing\<close>

lemma segments_not_Nil [simp]: "segments_of path \<noteq> []"
  by (simp add: segments_of_def)

lemma strict_prefix_butlast: "xs \<noteq> [] \<Longrightarrow> strict_prefix q xs \<longleftrightarrow> prefix q (butlast xs)"
  by (cases xs rule: rev_cases) (auto simp: strict_prefix_def prefix_snoc dest: prefix_length_le)

lemma validate_Inr: "validate_relative_path path = Inr p \<Longrightarrow> p = path"
  by (simp add: validate_relative_path_def split: if_splits)

lemma segments_inj: "segments_of p = segments_of q \<Longrightarrow> p = q"
  unfolding segments_of_def by (metis split_on_join)

lemma read_bytes_Inr:
  assumes "read_bytes self path limit = Inr s"
  shows "validate_relative_path path = Inr path" "walkable self [] (butlast (segments_of path))"
    "sr_nodes self (segments_of path) = Some (sr_device self, FileNode s)"
proof -
  obtain p where p: "validate_relative_path path = Inr p"
    using assms by (auto simp: read_bytes_def bind_Inr)
  with validate_Inr [OF p] show v: "validate_relative_path path = Inr path" by simp
  with assms obtain u where u: "fst (open_parent False self [] (butlast (segments_of path))) = Inr u"
    by (auto simp: read_bytes_def bind_Inr)
  then show "walkable self [] (butlast (segments_of path))"
    using open_parent_readonly [of self "[]" "butlast (segments_of path)" "Inr u" _ u]
    by (cases "open_parent False self [] (butlast (segments_of path))") auto
  from assms v show "sr_nodes self (segments_of path) = Some (sr_device self, FileNode s)"
    by (auto simp: read_bytes_def bind_Inr open_leaf_def assert_regular_file_def split: option.splits if_splits fs_node.splits)
qed

lemma read_bytes_file:
  assumes "validate_relative_path path = Inr path" "walkable self [] (butlast (segments_of path))"
    "sr_nodes self (segments_of path) = Some (sr_device self, FileNode s)" "case limit of None \<Rightarrow> True | Some n \<Rightarrow> length s \<le> n"
  shows "read_bytes self path limit = Inr s"
  using assms open_parent_walk [OF assms(2), of False]
  by (auto simp: read_bytes_def open_leaf_def assert_regular_file_def split: option.splits)

lemma write_atomic_tree:
  assumes "write_atomic self path content = (r, self')"
  shows "\<exists>m. grown self m (on_way [] (butlast (segments_of path)))
    \<and> (case r of
         Inl _ \<Rightarrow> self' = m
       | Inr existed \<Rightarrow> validate_relative_path path = Inr path \<and> walkable m [] (butlast (segments_of path))
           \<and> self' = m\<lparr>sr_nodes := (sr_nodes m)(segments_of path := Some (sr_device m, FileNode content))\<rparr>
           \<and> (if existed then \<exists>s. sr_nodes m (segments_of path) = Some (sr_device m, FileNode s) else sr_nodes m (segments_of path) = None))"
proof (cases "validate_relative_path path")
  case (Inl e)
  with assms show ?thesis by (auto simp: write_atomic_def intro: exI [of _ self])
next
  case (Inr p)
  then have v: "validate_relative_path path = Inr path" using validate_Inr by blast
  obtain r' m where m: "open_parent True self [] (butlast (segments_of path)) = (r', m)"
    by fastforce
  note g = open_parent_grown [OF m]
  show ?thesis
  proof (cases r')
    case (Inl e)
    with assms v m g show ?thesis by (auto simp: write_atomic_def)
  next
    case (Inr u)
    with g have w: "walkable m [] (butlast (segments_of path))" by blast
    have "case r of Inl _ \<Rightarrow> self' = m | Inr existed \<Rightarrow>
        self' = m\<lparr>sr_nodes := (sr_nodes m)(segments_of path := Some (sr_device m, FileNode content))\<rparr>
        \<and> (if existed then \<exists>s. sr_nodes m (segments_of path) = Some (sr_device m, FileNode s) else sr_nodes m (segments_of path) = None)"
      using assms v m Inr
      by (auto simp: write_atomic_def open_leaf_def assert_regular_file_def bind_res_def
          split: option.splits if_splits fs_node.splits sum.splits)
    with g v w show ?thesis by (auto split: sum.splits)
  qed
qed

text \<open>C25: a written file reads back, and nothing else changes. After an atomic write the path holds the content, whether it
  existed is reported truthfully, and every other node is as before, except for missing directories on the way to
  the file, which now exist on the device of the root. No link was followed to get there.\<close>

theorem write_atomic_exact:
  assumes "write_atomic self path content = (Inr existed, self')"
  shows "read_bytes self' path None = Inr content
    \<and> (existed \<longleftrightarrow> sr_nodes self (segments_of path) \<noteq> None)
    \<and> (\<forall>q. q \<noteq> segments_of path \<longrightarrow> sr_nodes self' q = sr_nodes self q
         \<or> strict_prefix q (segments_of path) \<and> sr_nodes self q = None \<and> sr_nodes self' q = Some (sr_device self, DirNode))
    \<and> (\<forall>q. q \<noteq> [] \<and> strict_prefix q (segments_of path) \<longrightarrow> sr_nodes self' q = Some (sr_device self, DirNode))"
proof -
  let ?p = "segments_of path"
  obtain m where g: "grown self m (on_way [] (butlast ?p))" and v: "validate_relative_path path = Inr path"
    and w: "walkable m [] (butlast ?p)" and s: "self' = m\<lparr>sr_nodes := (sr_nodes m)(?p := Some (sr_device m, FileNode content))\<rparr>"
    and e: "if existed then \<exists>s. sr_nodes m ?p = Some (sr_device m, FileNode s) else sr_nodes m ?p = None"
    using write_atomic_tree [OF assms] by auto
  have way: "prefix q (butlast ?p) \<longleftrightarrow> strict_prefix q ?p" for q
    by (simp add: strict_prefix_butlast)
  have leaf: "sr_nodes m ?p = sr_nodes self ?p"
    using g unfolding grown_def by (auto simp: way)
  have "walkable self' [] (butlast ?p)"
    using w way [of ?p] unfolding walkable_def s by (auto simp: prefix_def)
  moreover have "sr_nodes self' ?p = Some (sr_device self', FileNode content)"
    by (simp add: s)
  ultimately have 1: "read_bytes self' path None = Inr content"
    using v by (intro read_bytes_file) auto
  have 2: "existed \<longleftrightarrow> sr_nodes self ?p \<noteq> None"
    using e leaf by (auto split: if_splits)
  have 3: "sr_nodes self' q = sr_nodes self q \<or> strict_prefix q ?p \<and> sr_nodes self q = None \<and> sr_nodes self' q = Some (sr_device self, DirNode)"
    if "q \<noteq> ?p" for q
    using g way that unfolding grown_def s by auto
  have "sr_nodes m q = Some (sr_device self, DirNode)" if "q \<noteq> []" "strict_prefix q ?p" for q
    using w that g unfolding way [symmetric] walkable_def grown_def prefix_def by auto
  with 1 2 3 show ?thesis
    unfolding s by (auto simp: prefix_order.less_le)
qed

section \<open>Well-formed trees\<close>

text \<open>Every node stands in a directory.\<close>

definition tree_ok :: "secure_root \<Rightarrow> bool" where
  "tree_ok self \<longleftrightarrow> (\<forall>q x. sr_nodes self (q @ [x]) \<noteq> None \<longrightarrow> q = [] \<or> (\<exists>d. sr_nodes self q = Some (d, DirNode)))"

lemma tree_ok_prefix:
  assumes "tree_ok self" "sr_nodes self (q @ r) \<noteq> None" "q \<noteq> []" "r \<noteq> []"
  shows "\<exists>d. sr_nodes self q = Some (d, DirNode)"
  using assms(2,4)
proof (induction r rule: rev_induct)
  case (snoc x r)
  then have "q @ r = [] \<or> (\<exists>d. sr_nodes self (q @ r) = Some (d, DirNode))"
    using assms(1) unfolding tree_ok_def by (metis append.assoc)
  with snoc.IH assms(3) show ?case by (cases "r = []") auto
qed simp

lemma make_directory_ok:
  assumes "tree_ok self" "walked = [] \<or> (\<exists>d. sr_nodes self walked = Some (d, DirNode))"
  shows "tree_ok (make_directory self (walked @ [p]))"
proof (cases "sr_nodes self (walked @ [p])")
  case None
  show ?thesis
    unfolding tree_ok_def
  proof (intro allI impI)
    fix q x
    assume "sr_nodes (make_directory self (walked @ [p])) (q @ [x]) \<noteq> None"
    then consider "q = walked" | "sr_nodes self (q @ [x]) \<noteq> None"
      using None by (auto simp: make_directory_def split: if_splits)
    then have "q = [] \<or> (\<exists>d. sr_nodes self q = Some (d, DirNode))"
      using assms unfolding tree_ok_def by cases blast+
    then show "q = [] \<or> (\<exists>d. sr_nodes (make_directory self (walked @ [p])) q = Some (d, DirNode))"
      using None by (auto simp: make_directory_def)
  qed
qed (use assms in \<open>simp add: make_directory_def\<close>)

lemma open_parent_ok:
  "tree_ok self \<Longrightarrow> walked = [] \<or> (\<exists>d. sr_nodes self walked = Some (d, DirNode)) \<Longrightarrow> tree_ok (snd (open_parent c self walked parts))"
proof (induction parts arbitrary: self walked)
  case (Cons p ps)
  let ?m = "make_directory self (walked @ [p])"
  have m: "tree_ok ?m" by (rule make_directory_ok [OF Cons.prems])
  have "open_directory self walked p = Inr u \<Longrightarrow> tree_ok (snd (open_parent c self (walked @ [p]) ps))" for u
    using Cons.prems by (intro Cons.IH) (auto simp: open_directory_Inr)
  moreover have "open_directory ?m walked p = Inr u \<Longrightarrow> tree_ok (snd (open_parent c ?m (walked @ [p]) ps))" for u
    using m by (intro Cons.IH) (auto simp: open_directory_Inr)
  ultimately show ?case
    using m Cons.prems by (auto simp: Let_def split: sum.splits)
qed simp

lemma write_atomic_ok:
  assumes "tree_ok self"
  shows "tree_ok (snd (write_atomic self path content))"
proof (cases "validate_relative_path path")
  case (Inr p)
  obtain r m where m: "open_parent True self [] (butlast (segments_of p)) = (r, m)" by fastforce
  have ok: "tree_ok m" using open_parent_ok [OF assms, of "[]" True "butlast (segments_of p)"] m by simp
  have "tree_ok (m\<lparr>sr_nodes := (sr_nodes m)(segments_of p := Some (sr_device m, FileNode content))\<rparr>)"
    if "r = Inr ()" "\<forall>d. sr_nodes m (segments_of p) \<noteq> Some (d, DirNode)"
    unfolding tree_ok_def
  proof (intro allI impI)
    fix q x
    let ?m = "m\<lparr>sr_nodes := (sr_nodes m)(segments_of p := Some (sr_device m, FileNode content))\<rparr>"
    assume n: "sr_nodes ?m (q @ [x]) \<noteq> None"
    have "q = [] \<or> (\<exists>d. sr_nodes m q = Some (d, DirNode))"
    proof (cases "q @ [x] = segments_of p")
      case True
      then have "butlast (segments_of p) = q" by (metis butlast_snoc)
      with open_parent_grown [OF m, of "()"] that(1) show ?thesis
        unfolding walkable_def by (metis append_Nil append_Nil2)
    qed (use n ok in \<open>auto simp: tree_ok_def\<close>)
    with that(2) show "q = [] \<or> (\<exists>d. sr_nodes ?m q = Some (d, DirNode))" by auto
  qed
  with ok Inr m show ?thesis
    by (auto simp: write_atomic_def open_leaf_def assert_regular_file_def bind_res_def
        split: option.splits if_splits fs_node.splits sum.splits)
qed (use assms in \<open>simp add: write_atomic_def\<close>)

lemma parent_missing:
  assumes "tree_ok self" "fst (open_parent False self walked parts) = Inl PathNotFound"
  shows "sr_nodes self (walked @ parts @ [leaf]) = None"
proof (rule ccontr)
  assume "sr_nodes self (walked @ parts @ [leaf]) \<noteq> None"
  with assms(2) show False
  proof (induction parts arbitrary: walked)
    case (Cons p ps)
    have "\<exists>d. sr_nodes self (walked @ [p]) = Some (d, DirNode)"
      using tree_ok_prefix [OF assms(1), of "walked @ [p]" "ps @ [leaf]"] Cons.prems(2) by simp
    then have d: "open_directory self walked p = Inr () \<or> open_directory self walked p = Inl PathSecurityError"
      by (auto simp: open_directory_def split: if_splits)
    then show ?case
      using Cons.prems Cons.IH [of "walked @ [p]"] by auto
  qed simp
qed

lemma leaf_check:
  "bind_res (open_leaf self path) (\<lambda>leaf. case leaf of None \<Rightarrow> Inr False | Some node \<Rightarrow> map_sum id (\<lambda>_. True) (assert_regular_file node)) = Inr b
     \<longleftrightarrow> (if b then \<exists>s. sr_nodes self path = Some (sr_device self, FileNode s) else sr_nodes self path = None)"
proof (cases "sr_nodes self path")
  case (Some dn)
  obtain d n where "dn = (d, n)" by force
  with Some show ?thesis
    by (cases n) (auto simp: open_leaf_def assert_regular_file_def)
qed (auto simp: open_leaf_def)

lemma leaf_not_missing:
  "bind_res (open_leaf self path) (\<lambda>leaf. case leaf of None \<Rightarrow> Inr False | Some node \<Rightarrow> map_sum id (\<lambda>_. True) (assert_regular_file node)) \<noteq> Inl PathNotFound"
  by (auto simp: open_leaf_def assert_regular_file_def bind_res_def split: option.splits sum.splits if_splits fs_node.splits)

lemma root_exists_missing:
  assumes "tree_ok self" "root_exists self path = Inr False \<or> root_exists self path = Inl PathNotFound"
  shows "sr_nodes self (segments_of path) = None"
proof -
  obtain p where "validate_relative_path path = Inr p"
    using assms(2) by (auto simp: root_exists_def bind_res_def validate_relative_path_def split: sum.splits if_splits)
  then have v: "validate_relative_path path = Inr path" using validate_Inr by blast
  show ?thesis
  proof (cases "fst (open_parent False self [] (butlast (segments_of path)))")
    case (Inl e)
    with assms(2) v have "e = PathNotFound" by (auto simp: root_exists_def)
    with parent_missing [OF assms(1), of "[]" "butlast (segments_of path)" "last (segments_of path)"] Inl show ?thesis
      by (simp add: append_butlast_last_id)
  next
    case (Inr u)
    with assms(2) v leaf_check [of self "segments_of path" False] leaf_not_missing [of self "segments_of path"] show ?thesis
      by (simp add: root_exists_def)
  qed
qed

lemma root_exists_file:
  assumes "root_exists self path = Inr True"
  shows "\<exists>s. sr_nodes self (segments_of path) = Some (sr_device self, FileNode s)"
proof -
  obtain p where "validate_relative_path path = Inr p"
    using assms by (auto simp: root_exists_def bind_Inr)
  then have "validate_relative_path path = Inr path" using validate_Inr by blast
  with assms leaf_check [of self "segments_of path" True] show ?thesis
    by (auto simp: root_exists_def bind_res_def split: sum.splits)
qed

definition ex_root :: secure_root where
  "ex_root = \<lparr>sr_name = ''workspace'', sr_path = ''/w'', sr_device = 1, sr_nodes = \<lambda>_. None\<rparr>"

theorem write_atomic_exact_witness:
  "\<exists>root'. write_atomic ex_root ''a/b'' ''x'' = (Inr False, root') \<and> read_bytes root' ''a/b'' None = Inr ''x''
     \<and> sr_nodes root' [''a''] = Some (1, DirNode) \<and> sr_nodes root' [''c''] = None"
proof -
  obtain root' where w: "write_atomic ex_root ''a/b'' ''x'' = (Inr False, root')"
    by (simp add: write_atomic_def validate_relative_path_def segments_of_def open_directory_def make_directory_def open_leaf_def
        unsafe_parts_def ex_root_def)
  have p: "segments_of ''a/b'' = [''a'', ''b'']"
    by (simp add: segments_of_def)
  from write_atomic_exact [OF w] w p show ?thesis
    by (auto simp: ex_root_def strict_prefix_def prefix_Cons)
qed

end
