(* ===== verification/Workspace_Gateway.thy ===== *)
theory Workspace_Gateway
  imports Workspace_Paths Action_Protocol Context_Blocks Repair
begin

text \<open>
  \<open>workspace/models.py\<close> and \<open>ToolGateway\<close> of \<open>workspace/gateway.py\<close>: the one boundary through which a model reads and writes. A call arrives
  as a JSON value, is checked against the closed schema of six tools, against the policy of the phase and the kind of
  the session, and runs on the roots of the gateway. Ports are the source query service, the sandboxed shell, which
  may change the workspace as it likes, the script engine and SHA-256. A script is a tree of the calls it makes
  through the bridge, which re-enters the gateway; the nesting of scripts is bounded by the recursion limit of
  the interpreter (the argument \<open>depth\<close>). Validation of a source query is the parameter \<open>gp_parse_query\<close>, and time does not appear:
  the audit events here have no duration. The audit sink and the operation sink do not raise.
\<close>

section \<open>Tool calls\<close>

record gateway_context =
  gc_run_id :: "uuid option"
  gc_draft_id :: "uuid option"
  gc_agent_run_id :: "uuid option"
  gc_phase_policy_sha256 :: string
  gc_phase :: phase
  gc_session_kind :: session_kind
  gc_slice_id :: "uuid option"
  gc_generation :: "int option"

definition gateway_context_init :: "gateway_context \<Rightarrow> gateway_context res" where
  "gateway_context_init c =
     (if \<not> is_sha256 (gc_phase_policy_sha256 c) \<or> \<not> (case gc_generation c of None \<Rightarrow> True | Some n \<Rightarrow> 0 \<le> n \<and> n \<le> 2)
      then Inl (ValueError ''validation error for GatewayContext'')
      else if (gc_run_id c = None) = (gc_draft_id c = None)
      then Inl (ValueError ''gateway context must identify exactly one Run or Draft owner'')
      else if gc_agent_run_id c = None then Inl (ValueError ''gateway context requires its AgentRun identity'')
      else if gc_draft_id c \<noteq> None \<and> (gc_slice_id c \<noteq> None \<or> gc_generation c \<noteq> None)
      then Inl (ValueError ''Draft gateway context forbids Slice identity'')
      else Inr c)"

datatype 'q tool_call =
    ReadFileCall "string option" "string option" "(int \<times> int) option"
  | WriteFileCall string string
  | EditFileCall string string string "int option"
  | QuerySourceAstCall 'q
  | ShellCall string "string option" "int option"
  | ExecCall string "int option"

definition mib :: nat where
  "mib = 1024 * 1024"

text \<open>Fields as the closed models accept them; \<open>None\<close> is a validation error.\<close>

definition text_field :: "payload \<Rightarrow> string \<Rightarrow> string option" where
  "text_field p k = (case map_of p k of Some (PStr s) \<Rightarrow> Some s | _ \<Rightarrow> None)"

definition opt_str_field :: "payload \<Rightarrow> string \<Rightarrow> string option option" where
  "opt_str_field p k = (case map_of p k of None \<Rightarrow> Some None | Some PNone \<Rightarrow> Some None | Some (PStr s) \<Rightarrow> Some (Some s) | _ \<Rightarrow> None)"

definition opt_int_field :: "payload \<Rightarrow> string \<Rightarrow> (int \<Rightarrow> bool) \<Rightarrow> int option option" where
  "opt_int_field p k valid =
     (case map_of p k of
        None \<Rightarrow> Some None
      | Some PNone \<Rightarrow> Some None
      | Some (PInt i) \<Rightarrow> if valid i then Some (Some i) else None
      | _ \<Rightarrow> None)"

definition only_fields :: "string list \<Rightarrow> payload \<Rightarrow> bool" where
  "only_fields ks p \<longleftrightarrow> list_all (\<lambda>(k, _). k \<in> set ks) p"

definition bounded_text :: "nat \<Rightarrow> nat \<Rightarrow> string \<Rightarrow> string option" where
  "bounded_text least limit s = (if least \<le> length s \<and> length s \<le> limit then Some s else None)"

definition line_range_field :: "payload \<Rightarrow> (int \<times> int) option option" where
  "line_range_field p =
     (case map_of p ''range'' of
        None \<Rightarrow> Some None
      | Some PNone \<Rightarrow> Some None
      | Some v \<Rightarrow> (case as_object v of
          None \<Rightarrow> None
        | Some r \<Rightarrow> (case (map_of r ''start_line'', map_of r ''end_line'') of
            (Some (PInt start), Some (PInt end_line)) \<Rightarrow>
              if only_fields [''start_line'', ''end_line''] r \<and> 1 \<le> start \<and> start \<le> end_line then Some (Some (start, end_line)) else None
          | _ \<Rightarrow> None)))"

definition cas_field :: "payload \<Rightarrow> string option option" where
  "cas_field p =
     Option.bind (opt_str_field p ''cas'') (\<lambda>v. case v of
       None \<Rightarrow> Some None | Some s \<Rightarrow> if cas_uri s then Some (Some (map ascii_lower s)) else None)"

definition parse_read :: "payload \<Rightarrow> 'q tool_call option" where
  "parse_read p =
     Option.bind (opt_str_field p ''path'') (\<lambda>path. Option.bind (cas_field p) (\<lambda>cas. Option.bind (line_range_field p) (\<lambda>rows.
       if only_fields [''tool'', ''path'', ''cas'', ''range''] p \<and> (path = None) \<noteq> (cas = None)
       then Some (ReadFileCall path cas rows) else None)))"

definition parse_write :: "payload \<Rightarrow> 'q tool_call option" where
  "parse_write p =
     Option.bind (text_field p ''path'') (\<lambda>path. Option.bind (text_field p ''content'') (\<lambda>content.
       if only_fields [''tool'', ''path'', ''content''] p
       then map_option (WriteFileCall path) (bounded_text 0 (64 * mib) content) else None))"

definition parse_edit :: "payload \<Rightarrow> 'q tool_call option" where
  "parse_edit p =
     Option.bind (text_field p ''path'') (\<lambda>path.
     Option.bind (Option.bind (text_field p ''old_text'') (bounded_text 1 mib)) (\<lambda>old.
     Option.bind (Option.bind (text_field p ''new_text'') (bounded_text 0 mib)) (\<lambda>new.
     Option.bind (opt_int_field p ''occur'' (\<lambda>n. 1 \<le> n)) (\<lambda>occur.
       if only_fields [''tool'', ''path'', ''old_text'', ''new_text'', ''occur''] p
       then Some (EditFileCall path old new occur) else None))))"

definition parse_query :: "(pyval \<Rightarrow> 'q option) \<Rightarrow> payload \<Rightarrow> 'q tool_call option" where
  "parse_query check p =
     Option.bind (map_of p ''request'') (\<lambda>v.
       if only_fields [''tool'', ''request''] p then map_option QuerySourceAstCall (check v) else None)"

definition parse_shell :: "payload \<Rightarrow> 'q tool_call option" where
  "parse_shell p =
     Option.bind (Option.bind (text_field p ''command'') (bounded_text 1 mib)) (\<lambda>command.
     Option.bind (opt_str_field p ''workdir'') (\<lambda>workdir.
     Option.bind (opt_int_field p ''timeout_secs'' (\<lambda>n. 0 < n \<and> n \<le> 600)) (\<lambda>timeout.
       if only_fields [''tool'', ''command'', ''workdir'', ''timeout_secs''] p
       then Some (ShellCall command workdir timeout) else None)))"

definition parse_exec :: "payload \<Rightarrow> 'q tool_call option" where
  "parse_exec p =
     Option.bind (Option.bind (text_field p ''script'') (bounded_text 1 mib)) (\<lambda>script.
     Option.bind (opt_int_field p ''timeout_secs'' (\<lambda>n. 0 < n \<and> n \<le> 60)) (\<lambda>timeout.
       if only_fields [''tool'', ''script'', ''timeout_secs''] p then Some (ExecCall script timeout) else None))"

definition parse_call :: "(pyval \<Rightarrow> 'q option) \<Rightarrow> string \<Rightarrow> payload \<Rightarrow> 'q tool_call option" where
  "parse_call check tool p =
     (if tool = ''ReadFile'' then parse_read p
      else if tool = ''WriteFile'' then parse_write p
      else if tool = ''EditFile'' then parse_edit p
      else if tool = ''QuerySourceAst'' then parse_query check p
      else if tool = ''Shell'' then parse_shell p
      else if tool = ''Exec'' then parse_exec p
      else None)"

section \<open>Results\<close>

datatype tool_output =
    ReadFileOutput (ro_path: string) (ro_body: string) (ro_total_lines: nat) (ro_truncated: bool)
  | WriteFileOutput string (wo_bytes_written: nat) (wo_existed: bool)
  | EditFileOutput string nat nat (eo_bytes_after: nat)
  | QuerySourceAstOutput pyval
  | ShellOutput int string string bool
  | ExecOutput string nat

record tool_error =
  te_code :: stable_error_code
  te_message :: string
  te_retryable_in_phase :: bool
  te_facts :: "payload list"

type_synonym tool_result = "tool_error + tool_output"

definition denied :: "stable_error_code \<Rightarrow> string \<Rightarrow> payload list \<Rightarrow> tool_error" where
  "denied code message facts = \<lparr>te_code = code, te_message = message, te_retryable_in_phase = True, te_facts = facts\<rparr>"

definition denied_for_good :: "stable_error_code \<Rightarrow> string \<Rightarrow> tool_error" where
  "denied_for_good code message = \<lparr>te_code = code, te_message = message, te_retryable_in_phase = False, te_facts = []\<rparr>"

record audit_event =
  au_pre :: bool
  au_context :: gateway_context
  au_tool :: "string option"
  au_parameter_sha256 :: string
  au_error_code :: "stable_error_code option"
  au_repo_path :: bool
  au_path_sha256 :: "string option"
  au_command_sha256 :: "string option"
  au_script :: "string option"
  au_script_sha256 :: "string option"
  au_step_count :: "nat option"
  au_exit_code :: "int option"
  au_bytes_written :: "nat option"
  au_output :: "(string \<times> string \<times> nat \<times> nat \<times> bool) option"

record file_operation =
  fo_run_id :: uuid
  fo_slice_id :: uuid
  fo_generation :: int
  fo_edit :: bool
  fo_path :: string
  fo_bytes_written :: nat
  fo_overwritten :: bool

section \<open>The gateway\<close>

text \<open>
  The state of a \<open>ToolGateway\<close>. The last field is a history variable that the code does not have: what the gateway has
  really done, in order. An entry is added where a read is carried out, where the shell runner is called and where
  bytes have been written, and nothing reads it; the properties compare it with the counters.
\<close>

datatype gateway_call = ReadRun "string option" "string option" | CommandRun string | BytesWritten string nat

record gateway =
  gw_context :: gateway_context
  gw_snapshot :: secure_root
  gw_workspace :: "secure_root option"
  gw_contract_roots :: "secure_root list"
  gw_verified :: "secure_root option"
  gw_cas :: "(string \<Rightarrow> string option) option"
  gw_write_scope :: "write_scope option"
  gw_other_write_scopes :: "write_scope list"
  gw_policy :: "(string \<times> string list) list"
  gw_read_calls :: nat
  gw_shell_calls :: nat
  gw_write_bytes :: nat
  gw_operations :: "file_operation list"
  gw_audit :: "audit_event list"
  gw_calls :: "gateway_call list"

text \<open>The constructor, with the policy document as its digest and its payload.\<close>

definition tool_gateway_init :: "string \<Rightarrow> gateway \<Rightarrow> gateway res" where
  "tool_gateway_init policy_sha256 g =
     (if gc_run_id (gw_context g) \<noteq> None \<and> gw_workspace g = None then Inl (ValueError ''Run gateway requires a candidate workspace root'')
      else if gc_draft_id (gw_context g) \<noteq> None \<and> gw_workspace g \<noteq> None
      then Inl (ValueError ''Draft gateway cannot bind a writable workspace root'')
      else if gc_phase_policy_sha256 (gw_context g) \<noteq> policy_sha256
      then Inl (ValueError ''phase policy digest does not match the frozen run context'')
      else Inr (g\<lparr>gw_read_calls := 0, gw_shell_calls := 0, gw_write_bytes := 0, gw_operations := [], gw_calls := []\<rparr>))"

text \<open>A gateway for the same session with the scopes of the others, given by their paths and roots. The policy document is the one whose
  digest the context carries; the counters start again.\<close>

definition with_other_write_scopes :: "(string list \<times> string list) list \<Rightarrow> gateway \<Rightarrow> gateway res" where
  "with_other_write_scopes scopes g =
     bind_res (traverse (\<lambda>(paths, roots). write_scope_init paths roots) scopes) (\<lambda>parsed.
       tool_gateway_init (gc_phase_policy_sha256 (gw_context g)) (g\<lparr>gw_other_write_scopes := parsed\<rparr>))"

text \<open>Exceptions that leave \<open>dispatch\<close>; exceptions of a port, of the classes that \<open>dispatch\<close> catches or of others; and what stops
  \<open>_execute\<close>: a \<open>GatewayError\<close>, an exception that \<open>dispatch\<close> catches, by its class, or one that it does not.\<close>

datatype escape = ValidationEscape | TypeEscape | AssertionEscape | RecursionEscape | PortEscape string

datatype port_exn = PortHandled string | PortUnhandled string

datatype gateway_stop = GatewayError tool_error | CaughtExn string | EscapedExn escape

definition port_stop :: "port_exn \<Rightarrow> gateway_stop" where
  "port_stop e = (case e of PortHandled name \<Rightarrow> CaughtExn name | PortUnhandled name \<Rightarrow> EscapedExn (PortEscape name))"

datatype query_outcome = QueryFound pyval | QueryValueError string | QueryFailed string

record shell_execution =
  se_exit_code :: int
  se_stdout :: string
  se_stderr :: string
  se_truncated :: bool
  se_timed_out :: bool

record exec_execution =
  ee_result :: string
  ee_step_count :: nat
  ee_error_line :: "int option"
  ee_error_message :: "string option"
  ee_timed_out :: bool

text \<open>What a script does: it ends, raises, or calls a tool through the bridge and goes on with the outcome.\<close>

datatype script_run =
    ScriptDone exec_execution
  | ScriptRaises port_exn
  | ScriptCalls pyval "escape + tool_result \<Rightarrow> script_run"

record 'q gateway_ports =
  gp_parse_query :: "pyval \<Rightarrow> 'q option"
  gp_query :: "('q \<Rightarrow> query_outcome) option"
  gp_shell :: "(string \<Rightarrow> string option \<Rightarrow> int \<Rightarrow> string \<Rightarrow> secure_root \<Rightarrow> (port_exn + shell_execution) \<times> secure_root) option"
  gp_exec :: "(string \<Rightarrow> int \<Rightarrow> script_run) option"
  gp_sha256 :: "string \<Rightarrow> string"
  gp_canonical_sha256 :: "pyval \<Rightarrow> string option"
  gp_repr_sha256 :: "pyval \<Rightarrow> string"

definition max_read_bytes :: nat where "max_read_bytes = 64 * mib"
definition max_result_bytes :: nat where "max_result_bytes = 256 * 1024"
definition max_read_calls :: nat where "max_read_calls = 2000"
definition max_shell_timeout :: int where "max_shell_timeout = 600"
definition max_exec_timeout :: int where "max_exec_timeout = 60"

definition is_allowed :: "gateway \<Rightarrow> string \<Rightarrow> bool" where
  "is_allowed g tool \<longleftrightarrow>
     (let c = gw_context g; allowed = (case map_of (gw_policy g) (phase_value (gc_phase c)) of None \<Rightarrow> [] | Some ts \<Rightarrow> ts) in
      tool \<in> set allowed
      \<and> (if gc_draft_id c \<noteq> None then tool \<in> {''ReadFile'', ''QuerySourceAst'', ''Exec''}
         else if gc_session_kind c = ExploreCoordinator then tool \<in> {''ReadFile'', ''QuerySourceAst'', ''Exec''}
         else if gc_session_kind c = ExecuteSupervisor then tool \<in> {''ReadFile'', ''QuerySourceAst''}
         else True))"

section \<open>Reading\<close>

text \<open>\<open>bytes.decode("utf-8")\<close>: well-formed sequences without overlong forms and surrogates.\<close>

definition cont_byte :: "nat \<Rightarrow> nat \<Rightarrow> char \<Rightarrow> bool" where
  "cont_byte least most c \<longleftrightarrow> least \<le> (of_char c :: nat) \<and> (of_char c :: nat) \<le> most"

fun utf8_valid :: "string \<Rightarrow> bool" where
  "utf8_valid [] = True"
| "utf8_valid (c # cs) =
     (let n = of_char c :: nat in
      if n < 0x80 then utf8_valid cs
      else if 0xC2 \<le> n \<and> n \<le> 0xDF then (case cs of a # r \<Rightarrow> cont_byte 0x80 0xBF a \<and> utf8_valid r | _ \<Rightarrow> False)
      else if 0xE0 \<le> n \<and> n \<le> 0xEF
      then (case cs of a # b # r \<Rightarrow>
              cont_byte (if n = 0xE0 then 0xA0 else 0x80) (if n = 0xED then 0x9F else 0xBF) a \<and> cont_byte 0x80 0xBF b \<and> utf8_valid r
            | _ \<Rightarrow> False)
      else if 0xF0 \<le> n \<and> n \<le> 0xF4
      then (case cs of a # b # d # r \<Rightarrow>
              cont_byte (if n = 0xF0 then 0x90 else 0x80) (if n = 0xF4 then 0x8F else 0xBF) a
              \<and> cont_byte 0x80 0xBF b \<and> cont_byte 0x80 0xBF d \<and> utf8_valid r
            | _ \<Rightarrow> False)
      else False)"

definition read_roots :: "gateway \<Rightarrow> gateway_stop + secure_root list" where
  "read_roots g =
     (if gc_draft_id (gw_context g) \<noteq> None then Inr (gw_contract_roots g @ [gw_snapshot g])
      else if gc_phase (gw_context g) = PhPlan then Inr [gw_snapshot g]
      else case gw_workspace g of
        None \<Rightarrow> Inl (EscapedExn AssertionEscape)
      | Some workspace \<Rightarrow> Inr (workspace # gw_contract_roots g @ [gw_snapshot g]
          @ (if gc_session_kind (gw_context g) = RepairSession then (case gw_verified g of None \<Rightarrow> [] | Some v \<Rightarrow> [v]) else [])))"

fun read_from_roots :: "secure_root list \<Rightarrow> string \<Rightarrow> gateway_stop + string option" where
  "read_from_roots [] path = Inr None"
| "read_from_roots (r # rs) path =
     (case read_bytes r path (Some max_read_bytes) of
        Inr s \<Rightarrow> Inr (Some s)
      | Inl PathSecurityError \<Rightarrow> Inl (GatewayError (denied PATH_DENIED ''path failed the no-follow root safety gate'' [[(''root'', PStr (sr_name r))]]))
      | Inl PathNotFound \<Rightarrow> read_from_roots rs path
      | Inl FileTooLarge \<Rightarrow> Inl (GatewayError (denied READ_LIMIT_EXCEEDED ''file exceeds the 64 MiB read limit'' [])))"

definition pad_left :: "nat \<Rightarrow> string \<Rightarrow> string" where
  "pad_left width s = replicate (width - length s) (CHR '' '') @ s"

definition tab :: string where
  "tab = [CHR 0x09]"

fun read_lines :: "nat \<Rightarrow> nat \<Rightarrow> nat \<Rightarrow> string list \<Rightarrow> string list \<Rightarrow> string list \<times> bool" where
  "read_lines width offset used out [] = (out, False)"
| "read_lines width offset used out (l # ls) =
     (let rendered = pad_left width (str_nat offset) @ tab @ l;
          encoded = length rendered + (if out = [] then 0 else 1)
      in if used + encoded > max_result_bytes then (out, True)
         else read_lines width (Suc offset) (used + encoded) (out @ [rendered]) ls)"

definition format_read :: "string \<Rightarrow> string \<Rightarrow> (int \<times> int) option \<Rightarrow> tool_output" where
  "format_read path content rows =
     (let lines = splitlines content;
          start = (case rows of None \<Rightarrow> 1 | Some (a, _) \<Rightarrow> a);
          end_line = (case rows of None \<Rightarrow> int (length lines) | Some (_, b) \<Rightarrow> b);
          selected = drop (nat (start - 1)) (take (nat end_line) lines);
          width = length (str_nat (nat (max end_line (max (int (length lines)) 1))));
          (out, truncated) = read_lines width (nat (max 1 start)) 0 [] selected
      in ReadFileOutput path (join_with newline out) (length lines) truncated)"

definition read_text :: "string \<Rightarrow> string \<Rightarrow> (int \<times> int) option \<Rightarrow> tool_result" where
  "read_text path data rows =
     (if length data > max_read_bytes
      then Inl (denied READ_LIMIT_EXCEEDED ''file exceeds the 64 MiB read limit''
             [[(''bytes'', PInt (int (length data))), (''limit'', PInt (int max_read_bytes))]])
      else if \<not> utf8_valid data then Inl (denied READ_OUT_OF_SCOPE ''file is not UTF-8 text'' [])
      else Inr (format_read path data rows))"

definition read_cas :: "gateway \<Rightarrow> string \<Rightarrow> (int \<times> int) option \<Rightarrow> tool_result" where
  "read_cas g cas rows =
     (case gw_cas g of
        None \<Rightarrow> Inl (denied READ_OUT_OF_SCOPE ''CAS is not bound to this run'' [])
      | Some store \<Rightarrow> (case store cas of
          None \<Rightarrow> Inl (denied READ_OUT_OF_SCOPE ''CAS object is not owned by this run'' [])
        | Some data \<Rightarrow> read_text cas data rows))"

definition gateway_read ::
  "string option \<Rightarrow> string option \<Rightarrow> (int \<times> int) option \<Rightarrow> gateway \<Rightarrow> (gateway_stop + tool_result) \<times> gateway" where
  "gateway_read path cas rows g =
     (if gw_read_calls g \<ge> max_read_calls
      then (Inr (Inl (denied READ_LIMIT_EXCEEDED ''read call quota has been exhausted'' [[(''limit'', PInt (int max_read_calls))]])), g)
      else let g' = g\<lparr>gw_read_calls := Suc (gw_read_calls g), gw_calls := gw_calls g @ [ReadRun path cas]\<rparr> in
        (case cas of
           Some c \<Rightarrow> Inr (read_cas g c rows)
         | None \<Rightarrow> (case path of
             None \<Rightarrow> Inl (EscapedExn AssertionEscape)
           | Some p \<Rightarrow> bind_res (read_roots g) (\<lambda>roots. bind_res (read_from_roots roots p) (\<lambda>found. case found of
               None \<Rightarrow> Inr (Inl (denied READ_OUT_OF_SCOPE ''path is outside the current read roots'' [[(''root_count'', PInt (int (length roots)))]]))
             | Some data \<Rightarrow> Inr (read_text p data rows)))), g'))"

section \<open>Writing\<close>

definition inside_scope :: "string \<Rightarrow> write_scope \<Rightarrow> bool" where
  "inside_scope path s \<longleftrightarrow>
     path \<in> set (ws_write_paths s) \<or> list_ex (\<lambda>r. path_in_root path (rstrip_char (CHR ''/'') r)) (ws_create_roots s)"

definition write_allowed :: "write_scope \<Rightarrow> write_scope list \<Rightarrow> string \<Rightarrow> bool \<Rightarrow> bool" where
  "write_allowed scope others path existed \<longleftrightarrow>
     path \<in> set (ws_write_paths scope)
     \<or> \<not> existed \<and> list_ex (\<lambda>r. path_in_root path (rstrip_char (CHR ''/'') r)) (ws_create_roots scope)
       \<and> \<not> list_ex (inside_scope path) others"

definition in_write_scope :: "gateway \<Rightarrow> string \<Rightarrow> bool \<Rightarrow> bool" where
  "in_write_scope g path existed =
     (case gw_write_scope g of None \<Rightarrow> False | Some scope \<Rightarrow> write_allowed scope (gw_other_write_scopes g) path existed)"

definition record_operation :: "bool \<Rightarrow> string \<Rightarrow> nat \<Rightarrow> bool \<Rightarrow> gateway \<Rightarrow> gateway" where
  "record_operation edit path bytes overwritten g =
     (let c = gw_context g in
      case (gc_run_id c, gc_slice_id c, gc_generation c) of
        (Some run, Some slice_id, Some n) \<Rightarrow> g\<lparr>gw_operations := gw_operations g @
          [\<lparr>fo_run_id = run, fo_slice_id = slice_id, fo_generation = n, fo_edit = edit, fo_path = path,
            fo_bytes_written = bytes, fo_overwritten = overwritten\<rparr>]\<rparr>
      | _ \<Rightarrow> g)"

text \<open>The last steps of a write and of an edit: the quota, the atomic write, the record.\<close>

definition commit_write ::
  "secure_root \<Rightarrow> bool \<Rightarrow> string \<Rightarrow> string \<Rightarrow> bool \<Rightarrow> tool_output \<Rightarrow> gateway \<Rightarrow> (gateway_stop + tool_result) \<times> gateway" where
  "commit_write workspace edit path data overwritten output g =
     (if gw_write_bytes g + length data > max_read_bytes
      then (Inr (Inl (denied WRITE_LIMIT_EXCEEDED ''write quota has been exhausted'' [])), g)
      else case write_atomic workspace path data of
        (Inl e, workspace') \<Rightarrow>
          (Inl (CaughtExn (if e = PathNotFound then ''PathNotFound'' else ''PathSecurityError'')), g\<lparr>gw_workspace := Some workspace'\<rparr>)
      | (Inr _, workspace') \<Rightarrow> (Inr (Inr output),
          record_operation edit path (length data) overwritten
            (g\<lparr>gw_workspace := Some workspace', gw_calls := gw_calls g @ [BytesWritten path (length data)],
                gw_write_bytes := gw_write_bytes g + length data\<rparr>)))"

definition path_denied :: gateway_stop where
  "path_denied = GatewayError (denied PATH_DENIED ''path failed the safety gate'' [])"

definition gateway_write :: "string \<Rightarrow> string \<Rightarrow> gateway \<Rightarrow> (gateway_stop + tool_result) \<times> gateway" where
  "gateway_write path content g =
     (case gw_workspace g of
        None \<Rightarrow> (Inr (Inl (denied_for_good TOOL_PHASE_DENIED ''Draft sessions cannot write candidate files'')), g)
      | Some workspace \<Rightarrow>
          if gc_draft_id (gw_context g) \<noteq> None
          then (Inr (Inl (denied_for_good TOOL_PHASE_DENIED ''Draft sessions cannot write candidate files'')), g)
          else let found = root_exists workspace path in
            if found \<noteq> Inl PathNotFound \<and> \<not> is_ok found then (Inl path_denied, g)
            else let existed = (found = Inr True) in
              if \<not> in_write_scope g path existed
              then (Inr (Inl (denied WRITE_SCOPE_VIOLATION ''path is outside the frozen write scope'' [[(''scope'', PStr ''frozen'')]])), g)
              else commit_write workspace False path content existed (WriteFileOutput path (length content) existed) g)"

section \<open>Editing\<close>

text \<open>The positions of the occurrences, found one after the other without overlap.\<close>

function occurrences :: "string \<Rightarrow> nat \<Rightarrow> string \<Rightarrow> nat list" where
  "occurrences old pos s =
     (if old = [] \<or> s = [] then []
      else if prefix old s then pos # occurrences old (pos + length old) (drop (length old) s)
      else occurrences old (Suc pos) (tl s))"
  by pat_completeness auto
termination
  by (relation "measure (\<lambda>(_, _, s). length s)") (auto simp: length_greater_0_conv [symmetric] simp del: length_greater_0_conv)

declare occurrences.simps [simp del]

definition line_at :: "string \<Rightarrow> nat \<Rightarrow> nat" where
  "line_at content position = Suc (length (filter (\<lambda>c. c = CHR 0x0A) (take position content)))"

definition replace_at :: "string \<Rightarrow> nat \<Rightarrow> string \<Rightarrow> string \<Rightarrow> string" where
  "replace_at content position old new = take position content @ new @ drop (position + length old) content"

definition edit_text :: "secure_root \<Rightarrow> string \<Rightarrow> string \<Rightarrow> string \<Rightarrow> int option \<Rightarrow> string \<Rightarrow> gateway \<Rightarrow> (gateway_stop + tool_result) \<times> gateway" where
  "edit_text workspace path old new occur data g =
     (let positions = occurrences old 0 data; index = (case occur of None \<Rightarrow> 0 | Some n \<Rightarrow> nat (n - 1)) in
      if positions = []
      then (Inr (Inl (denied EDIT_TARGET_NOT_FOUND ''edit target was not found'' [[(''line_count'', PInt (int (length (splitlines data))))]])), g)
      else if occur = None \<and> length positions > 1
      then (Inr (Inl (denied EDIT_AMBIGUOUS ''edit target matched more than once''
              (map (\<lambda>position. [(''line'', PInt (int (line_at data position)))]) positions))), g)
      else if index \<ge> length positions
      then (Inr (Inl (denied EDIT_TARGET_NOT_FOUND ''requested occurrence was not found'' [[(''match_count'', PInt (int (length positions)))]])), g)
      else let updated = replace_at data (positions ! index) old new
           in commit_write workspace True path updated True
                (EditFileOutput path (line_at data (positions ! index)) (length data) (length updated)) g)"

definition gateway_edit :: "string \<Rightarrow> string \<Rightarrow> string \<Rightarrow> int option \<Rightarrow> gateway \<Rightarrow> (gateway_stop + tool_result) \<times> gateway" where
  "gateway_edit path old new occur g =
     (let missing = (Inr (Inl (denied EDIT_TARGET_NOT_FOUND ''edit target does not exist'' [])), g) in
      case gw_workspace g of
        None \<Rightarrow> (Inr (Inl (denied_for_good TOOL_PHASE_DENIED ''Draft sessions cannot edit candidate files'')), g)
      | Some workspace \<Rightarrow>
          if gc_draft_id (gw_context g) \<noteq> None
          then (Inr (Inl (denied_for_good TOOL_PHASE_DENIED ''Draft sessions cannot edit candidate files'')), g)
          else (case root_exists workspace path of
              Inl PathNotFound \<Rightarrow> missing
            | Inl _ \<Rightarrow> (Inl path_denied, g)
            | Inr False \<Rightarrow> missing
            | Inr True \<Rightarrow> (case read_bytes workspace path (Some max_read_bytes) of
                Inl PathNotFound \<Rightarrow> missing
              | Inl PathSecurityError \<Rightarrow> (Inl path_denied, g)
              | Inl FileTooLarge \<Rightarrow> (Inl (CaughtExn ''ValueError''), g)
              | Inr data \<Rightarrow>
                  if \<not> in_write_scope g path True
                  then (Inr (Inl (denied WRITE_SCOPE_VIOLATION ''path is outside the frozen write scope'' [])), g)
                  else if \<not> utf8_valid data
                  then (Inr (Inl (denied EDIT_TARGET_NOT_FOUND ''edit target is not UTF-8 text'' [])), g)
                  else edit_text workspace path old new occur data g)))"

section \<open>Queries, commands and scripts\<close>

definition query_error_code :: "string \<Rightarrow> stable_error_code" where
  "query_error_code message =
     (case filter (\<lambda>(code, name). message = name \<or> prefix (name @ '':'') message)
             [(PATH_OUTSIDE_SNAPSHOT, ''PATH_OUTSIDE_SNAPSHOT''), (QUERY_TIMEOUT, ''QUERY_TIMEOUT''),
              (TEXT_FALLBACK_UNSUPPORTED, ''TEXT_FALLBACK_UNSUPPORTED'')] of
        [] \<Rightarrow> ANALYSIS_INFRA_ERROR | (code, _) # _ \<Rightarrow> code)"

definition gateway_query :: "'q gateway_ports \<Rightarrow> 'q \<Rightarrow> tool_result" where
  "gateway_query P request =
     (case gp_query P of
        None \<Rightarrow> Inl (denied DEPENDENCY_UNAVAILABLE ''PSF query port is not bound'' [])
      | Some query \<Rightarrow> (case query request of
          QueryFound v \<Rightarrow> Inr (QuerySourceAstOutput v)
        | QueryValueError message \<Rightarrow> Inl (denied (query_error_code message) ''source navigation rejected the request'' [])
        | QueryFailed name \<Rightarrow> Inl (denied ANALYSIS_INFRA_ERROR ''source navigation failed without exposing host details''
            [[(''exception'', PStr name)]])))"

definition gateway_shell :: "'q gateway_ports \<Rightarrow> string \<Rightarrow> string option \<Rightarrow> int option \<Rightarrow> gateway \<Rightarrow> (gateway_stop + tool_result) \<times> gateway" where
  "gateway_shell P command workdir timeout g =
     (case gw_workspace g of
        None \<Rightarrow> (Inr (Inl (denied_for_good TOOL_PHASE_DENIED ''Draft sessions cannot run Shell'')), g)
      | Some workspace \<Rightarrow>
          if gc_draft_id (gw_context g) \<noteq> None
          then (Inr (Inl (denied_for_good TOOL_PHASE_DENIED ''Draft sessions cannot run Shell'')), g)
          else (case gp_shell P of
              None \<Rightarrow> (Inr (Inl (denied DEPENDENCY_UNAVAILABLE ''sandbox Shell runner is not bound'' [])), g)
            | Some run \<Rightarrow>
                if gw_shell_calls g \<ge> max_read_calls
                then (Inr (Inl (denied SHELL_LIMIT_EXCEEDED ''Shell call quota has been exhausted'' [])), g)
                else let g' = g\<lparr>gw_shell_calls := Suc (gw_shell_calls g)\<rparr>;
                         effective = (case timeout of Some t \<Rightarrow> t | None \<Rightarrow> max_shell_timeout)
                     in (case absolute_path workspace workdir of
                           Inl _ \<Rightarrow> (Inl (GatewayError (denied PATH_DENIED ''workdir failed the safety gate'' [])), g')
                         | Inr directory \<Rightarrow> (case run command workdir effective directory workspace of
                             (Inl e, workspace') \<Rightarrow> (Inl (port_stop e),
                                g'\<lparr>gw_workspace := Some workspace', gw_calls := gw_calls g @ [CommandRun command]\<rparr>)
                           | (Inr x, workspace') \<Rightarrow>
                               (Inr (if se_timed_out x
                                     then Inl (denied SHELL_TIMEOUT ''Shell command exceeded its bounded wait'' [[(''timeout_secs'', PInt effective)]])
                                     else Inr (ShellOutput (se_exit_code x) (se_stdout x) (se_stderr x) (se_truncated x))),
                                g'\<lparr>gw_workspace := Some workspace', gw_calls := gw_calls g @ [CommandRun command]\<rparr>)))))"

primrec run_script ::
  "(pyval \<Rightarrow> gateway \<Rightarrow> (escape + tool_result) \<times> gateway) \<Rightarrow> script_run \<Rightarrow> gateway \<Rightarrow> (port_exn + exec_execution) \<times> gateway" where
  "run_script call (ScriptDone x) = (\<lambda>g. (Inr x, g))"
| "run_script call (ScriptRaises e) = (\<lambda>g. (Inl e, g))"
| "run_script call (ScriptCalls raw k) = (\<lambda>g. run_script call (k (fst (call raw g))) (snd (call raw g)))"

definition exec_result :: "'q gateway_ports \<Rightarrow> int \<Rightarrow> exec_execution \<Rightarrow> tool_result" where
  "exec_result P timeout x =
     (if ee_timed_out x
      then Inl (denied EXEC_TIMEOUT ''Exec script exceeded its bounded wait'' [[(''timeout_secs'', PInt timeout)]])
      else case ee_error_message x of
        Some message \<Rightarrow> Inl (denied EXEC_SCRIPT_ERROR ''Exec script failed''
          [(''message_sha256'', PStr (gp_sha256 P message)) # (case ee_error_line x of None \<Rightarrow> [] | Some l \<Rightarrow> [(''line'', PInt l)])])
      | None \<Rightarrow> Inr (ExecOutput (ee_result x) (ee_step_count x)))"

definition gateway_exec ::
  "'q gateway_ports \<Rightarrow> (pyval \<Rightarrow> gateway \<Rightarrow> (escape + tool_result) \<times> gateway) \<Rightarrow> string \<Rightarrow> int option \<Rightarrow> gateway
     \<Rightarrow> (gateway_stop + tool_result) \<times> gateway" where
  "gateway_exec P call script timeout g =
     (case gp_exec P of
        None \<Rightarrow> (Inr (Inl (denied EXEC_SCRIPT_ERROR ''embedded Exec engine is not bound'' [[(''engine'', PStr ''unavailable'')]])), g)
      | Some engine \<Rightarrow> (let effective = (case timeout of Some t \<Rightarrow> t | None \<Rightarrow> max_exec_timeout) in
          (case run_script call (engine script effective) g of
             (Inl e, g') \<Rightarrow> (Inl (port_stop e), g')
           | (Inr x, g') \<Rightarrow> (Inr (exec_result P effective x), g'))))"

section \<open>Audit\<close>

text \<open>\<open>_parameter_sha256\<close>: the parameters with texts, commands, scripts and paths replaced by their digests.\<close>

definition text_keys :: "string list" where
  "text_keys = [''content'', ''old_text'', ''new_text'', ''command'', ''script'']"

definition path_keys :: "string list" where
  "path_keys = [''path'', ''workdir'', ''cas'']"

definition redact_parameter :: "(string \<Rightarrow> string) \<Rightarrow> string \<times> pyval \<Rightarrow> string \<times> pyval" where
  "redact_parameter sha kv =
     (fst kv, case snd kv of
        PStr s \<Rightarrow> if fst kv \<in> set text_keys then obj [(''bytes'', PInt (int (length s))), (''sha256'', PStr (sha s))]
          else if fst kv \<in> set path_keys then obj [(''kind'', PStr ''path-or-cas''), (''sha256'', PStr (sha s))]
          else PStr s
      | v \<Rightarrow> v)"

definition parameter_sha256 :: "'q gateway_ports \<Rightarrow> pyval \<Rightarrow> string" where
  "parameter_sha256 P raw =
     (case Option.bind (as_object raw) (\<lambda>p. gp_canonical_sha256 P (obj (map (redact_parameter (gp_sha256 P)) p))) of
        Some digest \<Rightarrow> digest | None \<Rightarrow> gp_repr_sha256 P raw)"

text \<open>The name of a tool in an audit event: \<open>tool in {...}\<close> raises \<open>TypeError\<close> for a value without a hash, and the model of the
  event rejects a name that is not text.\<close>

fun unhashable :: "pyval \<Rightarrow> bool" where
  "unhashable (PList vs) = True"
| "unhashable (PDict kvs) = True"
| "unhashable (PTuple vs) = list_ex unhashable vs"
| "unhashable _ = False"

definition audit_tool :: "pyval \<Rightarrow> escape + string option" where
  "audit_tool v =
     (case v of PStr s \<Rightarrow> Inr (Some s) | PNone \<Rightarrow> Inr None | _ \<Rightarrow> Inl (if unhashable v then TypeEscape else ValidationEscape))"

definition blank_event :: "gateway_context \<Rightarrow> string option \<Rightarrow> string \<Rightarrow> audit_event" where
  "blank_event c tool sha =
     \<lparr>au_pre = False, au_context = c, au_tool = tool, au_parameter_sha256 = sha, au_error_code = None, au_repo_path = False,
      au_path_sha256 = None, au_command_sha256 = None, au_script = None, au_script_sha256 = None, au_step_count = None,
      au_exit_code = None, au_bytes_written = None, au_output = None\<rparr>"

definition emit_event :: "audit_event \<Rightarrow> gateway \<Rightarrow> gateway" where
  "emit_event e g = g\<lparr>gw_audit := gw_audit g @ [e]\<rparr>"

definition pre_event :: "gateway \<Rightarrow> string option \<Rightarrow> string \<Rightarrow> audit_event" where
  "pre_event g tool sha =
     blank_event (gw_context g) tool sha \<lparr>au_pre := True, au_repo_path := tool \<in> {Some ''ReadFile'', Some ''WriteFile'', Some ''EditFile''}\<rparr>"

fun call_path :: "'q tool_call \<Rightarrow> string option" where
  "call_path (ReadFileCall path _ _) = path"
| "call_path (WriteFileCall path _) = Some path"
| "call_path (EditFileCall path _ _ _) = Some path"
| "call_path _ = None"

fun call_command :: "'q tool_call \<Rightarrow> string option" where
  "call_command (ShellCall command _ _) = Some command"
| "call_command _ = None"

fun call_script :: "'q tool_call \<Rightarrow> string option" where
  "call_script (ExecCall script _) = Some script"
| "call_script _ = None"

fun result_bytes :: "tool_result \<Rightarrow> nat option" where
  "result_bytes (Inr (WriteFileOutput _ n _)) = Some n"
| "result_bytes (Inr (EditFileOutput _ _ _ n)) = Some n"
| "result_bytes _ = None"

definition post_event ::
  "'q gateway_ports \<Rightarrow> gateway \<Rightarrow> string option \<Rightarrow> string \<Rightarrow> tool_result \<Rightarrow> 'q tool_call option \<Rightarrow> audit_event" where
  "post_event P g tool sha result call =
     blank_event (gw_context g) tool sha
       \<lparr>au_error_code := (case result of Inl e \<Rightarrow> Some (te_code e) | Inr _ \<Rightarrow> None),
        au_path_sha256 := map_option (gp_sha256 P) (Option.bind call call_path),
        au_command_sha256 := map_option (gp_sha256 P) (Option.bind call call_command),
        au_script := Option.bind call call_script,
        au_script_sha256 := map_option (gp_sha256 P) (Option.bind call call_script),
        au_step_count := (case result of Inr (ExecOutput _ n) \<Rightarrow> Some n | _ \<Rightarrow> None),
        au_exit_code := (case result of Inr (ShellOutput code _ _ _) \<Rightarrow> Some code | _ \<Rightarrow> None),
        au_bytes_written := result_bytes result,
        au_output := (case result of
            Inr (ShellOutput _ out err truncated) \<Rightarrow> Some (gp_sha256 P out, gp_sha256 P err, length out, length err, truncated)
          | _ \<Rightarrow> None)\<rparr>"

section \<open>Dispatch\<close>

definition gateway_tools :: "string list" where
  "gateway_tools = [''ReadFile'', ''WriteFile'', ''EditFile'', ''QuerySourceAst'', ''Shell'', ''Exec'']"

definition execute ::
  "'q gateway_ports \<Rightarrow> (pyval \<Rightarrow> gateway \<Rightarrow> (escape + tool_result) \<times> gateway) \<Rightarrow> 'q tool_call \<Rightarrow> gateway
     \<Rightarrow> (gateway_stop + tool_result) \<times> gateway" where
  "execute P call c g =
     (case c of
        ReadFileCall path cas rows \<Rightarrow> gateway_read path cas rows g
      | WriteFileCall path content \<Rightarrow> gateway_write path content g
      | EditFileCall path old new occur \<Rightarrow> gateway_edit path old new occur g
      | QuerySourceAstCall request \<Rightarrow> (Inr (gateway_query P request), g)
      | ShellCall command workdir timeout \<Rightarrow> gateway_shell P command workdir timeout g
      | ExecCall script timeout \<Rightarrow> gateway_exec P call script timeout g)"

definition caught_result :: "string \<Rightarrow> tool_error" where
  "caught_result name = denied CHECKPOINT_WRITE_FAILED ''tool execution failed without exposing host details'' [[(''exception'', PStr name)]]"

text \<open>A call that ends before execution: both events, then the error.\<close>

definition refuse ::
  "'q gateway_ports \<Rightarrow> string option \<Rightarrow> string \<Rightarrow> tool_error \<Rightarrow> 'q tool_call option \<Rightarrow> gateway \<Rightarrow> (escape + tool_result) \<times> gateway" where
  "refuse P tool sha e call g = (Inr (Inl e), emit_event (post_event P g tool sha (Inl e) call) g)"

definition run_call ::
  "'q gateway_ports \<Rightarrow> (pyval \<Rightarrow> gateway \<Rightarrow> (escape + tool_result) \<times> gateway) \<Rightarrow> string option \<Rightarrow> string \<Rightarrow> 'q tool_call \<Rightarrow> gateway
     \<Rightarrow> (escape + tool_result) \<times> gateway" where
  "run_call P call tool sha c g =
     (case execute P call c g of
        (Inl (EscapedExn e), g') \<Rightarrow> (Inl e, g')
      | (Inl (CaughtExn name), g') \<Rightarrow> (Inr (Inl (caught_result name)), emit_event (post_event P g' tool sha (Inl (caught_result name)) (Some c)) g')
      | (Inl (GatewayError e), g') \<Rightarrow> (Inr (Inl e), emit_event (post_event P g' tool sha (Inl e) (Some c)) g')
      | (Inr result, g') \<Rightarrow> (Inr result, emit_event (post_event P g' tool sha result (Some c)) g'))"

definition tool_name_of :: "pyval \<Rightarrow> pyval" where
  "tool_name_of raw = (case as_object raw of None \<Rightarrow> PNone | Some p \<Rightarrow> (case map_of p ''tool'' of None \<Rightarrow> PNone | Some v \<Rightarrow> v))"

definition parse_raw :: "'q gateway_ports \<Rightarrow> string \<Rightarrow> pyval \<Rightarrow> 'q tool_call option" where
  "parse_raw P tool raw = Option.bind (as_object raw) (parse_call (gp_parse_query P) tool)"

definition dispatch_step ::
  "'q gateway_ports \<Rightarrow> (pyval \<Rightarrow> gateway \<Rightarrow> (escape + tool_result) \<times> gateway) \<Rightarrow> bool \<Rightarrow> pyval \<Rightarrow> gateway
     \<Rightarrow> (escape + tool_result) \<times> gateway" where
  "dispatch_step P call cancelled raw g =
     (let sha = parameter_sha256 P raw in
      case audit_tool (tool_name_of raw) of
        Inl e \<Rightarrow> (Inl e, g)
      | Inr tool \<Rightarrow>
          (let g' = emit_event (pre_event g tool sha) g in
           if cancelled
           then refuse P tool sha (denied_for_good STALE_DISPATCH_RESULT ''tool call was cancelled before execution'') None g'
           else case tool of
             None \<Rightarrow> refuse P tool sha (denied_for_good TOOL_NOT_FOUND ''tool is not in the closed six-tool registry'') None g'
           | Some name \<Rightarrow>
               if name \<notin> set gateway_tools
               then refuse P tool sha (denied_for_good TOOL_NOT_FOUND ''tool is not in the closed six-tool registry'') None g'
               else (case parse_raw P name raw of
                   None \<Rightarrow> refuse P tool sha (denied TOOL_SCHEMA_INVALID ''tool input does not satisfy the closed schema'' []) None g'
                 | Some c \<Rightarrow>
                     if \<not> is_allowed g name
                     then refuse P tool sha (denied_for_good TOOL_PHASE_DENIED ''the current phase or session cannot use this tool'') (Some c) g'
                     else run_call P call tool sha c g')))"

text \<open>The bridge calls \<open>dispatch\<close> again, one level deeper and without a token.\<close>

primrec dispatch_at :: "'q gateway_ports \<Rightarrow> nat \<Rightarrow> bool \<Rightarrow> pyval \<Rightarrow> gateway \<Rightarrow> (escape + tool_result) \<times> gateway" where
  "dispatch_at P 0 = (\<lambda>cancelled raw g. (Inl RecursionEscape, g))"
| "dispatch_at P (Suc depth) = (\<lambda>cancelled raw g. dispatch_step P (dispatch_at P depth False) cancelled raw g)"

end
