(* ===== verification/Gateway_Properties.thy ===== *)
theory Gateway_Properties
  imports Workspace_Gateway
begin

text \<open>
  What the tool gateway guarantees, whatever a model asks for: writes stay within the scope of the slice, the quotas
  hold, and an edit replaces one occurrence. Scope and quota are relations between the gateway before and after a call
  that every tool keeps; a locale carries them over nested scripts.
\<close>

section \<open>Relations that every tool keeps\<close>

text \<open>
  A relation between the states before and after a call that is reflexive and transitive, allows events to be
  appended, and holds for each tool when the gateway admits it. It then holds for every dispatch, with all the
  calls that scripts make on their way.
\<close>

locale gateway_relation =
  fixes P :: "'q gateway_ports" and R :: "gateway \<Rightarrow> gateway \<Rightarrow> bool"
  assumes R_refl: "R g g"
    and R_trans: "R a b \<Longrightarrow> R b c \<Longrightarrow> R a c"
    and R_emit: "R g (emit_event e g)"
    and R_read: "R g (snd (gateway_read source cas rows g))"
    and R_write: "is_allowed g ''WriteFile'' \<Longrightarrow> R g (snd (gateway_write path content g))"
    and R_edit: "is_allowed g ''EditFile'' \<Longrightarrow> R g (snd (gateway_edit path old new occur g))"
    and R_shell: "is_allowed g ''Shell'' \<Longrightarrow> R g (snd (gateway_shell P command workdir timeout g))"
begin

lemma script_relation:
  assumes "\<And>raw g. R g (snd (call raw g))"
  shows "R g (snd (run_script call s g))"
proof (induction s arbitrary: g)
  case (ScriptCalls raw k)
  from R_trans [OF assms ScriptCalls.IH] show ?case by simp
qed (simp_all add: R_refl)

lemma exec_relation:
  assumes "\<And>raw g. R g (snd (call raw g))"
  shows "R g (snd (gateway_exec P call script timeout g))"
proof (cases "gp_exec P")
  case (Some engine)
  let ?s = "engine script (case timeout of Some t \<Rightarrow> t | None \<Rightarrow> max_exec_timeout)"
  obtain r g' where r: "run_script call ?s g = (r, g')" by fastforce
  moreover have "R g g'" using script_relation [where call = call and s = ?s and g = g, OF assms] r by simp
  ultimately show ?thesis using Some by (cases r) (simp_all add: gateway_exec_def Let_def)
qed (simp add: gateway_exec_def R_refl)

end

lemma parse_call_tool:
  assumes "parse_call check tool p = Some c"
  shows "case c of ReadFileCall _ _ _ \<Rightarrow> tool = ''ReadFile'' | WriteFileCall _ _ \<Rightarrow> tool = ''WriteFile''
    | EditFileCall _ _ _ _ \<Rightarrow> tool = ''EditFile'' | QuerySourceAstCall _ \<Rightarrow> tool = ''QuerySourceAst''
    | ShellCall _ _ _ \<Rightarrow> tool = ''Shell'' | ExecCall _ _ \<Rightarrow> tool = ''Exec''"
proof -
  have "\<exists>a b d. c = ReadFileCall a b d" if "parse_read p = Some c"
    using that by (auto simp: parse_read_def Option.bind_eq_Some_conv split: if_splits)
  moreover have "\<exists>a b. c = WriteFileCall a b" if "parse_write p = Some c"
    using that by (auto simp: parse_write_def Option.bind_eq_Some_conv split: if_splits)
  moreover have "\<exists>a b d e. c = EditFileCall a b d e" if "parse_edit p = Some c"
    using that by (auto simp: parse_edit_def Option.bind_eq_Some_conv split: if_splits)
  moreover have "\<exists>a. c = QuerySourceAstCall a" if "parse_query check p = Some c"
    using that by (auto simp: parse_query_def Option.bind_eq_Some_conv split: if_splits)
  moreover have "\<exists>a b d. c = ShellCall a b d" if "parse_shell p = Some c"
    using that by (auto simp: parse_shell_def Option.bind_eq_Some_conv split: if_splits)
  moreover have "\<exists>a b. c = ExecCall a b" if "parse_exec p = Some c"
    using that by (auto simp: parse_exec_def Option.bind_eq_Some_conv split: if_splits)
  ultimately show ?thesis
    using assms unfolding parse_call_def by (auto split: if_splits)
qed

lemma is_allowed_emit [simp]: "is_allowed (emit_event e g) tool = is_allowed g tool"
  by (simp add: is_allowed_def emit_event_def)

context gateway_relation
begin

lemma call_relation:
  assumes "parse_call check tool p = Some c" "is_allowed g tool" "\<And>raw g. R g (snd (call raw g))"
  shows "R g (snd (run_call P call (Some tool) sha c g))"
proof -
  have "R g (snd (execute P call c g))"
    using parse_call_tool [OF assms(1)] assms(2) R_refl R_read R_write R_edit R_shell exec_relation [OF assms(3)]
    by (cases c) (simp_all add: execute_def)
  then have "R g (emit_event e (snd (execute P call c g)))" for e
    using R_trans R_emit by blast
  with \<open>R g (snd (execute P call c g))\<close> show ?thesis
    by (auto simp: run_call_def split: prod.splits sum.splits gateway_stop.splits)
qed

lemma step_relation:
  assumes "\<And>raw g. R g (snd (call raw g))"
  shows "R g (snd (dispatch_step P call cancelled raw g))"
proof -
  have "R g (emit_event a (emit_event e g))" for a e
    using R_trans R_emit by blast
  then have refused: "R g (snd (refuse P tool sha e c (emit_event a g)))" for tool sha e c a
    by (simp add: refuse_def)
  have ran: "R g (snd (run_call P call (Some tool) sha c (emit_event a g)))"
    if "parse_call check tool p = Some c" "is_allowed g tool" for check tool p sha c a
    using R_trans [OF R_emit call_relation [OF that(1) _ assms]] that(2) by simp
  show ?thesis
    by (auto simp: dispatch_step_def Let_def R_refl parse_raw_def Option.bind_eq_Some_conv intro!: refused ran
        split: sum.splits option.splits)
qed

lemma dispatch_relation: "R g (snd (dispatch_at P depth cancelled raw g))"
proof (induction depth arbitrary: cancelled raw g)
  case (Suc depth)
  then show ?case using step_relation [of "dispatch_at P depth False"] by simp
qed (simp add: R_refl)

end

section \<open>Quotas\<close>

text \<open>What the history of a gateway counts.\<close>

definition reads_run :: "gateway \<Rightarrow> nat" where
  "reads_run g = length (filter (\<lambda>c. case c of ReadRun _ _ \<Rightarrow> True | _ \<Rightarrow> False) (gw_calls g))"

definition commands_run :: "gateway \<Rightarrow> nat" where
  "commands_run g = length (filter (\<lambda>c. case c of CommandRun _ \<Rightarrow> True | _ \<Rightarrow> False) (gw_calls g))"

definition bytes_written :: "gateway \<Rightarrow> nat" where
  "bytes_written g = sum_list (map (\<lambda>c. case c of BytesWritten _ n \<Rightarrow> n | _ \<Rightarrow> 0) (gw_calls g))"

definition quota_ok :: "gateway \<Rightarrow> bool" where
  "quota_ok g \<longleftrightarrow> gw_read_calls g \<le> max_read_calls \<and> gw_shell_calls g \<le> max_read_calls \<and> gw_write_bytes g \<le> max_read_bytes
     \<and> reads_run g = gw_read_calls g \<and> commands_run g \<le> gw_shell_calls g \<and> bytes_written g = gw_write_bytes g
     \<and> (gc_run_id (gw_context g) \<noteq> None \<and> gc_slice_id (gw_context g) \<noteq> None \<and> gc_generation (gw_context g) \<noteq> None
          \<longrightarrow> sum_list (map fo_bytes_written (gw_operations g)) = bytes_written g)"

definition quota_kept :: "gateway \<Rightarrow> gateway \<Rightarrow> bool" where
  "quota_kept g g' \<longleftrightarrow> gw_context g' = gw_context g \<and> prefix (gw_calls g) (gw_calls g') \<and> (quota_ok g \<longrightarrow> quota_ok g')"

lemmas history_defs = reads_run_def commands_run_def bytes_written_def

lemma commit_write_quota: "quota_kept g (snd (commit_write workspace edit path data over out g))"
  by (auto simp: commit_write_def quota_kept_def quota_ok_def history_defs record_operation_def Let_def split: prod.splits sum.splits option.splits)

lemma gateway_write_quota: "quota_kept g (snd (gateway_write path content g))"
  using commit_write_quota by (auto simp: gateway_write_def Let_def quota_kept_def split: option.splits)

lemma gateway_edit_quota: "quota_kept g (snd (gateway_edit path old new occur g))"
proof -
  have "quota_kept g (snd (edit_text workspace path old new occur data g))" for workspace data
    using commit_write_quota by (auto simp: edit_text_def Let_def quota_kept_def)
  then show ?thesis
    by (auto simp: gateway_edit_def Let_def quota_kept_def split: option.splits sum.splits root_exn.splits bool.splits)
qed

lemma gateway_read_quota: "quota_kept g (snd (gateway_read source cas rows g))"
  by (auto simp: gateway_read_def Let_def quota_kept_def quota_ok_def history_defs)

lemma gateway_shell_quota: "quota_kept g (snd (gateway_shell P command workdir timeout g))"
  by (auto simp: gateway_shell_def Let_def quota_kept_def quota_ok_def history_defs split: option.splits sum.splits prod.splits)

lemma gateway_init_quota: "tool_gateway_init sha g = Inr g' \<Longrightarrow> quota_ok g'"
  by (auto simp: tool_gateway_init_def quota_ok_def history_defs split: if_splits)

lemma with_scopes_quota: "with_other_write_scopes scopes g = Inr g' \<Longrightarrow> quota_ok g'"
  using gateway_init_quota by (auto simp: with_other_write_scopes_def bind_Inr)

interpretation quota: gateway_relation P quota_kept for P :: "'q gateway_ports"
  by unfold_locales
    (auto simp: gateway_read_quota gateway_write_quota gateway_edit_quota gateway_shell_quota,
     auto simp: quota_kept_def quota_ok_def history_defs emit_event_def dest: prefix_order.trans)

section \<open>Scopes\<close>

text \<open>What may happen to one node of the workspace: a file in scope is written or created, or a directory is made on the
  way to a file that may be created.\<close>

definition node_change :: "gateway \<Rightarrow> string list \<Rightarrow> (nat \<times> fs_node) option \<Rightarrow> (nat \<times> fs_node) option \<Rightarrow> bool" where
  "node_change g q old new \<longleftrightarrow> new = old
     \<or> gc_draft_id (gw_context g) = None \<and> (is_allowed g ''WriteFile'' \<or> is_allowed g ''EditFile'')
       \<and> (\<exists>path. validate_relative_path path = Inr path
            \<and> (q = segments_of path \<and> (\<exists>d s. new = Some (d, FileNode s))
                 \<and> (old = None \<and> in_write_scope g path False \<or> (\<exists>d s. old = Some (d, FileNode s)) \<and> in_write_scope g path True)
               \<or> strict_prefix q (segments_of path) \<and> old = None \<and> (\<exists>d. new = Some (d, DirNode)) \<and> in_write_scope g path False))"

definition same_rights :: "gateway \<Rightarrow> gateway \<Rightarrow> bool" where
  "same_rights g g' \<longleftrightarrow> gw_context g' = gw_context g \<and> gw_policy g' = gw_policy g \<and> gw_write_scope g' = gw_write_scope g
     \<and> gw_other_write_scopes g' = gw_other_write_scopes g \<and> gw_snapshot g' = gw_snapshot g
     \<and> gw_contract_roots g' = gw_contract_roots g \<and> gw_verified g' = gw_verified g \<and> gw_cas g' = gw_cas g"

definition workspace_ok :: "gateway \<Rightarrow> bool" where
  "workspace_ok g = (case gw_workspace g of None \<Rightarrow> True | Some ws \<Rightarrow> tree_ok ws)"

definition workspace_change :: "gateway \<Rightarrow> secure_root option \<Rightarrow> secure_root option \<Rightarrow> bool" where
  "workspace_change g w w' =
     (case (w, w') of
        (Some ws, Some ws') \<Rightarrow> \<forall>q. node_change g q (sr_nodes ws q) (sr_nodes ws' q)
      | (None, None) \<Rightarrow> True
      | _ \<Rightarrow> False)"

text \<open>A shell runner is bound and the phase and the session admit the Shell tool. A command may change any node.\<close>

definition may_run_commands :: "'q gateway_ports \<Rightarrow> gateway \<Rightarrow> bool" where
  "may_run_commands P g \<longleftrightarrow> gp_shell P \<noteq> None \<and> is_allowed g ''Shell''"

definition scoped :: "'q gateway_ports \<Rightarrow> gateway \<Rightarrow> gateway \<Rightarrow> bool" where
  "scoped P g g' \<longleftrightarrow> same_rights g g'
     \<and> (\<not> may_run_commands P g \<and> workspace_ok g \<longrightarrow> workspace_ok g' \<and> workspace_change g (gw_workspace g) (gw_workspace g'))"

lemma node_change_refl [simp]: "node_change g q n n"
  by (simp add: node_change_def)

lemma same_rights_refl [simp]: "same_rights g g"
  by (simp add: same_rights_def)

lemma in_write_scope_weaken: "in_write_scope g path True \<Longrightarrow> in_write_scope g path False"
  by (auto simp: in_write_scope_def write_allowed_def split: option.splits)

lemma node_change_rights:
  assumes "same_rights g g'"
  shows "node_change g' q old new = node_change g q old new"
proof -
  have "is_allowed g' tool = is_allowed g tool" "in_write_scope g' path b = in_write_scope g path b" for tool path b
    using assms by (auto simp: same_rights_def is_allowed_def in_write_scope_def split: option.splits)
  with assms show ?thesis by (simp add: node_change_def same_rights_def)
qed

lemma node_change_trans:
  assumes "node_change g q a b" "node_change g q b c"
  shows "node_change g q a c"
proof (cases "b = a \<or> c = b")
  case False
  with assms(1) obtain p where p: "validate_relative_path p = Inr p"
    "q = segments_of p \<and> (\<exists>d s. b = Some (d, FileNode s))
       \<and> (a = None \<and> in_write_scope g p False \<or> (\<exists>d s. a = Some (d, FileNode s)) \<and> in_write_scope g p True)
     \<or> strict_prefix q (segments_of p) \<and> a = None \<and> (\<exists>d. b = Some (d, DirNode)) \<and> in_write_scope g p False"
    unfolding node_change_def by blast
  from False assms(2) obtain p' where p': "gc_draft_id (gw_context g) = None" "is_allowed g ''WriteFile'' \<or> is_allowed g ''EditFile''"
    "q = segments_of p' \<and> (\<exists>d s. c = Some (d, FileNode s)) \<and> (b = None \<or> (\<exists>d s. b = Some (d, FileNode s)))
     \<or> strict_prefix q (segments_of p') \<and> b = None"
    unfolding node_change_def by blast
  from p(2) p'(3) have "q = segments_of p" "\<exists>d s. c = Some (d, FileNode s)"
    "a = None \<and> in_write_scope g p False \<or> (\<exists>d s. a = Some (d, FileNode s)) \<and> in_write_scope g p True"
    by auto
  with p(1) p'(1,2) show ?thesis unfolding node_change_def by blast
qed (use assms in auto)

lemma scoped_trans: "scoped P a b \<Longrightarrow> scoped P b c \<Longrightarrow> scoped P a c"
proof -
  assume ab: "scoped P a b" and bc: "scoped P b c"
  have rights: "same_rights a c"
    using ab bc by (auto simp: scoped_def same_rights_def)
  have "workspace_change a (gw_workspace a) (gw_workspace c)"
    if "workspace_change a (gw_workspace a) (gw_workspace b)" "workspace_change b (gw_workspace b) (gw_workspace c)"
  proof -
    have "node_change b = node_change a"
      using ab node_change_rights by (auto simp: scoped_def fun_eq_iff)
    with that show ?thesis
      by (auto simp: workspace_change_def split: option.splits intro: node_change_trans)
  qed
  moreover have "may_run_commands P b = may_run_commands P a"
    using ab by (simp add: scoped_def same_rights_def may_run_commands_def is_allowed_def)
  ultimately show ?thesis using rights ab bc by (auto simp: scoped_def)
qed

lemma scoped_quiet:
  "same_rights g g' \<Longrightarrow> gw_workspace g' = gw_workspace g \<Longrightarrow> scoped P g g'"
  by (auto simp: scoped_def workspace_ok_def workspace_change_def split: option.splits)

lemma commit_write_scoped:
  assumes "gw_workspace g = Some ws" "gc_draft_id (gw_context g) = None" "is_allowed g ''WriteFile'' \<or> is_allowed g ''EditFile''"
    "validate_relative_path path = Inr path" "in_write_scope g path existed"
    "workspace_ok g \<Longrightarrow> if existed then \<exists>d s. sr_nodes ws (segments_of path) = Some (d, FileNode s) else sr_nodes ws (segments_of path) = None"
  shows "scoped P g (snd (commit_write ws edit path data over out g))"
proof (cases "gw_write_bytes g + length data > max_read_bytes")
  case False
  obtain r ws' where w: "write_atomic ws path data = (r, ws')" by fastforce
  let ?p = "segments_of path"
  obtain m where m: "grown ws m (on_way [] (butlast ?p))"
    "case r of Inl _ \<Rightarrow> ws' = m | Inr _ \<Rightarrow> ws' = m\<lparr>sr_nodes := (sr_nodes m)(?p := Some (sr_device m, FileNode data))\<rparr>"
    using write_atomic_tree [OF w] by (cases r) auto
  have dirs: "node_change g q (sr_nodes ws q) (sr_nodes m q)" for q
    using m(1) assms(2-5) in_write_scope_weaken [of g path] unfolding grown_def node_change_def
    by (cases existed) (auto simp: strict_prefix_butlast)
  have leaf: "sr_nodes m ?p = sr_nodes ws ?p"
    using m(1) strict_prefix_butlast [of ?p ?p] unfolding grown_def by auto
  have change: "node_change g q (sr_nodes ws q) (sr_nodes ws' q)" if ok: "workspace_ok g" for q
  proof (cases "q = ?p \<and> is_ok r")
    case True
    with m(2) have "\<exists>d s. sr_nodes ws' q = Some (d, FileNode s)" by (cases r) auto
    with True assms(2-5) assms(6) [OF ok] show ?thesis unfolding node_change_def by (cases existed) auto
  next
    case other: False
    then have "sr_nodes ws' q = sr_nodes m q"
      using m(2) by (cases r) auto
    with dirs show ?thesis by simp
  qed
  have "workspace_ok g \<Longrightarrow> tree_ok ws'"
    using write_atomic_ok [of ws path data] w assms(1) by (simp add: workspace_ok_def)
  with change w assms(1) False show ?thesis
    by (cases r) (auto simp: commit_write_def scoped_def same_rights_def workspace_ok_def workspace_change_def record_operation_def Let_def
        split: option.splits)
qed (simp add: commit_write_def scoped_quiet)

lemma root_exists_valid:
  assumes "root_exists ws path = Inl PathNotFound \<or> is_ok (root_exists ws path)"
  shows "validate_relative_path path = Inr path"
proof (cases "validate_relative_path path")
  case (Inl e)
  then have "e = PathSecurityError" by (auto simp: validate_relative_path_def split: if_splits)
  with assms Inl show ?thesis by (simp add: root_exists_def)
qed (use validate_Inr in blast)

lemma gateway_write_scoped:
  assumes "is_allowed g ''WriteFile''"
  shows "scoped P g (snd (gateway_write path content g))"
proof (cases "gw_workspace g")
  case (Some ws)
  have commit: "scoped P g (snd (commit_write ws False path content existed out g))"
    if "gc_draft_id (gw_context g) = None" "root_exists ws path = Inl PathNotFound \<or> is_ok (root_exists ws path)"
      "existed \<longleftrightarrow> root_exists ws path = Inr True" "in_write_scope g path existed" for existed out
  proof (rule commit_write_scoped [OF Some that(1) _ root_exists_valid [OF that(2)] that(4)])
    assume ok: "workspace_ok g"
    show "if existed then \<exists>d s. sr_nodes ws (segments_of path) = Some (d, FileNode s) else sr_nodes ws (segments_of path) = None"
    proof (cases existed)
      case True
      with that(3) root_exists_file [of ws path] show ?thesis by auto
    next
      case False
      with that(2,3) have "root_exists ws path = Inr False \<or> root_exists ws path = Inl PathNotFound"
        by (cases "root_exists ws path") auto
      with False ok Some root_exists_missing [of ws path] show ?thesis by (simp add: workspace_ok_def)
    qed
  qed (use assms in simp)
  show ?thesis
    using Some commit [of "root_exists ws path = Inr True"]
    by (auto simp: gateway_write_def Let_def scoped_quiet split: sum.splits root_exn.splits bool.splits)
qed (simp add: gateway_write_def scoped_quiet)

lemma gateway_edit_scoped:
  assumes "is_allowed g ''EditFile''"
  shows "scoped P g (snd (gateway_edit path old new occur g))"
proof (cases "gw_workspace g")
  case (Some ws)
  have edit: "scoped P g (snd (edit_text ws path old new occur data g))"
    if "gc_draft_id (gw_context g) = None" "read_bytes ws path limit = Inr data" "in_write_scope g path True" for data limit
  proof -
    have "scoped P g (snd (commit_write ws True path updated True out g))" for updated out
      using read_bytes_Inr [OF that(2)] assms by (intro commit_write_scoped [OF Some that(1) _ _ that(3)]) auto
    then show ?thesis
      by (auto simp: edit_text_def Let_def scoped_quiet)
  qed
  show ?thesis
    using Some edit
    by (auto simp: gateway_edit_def Let_def scoped_quiet split: sum.splits root_exn.splits bool.splits)
qed (simp add: gateway_edit_def scoped_quiet)

lemma gateway_read_scoped: "scoped P g (snd (gateway_read source cas rows g))"
  by (auto simp: gateway_read_def Let_def same_rights_def intro!: scoped_quiet)

lemma gateway_shell_scoped:
  assumes "is_allowed g ''Shell''"
  shows "scoped P g (snd (gateway_shell P command workdir timeout g))"
proof (cases "gp_shell P")
  case None
  then show ?thesis
    by (auto simp: gateway_shell_def Let_def same_rights_def intro!: scoped_quiet split: option.splits)
next
  case (Some run)
  with assms have "may_run_commands P g" by (simp add: may_run_commands_def)
  with Some show ?thesis
    by (auto simp: gateway_shell_def Let_def scoped_def same_rights_def split: option.splits sum.splits prod.splits)
qed

interpretation scope: gateway_relation P "scoped P" for P :: "'q gateway_ports"
  by unfold_locales
    (auto simp: gateway_read_scoped gateway_write_scoped gateway_edit_scoped gateway_shell_scoped scoped_quiet emit_event_def same_rights_def
      intro: scoped_trans)

text \<open>The same with the scope spelt out.\<close>

definition changed_in_scope ::
  "gateway \<Rightarrow> (string list \<Rightarrow> (nat \<times> fs_node) option) \<Rightarrow> (string list \<Rightarrow> (nat \<times> fs_node) option) \<Rightarrow> string list \<Rightarrow> bool" where
  "changed_in_scope g old new q \<longleftrightarrow>
     gc_draft_id (gw_context g) = None \<and> (is_allowed g ''WriteFile'' \<or> is_allowed g ''EditFile'')
     \<and> (\<exists>path scope. validate_relative_path path = Inr path \<and> gw_write_scope g = Some scope
          \<and> (q = segments_of path \<and> (\<exists>d s. old q = Some (d, FileNode s)) \<and> (\<exists>d s. new q = Some (d, FileNode s))
               \<and> path \<in> set (ws_write_paths scope)
             \<or> old q = None
               \<and> (q = segments_of path \<and> (\<exists>d s. new q = Some (d, FileNode s))
                  \<or> strict_prefix q (segments_of path) \<and> (\<exists>d. new q = Some (d, DirNode)))
               \<and> (path \<in> set (ws_write_paths scope)
                  \<or> (\<exists>r \<in> set (ws_create_roots scope). path_in_root path (rstrip_char (CHR ''/'') r))
                    \<and> (\<forall>other \<in> set (gw_other_write_scopes g). \<not> inside_scope path other))))"

lemma in_write_scope_meaning:
  "in_write_scope g path existed \<longleftrightarrow> (\<exists>scope. gw_write_scope g = Some scope \<and> (path \<in> set (ws_write_paths scope)
     \<or> \<not> existed \<and> (\<exists>r \<in> set (ws_create_roots scope). path_in_root path (rstrip_char (CHR ''/'') r))
       \<and> (\<forall>other \<in> set (gw_other_write_scopes g). \<not> inside_scope path other)))"
  by (auto simp: in_write_scope_def write_allowed_def list_ex_iff split: option.splits)

lemma node_change_in_scope:
  "node_change g q (old q) (new q) \<Longrightarrow> new q \<noteq> old q \<Longrightarrow> changed_in_scope g old new q"
  unfolding node_change_def changed_in_scope_def in_write_scope_meaning by blast

text \<open>C22: a model that cannot run commands changes only what its slice may change. No call, whatever it asks for and
  whatever scripts do on the way, changes the snapshot, contract and verified roots, the rights or the scopes. In a
  session without the Shell (no runner is bound, or the phase or the kind of the session does not admit the
  tool) also the workspace is protected: if a node of it changes then the session is not a draft session, its phase admits
  writing or editing, and the node is a file that the scope names, or a file that did not exist and lies below a root in which
  the slice may create and outside the scopes of the others, or a new directory on the way to such a
  file. A shell command may change any node of the workspace; the gateway does not look at what it did.\<close>

theorem gateway_changes_in_scope:
  assumes "dispatch_at P depth cancelled raw g = (r, g')" "gw_workspace g = Some ws" "tree_ok ws"
  shows "same_rights g g' \<and> (gp_shell P = None \<or> \<not> is_allowed g ''Shell'' \<longrightarrow> (\<exists>ws'. gw_workspace g' = Some ws' \<and> tree_ok ws'
    \<and> (\<forall>q. sr_nodes ws' q \<noteq> sr_nodes ws q \<longrightarrow>
         gc_draft_id (gw_context g) = None \<and> (is_allowed g ''WriteFile'' \<or> is_allowed g ''EditFile'')
         \<and> (\<exists>path scope. validate_relative_path path = Inr path \<and> gw_write_scope g = Some scope
              \<and> (q = segments_of path \<and> (\<exists>d s. sr_nodes ws q = Some (d, FileNode s)) \<and> (\<exists>d s. sr_nodes ws' q = Some (d, FileNode s))
                   \<and> path \<in> set (ws_write_paths scope)
                 \<or> sr_nodes ws q = None
                   \<and> (q = segments_of path \<and> (\<exists>d s. sr_nodes ws' q = Some (d, FileNode s))
                      \<or> strict_prefix q (segments_of path) \<and> (\<exists>d. sr_nodes ws' q = Some (d, DirNode)))
                   \<and> (path \<in> set (ws_write_paths scope)
                      \<or> (\<exists>r \<in> set (ws_create_roots scope). path_in_root path (rstrip_char (CHR ''/'') r))
                        \<and> (\<forall>other \<in> set (gw_other_write_scopes g). \<not> inside_scope path other)))))))"
proof -
  have s: "scoped P g g'"
    using scope.dispatch_relation [of P g depth cancelled raw] assms(1) by simp
  have "\<exists>ws'. gw_workspace g' = Some ws' \<and> tree_ok ws'
      \<and> (\<forall>q. sr_nodes ws' q \<noteq> sr_nodes ws q \<longrightarrow> changed_in_scope g (sr_nodes ws) (sr_nodes ws') q)"
    if "gp_shell P = None \<or> \<not> is_allowed g ''Shell''"
  proof -
    from s that have "workspace_ok g'" "workspace_change g (Some ws) (gw_workspace g')"
      using assms(2,3) by (auto simp: scoped_def workspace_ok_def may_run_commands_def)
    then obtain ws' where ws': "gw_workspace g' = Some ws'" "tree_ok ws'" "\<And>q. node_change g q (sr_nodes ws q) (sr_nodes ws' q)"
      by (cases "gw_workspace g'") (auto simp: workspace_change_def workspace_ok_def)
    then show ?thesis using node_change_in_scope by blast
  qed
  moreover from s have "same_rights g g'" by (simp add: scoped_def)
  ultimately show ?thesis unfolding changed_in_scope_def by blast
qed

text \<open>C23: the quotas of a gateway hold. However a session calls its tools, directly and from scripts, from the construction of
  the gateway on at most 2000 reads are carried out, the shell runner is called at most 2000 times and at most 64 MiB are
  written, as the history of what the gateway did counts them; the history is only extended, the counters agree with it,
  and for a slice the recorded operations account for every byte written. (\<open>with_other_write_scopes\<close> constructs a
  new gateway, whose counters start again.)\<close>

theorem gateway_quotas:
  assumes "tool_gateway_init policy_sha256 g0 = Inr g"
    and "g1 = fold (\<lambda>(depth, cancelled, raw) g. snd (dispatch_at P depth cancelled raw g)) before g"
    and "g2 = fold (\<lambda>(depth, cancelled, raw) g. snd (dispatch_at P depth cancelled raw g)) later g1"
  shows "reads_run g2 \<le> 2000 \<and> commands_run g2 \<le> 2000 \<and> bytes_written g2 \<le> 67108864
    \<and> prefix (gw_calls g1) (gw_calls g2)
    \<and> reads_run g2 = gw_read_calls g2 \<and> commands_run g2 \<le> gw_shell_calls g2 \<and> bytes_written g2 = gw_write_bytes g2
    \<and> (gc_run_id (gw_context g2) \<noteq> None \<and> gc_slice_id (gw_context g2) \<noteq> None \<and> gc_generation (gw_context g2) \<noteq> None
         \<longrightarrow> sum_list (map fo_bytes_written (gw_operations g2)) = bytes_written g2)"
proof -
  have kept: "quota_kept h (fold (\<lambda>(depth, cancelled, raw) g. snd (dispatch_at P depth cancelled raw g)) calls h)" for calls h
  proof (induction calls arbitrary: h)
    case (Cons c calls)
    obtain depth cancelled raw where c: "c = (depth, cancelled, raw)" by (metis prod.exhaust)
    from quota.R_trans [OF quota.dispatch_relation Cons.IH] show ?case by (simp add: c)
  qed (simp add: quota.R_refl)
  from kept [of g before] kept [of g1 later] gateway_init_quota [OF assms(1)] assms(2,3)
  have "quota_ok g2" "prefix (gw_calls g1) (gw_calls g2)" by (simp_all add: quota_kept_def)
  then show ?thesis by (simp add: quota_ok_def max_read_calls_def max_read_bytes_def mib_def)
qed

section \<open>Edits\<close>

lemma occurrences_nth:
  "old \<noteq> [] \<Longrightarrow> p \<in> set (occurrences old k s) \<Longrightarrow> k \<le> p \<and> prefix old (drop (p - k) s)"
proof (induction old k s rule: occurrences.induct)
  case (1 old k s)
  show ?case
  proof (cases "s = []")
    case False
    show ?thesis
    proof (cases "prefix old s")
      case True
      with 1 False consider "p = k" | "p \<in> set (occurrences old (k + length old) (drop (length old) s))"
        by (auto simp: occurrences.simps [of old k s])
      then show ?thesis
      proof cases
        case 2
        with "1.IH"(1) "1.prems"(1) False True have "k + length old \<le> p \<and> prefix old (drop (p - (k + length old)) (drop (length old) s))"
          by blast
        then show ?thesis by (auto simp: add.commute)
      qed (use True in simp)
    next
      case no: False
      with 1 False have "Suc k \<le> p \<and> prefix old (drop (p - Suc k) (tl s))"
        by (auto simp: occurrences.simps [of old k s])
      moreover from this have "drop (p - k) s = drop (p - Suc k) (tl s)"
        by (metis Suc_diff_le Suc_le_lessD diff_Suc_Suc drop_Suc less_imp_le_nat Suc_le_D)
      ultimately show ?thesis by simp
    qed
  qed (use 1 in \<open>simp add: occurrences.simps [of old k "[]"]\<close>)
qed

lemma occurrences_none: "old \<noteq> [] \<Longrightarrow> occurrences old k s = [] \<longleftrightarrow> \<not> sublist old s"
proof (induction old k s rule: occurrences.induct)
  case (1 old k s)
  show ?case
  proof (cases s)
    case (Cons c cs)
    with 1 show ?thesis
      by (cases "prefix old s") (auto simp: occurrences.simps [of old k "c # cs"] sublist_Cons_right)
  qed (use 1 in \<open>simp add: occurrences.simps [of old k "[]"]\<close>)
qed

lemma occurrences_single:
  "old \<noteq> [] \<Longrightarrow> occurrences old k s = [p] \<Longrightarrow>
     \<not> sublist old (drop (p - k + length old) s) \<and> (\<forall>i < p - k. \<not> prefix old (drop i s))"
proof (induction old k s rule: occurrences.induct)
  case (1 old k s)
  then have s: "s \<noteq> []" by (auto simp: occurrences.simps [of old k "[]"])
  show ?case
  proof (cases "prefix old s")
    case True
    with 1 s have "p = k" "occurrences old (k + length old) (drop (length old) s) = []"
      by (auto simp: occurrences.simps [of old k s])
    with occurrences_none "1.prems"(1) show ?thesis by auto
  next
    case False
    with 1 s have IH: "\<not> sublist old (drop (p - Suc k + length old) (tl s))" "\<And>i. i < p - Suc k \<Longrightarrow> \<not> prefix old (drop i (tl s))"
      and p: "occurrences old (Suc k) (tl s) = [p]"
      by (auto simp: occurrences.simps [of old k s])
    have k: "p - k = Suc (p - Suc k)"
      using occurrences_nth [OF "1.prems"(1), of p "Suc k" "tl s"] p by auto
    have "\<not> prefix old (drop i s)" if "i < p - k" for i
      using that False IH(2) k s by (cases i) (auto simp: drop_Suc)
    with IH(1) k show ?thesis by (simp add: drop_Suc)
  qed
qed

lemma commit_write_known:
  assumes "commit_write ws edit path data over out g = (Inr (Inr out'), g')" "read_bytes ws path limit = Inr s"
  shows "out' = out \<and> gw_workspace g' = Some (ws\<lparr>sr_nodes := (sr_nodes ws)(segments_of path := Some (sr_device ws, FileNode data))\<rparr>)"
proof -
  let ?p = "segments_of path"
  note r = read_bytes_Inr [OF assms(2)]
  have "open_parent True ws [] (butlast ?p) = (Inr (), ws)"
    by (rule open_parent_walk [OF r(2)])
  then have "write_atomic ws path data = (Inr True, ws\<lparr>sr_nodes := (sr_nodes ws)(?p := Some (sr_device ws, FileNode data))\<rparr>)"
    using r by (simp add: write_atomic_def open_leaf_def assert_regular_file_def)
  with assms(1) show ?thesis
    by (auto simp: commit_write_def record_operation_def Let_def split: if_splits option.splits)
qed

text \<open>C24: an edit replaces one occurrence and nothing else. When \<open>EditFile\<close> succeeds, the file was text that holds the old
  text, that occurrence is replaced and every other byte and every other node of the workspace stays; without an
  occurrence number the old text starts nowhere before the replaced occurrence and nowhere after it, and with
  the number n it is the n-th one in the order of the scan.\<close>

theorem edit_replaces_one:
  assumes "gateway_edit path old new occur g = (Inr (Inr out), g')" "old \<noteq> []"
  shows "\<exists>ws before after_it. gw_workspace g = Some ws \<and> in_write_scope g path True
    \<and> read_bytes ws path None = Inr (before @ old @ after_it)
    \<and> gw_workspace g' = Some (ws\<lparr>sr_nodes := (sr_nodes ws)(segments_of path := Some (sr_device ws, FileNode (before @ new @ after_it)))\<rparr>)
    \<and> (case occur of
         None \<Rightarrow> \<not> sublist old after_it \<and> (\<forall>i < length before. \<not> prefix old (drop i (before @ old @ after_it)))
       | Some n \<Rightarrow> nat (n - 1) < length (occurrences old 0 (before @ old @ after_it))
           \<and> occurrences old 0 (before @ old @ after_it) ! nat (n - 1) = length before)"
proof -
  obtain ws data where ws: "gw_workspace g = Some ws" and r: "read_bytes ws path (Some max_read_bytes) = Inr data"
    and scope: "in_write_scope g path True" and e: "edit_text ws path old new occur data g = (Inr (Inr out), g')"
    using assms(1) by (auto simp: gateway_edit_def Let_def path_denied_def split: option.splits if_splits sum.splits root_exn.splits bool.splits)
  let ?ps = "occurrences old 0 data" and ?i = "case occur of None \<Rightarrow> 0 | Some n \<Rightarrow> nat (n - 1)"
  let ?p = "?ps ! ?i"
  have i: "?i < length ?ps" "occur = None \<Longrightarrow> \<not> length ?ps > 1"
    and c: "commit_write ws True path (replace_at data ?p old new) True (EditFileOutput path (line_at data ?p) (length data) (length (replace_at data ?p old new))) g
      = (Inr (Inr out), g')"
    using e by (auto simp: edit_text_def Let_def split: if_splits option.splits)
  have "prefix old (drop ?p data)"
    using occurrences_nth [OF assms(2) nth_mem [OF i(1)]] by simp
  then obtain rest where rest: "drop ?p data = old @ rest" by (auto simp: prefix_def)
  then have short: "?p \<le> length data" using assms(2) by (cases "?p \<le> length data") auto
  define before where "before = take ?p data"
  have data: "data = before @ old @ rest" "length before = ?p"
    using rest short unfolding before_def by (metis append_take_drop_id, simp)
  have "replace_at data ?p old new = before @ new @ rest"
    by (metis add.commute append_eq_conv_conj drop_drop rest before_def replace_at_def)
  with commit_write_known [OF c r]
  have g': "gw_workspace g' = Some (ws\<lparr>sr_nodes := (sr_nodes ws)(segments_of path := Some (sr_device ws, FileNode (before @ new @ rest)))\<rparr>)"
    by simp
  have "read_bytes ws path None = Inr data"
    using read_bytes_Inr [OF r] by (intro read_bytes_file) auto
  moreover have "\<not> sublist old rest \<and> (\<forall>i < length before. \<not> prefix old (drop i data))" if "occur = None"
  proof -
    have "?ps = [length before]" using i that data(2) by (cases ?ps) (auto simp: not_less)
    from occurrences_single [OF assms(2) this] data(1) show ?thesis by simp
  qed
  moreover have "nat (n - 1) < length ?ps \<and> ?ps ! nat (n - 1) = length before" if "occur = Some n" for n
    using i(1) data(2) that by simp
  ultimately show ?thesis
    using ws scope g' unfolding data(1)
    by (intro exI [of _ ws] exI [of _ before] exI [of _ rest]) (simp split: option.split)
qed

section \<open>Examples\<close>

definition ex_gateway :: gateway where
  "ex_gateway = \<lparr>
     gw_context = \<lparr>gc_run_id = Some (0 :: uuid), gc_draft_id = None, gc_agent_run_id = Some 1, gc_phase_policy_sha256 = [], gc_phase = PhExecute,
       gc_session_kind = SkImplementation, gc_slice_id = Some 2, gc_generation = Some 0\<rparr>,
     gw_snapshot = ex_root, gw_workspace = Some ex_root, gw_contract_roots = [], gw_verified = None, gw_cas = None,
     gw_write_scope = Some \<lparr>ws_write_paths = [''a''], ws_create_roots = []\<rparr>, gw_other_write_scopes = [],
     gw_policy = [(''EXECUTE'', [''WriteFile'', ''EditFile''])],
     gw_read_calls = 0, gw_shell_calls = 0, gw_write_bytes = 0, gw_operations = [], gw_audit = [], gw_calls = []\<rparr>"

definition ex_gateway_ports :: "unit gateway_ports" where
  "ex_gateway_ports = \<lparr>gp_parse_query = \<lambda>_. None, gp_query = None, gp_shell = None, gp_exec = None, gp_sha256 = id,
     gp_canonical_sha256 = \<lambda>_. None, gp_repr_sha256 = \<lambda>_. []\<rparr>"

definition ex_write :: pyval where
  "ex_write = obj [(''tool'', PStr ''WriteFile''), (''path'', PStr ''a''), (''content'', PStr ''xyx'')]"

definition ex_written :: gateway where
  "ex_written = snd (gateway_write ''a'' ''xyx'' ex_gateway)"

lemmas ex_gateway_defs = ex_gateway_def ex_gateway_ports_def ex_write_def ex_written_def ex_root_def

lemmas write_eval = gateway_write_def root_exists_def validate_relative_path_def segments_of_def open_leaf_def unsafe_parts_def
  in_write_scope_def write_allowed_def commit_write_def write_atomic_def record_operation_def max_read_bytes_def mib_def is_ok_def

lemma ex_write_result:
  "gateway_write ''a'' ''xyx'' ex_gateway = (Inr (Inr (WriteFileOutput ''a'' 3 False)), ex_gateway\<lparr>
     gw_workspace := Some (ex_root\<lparr>sr_nodes := (sr_nodes ex_root)([''a''] := Some (1, FileNode ''xyx''))\<rparr>),
     gw_write_bytes := 3, gw_calls := [BytesWritten ''a'' 3],
     gw_operations := [\<lparr>fo_run_id = 0, fo_slice_id = 2, fo_generation = 0, fo_edit = False, fo_path = ''a'', fo_bytes_written = 3, fo_overwritten = False\<rparr>]\<rparr>)"
  by (simp add: write_eval ex_gateway_defs)

lemmas dispatch_eval = dispatch_step_def Let_def tool_name_of_def as_object_def audit_tool_def gateway_tools_def parse_raw_def parse_call_def
  parse_write_def text_field_def only_fields_def bounded_text_def is_allowed_def run_call_def execute_def emit_event_def

lemma ex_dispatch:
  "\<exists>g'. dispatch_at ex_gateway_ports 1 False ex_write ex_gateway = (Inr (Inr (WriteFileOutput ''a'' 3 False)), g')
     \<and> gw_workspace g' = Some (ex_root\<lparr>sr_nodes := (sr_nodes ex_root)([''a''] := Some (1, FileNode ''xyx''))\<rparr>)
     \<and> gw_write_bytes g' = 3"
  by (simp add: dispatch_eval write_eval ex_gateway_defs)

theorem gateway_changes_in_scope_witness:
  "\<exists>g' ws'. dispatch_at ex_gateway_ports 1 False ex_write ex_gateway = (Inr (Inr (WriteFileOutput ''a'' 3 False)), g')
     \<and> gw_workspace g' = Some ws' \<and> tree_ok ws' \<and> sr_nodes ws' [''a''] = Some (1, FileNode ''xyx'') \<and> same_rights ex_gateway g'
     \<and> in_write_scope ex_gateway ''a'' False"
proof -
  obtain g' where d: "dispatch_at ex_gateway_ports 1 False ex_write ex_gateway = (Inr (Inr (WriteFileOutput ''a'' 3 False)), g')"
    and w: "gw_workspace g' = Some (ex_root\<lparr>sr_nodes := (sr_nodes ex_root)([''a''] := Some (1, FileNode ''xyx''))\<rparr>)"
    using ex_dispatch by blast
  have "gw_workspace ex_gateway = Some ex_root" "tree_ok ex_root"
    by (simp_all add: ex_gateway_defs tree_ok_def)
  moreover have "gp_shell ex_gateway_ports = None" by (simp add: ex_gateway_ports_def)
  ultimately show ?thesis
    using gateway_changes_in_scope [OF d] w d by (simp add: in_write_scope_def write_allowed_def ex_gateway_def)
qed

theorem gateway_quotas_witness:
  "tool_gateway_init [] ex_gateway = Inr ex_gateway
   \<and> bytes_written (snd (dispatch_at ex_gateway_ports 1 False ex_write ex_gateway)) = 3
   \<and> reads_run (snd (dispatch_at ex_gateway_ports 1 False ex_write ex_gateway)) \<le> 2000
   \<and> bytes_written (snd (dispatch_at ex_gateway_ports 1 False ex_write ex_gateway))
     = gw_write_bytes (snd (dispatch_at ex_gateway_ports 1 False ex_write ex_gateway))"
proof -
  have i: "tool_gateway_init [] ex_gateway = Inr ex_gateway"
    by (simp add: tool_gateway_init_def ex_gateway_def)
  have "gw_write_bytes (snd (dispatch_at ex_gateway_ports 1 False ex_write ex_gateway)) = 3"
    using ex_dispatch by auto
  with gateway_quotas [OF i refl refl, where before = "[]" and later = "[(1, False, ex_write)]" and P = ex_gateway_ports] i
  show ?thesis by simp
qed

theorem edit_replaces_one_witness:
  "\<exists>out g' ws. gateway_edit ''a'' ''y'' ''zz'' None ex_written = (Inr (Inr out), g') \<and> gw_workspace g' = Some ws
     \<and> sr_nodes ws [''a''] = Some (1, FileNode ''xzzx'')"
proof -
  have w: "ex_written = snd (gateway_write ''a'' ''xyx'' ex_gateway)" by (rule ex_written_def)
  have o: "occurrences ''y'' 0 ''xyx'' = [1]"
    by (simp add: occurrences.simps)
  obtain out g' where e: "gateway_edit ''a'' ''y'' ''zz'' None ex_written = (Inr (Inr out), g')"
    unfolding w ex_write_result gateway_edit_def edit_text_def read_bytes_def
    by (simp add: write_eval ex_gateway_def ex_root_def assert_regular_file_def o replace_at_def Let_def)
  have "\<exists>ws. gw_workspace g' = Some ws \<and> sr_nodes ws [''a''] = Some (1, FileNode ''xzzx'')"
    using edit_replaces_one [OF e] unfolding w ex_write_result
    by (auto simp: read_bytes_def write_eval ex_gateway_def ex_root_def assert_regular_file_def Cons_eq_append_conv append_eq_Cons_conv)
  with e show ?thesis by blast
qed

text \<open>A call whose tool name is not text leaves \<open>dispatch\<close> by an exception, before anything is recorded: the model of the first
  audit event rejects the name, or asks for its hash.\<close>

lemma dispatch_name_escapes:
  "dispatch_at P (Suc depth) cancelled (obj [(''tool'', PInt 5)]) g = (Inl ValidationEscape, g)"
  "dispatch_at P (Suc depth) cancelled (obj [(''tool'', PList [])]) g = (Inl TypeEscape, g)"
  by (simp_all add: dispatch_step_def Let_def tool_name_of_def as_object_def audit_tool_def)

end
