(* ===== verification/Spec2Isabelle.thy ===== *)
theory Spec2Isabelle
  imports Plan_Properties Core_Properties Scheduler Integration Budget Verification_Execution Verification_Routing
    Store_Properties Actor_Properties Runtime_Codec Planning_Ripple Planning_Derivation Context_Blocks Repair Draft_Flow Provider_Adapters
    Gateway_Properties
begin

text \<open>
  A verification library for CodeMigrator, the service under \<open>src/src/codemigrator\<close> that migrates a code base
  in slices planned and written by language models and checked mechanically. A \<^emph>\<open>draft\<close> is agreed with the
  user and frozen; the \<^emph>\<open>planner\<close> turns the analysis of the repository into a frozen plan of slices; the
  \<^emph>\<open>run actor\<close> drives a run through its phases and records every fact in the \<^emph>\<open>store\<close>; the \<^emph>\<open>scheduler\<close> hands
  out slices, the \<^emph>\<open>context manager\<close> assembles what a model sees, \<^emph>\<open>verification\<close> judges what it wrote, the
  \<^emph>\<open>integration coordinator\<close> merges candidates one after the other, and \<^emph>\<open>repair\<close> reworks what failed together.
  A session of a model acts through the \<^emph>\<open>tool gateway\<close> alone.
  The deterministic core of these parts is what the theories model; Git, containers, SQL and the HTTP exchange
  are outside.

  \<^bold>\<open>Conventions.\<close> Every definition is executable and keeps the name of the Python function or class it
  translates where HOL permits it. A class is a record, an enumeration a datatype, a method that mutates its
  object a function that returns the new state, an exception the left summand of a result, a \<open>dict\<close> an
  association list in insertion order. A \<open>str\<close> is its UTF-8 encoding, an \<open>int\<close> is \<^typ>\<open>int\<close> (Python integers do
  not overflow), a UUID a 128-bit word, a \<open>float\<close> an IEEE double computed on rationals with round to even
  (\<open>Py_Float\<close>). An error message that quotes values keeps its fixed part. Operations guarded by an asyncio
  lock are atomic; an interleaving of tasks is a sequence of operations.

  \<^bold>\<open>Parameters.\<close> SHA-256, the RFC 8785 serialiser, Unicode normalisation, the tokenizer, the text of a float
  and \<open>new_uuid7\<close> are arguments of the definitions that use them, as are the ports of the program (store
  failures, runners, sinks, budget and context windows). Theorems state what they need of them: that a
  fresh identity is fresh, that a digest is a digest. Nothing is assumed about a language model: its output
  is an arbitrary value.

  \<^bold>\<open>Shared theories.\<close>
  \<^item> \<open>Prelude\<close>: results, strings, dictionaries, sorted sets, and the lemma collections \<open>str_simps\<close> and
    \<open>res_simps\<close>. \<open>Py_Regex\<close>, \<open>Py_Uuid\<close>, \<open>Py_Float\<close>, \<open>Py_Json\<close>: what the program uses of the standard library.
  \<^item> \<open>Core_Enums\<close> (\<open>core/enums.py\<close>, \<open>core/errors.py\<close>), \<open>Core_Paths\<close> (\<open>core/paths.py\<close>, \<open>core/scope.py\<close>, \<open>core/ids.py\<close>)
    with \<open>Core_Properties\<close>: normal forms of paths and the exact meaning of scope patterns. \<open>Core_Secrets\<close>
    (\<open>core/secrets.py\<close>): in a payload that passes the scan no string value contains a registered secret
    in any encoding; keys are not scanned.
  \<^item> \<open>Path_Tree\<close>: the locale of path containment. The planner's and the scheduler's containment tests
    interpret it, and both take the disjointness of write scopes from it.

  \<^bold>\<open>Planning.\<close> \<open>Analysis_Model\<close> (\<open>analysis/models.py\<close>), \<open>Plan_Model\<close> (\<open>core/models/plan.py\<close>, \<open>planning/models.py\<close>),
  \<open>Plan_Validator\<close>, \<open>Plan_Cycle\<close> and \<open>Plan_Ledger\<close> (\<open>planning/validator.py\<close>, \<open>planning/retry.py\<close>), with
  \<open>Plan_Properties\<close>: Kahn's algorithm decides acyclicity; an accepted plan covers each file once, keeps parallel
  write scopes apart, ranks its edges and isolates tests; freezing yields a linear extension; the retry loop
  ends. \<open>Planning_Derivation\<close> (\<open>planning/derivation.py\<close>) and \<open>Planning_Ripple\<close> (\<open>planning/ripple.py\<close>): the mechanical
  proposal follows the modules, and the ripple of a change is exactly the reverse import closure.

  \<^bold>\<open>Drafting.\<close> \<open>Draft_Validation\<close> (\<open>runtime/draft_validation.py\<close>), \<open>Draft_Models\<close> (\<open>runtime/draft_models.py\<close>), \<open>Draft_Ledger\<close>
  and \<open>Draft_Flow\<close> (\<open>runtime/draft.py\<close>). The exploration skeleton partitions the files; the coverage and dossier
  tests decide their declarative conditions; the ledger restores from its own facts; a freeze is final and
  complete; the stages of the flow mean what they say. The locale \<open>sealing_ledger\<close> (operations keep an invariant,
  a sealed state does not change) is interpreted by the ledger and by the flow.

  \<^bold>\<open>Running.\<close> \<open>Scheduler\<close> (\<open>runtime/scheduler.py\<close>): disjoint scopes in flight, soundness, completeness, fairness.
  \<open>Integration\<close> (\<open>runtime/integration.py\<close>): first in, first out, one linear history of heads, bounded retries.
  \<open>Budget\<close> (\<open>runtime/budget.py\<close>): idempotent wallet and exact thresholds for limits up to \<open>2^51\<close>, below which every
  product in the threshold test is exact in double precision.
  \<open>Runtime_Contracts\<close>, \<open>Runtime_Advice\<close>, \<open>Runtime_Store\<close>, \<open>Runtime_Ledger\<close>, \<open>Runtime_Log\<close>, \<open>Runtime_Codec\<close> and \<open>Store_Properties\<close>
  (\<open>runtime/contracts.py\<close>, \<open>agent_runs.py\<close>, \<open>advice.py\<close>, \<open>recovery.py\<close>, \<open>store.py\<close>): the in-memory store. The locale
  \<open>log_writer\<close> states what one transaction may do to the log; commits, creation, agent receipts and
  integration receipts interpret it. Event logs have no gaps, agent runs are written once, integration
  receipts form a chain, and the JSON codec round-trips (but for one flag, see the findings).
  \<open>Run_Actor\<close>, \<open>Run_Handlers\<close>, \<open>Actor_Lifecycle\<close>, \<open>Actor_Frame\<close>, \<open>Actor_Replay\<close> and \<open>Actor_Properties\<close> (\<open>runtime/actor.py\<close>): every handler
  of the mailbox, its refinement of the abstract life cycle of a run under every history of messages and
  store failures, workflow commands that take effect exactly once (also when they are sent again after other
  messages, which \<open>Actor_Replay\<close> shows not to touch a recorded receipt), and what a stopped run cannot do.
  \<open>Context_Manager\<close> and \<open>Context_Blocks\<close> (\<open>runtime/context.py\<close>, \<open>templates.py\<close>, \<open>memory.py\<close>): admitted contexts fit the
  window, the evolution log only grows, tool results are governed (256 KiB; line numbers of at most nineteen
  digits bound the marker a read appends), eviction is exact, recovery briefs are projections of the log.
  \<open>Action_Protocol\<close> and \<open>Agent_Loop\<close> (\<open>workspace/protocol.py\<close>, \<open>runtime/normalizer.py\<close>, \<open>binding.py\<close>, \<open>loop.py\<close>): one session of
  a model with its tools, over arbitrary ports. Output becomes actions without guessing, a session ends within
  its rounds, and it publishes only through the checkpoint. \<open>prog_sat\<close> and its rules carry the stages of a round.
  \<open>Provider_Adapters\<close> (\<open>runtime/provider.py\<close>): requests and responses of the two adapters over a port for HTTP. Failures carry known
  codes and are retryable exactly when the service may recover, accepted responses are checked, and a session
  with an adapter only sends conversations that the adapter can render.
  \<open>Workspace_Paths\<close> (\<open>workspace/paths.py\<close>), \<open>Workspace_Gateway\<close> (\<open>workspace/models.py\<close>, \<open>gateway.py\<close>) and \<open>Gateway_Properties\<close>: the boundary
  through which a model reads and writes. A root is a tree of nodes, opened segment by segment without following
  links; a script of a model is a tree of the calls it makes. The locale \<open>gateway_relation\<close> carries a relation that
  every tool keeps over all nested calls; it is interpreted for the quotas and for the write scope. A write
  reads back and changes nothing else, an edit replaces one occurrence.
  \<open>Repair\<close> (\<open>runtime/repair.py\<close>): joint admission decides the declarative condition, and an accepted dispatch
  passed every gate, composed with the coordinator of \<open>Integration\<close>.

  \<^bold>\<open>Verification.\<close> \<open>Verification_Checks\<close>, \<open>Verification_Execution\<close>, \<open>Verification_Routing\<close> (\<open>verification/checks.py\<close>,
  \<open>execution.py\<close>, \<open>routing.py\<close>): the exact-set guard, the precedence of outcomes, flaky reduction, and the boundary
  of direct regeneration; conservation is exact for counts whose products a double holds.

  \<^bold>\<open>Termination.\<close> All functions are total. Loops are structural recursions over the list they traverse or
  have a measure (the queue of Kahn's algorithm, the closure of a ripple, the code points of a string); no
  definition uses fuel. The one bound is the depth of scripts that call scripts through the gateway (\<open>dispatch_at\<close>): it stands
  for the recursion limit of the interpreter, reaching it is the exception the interpreter raises, and the theorems
  hold for every depth.

  \<^bold>\<open>Not modelled.\<close> Language-model adapters and prompts (\<open>langchain_agent.py\<close>, \<open>plan_agent.py\<close>, \<open>execution_agent.py\<close>,
  \<open>draft_graph.py\<close>, \<open>supervisor.py\<close>): their results are arbitrary values here. The tree-sitter analysis (\<open>analysis/pipeline.py\<close>,
  \<open>rules.py\<close>): its facts are inputs. The PostgreSQL adapter of the store, the HTTP API, the sandbox and Git
  (\<open>api\<close>, \<open>sandbox\<close>, \<open>workspace/git.py\<close>, \<open>lifecycle.py\<close>): input and output of other systems. The composition with LangGraph
  (\<open>migration_pipeline.py\<close>, \<open>project_migration.py\<close>, \<open>app.py\<close>). Parsing of a Spec (\<open>core/spec.py\<close>) beyond its scope.
\<close>

end
